(* ===== verification/Prelude.thy ===== *)
theory Prelude
  imports Complex_Main
begin

text \<open>
  Shared vocabulary of the development: the type names of the model, the error values the
  services raise (\<open>core/errors.py\<close> and the standard library's own), the result type of every
  operation with its sequencing combinator, JSON-like payload values, database tables as lists
  of rows with the three accesses the services use, and the generic lemmas about them.
\<close>

named_theorems result_simps \<open>rewrite rules that open a successful run of an operation\<close>
named_theorems table_simps \<open>rewrite rules for tables\<close>

section \<open>Names of the model\<close>

type_synonym uuid = nat
type_synonym decimal = rat
type_synonym pyfloat = rat
type_synonym date = int
type_synonym datetime = int

text \<open>
  \<open>uuid\<close> values are only ever compared, so they are natural numbers. A \<open>decimal\<close> is the exact
  value of a Python \<open>Decimal\<close>; a \<open>pyfloat\<close> is the exact value of a finite binary64 double. A
  \<open>date\<close> is its proleptic Gregorian ordinal (\<open>date.toordinal\<close>), a \<open>datetime\<close> the number of
  microseconds since the epoch in UTC.
\<close>

section \<open>Errors and results\<close>

datatype error =
    NotFoundError string
  | ConflictError string
  | ForbiddenError string
  | ValidationError string
  | InvalidTokenError string
  | MockHardwareRefused string
  | ValueError string
  | TypeError string
  | IntegrityError string
  | InvalidOperation
  | DivisionByZero
  | PricingResolutionError string string
  | PricingIntegrityError string "uuid list"
  | PricingCalculationError "string list"

type_synonym 'a result = "error + 'a"

definition andthen :: "'a result \<Rightarrow> ('a \<Rightarrow> 'b result) \<Rightarrow> 'b result" where
  "andthen m f = (case m of Inl e \<Rightarrow> Inl e | Inr x \<Rightarrow> f x)"

lemma andthen_Inl [simp]: "andthen (Inl e) f = Inl e"
  by (simp add: andthen_def)

lemma andthen_Inr [simp]: "andthen (Inr x) f = f x"
  by (simp add: andthen_def)

lemma andthen_eq_Inr [result_simps]:
  "andthen m f = Inr y \<longleftrightarrow> (\<exists>x. m = Inr x \<and> f x = Inr y)"
  by (auto simp: andthen_def split: sum.splits)

lemma andthen_eq_Inl:
  "andthen m f = Inl e \<longleftrightarrow> m = Inl e \<or> (\<exists>x. m = Inr x \<and> f x = Inl e)"
  by (auto simp: andthen_def split: sum.splits)

lemma if_Inl_eq_Inr [result_simps]:
  "(if b then Inl e else r) = Inr y \<longleftrightarrow> \<not> b \<and> r = Inr y"
  by simp

lemma if_Inr_Inl_eq_Inr [result_simps]:
  "(if b then r else Inl e) = Inr y \<longleftrightarrow> b \<and> r = Inr y"
  by simp

definition need :: "error \<Rightarrow> 'a option \<Rightarrow> 'a result" where
  "need e opt = (case opt of None \<Rightarrow> Inl e | Some x \<Rightarrow> Inr x)"

lemma need_None [simp]: "need e None = Inl e"
  by (simp add: need_def)

lemma need_Some [simp]: "need e (Some x) = Inr x"
  by (simp add: need_def)

lemma need_eq_Inr [result_simps]: "need e opt = Inr x \<longleftrightarrow> opt = Some x"
  by (cases opt) simp_all

definition is_ok :: "'a result \<Rightarrow> bool" where
  "is_ok r = (case r of Inl _ \<Rightarrow> False | Inr _ \<Rightarrow> True)"

lemma is_ok_simps [simp]: "\<not> is_ok (Inl e)" "is_ok (Inr x)"
  by (simp_all add: is_ok_def)

lemma is_ok_iff: "is_ok r \<longleftrightarrow> (\<exists>x. r = Inr x)"
  by (cases r) simp_all

section \<open>Payload values\<close>

text \<open>
  Event payloads, audit details and snapshots are JSON objects. A \<open>str(Decimal)\<close> in a payload is
  kept as the number it denotes (\<open>JDec\<close>), because the readers parse it back with \<open>Decimal\<close>.
\<close>

datatype json =
    JNull
  | JBool bool
  | JInt int
  | JStr string
  | JId uuid
  | JDec decimal
  | JFloat pyfloat
  | JDate date
  | JTime datetime
  | JList "json list"
  | JObj "(string \<times> json) list"

type_synonym payload = "(string \<times> json) list"

fun json_opt :: "('a \<Rightarrow> json) \<Rightarrow> 'a option \<Rightarrow> json" where
  "json_opt f None = JNull"
| "json_opt f (Some x) = f x"

section \<open>Tables\<close>

text \<open>
  A table is the list of its rows in insertion order. \<open>row_get\<close> is \<open>session.get\<close> by primary key,
  \<open>row_update\<close> an in-place change of the row with that key, \<open>row_delete\<close> its deletion; a
  \<open>session.scalar(select(...).where(...))\<close> is \<open>List.find\<close>, and \<open>session.add\<close> appends.
\<close>

definition row_get :: "('r \<Rightarrow> uuid) \<Rightarrow> uuid \<Rightarrow> 'r list \<Rightarrow> 'r option" where
  "row_get key i rows = find (\<lambda>r. key r = i) rows"

definition row_update :: "('r \<Rightarrow> uuid) \<Rightarrow> uuid \<Rightarrow> ('r \<Rightarrow> 'r) \<Rightarrow> 'r list \<Rightarrow> 'r list" where
  "row_update key i f rows = map (\<lambda>r. if key r = i then f r else r) rows"

definition row_delete :: "('r \<Rightarrow> uuid) \<Rightarrow> uuid \<Rightarrow> 'r list \<Rightarrow> 'r list" where
  "row_delete key i rows = filter (\<lambda>r. key r \<noteq> i) rows"

definition unique_keys :: "('r \<Rightarrow> 'k) \<Rightarrow> 'r list \<Rightarrow> bool" where
  "unique_keys key rows \<longleftrightarrow> distinct (map key rows)"

lemma find_None_ball: "find P xs = None \<longleftrightarrow> (\<forall>x \<in> set xs. \<not> P x)"
  by (induction xs) auto

lemma find_SomeD: "find P xs = Some x \<Longrightarrow> x \<in> set xs \<and> P x"
  by (induction xs) (auto split: if_splits)

lemma find_exists: "x \<in> set xs \<Longrightarrow> P x \<Longrightarrow> \<exists>y. find P xs = Some y"
  by (induction xs) auto

lemma row_get_SomeD: "row_get key i rows = Some r \<Longrightarrow> r \<in> set rows \<and> key r = i"
  unfolding row_get_def by (drule find_SomeD) simp

lemma row_get_Nil [simp]: "row_get key i [] = None"
  by (simp add: row_get_def)

lemma row_get_Cons [simp]:
  "row_get key i (r # rows) = (if key r = i then Some r else row_get key i rows)"
  by (simp add: row_get_def)

lemma row_get_None_iff: "row_get key i rows = None \<longleftrightarrow> (\<forall>r \<in> set rows. key r \<noteq> i)"
  by (simp add: row_get_def find_None_ball)

lemma row_get_append:
  "row_get key i (xs @ ys) =
     (case row_get key i xs of None \<Rightarrow> row_get key i ys | Some r \<Rightarrow> Some r)"
  by (induction xs) auto

lemma unique_keysD:
  "unique_keys key rows \<Longrightarrow> r \<in> set rows \<Longrightarrow> s \<in> set rows \<Longrightarrow> key r = key s \<Longrightarrow> r = s"
  by (auto simp: unique_keys_def distinct_map inj_on_def)

lemma row_get_unique:
  "unique_keys key rows \<Longrightarrow> r \<in> set rows \<Longrightarrow> row_get key (key r) rows = Some r"
  by (induction rows) (auto simp: unique_keys_def)

lemma row_update_Nil [simp]: "row_update key i f [] = []"
  by (simp add: row_update_def)

lemma row_update_Cons [simp]:
  "row_update key i f (r # rows) = (if key r = i then f r else r) # row_update key i f rows"
  by (simp add: row_update_def)

lemma row_update_append [simp]:
  "row_update key i f (xs @ ys) = row_update key i f xs @ row_update key i f ys"
  by (simp add: row_update_def)

lemma set_row_update:
  "set (row_update key i f rows) = (\<lambda>r. if key r = i then f r else r) ` set rows"
  by (simp add: row_update_def)

lemma in_row_update [table_simps]:
  "x \<in> set (row_update key i f rows) \<longleftrightarrow>
     (\<exists>r \<in> set rows. (key r = i \<and> x = f r) \<or> (key r \<noteq> i \<and> x = r))"
  by (auto simp: set_row_update)

lemma length_row_update [simp]: "length (row_update key i f rows) = length rows"
  by (simp add: row_update_def)

lemma map_row_update:
  "(\<And>r. g (f r) = g r) \<Longrightarrow> map g (row_update key i f rows) = map g rows"
  by (simp add: row_update_def)

lemma unique_keys_row_update:
  "(\<And>r. g (f r) = g r) \<Longrightarrow> unique_keys g (row_update key i f rows) = unique_keys g rows"
  by (simp add: unique_keys_def map_row_update)

lemma row_get_row_update:
  assumes "\<And>r. key (f r) = key r"
  shows "row_get key j (row_update key i f rows) =
           (if i = j then map_option f (row_get key j rows) else row_get key j rows)"
  by (induction rows) (auto simp: assms)

lemma in_row_delete [table_simps]:
  "x \<in> set (row_delete key i rows) \<longleftrightarrow> x \<in> set rows \<and> key x \<noteq> i"
  by (auto simp: row_delete_def)

lemma unique_keys_row_delete: "unique_keys g rows \<Longrightarrow> unique_keys g (row_delete key i rows)"
  by (induction rows) (auto simp: unique_keys_def row_delete_def)

lemma unique_keys_append_fresh:
  "unique_keys g rows \<Longrightarrow> g r \<notin> g ` set rows \<Longrightarrow> unique_keys g (rows @ [r])"
  by (auto simp: unique_keys_def)

lemma unique_keys_append_next:
  "unique_keys g rows \<Longrightarrow> (\<And>x. x \<in> set rows \<Longrightarrow> g x < n) \<Longrightarrow> g r = n \<Longrightarrow> unique_keys g (rows @ [r])"
  for n :: nat
  by (rule unique_keys_append_fresh) (metis image_iff less_irrefl)+

lemma unique_keys_Nil [simp]: "unique_keys g []"
  by (simp add: unique_keys_def)

lemma unique_keys_filter: "unique_keys g rows \<Longrightarrow> unique_keys g (filter P rows)"
  by (induction rows) (auto simp: unique_keys_def)

text \<open>Replacing the row of a key by a given row.\<close>

lemma map_row_put:
  assumes "unique_keys key rows" and "r \<in> set rows" and "g r' = g r"
  shows "map g (row_update key (key r) (\<lambda>_. r') rows) = map g rows"
  using assms unique_keysD [OF assms(1)] by (auto simp: row_update_def)

lemma unique_keys_row_put:
  assumes "unique_keys key rows" and "r \<in> set rows" and "g r' = g r"
  shows "unique_keys g (row_update key (key r) (\<lambda>_. r') rows) = unique_keys g rows"
  unfolding unique_keys_def map_row_put [OF assms] ..

lemma in_row_put:
  assumes "r \<in> set rows"
  shows "x \<in> set (row_update key (key r) (\<lambda>_. r') rows) \<longleftrightarrow>
           x = r' \<or> (x \<in> set rows \<and> key x \<noteq> key r)"
  using assms by (auto simp: in_row_update)

lemma row_put_split:
  assumes "unique_keys key rows" and "r \<in> set rows"
  obtains as bs where "rows = as @ r # bs" and "row_update key (key r) (\<lambda>_. r') rows = as @ r' # bs"
    and "\<forall>x \<in> set as \<union> set bs. key x \<noteq> key r"
proof -
  obtain as bs where ab: "rows = as @ r # bs" using assms(2) by (auto dest: split_list)
  then have ne: "\<forall>x \<in> set as \<union> set bs. key x \<noteq> key r"
    using assms(1) by (auto simp: unique_keys_def image_iff)
  have "row_update key (key r) (\<lambda>_. r') xs = xs" if "\<forall>x \<in> set xs. key x \<noteq> key r" for xs
    using that by (induction xs) auto
  then show thesis using ab ne by (intro that [OF ab]) auto
qed

lemma unique_keys_replace:
  assumes "unique_keys key rows" and "r \<in> set rows" and "unique_keys g rows"
    and "\<And>s. s \<in> set rows \<Longrightarrow> key s \<noteq> key r \<Longrightarrow> g s \<noteq> g r'"
  shows "unique_keys g (row_update key (key r) (\<lambda>_. r') rows)"
proof -
  obtain as bs where ab: "rows = as @ r # bs" "row_update key (key r) (\<lambda>_. r') rows = as @ r' # bs"
    and ne: "\<forall>x \<in> set as \<union> set bs. key x \<noteq> key r"
    using row_put_split [OF assms(1,2)] .
  have "g r' \<notin> g ` (set as \<union> set bs)" using assms(4) ab(1) ne by force
  moreover have "distinct (map g (as @ r # bs))" using assms(3) by (simp add: ab(1) unique_keys_def)
  ultimately show ?thesis unfolding ab(2) unique_keys_def by auto
qed

lemma filter_row_put:
  assumes "unique_keys key rows" and "r \<in> set rows" and "\<not> P r" and "\<not> P r'"
  shows "filter P (row_update key (key r) (\<lambda>_. r') rows) = filter P rows"
proof -
  obtain as bs where "rows = as @ r # bs" "row_update key (key r) (\<lambda>_. r') rows = as @ r' # bs"
    using row_put_split [OF assms(1,2), of r'] by metis
  then show ?thesis using assms(3,4) by simp
qed

lemma filter_row_delete:
  assumes "unique_keys key rows" and "r \<in> set rows" and "\<not> P r"
  shows "filter P (row_delete key (key r) rows) = filter P rows"
  unfolding row_delete_def filter_filter
  using assms(3) unique_keysD [OF assms(1) _ assms(2)] by (intro filter_cong) auto

lemma row_get_put_option:
  "key r' = k \<Longrightarrow> row_get key j (row_update key k (\<lambda>_. r') rows) =
     (if j = k then map_option (\<lambda>_. r') (row_get key k rows) else row_get key j rows)"
  by (induction rows) auto

lemma row_get_put:
  assumes "r \<in> set rows" and "key r' = key r"
  shows "row_get key j (row_update key (key r) (\<lambda>_. r') rows) =
           (if j = key r then Some r' else row_get key j rows)"
proof -
  have "row_get key (key r) rows \<noteq> None"
    using assms(1) by (auto simp: row_get_None_iff)
  then show ?thesis
    using assms(2) by (auto simp: row_get_put_option)
qed

section \<open>Lists\<close>

lemma length_le_1_if_all_eq:
  assumes "distinct ys" and "\<And>r s. r \<in> set ys \<Longrightarrow> s \<in> set ys \<Longrightarrow> r = s"
  shows "length ys \<le> 1"
proof -
  have "card (set ys) \<le> Suc 0"
    using assms(2) by (subst card_le_Suc0_iff_eq) auto
  then show ?thesis by (simp add: distinct_card [OF assms(1)])
qed

lemma insort_key_sum: "sum_list (map f (insort_key k x xs)) = f x + sum_list (map f xs)" for f :: "'b \<Rightarrow> 'c::comm_monoid_add"
  by (induction xs) (simp_all add: add.left_commute)

lemma sort_key_sum: "sum_list (map f (sort_key k xs)) = sum_list (map f xs)" for f :: "'b \<Rightarrow> 'c::comm_monoid_add"
  by (induction xs) (simp_all add: insort_key_sum)

lemma unique_keys_filter_le_1:
  assumes "unique_keys key rows"
    and "\<And>r s. r \<in> set rows \<Longrightarrow> s \<in> set rows \<Longrightarrow> P r \<Longrightarrow> P s \<Longrightarrow> key r = key s"
  shows "length (filter P rows) \<le> 1"
proof (rule length_le_1_if_all_eq)
  show "distinct (filter P rows)"
    using assms(1) by (simp add: unique_keys_def distinct_map)
next
  fix r s
  assume "r \<in> set (filter P rows)" and "s \<in> set (filter P rows)"
  then show "r = s"
    using assms(2)[of r s] unique_keysD[OF assms(1), of r s] by simp
qed

lemma length_le_1_cases:
  "length xs \<le> 1 \<Longrightarrow> (xs = [] \<Longrightarrow> Q) \<Longrightarrow> (\<And>x. xs = [x] \<Longrightarrow> Q) \<Longrightarrow> Q"
  by (cases xs) auto


section \<open>Life cycles\<close>

text \<open>
  The status machines of the services share two laws: a terminal status has no way out, and, for
  most of them, every move goes up in a rank, so that no status is entered twice and the number of
  moves is bounded.
\<close>

locale lifecycle =
  fixes edge :: "'s \<Rightarrow> 's \<Rightarrow> bool" and terminal :: "'s \<Rightarrow> bool"
  assumes terminal_stuck: "terminal s \<Longrightarrow> \<not> edge s t"
begin

lemma terminal_stays: "edge\<^sup>*\<^sup>* s t \<Longrightarrow> terminal s \<Longrightarrow> t = s"
  by (induction rule: converse_rtranclp_induct) (auto dest: terminal_stuck)

end

locale ranked_lifecycle = lifecycle +
  fixes rank :: "'s \<Rightarrow> nat"
  assumes edge_rank: "edge s t \<Longrightarrow> rank s < rank t"
begin

lemma rank_mono: "edge\<^sup>*\<^sup>* s t \<Longrightarrow> rank s \<le> rank t"
  by (induction rule: rtranclp_induct) (auto dest: edge_rank)

lemma no_return: "edge\<^sup>*\<^sup>* s t \<Longrightarrow> edge\<^sup>*\<^sup>* t s \<Longrightarrow> t = s"
proof -
  assume st: "edge\<^sup>*\<^sup>* s t" and ts: "edge\<^sup>*\<^sup>* t s"
  show "t = s"
  proof (rule ccontr)
    assume "t \<noteq> s"
    then obtain u where "edge s u" "edge\<^sup>*\<^sup>* u t" using st by (metis converse_rtranclpE)
    then have "rank s < rank t" using edge_rank rank_mono by (meson less_le_trans)
    then show False using rank_mono [OF ts] by simp
  qed
qed

lemma path_bound: "(edge ^^ n) s t \<Longrightarrow> rank s + n \<le> rank t"
proof (induction n arbitrary: t)
  case (Suc n)
  then obtain b where "(edge ^^ n) s b" and e: "edge b t" by auto
  then have "rank s + n \<le> rank b" using Suc.IH by blast
  then show ?case using edge_rank [OF e] by simp
qed simp

end

end
