(* ===== verification/Decimals.thy ===== *)
theory Decimals
  imports Prelude
begin

text \<open>
  Python's \<open>decimal.Decimal\<close> as the services use it: the three rounding modes of
  \<open>ROUNDING_POLICIES\<close>, \<open>quantize\<close> to a number of decimal places, and the arithmetic of the
  default context (28 significant digits, \<open>ROUND_HALF_EVEN\<close>). A \<open>Decimal\<close> is represented by
  its exact value. The locales state what any rounding mode, and any rounding to nearest,
  promises; the three modes are interpreted in them and the facts about \<open>quantize\<close> rest on the
  interpretations. \<open>sig_round\<close>, rounding to a number of significant digits in a base, serves
  both the decimal context here and binary64 in \<open>Floats\<close>.
\<close>

section \<open>Rounding modes\<close>

datatype rounding = ROUND_HALF_UP | ROUND_HALF_EVEN | ROUND_DOWN

definition round_half_up :: "rat \<Rightarrow> int" where
  "round_half_up x = (if 0 \<le> x then \<lfloor>x + 1/2\<rfloor> else - \<lfloor>- x + 1/2\<rfloor>)"

definition round_half_even :: "rat \<Rightarrow> int" where
  "round_half_even x =
     (let f = \<lfloor>x\<rfloor>; d = x - of_int f in
      if d < 1/2 then f else if 1/2 < d then f + 1 else if even f then f else f + 1)"

definition round_down :: "rat \<Rightarrow> int" where
  "round_down x = (if 0 \<le> x then \<lfloor>x\<rfloor> else - \<lfloor>- x\<rfloor>)"

fun round_int :: "rounding \<Rightarrow> rat \<Rightarrow> int" where
  "round_int ROUND_HALF_UP x = round_half_up x"
| "round_int ROUND_HALF_EVEN x = round_half_even x"
| "round_int ROUND_DOWN x = round_down x"

text \<open>What every rounding mode promises: it fixes integers, is monotone and odd.\<close>

locale rounding_mode =
  fixes rnd :: "rat \<Rightarrow> int"
  assumes rnd_of_int: "rnd (of_int k) = k"
    and rnd_mono: "x \<le> y \<Longrightarrow> rnd x \<le> rnd y"
    and rnd_uminus: "rnd (- x) = - rnd x"
begin

lemma floor_le_rnd: "\<lfloor>x\<rfloor> \<le> rnd x"
  using rnd_mono [of "of_int \<lfloor>x\<rfloor>" x] by (simp add: rnd_of_int)

lemma rnd_le_ceiling: "rnd x \<le> \<lceil>x\<rceil>"
  using rnd_mono [of x "of_int \<lceil>x\<rceil>"] by (simp add: rnd_of_int)

lemma rnd_error_lt: "\<bar>of_int (rnd x) - x\<bar> < 1"
proof -
  have "of_int \<lfloor>x\<rfloor> \<le> (of_int (rnd x) :: rat)" "(of_int (rnd x) :: rat) \<le> of_int \<lceil>x\<rceil>"
    using floor_le_rnd rnd_le_ceiling by simp_all
  then show ?thesis by linarith
qed

lemma rnd_nonneg: "0 \<le> x \<Longrightarrow> 0 \<le> rnd x"
  using floor_le_rnd [of x] by linarith

lemma rnd_nonpos: "x \<le> 0 \<Longrightarrow> rnd x \<le> 0"
  using rnd_le_ceiling [of x] by linarith

lemma rnd_zero: "rnd 0 = 0"
  using rnd_of_int [of 0] by simp

lemma rnd_bound: "\<bar>x\<bar> \<le> of_int k \<Longrightarrow> \<bar>rnd x\<bar> \<le> k"
  using rnd_mono [of x "of_int k"] rnd_mono [of "- of_int k" x] rnd_of_int [of k] rnd_of_int [of "- k"]
  by (simp add: abs_le_iff)

end

text \<open>Rounding to nearest: in addition, at most half a unit away.\<close>

locale nearest_rounding =
  fixes rnd :: "rat \<Rightarrow> int"
  assumes nearest: "\<bar>of_int (rnd x) - x\<bar> \<le> 1/2"
    and nearest_mono: "x \<le> y \<Longrightarrow> rnd x \<le> rnd y"
    and nearest_uminus: "rnd (- x) = - rnd x"

sublocale nearest_rounding \<subseteq> rounding_mode rnd
proof
  fix k
  show "rnd (of_int k) = k"
    using nearest [of "of_int k"] by linarith
qed (auto simp: nearest_mono nearest_uminus)

lemma round_half_up_nearest: "\<bar>of_int (round_half_up x) - x\<bar> \<le> 1/2"
  unfolding round_half_up_def by (cases "0 \<le> x"; simp only: if_True if_False; linarith)

lemma round_half_up_mono: "x \<le> y \<Longrightarrow> round_half_up x \<le> round_half_up y"
proof -
  assume "x \<le> y"
  then have "\<lfloor>x + 1/2\<rfloor> \<le> \<lfloor>y + 1/2\<rfloor>" "\<lfloor>- y + 1/2\<rfloor> \<le> \<lfloor>- x + 1/2\<rfloor>"
    by (auto intro!: floor_mono)
  then show ?thesis
    using \<open>x \<le> y\<close> unfolding round_half_up_def by (auto split: if_split; linarith)
qed

lemma round_half_even_bounds: "\<lfloor>x\<rfloor> \<le> round_half_even x" "round_half_even x \<le> \<lfloor>x\<rfloor> + 1"
  by (simp_all add: round_half_even_def Let_def)

lemma round_half_even_nearest: "\<bar>of_int (round_half_even x) - x\<bar> \<le> 1/2"
proof -
  define d where "d = x - of_int \<lfloor>x\<rfloor>"
  have "0 \<le> d" "d < 1" by (simp_all add: d_def, linarith)
  then show ?thesis
    unfolding round_half_even_def Let_def d_def [symmetric] by (auto simp: d_def)
qed

lemma round_half_even_mono:
  assumes "x \<le> y"
  shows "round_half_even x \<le> round_half_even y"
proof (cases "\<lfloor>x\<rfloor> = \<lfloor>y\<rfloor>")
  case True
  then show ?thesis
    using assms by (simp add: round_half_even_def Let_def)
next
  case False
  then have "\<lfloor>x\<rfloor> + 1 \<le> \<lfloor>y\<rfloor>"
    using floor_mono [OF assms] by linarith
  then show ?thesis
    using round_half_even_bounds(2) [of x] round_half_even_bounds(1) [of y] by linarith
qed

lemma floor_uminus_int_or:
  fixes x :: rat
  shows "x = of_int \<lfloor>x\<rfloor> \<or> \<lfloor>- x\<rfloor> = - \<lfloor>x\<rfloor> - 1"
  by linarith

lemma round_half_even_uminus: "round_half_even (- x) = - round_half_even x"
proof (cases "x = of_int \<lfloor>x\<rfloor>")
  case True
  then obtain k where "x = of_int k" by blast
  then show ?thesis
    by (simp add: round_half_even_def)
next
  case False
  then have f: "\<lfloor>- x\<rfloor> = - \<lfloor>x\<rfloor> - 1"
    using floor_uminus_int_or by blast
  show ?thesis
    unfolding round_half_even_def Let_def f by auto
qed

interpretation half_up: nearest_rounding round_half_up
proof
  fix x y :: rat
  show "\<bar>of_int (round_half_up x) - x\<bar> \<le> 1/2" by (rule round_half_up_nearest)
  show "x \<le> y \<Longrightarrow> round_half_up x \<le> round_half_up y" by (rule round_half_up_mono)
  show "round_half_up (- x) = - round_half_up x"
  proof (cases "x = 0")
    case True
    have "\<lfloor>1/2 :: rat\<rfloor> = 0" by (simp add: floor_eq_iff)
    with True show ?thesis by (simp add: round_half_up_def)
  qed (auto simp: round_half_up_def)
qed

interpretation half_even: nearest_rounding round_half_even
  by unfold_locales
    (rule round_half_even_nearest, erule round_half_even_mono, rule round_half_even_uminus)

lemma round_down_mono: "x \<le> y \<Longrightarrow> round_down x \<le> round_down y"
proof -
  assume xy: "x \<le> y"
  then have f: "\<lfloor>x\<rfloor> \<le> \<lfloor>y\<rfloor>" "\<lfloor>- y\<rfloor> \<le> \<lfloor>- x\<rfloor>" by (auto intro!: floor_mono)
  consider "0 \<le> x" | "x < 0" "0 \<le> y" | "y < 0" by linarith
  then show ?thesis
  proof cases
    case 1
    then show ?thesis using xy f by (simp add: round_down_def)
  next
    case 2
    then have "0 \<le> \<lfloor>- x\<rfloor>" "0 \<le> \<lfloor>y\<rfloor>" by simp_all
    then have "- \<lfloor>- x\<rfloor> \<le> \<lfloor>y\<rfloor>" by linarith
    then show ?thesis using 2 by (simp add: round_down_def)
  next
    case 3
    then show ?thesis using xy f by (simp add: round_down_def)
  qed
qed

interpretation down: rounding_mode round_down
  by unfold_locales (auto simp: round_down_mono, auto simp: round_down_def)

lemma round_half_even_eqI:
  assumes "\<bar>x - of_int n\<bar> < 1/2"
  shows "round_half_even x = n"
proof -
  have "\<bar>of_int (round_half_even x) - (of_int n :: rat)\<bar> < 1"
    using half_even.nearest [of x] assms by linarith
  then have "\<bar>of_int (round_half_even x - n) :: rat\<bar> < 1" by simp
  then have "\<bar>round_half_even x - n\<bar> < 1" by (simp only: of_int_abs [symmetric] of_int_less_1_iff)
  then show ?thesis by simp
qed

lemma round_int_eq:
  "round_int ROUND_HALF_UP = round_half_up"
  "round_int ROUND_HALF_EVEN = round_half_even"
  "round_int ROUND_DOWN = round_down"
  by (rule ext, simp)+

lemma rounding_mode_round_int: "rounding_mode (round_int m)"
  by (cases m)
    (simp_all add: round_int_eq half_up.rounding_mode_axioms half_even.rounding_mode_axioms
       down.rounding_mode_axioms)

interpretation any_mode: rounding_mode "round_int m" for m
  by (rule rounding_mode_round_int)

lemma round_down_abs_le: "\<bar>of_int (round_down x)\<bar> \<le> \<bar>x\<bar>"
  using zero_le_floor [of x] zero_le_floor [of "- x"] of_int_floor_le [of x] of_int_floor_le [of "- x"]
  unfolding round_down_def by (cases "0 \<le> x") simp_all

lemma round_half_up_tie: "0 \<le> k \<Longrightarrow> round_half_up (of_int k + 1/2) = k + 1"
  by (simp add: round_half_up_def)

section \<open>Decimal places and quantize\<close>

text \<open>
  \<open>x.quantize(Decimal(1).scaleb(-p), rounding=mode)\<close>: the coefficient of the result must fit the
  context's 28 digits, otherwise Python raises \<open>InvalidOperation\<close>.
\<close>

definition prec :: nat where
  "prec = 28"

definition at_scale :: "nat \<Rightarrow> decimal \<Rightarrow> bool" where
  "at_scale p x \<longleftrightarrow> of_int \<lfloor>x * 10 ^ p\<rfloor> = x * 10 ^ p"

definition quantize :: "rounding \<Rightarrow> nat \<Rightarrow> decimal \<Rightarrow> decimal result" where
  "quantize m p x =
     (let c = round_int m (x * 10 ^ p) in
      if 10 ^ prec \<le> \<bar>c\<bar> then Inl InvalidOperation else Inr (of_int c / 10 ^ p))"

lemma at_scaleI: "x * 10 ^ p = of_int k \<Longrightarrow> at_scale p x"
  by (simp add: at_scale_def)

lemma at_scaleE: "at_scale p x \<Longrightarrow> (\<And>k. x = of_int k / 10 ^ p \<Longrightarrow> Q) \<Longrightarrow> Q"
  by (simp add: at_scale_def field_simps) metis

lemma at_scale_frac [simp]: "at_scale p (of_int k / 10 ^ p)"
  by (rule at_scaleI [of _ _ k]) simp

lemma at_scale_0 [simp]: "at_scale p 0"
  by (simp add: at_scale_def)

lemma at_scale_add: "at_scale p x \<Longrightarrow> at_scale p y \<Longrightarrow> at_scale p (x + y)"
proof -
  assume "at_scale p x" "at_scale p y"
  then obtain k l where "x = of_int k / 10 ^ p" "y = of_int l / 10 ^ p"
    by (auto elim!: at_scaleE)
  then have "(x + y) * 10 ^ p = of_int (k + l)" by (simp add: field_simps)
  then show ?thesis by (rule at_scaleI)
qed

lemma at_scale_uminus: "at_scale p x \<Longrightarrow> at_scale p (- x)"
proof (erule at_scaleE)
  fix k assume "x = of_int k / 10 ^ p"
  then have "- x * 10 ^ p = of_int (- k)" by simp
  then show ?thesis by (rule at_scaleI)
qed

lemma at_scale_diff: "at_scale p x \<Longrightarrow> at_scale p y \<Longrightarrow> at_scale p (x - y)"
  using at_scale_add [of p x "- y"] at_scale_uminus [of p y] by simp

lemma at_scale_sum_list: "(\<And>x. x \<in> set xs \<Longrightarrow> at_scale p x) \<Longrightarrow> at_scale p (sum_list xs)"
  by (induction xs) (auto intro: at_scale_add)

lemma quantize_at_scale: "quantize m p x = Inr y \<Longrightarrow> at_scale p y"
  by (auto simp: quantize_def Let_def split: if_splits)

lemma quantize_eqD: "quantize m p x = Inr y \<Longrightarrow> y = of_int (round_int m (x * 10 ^ p)) / 10 ^ p"
  by (auto simp: quantize_def Let_def split: if_splits)

lemma quantize_exact:
  assumes "at_scale p x" and "\<bar>x\<bar> * 10 ^ p < 10 ^ prec"
  shows "quantize m p x = Inr x"
proof -
  obtain k where k: "x = of_int k / 10 ^ p" using assms(1) by (rule at_scaleE)
  then have "x * 10 ^ p = of_int k" by simp
  moreover have "of_int \<bar>k\<bar> < (of_int (10 ^ prec) :: rat)"
    using assms(2) k by (simp add: abs_divide)
  then have "\<bar>k\<bar> < 10 ^ prec" by (simp only: of_int_less_iff)
  ultimately show ?thesis
    using k by (simp add: quantize_def any_mode.rnd_of_int)
qed

lemma quantize_idem: "quantize m p x = Inr y \<Longrightarrow> quantize m' p y = Inr y"
  by (auto simp: quantize_def Let_def any_mode.rnd_of_int split: if_splits)

lemma quantize_error_lt:
  assumes "quantize m p x = Inr y"
  shows "\<bar>y - x\<bar> < 1 / 10 ^ p"
proof -
  have "y - x = (of_int (round_int m (x * 10 ^ p)) - x * 10 ^ p) / 10 ^ p"
    using quantize_eqD [OF assms] by (simp add: diff_divide_distrib)
  then have "\<bar>y - x\<bar> = \<bar>of_int (round_int m (x * 10 ^ p)) - x * 10 ^ p\<bar> / 10 ^ p"
    by (simp add: abs_divide)
  then show ?thesis
    using any_mode.rnd_error_lt [of m "x * 10 ^ p"] by (simp add: divide_strict_right_mono)
qed

lemma quantize_error_half:
  assumes "quantize m p x = Inr y" and "m \<noteq> ROUND_DOWN"
  shows "\<bar>y - x\<bar> \<le> 1 / (2 * 10 ^ p)"
proof -
  have near: "\<bar>of_int (round_int m (x * 10 ^ p)) - x * 10 ^ p\<bar> \<le> 1/2"
    using assms(2) half_up.nearest half_even.nearest by (cases m) simp_all
  have "y - x = (of_int (round_int m (x * 10 ^ p)) - x * 10 ^ p) / 10 ^ p"
    using quantize_eqD [OF assms(1)] by (simp add: diff_divide_distrib)
  then have "\<bar>y - x\<bar> = \<bar>of_int (round_int m (x * 10 ^ p)) - x * 10 ^ p\<bar> / 10 ^ p"
    by (simp add: abs_divide)
  then show ?thesis
    using divide_right_mono [OF near, of "10 ^ p"] by simp
qed

lemma quantize_down_le: "quantize ROUND_DOWN p x = Inr y \<Longrightarrow> \<bar>y\<bar> \<le> \<bar>x\<bar>"
proof -
  assume "quantize ROUND_DOWN p x = Inr y"
  then have "y = of_int (round_down (x * 10 ^ p)) / 10 ^ p"
    by (drule_tac quantize_eqD) simp
  moreover have "\<bar>of_int (round_down (x * 10 ^ p))\<bar> \<le> \<bar>x\<bar> * 10 ^ p"
    using round_down_abs_le [of "x * 10 ^ p"] by (simp add: abs_mult)
  ultimately show ?thesis by (simp add: abs_divide divide_le_eq)
qed

lemma quantize_mono:
  "quantize m p x = Inr u \<Longrightarrow> quantize m p y = Inr v \<Longrightarrow> x \<le> y \<Longrightarrow> u \<le> v"
  using any_mode.rnd_mono [of "x * 10 ^ p" "y * 10 ^ p" m]
  by (auto dest!: quantize_eqD simp: divide_right_mono)

lemma quantize_nonneg: "quantize m p x = Inr y \<Longrightarrow> 0 \<le> x \<Longrightarrow> 0 \<le> y"
  using any_mode.rnd_nonneg [of "x * 10 ^ p" m] by (auto dest!: quantize_eqD)

lemma quantize_total:
  assumes "\<bar>x\<bar> * 10 ^ p \<le> 10 ^ prec - 1"
  shows "\<exists>y. quantize m p x = Inr y"
proof -
  have "\<bar>x * 10 ^ p\<bar> \<le> of_int (10 ^ prec - 1)"
    using assms by (simp add: abs_mult)
  then have "\<bar>round_int m (x * 10 ^ p)\<bar> \<le> 10 ^ prec - 1"
    by (rule any_mode.rnd_bound)
  then show ?thesis by (simp add: quantize_def Let_def)
qed

section \<open>Rounding to significant digits\<close>

text \<open>
  \<open>sig_round b n x\<close> rounds \<open>x\<close> half-even to \<open>n\<close> significant digits in base \<open>b\<close>. The magnitude is
  first brought into the interval from \<open>b ^ (n - 1)\<close> to \<open>b ^ n\<close>, by multiplying
  (\<open>scale_up\<close> counts how often) or dividing (\<open>scale_dn\<close>).
\<close>

lemma floor_div_less:
  fixes y :: rat
  assumes "1 \<le> y" and "2 \<le> (b::nat)"
  shows "nat \<lfloor>y / of_nat b\<rfloor> < nat \<lfloor>y\<rfloor>"
proof -
  have "y / of_nat b \<le> y / 2"
    using assms by (intro divide_left_mono) auto
  then have "\<lfloor>y / of_nat b\<rfloor> \<le> \<lfloor>y / 2\<rfloor>" by (rule floor_mono)
  moreover have "2 * \<lfloor>y / 2\<rfloor> \<le> \<lfloor>y\<rfloor>"
    using of_int_floor_le [of "y / 2"] by (simp add: le_floor_iff)
  moreover have "1 \<le> \<lfloor>y\<rfloor>" using assms(1) by (simp add: le_floor_iff)
  ultimately show ?thesis by linarith
qed

function scale_up :: "nat \<Rightarrow> rat \<Rightarrow> rat \<Rightarrow> nat" where
  "scale_up b lo m =
     (if 2 \<le> b \<and> 0 < m \<and> m < lo then Suc (scale_up b lo (m * of_nat b)) else 0)"
  by pat_completeness auto
termination
proof (relation "measure (\<lambda>(b, lo, m). nat \<lfloor>lo / m\<rfloor>)", simp)
  fix b :: nat and lo m :: rat
  assume a: "2 \<le> b \<and> 0 < m \<and> m < lo"
  then have "nat \<lfloor>(lo / m) / of_nat b\<rfloor> < nat \<lfloor>lo / m\<rfloor>"
    by (intro floor_div_less) (auto simp: le_divide_eq)
  then show "((b, lo, m * of_nat b), b, lo, m) \<in> measure (\<lambda>(b, lo, m). nat \<lfloor>lo / m\<rfloor>)"
    by (simp add: mult.commute)
qed

function scale_dn :: "nat \<Rightarrow> rat \<Rightarrow> rat \<Rightarrow> nat" where
  "scale_dn b hi m =
     (if 2 \<le> b \<and> 0 < hi \<and> hi \<le> m then Suc (scale_dn b hi (m / of_nat b)) else 0)"
  by pat_completeness auto
termination
proof (relation "measure (\<lambda>(b, hi, m). nat \<lfloor>m / hi\<rfloor>)", simp)
  fix b :: nat and hi m :: rat
  assume a: "2 \<le> b \<and> 0 < hi \<and> hi \<le> m"
  then have "nat \<lfloor>(m / hi) / of_nat b\<rfloor> < nat \<lfloor>m / hi\<rfloor>"
    by (intro floor_div_less) (auto simp: le_divide_eq)
  then show "((b, hi, m / of_nat b), b, hi, m) \<in> measure (\<lambda>(b, hi, m). nat \<lfloor>m / hi\<rfloor>)"
    by (simp add: mult.commute)
qed

declare scale_up.simps [simp del] scale_dn.simps [simp del]

lemma scale_up_0: "\<not> m < lo \<Longrightarrow> scale_up b lo m = 0"
  by (simp add: scale_up.simps)

lemma scale_dn_0: "m < hi \<Longrightarrow> scale_dn b hi m = 0"
  by (simp add: scale_dn.simps)

lemma scale_up_ge: "2 \<le> b \<Longrightarrow> 0 < m \<Longrightarrow> lo \<le> m * of_nat b ^ scale_up b lo m"
proof (induction b lo m rule: scale_up.induct)
  case (1 b lo m)
  show ?case
  proof (cases "m < lo")
    case True
    with 1 have "lo \<le> (m * of_nat b) * of_nat b ^ scale_up b lo (m * of_nat b)" by simp
    with True "1.prems" show ?thesis
      by (subst scale_up.simps) (simp add: mult.assoc)
  qed (simp add: scale_up_0)
qed

lemma scale_up_lt:
  "2 \<le> b \<Longrightarrow> 0 < m \<Longrightarrow> m < lo \<Longrightarrow> m * of_nat b ^ scale_up b lo m < lo * of_nat b"
proof (induction b lo m rule: scale_up.induct)
  case (1 b lo m)
  have step: "scale_up b lo m = Suc (scale_up b lo (m * of_nat b))"
    using "1.prems" by (subst scale_up.simps) simp
  show ?case
  proof (cases "m * of_nat b < lo")
    case True
    with 1 have "m * of_nat b * of_nat b ^ scale_up b lo (m * of_nat b) < lo * of_nat b" by simp
    with step show ?thesis by (simp add: mult.assoc)
  next
    case False
    then have "scale_up b lo (m * of_nat b) = 0" by (rule scale_up_0)
    with step "1.prems" show ?thesis by simp
  qed
qed

lemma scale_dn_lt: "2 \<le> b \<Longrightarrow> 0 < hi \<Longrightarrow> m / of_nat b ^ scale_dn b hi m < hi"
proof (induction b hi m rule: scale_dn.induct)
  case (1 b hi m)
  show ?case
  proof (cases "hi \<le> m")
    case True
    with 1 have "(m / of_nat b) / of_nat b ^ scale_dn b hi (m / of_nat b) < hi" by simp
    with True "1.prems" show ?thesis
      by (subst scale_dn.simps) (simp add: mult.commute)
  qed (simp add: scale_dn_0)
qed

lemma scale_dn_ge:
  "2 \<le> b \<Longrightarrow> 0 < hi \<Longrightarrow> hi \<le> m \<Longrightarrow> hi * of_nat b ^ (scale_dn b hi m - 1) \<le> m"
proof (induction b hi m rule: scale_dn.induct)
  case (1 b hi m)
  have step: "scale_dn b hi m = Suc (scale_dn b hi (m / of_nat b))"
    using "1.prems" by (subst scale_dn.simps) simp
  show ?case
  proof (cases "hi \<le> m / of_nat b")
    case True
    have bpos: "0 < (of_nat b :: rat)" using "1.prems" by simp
    have ih: "hi * of_nat b ^ (scale_dn b hi (m / of_nat b) - 1) \<le> m / of_nat b"
      using 1 True by simp
    have "scale_dn b hi (m / of_nat b) \<noteq> 0" using True "1.prems" by (subst scale_dn.simps) simp
    then have "(of_nat b :: rat) ^ scale_dn b hi (m / of_nat b) =
        of_nat b ^ (scale_dn b hi (m / of_nat b) - 1) * of_nat b"
      by (cases "scale_dn b hi (m / of_nat b)") simp_all
    with ih step bpos show ?thesis by (simp add: le_divide_eq mult.assoc)
  next
    case False
    then have "scale_dn b hi (m / of_nat b) = 0" by (intro scale_dn_0) simp
    with step "1.prems" show ?thesis by simp
  qed
qed

definition sig_round :: "nat \<Rightarrow> nat \<Rightarrow> rat \<Rightarrow> rat" where
  "sig_round b n x =
     (if x = 0 then 0
      else let s = scale_up b (of_nat b ^ (n - 1)) \<bar>x\<bar>; d = scale_dn b (of_nat b ^ n) \<bar>x\<bar> in
        of_int (round_half_even (x * of_nat b ^ s / of_nat b ^ d)) * of_nat b ^ d / of_nat b ^ s)"

lemma sig_round_exact:
  assumes b: "2 \<le> b" "1 \<le> n" and k: "x * of_nat b ^ p = of_int k" and fits: "\<bar>k\<bar> < int b ^ n"
  shows "sig_round b n x = x"
proof (cases "x = 0")
  case True
  then show ?thesis by (simp add: sig_round_def)
next
  case False
  let ?s = "scale_up b (of_nat b ^ (n - 1)) \<bar>x\<bar>"
  have pos: "0 < \<bar>x\<bar>" and bpos: "0 < (of_nat b :: rat)" "1 \<le> (of_nat b :: rat)"
    using False b by auto
  have "of_int \<bar>k\<bar> < (of_int (int b ^ n) :: rat)" using fits by (simp only: of_int_less_iff)
  then have lt: "\<bar>x\<bar> * of_nat b ^ p < of_nat b ^ n"
    using k [symmetric] by (simp add: abs_mult)
  have "\<bar>x\<bar> \<le> \<bar>x\<bar> * of_nat b ^ p" using bpos pos by (simp add: mult_le_cancel_left1 one_le_power)
  then have d: "scale_dn b (of_nat b ^ n) \<bar>x\<bar> = 0" using lt by (intro scale_dn_0) linarith
  have "p \<le> ?s"
  proof (rule ccontr)
    assume "\<not> p \<le> ?s"
    then have "\<bar>x\<bar> * of_nat b ^ Suc ?s \<le> \<bar>x\<bar> * of_nat b ^ p"
      using bpos by (intro mult_left_mono power_increasing) auto
    moreover have "of_nat b ^ (n - 1) * of_nat b \<le> \<bar>x\<bar> * of_nat b ^ Suc ?s"
      using scale_up_ge [OF b(1) pos, of "of_nat b ^ (n - 1)"] bpos
      by (simp add: mult.assoc [symmetric] mult_right_mono mult.commute)
    moreover have "(of_nat b :: rat) ^ (n - 1) * of_nat b = of_nat b ^ n"
      using b(2) by (cases n) (simp_all add: mult.commute)
    ultimately show False using lt by linarith
  qed
  then have "x * of_nat b ^ ?s = (x * of_nat b ^ p) * of_nat b ^ (?s - p)"
    by (simp add: mult.assoc power_add [symmetric])
  also have "\<dots> = of_int (k * int b ^ (?s - p))" using k by simp
  finally have "round_half_even (x * of_nat b ^ ?s) = k * int b ^ (?s - p)"
    by (simp only: half_even.rnd_of_int)
  moreover have "of_int (k * int b ^ (?s - p)) = x * of_nat b ^ ?s"
    using \<open>x * of_nat b ^ ?s = _\<close> k by simp
  ultimately show ?thesis
    using False bpos by (simp add: sig_round_def d)
qed

text \<open>The unit in the last of the \<open>n\<close> digits of \<open>x\<close>.\<close>

definition sig_unit :: "nat \<Rightarrow> nat \<Rightarrow> rat \<Rightarrow> rat" where
  "sig_unit b n x =
     of_nat b ^ scale_dn b (of_nat b ^ n) \<bar>x\<bar> / of_nat b ^ scale_up b (of_nat b ^ (n - 1)) \<bar>x\<bar>"

lemma sig_unit_pos: "2 \<le> b \<Longrightarrow> 0 < sig_unit b n x"
  by (simp add: sig_unit_def)

lemma sig_unit_lo:
  assumes b: "2 \<le> b" "1 \<le> n" and "x \<noteq> 0"
  shows "of_nat b ^ (n - 1) * sig_unit b n x \<le> \<bar>x\<bar>"
proof -
  let ?B = "of_nat b :: rat"
  let ?s = "scale_up b (?B ^ (n - 1)) \<bar>x\<bar>" and ?d = "scale_dn b (?B ^ n) \<bar>x\<bar>"
  have bpos: "0 < ?B" and pos: "0 < \<bar>x\<bar>" using assms by auto
  show ?thesis
  proof (cases "\<bar>x\<bar> < ?B ^ n")
    case True
    then have "?d = 0" by (rule scale_dn_0)
    then show ?thesis
      using scale_up_ge [OF b(1) pos, of "?B ^ (n - 1)"] bpos by (simp add: sig_unit_def divide_le_eq)
  next
    case big: False
    have "?B ^ (n - 1) \<le> ?B ^ n" using b by (intro power_increasing) auto
    then have "?s = 0" using big by (intro scale_up_0) linarith
    have "?d \<noteq> 0" using scale_dn_lt [OF b(1), of "?B ^ n" "\<bar>x\<bar>"] big bpos by (intro notI) simp
    have "?B ^ n * ?B ^ (?d - 1) \<le> \<bar>x\<bar>"
      using b(1) bpos big by (intro scale_dn_ge) auto
    moreover have "?B ^ (n - 1) * ?B ^ ?d = ?B ^ n * ?B ^ (?d - 1)"
      using b(2) \<open>?d \<noteq> 0\<close> by (simp add: power_add [symmetric])
    ultimately show ?thesis using \<open>?s = 0\<close> by (simp add: sig_unit_def)
  qed
qed

lemma sig_unit_hi:
  assumes b: "2 \<le> b" "1 \<le> n" and "x \<noteq> 0"
  shows "\<bar>x\<bar> < of_nat b ^ n * sig_unit b n x"
proof -
  let ?B = "of_nat b :: rat"
  let ?s = "scale_up b (?B ^ (n - 1)) \<bar>x\<bar>" and ?d = "scale_dn b (?B ^ n) \<bar>x\<bar>"
  have bpos: "0 < ?B" and pos: "0 < \<bar>x\<bar>" using assms by auto
  have n: "?B ^ (n - 1) * ?B = ?B ^ n" using b(2) by (cases n) (simp_all add: mult.commute)
  show ?thesis
  proof (cases "\<bar>x\<bar> < ?B ^ (n - 1)")
    case True
    have "?B ^ (n - 1) \<le> ?B ^ n" using b by (intro power_increasing) auto
    then have "?d = 0" using True by (intro scale_dn_0) linarith
    then show ?thesis
      using scale_up_lt [OF b(1) pos True] bpos n by (simp add: sig_unit_def less_divide_eq)
  next
    case False
    then have "?s = 0" by (rule scale_up_0)
    then show ?thesis
      using scale_dn_lt [OF b(1), of "?B ^ n" "\<bar>x\<bar>"] bpos by (simp add: sig_unit_def divide_less_eq)
  qed
qed

lemma sig_round_unit:
  "x \<noteq> 0 \<Longrightarrow> sig_round b n x = of_int (round_half_even (x / sig_unit b n x)) * sig_unit b n x"
  by (simp add: sig_round_def Let_def sig_unit_def)

lemma sig_round_error:
  assumes b: "2 \<le> b" "1 \<le> n"
  shows "\<bar>sig_round b n x - x\<bar> \<le> \<bar>x\<bar> / (2 * of_nat b ^ (n - 1))"
proof (cases "x = 0")
  case True
  then show ?thesis by (simp add: sig_round_def)
next
  case False
  define u where "u = sig_unit b n x"
  have u: "0 < u" and bpos: "0 < (of_nat b :: rat)"
    using b by (simp_all add: u_def sig_unit_pos)
  have "sig_round b n x - x = (of_int (round_half_even (x / u)) - x / u) * u"
    using False u by (simp add: sig_round_unit u_def [symmetric] left_diff_distrib)
  then have "\<bar>sig_round b n x - x\<bar> = \<bar>of_int (round_half_even (x / u)) - x / u\<bar> * u"
    using u by (simp add: abs_mult)
  also have "\<dots> \<le> 1/2 * u" using half_even.nearest [of "x / u"] u by (intro mult_right_mono) auto
  also have "\<dots> \<le> \<bar>x\<bar> / (2 * of_nat b ^ (n - 1))"
    using sig_unit_lo [OF b False] bpos by (simp add: u_def le_divide_eq mult.commute)
  finally show ?thesis .
qed

section \<open>The default context\<close>

definition ctx :: "rat \<Rightarrow> decimal" where
  "ctx x = sig_round 10 prec x"

definition dec_add :: "decimal \<Rightarrow> decimal \<Rightarrow> decimal" where
  "dec_add x y = ctx (x + y)"

definition dec_sub :: "decimal \<Rightarrow> decimal \<Rightarrow> decimal" where
  "dec_sub x y = ctx (x - y)"

definition dec_mul :: "decimal \<Rightarrow> decimal \<Rightarrow> decimal" where
  "dec_mul x y = ctx (x * y)"

definition dec_div :: "decimal \<Rightarrow> decimal \<Rightarrow> decimal result" where
  "dec_div x y = (if y = 0 then (if x = 0 then Inl InvalidOperation else Inl DivisionByZero)
                  else Inr (ctx (x / y)))"

fun dec_sum :: "decimal \<Rightarrow> decimal list \<Rightarrow> decimal" where
  "dec_sum acc [] = acc"
| "dec_sum acc (x # xs) = dec_sum (dec_add acc x) xs"

lemma ctx_exact:
  assumes "at_scale p x" and "\<bar>x\<bar> * 10 ^ p < 10 ^ prec"
  shows "ctx x = x"
proof -
  obtain k where k: "x = of_int k / 10 ^ p" using assms(1) by (rule at_scaleE)
  have "of_int \<bar>k\<bar> < (of_int (10 ^ prec) :: rat)"
    using assms(2) k by (simp add: abs_divide)
  then have "\<bar>k\<bar> < int 10 ^ prec" by (simp only: of_int_less_iff) simp
  moreover have "x * of_nat 10 ^ p = of_int k" using k by simp
  ultimately show ?thesis
    unfolding ctx_def by (intro sig_round_exact [where p = p and k = k]) (auto simp: prec_def)
qed

lemma ctx_nonneg: "0 \<le> x \<Longrightarrow> 0 \<le> ctx x"
  unfolding ctx_def sig_round_def Let_def by (simp add: half_even.rnd_nonneg)

lemma ctx_error: "\<bar>ctx x - x\<bar> \<le> \<bar>x\<bar> / (2 * 10 ^ 27)"
  using sig_round_error [of 10 prec x] by (simp add: ctx_def prec_def)

lemma dec_add_exact:
  "at_scale p x \<Longrightarrow> at_scale p y \<Longrightarrow> \<bar>x + y\<bar> * 10 ^ p < 10 ^ prec \<Longrightarrow> dec_add x y = x + y"
  unfolding dec_add_def by (rule ctx_exact [of p]) (auto intro: at_scale_add)

lemma dec_sub_exact:
  "at_scale p x \<Longrightarrow> at_scale p y \<Longrightarrow> \<bar>x - y\<bar> * 10 ^ p < 10 ^ prec \<Longrightarrow> dec_sub x y = x - y"
  unfolding dec_sub_def by (rule ctx_exact [of p]) (auto intro: at_scale_diff)

text \<open>
  A running sum of amounts at one scale is exact as long as the total magnitude fits the
  context: the sums of \<open>Numeric(16, 2)\<close> columns the services take never round.
\<close>

lemma dec_sum_exact:
  assumes "at_scale p acc" and "\<And>x. x \<in> set xs \<Longrightarrow> at_scale p x"
    and "(\<bar>acc\<bar> + (\<Sum>x\<leftarrow>xs. \<bar>x\<bar>)) * 10 ^ p < 10 ^ prec"
  shows "dec_sum acc xs = acc + sum_list xs"
  using assms
proof (induction xs arbitrary: acc)
  case Nil
  then show ?case by simp
next
  case (Cons x xs)
  have nonneg: "0 \<le> (\<Sum>x\<leftarrow>xs. \<bar>x\<bar>)" by (rule sum_list_nonneg) auto
  have tri: "\<bar>acc + x\<bar> \<le> \<bar>acc\<bar> + \<bar>x\<bar>" by (rule abs_triangle_ineq)
  have "\<bar>acc + x\<bar> * 10 ^ p \<le> (\<bar>acc\<bar> + (\<Sum>x\<leftarrow>x # xs. \<bar>x\<bar>)) * 10 ^ p"
    using tri nonneg by (intro mult_right_mono) auto
  also have "\<dots> < 10 ^ prec" by (rule Cons.prems(3))
  finally have eq: "dec_add acc x = acc + x"
    using Cons.prems(1,2) by (intro dec_add_exact [of p]) auto
  have "(\<bar>acc + x\<bar> + (\<Sum>x\<leftarrow>xs. \<bar>x\<bar>)) * 10 ^ p \<le> (\<bar>acc\<bar> + (\<Sum>x\<leftarrow>x # xs. \<bar>x\<bar>)) * 10 ^ p"
    using tri by (intro mult_right_mono) auto
  also have "\<dots> < 10 ^ prec" by (rule Cons.prems(3))
  finally have "dec_sum (acc + x) xs = acc + x + sum_list xs"
    using Cons.prems(1,2) by (intro Cons.IH) (auto intro: at_scale_add)
  then show ?case by (simp add: eq)
qed

text \<open>
  The context keeps the scale of what it rounds, so a running sum of non-negative amounts that ends
  below \<open>10 ^ 25\<close> was exact all the way.
\<close>

lemma scale_up_le: "lo \<le> m * of_nat b ^ p \<Longrightarrow> scale_up b lo m \<le> p"
proof (induction p arbitrary: m)
  case 0
  then show ?case by (simp add: scale_up_0)
next
  case (Suc p)
  then have "scale_up b lo (m * of_nat b) \<le> p" by (simp add: mult.assoc)
  then show ?case by (subst scale_up.simps) simp
qed

lemma at_scale_mono:
  assumes "at_scale s y" and "s \<le> p"
  shows "at_scale p y"
proof -
  obtain k where "y = of_int k / 10 ^ s" using assms(1) by (rule at_scaleE)
  moreover have "(10 :: rat) ^ p = 10 ^ (p - s) * 10 ^ s" using assms(2) by (simp add: power_add [symmetric])
  ultimately have "y * 10 ^ p = of_int (k * 10 ^ (p - s))" by simp
  then show ?thesis by (rule at_scaleI)
qed

lemma ctx_at_scale:
  assumes "at_scale p x"
  shows "at_scale p (ctx x)"
proof (cases "\<bar>x\<bar> * 10 ^ p < 10 ^ prec")
  case True
  then show ?thesis using ctx_exact [OF assms True] assms by simp
next
  case False
  let ?s = "scale_up 10 (10 ^ (prec - 1)) \<bar>x\<bar>" and ?d = "scale_dn 10 (10 ^ prec) \<bar>x\<bar>"
  have "(10 :: rat) ^ (prec - 1) \<le> 10 ^ prec" by (rule power_increasing) simp_all
  then have "10 ^ (prec - 1) \<le> \<bar>x\<bar> * 10 ^ p" using False by linarith
  then have s: "?s \<le> p" by (intro scale_up_le) simp
  have "x \<noteq> 0" using False by auto
  then have "ctx x = of_int (round_half_even (x * 10 ^ ?s / 10 ^ ?d) * 10 ^ ?d) / 10 ^ ?s"
    by (simp add: ctx_def sig_round_def Let_def)
  then have "at_scale ?s (ctx x)" by (simp only: at_scale_frac)
  then show ?thesis using s by (rule at_scale_mono)
qed

lemma ctx_near: "\<bar>ctx x - x\<bar> \<le> \<bar>x\<bar> / 2"
  using ctx_error [of x] by (rule order_trans) (simp add: field_simps)

lemma ctx_half: "0 \<le> x \<Longrightarrow> x / 2 \<le> ctx x"
  using ctx_near [of x] unfolding abs_if by (auto split: if_splits)

lemma ctx_pos: "0 < ctx x \<Longrightarrow> 0 < x"
  using ctx_near [of x] unfolding abs_if by (auto split: if_splits)

lemma dec_sum_large:
  assumes "at_scale 2 acc" and "5 * 10 ^ 25 \<le> acc" and "\<And>x. x \<in> set xs \<Longrightarrow> at_scale 2 x \<and> 0 \<le> x"
  shows "5 * 10 ^ 25 \<le> dec_sum acc xs"
  using assms
proof (induction xs arbitrary: acc)
  case (Cons x xs)
  have x: "at_scale 2 x" "0 \<le> x" using Cons.prems(3) by simp_all
  have "at_scale 2 (dec_add acc x)"
    unfolding dec_add_def using Cons.prems(1) x(1) by (intro ctx_at_scale at_scale_add)
  moreover have "5 * 10 ^ 25 \<le> dec_add acc x"
  proof (cases "acc + x < 10 ^ 26")
    case True
    then have "dec_add acc x = acc + x"
      using Cons.prems(1,2) x by (intro dec_add_exact [of 2]) (simp_all add: prec_def)
    then show ?thesis using Cons.prems(2) x(2) by simp
  next
    case False
    then show ?thesis using ctx_half [of "acc + x"] by (simp add: dec_add_def)
  qed
  ultimately show ?case using Cons.IH Cons.prems(3) by simp
qed simp

lemma dec_sum_small:
  assumes "at_scale 2 acc" and "0 \<le> acc" and "\<And>x. x \<in> set xs \<Longrightarrow> at_scale 2 x \<and> 0 \<le> x"
    and "dec_sum acc xs < 10 ^ 25"
  shows "dec_sum acc xs = acc + sum_list xs"
  using assms
proof (induction xs arbitrary: acc)
  case (Cons x xs)
  have x: "at_scale 2 x" "0 \<le> x" using Cons.prems(3) by simp_all
  have "dec_add acc x = acc + x"
  proof (cases "acc + x < 10 ^ 26")
    case True
    then show ?thesis using Cons.prems(1,2) x by (intro dec_add_exact [of 2]) (simp_all add: prec_def)
  next
    case False
    then have "5 * 10 ^ 25 \<le> dec_add acc x" using ctx_half [of "acc + x"] by (simp add: dec_add_def)
    moreover have "at_scale 2 (dec_add acc x)"
      unfolding dec_add_def using Cons.prems(1) x(1) by (intro ctx_at_scale at_scale_add)
    ultimately have "5 * 10 ^ 25 \<le> dec_sum (dec_add acc x) xs"
      using Cons.prems(3) by (intro dec_sum_large) simp_all
    then show ?thesis using Cons.prems(4) by simp
  qed
  then show ?case using Cons.IH [of "acc + x"] Cons.prems x by (simp add: at_scale_add)
qed simp

lemma dec_sum_0 [simp]: "dec_sum 0 [] = 0"
  by simp

end
