(* ===== verification/Floats.thy ===== *)
theory Floats
  imports Decimals
begin

text \<open>
  Python floats as the services use them: a \<open>pyfloat\<close> is the exact rational value of a binary64
  number (finite and in the normal exponent range; the readings of this program lie between
  0.001 and 1000). \<open>double\<close> rounds a rational to 53 bits, \<open>fl_sub\<close> is float subtraction,
  \<open>py_round\<close> the built-in \<open>round\<close> and \<open>repr_dec\<close> the decimal that \<open>str(x)\<close> shows: the shortest
  one that reads back as the same float, the nearest to it among those. The main fact is that
  a decimal of at most 15 significant digits survives \<open>Decimal(str(float(d)))\<close> unchanged.
\<close>

section \<open>Binary64 values\<close>

definition double :: "rat \<Rightarrow> pyfloat" where
  "double x = sig_round 2 53 x"

definition is_double :: "rat \<Rightarrow> bool" where
  "is_double x \<longleftrightarrow> double x = x"

definition fl_sub :: "pyfloat \<Rightarrow> pyfloat \<Rightarrow> pyfloat" where
  "fl_sub x y = double (x - y)"

definition py_round :: "nat \<Rightarrow> pyfloat \<Rightarrow> pyfloat" where
  "py_round n x = double (of_int (round_half_even (x * 10 ^ n)) / 10 ^ n)"

text \<open>The candidates of \<open>str\<close> with \<open>k\<close> digits: the two decimals of that length around \<open>x\<close>.\<close>

definition repr_digits :: "nat \<Rightarrow> pyfloat \<Rightarrow> decimal option" where
  "repr_digits k x =
     (let s = scale_up 10 (10 ^ (k - 1)) \<bar>x\<bar>; d = scale_dn 10 (10 ^ k) \<bar>x\<bar>;
          y = x * 10 ^ s / 10 ^ d;
          near = round_half_even y;
          far = (if near = \<lfloor>y\<rfloor> then \<lceil>y\<rceil> else \<lfloor>y\<rfloor>);
          back = (\<lambda>c. of_int c * 10 ^ d / 10 ^ s)
      in if double (back near) = x then Some (back near)
         else if double (back far) = x then Some (back far) else None)"

fun repr_search :: "nat list \<Rightarrow> pyfloat \<Rightarrow> decimal" where
  "repr_search [] x = x"
| "repr_search (k # ks) x = (case repr_digits k x of Some d \<Rightarrow> d | None \<Rightarrow> repr_search ks x)"

definition repr_dec :: "pyfloat \<Rightarrow> decimal" where
  "repr_dec x = (if x = 0 then 0 else repr_search [1..<18] x)"

lemma double_0 [simp]: "double 0 = 0"
  by (simp add: double_def sig_round_def)

lemma double_error: "\<bar>double x - x\<bar> \<le> \<bar>x\<bar> / 2 ^ 53"
  using sig_round_error [of 2 53 x] by (simp add: double_def)

lemma double_exact:
  assumes "x * 2 ^ p = of_int k" and "\<bar>k\<bar> < 2 ^ 53"
  shows "double x = x"
  unfolding double_def
  by (rule sig_round_exact [where p = p and k = k]) (use assms in simp_all)

lemma double_of_int: "\<bar>k\<bar> < 2 ^ 53 \<Longrightarrow> double (of_int k) = of_int k"
  by (rule double_exact [of _ 0 k]) simp_all

lemma double_nonneg:
  assumes "0 \<le> x"
  shows "0 \<le> double x"
proof -
  have "\<bar>x\<bar> / 2 ^ 53 \<le> \<bar>x\<bar>" by (simp add: divide_le_eq)
  then show ?thesis using double_error [of x] assms by linarith
qed

lemma repr_digits_double: "repr_digits k x = Some d \<Longrightarrow> double d = x"
  by (auto simp: repr_digits_def Let_def split: if_splits)

lemma repr_search_double: "is_double x \<Longrightarrow> double (repr_search ks x) = x"
  by (induction ks) (auto simp: is_double_def split: option.split dest: repr_digits_double)

text \<open>Reading back what \<open>str\<close> printed gives the same float.\<close>

lemma double_repr_dec: "is_double x \<Longrightarrow> double (repr_dec x) = x"
  by (simp add: repr_dec_def repr_search_double)

lemma repr_digits_nonneg:
  assumes "repr_digits k x = Some d" and "0 \<le> x"
  shows "0 \<le> d"
proof -
  let ?s = "scale_up 10 (10 ^ (k - 1)) \<bar>x\<bar>" and ?d = "scale_dn 10 (10 ^ k) \<bar>x\<bar>"
  define y where "y = x * 10 ^ ?s / 10 ^ ?d"
  have "0 \<le> y" using assms(2) by (simp add: y_def)
  then have "0 \<le> round_half_even y" "0 \<le> \<lfloor>y\<rfloor>" "0 \<le> \<lceil>y\<rceil>" by (auto intro: half_even.rnd_nonneg)
  moreover have "\<exists>c \<in> {round_half_even y, \<lfloor>y\<rfloor>, \<lceil>y\<rceil>}. d = of_int c * 10 ^ ?d / 10 ^ ?s"
    using assms(1) unfolding repr_digits_def Let_def y_def [symmetric] by (simp split: if_splits)
  ultimately show ?thesis by auto
qed

lemma repr_dec_nonneg: "0 \<le> x \<Longrightarrow> 0 \<le> repr_dec x"
proof -
  have "0 \<le> x \<Longrightarrow> 0 \<le> repr_search ks x" for ks
    by (induction ks) (auto split: option.split dest: repr_digits_nonneg)
  then show "0 \<le> x \<Longrightarrow> 0 \<le> repr_dec x" by (simp add: repr_dec_def)
qed

section \<open>Decimals of at most 15 digits\<close>

definition digits15 :: "decimal \<Rightarrow> bool" where
  "digits15 a \<longleftrightarrow> (\<exists>c s d. a = of_int c * 10 ^ d / 10 ^ s \<and> \<bar>c\<bar> < 10 ^ 15)"

lemma digits15_at_scale:
  assumes "at_scale p x" and "\<bar>x\<bar> * 10 ^ p < 10 ^ 15"
  shows "digits15 x"
proof -
  obtain k where k: "x = of_int k / 10 ^ p" using assms(1) by (rule at_scaleE)
  have "of_int \<bar>k\<bar> < (of_int (10 ^ 15) :: rat)" using assms(2) k by (simp add: abs_divide)
  then have "\<bar>k\<bar> < 10 ^ 15" by (simp only: of_int_less_iff)
  moreover have "x = of_int k * 10 ^ 0 / 10 ^ p" using k by simp
  ultimately show ?thesis unfolding digits15_def by blast
qed

lemma grid_separation:
  assumes "a = of_int m * (g::rat)" "b = of_int n * g" "0 < g" "a \<noteq> b"
  shows "g \<le> \<bar>a - b\<bar>"
proof -
  have "m \<noteq> n" using assms by auto
  then have "(1::rat) \<le> \<bar>of_int (m - n)\<bar>" by (simp flip: of_int_abs)
  moreover have "\<bar>a - b\<bar> = \<bar>of_int (m - n)\<bar> * g"
    using assms by (simp add: left_diff_distrib [symmetric] abs_mult)
  ultimately show ?thesis using assms(3) by simp
qed

lemma pow10_ratio:
  "(10::rat) ^ d / 10 ^ s = 10 ^ (d + s') / 10 ^ (s + s')"
  by (simp add: power_add)

text \<open>Two different decimals of at most 15 digits are far apart relative to the one with the
  finer last place.\<close>

lemma digits15_gap_aux:
  assumes a: "a = of_int c * 10 ^ d / (10::rat) ^ s" and b: "b = of_int c' * 10 ^ d' / 10 ^ s'"
    and le: "d' + s \<le> d + s'" and c': "\<bar>c'\<bar> < 10 ^ 15" and ne: "a \<noteq> b"
  shows "\<bar>b\<bar> < 10 ^ 15 * \<bar>a - b\<bar>"
proof -
  define g where "g = (10::rat) ^ d' / 10 ^ s'"
  have g: "0 < g" by (simp add: g_def)
  have "(10::rat) ^ d / 10 ^ s = 10 ^ (d + s' - (d' + s)) * g"
    using le by (simp add: g_def field_simps power_add [symmetric])
  moreover have "a = of_int c * (10 ^ d / 10 ^ s)" using a by simp
  ultimately have "a = of_int (c * 10 ^ (d + s' - (d' + s))) * g" by simp
  moreover have bg: "b = of_int c' * g" using b by (simp add: g_def)
  ultimately have "g \<le> \<bar>a - b\<bar>" using g ne by (intro grid_separation)
  then have "10 ^ 15 * g \<le> 10 ^ 15 * \<bar>a - b\<bar>" by simp
  moreover have "\<bar>b\<bar> < 10 ^ 15 * g"
  proof -
    have "of_int \<bar>c'\<bar> < (of_int (10 ^ 15) :: rat)" using c' by (simp only: of_int_less_iff)
    then show ?thesis using bg g by (simp add: abs_mult)
  qed
  ultimately show ?thesis by linarith
qed

lemma digits15_gap:
  assumes "digits15 a" "digits15 b" "a \<noteq> b"
  shows "\<bar>a\<bar> < 10 ^ 15 * \<bar>a - b\<bar> \<or> \<bar>b\<bar> < 10 ^ 15 * \<bar>a - b\<bar>"
proof -
  obtain c s d c' s' d' where
    "a = of_int c * 10 ^ d / 10 ^ s" "\<bar>c\<bar> < 10 ^ 15"
    "b = of_int c' * 10 ^ d' / 10 ^ s'" "\<bar>c'\<bar> < 10 ^ 15"
    using assms(1,2) unfolding digits15_def by blast
  then show ?thesis
    using digits15_gap_aux [of a c d s b c' d' s'] digits15_gap_aux [of b c' d' s' a c d s] assms(3)
    by (cases "d' + s \<le> d + s'") (auto simp: abs_minus_commute)
qed

lemma double_inj_digits15:
  assumes "digits15 a" "digits15 b" "double a = double b"
  shows "a = b"
proof (rule ccontr)
  assume ne: "a \<noteq> b"
  have ea: "\<bar>double a - a\<bar> \<le> \<bar>a\<bar> / 2 ^ 53" by (rule double_error)
  have eb: "\<bar>double a - b\<bar> \<le> \<bar>b\<bar> / 2 ^ 53" using double_error [of b] assms(3) by simp
  have "\<bar>a - b\<bar> \<le> \<bar>double a - a\<bar> + \<bar>double a - b\<bar>" by linarith
  then have "\<bar>a - b\<bar> \<le> (\<bar>a\<bar> + \<bar>b\<bar>) / 2 ^ 53"
    using ea eb unfolding add_divide_distrib by linarith
  moreover have "\<bar>a\<bar> \<le> \<bar>b\<bar> + \<bar>a - b\<bar>" "\<bar>b\<bar> \<le> \<bar>a\<bar> + \<bar>a - b\<bar>" "0 < \<bar>a - b\<bar>"
    using ne by linarith+
  ultimately show False using digits15_gap [OF assms(1,2) ne] by (auto simp: field_simps)
qed


section \<open>Reading and printing decimals\<close>

lemma repr_digits_unit:
  "repr_digits k x =
     (let u = sig_unit 10 k x; near = round_half_even (x / u);
          far = (if near = \<lfloor>x / u\<rfloor> then \<lceil>x / u\<rceil> else \<lfloor>x / u\<rfloor>)
      in if double (of_int near * u) = x then Some (of_int near * u)
         else if double (of_int far * u) = x then Some (of_int far * u) else None)"
  by (simp add: repr_digits_def sig_unit_def Let_def)

lemma repr_digits_digits15:
  assumes "repr_digits k x = Some d" "1 \<le> k" "k \<le> 14" "x \<noteq> 0"
  shows "digits15 d"
proof -
  define u where "u = sig_unit 10 k x"
  have u: "0 < u" by (simp add: u_def sig_unit_pos)
  have "\<bar>x\<bar> < 10 ^ k * u" using sig_unit_hi [of 10 k x] assms by (simp add: u_def)
  then have "\<bar>x / u\<bar> < of_int (10 ^ k)" using u by (simp add: abs_divide divide_less_eq)
  then have "\<bar>round_half_even (x / u)\<bar> \<le> 10 ^ k" "\<bar>\<lfloor>x / u\<rfloor>\<bar> \<le> 10 ^ k" "\<bar>\<lceil>x / u\<rceil>\<bar> \<le> 10 ^ k"
    using half_even.rnd_bound [of "x / u" "10 ^ k"] by linarith+
  moreover have "(10::int) ^ k \<le> 10 ^ 14" using assms(3) by (intro power_increasing) auto
  moreover have "\<exists>c \<in> {round_half_even (x / u), \<lfloor>x / u\<rfloor>, \<lceil>x / u\<rceil>}. d = of_int c * u"
    using assms(1) unfolding repr_digits_unit u_def [symmetric] Let_def
    by (simp split: if_splits)
  then obtain c where "d = of_int c * u"
      "c \<in> {round_half_even (x / u), \<lfloor>x / u\<rfloor>, \<lceil>x / u\<rceil>}" by blast
  ultimately have "\<bar>c\<bar> < 10 ^ 15" "d = of_int c * u" by auto
  then show ?thesis unfolding digits15_def u_def sig_unit_def by (auto simp: times_divide_eq_right)
qed

lemma digits15_on_grid:
  assumes d: "digits15 d" and x: "\<bar>x - d\<bar> \<le> \<bar>d\<bar> / 2 ^ 53" and "d \<noteq> 0"
  shows "\<exists>n. d = of_int n * sig_unit 10 15 x"
proof -
  have x0: "x \<noteq> 0" using x \<open>d \<noteq> 0\<close> by (auto simp: le_divide_eq)
  define D where "D = scale_dn 10 (10 ^ 15) \<bar>x\<bar>"
  define S where "S = scale_up 10 (10 ^ 14) \<bar>x\<bar>"
  have u: "sig_unit 10 15 x = 10 ^ D / 10 ^ S" by (simp add: sig_unit_def D_def S_def)
  have lo: "10 ^ 14 * (10 ^ D / 10 ^ S) \<le> \<bar>x\<bar>"
    using sig_unit_lo [of 10 15 x] x0 by (simp add: u)
  obtain c s e where c: "d = of_int c * 10 ^ e / 10 ^ s" "\<bar>c\<bar> < 10 ^ 15"
    using d unfolding digits15_def by blast
  show ?thesis
  proof (cases "D + s \<le> e + S")
    case True
    then have "(10::rat) ^ e / 10 ^ s = 10 ^ (e + S - (D + s)) * (10 ^ D / 10 ^ S)"
      by (simp add: field_simps power_add [symmetric])
    moreover have "d = of_int c * (10 ^ e / 10 ^ s)" using c by simp
    ultimately have "d = of_int (c * 10 ^ (e + S - (D + s))) * sig_unit 10 15 x"
      using u by simp
    then show ?thesis by blast
  next
    case False
    define h where "h = (10::rat) ^ e / 10 ^ s"
    have h: "0 < h" by (simp add: h_def)
    have "10 ^ (Suc (e + S)) \<le> (10::rat) ^ (D + s)" using False by (intro power_increasing) auto
    then have g: "10 * h \<le> 10 ^ D / 10 ^ S"
      by (simp add: h_def field_simps power_add)
    have "\<bar>c\<bar> \<le> 10 ^ 15 - 1" using c(2) by simp
    then have "of_int \<bar>c\<bar> \<le> (of_int (10 ^ 15 - 1) :: rat)" by (simp only: of_int_le_iff)
    then have "\<bar>of_int c\<bar> * h \<le> (10 ^ 15 - 1) * h"
      using h by (intro mult_right_mono) simp_all
    moreover have "\<bar>d\<bar> = \<bar>of_int c\<bar> * h"
      using c(1) h by (simp add: h_def abs_mult abs_divide)
    ultimately have "\<bar>d\<bar> \<le> (10 ^ 15 - 1) * h" by simp
    moreover have "\<bar>x\<bar> \<le> \<bar>d\<bar> + \<bar>d\<bar> / 2 ^ 53" using x by linarith
    ultimately have "\<bar>x\<bar> < 10 ^ 15 * h" using h by (simp add: field_simps)
    then have "\<bar>x\<bar> < 10 ^ 14 * (10 ^ D / 10 ^ S)" using g by simp
    then show ?thesis using lo by linarith
  qed
qed

lemma repr_digits_15:
  assumes "digits15 d" "d \<noteq> 0"
  shows "repr_digits 15 (double d) = Some d"
proof -
  define x where "x = double d"
  define u where "u = sig_unit 10 15 x"
  have err: "\<bar>x - d\<bar> \<le> \<bar>d\<bar> / 2 ^ 53" unfolding x_def by (rule double_error)
  have x0: "x \<noteq> 0" using err assms(2) by (auto simp: le_divide_eq)
  have u: "0 < u" by (simp add: u_def sig_unit_pos)
  have hi: "\<bar>x\<bar> < 10 ^ 15 * u" using sig_unit_hi [of 10 15 x] x0 by (simp add: u_def)
  obtain n where n: "d = of_int n * u"
    using digits15_on_grid [OF assms(1) err assms(2)] by (auto simp: u_def)
  have "\<bar>d\<bar> \<le> \<bar>x\<bar> + \<bar>d\<bar> / 2 ^ 53" using err by linarith
  then have "\<bar>d\<bar> \<le> 2 * \<bar>x\<bar>" by simp
  then have "\<bar>x - d\<bar> < 1/2 * u" using err hi by simp
  moreover have "x / u - of_int n = (x - d) / u" using n u by (simp add: diff_divide_distrib)
  ultimately have "\<bar>x / u - of_int n\<bar> < 1/2" using u by (simp add: abs_divide divide_less_eq)
  then have "round_half_even (x / u) = n" by (rule round_half_even_eqI)
  then have "double (of_int (round_half_even (x / u)) * u) = x" "of_int (round_half_even (x / u)) * u = d"
    using n by (simp_all add: x_def)
  then show ?thesis
    unfolding repr_digits_unit x_def [symmetric] u_def [symmetric] Let_def by simp
qed

lemma repr_search_digits15:
  assumes "digits15 d" "d \<noteq> 0" "\<And>k. k \<in> set ks \<Longrightarrow> 1 \<le> k \<and> k \<le> 14"
  shows "repr_search (ks @ 15 # rest) (double d) = d"
  using assms(3)
proof (induction ks)
  case Nil
  then show ?case using repr_digits_15 [OF assms(1,2)] by simp
next
  case (Cons k ks)
  have x0: "double d \<noteq> 0" using double_error [of d] assms(2) by (auto simp: le_divide_eq)
  show ?case
  proof (cases "repr_digits k (double d)")
    case None
    then show ?thesis using Cons by simp
  next
    case (Some e)
    then have "digits15 e" using repr_digits_digits15 Cons.prems x0 by auto
    moreover have "double e = double d" using Some by (rule repr_digits_double)
    ultimately have "e = d" using assms(1) by (metis double_inj_digits15)
    then show ?thesis using Some by simp
  qed
qed

theorem repr_dec_double:
  assumes "digits15 d"
  shows "repr_dec (double d) = d"
proof (cases "d = 0")
  case True
  then show ?thesis by (simp add: repr_dec_def)
next
  case False
  then have x0: "double d \<noteq> 0" using double_error [of d] by (auto simp: le_divide_eq)
  have "[1..<18] = [1..<15] @ [15..<18]" using upt_add_eq_append [of 1 15 3] by simp
  also have "[15..<18] = 15 # [16..<18]" by (rule upt_eq_Cons_conv [THEN iffD2]) simp
  finally have "[1..<18] = [1..<15] @ 15 # [16..<18]" .
  then have "repr_search [1..<18] (double d) = d"
    using repr_search_digits15 [OF assms False, of "[1..<15]" "[16..<18]"] by simp
  then show ?thesis using x0 by (simp add: repr_dec_def)
qed

end
