(* ===== verification/Money.thy ===== *)
theory Money
  imports Decimals Floats Strings
begin

text \<open>
  The value objects of \<open>core/types.py\<close> and the currency scale of \<open>core/money.py\<close>: \<open>Money\<close> with
  its three operations, \<open>Quantity\<close>, the rounding policies, the currency registry of
  \<open>core/locales.py\<close> (codes and minor units), and \<open>quantize_money\<close>.
\<close>

section \<open>Currencies and scales\<close>

definition CURRENCIES :: "(string \<times> nat) list" where
  "CURRENCIES =
     [(''INR'', 2), (''KES'', 2), (''USD'', 2), (''EUR'', 2), (''GBP'', 2), (''AED'', 2),
      (''SAR'', 2), (''QAR'', 2), (''UGX'', 0), (''TZS'', 2), (''JPY'', 0)]"

definition DEFAULT_MINOR_UNITS :: nat where
  "DEFAULT_MINOR_UNITS = 2"

definition minor_units :: "string option \<Rightarrow> nat" where
  "minor_units c =
     (case map_of CURRENCIES (str_upper (case c of None \<Rightarrow> [] | Some s \<Rightarrow> s)) of
        Some n \<Rightarrow> n | None \<Rightarrow> DEFAULT_MINOR_UNITS)"

definition quantize_money :: "decimal \<Rightarrow> string option \<Rightarrow> decimal result" where
  "quantize_money v c = quantize ROUND_HALF_UP (minor_units c) v"

section \<open>Rounding policies\<close>

definition ROUNDING_POLICIES :: "(string \<times> rounding) list" where
  "ROUNDING_POLICIES =
     [(''HALF_UP'', ROUND_HALF_UP), (''HALF_EVEN'', ROUND_HALF_EVEN), (''DOWN'', ROUND_DOWN)]"

definition DEFAULT_ROUNDING_POLICY :: string where
  "DEFAULT_ROUNDING_POLICY = ''HALF_UP''"

definition ROUNDING_POLICY_UNSPECIFIED :: string where
  "ROUNDING_POLICY_UNSPECIFIED = ''unspecified''"

definition rounding_mode_of :: "string \<Rightarrow> rounding result" where
  "rounding_mode_of policy =
     need (ValueError ''unknown rounding policy'') (map_of ROUNDING_POLICIES policy)"

section \<open>Money\<close>

record money =
  amount :: decimal
  currency :: string
  precision :: nat
  rounding_policy :: string

text \<open>Construction validates: a three-letter alphabetic currency, stored in upper case, and a
  precision of at most six.\<close>

definition mk_money :: "decimal \<Rightarrow> string \<Rightarrow> nat \<Rightarrow> string \<Rightarrow> money result" where
  "mk_money a c p pol =
     (if length c \<noteq> 3 then Inl (ValueError ''currency length'')
      else if 6 < p then Inl (ValueError ''precision'')
      else if \<not> str_isalpha c then Inl (ValueError ''currency must be a 3-letter ISO 4217 code'')
      else Inr \<lparr>amount = a, currency = str_upper c, precision = p, rounding_policy = pol\<rparr>)"

definition money_of :: "decimal \<Rightarrow> string \<Rightarrow> nat option \<Rightarrow> money result" where
  "money_of a c p =
     mk_money a c (case p of None \<Rightarrow> minor_units (Some c) | Some n \<Rightarrow> n) ROUNDING_POLICY_UNSPECIFIED"

definition money_plus :: "money \<Rightarrow> money \<Rightarrow> money result" where
  "money_plus m n =
     (if currency n \<noteq> currency m then Inl (ValueError ''cannot add different currencies'')
      else if precision n \<noteq> precision m
        then Inl (ValueError ''cannot add Money values of different precision'')
      else mk_money (dec_add (amount m) (amount n)) (currency m) (precision m) (rounding_policy m))"

definition money_minus :: "money \<Rightarrow> money \<Rightarrow> money result" where
  "money_minus m n =
     (if currency n \<noteq> currency m then Inl (ValueError ''cannot subtract different currencies'')
      else if precision n \<noteq> precision m
        then Inl (ValueError ''cannot subtract Money values of different precision'')
      else mk_money (dec_sub (amount m) (amount n)) (currency m) (precision m) (rounding_policy m))"

definition multiplied_by :: "money \<Rightarrow> decimal \<Rightarrow> string \<Rightarrow> money result" where
  "multiplied_by m factor policy =
     andthen (rounding_mode_of policy) (\<lambda>mode.
     andthen (quantize mode (precision m) (dec_mul (amount m) factor)) (\<lambda>rounded.
     mk_money rounded (currency m) (precision m) policy))"

section \<open>Quantity\<close>

record quantity =
  q_value :: pyfloat
  q_unit :: string
  q_precision :: nat

definition mk_quantity :: "pyfloat \<Rightarrow> string \<Rightarrow> quantity result" where
  "mk_quantity v u =
     (if 20 < length u then Inl (ValueError ''unit length'')
      else Inr \<lparr>q_value = v, q_unit = u, q_precision = 2\<rparr>)"

definition as_decimal :: "quantity \<Rightarrow> decimal" where
  "as_decimal q = repr_dec (q_value q)"

section \<open>Facts\<close>

definition valid_money :: "money \<Rightarrow> bool" where
  "valid_money m \<longleftrightarrow> length (currency m) = 3 \<and> str_isalpha (currency m)
     \<and> str_upper (currency m) = currency m \<and> precision m \<le> 6"

lemma is_upper_char_upper: "is_upper c \<or> is_lower c \<Longrightarrow> is_upper (char_upper c)"
  by (auto simp: char_upper_def is_upper_def is_lower_def char_code_def)

lemma str_isalpha_upper: "str_isalpha s \<Longrightarrow> str_isalpha (str_upper s)"
  by (auto simp: str_isalpha_def str_upper_def list_all_iff is_upper_char_upper)

lemma mk_money_valid: "mk_money a c p pol = Inr m \<Longrightarrow> valid_money m"
  by (auto simp: mk_money_def valid_money_def str_isalpha_upper split: if_splits)

lemma mk_money_InrD:
  "mk_money a c p pol = Inr m \<Longrightarrow>
     amount m = a \<and> currency m = str_upper c \<and> precision m = p \<and> rounding_policy m = pol"
  by (auto simp: mk_money_def split: if_splits)

lemma mk_money_same [simp]:
  "valid_money m \<Longrightarrow> mk_money a (currency m) (precision m) pol
     = Inr \<lparr>amount = a, currency = currency m, precision = precision m, rounding_policy = pol\<rparr>"
  by (simp add: mk_money_def valid_money_def)

lemma minor_units_le: "minor_units c \<le> 2"
proof (cases "map_of CURRENCIES (str_upper (case c of None \<Rightarrow> [] | Some s \<Rightarrow> s))")
  case (Some n)
  then have "n \<in> snd ` set CURRENCIES" by (force dest: map_of_SomeD)
  then show ?thesis using Some by (auto simp: minor_units_def CURRENCIES_def)
qed (simp add: minor_units_def DEFAULT_MINOR_UNITS_def)

lemma money_of_valid:
  assumes "length c = 3" "str_isalpha c" "str_upper c = c"
  shows "money_of a c None = Inr \<lparr>amount = a, currency = c, precision = minor_units (Some c),
    rounding_policy = ROUNDING_POLICY_UNSPECIFIED\<rparr>"
  using assms minor_units_le [of "Some c"] by (simp add: money_of_def mk_money_def)

lemma rounding_mode_of_cases:
  "rounding_mode_of pol = Inr mode \<longleftrightarrow>
     (pol = ''HALF_UP'' \<and> mode = ROUND_HALF_UP) \<or> (pol = ''HALF_EVEN'' \<and> mode = ROUND_HALF_EVEN)
     \<or> (pol = ''DOWN'' \<and> mode = ROUND_DOWN)"
  by (auto simp: rounding_mode_of_def ROUNDING_POLICIES_def result_simps)

lemma multiplied_by_InrD:
  assumes "multiplied_by m f pol = Inr r"
  obtains mode where "rounding_mode_of pol = Inr mode"
    "quantize mode (precision m) (dec_mul (amount m) f) = Inr (amount r)"
    "currency r = str_upper (currency m)" "precision r = precision m" "rounding_policy r = pol"
  using assms by (auto simp: multiplied_by_def result_simps dest: mk_money_InrD)

text \<open>
  A rounded product is within half a minor unit of the exact product under either
  half-rounding policy, never above it in magnitude under truncation, and keeps the currency
  and the precision; the exact product only has to fit the 28 digits of the context.
\<close>

lemma multiplied_by_correct:
  assumes "valid_money m" and "multiplied_by m f pol = Inr r"
    and "at_scale s (amount m * f)" and "\<bar>amount m * f\<bar> * 10 ^ s < 10 ^ prec"
  shows "currency r = currency m \<and> precision r = precision m \<and> at_scale (precision m) (amount r)
    \<and> \<bar>amount r - amount m * f\<bar> < 1 / 10 ^ precision m
    \<and> (pol \<noteq> ''DOWN'' \<longrightarrow> \<bar>amount r - amount m * f\<bar> \<le> 1 / (2 * 10 ^ precision m))
    \<and> (pol = ''DOWN'' \<longrightarrow> \<bar>amount r\<bar> \<le> \<bar>amount m * f\<bar>)"
proof -
  obtain mode where mode: "rounding_mode_of pol = Inr mode"
    and q: "quantize mode (precision m) (dec_mul (amount m) f) = Inr (amount r)"
    and c: "currency r = str_upper (currency m)" "precision r = precision m"
    using assms(2) by (rule multiplied_by_InrD)
  have "dec_mul (amount m) f = amount m * f"
    unfolding dec_mul_def using assms(3,4) by (rule ctx_exact)
  with q have q: "quantize mode (precision m) (amount m * f) = Inr (amount r)" by simp
  have "pol = ''DOWN'' \<Longrightarrow> mode = ROUND_DOWN" "pol \<noteq> ''DOWN'' \<Longrightarrow> mode \<noteq> ROUND_DOWN"
    using mode by (auto simp: rounding_mode_of_cases)
  then show ?thesis
    using q c assms(1) quantize_at_scale [OF q] quantize_error_lt [OF q] quantize_error_half [OF q]
    by (auto simp: valid_money_def dest: quantize_down_le)
qed

lemma multiplied_by_correct_witness:
  "\<exists>r. multiplied_by \<lparr>amount = 45, currency = ''INR'', precision = 2, rounding_policy = ''unspecified''\<rparr>
         (25/2) ''HALF_UP'' = Inr r \<and> currency r = ''INR'' \<and> precision r = 2
       \<and> \<bar>amount r - 45 * (25/2)\<bar> \<le> 1 / (2 * 10 ^ 2)"
proof -
  let ?m = "\<lparr>amount = 45, currency = ''INR'', precision = 2, rounding_policy = ''unspecified''\<rparr>"
  have v: "valid_money ?m" by (simp add: valid_money_def) code_simp
  have s: "at_scale 1 (amount ?m * (25/2))" by (rule at_scaleI [of _ _ 5625]) simp
  have b: "\<bar>amount ?m * (25/2)\<bar> * 10 ^ 1 < 10 ^ prec" by (simp add: prec_def)
  have "dec_mul 45 (25/2) = 1125/2" using ctx_exact [OF s b] by (simp add: dec_mul_def)
  moreover have "quantize ROUND_HALF_UP 2 (1125/2) = Inr (1125/2)"
    by (rule quantize_exact) (simp_all add: at_scale_def prec_def)
  ultimately obtain r where r: "multiplied_by ?m (25/2) ''HALF_UP'' = Inr r"
    using mk_money_same [OF v] by (simp add: multiplied_by_def rounding_mode_of_def ROUNDING_POLICIES_def)
  show ?thesis using multiplied_by_correct [OF v r s b] r by simp
qed

text \<open>
  subtracting what was added gives the first amount back: on amounts of one scale whose
  sum fits the context, \<open>plus\<close> and \<open>minus\<close> are exact inverses, and neither changes the currency,
  the precision or the rounding policy.
\<close>

theorem money_plus_minus:
  assumes "valid_money m" and "currency n = currency m" and "precision n = precision m"
    and "at_scale s (amount m)" and "at_scale s (amount n)"
    and "(\<bar>amount m\<bar> + \<bar>amount n\<bar>) * 10 ^ s < 10 ^ prec"
  shows "\<exists>t. money_plus m n = Inr t \<and> amount t = amount m + amount n \<and> money_minus t n = Inr m"
proof -
  have "\<bar>amount m + amount n\<bar> * 10 ^ s \<le> (\<bar>amount m\<bar> + \<bar>amount n\<bar>) * 10 ^ s"
    by (intro mult_right_mono abs_triangle_ineq) simp
  then have add: "dec_add (amount m) (amount n) = amount m + amount n"
    using assms(6) by (intro dec_add_exact [OF assms(4,5)]) (rule le_less_trans)
  have "\<bar>amount m\<bar> * 10 ^ s \<le> (\<bar>amount m\<bar> + \<bar>amount n\<bar>) * 10 ^ s"
    by (intro mult_right_mono) simp_all
  then have "\<bar>amount m\<bar> * 10 ^ s < 10 ^ prec" using assms(6) by (rule le_less_trans)
  then have sub: "dec_sub (amount m + amount n) (amount n) = amount m"
    using dec_sub_exact [OF at_scale_add [OF assms(4,5)] assms(5)] by simp
  have "money_plus m n = Inr (m\<lparr>amount := amount m + amount n\<rparr>)"
    using assms(1-3) by (simp add: money_plus_def add)
  moreover have "money_minus (m\<lparr>amount := amount m + amount n\<rparr>) n = Inr m"
    using assms(1-3) mk_money_same [OF assms(1)] by (simp add: money_minus_def sub)
  ultimately show ?thesis by force
qed

lemma money_plus_minus_witness:
  "\<exists>t. money_plus \<lparr>amount = 10, currency = ''KES'', precision = 2, rounding_policy = ''x''\<rparr>
           \<lparr>amount = 1/4, currency = ''KES'', precision = 2, rounding_policy = ''y''\<rparr> = Inr t
       \<and> amount t = 41/4"
proof -
  let ?m = "\<lparr>amount = 10, currency = ''KES'', precision = 2, rounding_policy = ''x''\<rparr>"
  let ?n = "\<lparr>amount = 1/4, currency = ''KES'', precision = 2, rounding_policy = ''y''\<rparr>"
  have v: "valid_money ?m" by (simp add: valid_money_def) code_simp
  have "at_scale 2 (amount ?m)" "at_scale 2 (amount ?n)" by (simp_all add: at_scale_def)
  then show ?thesis using money_plus_minus [OF v, of ?n 2] by (force simp: prec_def)
qed

end
