(* ===== verification/Units.thy ===== *)
theory Units
  imports Money
begin

text \<open>
  The intake unit and the conversion terms of \<open>core/units.py\<close>: unit spellings, labels, the
  validation of an organisation's declared terms, and the paid quantity computed from the
  measured one. The lemmas show that validated terms are in a normal form the validation
  fixes, and that the paid quantity is the declared product (or quotient) rounded once to
  three decimals, which \<open>Decimal(str(...))\<close> reads back exactly.
\<close>

section \<open>Unit names\<close>

definition UNITS :: "string list" where
  "UNITS = [''litre'', ''kg'']"

definition LABELS :: "(string \<times> string) list" where
  "LABELS = [(''litre'', ''L''), (''kg'', ''kg'')]"

definition SPELLINGS :: "(string \<times> string) list" where
  "SPELLINGS =
     [(''litre'', ''litre''), (''litres'', ''litre''), (''liter'', ''litre''), (''liters'', ''litre''),
      (''l'', ''litre''), (''ltr'', ''litre''), (''kg'', ''kg''), (''kgs'', ''kg''),
      (''kilogram'', ''kg''), (''kilograms'', ''kg'')]"

definition FACTOR_MIN :: decimal where
  "FACTOR_MIN = 9/10"

definition FACTOR_MAX :: decimal where
  "FACTOR_MAX = 12/10"

definition opt_str :: "string option \<Rightarrow> string" where
  "opt_str v = (case v of None \<Rightarrow> [] | Some s \<Rightarrow> s)"

definition normalise_unit :: "string option \<Rightarrow> string result" where
  "normalise_unit v =
     need (ValueError ''unknown quantity unit'') (map_of SPELLINGS (str_lower (str_strip (opt_str v))))"

definition unit_label :: "string option \<Rightarrow> string" where
  "unit_label u =
     (if opt_str u = [] then []
      else case normalise_unit u of
        Inl _ \<Rightarrow> opt_str u
      | Inr w \<Rightarrow> (case map_of LABELS w of Some l \<Rightarrow> l | None \<Rightarrow> opt_str u))"

section \<open>Conversion terms\<close>

record conversion_terms =
  measured_unit :: string
  trade_unit :: "string option"
  factor :: "decimal option"
  effective_from :: "date option"

definition converts :: "conversion_terms \<Rightarrow> bool" where
  "converts t \<longleftrightarrow> trade_unit t \<noteq> None \<and> trade_unit t \<noteq> Some (measured_unit t)"

definition in_force :: "conversion_terms \<Rightarrow> date \<Rightarrow> bool" where
  "in_force t on =
     (if \<not> converts t \<or> factor t = None then False
      else case effective_from t of None \<Rightarrow> True | Some d \<Rightarrow> d \<le> on)"

definition validate_terms ::
  "string option \<Rightarrow> string option \<Rightarrow> decimal option \<Rightarrow> date option \<Rightarrow> conversion_terms result" where
  "validate_terms qu tu f eff =
     andthen (normalise_unit qu) (\<lambda>measured.
     andthen (if opt_str tu = [] then Inr None else andthen (normalise_unit tu) (\<lambda>t. Inr (Some t)))
       (\<lambda>trade0.
     let trade = (if trade0 = Some measured then None else trade0) in
     if trade \<noteq> None \<and> f = None
       then Inl (ValueError ''trading in another unit needs a declared conversion factor'')
     else if trade \<noteq> None \<and> eff = None
       then Inl (ValueError ''a conversion factor needs the date it takes effect'')
     else if f \<noteq> None \<and> trade = None
       then Inl (ValueError ''a conversion factor only applies when the trade unit differs'')
     else if (case f of None \<Rightarrow> False | Some x \<Rightarrow> \<not> (FACTOR_MIN \<le> x \<and> x \<le> FACTOR_MAX))
       then Inl (ValueError ''conversion factor is outside its bounds'')
     else Inr \<lparr>measured_unit = measured, trade_unit = trade,
               factor = (if trade \<noteq> None then f else None),
               effective_from = (if trade \<noteq> None then eff else None)\<rparr>))"

section \<open>The paid quantity\<close>

definition trade_quantity :: "pyfloat \<Rightarrow> string \<Rightarrow> string \<Rightarrow> decimal \<Rightarrow> pyfloat result" where
  "trade_quantity net mu tu f =
     andthen (normalise_unit (Some mu)) (\<lambda>measured.
     andthen (normalise_unit (Some tu)) (\<lambda>trade.
     if measured = trade then Inr net
     else
       let amt = repr_dec net in
       andthen (if measured = ''litre'' \<and> trade = ''kg'' then Inr (dec_mul amt f)
                else if measured = ''kg'' \<and> trade = ''litre'' then dec_div amt f
                else Inl (ValueError ''cannot convert'')) (\<lambda>converted.
       andthen (quantize ROUND_HALF_UP 3 converted) (\<lambda>q. Inr (double q)))))"

section \<open>Facts\<close>

lemma normalise_unit_units: "normalise_unit v = Inr w \<Longrightarrow> w = ''litre'' \<or> w = ''kg''"
  by (auto simp: normalise_unit_def SPELLINGS_def result_simps split: if_splits)

lemma normalise_litre [simp]: "normalise_unit (Some ''litre'') = Inr ''litre''"
  unfolding normalise_unit_def by code_simp

lemma normalise_kg [simp]: "normalise_unit (Some ''kg'') = Inr ''kg''"
  unfolding normalise_unit_def by code_simp

lemma normalise_unit_idem: "normalise_unit v = Inr w \<Longrightarrow> normalise_unit (Some w) = Inr w"
  by (drule normalise_unit_units) auto

definition terms_wf :: "conversion_terms \<Rightarrow> bool" where
  "terms_wf t \<longleftrightarrow> measured_unit t \<in> set UNITS \<and>
     (case trade_unit t of
        None \<Rightarrow> factor t = None \<and> effective_from t = None
      | Some u \<Rightarrow> u \<in> set UNITS \<and> u \<noteq> measured_unit t \<and> effective_from t \<noteq> None
          \<and> (\<exists>x. factor t = Some x \<and> FACTOR_MIN \<le> x \<and> x \<le> FACTOR_MAX))"

lemma validate_terms_wf: "validate_terms qu tu f eff = Inr t \<Longrightarrow> terms_wf t"
  by (auto simp: validate_terms_def terms_wf_def UNITS_def result_simps Let_def
      split: if_splits option.splits dest: normalise_unit_units)

lemma terms_wf_validate:
  assumes "terms_wf t"
  shows "validate_terms (Some (measured_unit t)) (trade_unit t) (factor t) (effective_from t) = Inr t"
proof (cases "trade_unit t")
  case None
  then show ?thesis
    using assms by (cases t) (auto simp: terms_wf_def UNITS_def validate_terms_def opt_str_def)
next
  case (Some u)
  then show ?thesis
    using assms by (cases t) (auto simp: terms_wf_def UNITS_def validate_terms_def opt_str_def)
qed

text \<open>
  What \<open>validate_terms\<close> accepts is a normal form: both units are known, a trade unit is
  present only when it differs from the measured one and then carries a factor within the
  commercial bounds and a date; validating the stored terms again returns them unchanged.
\<close>

theorem validate_terms_normal_form:
  assumes "validate_terms qu tu f eff = Inr t"
  shows "terms_wf t \<and>
    validate_terms (Some (measured_unit t)) (trade_unit t) (factor t) (effective_from t) = Inr t"
  using validate_terms_wf [OF assms] terms_wf_validate by simp

lemma validate_terms_normal_form_witness:
  "terms_wf \<lparr>measured_unit = ''litre'', trade_unit = Some ''kg'', factor = Some (103/100),
             effective_from = Some 739000\<rparr>"
proof -
  have "validate_terms (Some ''Litres'') (Some ''KG'') (Some (103/100)) (Some 739000)
     = Inr \<lparr>measured_unit = ''litre'', trade_unit = Some ''kg'', factor = Some (103/100),
            effective_from = Some 739000\<rparr>"
  proof -
    have "normalise_unit (Some ''Litres'') = Inr ''litre''" "normalise_unit (Some ''KG'') = Inr ''kg''"
      unfolding normalise_unit_def by code_simp+
    then show ?thesis by (simp add: validate_terms_def opt_str_def FACTOR_MIN_def FACTOR_MAX_def)
  qed
  then show ?thesis using validate_terms_normal_form by blast
qed

definition converted_exact :: "string \<Rightarrow> decimal \<Rightarrow> decimal \<Rightarrow> decimal" where
  "converted_exact measured q f = (if measured = ''litre'' then q * f else q / f)"

lemma quantize3_near:
  assumes "0 \<le> v" "v \<le> 1000" "\<bar>v - w\<bar> \<le> 1 / 10 ^ 20"
  shows "\<exists>r. quantize ROUND_HALF_UP 3 v = Inr r \<and> at_scale 3 r \<and> 0 \<le> r \<and> r \<le> 1001
    \<and> \<bar>r - w\<bar> \<le> 1/2000 + 1 / 10 ^ 20"
proof -
  have "\<bar>v\<bar> * 10 ^ 3 \<le> 10 ^ prec - 1" using assms(1,2) by (simp add: prec_def)
  then obtain r where r: "quantize ROUND_HALF_UP 3 v = Inr r" using quantize_total by blast
  have "\<bar>r - v\<bar> \<le> 1/2000" using quantize_error_half [OF r] by simp
  then have "r \<le> 1001" "\<bar>r - w\<bar> \<le> 1/2000 + 1 / 10 ^ 20"
    using assms(2,3) by linarith+
  moreover have "0 \<le> r" using quantize_nonneg [OF r] assms(1) by simp
  ultimately show ?thesis
    using r quantize_at_scale [OF r] by blast
qed

text \<open>
  the paid quantity is the measured one times the declared kilograms per litre (or
  divided by it, trading the other way), rounded half-up once to three decimals: for a measured
  quantity of at most 200 units with three decimals and a factor within the bounds, the result
  is a three-decimal number within half a thousandth of the exact conversion (the quotient is
  first rounded to 28 digits), and \<open>Decimal(str(...))\<close> of the stored float is that number.
\<close>

theorem trade_quantity_correct:
  assumes units: "normalise_unit (Some mu) = Inr measured" "normalise_unit (Some tu) = Inr trade"
      "measured \<noteq> trade"
    and q: "at_scale 3 q" "0 \<le> q" "q \<le> 200"
    and f: "at_scale 4 f" "FACTOR_MIN \<le> f" "f \<le> FACTOR_MAX"
  shows "\<exists>r. trade_quantity (double q) mu tu f = Inr (double r) \<and> at_scale 3 r
    \<and> \<bar>r - converted_exact measured q f\<bar> \<le> 1/2000 + 1 / 10 ^ 20
    \<and> repr_dec (double r) = r"
proof -
  let ?v = "if measured = ''litre'' then dec_mul q f else ctx (q / f)"
  have f0: "0 < f" "9/10 \<le> f" "f \<le> 12/10" using f by (simp_all add: FACTOR_MIN_def FACTOR_MAX_def)
  have repr: "repr_dec (double q) = q"
    using q by (intro repr_dec_double digits15_at_scale [of 3]) auto
  have bound: "0 \<le> converted_exact measured q f" "converted_exact measured q f \<le> 300"
  proof -
    have "q * f \<le> 200 * (12/10)" using q f0 by (intro mult_mono) auto
    moreover have "q / f \<le> 200 / (9/10)" using q f0 by (intro frac_le) auto
    then have "q / f \<le> 300" by (rule order_trans) simp
    ultimately show "converted_exact measured q f \<le> 300" by (simp add: converted_exact_def)
    show "0 \<le> converted_exact measured q f" using q f0 by (simp add: converted_exact_def)
  qed
  have "?v = ctx (converted_exact measured q f)" by (simp add: converted_exact_def dec_mul_def)
  then have near: "\<bar>?v - converted_exact measured q f\<bar> \<le> 1 / 10 ^ 20"
    using ctx_error [of "converted_exact measured q f"] bound by simp
  have "0 \<le> ?v"
    using \<open>?v = _\<close> ctx_nonneg [OF bound(1)] by simp
  then obtain r where r: "quantize ROUND_HALF_UP 3 ?v = Inr r" "at_scale 3 r" "0 \<le> r" "r \<le> 1001"
      "\<bar>r - converted_exact measured q f\<bar> \<le> 1/2000 + 1 / 10 ^ 20"
    using quantize3_near [of ?v "converted_exact measured q f"] near bound(2) by force
  have "repr_dec (double r) = r"
    using r(2-4) by (intro repr_dec_double digits15_at_scale [of 3]) auto
  moreover have "trade_quantity (double q) mu tu f = Inr (double r)"
    using units normalise_unit_units [OF units(1)] normalise_unit_units [OF units(2)] r(1) f0
    by (auto simp: trade_quantity_def repr dec_div_def Let_def)
  ultimately show ?thesis using r by blast
qed

lemma trade_quantity_correct_witness:
  "\<exists>r. trade_quantity (double 40) ''litre'' ''kg'' (103/100) = Inr (double r)
     \<and> \<bar>r - converted_exact ''litre'' 40 (103/100)\<bar> \<le> 1/2000 + 1 / 10 ^ 20"
proof -
  have "at_scale 3 (40 :: decimal)" "at_scale 4 (103/100 :: decimal)" by (simp_all add: at_scale_def)
  then show ?thesis
    using trade_quantity_correct [of "''litre''" "''litre''" "''kg''" "''kg''" 40 "103/100"]
    by (force simp: FACTOR_MIN_def FACTOR_MAX_def)
qed

end
