(* ===== verification/Platform.thy ===== *)
theory Platform
  imports Units
begin

text \<open>
  What every business module stands on: the request context (\<open>core/tenancy.py\<close>,
  \<open>core/business_time.py\<close>), the reference tables the modules read (organisations, centres,
  suppliers, devices, branches, financial periods), the organisation's currency, clock and
  units (\<open>core/org_context.py\<close>), the outbox (\<open>infrastructure/events.py\<close> and the relay's
  \<open>publish\<close>), the audit log, the period guard, and the document series
  (\<open>core/document_numbers.py\<close>) with the interface its clients rely on.

  The state is a record that the business modules extend with their own tables.
\<close>

section \<open>Request context\<close>

text \<open>
  \<open>utc_offset\<close> stands for the IANA database behind \<open>zoneinfo\<close>: \<open>None\<close> for a name it does not
  know, otherwise the offset in microseconds at an instant; \<open>wall_offset\<close> is the offset it uses for
  a local wall-clock time. \<open>sha_seed\<close> stands for the first
  eight hexadecimal digits of SHA-256 and \<open>qr_verify\<close> for the HMAC check of a supplier QR code.
  \<open>center_readiness\<close> is the outcome of the operational readiness rules for a centre, its status
  and the rules that failed. \<open>customer_scope\<close> is the household a customer's own login is narrowed
  to. One request reads one clock value, \<open>now\<close>.
\<close>

record env =
  current_tenant :: "uuid option"
  now :: datetime
  utc_offset :: "string \<Rightarrow> (datetime \<Rightarrow> int) option"
  wall_offset :: "string \<Rightarrow> (int \<Rightarrow> int) option"
  customer_scope :: "uuid option"
  mock_hardware_enabled :: bool
  sha_seed :: "string \<Rightarrow> nat"
  qr_verify :: "string \<Rightarrow> uuid option"
  center_readiness :: "uuid \<Rightarrow> string \<times> string list"

definition require_current_tenant :: "env \<Rightarrow> uuid result" where
  "require_current_tenant e = need (ForbiddenError ''tenant context required'') (current_tenant e)"

definition day_us :: int where
  "day_us = 86400000000"

definition epoch_ordinal :: int where
  "epoch_ordinal = 719163"

definition zone_offset :: "env \<Rightarrow> string \<Rightarrow> datetime \<Rightarrow> int" where
  "zone_offset e tz t =
     (case utc_offset e (if tz = [] then ''UTC'' else tz) of None \<Rightarrow> 0 | Some f \<Rightarrow> f t)"

definition business_date_of :: "env \<Rightarrow> datetime \<Rightarrow> string \<Rightarrow> date" where
  "business_date_of e t tz = (t + zone_offset e tz t) div day_us + epoch_ordinal"

definition business_today :: "env \<Rightarrow> string \<Rightarrow> date" where
  "business_today e tz = business_date_of e (now e) tz"

text \<open>\<open>date.year\<close>, as \<open>datetime.py\<close> computes it from the ordinal.\<close>

definition year_of :: "date \<Rightarrow> int" where
  "year_of d =
     (let n = d - 1; n400 = n div 146097; r400 = n mod 146097;
          n100 = r400 div 36524; r100 = r400 mod 36524;
          n4 = r100 div 1461; r4 = r100 mod 1461; n1 = r4 div 365;
          y = n400 * 400 + 1 + n100 * 100 + n4 * 4 + n1
      in if n1 = 4 \<or> n100 = 4 then y - 1 else y)"

section \<open>Reference tables\<close>

record organization =
  org_id :: uuid
  org_name :: string
  org_currency :: string
  org_timezone :: string
  org_quantity_unit :: string
  org_trade_unit :: "string option"
  org_factor :: "decimal option"
  org_factor_from :: "date option"

record collection_center =
  cc_id :: uuid
  cc_tenant :: uuid
  cc_name :: string
  cc_status :: string

record supplier =
  sup_id :: uuid
  sup_tenant :: uuid
  sup_code :: string
  sup_status :: string

record supplier_profile =
  sp_supplier :: uuid
  sp_full_name :: string
  sp_phone :: string

record supplier_center =
  sc_supplier :: uuid
  sc_center :: uuid

record device =
  dev_id :: uuid
  dev_tenant :: uuid
  dev_center :: "uuid option"
  dev_category :: string
  dev_status :: string

record branch =
  br_id :: uuid
  br_tenant :: uuid

record financial_period =
  fp_id :: uuid
  fp_tenant :: uuid
  fp_start :: date
  fp_end :: date
  fp_status :: string
  fp_label :: string
  fp_closed_at :: "datetime option"
  fp_closed_by :: "uuid option"

record outbox_event =
  ev_id :: uuid
  ev_tenant :: "uuid option"
  ev_aggregate_type :: "string option"
  ev_aggregate_id :: "uuid option"
  ev_name :: string
  ev_payload :: payload
  ev_actor :: "uuid option"
  ev_at :: datetime

record audit_record =
  au_tenant :: "uuid option"
  au_actor :: "uuid option"
  au_action :: string
  au_resource_type :: string
  au_resource_id :: json
  au_detail :: payload

record doc_sequence =
  sq_tenant :: uuid
  sq_type :: string
  sq_period :: string
  sq_next :: nat

record config_entry =
  cfg_scope :: string
  cfg_tenant :: "uuid option"
  cfg_key :: string
  cfg_value :: json

record core_db =
  next_id :: uuid
  organizations :: "organization list"
  centers :: "collection_center list"
  suppliers :: "supplier list"
  supplier_profiles :: "supplier_profile list"
  supplier_centers :: "supplier_center list"
  devices :: "device list"
  branches :: "branch list"
  periods :: "financial_period list"
  sequences :: "doc_sequence list"
  outbox :: "outbox_event list"
  audit_log :: "audit_record list"
  config_entries :: "config_entry list"

text \<open>\<open>uuid4\<close> never repeats: a new row takes the next unused identifier.\<close>

definition new_id :: "'a core_db_scheme \<Rightarrow> uuid \<times> 'a core_db_scheme" where
  "new_id db = (next_id db, db\<lparr>next_id := Suc (next_id db)\<rparr>)"

section \<open>Decimal columns\<close>

text \<open>A \<open>Numeric(p, s)\<close> column rounds to \<open>s\<close> decimals and refuses more than \<open>p\<close> digits.\<close>

definition numeric :: "nat \<Rightarrow> nat \<Rightarrow> decimal \<Rightarrow> decimal result" where
  "numeric p s x =
     (let y = of_int (round_half_up (x * 10 ^ s)) / 10 ^ s in
      if 10 ^ (p - s) \<le> \<bar>y\<bar> then Inl (IntegrityError ''numeric field overflow'') else Inr y)"

fun numeric_opt :: "nat \<Rightarrow> nat \<Rightarrow> decimal option \<Rightarrow> decimal option result" where
  "numeric_opt p s None = Inr None"
| "numeric_opt p s (Some x) = andthen (numeric p s x) (\<lambda>y. Inr (Some y))"

text \<open>\<open>Field(max_length=n)\<close> of a command, and a \<open>String(n)\<close> column, which refuses longer text.\<close>

definition at_most :: "nat \<Rightarrow> string \<Rightarrow> bool" where
  "at_most n s \<longleftrightarrow> length s \<le> n"

definition column_text :: "nat \<Rightarrow> string \<Rightarrow> string result" where
  "column_text n s = (if at_most n s then Inr s else Inl (IntegrityError ''value too long for its column''))"

fun column_opt :: "nat \<Rightarrow> string option \<Rightarrow> string option result" where
  "column_opt n None = Inr None"
| "column_opt n (Some s) = andthen (column_text n s) (\<lambda>t. Inr (Some t))"

lemma column_text_Inr [result_simps]: "column_text n s = Inr t \<longleftrightarrow> t = s \<and> length s \<le> n"
  by (auto simp: column_text_def at_most_def)

lemma column_opt_Inr [result_simps]: "column_opt n s = Inr t \<longleftrightarrow> t = s \<and> length (opt_str s) \<le> n"
  by (cases s) (auto simp: column_text_def at_most_def opt_str_def)

lemma numeric_fits:
  assumes "at_scale s x" and "\<bar>x\<bar> < 10 ^ (p - s)"
  shows "numeric p s x = Inr x"
proof -
  obtain k where k: "x = of_int k / 10 ^ s" using assms(1) by (rule at_scaleE)
  then have "x * 10 ^ s = of_int k" by simp
  then have "of_int (round_half_up (x * 10 ^ s)) / 10 ^ s = x"
    using half_up.rnd_of_int [of k] by (simp add: k)
  then show ?thesis using assms(2) by (simp add: numeric_def Let_def)
qed

lemma numeric_idem: "numeric p s x = Inr y \<Longrightarrow> numeric p s y = Inr y"
proof -
  assume a: "numeric p s x = Inr y"
  then have y: "y = of_int (round_half_up (x * 10 ^ s)) / 10 ^ s" "\<bar>y\<bar> < 10 ^ (p - s)"
    by (auto simp: numeric_def Let_def split: if_splits)
  have "at_scale s y" unfolding y(1) by (rule at_scaleI) simp
  then show ?thesis using y(2) by (rule numeric_fits)
qed

lemma numeric_opt_idem: "numeric_opt p s x = Inr y \<Longrightarrow> numeric_opt p s y = Inr y"
  by (cases x) (auto simp: result_simps numeric_idem)

lemma numeric_InrD:
  assumes "numeric p s x = Inr y"
  shows "at_scale s y \<and> \<bar>y\<bar> < 10 ^ (p - s)"
  using assms by (auto simp: numeric_def Let_def split: if_splits)

lemma numeric_at_scale:
  assumes "at_scale s x" and "numeric p s x = Inr y"
  shows "y = x"
proof -
  obtain k where k: "x = of_int k / 10 ^ s" using assms(1) by (rule at_scaleE)
  then have "x * 10 ^ s = of_int k" by simp
  then have "of_int (round_half_up (x * 10 ^ s)) / 10 ^ s = x"
    using half_up.rnd_of_int [of k] by (simp add: k)
  then show ?thesis using assms(2) by (auto simp: numeric_def Let_def split: if_splits)
qed

lemma numeric_near:
  assumes "numeric p s x = Inr y"
  shows "\<bar>y - x\<bar> \<le> 1"
proof -
  have y: "y = of_int (round_half_up (x * 10 ^ s)) / 10 ^ s"
    using assms by (auto simp: numeric_def Let_def split: if_splits)
  then have "y - x = (of_int (round_half_up (x * 10 ^ s)) - x * 10 ^ s) / 10 ^ s" by (simp add: field_simps)
  then have "\<bar>y - x\<bar> = \<bar>of_int (round_half_up (x * 10 ^ s)) - x * 10 ^ s\<bar> / 10 ^ s" by (simp add: abs_divide)
  also have "\<dots> \<le> (1/2) / 10 ^ s" using half_up.nearest [of "x * 10 ^ s"] by (intro divide_right_mono) auto
  also have "\<dots> \<le> 1 / 1" using one_le_power [of "10 :: rat" s] by (intro frac_le) auto
  finally show ?thesis by simp
qed

lemma numeric_opt_None_iff: "numeric_opt p s x = Inr y \<Longrightarrow> y = None \<longleftrightarrow> x = None"
  by (cases x) (auto simp: result_simps)

section \<open>The organisation's currency, clock and units\<close>

definition get_org :: "'a core_db_scheme \<Rightarrow> uuid \<Rightarrow> organization option" where
  "get_org db t = row_get org_id t (organizations db)"

definition resolve_tenant :: "env \<Rightarrow> uuid option \<Rightarrow> uuid option" where
  "resolve_tenant e t = (case t of None \<Rightarrow> current_tenant e | Some x \<Rightarrow> Some x)"

definition tenant_org :: "env \<Rightarrow> 'a core_db_scheme \<Rightarrow> uuid option \<Rightarrow> organization option" where
  "tenant_org e db t = Option.bind (resolve_tenant e t) (get_org db)"

definition or_else :: "string \<Rightarrow> string \<Rightarrow> string" where
  "or_else s d = (if s = [] then d else s)"

definition tenant_units :: "env \<Rightarrow> 'a core_db_scheme \<Rightarrow> uuid option \<Rightarrow> conversion_terms" where
  "tenant_units e db t =
     (case tenant_org e db t of
        None \<Rightarrow> \<lparr>measured_unit = ''kg'', trade_unit = None, factor = None, effective_from = None\<rparr>
      | Some org \<Rightarrow> \<lparr>measured_unit = or_else (org_quantity_unit org) ''kg'',
                    trade_unit = org_trade_unit org, factor = org_factor org,
                    effective_from = org_factor_from org\<rparr>)"

definition tenant_timezone :: "env \<Rightarrow> 'a core_db_scheme \<Rightarrow> uuid option \<Rightarrow> string" where
  "tenant_timezone e db t =
     (case tenant_org e db t of None \<Rightarrow> ''UTC'' | Some org \<Rightarrow> or_else (org_timezone org) ''UTC'')"

definition tenant_currency :: "env \<Rightarrow> 'a core_db_scheme \<Rightarrow> uuid option \<Rightarrow> string result" where
  "tenant_currency e db t =
     (let c = (case tenant_org e db t of None \<Rightarrow> [] | Some org \<Rightarrow> org_currency org) in
      if map_of CURRENCIES c = None
        then Inl (ValidationError ''this organization has no usable currency'')
      else Inr c)"

definition require_tenant_unit ::
  "env \<Rightarrow> 'a core_db_scheme \<Rightarrow> string option \<Rightarrow> uuid option \<Rightarrow> string result" where
  "require_tenant_unit e db claimed t =
     (let terms = tenant_units e db t in
      if claimed = None \<or> str_strip (opt_str claimed) = [] then Inr (measured_unit terms)
      else case normalise_unit claimed of
          Inl _ \<Rightarrow> Inl (ConflictError ''unknown quantity unit'')
        | Inr unit \<Rightarrow>
            if unit \<noteq> measured_unit terms
              then Inl (ConflictError ''this organisation measures milk in another unit'')
            else Inr unit)"

section \<open>Audit and events\<close>

definition audit_of ::
  "env \<Rightarrow> string \<Rightarrow> string \<Rightarrow> json \<Rightarrow> uuid option \<Rightarrow> payload \<Rightarrow> 'a core_db_scheme \<Rightarrow> 'a core_db_scheme" where
  "audit_of e action rtype rid actor detail db =
     db\<lparr>audit_log := audit_log db @
       [\<lparr>au_tenant = current_tenant e, au_actor = actor, au_action = action,
         au_resource_type = rtype, au_resource_id = rid, au_detail = detail\<rparr>]\<rparr>"

definition audit ::
  "env \<Rightarrow> string \<Rightarrow> string \<Rightarrow> uuid \<Rightarrow> uuid option \<Rightarrow> payload \<Rightarrow> 'a core_db_scheme \<Rightarrow> 'a core_db_scheme" where
  "audit e action rtype rid actor detail db = audit_of e action rtype (JId rid) actor detail db"

definition publish ::
  "env \<Rightarrow> string \<Rightarrow> payload \<Rightarrow> uuid option \<Rightarrow> string option \<Rightarrow> uuid option
     \<Rightarrow> 'a core_db_scheme \<Rightarrow> 'a core_db_scheme" where
  "publish e name data actor atype aid db =
     (let (i, db1) = new_id db in
      db1\<lparr>outbox := outbox db1 @
        [\<lparr>ev_id = i, ev_tenant = current_tenant e, ev_aggregate_type = atype, ev_aggregate_id = aid,
          ev_name = name, ev_payload = data, ev_actor = actor, ev_at = now e\<rparr>]\<rparr>)"

lemma new_id_eq: "new_id db = (next_id db, db\<lparr>next_id := Suc (next_id db)\<rparr>)"
  by (simp add: new_id_def)

lemma next_id_publish [simp]: "next_id (publish e n d a t i db) = Suc (next_id db)"
  by (simp add: publish_def new_id_def)

lemma next_id_audit [simp]: "next_id (audit e n t i a d db) = next_id db"
  by (simp add: audit_def audit_of_def)

definition find_aggregate_event ::
  "string \<Rightarrow> uuid \<Rightarrow> uuid \<Rightarrow> 'a core_db_scheme \<Rightarrow> outbox_event option" where
  "find_aggregate_event atype aid tenant db =
     find (\<lambda>ev. ev_aggregate_type ev = Some atype \<and> ev_aggregate_id ev = Some aid
                \<and> ev_tenant ev = Some tenant) (outbox db)"

section \<open>Financial periods\<close>

definition period_covering :: "uuid \<Rightarrow> date \<Rightarrow> 'a core_db_scheme \<Rightarrow> financial_period option" where
  "period_covering tenant day db =
     find (\<lambda>p. fp_tenant p = tenant \<and> fp_start p \<le> day \<and> day \<le> fp_end p) (periods db)"

definition assert_period_open :: "'a core_db_scheme \<Rightarrow> uuid \<Rightarrow> date \<Rightarrow> unit result" where
  "assert_period_open db tenant day =
     (case period_covering tenant day db of
        None \<Rightarrow> Inr ()
      | Some p \<Rightarrow> if fp_status p = ''closed''
                  then Inl (ConflictError ''refused: the date falls in a closed financial period'')
                  else Inr ())"

section \<open>Document numbers\<close>

type_synonym series = "uuid \<times> string \<times> string"

definition sq_key :: "doc_sequence \<Rightarrow> series" where
  "sq_key q = (sq_tenant q, sq_type q, sq_period q)"

definition WIDTH :: nat where
  "WIDTH = 6"

definition period_for :: "date \<Rightarrow> string" where
  "period_for on = show_int (year_of on)"

definition series_next :: "doc_sequence list \<Rightarrow> series \<Rightarrow> nat" where
  "series_next qs k = (case find (\<lambda>q. sq_key q = k) qs of None \<Rightarrow> 1 | Some q \<Rightarrow> sq_next q)"

text \<open>Locks the counter row (creating it at 1 on the first document of the series), hands out
  its value and increments it.\<close>

definition allocate :: "series \<Rightarrow> doc_sequence list \<Rightarrow> nat \<times> doc_sequence list" where
  "allocate k qs =
     (let qs1 = (case find (\<lambda>q. sq_key q = k) qs of
                   None \<Rightarrow> qs @ [\<lparr>sq_tenant = fst k, sq_type = fst (snd k),
                                  sq_period = snd (snd k), sq_next = 1\<rparr>]
                 | Some _ \<Rightarrow> qs);
          v = series_next qs1 k
      in (v, map (\<lambda>q. if sq_key q = k then q\<lparr>sq_next := v + 1\<rparr> else q) qs1))"

definition document_number :: "string \<Rightarrow> string \<Rightarrow> nat \<Rightarrow> string" where
  "document_number prefix period v = prefix @ ''-'' @ period @ ''-'' @ pad_zeros WIDTH (show_nat v)"

definition next_document_number ::
  "env \<Rightarrow> uuid \<Rightarrow> string \<Rightarrow> string \<Rightarrow> 'a core_db_scheme \<Rightarrow> string \<times> 'a core_db_scheme" where
  "next_document_number e tenant doc_type prefix db =
     (let period = period_for (business_today e (tenant_timezone e db (Some tenant)));
          (v, qs) = allocate (tenant, doc_type, period) (sequences db)
      in (document_number prefix period v, db\<lparr>sequences := qs\<rparr>))"


section \<open>The interface of a number series\<close>

text \<open>
  What the clients of a series rely on: a call hands out the counter of the key and moves that
  counter, and only that one, forward by one. From these three laws the values handed out by any
  interleaving of calls are consecutive per key, hence never repeated.
\<close>

fun issue_run :: "('k \<Rightarrow> 's \<Rightarrow> nat \<times> 's) \<Rightarrow> 'k list \<Rightarrow> 's \<Rightarrow> ('k \<times> nat) list" where
  "issue_run alloc [] s = []"
| "issue_run alloc (k # ks) s = (let (v, s') = alloc k s in (k, v) # issue_run alloc ks s')"

lemma upt_from: "[a ..< Suc (a + n)] = a # [Suc a ..< Suc (a + n)]"
  by (simp add: upt_conv_Cons)

locale number_series =
  fixes nxt :: "'s \<Rightarrow> 'k \<Rightarrow> nat"
    and alloc :: "'k \<Rightarrow> 's \<Rightarrow> nat \<times> 's"
  assumes alloc_value: "fst (alloc k s) = nxt s k"
    and alloc_same: "nxt (snd (alloc k s)) k = Suc (nxt s k)"
    and alloc_other: "k \<noteq> k' \<Longrightarrow> nxt (snd (alloc k s)) k' = nxt s k'"
begin

lemma run_consecutive:
  "map snd (filter (\<lambda>p. fst p = k) (issue_run alloc ks s)) =
     [nxt s k ..< nxt s k + length (filter (\<lambda>k'. k' = k) ks)]"
proof (induction ks arbitrary: s)
  case (Cons k' ks)
  show ?case
  proof (cases "k' = k")
    case True
    then show ?thesis
      using Cons.IH [of "snd (alloc k s)"] alloc_value [of k s] alloc_same [of k s]
      by (simp add: split_def upt_from del: upt_Suc)
  next
    case False
    then show ?thesis
      using Cons.IH [of "snd (alloc k' s)"] alloc_other [of k' k s]
      by (simp add: split_def Let_def)
  qed
qed simp

lemma run_ge: "(k, v) \<in> set (issue_run alloc ks s) \<Longrightarrow> nxt s k \<le> v"
proof -
  assume "(k, v) \<in> set (issue_run alloc ks s)"
  then have "v \<in> set (map snd (filter (\<lambda>p. fst p = k) (issue_run alloc ks s)))" by force
  then show ?thesis by (simp add: run_consecutive)
qed

lemma run_distinct: "distinct (issue_run alloc ks s)"
proof (induction ks arbitrary: s)
  case (Cons k ks)
  have "(k, nxt s k) \<notin> set (issue_run alloc ks (snd (alloc k s)))"
    using run_ge [of k "nxt s k" ks "snd (alloc k s)"] alloc_same [of k s] by auto
  then show ?case using Cons by (simp add: split_def alloc_value)
qed simp

end

lemma find_key_map:
  "(\<And>q. sq_key (f q) = sq_key q) \<Longrightarrow>
     find (\<lambda>q. sq_key q = k) (map f qs) = map_option f (find (\<lambda>q. sq_key q = k) qs)"
  by (induction qs) auto

definition opened :: "series \<Rightarrow> doc_sequence list \<Rightarrow> doc_sequence list" where
  "opened k qs =
     (case find (\<lambda>q. sq_key q = k) qs of
        None \<Rightarrow> qs @ [\<lparr>sq_tenant = fst k, sq_type = fst (snd k), sq_period = snd (snd k), sq_next = 1\<rparr>]
      | Some _ \<Rightarrow> qs)"

lemma find_append: "find P (xs @ ys) = (case find P xs of None \<Rightarrow> find P ys | Some x \<Rightarrow> Some x)"
  by (induction xs) auto

lemma series_next_opened: "series_next (opened k qs) j = series_next qs j"
  by (cases "find (\<lambda>q. sq_key q = k) qs")
    (auto simp: opened_def series_next_def find_append sq_key_def split: option.splits)

lemma find_opened: "find (\<lambda>q. sq_key q = k) (opened k qs) \<noteq> None"
  by (cases "find (\<lambda>q. sq_key q = k) qs")
    (auto simp: opened_def find_append sq_key_def)

lemma allocate_eq:
  "allocate k qs =
     (series_next qs k,
      map (\<lambda>q. if sq_key q = k then q\<lparr>sq_next := Suc (series_next qs k)\<rparr> else q) (opened k qs))"
  by (simp add: allocate_def opened_def [symmetric] Let_def series_next_opened)

lemma series_next_bump:
  assumes "find (\<lambda>q. sq_key q = k) qs \<noteq> None"
  shows "series_next (map (\<lambda>q. if sq_key q = k then q\<lparr>sq_next := v\<rparr> else q) qs) j =
           (if j = k then v else series_next qs j)"
proof -
  have key: "sq_key (if sq_key q = k then q\<lparr>sq_next := v\<rparr> else q) = sq_key q" for q
    by (simp add: sq_key_def)
  obtain r where r: "find (\<lambda>q. sq_key q = k) qs = Some r" using assms by blast
  show ?thesis
    unfolding series_next_def find_key_map [OF key]
    using r by (cases "j = k") (auto split: option.splits dest!: find_SomeD)
qed

interpretation doc_series: number_series series_next allocate
  by unfold_locales (simp_all add: allocate_eq series_next_bump series_next_opened find_opened)

section \<open>Issued document numbers\<close>

text \<open>A request asks for a number of a document type under its prefix; \<open>e\<close> is the context (and so
  the clock) of that request.\<close>

type_synonym number_request = "env \<times> uuid \<times> string \<times> string"

definition request_series :: "'a core_db_scheme \<Rightarrow> number_request \<Rightarrow> series" where
  "request_series db r =
     (case r of (e, tenant, doc_type, prefix) \<Rightarrow>
        (tenant, doc_type, period_for (business_today e (tenant_timezone e db (Some tenant)))))"

fun issue_documents :: "number_request list \<Rightarrow> 'a core_db_scheme \<Rightarrow> (series \<times> string) list" where
  "issue_documents [] db = []"
| "issue_documents ((e, tenant, doc_type, prefix) # rs) db =
     (let (number, db') = next_document_number e tenant doc_type prefix db
      in (request_series db (e, tenant, doc_type, prefix), number) # issue_documents rs db')"

lemma tenant_timezone_sequences [simp]:
  "tenant_timezone e (db\<lparr>sequences := q\<rparr>) t = tenant_timezone e db t"
  by (simp add: tenant_timezone_def tenant_org_def get_org_def [abs_def])

lemma request_series_sequences [simp]:
  "request_series (db\<lparr>sequences := q\<rparr>) r = request_series db r"
  by (simp add: request_series_def split: prod.splits)

definition render :: "number_request \<Rightarrow> series \<times> nat \<Rightarrow> series \<times> string" where
  "render r p = (fst p, document_number (snd (snd (snd r))) (snd (snd (fst p))) (snd p))"

lemma issue_documents_run:
  "issue_documents rs db =
     map2 render rs (issue_run allocate (map (request_series db) rs) (sequences db))"
proof (induction rs arbitrary: db)
  case (Cons r rs)
  obtain e tenant doc_type prefix where r: "r = (e, tenant, doc_type, prefix)" by (cases r)
  show ?case
    by (simp add: r next_document_number_def Let_def split_def Cons.IH render_def request_series_def)
qed simp

lemma document_number_inj:
  "document_number p y v = document_number q y' w \<Longrightarrow> v = w"
proof -
  assume "document_number p y v = document_number q y' w"
  then have "(p @ ''-'' @ y) @ CHR ''-'' # pad_zeros WIDTH (show_nat v)
           = (q @ ''-'' @ y') @ CHR ''-'' # pad_zeros WIDTH (show_nat w)"
    by (simp add: document_number_def)
  then have "pad_zeros WIDTH (show_nat v) = pad_zeros WIDTH (show_nat w)"
    using split_at_hyphen hyphen_not_in_pad by blast
  then show "v = w" by (rule pad_show_nat_inj)
qed

lemma issue_run_keys: "map fst (issue_run alloc ks s) = ks"
  by (induction ks arbitrary: s) (simp_all add: split_def Let_def)

lemma map2_render_same:
  "length rs = length ps \<Longrightarrow> \<forall>p \<in> set ps. fst p = k \<Longrightarrow> \<forall>r \<in> set rs. snd (snd (snd r)) = prefix
    \<Longrightarrow> map snd (map2 render rs ps) = map (document_number prefix (snd (snd k))) (map snd ps)"
  by (induction rs ps rule: list_induct2) (simp_all add: render_def)

text \<open>
  What the tables see of the numbers: tenant, document type and the printed number. Every type is printed
  with a prefix of its own, as the callers of \<open>next_document_number\<close> do.
\<close>

fun issued_numbers :: "(string \<Rightarrow> string) \<Rightarrow> (env \<times> uuid \<times> string) list \<Rightarrow> 'a core_db_scheme \<Rightarrow> (uuid \<times> string \<times> string) list" where
  "issued_numbers prefix_of [] db = []"
| "issued_numbers prefix_of ((e, tenant, doc_type) # rs) db =
     (let (number, db') = next_document_number e tenant doc_type (prefix_of doc_type) db
      in (tenant, doc_type, number) # issued_numbers prefix_of rs db')"

definition printed :: "(string \<Rightarrow> string) \<Rightarrow> series \<times> nat \<Rightarrow> uuid \<times> string \<times> string" where
  "printed prefix_of p =
     (case p of ((tenant, doc_type, period), v) \<Rightarrow> (tenant, doc_type, document_number (prefix_of doc_type) period v))"

lemma issued_numbers_run:
  "issued_numbers prefix_of rs db =
     map (printed prefix_of)
       (issue_run allocate (map (\<lambda>(e, t, d). request_series db (e, t, d, prefix_of d)) rs) (sequences db))"
proof (induction rs arbitrary: db)
  case (Cons r rs)
  obtain e tenant doc_type where r: "r = (e, tenant, doc_type)" by (cases r)
  show ?case
    by (simp add: r next_document_number_def Let_def split_def Cons.IH printed_def request_series_def)
qed simp

lemma document_number_period:
  assumes "document_number p y v = document_number p y' w"
  shows "y = y'"
proof -
  have "(p @ ''-'' @ y) @ CHR ''-'' # pad_zeros WIDTH (show_nat v)
           = (p @ ''-'' @ y') @ CHR ''-'' # pad_zeros WIDTH (show_nat w)"
    using assms by (simp add: document_number_def)
  then have "p @ ''-'' @ y = p @ ''-'' @ y'" using split_at_hyphen hyphen_not_in_pad by blast
  then show ?thesis by simp
qed

lemma printed_inj: "inj (printed prefix_of)"
proof (rule injI)
  fix p q assume eq: "printed prefix_of p = printed prefix_of q"
  obtain t d y v t' d' y' w where p: "p = ((t, d, y), v)" and q: "q = ((t', d', y'), w)" by (metis prod.collapse)
  then have "t = t'" "d = d'" "document_number (prefix_of d) y v = document_number (prefix_of d) y' w"
    using eq by (auto simp: printed_def)
  then show "p = q" using document_number_period document_number_inj unfolding p q by blast
qed

text \<open>
  C21: Document numbers never repeat. However requests for slips, settlements, payments and receipts of any
  number of tenants interleave, and whatever the clock reads at each, so that years may change and return,
  no tenant gets the same number twice for documents of one type.
\<close>

theorem document_numbers_distinct: "distinct (issued_numbers prefix_of rs db)"
  unfolding issued_numbers_run distinct_map
  using doc_series.run_distinct inj_on_subset [OF printed_inj] by blast

text \<open>
  A series runs in sequence. Requests of one tenant for one document type, all dated in the
  same business year and none issued in it yet, obtain 1, 2, 3, ... in the order they are made,
  printed with the series' prefix and year, whatever numbers other series have reached.
\<close>

theorem document_numbers_sequential:
  assumes "\<And>r. r \<in> set rs \<Longrightarrow> request_series db r = k"
    and "\<And>r. r \<in> set rs \<Longrightarrow> snd (snd (snd r)) = prefix"
    and "series_next (sequences db) k = 1"
  shows "map snd (issue_documents rs db) =
           map (document_number prefix (snd (snd k))) [1 ..< Suc (length rs)]"
proof -
  define ps where "ps = issue_run allocate (map (request_series db) rs) (sequences db)"
  have ks: "map (request_series db) rs = replicate (length rs) k"
    using assms(1) by (induction rs) auto
  have keys: "map fst ps = replicate (length rs) k"
    by (simp add: ps_def issue_run_keys ks)
  then have len: "length rs = length ps" by (metis length_map length_replicate)
  have all: "\<forall>p \<in> set ps. fst p = k"
    using keys by (metis image_eqI in_set_replicate list.set_map)
  then have "map snd ps = [1 ..< Suc (length rs)]"
    using doc_series.run_consecutive [of k "replicate (length rs) k" "sequences db"] assms(3)
    by (simp add: ps_def [unfolded ks, symmetric] filter_id_conv del: upt_Suc)
  then show ?thesis
    using map2_render_same [OF len all, of prefix] assms(2)
    by (simp add: issue_documents_run ps_def [symmetric] del: upt_Suc)
qed

definition sample_env :: "uuid \<Rightarrow> datetime \<Rightarrow> env" where
  "sample_env tenant t =
     \<lparr>current_tenant = Some tenant, now = t, utc_offset = (\<lambda>_. None), wall_offset = (\<lambda>_. None),
      customer_scope = None, mock_hardware_enabled = False,
      sha_seed = (\<lambda>_. 0), qr_verify = (\<lambda>_. None), center_readiness = (\<lambda>_. (''ready'', []))\<rparr>"

definition empty_core :: core_db where
  "empty_core =
     \<lparr>next_id = 1, organizations = [], centers = [], suppliers = [], supplier_profiles = [],
      supplier_centers = [], devices = [], branches = [], periods = [], sequences = [],
      outbox = [], audit_log = [], config_entries = []\<rparr>"

lemmas sample_simps =
  request_series_def business_today_def business_date_of_def zone_offset_def tenant_timezone_def
  tenant_org_def resolve_tenant_def get_org_def sample_env_def empty_core_def day_us_def epoch_ordinal_def

lemma document_numbers_sequential_witness:
  "map snd (issue_documents
      [(sample_env 1 0, 1, ''payment'', ''PAY''), (sample_env 1 60000000, 1, ''payment'', ''PAY'')]
      empty_core)
    = map (document_number ''PAY'' ''1970'') [1 ..< Suc 2]"
proof -
  let ?rs = "[(sample_env 1 0, 1, ''payment'', ''PAY''), (sample_env 1 60000000, 1, ''payment'', ''PAY'')]"
  have y: "period_for 719163 = ''1970''" by code_simp
  have r1: "request_series empty_core (sample_env 1 0, 1, ''payment'', ''PAY'') = (1, ''payment'', ''1970'')"
    by (simp add: sample_simps y)
  have r2: "request_series empty_core (sample_env 1 60000000, 1, ''payment'', ''PAY'')
            = (1, ''payment'', ''1970'')"
    by (simp add: sample_simps y)
  have a: "request_series empty_core r = (1, ''payment'', ''1970'')" if "r \<in> set ?rs" for r
    using that r1 r2 by (auto simp only: set_simps insert_iff empty_iff)
  have b: "snd (snd (snd r)) = ''PAY''" if "r \<in> set ?rs" for r
    using that by (auto simp only: set_simps insert_iff empty_iff snd_conv)
  have c: "series_next (sequences empty_core) (1, ''payment'', ''1970'') = 1"
    by (simp add: empty_core_def series_next_def)
  have d: "length ?rs = 2" by simp
  show ?thesis
    using document_numbers_sequential [of ?rs empty_core "(1, ''payment'', ''1970'')" "''PAY''", OF a b c]
    unfolding d snd_conv by blast
qed


section \<open>The event log as a durable record\<close>

text \<open>
  Some facts live only in the outbox: a price calculation has no table, so settlement reads its
  amounts back from the event. What it relies on is that the log only grows and that a reader
  finds the first event of a key.
\<close>

locale event_log =
  fixes look :: "'l \<Rightarrow> 'k \<Rightarrow> 'e option" and app :: "'e \<Rightarrow> 'l \<Rightarrow> 'l" and key :: "'e \<Rightarrow> 'k"
  assumes look_new: "look l (key ev) = None \<Longrightarrow> look (app ev l) (key ev) = Some ev"
    and look_old: "look l k = Some ev \<Longrightarrow> look (app ev' l) k = Some ev"
    and look_other: "key ev \<noteq> k \<Longrightarrow> look (app ev l) k = look l k"
begin

lemma look_persists: "look l k = Some ev \<Longrightarrow> look (fold app evs l) k = Some ev"
  by (induction evs arbitrary: l) (simp_all add: look_old)

lemma look_first:
  "look l k = None \<Longrightarrow> look (fold app evs l) k = find (\<lambda>ev. key ev = k) evs"
proof (induction evs arbitrary: l)
  case (Cons ev evs)
  show ?case
  proof (cases "key ev = k")
    case True
    then show ?thesis using Cons.prems look_new [of l ev] look_persists by auto
  next
    case False
    then show ?thesis using Cons.IH [of "app ev l"] Cons.prems look_other [of ev k l] by simp
  qed
qed simp

end

type_synonym event_key = "string option \<times> uuid option \<times> uuid option"

definition event_key_of :: "outbox_event \<Rightarrow> event_key" where
  "event_key_of ev = (ev_aggregate_type ev, ev_aggregate_id ev, ev_tenant ev)"

definition look_event :: "outbox_event list \<Rightarrow> event_key \<Rightarrow> outbox_event option" where
  "look_event l k = find (\<lambda>ev. event_key_of ev = k) l"

interpretation outbox_log: event_log look_event "\<lambda>ev l. l @ [ev]" event_key_of
  by unfold_locales (simp_all add: look_event_def find_append split: option.split)

lemma find_aggregate_event_look:
  "find_aggregate_event atype i tenant db = look_event (outbox db) (Some atype, Some i, Some tenant)"
  by (simp add: find_aggregate_event_def look_event_def event_key_of_def)

lemma look_event_None:
  "(\<And>ev. ev \<in> set l \<Longrightarrow> event_key_of ev \<noteq> k) \<Longrightarrow> look_event l k = None"
  by (simp add: look_event_def find_None_ball)

lemma outbox_publish:
  "outbox (publish e n d a t i db) = outbox db @
     [\<lparr>ev_id = next_id db, ev_tenant = current_tenant e, ev_aggregate_type = t, ev_aggregate_id = i,
       ev_name = n, ev_payload = d, ev_actor = a, ev_at = now e\<rparr>]"
  by (simp add: publish_def new_id_def)

text \<open>Every identifier that names an aggregate of a type was handed out before.\<close>

definition aggregates_ok :: "string \<Rightarrow> 'a core_db_scheme \<Rightarrow> bool" where
  "aggregates_ok atype db \<longleftrightarrow>
     (\<forall>ev \<in> set (outbox db). ev_aggregate_type ev = Some atype \<longrightarrow>
        (\<exists>i. ev_aggregate_id ev = Some i \<and> i < next_id db))"

lemma aggregates_ok_fresh:
  "aggregates_ok atype db \<Longrightarrow> look_event (outbox db) (Some atype, Some (next_id db), t) = None"
  by (rule look_event_None) (auto simp: aggregates_ok_def event_key_of_def)

end
