(* ===== verification/PricingTables.thy ===== *)
theory PricingTables
  imports Platform "HOL-Library.List_Lexorder" "HOL-Library.Char_ord"
begin

text \<open>
  The tables of the pricing module (\<open>modules/pricing/models.py\<close>) and their integrity conditions:
  the unique constraints and check constraints the models declare, and the invariants the
  services maintain (BR-0002 disjoint published windows, BR-0004 disjoint bands, one open version
  per code, matrices that follow their rate card). Each condition is a predicate on the tables it
  reads, so that an operation that leaves those tables alone preserves it by simplification.

  The bookkeeping columns \<open>created_at\<close>, \<open>updated_at\<close> and \<open>assigned_at\<close>, which the database fills in
  and no operation of the module reads except as insertion order, are left out.
\<close>

section \<open>Rows\<close>

datatype card_status = Draft | UnderReview | Approved | Published | Archived

datatype matrix_status = MDraft | MActive | MArchived

definition card_status_name :: "card_status \<Rightarrow> string" where
  "card_status_name s =
     (case s of Draft \<Rightarrow> ''draft'' | UnderReview \<Rightarrow> ''under_review'' | Approved \<Rightarrow> ''approved''
      | Published \<Rightarrow> ''published'' | Archived \<Rightarrow> ''archived'')"

definition matrix_status_name :: "matrix_status \<Rightarrow> string" where
  "matrix_status_name s =
     (case s of MDraft \<Rightarrow> ''draft'' | MActive \<Rightarrow> ''active'' | MArchived \<Rightarrow> ''archived'')"

record rate_card =
  rc_id :: uuid
  rc_tenant :: uuid
  rc_branch :: "uuid option"
  rc_code :: string
  rc_name :: string
  rc_description :: string
  rc_currency :: string
  rc_from :: date
  rc_until :: "date option"
  rc_status :: card_status
  rc_version :: nat
  rc_published_at :: "datetime option"
  rc_archived_at :: "datetime option"

record center_assignment =
  ca_id :: uuid
  ca_tenant :: uuid
  ca_card :: uuid
  ca_center :: uuid

record product_assignment =
  pa_id :: uuid
  pa_tenant :: uuid
  pa_card :: uuid
  pa_product :: string
  pa_name :: string

record quality_dimension =
  qd_id :: uuid
  qd_tenant :: uuid
  qd_code :: string
  qd_name :: string
  qd_unit :: string
  qd_min :: "pyfloat option"
  qd_max :: "pyfloat option"
  qd_active :: bool

record pricing_matrix =
  pm_id :: uuid
  pm_tenant :: uuid
  pm_card :: uuid
  pm_name :: string
  pm_product :: string
  pm_product_name :: string
  pm_dimension :: string
  pm_status :: matrix_status
  pm_version :: nat

record matrix_row =
  mr_id :: uuid
  mr_tenant :: uuid
  mr_matrix :: uuid
  mr_sequence :: nat
  mr_from :: pyfloat
  mr_to :: pyfloat
  mr_price :: decimal
  mr_active :: bool

record pricing_db = core_db +
  rate_cards :: "rate_card list"
  center_assignments :: "center_assignment list"
  product_assignments :: "product_assignment list"
  dimensions :: "quality_dimension list"
  matrices :: "pricing_matrix list"
  matrix_rows :: "matrix_row list"

text \<open>A \<open>Numeric(12, 4)\<close> column keeps four decimal places and refuses what does not fit; the row's
  check constraint refuses a stored price of zero.\<close>

definition store_price :: "decimal \<Rightarrow> decimal result" where
  "store_price x =
     (let y = of_int (round_half_up (x * 10 ^ 4)) / 10 ^ 4 in
      if 10 ^ 8 \<le> \<bar>y\<bar> then Inl (IntegrityError ''numeric field overflow'')
      else if y \<le> 0 then Inl (IntegrityError ''ck_matrix_row_price'')
      else Inr y)"

section \<open>Windows and bands\<close>

definition overlaps :: "date \<Rightarrow> date option \<Rightarrow> date \<Rightarrow> date option \<Rightarrow> bool" where
  "overlaps a_from a_until b_from b_until \<longleftrightarrow>
     (case a_until of None \<Rightarrow> True | Some u \<Rightarrow> b_from \<le> u)
     \<and> (case b_until of None \<Rightarrow> True | Some u \<Rightarrow> a_from \<le> u)"

definition ranges_overlap :: "pyfloat \<Rightarrow> pyfloat \<Rightarrow> pyfloat \<Rightarrow> pyfloat \<Rightarrow> bool" where
  "ranges_overlap a_from a_to b_from b_to \<longleftrightarrow> a_from < b_to \<and> b_from < a_to"

definition covers :: "rate_card \<Rightarrow> date \<Rightarrow> bool" where
  "covers c on \<longleftrightarrow> rc_from c \<le> on \<and> (case rc_until c of None \<Rightarrow> True | Some u \<Rightarrow> on \<le> u)"

definition band_contains :: "matrix_row \<Rightarrow> pyfloat \<Rightarrow> bool" where
  "band_contains r v \<longleftrightarrow> mr_from r \<le> v \<and> v < mr_to r"

lemma overlaps_sym: "overlaps a u b w = overlaps b w a u"
  by (auto simp: overlaps_def)

lemma ranges_overlap_sym: "ranges_overlap a b c d = ranges_overlap c d a b"
  by (auto simp: ranges_overlap_def)

lemma covers_both_overlap:
  "covers c on \<Longrightarrow> covers d on \<Longrightarrow> overlaps (rc_from c) (rc_until c) (rc_from d) (rc_until d)"
  by (auto simp: covers_def overlaps_def split: option.splits)

lemma contains_both_overlap:
  "band_contains r v \<Longrightarrow> band_contains s v \<Longrightarrow> ranges_overlap (mr_from r) (mr_to r) (mr_from s) (mr_to s)"
  by (auto simp: band_contains_def ranges_overlap_def)

section \<open>Integrity conditions\<close>

definition is_open :: "card_status \<Rightarrow> bool" where
  "is_open s \<longleftrightarrow> s = Draft \<or> s = UnderReview \<or> s = Approved"

definition expected_status :: "card_status \<Rightarrow> matrix_status" where
  "expected_status s = (case s of Published \<Rightarrow> MActive | Archived \<Rightarrow> MArchived | _ \<Rightarrow> MDraft)"

definition version_key :: "rate_card \<Rightarrow> uuid \<times> string \<times> nat" where
  "version_key c = (rc_tenant c, rc_code c, rc_version c)"

definition cards_ok :: "uuid \<Rightarrow> rate_card list \<Rightarrow> bool" where
  "cards_ok n cs \<longleftrightarrow>
     unique_keys rc_id cs \<and> unique_keys version_key cs \<and> (\<forall>c \<in> set cs. rc_id c < n)"

definition open_ok :: "rate_card list \<Rightarrow> bool" where
  "open_ok cs \<longleftrightarrow>
     (\<forall>c \<in> set cs. \<forall>d \<in> set cs. rc_tenant c = rc_tenant d \<longrightarrow> rc_code c = rc_code d
        \<longrightarrow> is_open (rc_status c) \<longrightarrow> is_open (rc_status d) \<longrightarrow> rc_id c = rc_id d)"

definition ca_key :: "center_assignment \<Rightarrow> uuid \<times> uuid" where
  "ca_key a = (ca_card a, ca_center a)"

definition pa_key :: "product_assignment \<Rightarrow> uuid \<times> string" where
  "pa_key a = (pa_card a, pa_product a)"

definition centers_ok :: "uuid \<Rightarrow> center_assignment list \<Rightarrow> bool" where
  "centers_ok n as \<longleftrightarrow> unique_keys ca_id as \<and> unique_keys ca_key as
     \<and> (\<forall>a \<in> set as. ca_id a < n \<and> ca_card a < n)"

definition products_ok :: "uuid \<Rightarrow> product_assignment list \<Rightarrow> bool" where
  "products_ok n ps \<longleftrightarrow> unique_keys pa_id ps \<and> unique_keys pa_key ps
     \<and> (\<forall>p \<in> set ps. pa_id p < n \<and> pa_card p < n)"

definition center_of :: "center_assignment list \<Rightarrow> uuid \<Rightarrow> uuid \<Rightarrow> bool" where
  "center_of as c center \<longleftrightarrow> (\<exists>a \<in> set as. ca_card a = c \<and> ca_center a = center)"

definition product_of :: "product_assignment list \<Rightarrow> uuid \<Rightarrow> string \<Rightarrow> bool" where
  "product_of ps c product \<longleftrightarrow> (\<exists>p \<in> set ps. pa_card p = c \<and> pa_product p = product)"

text \<open>BR-0002: two published cards of a tenant that share a centre and a product have disjoint
  windows.\<close>

definition windows_ok ::
  "rate_card list \<Rightarrow> center_assignment list \<Rightarrow> product_assignment list \<Rightarrow> bool" where
  "windows_ok cs as ps \<longleftrightarrow>
     (\<forall>c \<in> set cs. \<forall>d \<in> set cs. \<forall>center product.
        rc_status c = Published \<longrightarrow> rc_status d = Published \<longrightarrow> rc_id c \<noteq> rc_id d
        \<longrightarrow> rc_tenant c = rc_tenant d \<longrightarrow> center_of as (rc_id c) center \<longrightarrow> center_of as (rc_id d) center
        \<longrightarrow> product_of ps (rc_id c) product \<longrightarrow> product_of ps (rc_id d) product
        \<longrightarrow> \<not> overlaps (rc_from c) (rc_until c) (rc_from d) (rc_until d))"

definition dimensions_ok :: "quality_dimension list \<Rightarrow> bool" where
  "dimensions_ok ds \<longleftrightarrow>
     unique_keys (\<lambda>d. (qd_tenant d, qd_code d)) ds \<and> (\<forall>d \<in> set ds. length (qd_unit d) \<le> 20)"

definition pm_key :: "pricing_matrix \<Rightarrow> uuid \<times> string \<times> string" where
  "pm_key m = (pm_card m, pm_product m, pm_dimension m)"

definition follows :: "rate_card \<Rightarrow> pricing_matrix \<Rightarrow> bool" where
  "follows c m \<longleftrightarrow> pm_card m = rc_id c \<and> pm_tenant m = rc_tenant c \<and> pm_version m = rc_version c
     \<and> pm_status m = expected_status (rc_status c)"

definition matrices_ok :: "uuid \<Rightarrow> rate_card list \<Rightarrow> pricing_matrix list \<Rightarrow> bool" where
  "matrices_ok n cs ms \<longleftrightarrow>
     unique_keys pm_id ms \<and> unique_keys pm_key ms
     \<and> (\<forall>m \<in> set ms. pm_id m < n \<and> (\<exists>c \<in> set cs. follows c m))"

definition bands_disjoint :: "matrix_row list \<Rightarrow> bool" where
  "bands_disjoint rs \<longleftrightarrow>
     (\<forall>r \<in> set rs. \<forall>s \<in> set rs. mr_matrix r = mr_matrix s \<longrightarrow> mr_active r \<longrightarrow> mr_active s
        \<longrightarrow> mr_id r \<noteq> mr_id s \<longrightarrow> \<not> ranges_overlap (mr_from r) (mr_to r) (mr_from s) (mr_to s))"

definition row_ok :: "uuid \<Rightarrow> pricing_matrix list \<Rightarrow> matrix_row \<Rightarrow> bool" where
  "row_ok n ms r \<longleftrightarrow>
     mr_id r < n \<and> mr_from r < mr_to r \<and> 0 < mr_price r \<and> at_scale 4 (mr_price r)
     \<and> mr_price r < 10 ^ 8
     \<and> (\<exists>m \<in> set ms. pm_id m = mr_matrix r \<and> pm_tenant m = mr_tenant r)"

definition rows_ok :: "uuid \<Rightarrow> pricing_matrix list \<Rightarrow> matrix_row list \<Rightarrow> bool" where
  "rows_ok n ms rs \<longleftrightarrow> unique_keys mr_id rs \<and> bands_disjoint rs \<and> (\<forall>r \<in> set rs. row_ok n ms r)"

definition currencies_ok :: "rate_card list \<Rightarrow> bool" where
  "currencies_ok cs \<longleftrightarrow>
     (\<forall>c \<in> set cs. length (rc_currency c) = 3 \<and> str_isalpha (rc_currency c)
        \<and> str_upper (rc_currency c) = rc_currency c)"

definition pricing_inv :: "'a pricing_db_scheme \<Rightarrow> bool" where
  "pricing_inv db \<longleftrightarrow>
     cards_ok (next_id db) (rate_cards db) \<and> open_ok (rate_cards db) \<and> currencies_ok (rate_cards db)
     \<and> centers_ok (next_id db) (center_assignments db)
     \<and> products_ok (next_id db) (product_assignments db)
     \<and> windows_ok (rate_cards db) (center_assignments db) (product_assignments db)
     \<and> dimensions_ok (dimensions db)
     \<and> matrices_ok (next_id db) (rate_cards db) (matrices db)
     \<and> rows_ok (next_id db) (matrices db) (matrix_rows db)"


section \<open>Frames\<close>

text \<open>Events and audit records leave the pricing tables alone and only consume identifiers.\<close>

lemma publish_pricing [simp]:
  "rate_cards (publish e n d a t i db) = rate_cards db"
  "center_assignments (publish e n d a t i db) = center_assignments db"
  "product_assignments (publish e n d a t i db) = product_assignments db"
  "dimensions (publish e n d a t i db) = dimensions db"
  "matrices (publish e n d a t i db) = matrices db"
  "matrix_rows (publish e n d a t i db) = matrix_rows db"
  by (simp_all add: publish_def new_id_def)

lemma audit_pricing [simp]:
  "rate_cards (audit e n t i a d db) = rate_cards db"
  "center_assignments (audit e n t i a d db) = center_assignments db"
  "product_assignments (audit e n t i a d db) = product_assignments db"
  "dimensions (audit e n t i a d db) = dimensions db"
  "matrices (audit e n t i a d db) = matrices db"
  "matrix_rows (audit e n t i a d db) = matrix_rows db"
  by (simp_all add: audit_def audit_of_def)

section \<open>How the conditions move with the tables\<close>

text \<open>Identifiers only grow.\<close>

lemma cards_ok_mono: "cards_ok n cs \<Longrightarrow> n \<le> k \<Longrightarrow> cards_ok k cs"
  by (auto simp: cards_ok_def)

lemma centers_ok_mono: "centers_ok n xs \<Longrightarrow> n \<le> k \<Longrightarrow> centers_ok k xs"
  by (auto simp: centers_ok_def)

lemma products_ok_mono: "products_ok n xs \<Longrightarrow> n \<le> k \<Longrightarrow> products_ok k xs"
  by (auto simp: products_ok_def)

lemma matrices_ok_mono: "matrices_ok n cs ms \<Longrightarrow> n \<le> k \<Longrightarrow> matrices_ok k cs ms"
  by (auto simp: matrices_ok_def)

lemma rows_ok_mono: "rows_ok n ms rs \<Longrightarrow> n \<le> k \<Longrightarrow> rows_ok k ms rs"
  by (auto simp: rows_ok_def row_ok_def)

lemmas conditions_mono = cards_ok_mono centers_ok_mono products_ok_mono matrices_ok_mono rows_ok_mono

lemma pricing_inv_frame:
  assumes "pricing_inv db" and "next_id db \<le> next_id db'"
    and "rate_cards db' = rate_cards db" "center_assignments db' = center_assignments db"
    and "product_assignments db' = product_assignments db" "dimensions db' = dimensions db"
    and "matrices db' = matrices db" "matrix_rows db' = matrix_rows db"
  shows "pricing_inv db'"
  using assms by (auto simp: pricing_inv_def intro: conditions_mono)

lemma pricing_inv_at:
  assumes "pricing_inv db" and "next_id db \<le> k"
  shows "cards_ok k (rate_cards db)" "centers_ok k (center_assignments db)"
    "products_ok k (product_assignments db)" "matrices_ok k (rate_cards db) (matrices db)"
    "rows_ok k (matrices db) (matrix_rows db)"
  using assms by (auto simp: pricing_inv_def intro: conditions_mono)

text \<open>A new card.\<close>

lemma cards_ok_append:
  assumes "cards_ok n cs" and "rc_id c = n" and "version_key c \<notin> version_key ` set cs"
  shows "cards_ok (Suc n) (cs @ [c])"
  using assms by (auto simp: cards_ok_def intro!: unique_keys_append_fresh)

lemma open_okD:
  "open_ok cs \<Longrightarrow> a \<in> set cs \<Longrightarrow> b \<in> set cs \<Longrightarrow> rc_tenant a = rc_tenant b \<Longrightarrow> rc_code a = rc_code b
    \<Longrightarrow> is_open (rc_status a) \<Longrightarrow> is_open (rc_status b) \<Longrightarrow> rc_id a = rc_id b"
  unfolding open_ok_def by blast

lemma open_ok_append:
  assumes "open_ok cs"
    and "\<And>d. d \<in> set cs \<Longrightarrow> rc_tenant d = rc_tenant c \<Longrightarrow> rc_code d = rc_code c
           \<Longrightarrow> \<not> is_open (rc_status d)"
  shows "open_ok (cs @ [c])"
  unfolding open_ok_def
proof (intro ballI impI)
  fix a b
  assume ab: "a \<in> set (cs @ [c])" "b \<in> set (cs @ [c])"
    and h: "rc_tenant a = rc_tenant b" "rc_code a = rc_code b" "is_open (rc_status a)" "is_open (rc_status b)"
  have "a = c \<or> a \<in> set cs" "b = c \<or> b \<in> set cs" using ab by auto
  then show "rc_id a = rc_id b"
    using h assms(2) open_okD [OF assms(1)] by metis
qed

lemma windows_ok_append:
  "windows_ok cs xs ps \<Longrightarrow> rc_status c \<noteq> Published \<Longrightarrow> windows_ok (cs @ [c]) xs ps"
  by (simp add: windows_ok_def)

lemma matrices_ok_append_card: "matrices_ok n cs ms \<Longrightarrow> matrices_ok n (cs @ [c]) ms"
  by (auto simp: matrices_ok_def)

text \<open>A card replaced by a card with the same identity.\<close>

lemma cards_ok_put:
  assumes "cards_ok n cs" and "c \<in> set cs" and "rc_id c' = rc_id c" and "version_key c' = version_key c"
  shows "cards_ok n (row_update rc_id (rc_id c) (\<lambda>_. c') cs)"
  using assms unique_keys_row_put [of rc_id cs c rc_id c'] unique_keys_row_put [of rc_id cs c version_key c']
  by (auto simp: cards_ok_def in_row_put)

lemma open_ok_put:
  assumes "open_ok cs" and "c \<in> set cs" and "rc_id c' = rc_id c" and "version_key c' = version_key c"
    and "is_open (rc_status c') \<Longrightarrow> is_open (rc_status c)"
  shows "open_ok (row_update rc_id (rc_id c) (\<lambda>_. c') cs)"
  unfolding open_ok_def in_row_put [OF assms(2)]
proof (intro ballI impI, unfold in_row_put [OF assms(2)])
  fix a b
  assume ab: "a = c' \<or> a \<in> set cs \<and> rc_id a \<noteq> rc_id c" "b = c' \<or> b \<in> set cs \<and> rc_id b \<noteq> rc_id c"
    and h: "rc_tenant a = rc_tenant b" "rc_code a = rc_code b" "is_open (rc_status a)" "is_open (rc_status b)"
  have "rc_tenant c' = rc_tenant c" "rc_code c' = rc_code c"
    using assms(4) by (simp_all add: version_key_def)
  then show "rc_id a = rc_id b"
    using ab h assms(2,3,5) open_okD [OF assms(1)] by metis
qed

lemma windows_okD:
  "windows_ok cs xs ps \<Longrightarrow> c \<in> set cs \<Longrightarrow> d \<in> set cs \<Longrightarrow> rc_status c = Published \<Longrightarrow> rc_status d = Published
    \<Longrightarrow> rc_tenant c = rc_tenant d \<Longrightarrow> center_of xs (rc_id c) k \<Longrightarrow> center_of xs (rc_id d) k
    \<Longrightarrow> product_of ps (rc_id c) p \<Longrightarrow> product_of ps (rc_id d) p
    \<Longrightarrow> overlaps (rc_from c) (rc_until c) (rc_from d) (rc_until d) \<Longrightarrow> rc_id c = rc_id d"
  unfolding windows_ok_def by blast

lemma windows_ok_put:
  assumes "windows_ok cs xs ps" and "c \<in> set cs" and "rc_id c' = rc_id c"
    and "\<And>d center product. rc_status c' = Published \<Longrightarrow> d \<in> set cs \<Longrightarrow> rc_status d = Published
           \<Longrightarrow> rc_id d \<noteq> rc_id c \<Longrightarrow> rc_tenant d = rc_tenant c'
           \<Longrightarrow> center_of xs (rc_id c) center \<Longrightarrow> center_of xs (rc_id d) center
           \<Longrightarrow> product_of ps (rc_id c) product \<Longrightarrow> product_of ps (rc_id d) product
           \<Longrightarrow> \<not> overlaps (rc_from c') (rc_until c') (rc_from d) (rc_until d)"
  shows "windows_ok (row_update rc_id (rc_id c) (\<lambda>_. c') cs) xs ps"
  unfolding windows_ok_def in_row_put [OF assms(2)]
proof (intro ballI allI impI, unfold in_row_put [OF assms(2)])
  fix a b center product
  assume ab: "a = c' \<or> a \<in> set cs \<and> rc_id a \<noteq> rc_id c" "b = c' \<or> b \<in> set cs \<and> rc_id b \<noteq> rc_id c"
    and h: "rc_status a = Published" "rc_status b = Published" "rc_id a \<noteq> rc_id b"
      "rc_tenant a = rc_tenant b" "center_of xs (rc_id a) center" "center_of xs (rc_id b) center"
      "product_of ps (rc_id a) product" "product_of ps (rc_id b) product"
  consider "a = c'" "b \<in> set cs" "rc_id b \<noteq> rc_id c" | "b = c'" "a \<in> set cs" "rc_id a \<noteq> rc_id c"
    | "a \<in> set cs" "b \<in> set cs" using ab h(3) by auto
  then show "\<not> overlaps (rc_from a) (rc_until a) (rc_from b) (rc_until b)"
  proof cases
    case 1
    then show ?thesis using h assms(3) assms(4) [of b center product] by simp
  next
    case 2
    then show ?thesis
      using h assms(3) assms(4) [of a center product]
      by (simp add: overlaps_sym [of "rc_from a"])
  next
    case 3
    then show ?thesis using assms(1) h unfolding windows_ok_def by blast
  qed
qed

lemma currencies_ok_put:
  assumes "currencies_ok cs" and "c \<in> set cs"
    and "length (rc_currency c') = 3" "str_isalpha (rc_currency c')"
    and "str_upper (rc_currency c') = rc_currency c'"
  shows "currencies_ok (row_update rc_id (rc_id c) (\<lambda>_. c') cs)"
  using assms by (auto simp: currencies_ok_def in_row_put)

definition retarget :: "uuid \<Rightarrow> matrix_status \<Rightarrow> pricing_matrix \<Rightarrow> pricing_matrix" where
  "retarget i to m = (if pm_card m = i then m\<lparr>pm_status := to\<rparr> else m)"

lemma retarget_simps [simp]:
  "pm_id (retarget i to m) = pm_id m" "pm_key (retarget i to m) = pm_key m"
  "pm_tenant (retarget i to m) = pm_tenant m" "pm_card (retarget i to m) = pm_card m"
  by (simp_all add: retarget_def pm_key_def)

lemma matrices_ok_put:
  assumes ok: "matrices_ok n cs ms" and ids: "unique_keys rc_id cs" and c: "c \<in> set cs"
    and same: "rc_id c' = rc_id c" "rc_tenant c' = rc_tenant c" "rc_version c' = rc_version c"
  shows "matrices_ok n (row_update rc_id (rc_id c) (\<lambda>_. c') cs)
           (map (retarget (rc_id c) (expected_status (rc_status c'))) ms)"
proof -
  have "\<exists>d \<in> set (row_update rc_id (rc_id c) (\<lambda>_. c') cs).
          follows d (retarget (rc_id c) (expected_status (rc_status c')) m)"
    if m: "m \<in> set ms" for m
  proof -
    obtain d where d: "d \<in> set cs" "follows d m" using ok m by (auto simp: matrices_ok_def)
    show ?thesis
    proof (cases "pm_card m = rc_id c")
      case True
      then have "d = c" using d ids c by (auto simp: follows_def dest: unique_keysD)
      then have "follows c' (retarget (rc_id c) (expected_status (rc_status c')) m)"
        using d same True by (simp add: follows_def retarget_def)
      then show ?thesis by (auto simp: in_row_put [OF c])
    next
      case False
      then show ?thesis using d by (auto simp: in_row_put [OF c] follows_def retarget_def)
    qed
  qed
  moreover have "unique_keys pm_id (map (retarget i to) ms) = unique_keys pm_id ms"
    and "unique_keys pm_key (map (retarget i to) ms) = unique_keys pm_key ms" for i to
    by (simp_all add: unique_keys_def comp_def)
  ultimately show ?thesis using ok by (auto simp: matrices_ok_def)
qed

lemma matrices_status:
  assumes "matrices_ok n cs ms" and "unique_keys rc_id cs" and "c \<in> set cs"
    and "m \<in> set ms" and "pm_card m = rc_id c"
  shows "follows c m"
proof -
  obtain d where "d \<in> set cs" "follows d m" using assms(1,4) by (auto simp: matrices_ok_def)
  moreover from this have "d = c"
    using assms(2,3,5) by (auto simp: follows_def dest: unique_keysD)
  ultimately show ?thesis by simp
qed

lemma retarget_same:
  assumes "matrices_ok n cs ms" and "unique_keys rc_id cs" and "c \<in> set cs"
  shows "map (retarget (rc_id c) (expected_status (rc_status c))) ms = ms"
proof (rule map_idI)
  fix m assume "m \<in> set ms"
  then show "retarget (rc_id c) (expected_status (rc_status c)) m = m"
    using matrices_status [OF assms, of m] by (simp add: retarget_def follows_def)
qed

lemma rows_ok_cong:
  assumes "map (\<lambda>m. (pm_id m, pm_tenant m)) ms = map (\<lambda>m. (pm_id m, pm_tenant m)) ms'"
  shows "rows_ok n ms rs = rows_ok n ms' rs"
proof -
  have home: "(\<exists>m \<in> set ms. pm_id m = i \<and> pm_tenant m = t) =
                ((i, t) \<in> set (map (\<lambda>m. (pm_id m, pm_tenant m)) ms))"
    for i t and ms :: "pricing_matrix list" by auto
  show ?thesis unfolding rows_ok_def row_ok_def home assms ..
qed


text \<open>Scope rows of cards that are not published do not matter to BR-0002.\<close>

lemma windows_ok_scope:
  assumes "windows_ok cs xs ps"
    and "\<And>c k. c \<in> set cs \<Longrightarrow> rc_status c = Published \<Longrightarrow> center_of xs' (rc_id c) k \<Longrightarrow> center_of xs (rc_id c) k"
    and "\<And>c k. c \<in> set cs \<Longrightarrow> rc_status c = Published \<Longrightarrow> product_of ps' (rc_id c) k \<Longrightarrow> product_of ps (rc_id c) k"
  shows "windows_ok cs xs' ps'"
  using assms unfolding windows_ok_def by metis

lemma center_of_append [simp]:
  "center_of (xs @ ys) c k \<longleftrightarrow> center_of xs c k \<or> center_of ys c k"
  by (auto simp: center_of_def)

lemma product_of_append [simp]:
  "product_of (xs @ ys) c k \<longleftrightarrow> product_of xs c k \<or> product_of ys c k"
  by (auto simp: product_of_def)

lemma center_of_delete: "center_of (row_delete ca_id i xs) c k \<Longrightarrow> center_of xs c k"
  by (auto simp: center_of_def in_row_delete)

lemma product_of_delete: "product_of (row_delete pa_id i xs) c k \<Longrightarrow> product_of xs c k"
  by (auto simp: product_of_def in_row_delete)

lemma centers_ok_delete: "centers_ok n xs \<Longrightarrow> centers_ok n (row_delete ca_id i xs)"
  by (auto simp: centers_ok_def in_row_delete intro: unique_keys_row_delete)

lemma products_ok_delete: "products_ok n xs \<Longrightarrow> products_ok n (row_delete pa_id i xs)"
  by (auto simp: products_ok_def in_row_delete intro: unique_keys_row_delete)

text \<open>Assignments of one card appended together: distinct centres not yet assigned to it.\<close>

lemma centers_ok_append:
  assumes "centers_ok n xs" and "n \<le> k" and "distinct (map ca_center ys)"
    and "\<And>y. y \<in> set ys \<Longrightarrow> ca_card y = c \<and> n \<le> ca_id y \<and> ca_id y < k" and "c < k"
    and "\<And>y. y \<in> set ys \<Longrightarrow> \<not> center_of xs c (ca_center y)"
    and "distinct (map ca_id ys)"
  shows "centers_ok k (xs @ ys)"
proof -
  have "distinct (map ca_key ys)"
    using assms(3) by (auto simp: distinct_map inj_on_def ca_key_def)
  moreover have "ca_key ` set xs \<inter> ca_key ` set ys = {}"
    using assms(4,6) by (fastforce simp: ca_key_def center_of_def)
  moreover have "ca_id ` set xs \<inter> ca_id ` set ys = {}"
    using assms(1,4) by (fastforce simp: centers_ok_def)
  then have ids: "unique_keys ca_id (xs @ ys)"
    using assms(1,7) by (simp add: centers_ok_def unique_keys_def)
  ultimately have "unique_keys ca_key (xs @ ys)"
    using assms(1) by (simp add: centers_ok_def unique_keys_def)
  then show ?thesis
    using assms(1,2,4,5) ids by (auto simp: centers_ok_def)
qed

lemma products_ok_append:
  assumes "products_ok n xs" and "n \<le> k" and "distinct (map pa_product ys)"
    and "\<And>y. y \<in> set ys \<Longrightarrow> pa_card y = c \<and> n \<le> pa_id y \<and> pa_id y < k" and "c < k"
    and "\<And>y. y \<in> set ys \<Longrightarrow> \<not> product_of xs c (pa_product y)"
    and "distinct (map pa_id ys)"
  shows "products_ok k (xs @ ys)"
proof -
  have "distinct (map pa_key ys)"
    using assms(3) by (auto simp: distinct_map inj_on_def pa_key_def)
  moreover have "pa_key ` set xs \<inter> pa_key ` set ys = {}"
    using assms(4,6) by (fastforce simp: pa_key_def product_of_def)
  moreover have "pa_id ` set xs \<inter> pa_id ` set ys = {}"
    using assms(1,4) by (fastforce simp: products_ok_def)
  then have ids: "unique_keys pa_id (xs @ ys)"
    using assms(1,7) by (simp add: products_ok_def unique_keys_def)
  ultimately have "unique_keys pa_key (xs @ ys)"
    using assms(1) by (simp add: products_ok_def unique_keys_def)
  then show ?thesis
    using assms(1,2,4,5) ids by (auto simp: products_ok_def)
qed

text \<open>A new draft matrix, and rows appended to a matrix that has none.\<close>

lemma matrices_ok_append:
  assumes "matrices_ok n cs ms" and "pm_id m = n" and "n < k" and "pm_key m \<notin> pm_key ` set ms"
    and "c \<in> set cs" "follows c m"
  shows "matrices_ok k cs (ms @ [m])"
  using assms by (fastforce simp: matrices_ok_def intro!: unique_keys_append_fresh)

lemma bands_disjointD:
  "bands_disjoint rs \<Longrightarrow> r \<in> set rs \<Longrightarrow> s \<in> set rs \<Longrightarrow> mr_matrix r = mr_matrix s \<Longrightarrow> mr_active r
    \<Longrightarrow> mr_active s \<Longrightarrow> mr_id r \<noteq> mr_id s \<Longrightarrow> \<not> ranges_overlap (mr_from r) (mr_to r) (mr_from s) (mr_to s)"
  unfolding bands_disjoint_def by blast

lemma rows_ok_append:
  assumes ok: "rows_ok n ms rs" and "n \<le> k" and "distinct (map mr_id xs)"
    and new: "\<And>x. x \<in> set xs \<Longrightarrow> n \<le> mr_id x \<and> row_ok k ms x"
    and inner: "\<And>x y. x \<in> set xs \<Longrightarrow> y \<in> set xs \<Longrightarrow> mr_matrix x = mr_matrix y \<Longrightarrow> mr_active x \<Longrightarrow> mr_active y
           \<Longrightarrow> mr_id x \<noteq> mr_id y \<Longrightarrow> \<not> ranges_overlap (mr_from x) (mr_to x) (mr_from y) (mr_to y)"
    and outer: "\<And>x r. x \<in> set xs \<Longrightarrow> r \<in> set rs \<Longrightarrow> mr_matrix x = mr_matrix r \<Longrightarrow> mr_active x \<Longrightarrow> mr_active r
           \<Longrightarrow> \<not> ranges_overlap (mr_from x) (mr_to x) (mr_from r) (mr_to r)"
  shows "rows_ok k ms (rs @ xs)"
proof -
  have old: "row_ok k ms r" "mr_id r < n" if "r \<in> set rs" for r
    using ok that \<open>n \<le> k\<close> by (auto simp: rows_ok_def row_ok_def)
  have "mr_id ` set rs \<inter> mr_id ` set xs = {}"
    using old new by fastforce
  then have "unique_keys mr_id (rs @ xs)"
    using ok assms(3) by (simp add: rows_ok_def unique_keys_def)
  moreover have "bands_disjoint (rs @ xs)"
    unfolding bands_disjoint_def
  proof (intro ballI impI)
    fix r s
    assume rs: "r \<in> set (rs @ xs)" "s \<in> set (rs @ xs)" and h: "mr_matrix r = mr_matrix s" "mr_active r"
      "mr_active s" "mr_id r \<noteq> mr_id s"
    consider "r \<in> set rs" "s \<in> set rs" | "r \<in> set rs" "s \<in> set xs" | "r \<in> set xs" "s \<in> set rs"
      | "r \<in> set xs" "s \<in> set xs" using rs by auto
    then show "\<not> ranges_overlap (mr_from r) (mr_to r) (mr_from s) (mr_to s)"
    proof cases
      case 1 then show ?thesis using ok h by (intro bands_disjointD) (auto simp: rows_ok_def)
    next
      case 2 then show ?thesis using outer [of s r] h by (simp add: ranges_overlap_sym [of "mr_from r"])
    next
      case 3 then show ?thesis using outer [of r s] h by simp
    next
      case 4 then show ?thesis using inner [of r s] h by simp
    qed
  qed
  ultimately show ?thesis using old new by (auto simp: rows_ok_def)
qed

lemma rows_ok_more_matrices: "rows_ok n ms rs \<Longrightarrow> rows_ok n (ms @ [m]) rs"
  by (auto simp: rows_ok_def row_ok_def)


section \<open>A small price list\<close>

text \<open>One published card of organisation 7, in force at centre 50 from 1 January 2024 on, with one fat
  matrix of two bands.\<close>

definition sample_card :: rate_card where
  "sample_card = \<lparr>rc_id = 1, rc_tenant = 7, rc_branch = None, rc_code = ''RC-BASE'', rc_name = ''Base'',
     rc_description = [], rc_currency = ''KES'', rc_from = 738886, rc_until = None,
     rc_status = Published, rc_version = 1, rc_published_at = Some 0, rc_archived_at = None\<rparr>"

definition sample_matrix :: pricing_matrix where
  "sample_matrix = \<lparr>pm_id = 5, pm_tenant = 7, pm_card = 1, pm_name = ''Fat'', pm_product = ''RAW-COW-MILK'',
     pm_product_name = [], pm_dimension = ''FAT'', pm_status = MActive, pm_version = 1\<rparr>"

definition sample_row :: matrix_row where
  "sample_row = \<lparr>mr_id = 6, mr_tenant = 7, mr_matrix = 5, mr_sequence = 1, mr_from = 3, mr_to = 4,
     mr_price = 81/2, mr_active = True\<rparr>"

definition sample_row2 :: matrix_row where
  "sample_row2 = \<lparr>mr_id = 7, mr_tenant = 7, mr_matrix = 5, mr_sequence = 2, mr_from = 9/2, mr_to = 6,
     mr_price = 45, mr_active = True\<rparr>"

definition sample_dimension :: quality_dimension where
  "sample_dimension = \<lparr>qd_id = 4, qd_tenant = 7, qd_code = ''FAT'', qd_name = ''Fat'', qd_unit = ''%'',
     qd_min = Some 0, qd_max = Some 15, qd_active = True\<rparr>"

definition sample_org :: organization where
  "sample_org = \<lparr>org_id = 7, org_name = ''Dairy'', org_currency = ''KES'', org_timezone = ''UTC'',
     org_quantity_unit = ''kg'', org_trade_unit = None, org_factor = None, org_factor_from = None\<rparr>"

definition sample_pricing :: pricing_db where
  "sample_pricing =
     \<lparr>next_id = 8, organizations = [sample_org],
      centers = [\<lparr>cc_id = 50, cc_tenant = 7, cc_name = ''North'', cc_status = ''active''\<rparr>],
      suppliers = [], supplier_profiles = [], supplier_centers = [], devices = [], branches = [],
      periods = [], sequences = [], outbox = [], audit_log = [], config_entries = [],
      rate_cards = [sample_card],
      center_assignments = [\<lparr>ca_id = 2, ca_tenant = 7, ca_card = 1, ca_center = 50\<rparr>],
      product_assignments = [\<lparr>pa_id = 3, pa_tenant = 7, pa_card = 1, pa_product = ''RAW-COW-MILK'', pa_name = []\<rparr>],
      dimensions = [sample_dimension], matrices = [sample_matrix],
      matrix_rows = [sample_row, sample_row2]\<rparr>"

lemmas sample_defs =
  sample_card_def sample_matrix_def sample_row_def sample_row2_def sample_dimension_def sample_org_def
  sample_pricing_def

lemma at_scale_4_samples: "at_scale 4 (81/2)" "at_scale 4 45"
  by (rule at_scaleI [of _ _ 405000], simp) (rule at_scaleI [of _ _ 450000], simp)

lemma sample_pricing_inv: "pricing_inv sample_pricing"
proof -
  have "windows_ok [sample_card] xs ps" for xs ps by (simp add: windows_ok_def)
  moreover have "str_isalpha ''KES'' \<and> str_upper ''KES'' = ''KES''" by code_simp
  ultimately show ?thesis
    by (simp add: pricing_inv_def sample_defs cards_ok_def open_ok_def currencies_ok_def centers_ok_def
        products_ok_def dimensions_ok_def matrices_ok_def rows_ok_def row_ok_def bands_disjoint_def
        unique_keys_def follows_def expected_status_def ranges_overlap_def at_scale_4_samples)
qed

end
