(* ===== verification/RateCards.thy ===== *)
theory RateCards
  imports PricingTables
begin

text \<open>
  The rate card service (\<open>modules/pricing/service.py\<close>): the life cycle draft, under review,
  approved, published, archived; new versions, which copy the scope and the matrices of their
  source; the scope assignments, which only a draft may change; and the publish-time overlap
  check. Every operation is the whole handler, its audit record and its outbox events included.
\<close>

section \<open>Commands\<close>

record rate_card_input =
  ri_name :: string
  ri_description :: string
  ri_currency :: "string option"
  ri_from :: date
  ri_until :: "date option"
  ri_branch :: "uuid option"

definition RateCardInput ::
  "string \<Rightarrow> string \<Rightarrow> string option \<Rightarrow> date \<Rightarrow> date option \<Rightarrow> uuid option \<Rightarrow> rate_card_input result" where
  "RateCardInput name desc cur from until branch =
     (if length name < 2 \<or> 200 < length name then Inl (ValueError ''name length'')
      else if 500 < length desc then Inl (ValueError ''description length'')
      else andthen
        (case cur of
           None \<Rightarrow> Inr None
         | Some c \<Rightarrow> if length c \<noteq> 3 then Inl (ValueError ''currency length'')
                     else if \<not> str_isalpha c
                       then Inl (ValueError ''currency must be a 3-letter ISO 4217 code'')
                     else Inr (Some (str_upper c)))
        (\<lambda>cur'.
          if (case until of None \<Rightarrow> False | Some u \<Rightarrow> u \<le> from)
            then Inl (ValueError ''effective_until must be after effective_from'')
          else Inr \<lparr>ri_name = name, ri_description = desc, ri_currency = cur', ri_from = from,
                    ri_until = until, ri_branch = branch\<rparr>))"

definition AssignProductCommand :: "string \<Rightarrow> string \<Rightarrow> (string \<times> string) result" where
  "AssignProductCommand code name =
     (if \<not> code_pattern 38 code then Inl (ValueError ''product_code'')
      else if 120 < length name then Inl (ValueError ''product_name'')
      else Inr (str_upper code, name))"

section \<open>Helpers of the service\<close>

definition BUS_EVENTS :: "(string \<times> string) list" where
  "BUS_EVENTS =
     [(''RateCardCreated'', ''pricing.rate-card-created.v1''),
      (''RateCardUpdated'', ''pricing.rate-card-updated.v1''),
      (''RateCardSubmitted'', ''pricing.rate-card-submitted.v1''),
      (''RateCardApproved'', ''pricing.rate-card-approved.v1''),
      (''RateCardPublished'', ''pricing.rate-card-published.v1''),
      (''RateCardArchived'', ''pricing.rate-card-archived.v1'')]"

definition MATRIX_BUS_EVENTS :: "(string \<times> string) list" where
  "MATRIX_BUS_EVENTS =
     [(''PricingMatrixCreated'', ''pricing.pricing-matrix-created.v1''),
      (''PricingMatrixUpdated'', ''pricing.pricing-matrix-updated.v1''),
      (''PricingMatrixArchived'', ''pricing.pricing-matrix-archived.v1''),
      (''PricingMatrixRowCreated'', ''pricing.pricing-matrix-row-created.v1''),
      (''PricingMatrixRowUpdated'', ''pricing.pricing-matrix-row-updated.v1''),
      (''PricingMatrixRowDeleted'', ''pricing.pricing-matrix-row-deleted.v1'')]"

definition bus_name :: "(string \<times> string) list \<Rightarrow> string \<Rightarrow> string" where
  "bus_name table event = (case map_of table event of None \<Rightarrow> [] | Some n \<Rightarrow> n)"

definition get_card :: "env \<Rightarrow> 'a pricing_db_scheme \<Rightarrow> uuid \<Rightarrow> rate_card result" where
  "get_card e db i =
     andthen (require_current_tenant e) (\<lambda>tenant.
       case row_get rc_id i (rate_cards db) of
         None \<Rightarrow> Inl (NotFoundError ''rate card not found'')
       | Some c \<Rightarrow> if rc_tenant c \<noteq> tenant then Inl (NotFoundError ''rate card not found'') else Inr c)"

definition require_draft :: "rate_card \<Rightarrow> unit result" where
  "require_draft c =
     (if rc_status c = Published then Inl (ConflictError ''published rate cards are immutable'')
      else if rc_status c \<noteq> Draft then Inl (ConflictError ''only draft rate cards can be edited'')
      else Inr ())"

definition check_branch :: "uuid option \<Rightarrow> uuid \<Rightarrow> 'a pricing_db_scheme \<Rightarrow> unit result" where
  "check_branch b tenant db =
     (case b of
        None \<Rightarrow> Inr ()
      | Some i \<Rightarrow>
          (case row_get br_id i (branches db) of
             None \<Rightarrow> Inl (NotFoundError ''branch not found'')
           | Some br \<Rightarrow> if br_tenant br \<noteq> tenant then Inl (NotFoundError ''branch not found'')
                        else Inr ()))"

definition code_taken :: "'a pricing_db_scheme \<Rightarrow> uuid \<Rightarrow> string \<Rightarrow> bool" where
  "code_taken db tenant code \<longleftrightarrow>
     find (\<lambda>c. rc_tenant c = tenant \<and> rc_code c = code) (rate_cards db) \<noteq> None"

text \<open>\<open>tokens\<close> are the values \<open>secrets.token_hex(3)\<close> returns, at most five of which are tried.\<close>

definition generate_code :: "'a pricing_db_scheme \<Rightarrow> uuid \<Rightarrow> string list \<Rightarrow> string result" where
  "generate_code db tenant tokens =
     need (ConflictError ''could not generate a unique rate card code'')
       (find (\<lambda>code. \<not> code_taken db tenant code) (map (\<lambda>t. ''RC-'' @ str_upper t) (take 5 tokens)))"

definition record_card ::
  "env \<Rightarrow> rate_card \<Rightarrow> string \<Rightarrow> payload \<Rightarrow> uuid \<Rightarrow> 'a pricing_db_scheme \<Rightarrow> 'a pricing_db_scheme" where
  "record_card e c event data actor db =
     publish e (bus_name BUS_EVENTS event)
       ([(''rate_card_id'', JId (rc_id c)), (''code'', JStr (rc_code c)),
         (''status'', JStr (card_status_name (rc_status c)))] @ data)
       (Some actor) (Some ''rate_card'') (Some (rc_id c))
     (audit e (''pricing.rate_card_'' @ str_lower (removeprefix ''RateCard'' event)) ''rate_card'' (rc_id c)
       (Some actor) ([(''code'', JStr (rc_code c)), (''version'', JInt (int (rc_version c)))] @ data) db)"

definition center_ids :: "'a pricing_db_scheme \<Rightarrow> uuid \<Rightarrow> uuid list" where
  "center_ids db i = map ca_center (filter (\<lambda>a. ca_card a = i) (center_assignments db))"

definition card_products :: "'a pricing_db_scheme \<Rightarrow> uuid \<Rightarrow> product_assignment list" where
  "card_products db i = sort_key pa_product (filter (\<lambda>p. pa_card p = i) (product_assignments db))"

definition product_codes :: "'a pricing_db_scheme \<Rightarrow> uuid \<Rightarrow> string list" where
  "product_codes db i = map pa_product (card_products db i)"

definition put_card :: "rate_card \<Rightarrow> 'a pricing_db_scheme \<Rightarrow> 'a pricing_db_scheme" where
  "put_card c db = db\<lparr>rate_cards := row_update rc_id (rc_id c) (\<lambda>_. c) (rate_cards db)\<rparr>"

text \<open>BR-0002: the published cards of the tenant, joined with their assignments in the same centres
  and products, none of which may share a day with the card.\<close>

definition published_rivals ::
  "'a pricing_db_scheme \<Rightarrow> rate_card \<Rightarrow> uuid list \<Rightarrow> string list \<Rightarrow> rate_card list" where
  "published_rivals db c cids codes =
     filter (\<lambda>d. rc_tenant d = rc_tenant c \<and> rc_status d = Published \<and> rc_id d \<noteq> rc_id c
         \<and> list_ex (\<lambda>a. ca_card a = rc_id d \<and> ca_center a \<in> set cids) (center_assignments db)
         \<and> list_ex (\<lambda>p. pa_card p = rc_id d \<and> pa_product p \<in> set codes) (product_assignments db))
       (rate_cards db)"

definition assert_no_published_overlap ::
  "'a pricing_db_scheme \<Rightarrow> rate_card \<Rightarrow> uuid list \<Rightarrow> string list \<Rightarrow> unit result" where
  "assert_no_published_overlap db c cids codes =
     (if list_ex (\<lambda>d. overlaps (rc_from c) (rc_until c) (rc_from d) (rc_until d))
           (published_rivals db c cids codes)
        then Inl (ConflictError ''effective dates overlap a published rate card on a shared scope'')
      else Inr ())"

section \<open>Matrices follow their card\<close>

definition put_matrix :: "pricing_matrix \<Rightarrow> 'a pricing_db_scheme \<Rightarrow> 'a pricing_db_scheme" where
  "put_matrix m db = db\<lparr>matrices := row_update pm_id (pm_id m) (\<lambda>_. m) (matrices db)\<rparr>"

fun transition_each ::
  "env \<Rightarrow> rate_card \<Rightarrow> matrix_status \<Rightarrow> uuid \<Rightarrow> pricing_matrix list
     \<Rightarrow> 'a pricing_db_scheme \<Rightarrow> 'a pricing_db_scheme" where
  "transition_each e c to actor [] db = db"
| "transition_each e c to actor (m # ms) db =
     transition_each e c to actor ms
       (publish e
          (bus_name MATRIX_BUS_EVENTS
             (if to = MArchived then ''PricingMatrixArchived'' else ''PricingMatrixUpdated''))
          [(''matrix_id'', JId (pm_id m)), (''rate_card_id'', JId (rc_id c)),
           (''product_code'', JStr (pm_product m)), (''dimension_code'', JStr (pm_dimension m)),
           (''status'', JStr (matrix_status_name to))]
          (Some actor) (Some ''pricing_matrix'') (Some (pm_id m))
          (put_matrix (m\<lparr>pm_status := to\<rparr>) db))"

definition transition_matrices ::
  "env \<Rightarrow> rate_card \<Rightarrow> matrix_status \<Rightarrow> matrix_status \<Rightarrow> uuid
     \<Rightarrow> 'a pricing_db_scheme \<Rightarrow> 'a pricing_db_scheme" where
  "transition_matrices e c frm to actor db =
     transition_each e c to actor
       (filter (\<lambda>m. pm_card m = rc_id c \<and> pm_status m = frm) (matrices db)) db"

fun copy_rows ::
  "pricing_matrix \<Rightarrow> matrix_row list \<Rightarrow> 'a pricing_db_scheme \<Rightarrow> 'a pricing_db_scheme" where
  "copy_rows m [] db = db"
| "copy_rows m (r # rs) db =
     (let (i, db1) = new_id db in
      copy_rows m rs
        (db1\<lparr>matrix_rows := matrix_rows db1 @
           [\<lparr>mr_id = i, mr_tenant = pm_tenant m, mr_matrix = pm_id m, mr_sequence = mr_sequence r,
             mr_from = mr_from r, mr_to = mr_to r, mr_price = mr_price r, mr_active = mr_active r\<rparr>]\<rparr>))"

fun copy_each ::
  "env \<Rightarrow> rate_card \<Rightarrow> uuid \<Rightarrow> pricing_matrix list \<Rightarrow> 'a pricing_db_scheme \<Rightarrow> 'a pricing_db_scheme" where
  "copy_each e c actor [] db = db"
| "copy_each e c actor (old # ms) db =
     (let (i, db1) = new_id db;
          copy = \<lparr>pm_id = i, pm_tenant = rc_tenant c, pm_card = rc_id c, pm_name = pm_name old,
                  pm_product = pm_product old, pm_product_name = pm_product_name old,
                  pm_dimension = pm_dimension old, pm_status = MDraft, pm_version = rc_version c\<rparr>;
          db2 = db1\<lparr>matrices := matrices db1 @ [copy]\<rparr>;
          db3 = copy_rows copy (filter (\<lambda>r. mr_matrix r = pm_id old) (matrix_rows db2)) db2;
          db4 = publish e (bus_name MATRIX_BUS_EVENTS ''PricingMatrixCreated'')
                  [(''matrix_id'', JId i), (''rate_card_id'', JId (rc_id c)),
                   (''product_code'', JStr (pm_product copy)),
                   (''dimension_code'', JStr (pm_dimension copy)), (''copied_from'', JId (pm_id old))]
                  (Some actor) (Some ''pricing_matrix'') (Some i) db3
      in copy_each e c actor ms db4)"

definition copy_matrices ::
  "env \<Rightarrow> rate_card \<Rightarrow> rate_card \<Rightarrow> uuid \<Rightarrow> 'a pricing_db_scheme \<Rightarrow> 'a pricing_db_scheme" where
  "copy_matrices e source c actor db =
     copy_each e c actor (filter (\<lambda>m. pm_card m = rc_id source) (matrices db)) db"


section \<open>Life cycle\<close>

definition create_card ::
  "env \<Rightarrow> string list \<Rightarrow> string option \<Rightarrow> rate_card_input \<Rightarrow> uuid \<Rightarrow> 'a pricing_db_scheme
     \<Rightarrow> (rate_card \<times> 'a pricing_db_scheme) result" where
  "create_card e tokens code cmd actor db =
     andthen (require_current_tenant e) (\<lambda>tenant.
     andthen (check_branch (ri_branch cmd) tenant db) (\<lambda>_.
     andthen (if opt_str code \<noteq> [] then Inr (str_upper (opt_str code))
              else generate_code db tenant tokens) (\<lambda>code'.
     if code_taken db tenant code'
       then Inl (ConflictError ''rate card code already exists'')
     else
     andthen (if opt_str (ri_currency cmd) \<noteq> [] then Inr (opt_str (ri_currency cmd))
              else tenant_currency e db None) (\<lambda>cur.
       let (i, db1) = new_id db;
           c = \<lparr>rc_id = i, rc_tenant = tenant, rc_branch = ri_branch cmd, rc_code = code',
                rc_name = ri_name cmd, rc_description = ri_description cmd, rc_currency = cur,
                rc_from = ri_from cmd, rc_until = ri_until cmd, rc_status = Draft, rc_version = 1,
                rc_published_at = None, rc_archived_at = None\<rparr>;
           db2 = db1\<lparr>rate_cards := rate_cards db1 @ [c]\<rparr>
       in Inr (c, record_card e c ''RateCardCreated'' [(''version'', JInt 1)] actor db2)))))"

text \<open>A draft takes the command's currency as it is; the column is \<open>NOT NULL\<close>.\<close>

definition update_draft ::
  "env \<Rightarrow> uuid \<Rightarrow> rate_card_input \<Rightarrow> uuid \<Rightarrow> 'a pricing_db_scheme
     \<Rightarrow> (rate_card \<times> 'a pricing_db_scheme) result" where
  "update_draft e i cmd actor db =
     andthen (get_card e db i) (\<lambda>c.
     andthen (require_draft c) (\<lambda>_.
     andthen (check_branch (ri_branch cmd) (rc_tenant c) db) (\<lambda>_.
     andthen (need (IntegrityError ''rate_card.currency'') (ri_currency cmd)) (\<lambda>cur.
       let c' = c\<lparr>rc_name := ri_name cmd, rc_description := ri_description cmd, rc_currency := cur,
                  rc_from := ri_from cmd, rc_until := ri_until cmd, rc_branch := ri_branch cmd\<rparr>
       in Inr (c', record_card e c' ''RateCardUpdated'' [(''version'', JInt (int (rc_version c')))] actor
                     (put_card c' db))))))"

definition submit_for_review ::
  "env \<Rightarrow> uuid \<Rightarrow> uuid \<Rightarrow> 'a pricing_db_scheme \<Rightarrow> (rate_card \<times> 'a pricing_db_scheme) result" where
  "submit_for_review e i actor db =
     andthen (get_card e db i) (\<lambda>c.
     if rc_status c \<noteq> Draft
       then Inl (ConflictError ''only draft rate cards can be submitted for review'')
     else let c' = c\<lparr>rc_status := UnderReview\<rparr>
          in Inr (c', record_card e c' ''RateCardSubmitted'' [] actor (put_card c' db)))"

definition approve_card ::
  "env \<Rightarrow> uuid \<Rightarrow> uuid \<Rightarrow> 'a pricing_db_scheme \<Rightarrow> (rate_card \<times> 'a pricing_db_scheme) result" where
  "approve_card e i actor db =
     andthen (get_card e db i) (\<lambda>c.
     if rc_status c \<noteq> UnderReview
       then Inl (ConflictError ''only rate cards under review can be approved'')
     else let c' = c\<lparr>rc_status := Approved\<rparr>
          in Inr (c', record_card e c' ''RateCardApproved'' [] actor (put_card c' db)))"

definition publish_card ::
  "env \<Rightarrow> uuid \<Rightarrow> uuid \<Rightarrow> 'a pricing_db_scheme \<Rightarrow> (rate_card \<times> 'a pricing_db_scheme) result" where
  "publish_card e i actor db =
     andthen (get_card e db i) (\<lambda>c.
     if rc_status c \<noteq> Approved
       then Inl (ConflictError ''only approved rate cards can be published'')
     else if center_ids db (rc_id c) = []
       then Inl (ConflictError ''publishing requires at least one collection center assignment'')
     else if product_codes db (rc_id c) = []
       then Inl (ConflictError ''publishing requires at least one product assignment'')
     else
     andthen (assert_no_published_overlap db c (center_ids db (rc_id c)) (product_codes db (rc_id c)))
       (\<lambda>_.
     if length (filter (\<lambda>x. rc_id x = rc_id c \<and> rc_status x = Approved) (rate_cards db)) \<noteq> 1
       then Inl (ConflictError ''rate card is no longer approved'')
     else
       let c' = c\<lparr>rc_status := Published, rc_published_at := Some (now e)\<rparr>;
           db1 = transition_matrices e c' MDraft MActive actor (put_card c' db)
       in Inr (c', record_card e c' ''RateCardPublished''
                     [(''version'', JInt (int (rc_version c'))), (''effective_from'', JDate (rc_from c')),
                      (''effective_until'', json_opt JDate (rc_until c'))] actor db1)))"

definition archive_card ::
  "env \<Rightarrow> uuid \<Rightarrow> uuid \<Rightarrow> 'a pricing_db_scheme \<Rightarrow> (rate_card \<times> 'a pricing_db_scheme) result" where
  "archive_card e i actor db =
     andthen (get_card e db i) (\<lambda>c.
     if rc_status c = Archived then Inl (ConflictError ''rate card is already archived'')
     else
       let c' = c\<lparr>rc_status := Archived, rc_archived_at := Some (now e)\<rparr>;
           db1 = transition_matrices e c' MActive MArchived actor
                   (transition_matrices e c' MDraft MArchived actor (put_card c' db))
       in Inr (c', record_card e c' ''RateCardArchived''
                     [(''from'', JStr (card_status_name (rc_status c)))] actor db1))"

fun copy_centers :: "rate_card \<Rightarrow> uuid list \<Rightarrow> 'a pricing_db_scheme \<Rightarrow> 'a pricing_db_scheme" where
  "copy_centers c [] db = db"
| "copy_centers c (k # ks) db =
     (let (i, db1) = new_id db in
      copy_centers c ks
        (db1\<lparr>center_assignments := center_assignments db1 @
           [\<lparr>ca_id = i, ca_tenant = rc_tenant c, ca_card = rc_id c, ca_center = k\<rparr>]\<rparr>))"

fun copy_products ::
  "rate_card \<Rightarrow> product_assignment list \<Rightarrow> 'a pricing_db_scheme \<Rightarrow> 'a pricing_db_scheme" where
  "copy_products c [] db = db"
| "copy_products c (p # ps) db =
     (let (i, db1) = new_id db in
      copy_products c ps
        (db1\<lparr>product_assignments := product_assignments db1 @
           [\<lparr>pa_id = i, pa_tenant = rc_tenant c, pa_card = rc_id c, pa_product = pa_product p,
             pa_name = pa_name p\<rparr>]\<rparr>))"

definition max_version :: "'a pricing_db_scheme \<Rightarrow> uuid \<Rightarrow> string \<Rightarrow> nat" where
  "max_version db tenant code =
     foldr max (map rc_version (filter (\<lambda>c. rc_tenant c = tenant \<and> rc_code c = code) (rate_cards db))) 0"

definition new_version ::
  "env \<Rightarrow> uuid \<Rightarrow> uuid \<Rightarrow> 'a pricing_db_scheme \<Rightarrow> (rate_card \<times> 'a pricing_db_scheme) result" where
  "new_version e i actor db =
     andthen (get_card e db i) (\<lambda>source.
     if rc_status source \<noteq> Published \<and> rc_status source \<noteq> Archived
       then Inl (ConflictError ''new versions are created from published or archived rate cards'')
     else if find (\<lambda>c. rc_tenant c = rc_tenant source \<and> rc_code c = rc_code source
                       \<and> is_open (rc_status c)) (rate_cards db) \<noteq> None
       then Inl (ConflictError ''a version of this rate card is still open'')
     else
       let mv = max_version db (rc_tenant source) (rc_code source);
           (j, db1) = new_id db;
           c = \<lparr>rc_id = j, rc_tenant = rc_tenant source, rc_branch = rc_branch source,
                rc_code = rc_code source, rc_name = rc_name source,
                rc_description = rc_description source, rc_currency = rc_currency source,
                rc_from = rc_from source, rc_until = rc_until source, rc_status = Draft,
                rc_version = (if mv = 0 then rc_version source else mv) + 1,
                rc_published_at = None, rc_archived_at = None\<rparr>;
           db2 = db1\<lparr>rate_cards := rate_cards db1 @ [c]\<rparr>;
           db3 = copy_centers c (center_ids db2 (rc_id source)) db2;
           db4 = copy_products c (card_products db3 (rc_id source)) db3;
           db5 = copy_matrices e source c actor db4
       in Inr (c, record_card e c ''RateCardCreated''
                    [(''version'', JInt (int (rc_version c))),
                     (''source_version'', JInt (int (rc_version source)))] actor db5))"

section \<open>Scope assignments\<close>

definition assign_center ::
  "env \<Rightarrow> uuid \<Rightarrow> uuid \<Rightarrow> uuid \<Rightarrow> 'a pricing_db_scheme
     \<Rightarrow> (center_assignment \<times> 'a pricing_db_scheme) result" where
  "assign_center e i center actor db =
     andthen (get_card e db i) (\<lambda>c.
     andthen (require_draft c) (\<lambda>_.
     case row_get cc_id center (centers db) of
       None \<Rightarrow> Inl (NotFoundError ''collection center not found'')
     | Some cc \<Rightarrow>
         if cc_tenant cc \<noteq> rc_tenant c then Inl (NotFoundError ''collection center not found'')
         else if find (\<lambda>a. ca_card a = rc_id c \<and> ca_center a = cc_id cc) (center_assignments db) \<noteq> None
           then Inl (ConflictError ''rate card is already assigned to this center'')
         else
           let (j, db1) = new_id db;
               a = \<lparr>ca_id = j, ca_tenant = rc_tenant c, ca_card = rc_id c, ca_center = cc_id cc\<rparr>
           in Inr (a, record_card e c ''RateCardUpdated'' [(''center_assigned'', JId (cc_id cc))] actor
                        (db1\<lparr>center_assignments := center_assignments db1 @ [a]\<rparr>))))"

definition unassign_center ::
  "env \<Rightarrow> uuid \<Rightarrow> uuid \<Rightarrow> uuid \<Rightarrow> 'a pricing_db_scheme \<Rightarrow> (unit \<times> 'a pricing_db_scheme) result" where
  "unassign_center e i center actor db =
     andthen (get_card e db i) (\<lambda>c.
     andthen (require_draft c) (\<lambda>_.
     case find (\<lambda>a. ca_card a = rc_id c \<and> ca_center a = center) (center_assignments db) of
       None \<Rightarrow> Inl (NotFoundError ''assignment not found'')
     | Some a \<Rightarrow>
         Inr ((), record_card e c ''RateCardUpdated'' [(''center_unassigned'', JId center)] actor
                    (db\<lparr>center_assignments := row_delete ca_id (ca_id a) (center_assignments db)\<rparr>))))"

definition assign_product ::
  "env \<Rightarrow> uuid \<Rightarrow> string \<times> string \<Rightarrow> uuid \<Rightarrow> 'a pricing_db_scheme
     \<Rightarrow> (product_assignment \<times> 'a pricing_db_scheme) result" where
  "assign_product e i cmd actor db =
     andthen (get_card e db i) (\<lambda>c.
     andthen (require_draft c) (\<lambda>_.
     if find (\<lambda>p. pa_card p = rc_id c \<and> pa_product p = fst cmd) (product_assignments db) \<noteq> None
       then Inl (ConflictError ''product is already assigned to this rate card'')
     else
       let (j, db1) = new_id db;
           p = \<lparr>pa_id = j, pa_tenant = rc_tenant c, pa_card = rc_id c, pa_product = fst cmd,
                pa_name = snd cmd\<rparr>
       in Inr (p, record_card e c ''RateCardUpdated'' [(''product_assigned'', JStr (fst cmd))] actor
                    (db1\<lparr>product_assignments := product_assignments db1 @ [p]\<rparr>))))"

definition unassign_product ::
  "env \<Rightarrow> uuid \<Rightarrow> string \<Rightarrow> uuid \<Rightarrow> 'a pricing_db_scheme \<Rightarrow> (unit \<times> 'a pricing_db_scheme) result" where
  "unassign_product e i code actor db =
     andthen (get_card e db i) (\<lambda>c.
     andthen (require_draft c) (\<lambda>_.
     case find (\<lambda>p. pa_card p = rc_id c \<and> pa_product p = str_upper code) (product_assignments db) of
       None \<Rightarrow> Inl (NotFoundError ''assignment not found'')
     | Some p \<Rightarrow>
         Inr ((), record_card e c ''RateCardUpdated'' [(''product_unassigned'', JStr (str_upper code))] actor
                    (db\<lparr>product_assignments := row_delete pa_id (pa_id p) (product_assignments db)\<rparr>))))"


section \<open>What the helpers do to the tables\<close>

lemma get_card_InrD:
  "get_card e db i = Inr c \<Longrightarrow>
     c \<in> set (rate_cards db) \<and> rc_id c = i \<and> current_tenant e = Some (rc_tenant c)"
  by (auto simp: get_card_def require_current_tenant_def result_simps
      split: option.splits if_splits dest: row_get_SomeD)

lemma record_card_tables [simp]:
  "rate_cards (record_card e c n d a db) = rate_cards db"
  "center_assignments (record_card e c n d a db) = center_assignments db"
  "product_assignments (record_card e c n d a db) = product_assignments db"
  "dimensions (record_card e c n d a db) = dimensions db"
  "matrices (record_card e c n d a db) = matrices db"
  "matrix_rows (record_card e c n d a db) = matrix_rows db"
  "next_id (record_card e c n d a db) = Suc (next_id db)"
  by (simp_all add: record_card_def)

lemma transition_each_tables [simp]:
  "rate_cards (transition_each e c to a ms db) = rate_cards db"
  "center_assignments (transition_each e c to a ms db) = center_assignments db"
  "product_assignments (transition_each e c to a ms db) = product_assignments db"
  "dimensions (transition_each e c to a ms db) = dimensions db"
  "matrix_rows (transition_each e c to a ms db) = matrix_rows db"
  "next_id (transition_each e c to a ms db) = next_id db + length ms"
  by (induction ms arbitrary: db) (simp_all add: put_matrix_def)

lemma transition_matrices_tables [simp]:
  "rate_cards (transition_matrices e c frm to a db) = rate_cards db"
  "center_assignments (transition_matrices e c frm to a db) = center_assignments db"
  "product_assignments (transition_matrices e c frm to a db) = product_assignments db"
  "dimensions (transition_matrices e c frm to a db) = dimensions db"
  "matrix_rows (transition_matrices e c frm to a db) = matrix_rows db"
  "next_id db \<le> next_id (transition_matrices e c frm to a db)"
  by (simp_all add: transition_matrices_def)

lemma transition_each_matrices:
  "unique_keys pm_id ms \<Longrightarrow>
     matrices (transition_each e c to a ms db) =
       map (\<lambda>x. case row_get pm_id (pm_id x) ms of None \<Rightarrow> x | Some m \<Rightarrow> m\<lparr>pm_status := to\<rparr>) (matrices db)"
proof (induction ms arbitrary: db)
  case (Cons m ms)
  have none: "row_get pm_id (pm_id m) ms = None" and ms: "unique_keys pm_id ms"
    using Cons.prems by (auto simp: unique_keys_def row_get_None_iff) (metis image_eqI)
  show ?case
    using none by (auto simp: Cons.IH [OF ms] put_matrix_def row_update_def)
qed simp

lemma transition_matrices_matrices:
  assumes "unique_keys pm_id (matrices db)"
  shows "matrices (transition_matrices e c frm to a db) =
           map (\<lambda>x. if pm_card x = rc_id c \<and> pm_status x = frm then x\<lparr>pm_status := to\<rparr> else x) (matrices db)"
proof -
  let ?sel = "filter (\<lambda>m. pm_card m = rc_id c \<and> pm_status m = frm) (matrices db)"
  have u: "unique_keys pm_id ?sel" by (rule unique_keys_filter [OF assms])
  have "row_get pm_id (pm_id x) ?sel =
          (if pm_card x = rc_id c \<and> pm_status x = frm then Some x else None)"
    if "x \<in> set (matrices db)" for x
    using that row_get_unique [OF u, of x]
    by (auto simp: row_get_None_iff dest: unique_keysD [OF assms _ that])
  then show ?thesis
    by (simp add: transition_matrices_def transition_each_matrices [OF u])
qed

lemma copy_centers_eq:
  "\<exists>xs. copy_centers c ks db =
          db\<lparr>next_id := next_id db + length ks, center_assignments := center_assignments db @ xs\<rparr>
     \<and> map ca_center xs = ks
     \<and> map ca_id xs = [next_id db ..< next_id db + length ks]
     \<and> (\<forall>x \<in> set xs. ca_card x = rc_id c)"
proof (induction ks arbitrary: db)
  case (Cons k ks)
  let ?a = "\<lparr>ca_id = next_id db, ca_tenant = rc_tenant c, ca_card = rc_id c, ca_center = k\<rparr>"
  obtain xs where "copy_centers c ks (db\<lparr>next_id := Suc (next_id db),
        center_assignments := center_assignments db @ [?a]\<rparr>) =
      db\<lparr>next_id := Suc (next_id db) + length ks,
         center_assignments := (center_assignments db @ [?a]) @ xs\<rparr>"
    and "map ca_center xs = ks"
    and "map ca_id xs = [Suc (next_id db) ..< Suc (next_id db) + length ks]"
    and "\<forall>x \<in> set xs. ca_card x = rc_id c"
    using Cons.IH [of "db\<lparr>next_id := Suc (next_id db), center_assignments := center_assignments db @ [?a]\<rparr>"]
    by auto
  then show ?case
    by (intro exI [of _ "?a # xs"]) (simp add: new_id_eq upt_from [of "next_id db"] del: upt_Suc)
qed simp

lemma copy_products_eq:
  "\<exists>xs. copy_products c ps db =
          db\<lparr>next_id := next_id db + length ps, product_assignments := product_assignments db @ xs\<rparr>
     \<and> map pa_product xs = map pa_product ps
     \<and> map pa_id xs = [next_id db ..< next_id db + length ps]
     \<and> (\<forall>x \<in> set xs. pa_card x = rc_id c)"
proof (induction ps arbitrary: db)
  case (Cons p ps)
  let ?a = "\<lparr>pa_id = next_id db, pa_tenant = rc_tenant c, pa_card = rc_id c, pa_product = pa_product p,
             pa_name = pa_name p\<rparr>"
  obtain xs where "copy_products c ps (db\<lparr>next_id := Suc (next_id db),
        product_assignments := product_assignments db @ [?a]\<rparr>) =
      db\<lparr>next_id := Suc (next_id db) + length ps,
         product_assignments := (product_assignments db @ [?a]) @ xs\<rparr>"
    and "map pa_product xs = map pa_product ps"
    and "map pa_id xs = [Suc (next_id db) ..< Suc (next_id db) + length ps]"
    and "\<forall>x \<in> set xs. pa_card x = rc_id c"
    using Cons.IH [of "db\<lparr>next_id := Suc (next_id db), product_assignments := product_assignments db @ [?a]\<rparr>"]
    by auto
  then show ?case
    by (intro exI [of _ "?a # xs"]) (simp add: new_id_eq upt_from [of "next_id db"] del: upt_Suc)
qed simp

definition band :: "matrix_row \<Rightarrow> nat \<times> pyfloat \<times> pyfloat \<times> decimal \<times> bool" where
  "band r = (mr_sequence r, mr_from r, mr_to r, mr_price r, mr_active r)"

lemma copy_rows_eq:
  "\<exists>xs. copy_rows m rs db =
          db\<lparr>next_id := next_id db + length rs, matrix_rows := matrix_rows db @ xs\<rparr>
     \<and> map band xs = map band rs \<and> map mr_id xs = [next_id db ..< next_id db + length rs]
     \<and> (\<forall>x \<in> set xs. mr_matrix x = pm_id m \<and> mr_tenant x = pm_tenant m)"
proof (induction rs arbitrary: db)
  case (Cons r rs)
  let ?a = "\<lparr>mr_id = next_id db, mr_tenant = pm_tenant m, mr_matrix = pm_id m, mr_sequence = mr_sequence r,
             mr_from = mr_from r, mr_to = mr_to r, mr_price = mr_price r, mr_active = mr_active r\<rparr>"
  obtain xs where "copy_rows m rs (db\<lparr>next_id := Suc (next_id db),
        matrix_rows := matrix_rows db @ [?a]\<rparr>) =
      db\<lparr>next_id := Suc (next_id db) + length rs, matrix_rows := (matrix_rows db @ [?a]) @ xs\<rparr>"
    and "map band xs = map band rs" and "map mr_id xs = [Suc (next_id db) ..< Suc (next_id db) + length rs]"
    and "\<forall>x \<in> set xs. mr_matrix x = pm_id m \<and> mr_tenant x = pm_tenant m"
    using Cons.IH [of "db\<lparr>next_id := Suc (next_id db), matrix_rows := matrix_rows db @ [?a]\<rparr>"]
    by auto
  moreover have "band ?a = band r" by (simp add: band_def)
  ultimately show ?case
    by (intro exI [of _ "?a # xs"]) (simp add: new_id_eq upt_from [of "next_id db"] del: upt_Suc)
qed simp


section \<open>What an operation may change\<close>

text \<open>
  BR-0001 as a relation between two states: everything that determines a price of a card that has
  left the draft stage (its own terms, its scope, its matrices apart from their status, and their
  rows) is the same in both, every card moves along the edges of the life cycle or not at all, new
  cards are drafts, and dimensions are only ever added.
\<close>

definition card_edge :: "card_status \<Rightarrow> card_status \<Rightarrow> bool" where
  "card_edge s t \<longleftrightarrow>
     (s = Draft \<and> t = UnderReview) \<or> (s = UnderReview \<and> t = Approved) \<or> (s = Approved \<and> t = Published)
     \<or> (s \<noteq> Archived \<and> t = Archived)"

definition card_terms where
  "card_terms c = (rc_tenant c, rc_branch c, rc_code c, rc_name c, rc_description c, rc_currency c,
     rc_from c, rc_until c, rc_version c)"

definition price_data :: "'a pricing_db_scheme \<Rightarrow> uuid \<Rightarrow> (pricing_matrix \<times> matrix_row list) list" where
  "price_data db i =
     map (\<lambda>m. (m\<lparr>pm_status := MDraft\<rparr>, filter (\<lambda>r. mr_matrix r = pm_id m) (matrix_rows db)))
       (filter (\<lambda>m. pm_card m = i) (matrices db))"

definition frozen_content where
  "frozen_content db i =
     (map_option card_terms (row_get rc_id i (rate_cards db)), center_ids db i, product_codes db i,
      price_data db i)"

definition honours :: "'a pricing_db_scheme \<Rightarrow> 'a pricing_db_scheme \<Rightarrow> bool" where
  "honours db db' \<longleftrightarrow>
     (\<forall>d \<in> set (rate_cards db).
        (rc_status d \<noteq> Draft \<longrightarrow> frozen_content db' (rc_id d) = frozen_content db (rc_id d))
        \<and> (\<exists>d' \<in> set (rate_cards db'). rc_id d' = rc_id d
             \<and> (rc_status d' = rc_status d \<or> card_edge (rc_status d) (rc_status d'))))
     \<and> (\<forall>d' \<in> set (rate_cards db'). rc_id d' \<in> rc_id ` set (rate_cards db) \<or> rc_status d' = Draft)
     \<and> (\<exists>ds. dimensions db' = dimensions db @ ds)"

lemma frozen_content_frame:
  "rate_cards db' = rate_cards db \<Longrightarrow> center_assignments db' = center_assignments db
    \<Longrightarrow> product_assignments db' = product_assignments db \<Longrightarrow> matrices db' = matrices db
    \<Longrightarrow> matrix_rows db' = matrix_rows db \<Longrightarrow> frozen_content db' i = frozen_content db i"
  by (simp add: frozen_content_def center_ids_def product_codes_def card_products_def price_data_def)

lemma honours_frame:
  assumes "rate_cards db' = rate_cards db" "center_assignments db' = center_assignments db"
    "product_assignments db' = product_assignments db" "matrices db' = matrices db"
    "matrix_rows db' = matrix_rows db" "dimensions db' = dimensions db @ ds"
  shows "honours db db'"
  unfolding honours_def using frozen_content_frame [OF assms(1-5)] assms(1,6) by auto

text \<open>Operations that only add draft cards and only touch the scope and prices of drafts.\<close>

lemma honours_grow:
  assumes "rate_cards db' = rate_cards db @ cs" "\<And>c. c \<in> set cs \<Longrightarrow> rc_status c = Draft"
    and "\<And>d. d \<in> set (rate_cards db) \<Longrightarrow> rc_status d \<noteq> Draft \<Longrightarrow>
           center_ids db' (rc_id d) = center_ids db (rc_id d)
           \<and> product_codes db' (rc_id d) = product_codes db (rc_id d)
           \<and> price_data db' (rc_id d) = price_data db (rc_id d)"
    and "dimensions db' = dimensions db @ ds"
  shows "honours db db'"
proof -
  have "row_get rc_id (rc_id d) (rate_cards db @ cs) = row_get rc_id (rc_id d) (rate_cards db)"
    if "d \<in> set (rate_cards db)" for d
    using that by (auto simp: row_get_append row_get_None_iff split: option.split)
  then show ?thesis
    unfolding honours_def frozen_content_def assms(1,4) using assms(2,3) by auto
qed

lemma price_data_retarget:
  assumes "matrices db' = map (retarget k st) (matrices db)" "matrix_rows db' = matrix_rows db"
  shows "price_data db' i = price_data db i"
proof -
  have "(retarget k st m)\<lparr>pm_status := MDraft\<rparr> = m\<lparr>pm_status := MDraft\<rparr>" for m
    by (simp add: retarget_def)
  then show ?thesis by (simp add: price_data_def assms filter_map comp_def)
qed

lemma put_card_honours:
  assumes c: "c \<in> set (rate_cards db)" and same: "rc_id c' = rc_id c"
    and terms: "rc_status c \<noteq> Draft \<Longrightarrow> card_terms c' = card_terms c"
    and move: "rc_status c' = rc_status c \<or> card_edge (rc_status c) (rc_status c')"
    and ids: "unique_keys rc_id (rate_cards db)"
    and db': "rate_cards db' = row_update rc_id (rc_id c) (\<lambda>_. c') (rate_cards db)"
      "matrices db' = map (retarget (rc_id c) (expected_status (rc_status c'))) (matrices db)"
      "center_assignments db' = center_assignments db" "product_assignments db' = product_assignments db"
      "dimensions db' = dimensions db" "matrix_rows db' = matrix_rows db"
  shows "honours db db'"
proof -
  have "frozen_content db' (rc_id d) = frozen_content db (rc_id d)"
    if d: "d \<in> set (rate_cards db)" "rc_status d \<noteq> Draft" for d
  proof -
    have "map_option card_terms (row_get rc_id (rc_id d) (rate_cards db'))
        = map_option card_terms (row_get rc_id (rc_id d) (rate_cards db))"
    proof (cases "rc_id d = rc_id c")
      case True
      then have "d = c" using unique_keysD [OF ids d(1) c] by simp
      then show ?thesis
        using terms d(2) row_get_unique [OF ids c] unfolding db' row_get_put [where key = rc_id and r = c and r' = c', OF c same] by simp
    next
      case False
      then show ?thesis unfolding db' row_get_put [where key = rc_id and r = c and r' = c', OF c same] by simp
    qed
    then show ?thesis
      using price_data_retarget [OF db'(2,6)] db'
      by (simp add: frozen_content_def center_ids_def product_codes_def card_products_def)
  qed
  moreover have "\<exists>d' \<in> set (rate_cards db'). rc_id d' = rc_id d
      \<and> (rc_status d' = rc_status d \<or> card_edge (rc_status d) (rc_status d'))"
    if d: "d \<in> set (rate_cards db)" for d
  proof (cases "rc_id d = rc_id c")
    case True
    then have "d = c" using unique_keysD [OF ids d c] by simp
    then show ?thesis using move same by (auto simp: db' in_row_put [OF c])
  next
    case False
    then show ?thesis using d by (auto simp: db' in_row_put [OF c])
  qed
  moreover have "\<forall>d' \<in> set (rate_cards db'). rc_id d' \<in> rc_id ` set (rate_cards db)"
    using c same by (auto simp: db' in_row_put [OF c])
  ultimately show ?thesis by (simp add: honours_def db')
qed

section \<open>The invariant is kept\<close>

lemma pricing_invD:
  assumes "pricing_inv db"
  shows "cards_ok (next_id db) (rate_cards db)" "open_ok (rate_cards db)" "currencies_ok (rate_cards db)"
    "centers_ok (next_id db) (center_assignments db)" "products_ok (next_id db) (product_assignments db)"
    "windows_ok (rate_cards db) (center_assignments db) (product_assignments db)"
    "dimensions_ok (dimensions db)" "matrices_ok (next_id db) (rate_cards db) (matrices db)"
    "rows_ok (next_id db) (matrices db) (matrix_rows db)"
    "unique_keys rc_id (rate_cards db)" "unique_keys pm_id (matrices db)"
    "unique_keys mr_id (matrix_rows db)"
  using assms by (auto simp: pricing_inv_def cards_ok_def matrices_ok_def rows_ok_def)

lemma retarget_rows_ok [simp]: "rows_ok n (map (retarget i to) ms) rs = rows_ok n ms rs"
  by (rule rows_ok_cong) simp

text \<open>Every change of a single card, together with the matrices that follow it.\<close>

lemma put_card_inv:
  assumes inv: "pricing_inv db" and c: "c \<in> set (rate_cards db)"
    and same: "rc_id c' = rc_id c" "version_key c' = version_key c"
    and terms: "rc_status c \<noteq> Draft \<Longrightarrow> card_terms c' = card_terms c"
    and move: "rc_status c' = rc_status c \<or> card_edge (rc_status c) (rc_status c')"
    and cur: "length (rc_currency c') = 3" "str_isalpha (rc_currency c')"
      "str_upper (rc_currency c') = rc_currency c'"
    and "is_open (rc_status c') \<Longrightarrow> is_open (rc_status c)"
    and windows: "rc_status c' = Published \<Longrightarrow>
        assert_no_published_overlap db c' (center_ids db (rc_id c)) (product_codes db (rc_id c)) = Inr ()"
    and db': "rate_cards db' = row_update rc_id (rc_id c) (\<lambda>_. c') (rate_cards db)"
      "matrices db' = map (retarget (rc_id c) (expected_status (rc_status c'))) (matrices db)"
      "center_assignments db' = center_assignments db" "product_assignments db' = product_assignments db"
      "dimensions db' = dimensions db" "matrix_rows db' = matrix_rows db" "next_id db \<le> next_id db'"
  shows "pricing_inv db' \<and> honours db db'"
proof
  show "honours db db'"
    by (rule put_card_honours [OF c same(1) terms move pricing_invD(10) [OF inv] db'(1-6)])
next
  note i = pricing_invD [OF inv]
  have "windows_ok (row_update rc_id (rc_id c) (\<lambda>_. c') (rate_cards db))
          (center_assignments db) (product_assignments db)"
  proof (rule windows_ok_put [OF i(6) c same(1)])
    fix d center product
    assume "rc_status c' = Published" "d \<in> set (rate_cards db)" "rc_status d = Published"
      "rc_id d \<noteq> rc_id c" "rc_tenant d = rc_tenant c'"
      "center_of (center_assignments db) (rc_id c) center"
      "center_of (center_assignments db) (rc_id d) center"
      "product_of (product_assignments db) (rc_id c) product"
      "product_of (product_assignments db) (rc_id d) product"
    moreover from this have "d \<in> set (published_rivals db c' (center_ids db (rc_id c)) (product_codes db (rc_id c)))"
      by (auto simp: published_rivals_def center_ids_def product_codes_def card_products_def
          center_of_def product_of_def same list_ex_iff)
    ultimately show "\<not> overlaps (rc_from c') (rc_until c') (rc_from d) (rc_until d)"
      using windows by (auto simp: assert_no_published_overlap_def list_ex_iff split: if_splits)
  qed
  moreover have "matrices_ok (next_id db) (row_update rc_id (rc_id c) (\<lambda>_. c') (rate_cards db)) (matrices db')"
    unfolding db' using same by (intro matrices_ok_put i c) (auto simp: version_key_def)
  ultimately show "pricing_inv db'"
    using assms i by (auto simp: pricing_inv_def intro: conditions_mono cards_ok_put open_ok_put currencies_ok_put)
qed

lemma card_currency:
  assumes "pricing_inv db" and "c \<in> set (rate_cards db)"
  shows "length (rc_currency c) = 3" "str_isalpha (rc_currency c)" "str_upper (rc_currency c) = rc_currency c"
  using pricing_invD(3) [OF assms(1)] assms(2) by (auto simp: currencies_ok_def)

lemma retarget_same_db:
  assumes "pricing_inv db" and "c \<in> set (rate_cards db)"
    and "expected_status s = expected_status (rc_status c)"
  shows "map (retarget (rc_id c) (expected_status s)) (matrices db) = matrices db"
  unfolding assms(3) using pricing_invD [OF assms(1)] assms(2) by (intro retarget_same)

lemma status_simps [simp]:
  "expected_status Draft = MDraft" "expected_status UnderReview = MDraft"
  "expected_status Approved = MDraft" "expected_status Published = MActive"
  "expected_status Archived = MArchived"
  "is_open Draft" "is_open UnderReview" "is_open Approved" "\<not> is_open Published" "\<not> is_open Archived"
  by (simp_all add: expected_status_def is_open_def)

lemma RateCardInput_currency:
  "RateCardInput n d cur f u b = Inr cmd \<Longrightarrow> ri_currency cmd = Some c
     \<Longrightarrow> length c = 3 \<and> str_isalpha c \<and> str_upper c = c"
  by (auto simp: RateCardInput_def result_simps str_isalpha_upper split: option.splits if_splits)

lemma update_draft_inv:
  assumes "pricing_inv db" and "RateCardInput nm ds cur f u b = Inr cmd"
    and "update_draft e i cmd a db = Inr (c', db')"
  shows "pricing_inv db' \<and> honours db db'"
proof -
  obtain c cur' where c: "get_card e db i = Inr c" "rc_status c = Draft" "ri_currency cmd = Some cur'"
    and c': "c' = c\<lparr>rc_name := ri_name cmd, rc_description := ri_description cmd, rc_currency := cur',
                    rc_from := ri_from cmd, rc_until := ri_until cmd, rc_branch := ri_branch cmd\<rparr>"
    and db': "db' = record_card e c' ''RateCardUpdated'' [(''version'', JInt (int (rc_version c')))] a (put_card c' db)"
    using assms(3) by (auto simp: update_draft_def require_draft_def result_simps Let_def split: if_splits)
  note g = get_card_InrD [OF c(1)]
  show ?thesis
    using g c RateCardInput_currency [OF assms(2) c(3)] retarget_same_db [OF assms(1), of c Draft]
    by (intro put_card_inv [OF assms(1), of c c'])
      (auto simp: c' db' put_card_def version_key_def card_terms_def card_edge_def)
qed

lemma submit_inv:
  assumes "pricing_inv db" and "submit_for_review e i a db = Inr (c', db')"
  shows "pricing_inv db' \<and> honours db db'"
proof -
  obtain c where c: "get_card e db i = Inr c" "rc_status c = Draft" "c' = c\<lparr>rc_status := UnderReview\<rparr>"
    and db': "db' = record_card e c' ''RateCardSubmitted'' [] a (put_card c' db)"
    using assms(2) by (auto simp: submit_for_review_def result_simps Let_def split: if_splits)
  note g = get_card_InrD [OF c(1)]
  show ?thesis
    using g c card_currency [OF assms(1), of c] retarget_same_db [OF assms(1), of c UnderReview]
    by (intro put_card_inv [OF assms(1), of c c']) (auto simp: db' put_card_def version_key_def card_terms_def card_edge_def)
qed

lemma approve_inv:
  assumes "pricing_inv db" and "approve_card e i a db = Inr (c', db')"
  shows "pricing_inv db' \<and> honours db db'"
proof -
  obtain c where c: "get_card e db i = Inr c" "rc_status c = UnderReview" "c' = c\<lparr>rc_status := Approved\<rparr>"
    and db': "db' = record_card e c' ''RateCardApproved'' [] a (put_card c' db)"
    using assms(2) by (auto simp: approve_card_def result_simps Let_def split: if_splits)
  note g = get_card_InrD [OF c(1)]
  show ?thesis
    using g c card_currency [OF assms(1), of c] retarget_same_db [OF assms(1), of c Approved]
    by (intro put_card_inv [OF assms(1), of c c']) (auto simp: db' put_card_def version_key_def card_terms_def card_edge_def)
qed


lemma put_card_tables [simp]:
  "center_assignments (put_card c db) = center_assignments db"
  "product_assignments (put_card c db) = product_assignments db"
  "dimensions (put_card c db) = dimensions db" "matrices (put_card c db) = matrices db"
  "matrix_rows (put_card c db) = matrix_rows db" "next_id (put_card c db) = next_id db"
  "rate_cards (put_card c db) = row_update rc_id (rc_id c) (\<lambda>_. c) (rate_cards db)"
  by (simp_all add: put_card_def)

text \<open>The two transitions move exactly the card's matrices, because these all have the status the
  card's status implies.\<close>

lemma publish_matrices:
  assumes "pricing_inv db" and "c \<in> set (rate_cards db)" and "expected_status (rc_status c) = MDraft"
    and "rc_id c' = rc_id c"
  shows "matrices (transition_matrices e c' MDraft MActive a (put_card c' db)) =
           map (retarget (rc_id c) MActive) (matrices db)"
proof -
  note i = pricing_invD [OF assms(1)]
  have "pm_status m = MDraft" if "m \<in> set (matrices db)" "pm_card m = rc_id c" for m
    using matrices_status [OF i(8) i(10) assms(2) that] assms(3) by (simp add: follows_def)
  then show ?thesis
    using i(11) assms(4) by (auto simp: transition_matrices_matrices retarget_def)
qed

lemma archive_matrices:
  assumes "pricing_inv db" and "c \<in> set (rate_cards db)" and "rc_status c \<noteq> Archived"
    and "rc_id c' = rc_id c"
  shows "matrices (transition_matrices e c' MActive MArchived a
            (transition_matrices e c' MDraft MArchived a (put_card c' db))) =
           map (retarget (rc_id c) MArchived) (matrices db)"
proof -
  note i = pricing_invD [OF assms(1)]
  have st: "pm_status m = MDraft \<or> pm_status m = MActive" if "m \<in> set (matrices db)" "pm_card m = rc_id c" for m
    using matrices_status [OF i(8) i(10) assms(2) that] assms(3) by (cases "rc_status c") (auto simp: follows_def)
  have first: "matrices (transition_matrices e c' MDraft MArchived a (put_card c' db)) =
      map (\<lambda>x. if pm_card x = rc_id c \<and> pm_status x = MDraft then x\<lparr>pm_status := MArchived\<rparr> else x) (matrices db)"
    using i(11) assms(4) by (simp add: transition_matrices_matrices)
  have "unique_keys pm_id (matrices (transition_matrices e c' MDraft MArchived a (put_card c' db)))"
    unfolding first unique_keys_def map_map using i(11) unfolding unique_keys_def
    by (rule ssubst [rotated]) (rule arg_cong [of _ _ distinct], auto)
  then show ?thesis
    using assms(4) st by (auto simp: transition_matrices_matrices first retarget_def)
qed

lemma publish_inv:
  assumes "pricing_inv db" and "publish_card e i a db = Inr (c', db')"
  shows "pricing_inv db' \<and> honours db db'"
proof -
  obtain c where c: "get_card e db i = Inr c" "rc_status c = Approved"
      "assert_no_published_overlap db c (center_ids db (rc_id c)) (product_codes db (rc_id c)) = Inr ()"
    and c': "c' = c\<lparr>rc_status := Published, rc_published_at := Some (now e)\<rparr>"
    and db': "db' = record_card e c' ''RateCardPublished''
                     [(''version'', JInt (int (rc_version c'))), (''effective_from'', JDate (rc_from c')),
                      (''effective_until'', json_opt JDate (rc_until c'))] a
                     (transition_matrices e c' MDraft MActive a (put_card c' db))"
    using assms(2) by (auto simp: publish_card_def result_simps Let_def split: if_splits)
  note g = get_card_InrD [OF c(1)]
  have "assert_no_published_overlap db c' (center_ids db (rc_id c)) (product_codes db (rc_id c)) = Inr ()"
    using c(3) by (simp add: assert_no_published_overlap_def published_rivals_def c')
  moreover have "next_id db \<le> next_id db'"
    using transition_matrices_tables(6) [of "put_card c' db"] by (simp add: db' le_Suc_eq)
  ultimately show ?thesis
    using g c card_currency [OF assms(1), of c] publish_matrices [OF assms(1), of c c' e a]
    by (intro put_card_inv [OF assms(1), of c c']) (simp_all add: c' db' version_key_def card_terms_def card_edge_def)
qed

lemma archive_inv:
  assumes "pricing_inv db" and "archive_card e i a db = Inr (c', db')"
  shows "pricing_inv db' \<and> honours db db'"
proof -
  obtain c where c: "get_card e db i = Inr c" "rc_status c \<noteq> Archived"
    and c': "c' = c\<lparr>rc_status := Archived, rc_archived_at := Some (now e)\<rparr>"
    and db': "db' = record_card e c' ''RateCardArchived'' [(''from'', JStr (card_status_name (rc_status c)))] a
                     (transition_matrices e c' MActive MArchived a
                       (transition_matrices e c' MDraft MArchived a (put_card c' db)))"
    using assms(2) by (auto simp: archive_card_def result_simps Let_def split: if_splits)
  note g = get_card_InrD [OF c(1)]
  let ?mid = "transition_matrices e c' MDraft MArchived a (put_card c' db)"
  have "next_id (put_card c' db) \<le> next_id ?mid" by (rule transition_matrices_tables)
  also have "\<dots> \<le> next_id (transition_matrices e c' MActive MArchived a ?mid)"
    by (rule transition_matrices_tables)
  finally have n: "next_id db \<le> next_id db'" by (simp add: db')
  have m: "matrices db' = map (retarget (rc_id c) (expected_status (rc_status c'))) (matrices db)"
    using archive_matrices [OF assms(1), of c c' e a] g c by (simp add: db' c')
  show ?thesis
  proof (rule put_card_inv [OF assms(1) _ _ _ _ _ _ _ _ _ _ _ m _ _ _ _ n])
    show "c \<in> set (rate_cards db)" using g by simp
  qed (use card_currency [OF assms(1), of c] g c(2) in
        \<open>simp_all add: c' db' version_key_def card_terms_def card_edge_def\<close>)
qed

lemma code_taken_iff:
  "code_taken db t code \<longleftrightarrow> (\<exists>c \<in> set (rate_cards db). rc_tenant c = t \<and> rc_code c = code)"
  by (simp add: code_taken_def find_None_ball del: not_None_eq)

lemma tenant_currency_valid:
  "tenant_currency e db t = Inr c \<Longrightarrow> length c = 3 \<and> str_isalpha c \<and> str_upper c = c"
proof -
  assume "tenant_currency e db t = Inr c"
  then have "map_of CURRENCIES c \<noteq> None"
    by (auto simp: tenant_currency_def Let_def split: if_splits)
  then have "c \<in> set (map fst CURRENCIES)" by (auto simp: map_of_eq_None_iff)
  moreover have "\<forall>c \<in> set (map fst CURRENCIES). length c = 3 \<and> str_isalpha c \<and> str_upper c = c"
    by code_simp
  ultimately show ?thesis by blast
qed

lemma create_inv:
  assumes "pricing_inv db" and "RateCardInput nm ds cur f u b = Inr cmd"
    and "create_card e tokens code cmd a db = Inr (c, db')"
  shows "pricing_inv db' \<and> honours db db'"
proof -
  obtain tenant code' cur' where free: "\<not> code_taken db tenant code'"
    and cur: "(if opt_str (ri_currency cmd) \<noteq> [] then Inr (opt_str (ri_currency cmd))
              else tenant_currency e db None) = Inr cur'"
    and c: "c = \<lparr>rc_id = next_id db, rc_tenant = tenant, rc_branch = ri_branch cmd, rc_code = code',
                rc_name = ri_name cmd, rc_description = ri_description cmd, rc_currency = cur',
                rc_from = ri_from cmd, rc_until = ri_until cmd, rc_status = Draft, rc_version = 1,
                rc_published_at = None, rc_archived_at = None\<rparr>"
    and db': "db' = record_card e c ''RateCardCreated'' [(''version'', JInt 1)] a
                (db\<lparr>next_id := Suc (next_id db), rate_cards := rate_cards db @ [c]\<rparr>)"
    using assms(3) by (auto simp: create_card_def new_id_eq Let_def result_simps)
  have "length cur' = 3 \<and> str_isalpha cur' \<and> str_upper cur' = cur'"
    using cur tenant_currency_valid RateCardInput_currency [OF assms(2)]
    by (cases "ri_currency cmd") (auto simp: opt_str_def split: if_splits)
  then have "currencies_ok (rate_cards db @ [c])"
    using pricing_invD(3) [OF assms(1)] by (auto simp: currencies_ok_def c)
  moreover have "version_key c \<notin> version_key ` set (rate_cards db)"
    using free by (auto simp: version_key_def c code_taken_iff)
  moreover have "\<not> is_open (rc_status d)"
    if "d \<in> set (rate_cards db)" "rc_tenant d = rc_tenant c" "rc_code d = rc_code c" for d
    using free that by (auto simp: c code_taken_iff)
  ultimately have "cards_ok (Suc (next_id db)) (rate_cards db @ [c]) \<and> open_ok (rate_cards db @ [c])
      \<and> currencies_ok (rate_cards db @ [c])"
    using pricing_invD [OF assms(1)] by (auto intro: cards_ok_append open_ok_append simp: c)
  moreover have "windows_ok (rate_cards db @ [c]) (center_assignments db) (product_assignments db)"
    using pricing_invD(6) [OF assms(1)] by (rule windows_ok_append) (simp add: c)
  ultimately have "pricing_inv db'"
    using pricing_invD(7) [OF assms(1)] pricing_inv_at [OF assms(1), of "next_id db'"]
      cards_ok_mono [of "Suc (next_id db)" "rate_cards db @ [c]" "next_id db'"]
    by (simp add: pricing_inv_def db' matrices_ok_append_card)
  moreover have "honours db db'"
    by (rule honours_grow [of _ _ "[c]" "[]"])
      (simp_all add: db' c center_ids_def product_codes_def card_products_def price_data_def)
  ultimately show ?thesis ..
qed


lemma require_draft_Inr [result_simps]: "require_draft c = Inr u \<longleftrightarrow> rc_status c = Draft"
  by (auto simp: require_draft_def)

text \<open>A change of the scope rows of a draft.\<close>

lemma scope_inv:
  assumes inv: "pricing_inv db" and c: "c \<in> set (rate_cards db)" "rc_status c = Draft"
    and scope: "centers_ok (next_id db') (center_assignments db')"
      "products_ok (next_id db') (product_assignments db')"
      "\<And>i k. i \<noteq> rc_id c \<Longrightarrow> center_of (center_assignments db') i k \<Longrightarrow> center_of (center_assignments db) i k"
      "\<And>i k. i \<noteq> rc_id c \<Longrightarrow> product_of (product_assignments db') i k \<Longrightarrow> product_of (product_assignments db) i k"
    and lists: "\<And>i. i \<noteq> rc_id c \<Longrightarrow> center_ids db' i = center_ids db i \<and> product_codes db' i = product_codes db i"
    and db': "rate_cards db' = rate_cards db" "matrices db' = matrices db" "dimensions db' = dimensions db"
      "matrix_rows db' = matrix_rows db" "next_id db \<le> next_id db'"
  shows "pricing_inv db' \<and> honours db db'"
proof -
  have "windows_ok (rate_cards db) (center_assignments db') (product_assignments db')"
  proof (rule windows_ok_scope [OF pricing_invD(6) [OF inv]])
    fix d k assume d: "d \<in> set (rate_cards db)" "rc_status d = Published"
    then have "rc_id d \<noteq> rc_id c"
      using c unique_keysD [OF pricing_invD(10) [OF inv], of d c] by auto
    then show "center_of (center_assignments db') (rc_id d) k \<Longrightarrow> center_of (center_assignments db) (rc_id d) k"
      by (rule scope(3))
  next
    fix d k assume d: "d \<in> set (rate_cards db)" "rc_status d = Published"
    then have "rc_id d \<noteq> rc_id c"
      using c unique_keysD [OF pricing_invD(10) [OF inv], of d c] by auto
    then show "product_of (product_assignments db') (rc_id d) k \<Longrightarrow> product_of (product_assignments db) (rc_id d) k"
      by (rule scope(4))
  qed
  then have "pricing_inv db'"
    using pricing_invD [OF inv] pricing_inv_at [OF inv db'(5)] scope(1,2)
    by (simp add: pricing_inv_def db')
  moreover have "honours db db'"
  proof (rule honours_grow [of _ _ "[]" "[]"])
    fix d assume d: "d \<in> set (rate_cards db)" "rc_status d \<noteq> Draft"
    then have "rc_id d \<noteq> rc_id c"
      using c unique_keysD [OF pricing_invD(10) [OF inv], of d c] by auto
    then show "center_ids db' (rc_id d) = center_ids db (rc_id d)
           \<and> product_codes db' (rc_id d) = product_codes db (rc_id d)
           \<and> price_data db' (rc_id d) = price_data db (rc_id d)"
      using lists by (simp add: price_data_def db')
  qed (simp_all add: db')
  ultimately show ?thesis ..
qed

lemma card_id_less: "pricing_inv db \<Longrightarrow> c \<in> set (rate_cards db) \<Longrightarrow> rc_id c < next_id db"
  by (auto simp: pricing_inv_def cards_ok_def)

lemma assign_center_inv:
  assumes "pricing_inv db" and "assign_center e i k a db = Inr (x, db')"
  shows "pricing_inv db' \<and> honours db db'"
proof -
  obtain c and cc :: collection_center where c: "get_card e db i = Inr c" "rc_status c = Draft"
    and free: "find (\<lambda>a. ca_card a = rc_id c \<and> ca_center a = cc_id cc) (center_assignments db) = None"
    and x: "x = \<lparr>ca_id = next_id db, ca_tenant = rc_tenant c, ca_card = rc_id c, ca_center = cc_id cc\<rparr>"
    and db': "db' = record_card e c ''RateCardUpdated'' [(''center_assigned'', JId (cc_id cc))] a
        (db\<lparr>next_id := Suc (next_id db), center_assignments := center_assignments db @ [x]\<rparr>)"
    using assms(2) by (auto simp: assign_center_def new_id_eq Let_def result_simps
        split: option.splits if_splits)
  note g = get_card_InrD [OF c(1)]
  have "centers_ok (next_id db') (center_assignments db @ [x])"
    using free card_id_less [OF assms(1), of c] g
    by (intro centers_ok_append [OF pricing_invD(4) [OF assms(1)], where c = "rc_id c"])
      (auto simp: x db' find_None_ball center_of_def)
  then show ?thesis
    using g c pricing_inv_at(3) [OF assms(1), of "next_id db'"]
    by (intro scope_inv [OF assms(1), of c]) (auto simp: db' x center_of_def center_ids_def product_codes_def card_products_def)
qed

lemma unassign_center_inv:
  assumes "pricing_inv db" and "unassign_center e i k a db = Inr (x, db')"
  shows "pricing_inv db' \<and> honours db db'"
proof -
  obtain c and y :: center_assignment where c: "get_card e db i = Inr c" "rc_status c = Draft"
    and y: "find (\<lambda>a. ca_card a = rc_id c \<and> ca_center a = k) (center_assignments db) = Some y"
    and db': "db' = record_card e c ''RateCardUpdated'' [(''center_unassigned'', JId k)] a
        (db\<lparr>center_assignments := row_delete ca_id (ca_id y) (center_assignments db)\<rparr>)"
    using assms(2) by (auto simp: unassign_center_def result_simps split: option.splits)
  note g = get_card_InrD [OF c(1)]
  have "ca_card y = rc_id c" using find_SomeD [OF y] by simp
  moreover have "ca_id a = ca_id y \<Longrightarrow> a = y" if "a \<in> set (center_assignments db)" for a
    using pricing_invD(4) [OF assms(1)] that find_SomeD [OF y]
    by (auto simp: centers_ok_def dest: unique_keysD)
  ultimately have keep: "filter (\<lambda>a. ca_card a = j) (row_delete ca_id (ca_id y) (center_assignments db))
      = filter (\<lambda>a. ca_card a = j) (center_assignments db)" if "j \<noteq> rc_id c" for j
    using that by (auto simp: row_delete_def intro!: filter_cong)
  show ?thesis
    using g c pricing_inv_at(2,3) [OF assms(1), of "next_id db'"]
    by (intro scope_inv [OF assms(1), of c]) (auto simp: db' keep center_ids_def product_codes_def card_products_def intro: centers_ok_delete center_of_delete)
qed

lemma assign_product_inv:
  assumes "pricing_inv db" and "assign_product e i cmd a db = Inr (x, db')"
  shows "pricing_inv db' \<and> honours db db'"
proof -
  obtain c where c: "get_card e db i = Inr c" "rc_status c = Draft"
    and free: "find (\<lambda>p. pa_card p = rc_id c \<and> pa_product p = fst cmd) (product_assignments db) = None"
    and x: "x = \<lparr>pa_id = next_id db, pa_tenant = rc_tenant c, pa_card = rc_id c, pa_product = fst cmd,
                pa_name = snd cmd\<rparr>"
    and db': "db' = record_card e c ''RateCardUpdated'' [(''product_assigned'', JStr (fst cmd))] a
        (db\<lparr>next_id := Suc (next_id db), product_assignments := product_assignments db @ [x]\<rparr>)"
    using assms(2) by (auto simp: assign_product_def new_id_eq Let_def result_simps)
  note g = get_card_InrD [OF c(1)]
  have "products_ok (next_id db') (product_assignments db @ [x])"
    using free card_id_less [OF assms(1), of c] g
    by (intro products_ok_append [OF pricing_invD(5) [OF assms(1)], where c = "rc_id c"])
      (auto simp: x db' find_None_ball product_of_def)
  then show ?thesis
    using g c pricing_inv_at(2) [OF assms(1), of "next_id db'"]
    by (intro scope_inv [OF assms(1), of c]) (auto simp: db' x product_of_def center_ids_def product_codes_def card_products_def)
qed

lemma unassign_product_inv:
  assumes "pricing_inv db" and "unassign_product e i k a db = Inr (x, db')"
  shows "pricing_inv db' \<and> honours db db'"
proof -
  obtain c and y :: product_assignment where c: "get_card e db i = Inr c" "rc_status c = Draft"
    and y: "find (\<lambda>p. pa_card p = rc_id c \<and> pa_product p = str_upper k) (product_assignments db) = Some y"
    and db': "db' = record_card e c ''RateCardUpdated'' [(''product_unassigned'', JStr (str_upper k))] a
        (db\<lparr>product_assignments := row_delete pa_id (pa_id y) (product_assignments db)\<rparr>)"
    using assms(2) by (auto simp: unassign_product_def result_simps split: option.splits)
  note g = get_card_InrD [OF c(1)]
  have "pa_card y = rc_id c" using find_SomeD [OF y] by simp
  moreover have "pa_id a = pa_id y \<Longrightarrow> a = y" if "a \<in> set (product_assignments db)" for a
    using pricing_invD(5) [OF assms(1)] that find_SomeD [OF y]
    by (auto simp: products_ok_def dest: unique_keysD)
  ultimately have keep: "filter (\<lambda>a. pa_card a = j) (row_delete pa_id (pa_id y) (product_assignments db))
      = filter (\<lambda>a. pa_card a = j) (product_assignments db)" if "j \<noteq> rc_id c" for j
    using that by (auto simp: row_delete_def intro!: filter_cong)
  show ?thesis
    using g c pricing_inv_at(2,3) [OF assms(1), of "next_id db'"]
    by (intro scope_inv [OF assms(1), of c]) (auto simp: db' keep center_ids_def product_codes_def card_products_def intro: products_ok_delete product_of_delete)
qed


section \<open>New versions copy their source\<close>

lemma copy_rows_tables [simp]:
  "rate_cards (copy_rows m rs db) = rate_cards db"
  "center_assignments (copy_rows m rs db) = center_assignments db"
  "product_assignments (copy_rows m rs db) = product_assignments db"
  "dimensions (copy_rows m rs db) = dimensions db"
  "matrices (copy_rows m rs db) = matrices db"
  "next_id (copy_rows m rs db) = next_id db + length rs"
  by (induction rs arbitrary: db) (simp_all add: new_id_eq)

lemma copy_each_tables [simp]:
  "rate_cards (copy_each e c a ms db) = rate_cards db"
  "center_assignments (copy_each e c a ms db) = center_assignments db"
  "product_assignments (copy_each e c a ms db) = product_assignments db"
  "dimensions (copy_each e c a ms db) = dimensions db"
  by (induction ms arbitrary: db) (simp_all add: new_id_eq Let_def)

lemma copy_each_next_id: "next_id db \<le> next_id (copy_each e c a ms db)"
proof (induction ms arbitrary: db)
  case (Cons m ms)
  show ?case
    by (simp add: new_id_eq Let_def) (rule order_trans [rotated], rule Cons.IH, simp)
qed simp

lemma copied_rows_ok:
  assumes ok: "rows_ok n ms rs0" and rs: "rs = filter (\<lambda>r. mr_matrix r = k) rs0"
    and xs: "map band xs = map band rs" "map mr_id xs = [n' ..< n' + length rs]" "n \<le> n'"
    and home: "\<forall>x \<in> set xs. mr_matrix x = pm_id m \<and> mr_tenant x = pm_tenant m"
    and m: "m \<in> set ms'" "set ms \<subseteq> set ms'" and fresh: "\<forall>r \<in> set rs0. mr_matrix r \<noteq> pm_id m"
  shows "rows_ok (n' + length rs) ms' (rs0 @ xs)"
proof (rule rows_ok_append)
  have len: "length xs = length rs" using xs(1) by (metis length_map)
  have src: "\<exists>i < length rs. x = xs ! i \<and> band x = band (rs ! i) \<and> mr_id x = n' + i" if x: "x \<in> set xs" for x
  proof -
    obtain i where i: "i < length xs" "x = xs ! i" using x by (metis in_set_conv_nth)
    then have "band (xs ! i) = band (rs ! i)" using xs(1) len by (metis nth_map)
    moreover have "mr_id (xs ! i) = n' + i"
      using arg_cong [OF xs(2), of "\<lambda>l. l ! i"] i len by simp
    ultimately show ?thesis using i len by auto
  qed
  have old: "r \<in> set rs0 \<Longrightarrow> row_ok n ms r" for r using ok by (simp add: rows_ok_def)
  have sub: "rs ! i \<in> set rs0 \<and> mr_matrix (rs ! i) = k" if "i < length rs" for i
    using nth_mem [OF that] by (simp add: rs)
  show "rows_ok n ms' rs0"
    using ok m(2) unfolding rows_ok_def row_ok_def by blast
  show "n \<le> n' + length rs" using xs(3) by simp
  show "distinct (map mr_id xs)" by (simp add: xs(2))
  show "n \<le> mr_id x \<and> row_ok (n' + length rs) ms' x" if x: "x \<in> set xs" for x
  proof -
    obtain i where i: "i < length rs" "band x = band (rs ! i)" "mr_id x = n' + i" using src [OF x] by blast
    show ?thesis
      using old [of "rs ! i"] sub [of i] i home x m(1) xs(3) by (auto simp: row_ok_def band_def)
  qed
  show "\<not> ranges_overlap (mr_from x) (mr_to x) (mr_from y) (mr_to y)"
    if xy: "x \<in> set xs" "y \<in> set xs" "mr_active x" "mr_active y" "mr_id x \<noteq> mr_id y" for x y
  proof -
    obtain i j where i: "i < length rs" "band x = band (rs ! i)" "mr_id x = n' + i"
      and j: "j < length rs" "band y = band (rs ! j)" "mr_id y = n' + j"
      using src xy(1,2) by metis
    have "distinct (map mr_id rs)"
      using ok unique_keys_filter [of mr_id rs0] by (simp add: rs rows_ok_def unique_keys_def)
    then have "mr_id (rs ! i) \<noteq> mr_id (rs ! j)"
      using i j xy(5) by (simp add: distinct_conv_nth)
    then have "\<not> ranges_overlap (mr_from (rs ! i)) (mr_to (rs ! i)) (mr_from (rs ! j)) (mr_to (rs ! j))"
      using ok sub [OF i(1)] sub [OF j(1)] i(2) j(2) xy(3,4)
      by (intro bands_disjointD [of rs0]) (auto simp: rows_ok_def band_def)
    then show ?thesis using i(2) j(2) by (simp add: band_def)
  qed
  show "\<not> ranges_overlap (mr_from x) (mr_to x) (mr_from r) (mr_to r)"
    if "x \<in> set xs" "r \<in> set rs0" "mr_matrix x = mr_matrix r" for x r
    using that home fresh by metis
qed

definition matrix_entry ::
  "matrix_row list \<Rightarrow> pricing_matrix
     \<Rightarrow> string \<times> string \<times> string \<times> string \<times> (nat \<times> pyfloat \<times> pyfloat \<times> decimal \<times> bool) list" where
  "matrix_entry rs m = (pm_name m, pm_product m, pm_product_name m, pm_dimension m,
     map band (filter (\<lambda>r. mr_matrix r = pm_id m) rs))"

definition price_list where
  "price_list db i = map (matrix_entry (matrix_rows db)) (filter (\<lambda>m. pm_card m = i) (matrices db))"

definition slot :: "pricing_matrix \<Rightarrow> string \<times> string" where
  "slot m = (pm_product m, pm_dimension m)"

lemma matrix_entry_append:
  "\<forall>x \<in> set xs. mr_matrix x \<noteq> pm_id m \<Longrightarrow> matrix_entry (rs @ xs) m = matrix_entry rs m"
  by (simp add: matrix_entry_def)

text \<open>One round of the copy: the copy is a matrix of the new card with the same bands, and nothing
  else changes.\<close>

definition copy_step ::
  "env \<Rightarrow> rate_card \<Rightarrow> uuid \<Rightarrow> pricing_matrix \<Rightarrow> 'a pricing_db_scheme \<Rightarrow> 'a pricing_db_scheme" where
  "copy_step e c actor old db = copy_each e c actor [old] db"

lemma copy_each_Cons: "copy_each e c a (m # ms) db = copy_each e c a ms (copy_step e c a m db)"
  by (simp add: copy_step_def Let_def split_def)

definition copies_ok :: "rate_card \<Rightarrow> 'a pricing_db_scheme \<Rightarrow> bool" where
  "copies_ok c db \<longleftrightarrow> c \<in> set (rate_cards db) \<and> rc_status c = Draft
     \<and> matrices_ok (next_id db) (rate_cards db) (matrices db)
     \<and> rows_ok (next_id db) (matrices db) (matrix_rows db)"

lemma copy_step_result:
  assumes ok: "copies_ok c db" and old: "old \<in> set (matrices db)"
    and free: "\<forall>x \<in> set (matrices db). pm_card x = rc_id c \<longrightarrow> slot x \<noteq> slot old"
  obtains m xs where "matrices (copy_step e c a old db) = matrices db @ [m]"
    "matrix_rows (copy_step e c a old db) = matrix_rows db @ xs"
    "pm_card m = rc_id c" "slot m = slot old" "copies_ok c (copy_step e c a old db)"
    "\<forall>x \<in> set (matrices db). matrix_entry (matrix_rows db @ xs) x = matrix_entry (matrix_rows db) x"
    "matrix_entry (matrix_rows db @ xs) m = matrix_entry (matrix_rows db) old"
    "\<forall>y \<in> set xs. \<forall>x \<in> set (matrices db). mr_matrix y \<noteq> pm_id x"
proof -
  let ?n = "next_id db"
  let ?m = "\<lparr>pm_id = ?n, pm_tenant = rc_tenant c, pm_card = rc_id c, pm_name = pm_name old,
             pm_product = pm_product old, pm_product_name = pm_product_name old,
             pm_dimension = pm_dimension old, pm_status = MDraft, pm_version = rc_version c\<rparr>"
  let ?rs = "filter (\<lambda>r. mr_matrix r = pm_id old) (matrix_rows db)"
  let ?db2 = "db\<lparr>next_id := Suc ?n, matrices := matrices db @ [?m]\<rparr>"
  obtain xs where xs: "copy_rows ?m ?rs ?db2 =
        ?db2\<lparr>next_id := Suc ?n + length ?rs, matrix_rows := matrix_rows db @ xs\<rparr>"
      "map band xs = map band ?rs" "map mr_id xs = [Suc ?n ..< Suc ?n + length ?rs]"
      "\<forall>x \<in> set xs. mr_matrix x = pm_id ?m \<and> mr_tenant x = pm_tenant ?m"
    using copy_rows_eq [of ?m ?rs ?db2] by auto
  have step: "matrices (copy_step e c a old db) = matrices db @ [?m]"
    "matrix_rows (copy_step e c a old db) = matrix_rows db @ xs"
    "next_id (copy_step e c a old db) = Suc (Suc ?n + length ?rs)"
    "rate_cards (copy_step e c a old db) = rate_cards db"
    using xs(1) by (simp_all add: copy_step_def new_id_eq Let_def)
  have mok: "matrices_ok ?n (rate_cards db) (matrices db)" and rok: "rows_ok ?n (matrices db) (matrix_rows db)"
    using ok by (simp_all add: copies_ok_def)
  have less: "pm_id x < ?n" if "x \<in> set (matrices db)" for x
    using mok that by (auto simp: matrices_ok_def)
  have fresh: "mr_matrix r \<noteq> ?n" if "r \<in> set (matrix_rows db)" for r
    using rok that less by (force simp: rows_ok_def row_ok_def)
  have "rows_ok (Suc ?n + length ?rs) (matrices db @ [?m]) (matrix_rows db @ xs)"
    using fresh xs(2-4) by (intro copied_rows_ok [OF rok refl]) auto
  moreover have "matrices_ok (Suc (Suc ?n + length ?rs)) (rate_cards db) (matrices db @ [?m])"
    using ok free by (intro matrices_ok_append [OF mok, where c = c])
      (auto simp: copies_ok_def follows_def pm_key_def slot_def)
  ultimately have "copies_ok c (copy_step e c a old db)"
    using ok by (auto simp: copies_ok_def step intro: rows_ok_mono)
  moreover have apart: "\<forall>y \<in> set xs. \<forall>x \<in> set (matrices db). mr_matrix y \<noteq> pm_id x"
    using xs(4) less by force
  moreover have "\<forall>x \<in> set (matrices db). matrix_entry (matrix_rows db @ xs) x = matrix_entry (matrix_rows db) x"
    using apart by (intro ballI matrix_entry_append) force
  moreover have "filter (\<lambda>r. mr_matrix r = ?n) (matrix_rows db) = []"
    using fresh by (simp add: filter_empty_conv)
  then have "matrix_entry (matrix_rows db @ xs) ?m = matrix_entry (matrix_rows db) old"
    using xs(2,4) by (simp add: matrix_entry_def)
  ultimately show thesis
    using that [OF step(1,2)] by (simp add: slot_def)
qed


text \<open>The tables only grew, by matrices of the card \<open>c\<close> and rows of no earlier matrix.\<close>

definition grown :: "rate_card \<Rightarrow> 'a pricing_db_scheme \<Rightarrow> 'a pricing_db_scheme \<Rightarrow> bool" where
  "grown c db db' \<longleftrightarrow>
     (\<exists>ms rs. matrices db' = matrices db @ ms \<and> (\<forall>m \<in> set ms. pm_card m = rc_id c)
        \<and> matrix_rows db' = matrix_rows db @ rs
        \<and> (\<forall>y \<in> set rs. \<forall>x \<in> set (matrices db). mr_matrix y \<noteq> pm_id x))"

lemma grown_trans: "grown c db1 db2 \<Longrightarrow> grown c db2 db3 \<Longrightarrow> grown c db1 db3"
proof -
  assume "grown c db1 db2" "grown c db2 db3"
  then obtain ms rs ms' rs' where
    "matrices db2 = matrices db1 @ ms" "\<forall>m \<in> set ms. pm_card m = rc_id c"
    "matrix_rows db2 = matrix_rows db1 @ rs" "\<forall>y \<in> set rs. \<forall>x \<in> set (matrices db1). mr_matrix y \<noteq> pm_id x"
    "matrices db3 = matrices db2 @ ms'" "\<forall>m \<in> set ms'. pm_card m = rc_id c"
    "matrix_rows db3 = matrix_rows db2 @ rs'" "\<forall>y \<in> set rs'. \<forall>x \<in> set (matrices db2). mr_matrix y \<noteq> pm_id x"
    unfolding grown_def by blast
  then show "grown c db1 db3"
    unfolding grown_def by (intro exI [of _ "ms @ ms'"] exI [of _ "rs @ rs'"]) auto
qed

lemma copy_each_result:
  assumes "copies_ok c db" and "set ms \<subseteq> set (matrices db)" and "distinct (map slot ms)"
    and "\<forall>x \<in> set (matrices db). pm_card x = rc_id c \<longrightarrow> slot x \<notin> slot ` set ms"
  shows "copies_ok c (copy_each e c a ms db)
     \<and> price_list (copy_each e c a ms db) (rc_id c)
         = price_list db (rc_id c) @ map (matrix_entry (matrix_rows db)) ms
     \<and> (\<forall>i. i \<noteq> rc_id c \<longrightarrow> price_list (copy_each e c a ms db) i = price_list db i)
     \<and> grown c db (copy_each e c a ms db)"
  using assms
proof (induction ms arbitrary: db)
  case (Cons old ms)
  have old: "old \<in> set (matrices db)" using Cons.prems(2) by simp
  have free: "\<forall>x \<in> set (matrices db). pm_card x = rc_id c \<longrightarrow> slot x \<noteq> slot old"
    using Cons.prems(4) by auto
  obtain m xs where m: "matrices (copy_step e c a old db) = matrices db @ [m]"
    "matrix_rows (copy_step e c a old db) = matrix_rows db @ xs"
    "pm_card m = rc_id c" "slot m = slot old" "copies_ok c (copy_step e c a old db)"
    "\<forall>x \<in> set (matrices db). matrix_entry (matrix_rows db @ xs) x = matrix_entry (matrix_rows db) x"
    "matrix_entry (matrix_rows db @ xs) m = matrix_entry (matrix_rows db) old"
    "\<forall>y \<in> set xs. \<forall>x \<in> set (matrices db). mr_matrix y \<noteq> pm_id x"
    by (rule copy_step_result [OF Cons.prems(1) old free, of e a]) (rule that)
  let ?db1 = "copy_step e c a old db"
  have "copies_ok c (copy_each e c a ms ?db1)
     \<and> price_list (copy_each e c a ms ?db1) (rc_id c)
         = price_list ?db1 (rc_id c) @ map (matrix_entry (matrix_rows ?db1)) ms
     \<and> (\<forall>i. i \<noteq> rc_id c \<longrightarrow> price_list (copy_each e c a ms ?db1) i = price_list ?db1 i)
     \<and> grown c ?db1 (copy_each e c a ms ?db1)"
    using Cons.prems m by (intro Cons.IH) auto
  moreover have "grown c db ?db1" using m by (auto simp: grown_def)
  moreover have "map (matrix_entry (matrix_rows ?db1)) ms = map (matrix_entry (matrix_rows db)) ms"
    using Cons.prems(2) m(2,6) by auto
  moreover have "price_list ?db1 i = price_list db i @ (if i = rc_id c then [matrix_entry (matrix_rows db) old] else [])" for i
    using m by (auto simp: price_list_def)
  ultimately show ?case unfolding copy_each_Cons by (auto intro: grown_trans)
qed (simp add: price_list_def grown_def)

lemma max_version_ge:
  "c \<in> set (rate_cards db) \<Longrightarrow> rc_version c \<le> max_version db (rc_tenant c) (rc_code c)"
proof -
  have "x \<in> set xs \<Longrightarrow> x \<le> foldr max xs (0::nat)" for x xs
    by (induction xs) auto
  then show "c \<in> set (rate_cards db) \<Longrightarrow> ?thesis" by (auto simp: max_version_def)
qed

lemma center_ids_distinct: "centers_ok n (center_assignments db) \<Longrightarrow> distinct (center_ids db i)"
  by (auto simp: centers_ok_def unique_keys_def center_ids_def distinct_map inj_on_def ca_key_def)

lemma product_codes_distinct: "products_ok n (product_assignments db) \<Longrightarrow> distinct (product_codes db i)"
  by (auto simp: products_ok_def unique_keys_def product_codes_def card_products_def distinct_map
      inj_on_def pa_key_def)

lemma slots_distinct:
  "matrices_ok n cs ms \<Longrightarrow> distinct (map slot (filter (\<lambda>m. pm_card m = i) ms))"
  by (auto simp: matrices_ok_def unique_keys_def slot_def distinct_map inj_on_def pm_key_def)

text \<open>The run of \<open>new_version\<close>: the card it creates, the scope rows it adds and the price list.\<close>

lemma new_version_run:
  assumes inv: "pricing_inv db" and run: "new_version e i a db = Inr (c, db')"
  obtains source xs ps where "get_card e db i = Inr source"
    "rc_status source = Published \<or> rc_status source = Archived"
    "find (\<lambda>d. rc_tenant d = rc_tenant c \<and> rc_code d = rc_code c \<and> is_open (rc_status d)) (rate_cards db) = None"
    "c = source\<lparr>rc_id := next_id db, rc_status := Draft, rc_published_at := None, rc_archived_at := None,
           rc_version := Suc (if max_version db (rc_tenant source) (rc_code source) = 0
             then rc_version source else max_version db (rc_tenant source) (rc_code source))\<rparr>"
    "rate_cards db' = rate_cards db @ [c]" "dimensions db' = dimensions db"
    "center_assignments db' = center_assignments db @ xs" "map ca_center xs = center_ids db i"
    "\<forall>x \<in> set xs. ca_card x = next_id db \<and> next_id db \<le> ca_id x \<and> ca_id x < next_id db'"
    "distinct (map ca_id xs)"
    "product_assignments db' = product_assignments db @ ps" "map pa_product ps = product_codes db i"
    "\<forall>x \<in> set ps. pa_card x = next_id db \<and> next_id db \<le> pa_id x \<and> pa_id x < next_id db'"
    "distinct (map pa_id ps)"
    "copies_ok c db'" "price_list db' (next_id db) = price_list db i"
    "grown c db db'" "next_id db < next_id db'"
proof -
  let ?n = "next_id db"
  obtain source where g: "get_card e db i = Inr source"
    and st: "rc_status source = Published \<or> rc_status source = Archived"
    and closed: "find (\<lambda>d. rc_tenant d = rc_tenant source \<and> rc_code d = rc_code source
                   \<and> is_open (rc_status d)) (rate_cards db) = None"
    and c: "c = source\<lparr>rc_id := ?n, rc_status := Draft, rc_published_at := None, rc_archived_at := None,
           rc_version := Suc (if max_version db (rc_tenant source) (rc_code source) = 0
             then rc_version source else max_version db (rc_tenant source) (rc_code source))\<rparr>"
    and db': "db' = (let db2 = db\<lparr>next_id := Suc ?n, rate_cards := rate_cards db @ [c]\<rparr>;
                         db3 = copy_centers c (center_ids db2 (rc_id source)) db2;
                         db4 = copy_products c (card_products db3 (rc_id source)) db3
                     in record_card e c ''RateCardCreated''
                          [(''version'', JInt (int (rc_version c))),
                           (''source_version'', JInt (int (rc_version source)))] a
                          (copy_matrices e source c a db4))"
    using run by (auto simp: new_version_def new_id_eq Let_def result_simps split: if_splits)
  have src: "source \<in> set (rate_cards db)" "rc_id source = i" using get_card_InrD [OF g] by auto
  let ?db2 = "db\<lparr>next_id := Suc ?n, rate_cards := rate_cards db @ [c]\<rparr>"
  obtain xs where xs: "copy_centers c (center_ids db i) ?db2 =
          ?db2\<lparr>next_id := Suc ?n + length (center_ids db i), center_assignments := center_assignments db @ xs\<rparr>"
      "map ca_center xs = center_ids db i"
      "map ca_id xs = [Suc ?n ..< Suc ?n + length (center_ids db i)]" "\<forall>x \<in> set xs. ca_card x = ?n"
    using copy_centers_eq [of c "center_ids db i" ?db2] by (auto simp: c)
  let ?k = "Suc ?n + length (center_ids db i)"
  let ?db3 = "?db2\<lparr>next_id := ?k, center_assignments := center_assignments db @ xs\<rparr>"
  obtain ps where ps: "copy_products c (card_products db i) ?db3 =
          ?db3\<lparr>next_id := ?k + length (card_products db i), product_assignments := product_assignments db @ ps\<rparr>"
      "map pa_product ps = product_codes db i"
      "map pa_id ps = [?k ..< ?k + length (card_products db i)]" "\<forall>x \<in> set ps. pa_card x = ?n"
    using copy_products_eq [of c "card_products db i" ?db3] by (auto simp: c product_codes_def)
  let ?db4 = "?db3\<lparr>next_id := ?k + length (card_products db i), product_assignments := product_assignments db @ ps\<rparr>"
  let ?ms = "filter (\<lambda>m. pm_card m = i) (matrices db)"
  have db5: "db' = record_card e c ''RateCardCreated''
                     [(''version'', JInt (int (rc_version c))),
                      (''source_version'', JInt (int (rc_version source)))] a (copy_each e c a ?ms ?db4)"
    using xs(1) ps(1) src(2)
    by (simp add: db' Let_def copy_matrices_def center_ids_def card_products_def)
  have n5: "next_id ?db4 \<le> next_id (copy_each e c a ?ms ?db4)" by (rule copy_each_next_id)
  have "matrices_ok (next_id ?db4) (rate_cards db @ [c]) (matrices db)"
    using pricing_inv_at(4) [OF inv, of "next_id ?db4"] by (simp add: matrices_ok_append_card)
  then have c4: "copies_ok c ?db4"
    using pricing_inv_at(5) [OF inv, of "next_id ?db4"] by (simp add: copies_ok_def c)
  have "pm_card m < ?n" if "m \<in> set (matrices db)" for m
    using pricing_invD(1,8) [OF inv] that by (auto simp: matrices_ok_def follows_def cards_ok_def)
  then have none: "\<forall>x \<in> set (matrices ?db4). pm_card x \<noteq> rc_id c" by (force simp: c)
  then have "filter (\<lambda>m. pm_card m = ?n) (matrices db) = []"
    by (simp add: filter_empty_conv c)
  then have empty: "price_list ?db4 ?n = []" by (simp add: price_list_def)
  have copied: "copies_ok c (copy_each e c a ?ms ?db4)
     \<and> price_list (copy_each e c a ?ms ?db4) (rc_id c)
         = price_list ?db4 (rc_id c) @ map (matrix_entry (matrix_rows ?db4)) ?ms
     \<and> (\<forall>j. j \<noteq> rc_id c \<longrightarrow> price_list (copy_each e c a ?ms ?db4) j = price_list ?db4 j)
     \<and> grown c ?db4 (copy_each e c a ?ms ?db4)"
    using none slots_distinct [OF pricing_invD(8) [OF inv], of i]
    by (intro copy_each_result [OF c4]) auto
  have same: "price_list db' j = price_list (copy_each e c a ?ms ?db4) j" for j
    by (simp add: db5 price_list_def)
  have other: "price_list ?db4 j = price_list db j" for j by (simp add: price_list_def)
  have id: "rc_id c = ?n" by (simp add: c)
  show thesis
  proof (rule that [OF g st _ c _ _ _ xs(2) _ _ _ ps(2)])
    have "Suc ?n \<le> ca_id x \<and> ca_id x < ?k" if "x \<in> set xs" for x
      using imageI [OF that, of ca_id] unfolding set_map [symmetric] xs(3) by (simp del: upt_Suc)
    then show "\<forall>x \<in> set xs. ca_card x = ?n \<and> ?n \<le> ca_id x \<and> ca_id x < next_id db'"
      using xs(4) n5 by (force simp: db5)
    have "?k \<le> pa_id x \<and> pa_id x < ?k + length (card_products db i)" if "x \<in> set ps" for x
      using imageI [OF that, of pa_id] unfolding set_map [symmetric] ps(3) by (simp del: upt_Suc)
    then show "\<forall>x \<in> set ps. pa_card x = ?n \<and> ?n \<le> pa_id x \<and> pa_id x < next_id db'"
      using ps(4) n5 by (force simp: db5)
    show "distinct (map ca_id xs)" by (simp add: xs(3))
    show "distinct (map pa_id ps)" by (simp add: ps(3))
    show "copies_ok c db'"
      using copied by (auto simp: copies_ok_def db5 intro: conditions_mono)
    show "price_list db' ?n = price_list db i"
      using copied empty id by (simp add: same) (simp add: price_list_def)
    show "grown c db db'" using copied by (simp add: grown_def db5)
    show "find (\<lambda>d. rc_tenant d = rc_tenant c \<and> rc_code d = rc_code c \<and> is_open (rc_status d)) (rate_cards db) = None"
      using closed by (simp add: c)
  qed (use n5 in \<open>auto simp: db5\<close>)
qed

lemma new_version_inv:
  assumes inv: "pricing_inv db" and run: "new_version e i a db = Inr (c, db')"
  shows "pricing_inv db' \<and> honours db db'"
proof -
  note i = pricing_invD [OF inv]
  let ?n = "next_id db"
  obtain source xs ps where g: "get_card e db i = Inr source"
    and closed: "find (\<lambda>d. rc_tenant d = rc_tenant c \<and> rc_code d = rc_code c \<and> is_open (rc_status d)) (rate_cards db) = None"
    and c: "c = source\<lparr>rc_id := ?n, rc_status := Draft, rc_published_at := None, rc_archived_at := None,
           rc_version := Suc (if max_version db (rc_tenant source) (rc_code source) = 0
             then rc_version source else max_version db (rc_tenant source) (rc_code source))\<rparr>"
    and t: "rate_cards db' = rate_cards db @ [c]" "dimensions db' = dimensions db"
    and xs: "center_assignments db' = center_assignments db @ xs" "map ca_center xs = center_ids db i"
      "\<forall>x \<in> set xs. ca_card x = ?n \<and> ?n \<le> ca_id x \<and> ca_id x < next_id db'" "distinct (map ca_id xs)"
    and ps: "product_assignments db' = product_assignments db @ ps" "map pa_product ps = product_codes db i"
      "\<forall>x \<in> set ps. pa_card x = ?n \<and> ?n \<le> pa_id x \<and> pa_id x < next_id db'" "distinct (map pa_id ps)"
    and copied: "copies_ok c db'" "grown c db db'" and n: "?n < next_id db'"
    by (rule new_version_run [OF inv run]) (rule that)
  have src: "source \<in> set (rate_cards db)" using get_card_InrD [OF g] by auto
  have fresh: "rc_id d \<noteq> ?n" if "d \<in> set (rate_cards db)" for d
    using i(1) that by (auto simp: cards_ok_def)
  have "version_key c \<noteq> version_key d" if "d \<in> set (rate_cards db)" for d
    using max_version_ge [OF that] by (auto simp: version_key_def c)
  then have "version_key c \<notin> version_key ` set (rate_cards db)" by auto
  then have "cards_ok (Suc ?n) (rate_cards db @ [c])"
    by (intro cards_ok_append i(1)) (simp_all add: c)
  moreover have "open_ok (rate_cards db @ [c])"
    using closed by (intro open_ok_append i(2)) (auto simp: find_None_ball)
  moreover have "currencies_ok (rate_cards db @ [c])"
    using i(3) src by (auto simp: currencies_ok_def c)
  moreover have "\<not> center_of (center_assignments db) ?n k" "\<not> product_of (product_assignments db) ?n p" for k p
    using i(4,5) by (auto simp: center_of_def product_of_def centers_ok_def products_ok_def)
  then have "centers_ok (next_id db') (center_assignments db @ xs)"
      and "products_ok (next_id db') (product_assignments db @ ps)"
    using xs ps n center_ids_distinct [OF i(4)] product_codes_distinct [OF i(5)]
    by (auto intro!: centers_ok_append [OF i(4), where c = ?n] products_ok_append [OF i(5), where c = ?n])
  moreover have "windows_ok (rate_cards db @ [c]) (center_assignments db @ xs) (product_assignments db @ ps)"
  proof (rule windows_ok_scope [OF windows_ok_append [OF i(6)]])
    fix d k assume "d \<in> set (rate_cards db @ [c])" "rc_status d = Published"
    then have "rc_id d \<noteq> ?n" using fresh by (auto simp: c)
    then show "center_of (center_assignments db @ xs) (rc_id d) k \<Longrightarrow> center_of (center_assignments db) (rc_id d) k"
      using xs(3) by (auto simp: center_of_def)
  next
    fix d k assume "d \<in> set (rate_cards db @ [c])" "rc_status d = Published"
    then have "rc_id d \<noteq> ?n" using fresh by (auto simp: c)
    then show "product_of (product_assignments db @ ps) (rc_id d) k \<Longrightarrow> product_of (product_assignments db) (rc_id d) k"
      using ps(3) by (auto simp: product_of_def)
  qed (simp add: c)
  ultimately have "pricing_inv db'"
    using copied i(7) n cards_ok_mono [of "Suc ?n" "rate_cards db @ [c]" "next_id db'"]
    by (simp add: pricing_inv_def t xs(1) ps(1) copies_ok_def)
  moreover have "honours db db'"
  proof (rule honours_grow [of _ _ "[c]" "[]"])
    fix d assume "d \<in> set (rate_cards db)"
    then have ne: "rc_id d \<noteq> ?n" by (rule fresh)
    obtain ms rs where grown: "matrices db' = matrices db @ ms" "\<forall>m \<in> set ms. pm_card m = ?n"
      "matrix_rows db' = matrix_rows db @ rs" "\<forall>y \<in> set rs. \<forall>x \<in> set (matrices db). mr_matrix y \<noteq> pm_id x"
      using copied(2) by (auto simp: grown_def c)
    have "filter (\<lambda>m. pm_card m = rc_id d) ms = []" using grown(2) ne by (simp add: filter_empty_conv)
    moreover have "filter (\<lambda>r. mr_matrix r = pm_id m) rs = []" if "m \<in> set (matrices db)" for m
      using grown(4) that by (auto simp: filter_empty_conv)
    ultimately have "price_data db' (rc_id d) = price_data db (rc_id d)"
      by (simp add: price_data_def grown(1,3))
    moreover have "filter (\<lambda>a. ca_card a = rc_id d) xs = []" "filter (\<lambda>p. pa_card p = rc_id d) ps = []"
      using xs(3) ps(3) ne by (auto simp: filter_empty_conv)
    ultimately show "center_ids db' (rc_id d) = center_ids db (rc_id d)
           \<and> product_codes db' (rc_id d) = product_codes db (rc_id d)
           \<and> price_data db' (rc_id d) = price_data db (rc_id d)"
      by (simp add: center_ids_def product_codes_def card_products_def xs(1) ps(1))
  qed (simp_all add: t c)
  ultimately show ?thesis ..
qed

end
