(* ===== verification/Matrices.thy ===== *)
theory Matrices
  imports RateCards
begin

text \<open>
  The pricing matrix service (\<open>modules/pricing/matrix.py\<close>): quality dimensions, the matrices of a
  draft card and their price bands (BR-0004: active bands of a matrix never overlap), and the
  detail view with the gaps between consecutive active bands.
\<close>

section \<open>Commands\<close>

record dimension_input =
  di_code :: string
  di_name :: string
  di_unit :: string
  di_min :: "pyfloat option"
  di_max :: "pyfloat option"

definition dimension_pattern :: "string \<Rightarrow> bool" where
  "dimension_pattern s \<longleftrightarrow>
     (case s of [] \<Rightarrow> False | c # cs \<Rightarrow> (is_upper c \<or> is_lower c) \<and> code_pattern 28 s)"

definition DimensionInput ::
  "string \<Rightarrow> string \<Rightarrow> string \<Rightarrow> pyfloat option \<Rightarrow> pyfloat option \<Rightarrow> dimension_input result" where
  "DimensionInput code name unit mn mx =
     (if \<not> dimension_pattern code then Inl (ValueError ''code'')
      else if length name < 2 \<or> 100 < length name then Inl (ValueError ''name'')
      else if 20 < length unit then Inl (ValueError ''unit'')
      else if (case (mn, mx) of (Some a, Some b) \<Rightarrow> b \<le> a | _ \<Rightarrow> False)
        then Inl (ValueError ''max_value must be greater than min_value'')
      else Inr \<lparr>di_code = str_upper code, di_name = name, di_unit = unit, di_min = mn, di_max = mx\<rparr>)"

record matrix_input =
  mi_name :: string
  mi_product :: string
  mi_product_name :: string
  mi_dimension :: string

definition MatrixInput :: "string \<Rightarrow> string \<Rightarrow> string \<Rightarrow> string \<Rightarrow> matrix_input result" where
  "MatrixInput name product product_name dimn =
     (if length name < 2 \<or> 200 < length name then Inl (ValueError ''name'')
      else if length product < 2 \<or> 40 < length product then Inl (ValueError ''product_code'')
      else if 120 < length product_name then Inl (ValueError ''product_name'')
      else if length dimn < 2 \<or> 30 < length dimn then Inl (ValueError ''dimension_code'')
      else Inr \<lparr>mi_name = name, mi_product = str_upper product, mi_product_name = product_name,
                mi_dimension = str_upper dimn\<rparr>)"

record row_input =
  wi_from :: pyfloat
  wi_to :: pyfloat
  wi_price :: decimal
  wi_sequence :: "nat option"
  wi_active :: bool

definition RowInput ::
  "pyfloat \<Rightarrow> pyfloat \<Rightarrow> decimal \<Rightarrow> nat option \<Rightarrow> bool \<Rightarrow> row_input result" where
  "RowInput from to price seq active =
     (if price \<le> 0 then Inl (ValueError ''unit_price'')
      else if seq = Some 0 then Inl (ValueError ''sequence'')
      else if to \<le> from then Inl (ValueError ''to_value must be greater than from_value'')
      else Inr \<lparr>wi_from = from, wi_to = to, wi_price = price, wi_sequence = seq, wi_active = active\<rparr>)"

section \<open>Quality dimensions\<close>

definition DEFAULT_DIMENSIONS :: "(string \<times> string \<times> string \<times> pyfloat \<times> pyfloat) list" where
  "DEFAULT_DIMENSIONS =
     [(''FAT'', ''Fat'', ''%'', 0, 15),
      (''SNF'', ''Solids-Not-Fat'', ''%'', 0, 15),
      (''CLR'', ''Corrected Lactometer Reading'', CHR 0xB0 # ''CLR'', 20, 40),
      (''DENSITY'', ''Density'', ''g/ml'', 1, double (115 / 100)),
      (''PROTEIN'', ''Protein'', ''%'', 0, 10),
      (''MOISTURE'', ''Moisture'', ''%'', 0, 100),
      (''ACIDITY'', ''Titratable Acidity'', ''%LA'', 0, 2)]"

definition add_dimension ::
  "uuid \<Rightarrow> string \<Rightarrow> string \<Rightarrow> string \<Rightarrow> pyfloat option \<Rightarrow> pyfloat option
     \<Rightarrow> 'a pricing_db_scheme \<Rightarrow> quality_dimension \<times> 'a pricing_db_scheme" where
  "add_dimension tenant code name unit mn mx db =
     (let (i, db1) = new_id db;
          d = \<lparr>qd_id = i, qd_tenant = tenant, qd_code = code, qd_name = name, qd_unit = unit,
               qd_min = mn, qd_max = mx, qd_active = True\<rparr>
      in (d, db1\<lparr>dimensions := dimensions db1 @ [d]\<rparr>))"

definition ensure_default_dimensions :: "uuid \<Rightarrow> 'a pricing_db_scheme \<Rightarrow> 'a pricing_db_scheme" where
  "ensure_default_dimensions tenant db =
     (if list_ex (\<lambda>d. qd_tenant d = tenant) (dimensions db) then db
      else foldl (\<lambda>db (code, name, unit, mn, mx).
               snd (add_dimension tenant code name unit (Some mn) (Some mx) db)) db DEFAULT_DIMENSIONS)"

definition find_dimension :: "uuid \<Rightarrow> string \<Rightarrow> quality_dimension list \<Rightarrow> quality_dimension option" where
  "find_dimension tenant code ds = find (\<lambda>d. qd_tenant d = tenant \<and> qd_code d = code) ds"

definition list_dimensions ::
  "env \<Rightarrow> 'a pricing_db_scheme \<Rightarrow> (quality_dimension list \<times> 'a pricing_db_scheme) result" where
  "list_dimensions e db =
     andthen (require_current_tenant e) (\<lambda>tenant.
       let db1 = ensure_default_dimensions tenant db in
       Inr (sort_key qd_code (filter (\<lambda>d. qd_tenant d = tenant) (dimensions db1)), db1))"

definition create_dimension ::
  "env \<Rightarrow> dimension_input \<Rightarrow> uuid \<Rightarrow> 'a pricing_db_scheme
     \<Rightarrow> (quality_dimension \<times> 'a pricing_db_scheme) result" where
  "create_dimension e cmd actor db =
     andthen (require_current_tenant e) (\<lambda>tenant.
       let db1 = ensure_default_dimensions tenant db in
       if find_dimension tenant (di_code cmd) (dimensions db1) \<noteq> None
         then Inl (ConflictError ''quality dimension code already exists'')
       else
         let (d, db2) = add_dimension tenant (di_code cmd) (di_name cmd) (di_unit cmd) (di_min cmd)
                          (di_max cmd) db1
         in Inr (d, audit e ''pricing.dimension_created'' ''quality_dimension'' (qd_id d) (Some actor)
                      [(''code'', JStr (qd_code d))] db2))"

text \<open>\<open>_get_dimension\<close> seeds the defaults on first use, so it returns the state as well.\<close>

definition get_dimension ::
  "uuid \<Rightarrow> string \<Rightarrow> 'a pricing_db_scheme \<Rightarrow> (quality_dimension \<times> 'a pricing_db_scheme) result" where
  "get_dimension tenant code db =
     (let db1 = ensure_default_dimensions tenant db in
      case find_dimension tenant code (dimensions db1) of
        None \<Rightarrow> Inl (NotFoundError ''quality dimension not found'')
      | Some d \<Rightarrow> if \<not> qd_active d then Inl (NotFoundError ''quality dimension not found'')
                  else Inr (d, db1))"

section \<open>Helpers\<close>

definition get_matrix :: "env \<Rightarrow> 'a pricing_db_scheme \<Rightarrow> uuid \<Rightarrow> pricing_matrix result" where
  "get_matrix e db i =
     andthen (require_current_tenant e) (\<lambda>tenant.
       case row_get pm_id i (matrices db) of
         None \<Rightarrow> Inl (NotFoundError ''pricing matrix not found'')
       | Some m \<Rightarrow> if pm_tenant m \<noteq> tenant then Inl (NotFoundError ''pricing matrix not found'') else Inr m)"

definition require_card_draft :: "rate_card \<Rightarrow> unit result" where
  "require_card_draft c =
     (if rc_status c \<noteq> Draft
        then Inl (ConflictError ''pricing matrices are editable only while the rate card is draft'')
      else Inr ())"

definition editable_matrix ::
  "env \<Rightarrow> 'a pricing_db_scheme \<Rightarrow> uuid \<Rightarrow> (pricing_matrix \<times> rate_card) result" where
  "editable_matrix e db i =
     andthen (get_matrix e db i) (\<lambda>m.
     andthen (need (NotFoundError ''rate card not found'') (row_get rc_id (pm_card m) (rate_cards db))) (\<lambda>c.
     andthen (require_card_draft c) (\<lambda>_. Inr (m, c))))"

definition require_product_in_scope :: "'a pricing_db_scheme \<Rightarrow> rate_card \<Rightarrow> string \<Rightarrow> unit result" where
  "require_product_in_scope db c product =
     (if find (\<lambda>p. pa_card p = rc_id c \<and> pa_product p = product) (product_assignments db) = None
        then Inl (ConflictError ''product is not assigned to this rate card'')
      else Inr ())"

definition rows_of :: "'a pricing_db_scheme \<Rightarrow> uuid \<Rightarrow> matrix_row list" where
  "rows_of db i = filter (\<lambda>r. mr_matrix r = i) (matrix_rows db)"

definition get_row :: "'a pricing_db_scheme \<Rightarrow> uuid \<Rightarrow> uuid \<Rightarrow> matrix_row result" where
  "get_row db i rid =
     (case row_get mr_id rid (matrix_rows db) of
        None \<Rightarrow> Inl (NotFoundError ''pricing matrix row not found'')
      | Some r \<Rightarrow> if mr_matrix r \<noteq> i then Inl (NotFoundError ''pricing matrix row not found'') else Inr r)"

definition require_within_bounds :: "row_input \<Rightarrow> quality_dimension \<Rightarrow> unit result" where
  "require_within_bounds cmd d =
     (if (case qd_min d of None \<Rightarrow> False | Some mn \<Rightarrow> wi_from cmd < mn)
        then Inl (ConflictError ''from_value is below the minimum'')
      else if (case qd_max d of None \<Rightarrow> False | Some mx \<Rightarrow> mx < wi_to cmd)
        then Inl (ConflictError ''to_value is above the maximum'')
      else Inr ())"

definition require_no_overlap ::
  "'a pricing_db_scheme \<Rightarrow> uuid \<Rightarrow> row_input \<Rightarrow> uuid option \<Rightarrow> unit result" where
  "require_no_overlap db i cmd exclude =
     (if \<not> wi_active cmd then Inr ()
      else if list_ex (\<lambda>r. Some (mr_id r) \<noteq> exclude \<and> mr_active r
                \<and> ranges_overlap (wi_from cmd) (wi_to cmd) (mr_from r) (mr_to r)) (rows_of db i)
        then Inl (ConflictError ''range overlaps an existing band'')
      else Inr ())"

definition record_matrix ::
  "env \<Rightarrow> pricing_matrix \<Rightarrow> string \<Rightarrow> payload \<Rightarrow> uuid \<Rightarrow> 'a pricing_db_scheme \<Rightarrow> 'a pricing_db_scheme" where
  "record_matrix e m event data actor db =
     publish e (bus_name MATRIX_BUS_EVENTS event)
       ([(''matrix_id'', JId (pm_id m)), (''rate_card_id'', JId (pm_card m)),
         (''product_code'', JStr (pm_product m)), (''dimension_code'', JStr (pm_dimension m))] @ data)
       (Some actor) (Some ''pricing_matrix'') (Some (pm_id m))
     (audit e (''pricing.matrix_'' @ str_lower (removeprefix ''PricingMatrix'' event)) ''pricing_matrix''
       (pm_id m) (Some actor)
       ([(''product'', JStr (pm_product m)), (''dimension'', JStr (pm_dimension m))] @ data) db)"

section \<open>Matrices\<close>

definition slot_taken :: "'a pricing_db_scheme \<Rightarrow> uuid \<Rightarrow> matrix_input \<Rightarrow> uuid option \<Rightarrow> bool" where
  "slot_taken db c cmd exclude \<longleftrightarrow>
     find (\<lambda>m. pm_card m = c \<and> pm_product m = mi_product cmd \<and> pm_dimension m = mi_dimension cmd
             \<and> Some (pm_id m) \<noteq> exclude) (matrices db) \<noteq> None"

definition create_matrix ::
  "env \<Rightarrow> uuid \<Rightarrow> matrix_input \<Rightarrow> uuid \<Rightarrow> 'a pricing_db_scheme
     \<Rightarrow> (pricing_matrix \<times> 'a pricing_db_scheme) result" where
  "create_matrix e cid cmd actor db =
     andthen (get_card e db cid) (\<lambda>c.
     andthen (require_card_draft c) (\<lambda>_.
     andthen (require_product_in_scope db c (mi_product cmd)) (\<lambda>_.
     andthen (get_dimension (rc_tenant c) (mi_dimension cmd) db) (\<lambda>(_, db1).
     if slot_taken db1 (rc_id c) cmd None
       then Inl (ConflictError ''this rate card already has a matrix for that product and dimension'')
     else
       let (i, db2) = new_id db1;
           m = \<lparr>pm_id = i, pm_tenant = rc_tenant c, pm_card = rc_id c, pm_name = mi_name cmd,
                pm_product = mi_product cmd, pm_product_name = mi_product_name cmd,
                pm_dimension = mi_dimension cmd, pm_status = MDraft, pm_version = rc_version c\<rparr>
       in Inr (m, record_matrix e m ''PricingMatrixCreated'' [] actor
                    (db2\<lparr>matrices := matrices db2 @ [m]\<rparr>))))))"

definition update_matrix ::
  "env \<Rightarrow> uuid \<Rightarrow> matrix_input \<Rightarrow> uuid \<Rightarrow> 'a pricing_db_scheme
     \<Rightarrow> (pricing_matrix \<times> 'a pricing_db_scheme) result" where
  "update_matrix e i cmd actor db =
     andthen (editable_matrix e db i) (\<lambda>(m, c).
     andthen (if mi_dimension cmd \<noteq> pm_dimension m then
                if rows_of db (pm_id m) \<noteq> []
                  then Inl (ConflictError ''cannot change the dimension of a matrix that has rows'')
                else andthen (get_dimension (rc_tenant c) (mi_dimension cmd) db) (\<lambda>(_, db1). Inr db1)
              else Inr db) (\<lambda>db1.
     andthen (if mi_product cmd \<noteq> pm_product m then require_product_in_scope db1 c (mi_product cmd)
              else Inr ()) (\<lambda>_.
     if (mi_product cmd, mi_dimension cmd) \<noteq> (pm_product m, pm_dimension m)
        \<and> slot_taken db1 (rc_id c) cmd (Some (pm_id m))
       then Inl (ConflictError ''this rate card already has a matrix for that product and dimension'')
     else
       let m' = m\<lparr>pm_name := mi_name cmd, pm_product := mi_product cmd,
                  pm_product_name := mi_product_name cmd, pm_dimension := mi_dimension cmd\<rparr>
       in Inr (m', record_matrix e m' ''PricingMatrixUpdated'' [] actor (put_matrix m' db1)))))"

text \<open>The rows are deleted first, then the matrix.\<close>

definition delete_matrix ::
  "env \<Rightarrow> uuid \<Rightarrow> uuid \<Rightarrow> 'a pricing_db_scheme \<Rightarrow> (unit \<times> 'a pricing_db_scheme) result" where
  "delete_matrix e i actor db =
     andthen (editable_matrix e db i) (\<lambda>(m, _).
       let db1 = foldl (\<lambda>db r. db\<lparr>matrix_rows := row_delete mr_id (mr_id r) (matrix_rows db)\<rparr>) db
                   (rows_of db (pm_id m));
           db2 = record_matrix e m ''PricingMatrixArchived'' [(''deleted'', JBool True)] actor db1
       in Inr ((), db2\<lparr>matrices := row_delete pm_id (pm_id m) (matrices db2)\<rparr>))"

section \<open>Rows\<close>

definition max_sequence :: "matrix_row list \<Rightarrow> nat" where
  "max_sequence rs = foldr max (map mr_sequence rs) 0"

definition add_row ::
  "env \<Rightarrow> uuid \<Rightarrow> row_input \<Rightarrow> uuid \<Rightarrow> 'a pricing_db_scheme
     \<Rightarrow> (matrix_row \<times> 'a pricing_db_scheme) result" where
  "add_row e i cmd actor db =
     andthen (editable_matrix e db i) (\<lambda>(m, c).
     andthen (get_dimension (rc_tenant c) (pm_dimension m) db) (\<lambda>(d, db1).
     andthen (require_within_bounds cmd d) (\<lambda>_.
     andthen (require_no_overlap db1 (pm_id m) cmd None) (\<lambda>_.
     andthen (store_price (wi_price cmd)) (\<lambda>price.
       let sq = (case wi_sequence cmd of Some s \<Rightarrow> s
                 | None \<Rightarrow> max_sequence (rows_of db1 (pm_id m)) + 1);
           (rid, db2) = new_id db1;
           r = \<lparr>mr_id = rid, mr_tenant = pm_tenant m, mr_matrix = pm_id m, mr_sequence = sq,
                mr_from = wi_from cmd, mr_to = wi_to cmd, mr_price = price, mr_active = wi_active cmd\<rparr>
       in Inr (r, record_matrix e m ''PricingMatrixRowCreated''
                    [(''row_id'', JId rid), (''from'', JFloat (wi_from cmd)), (''to'', JFloat (wi_to cmd))] actor
                    (db2\<lparr>matrix_rows := matrix_rows db2 @ [r]\<rparr>)))))))"

definition update_row ::
  "env \<Rightarrow> uuid \<Rightarrow> uuid \<Rightarrow> row_input \<Rightarrow> uuid \<Rightarrow> 'a pricing_db_scheme
     \<Rightarrow> (matrix_row \<times> 'a pricing_db_scheme) result" where
  "update_row e i rid cmd actor db =
     andthen (editable_matrix e db i) (\<lambda>(m, c).
     andthen (get_row db (pm_id m) rid) (\<lambda>r.
     andthen (get_dimension (rc_tenant c) (pm_dimension m) db) (\<lambda>(d, db1).
     andthen (require_within_bounds cmd d) (\<lambda>_.
     andthen (require_no_overlap db1 (pm_id m) cmd (Some (mr_id r))) (\<lambda>_.
     andthen (store_price (wi_price cmd)) (\<lambda>price.
       let r' = r\<lparr>mr_from := wi_from cmd, mr_to := wi_to cmd, mr_price := price, mr_active := wi_active cmd,
                  mr_sequence := (case wi_sequence cmd of Some s \<Rightarrow> s | None \<Rightarrow> mr_sequence r)\<rparr>
       in Inr (r', record_matrix e m ''PricingMatrixRowUpdated'' [(''row_id'', JId (mr_id r))] actor
                     (db1\<lparr>matrix_rows := row_update mr_id (mr_id r) (\<lambda>_. r') (matrix_rows db1)\<rparr>))))))))"

definition delete_row ::
  "env \<Rightarrow> uuid \<Rightarrow> uuid \<Rightarrow> uuid \<Rightarrow> 'a pricing_db_scheme \<Rightarrow> (unit \<times> 'a pricing_db_scheme) result" where
  "delete_row e i rid actor db =
     andthen (editable_matrix e db i) (\<lambda>(m, _).
     andthen (get_row db (pm_id m) rid) (\<lambda>r.
       Inr ((), record_matrix e m ''PricingMatrixRowDeleted'' [(''row_id'', JId (mr_id r))] actor
                  (db\<lparr>matrix_rows := row_delete mr_id (mr_id r) (matrix_rows db)\<rparr>))))"

section \<open>The detail view\<close>

definition active_sorted :: "matrix_row list \<Rightarrow> matrix_row list" where
  "active_sorted rs = sort_key (\<lambda>r. mr_from r) (sort_key (\<lambda>r. mr_to r) (filter mr_active rs))"

text \<open>The gaps between consecutive active bands.\<close>

fun gaps :: "matrix_row list \<Rightarrow> (pyfloat \<times> pyfloat) list" where
  "gaps (a # b # rs) = (if mr_to a < mr_from b then [(mr_to a, mr_from b)] else []) @ gaps (b # rs)"
| "gaps _ = []"

definition matrix_gaps :: "'a pricing_db_scheme \<Rightarrow> uuid \<Rightarrow> (pyfloat \<times> pyfloat) list" where
  "matrix_gaps db i = gaps (active_sorted (rows_of db i))"


section \<open>The invariant is kept\<close>

lemma record_matrix_tables [simp]:
  "rate_cards (record_matrix e m n d a db) = rate_cards db"
  "center_assignments (record_matrix e m n d a db) = center_assignments db"
  "product_assignments (record_matrix e m n d a db) = product_assignments db"
  "dimensions (record_matrix e m n d a db) = dimensions db"
  "matrices (record_matrix e m n d a db) = matrices db"
  "matrix_rows (record_matrix e m n d a db) = matrix_rows db"
  "next_id (record_matrix e m n d a db) = Suc (next_id db)"
  by (simp_all add: record_matrix_def)

abbreviation qd_key :: "quality_dimension \<Rightarrow> uuid \<times> string" where
  "qd_key d \<equiv> (qd_tenant d, qd_code d)"

lemma seed_eq:
  "\<exists>ds. foldl (\<lambda>db (code, name, unit, mn, mx).
           snd (add_dimension t code name unit (Some mn) (Some mx) db)) db specs
         = db\<lparr>next_id := next_id db + length ds, dimensions := dimensions db @ ds\<rparr>
     \<and> map qd_key ds = map (\<lambda>s. (t, fst s)) specs
     \<and> map qd_unit ds = map (\<lambda>s. fst (snd (snd s))) specs"
proof (induction specs arbitrary: db)
  case (Cons s specs)
  obtain code name unit mn mx where s: "s = (code, name, unit, mn, mx)" by (cases s)
  let ?d = "\<lparr>qd_id = next_id db, qd_tenant = t, qd_code = code, qd_name = name, qd_unit = unit,
             qd_min = Some mn, qd_max = Some mx, qd_active = True\<rparr>"
  let ?db1 = "db\<lparr>next_id := Suc (next_id db), dimensions := dimensions db @ [?d]\<rparr>"
  obtain ds where "foldl (\<lambda>db (code, name, unit, mn, mx).
           snd (add_dimension t code name unit (Some mn) (Some mx) db)) ?db1 specs
         = ?db1\<lparr>next_id := next_id ?db1 + length ds, dimensions := dimensions ?db1 @ ds\<rparr>"
    and "map qd_key ds = map (\<lambda>s. (t, fst s)) specs"
    and "map qd_unit ds = map (\<lambda>s. fst (snd (snd s))) specs"
    using Cons.IH [of ?db1] by blast
  then show ?case
    by (intro exI [of _ "?d # ds"]) (simp add: s add_dimension_def new_id_eq Let_def)
qed (intro exI [of _ "[]"], simp)

lemma ensure_eq:
  obtains ds where "ensure_default_dimensions t db
      = db\<lparr>next_id := next_id db + length ds, dimensions := dimensions db @ ds\<rparr>"
    and "dimensions_ok (dimensions db) \<Longrightarrow> dimensions_ok (dimensions db @ ds)"
proof (cases "list_ex (\<lambda>d. qd_tenant d = t) (dimensions db)")
  case True
  then show thesis using that [of "[]"] by (simp add: ensure_default_dimensions_def)
next
  case False
  obtain ds where ds: "ensure_default_dimensions t db
      = db\<lparr>next_id := next_id db + length ds, dimensions := dimensions db @ ds\<rparr>"
    "map qd_key ds = map (\<lambda>s. (t, fst s)) DEFAULT_DIMENSIONS"
    "map qd_unit ds = map (\<lambda>s. fst (snd (snd s))) DEFAULT_DIMENSIONS"
    using False seed_eq [of t db DEFAULT_DIMENSIONS] by (auto simp: ensure_default_dimensions_def)
  have "distinct (map qd_key ds)" unfolding ds(2) by (simp add: DEFAULT_DIMENSIONS_def)
  moreover have "qd_tenant d = t" if "d \<in> set ds" for d
    using arg_cong [OF ds(2), of set] that by force
  then have "qd_key ` set (dimensions db) \<inter> qd_key ` set ds = {}"
    using False by (auto simp: list_ex_iff)
  moreover have "length (qd_unit d) \<le> 20" if "d \<in> set ds" for d
  proof -
    have "qd_unit d \<in> set (map qd_unit ds)" using that by simp
    then show ?thesis unfolding ds(3) by (auto simp: DEFAULT_DIMENSIONS_def)
  qed
  ultimately show thesis
    using that [OF ds(1)] by (auto simp: dimensions_ok_def unique_keys_def)
qed

lemma ensure_tables [simp]:
  "rate_cards (ensure_default_dimensions t db) = rate_cards db"
  "center_assignments (ensure_default_dimensions t db) = center_assignments db"
  "product_assignments (ensure_default_dimensions t db) = product_assignments db"
  "matrices (ensure_default_dimensions t db) = matrices db"
  "matrix_rows (ensure_default_dimensions t db) = matrix_rows db"
  "next_id db \<le> next_id (ensure_default_dimensions t db)"
  by (rule ensure_eq [of t db], simp)+

lemma ensure_inv: "pricing_inv db \<Longrightarrow> pricing_inv (ensure_default_dimensions t db)"
proof -
  assume inv: "pricing_inv db"
  obtain ds where ds: "ensure_default_dimensions t db
      = db\<lparr>next_id := next_id db + length ds, dimensions := dimensions db @ ds\<rparr>"
    and ok: "dimensions_ok (dimensions db @ ds)"
    using ensure_eq [of t db] pricing_invD(7) [OF inv] by metis
  show ?thesis
    using pricing_invD [OF inv] pricing_inv_at [OF inv, of "next_id db + length ds"] ok
    by (simp add: pricing_inv_def ds)
qed

lemma get_dimension_run:
  "get_dimension t code db = Inr (d, db1) \<Longrightarrow> db1 = ensure_default_dimensions t db"
  by (auto simp: get_dimension_def Let_def split: option.splits if_splits)

text \<open>Seeding the default dimensions first changes nothing else.\<close>

lemma honours_ensure: "honours (ensure_default_dimensions t db) db' \<Longrightarrow> honours db db'"
proof -
  assume h: "honours (ensure_default_dimensions t db) db'"
  obtain ds where "dimensions (ensure_default_dimensions t db) = dimensions db @ ds"
    by (rule ensure_eq [of t db]) simp
  then show ?thesis
    using h frozen_content_frame [of db "ensure_default_dimensions t db"]
    by (auto simp: honours_def)
qed

lemma DimensionInput_unit: "DimensionInput c n u mn mx = Inr cmd \<Longrightarrow> length (di_unit cmd) \<le> 20"
  by (auto simp: DimensionInput_def split: if_splits)

lemma create_dimension_inv:
  assumes "pricing_inv db" and unit: "length (di_unit cmd) \<le> 20" and "create_dimension e cmd a db = Inr (d, db')"
  shows "pricing_inv db' \<and> honours db db'"
proof -
  obtain t where t: "current_tenant e = Some t"
    using assms(3) by (auto simp: create_dimension_def require_current_tenant_def result_simps)
  let ?db1 = "ensure_default_dimensions t db"
  have free: "find_dimension t (di_code cmd) (dimensions ?db1) = None"
    and d: "qd_key d = (t, di_code cmd)" "qd_unit d = di_unit cmd"
    and db': "rate_cards db' = rate_cards ?db1" "center_assignments db' = center_assignments ?db1"
      "product_assignments db' = product_assignments ?db1" "matrices db' = matrices ?db1"
      "matrix_rows db' = matrix_rows ?db1" "next_id db' = Suc (next_id ?db1)"
      "dimensions db' = dimensions ?db1 @ [d]"
    using assms(3) t
    by (auto simp: create_dimension_def require_current_tenant_def add_dimension_def new_id_eq Let_def
        split: if_splits)
  note inv1 = ensure_inv [OF assms(1), of t]
  have "dimensions_ok (dimensions db')"
    using pricing_invD(7) [OF inv1] free d unit unfolding dimensions_ok_def db'
    by (intro conjI unique_keys_append_fresh) (auto simp: find_dimension_def find_None_ball)
  then have "pricing_inv db'"
    using pricing_invD [OF inv1] pricing_inv_at [OF inv1, of "next_id db'"]
    by (simp add: pricing_inv_def db' del: ensure_tables)
  moreover have "honours ?db1 db'" by (rule honours_frame) (simp_all add: db' del: ensure_tables)
  ultimately show ?thesis using honours_ensure by blast
qed

lemma editable_matrix_InrD:
  "editable_matrix e db i = Inr (m, c) \<Longrightarrow>
     m \<in> set (matrices db) \<and> pm_id m = i \<and> c \<in> set (rate_cards db) \<and> rc_id c = pm_card m
     \<and> rc_status c = Draft \<and> current_tenant e = Some (pm_tenant m)"
  by (auto simp: editable_matrix_def get_matrix_def require_card_draft_def require_current_tenant_def
      result_simps split: option.splits if_splits dest: row_get_SomeD)

text \<open>Every change that leaves cards, scope and dimensions alone.\<close>

lemma matrices_inv:
  assumes inv: "pricing_inv db" and c: "c \<in> set (rate_cards db)" "rc_status c = Draft"
    and others: "\<And>i. i \<noteq> rc_id c \<Longrightarrow> price_data db' i = price_data db i" and same: "rate_cards db' = rate_cards db"
      "center_assignments db' = center_assignments db" "product_assignments db' = product_assignments db"
      "dimensions db' = dimensions db" "next_id db \<le> next_id db'"
    and "matrices_ok (next_id db') (rate_cards db) (matrices db')"
    and "rows_ok (next_id db') (matrices db') (matrix_rows db')"
  shows "pricing_inv db' \<and> honours db db'"
proof
  show "pricing_inv db'"
    using assms pricing_invD [OF inv] pricing_inv_at [OF inv same(5)] by (simp add: pricing_inv_def)
  show "honours db db'"
  proof (rule honours_grow [of _ _ "[]" "[]"])
    fix d assume d: "d \<in> set (rate_cards db)" "rc_status d \<noteq> Draft"
    then have "rc_id d \<noteq> rc_id c"
      using c unique_keysD [OF pricing_invD(10) [OF inv], of d c] by auto
    then show "center_ids db' (rc_id d) = center_ids db (rc_id d)
           \<and> product_codes db' (rc_id d) = product_codes db (rc_id d)
           \<and> price_data db' (rc_id d) = price_data db (rc_id d)"
      using others same by (simp add: center_ids_def product_codes_def card_products_def)
  qed (simp_all add: same)
qed

text \<open>The prices of the cards a matrix does not belong to.\<close>

lemma price_data_other:
  assumes "filter (\<lambda>m. pm_card m = i) (matrices db') = filter (\<lambda>m. pm_card m = i) (matrices db)"
    and "\<And>m. m \<in> set (matrices db) \<Longrightarrow> pm_card m = i \<Longrightarrow>
      filter (\<lambda>r. mr_matrix r = pm_id m) (matrix_rows db') = filter (\<lambda>r. mr_matrix r = pm_id m) (matrix_rows db)"
  shows "price_data db' i = price_data db i"
  using assms by (simp add: price_data_def)


lemma matrices_ok_replace:
  assumes ok: "matrices_ok n cs ms" and m: "m \<in> set ms"
    and same: "pm_id m' = pm_id m" "pm_card m' = pm_card m" "pm_tenant m' = pm_tenant m"
      "pm_version m' = pm_version m" "pm_status m' = pm_status m"
    and free: "\<And>x. x \<in> set ms \<Longrightarrow> pm_id x \<noteq> pm_id m \<Longrightarrow> pm_key x \<noteq> pm_key m'"
  shows "matrices_ok n cs (row_update pm_id (pm_id m) (\<lambda>_. m') ms)"
proof -
  have u: "unique_keys pm_id ms" "unique_keys pm_key ms" using ok by (simp_all add: matrices_ok_def)
  have "unique_keys pm_key (row_update pm_id (pm_id m) (\<lambda>_. m') ms)"
    using free by (rule unique_keys_replace [OF u(1) m u(2)])
  moreover have "unique_keys pm_id (row_update pm_id (pm_id m) (\<lambda>_. m') ms)"
    using u(1) unique_keys_row_put [OF u(1) m same(1)] by simp
  ultimately show ?thesis
    using ok m same by (auto simp: matrices_ok_def in_row_put [OF m] follows_def)
qed

lemma rows_ok_replace_matrix:
  assumes "rows_ok n ms rs" and "unique_keys pm_id ms" and "m \<in> set ms" and "pm_id m' = pm_id m"
    and "pm_tenant m' = pm_tenant m"
  shows "rows_ok n (row_update pm_id (pm_id m) (\<lambda>_. m') ms) rs"
  using assms map_row_put [OF assms(2,3), of "\<lambda>m. (pm_id m, pm_tenant m)" m']
  by (subst rows_ok_cong [where ms' = ms]) auto

lemma rows_ok_replace:
  assumes ok: "rows_ok n ms rs" and r: "r \<in> set rs" and same: "mr_id r' = mr_id r" and "row_ok n ms r'"
    and free: "\<And>x. x \<in> set rs \<Longrightarrow> mr_id x \<noteq> mr_id r \<Longrightarrow> mr_matrix x = mr_matrix r' \<Longrightarrow> mr_active x
           \<Longrightarrow> mr_active r' \<Longrightarrow> \<not> ranges_overlap (mr_from r') (mr_to r') (mr_from x) (mr_to x)"
  shows "rows_ok n ms (row_update mr_id (mr_id r) (\<lambda>_. r') rs)"
proof -
  have u: "unique_keys mr_id rs" and b: "bands_disjoint rs" using ok by (simp_all add: rows_ok_def)
  have "bands_disjoint (row_update mr_id (mr_id r) (\<lambda>_. r') rs)"
    unfolding bands_disjoint_def in_row_put [OF r]
  proof (intro ballI impI, unfold in_row_put [OF r])
    fix x y
    assume xy: "x = r' \<or> x \<in> set rs \<and> mr_id x \<noteq> mr_id r" "y = r' \<or> y \<in> set rs \<and> mr_id y \<noteq> mr_id r"
      and h: "mr_matrix x = mr_matrix y" "mr_active x" "mr_active y" "mr_id x \<noteq> mr_id y"
    consider "x = r'" "y \<in> set rs" "mr_id y \<noteq> mr_id r" | "y = r'" "x \<in> set rs" "mr_id x \<noteq> mr_id r"
      | "x \<in> set rs" "y \<in> set rs" using xy h(4) by auto
    then show "\<not> ranges_overlap (mr_from x) (mr_to x) (mr_from y) (mr_to y)"
    proof cases
      case 1 then show ?thesis using free [of y] h by simp
    next
      case 2 then show ?thesis using free [of x] h by (simp add: ranges_overlap_sym [of "mr_from x"])
    next
      case 3 then show ?thesis using bands_disjointD [OF b] h by blast
    qed
  qed
  then show ?thesis
    using ok assms(4) unique_keys_row_put [OF u r same] by (auto simp: rows_ok_def in_row_put [OF r])
qed

lemma rows_ok_subset:
  assumes "rows_ok n ms rs" and "unique_keys mr_id rs'" and "set rs' \<subseteq> set rs"
    and "\<And>r. r \<in> set rs' \<Longrightarrow> \<exists>m \<in> set ms'. pm_id m = mr_matrix r \<and> pm_tenant m = mr_tenant r"
  shows "rows_ok n ms' rs'"
  using assms unfolding rows_ok_def row_ok_def bands_disjoint_def by (meson subsetD)

lemma store_price_InrD: "store_price x = Inr y \<Longrightarrow> 0 < y \<and> y < 10 ^ 8 \<and> at_scale 4 y"
proof -
  assume "store_price x = Inr y"
  then have "0 < y \<and> y < 10 ^ 8" "y = of_int (round_half_up (x * 10 ^ 4)) / 10 ^ 4"
    by (auto simp: store_price_def Let_def split: if_splits)
  then show ?thesis using at_scale_frac [of 4 "round_half_up (x * 10 ^ 4)"] by metis
qed


lemma slot_taken_False:
  "\<not> slot_taken db c cmd x \<Longrightarrow> m \<in> set (matrices db) \<Longrightarrow> Some (pm_id m) \<noteq> x
    \<Longrightarrow> pm_key m \<noteq> (c, mi_product cmd, mi_dimension cmd)"
  by (auto simp: slot_taken_def pm_key_def find_None_ball simp del: not_None_eq)

lemma create_matrix_inv:
  assumes "pricing_inv db" and "create_matrix e cid cmd a db = Inr (m, db')"
  shows "pricing_inv db' \<and> honours db db'"
proof -
  obtain c where c: "get_card e db cid = Inr c" "rc_status c = Draft"
    and free: "\<not> slot_taken (ensure_default_dimensions (rc_tenant c) db) (rc_id c) cmd None"
    and m: "m = \<lparr>pm_id = next_id (ensure_default_dimensions (rc_tenant c) db), pm_tenant = rc_tenant c,
                pm_card = rc_id c, pm_name = mi_name cmd,
                pm_product = mi_product cmd, pm_product_name = mi_product_name cmd,
                pm_dimension = mi_dimension cmd, pm_status = MDraft, pm_version = rc_version c\<rparr>"
    and db': "db' = record_matrix e m ''PricingMatrixCreated'' [] a
        ((ensure_default_dimensions (rc_tenant c) db)
           \<lparr>next_id := Suc (next_id (ensure_default_dimensions (rc_tenant c) db)),
            matrices := matrices db @ [m]\<rparr>)"
    using assms(2)
    by (auto simp: create_matrix_def require_card_draft_def result_simps Let_def new_id_eq
        split: if_splits prod.splits dest!: get_dimension_run)
  let ?db1 = "ensure_default_dimensions (rc_tenant c) db"
  note inv1 = ensure_inv [OF assms(1), of "rc_tenant c"]
  note g = get_card_InrD [OF c(1)]
  have key: "pm_key m = (rc_id c, mi_product cmd, mi_dimension cmd)" by (simp add: m pm_key_def)
  have "pm_key m \<notin> pm_key ` set (matrices db)"
    using slot_taken_False [OF free] unfolding key by (metis ensure_tables(4) imageE option.distinct(1))
  moreover have "matrices_ok (next_id ?db1) (rate_cards db) (matrices db)"
    using pricing_invD(8) [OF inv1] by simp
  ultimately have "matrices_ok (next_id db') (rate_cards db) (matrices db @ [m])"
    using g c(2) by (intro matrices_ok_append [where c = c]) (auto simp: m db' follows_def)
  moreover have "rows_ok (next_id db') (matrices db @ [m]) (matrix_rows db)"
    using pricing_inv_at(5) [OF inv1, of "next_id db'"] by (simp add: db' rows_ok_more_matrices)
  moreover have "price_data db' i = price_data ?db1 i" if "i \<noteq> rc_id c" for i
    using that by (intro price_data_other) (simp_all add: db' m)
  ultimately have "pricing_inv db' \<and> honours ?db1 db'"
    using g c(2) by (intro matrices_inv [OF inv1, of c]) (simp_all add: db')
  then show ?thesis using honours_ensure by blast
qed

lemma update_matrix_inv:
  assumes "pricing_inv db" and "update_matrix e i cmd a db = Inr (m', db')"
  shows "pricing_inv db' \<and> honours db db'"
proof -
  obtain m c where ed: "editable_matrix e db i = Inr (m, c)"
    using assms(2) by (auto simp: update_matrix_def result_simps)
  define db1 where "db1 = (if mi_dimension cmd \<noteq> pm_dimension m
      then ensure_default_dimensions (rc_tenant c) db else db)"
  have free: "(mi_product cmd, mi_dimension cmd) \<noteq> (pm_product m, pm_dimension m)
                \<Longrightarrow> \<not> slot_taken db1 (rc_id c) cmd (Some (pm_id m))"
    using assms(2) ed
    by (auto simp: update_matrix_def db1_def result_simps Let_def split: if_splits prod.splits
        dest!: get_dimension_run)
  have m': "m' = m\<lparr>pm_name := mi_name cmd, pm_product := mi_product cmd,
                  pm_product_name := mi_product_name cmd, pm_dimension := mi_dimension cmd\<rparr>"
    using assms(2) ed
    by (auto simp: update_matrix_def result_simps Let_def split: if_splits prod.splits)
  have db': "db' = record_matrix e m' ''PricingMatrixUpdated'' [] a (put_matrix m' db1)"
    using assms(2) ed
    by (auto simp: update_matrix_def db1_def result_simps Let_def split: if_splits prod.splits
        dest!: get_dimension_run)
  have db1: "db1 = db \<or> db1 = ensure_default_dimensions (rc_tenant c) db" by (simp add: db1_def)
  have inv1: "pricing_inv db1" using db1 assms(1) ensure_inv by auto
  have same: "matrices db1 = matrices db" "rate_cards db1 = rate_cards db" using db1 by auto
  note g = editable_matrix_InrD [OF ed]
  have m: "m \<in> set (matrices db1)" using g same by simp
  have key: "pm_key x \<noteq> pm_key m'" if x: "x \<in> set (matrices db1)" "pm_id x \<noteq> pm_id m" for x
  proof (cases "(mi_product cmd, mi_dimension cmd) = (pm_product m, pm_dimension m)")
    case True
    then have "pm_key m' = pm_key m" by (simp add: m' pm_key_def)
    moreover have "unique_keys pm_key (matrices db1)" using pricing_invD(8) [OF inv1] by (simp add: matrices_ok_def)
    ultimately show ?thesis using x m unique_keysD by metis
  next
    case False
    then show ?thesis using slot_taken_False [OF free [OF False] x(1)] x(2) g by (simp add: pm_key_def m')
  qed
  have st: "pm_id m' = pm_id m" "pm_card m' = pm_card m" "pm_tenant m' = pm_tenant m"
      "pm_version m' = pm_version m" "pm_status m' = pm_status m" by (simp_all add: m')
  have "matrices_ok (next_id db1) (rate_cards db1) (row_update pm_id (pm_id m) (\<lambda>_. m') (matrices db1))"
    using key by (rule matrices_ok_replace [OF pricing_invD(8) [OF inv1] m st])
  moreover have "rows_ok (next_id db1) (row_update pm_id (pm_id m) (\<lambda>_. m') (matrices db1)) (matrix_rows db1)"
    by (rule rows_ok_replace_matrix [OF pricing_invD(9,11) [OF inv1] m st(1,3)])
  moreover have "price_data db' i = price_data db1 i" if "i \<noteq> rc_id c" for i
    using that g st filter_row_put [OF pricing_invD(11) [OF inv1] m, of "\<lambda>m. pm_card m = i" m']
    by (intro price_data_other) (simp_all add: db' put_matrix_def)
  ultimately have "pricing_inv db' \<and> honours db1 db'"
    using g same by (intro matrices_inv [OF inv1, of c]) (auto simp: db' put_matrix_def st intro: conditions_mono)
  then show ?thesis using db1 honours_ensure by blast
qed

lemma other_matrix:
  assumes "pricing_inv db" and "editable_matrix e db i = Inr (m, c)" and "k \<noteq> rc_id c"
    and "x \<in> set (matrices db)" and "pm_card x = k"
  shows "pm_id x \<noteq> pm_id m"
  using assms(3-5) editable_matrix_InrD [OF assms(2)] unique_keysD [OF pricing_invD(11) [OF assms(1)], of x m]
  by auto

lemma delete_rows_eq:
  "foldl (\<lambda>db r. db\<lparr>matrix_rows := row_delete mr_id (mr_id r) (matrix_rows db)\<rparr>) db rs
     = db\<lparr>matrix_rows := filter (\<lambda>x. mr_id x \<notin> mr_id ` set rs) (matrix_rows db)\<rparr>"
proof (induction rs arbitrary: db)
  case (Cons r rs)
  show ?case
    by (simp add: Cons.IH) (simp add: row_delete_def conj_commute)
qed simp

lemma delete_matrix_inv:
  assumes "pricing_inv db" and "delete_matrix e i a db = Inr (u, db')"
  shows "pricing_inv db' \<and> honours db db'"
proof -
  obtain m c where ed: "editable_matrix e db i = Inr (m, c)"
    and db': "matrices db' = row_delete pm_id (pm_id m) (matrices db)" "next_id db' = Suc (next_id db)"
      "rate_cards db' = rate_cards db" "center_assignments db' = center_assignments db"
      "product_assignments db' = product_assignments db" "dimensions db' = dimensions db"
      "matrix_rows db' = filter (\<lambda>x. mr_id x \<notin> mr_id ` set (rows_of db (pm_id m))) (matrix_rows db)"
    using assms(2) by (auto simp: delete_matrix_def result_simps Let_def delete_rows_eq split: prod.splits)
  have left: "mr_matrix r \<noteq> pm_id m" if "r \<in> set (matrix_rows db')" for r
    using that by (auto simp: db' rows_of_def)
  have home: "\<exists>x \<in> set (matrices db'). pm_id x = mr_matrix r \<and> pm_tenant x = mr_tenant r"
    if "r \<in> set (matrix_rows db')" for r
  proof -
    have "r \<in> set (matrix_rows db)" using that by (simp add: db')
    then obtain x where "x \<in> set (matrices db)" "pm_id x = mr_matrix r" "pm_tenant x = mr_tenant r"
      using pricing_invD(9) [OF assms(1)] by (auto simp: rows_ok_def row_ok_def)
    then show ?thesis using left [OF that] by (auto simp: db' in_row_delete intro!: bexI [of _ x])
  qed
  have "rows_ok (next_id db) (matrices db') (matrix_rows db')"
    using home pricing_invD(12) [OF assms(1)]
    by (intro rows_ok_subset [OF pricing_invD(9) [OF assms(1)]]) (auto simp: db'(7) intro: unique_keys_filter)
  moreover have "matrices_ok (next_id db) (rate_cards db) (matrices db')"
    using pricing_invD(8) [OF assms(1)]
    by (auto simp: matrices_ok_def db' in_row_delete intro: unique_keys_row_delete)
  moreover have "price_data db' k = price_data db k" if k: "k \<noteq> rc_id c" for k
  proof (rule price_data_other)
    note g = editable_matrix_InrD [OF ed]
    show "filter (\<lambda>m. pm_card m = k) (matrices db') = filter (\<lambda>m. pm_card m = k) (matrices db)"
      unfolding db' using g k by (intro filter_row_delete [OF pricing_invD(11) [OF assms(1)]]) auto
    fix x assume x: "x \<in> set (matrices db)" "pm_card x = k"
    then have ne: "pm_id x \<noteq> pm_id m" by (rule other_matrix [OF assms(1) ed k])
    have "mr_id r \<notin> mr_id ` set (rows_of db (pm_id m))"
      if "r \<in> set (matrix_rows db)" "mr_matrix r = pm_id x" for r
    proof
      assume "mr_id r \<in> mr_id ` set (rows_of db (pm_id m))"
      then obtain y where y: "y \<in> set (matrix_rows db)" "mr_matrix y = pm_id m" "mr_id r = mr_id y"
        by (auto simp: rows_of_def)
      then have "r = y" using unique_keysD [OF pricing_invD(12) [OF assms(1)] that(1) y(1)] by simp
      then show False using y that ne by simp
    qed
    then show "filter (\<lambda>r. mr_matrix r = pm_id x) (matrix_rows db') = filter (\<lambda>r. mr_matrix r = pm_id x) (matrix_rows db)"
      unfolding db' filter_filter by (intro filter_cong) auto
  qed
  ultimately show ?thesis
    using editable_matrix_InrD [OF ed]
    by (intro matrices_inv [OF assms(1), of c]) (auto simp: db' intro: conditions_mono)
qed


definition row_input_ok :: "row_input \<Rightarrow> bool" where
  "row_input_ok cmd \<longleftrightarrow> wi_from cmd < wi_to cmd \<and> 0 < wi_price cmd \<and> wi_sequence cmd \<noteq> Some 0"

lemma RowInput_ok: "RowInput f t p s a = Inr cmd \<Longrightarrow> row_input_ok cmd"
  by (auto simp: RowInput_def row_input_ok_def split: if_splits)

lemma require_no_overlap_InrD:
  "require_no_overlap db i cmd x = Inr u \<Longrightarrow> r \<in> set (matrix_rows db) \<Longrightarrow> mr_matrix r = i \<Longrightarrow> mr_active r
    \<Longrightarrow> wi_active cmd \<Longrightarrow> Some (mr_id r) \<noteq> x
    \<Longrightarrow> \<not> ranges_overlap (wi_from cmd) (wi_to cmd) (mr_from r) (mr_to r)"
  by (auto simp: require_no_overlap_def rows_of_def list_ex_iff split: if_splits)

lemma add_row_inv:
  assumes "pricing_inv db" and cmd: "row_input_ok cmd" and "add_row e i cmd a db = Inr (r, db')"
  shows "pricing_inv db' \<and> honours db db'"
proof -
  obtain m c where ed: "editable_matrix e db i = Inr (m, c)"
    using assms(3) by (auto simp: add_row_def result_simps)
  let ?db1 = "ensure_default_dimensions (rc_tenant c) db"
  obtain price where free: "require_no_overlap ?db1 (pm_id m) cmd None = Inr ()"
    and price: "store_price (wi_price cmd) = Inr price"
    and r: "mr_id r = next_id ?db1" "mr_tenant r = pm_tenant m" "mr_matrix r = pm_id m"
      "mr_from r = wi_from cmd" "mr_to r = wi_to cmd" "mr_price r = price" "mr_active r = wi_active cmd"
    and db': "matrix_rows db' = matrix_rows db @ [r]" "next_id db' = Suc (Suc (next_id ?db1))"
      "rate_cards db' = rate_cards ?db1" "center_assignments db' = center_assignments ?db1"
      "product_assignments db' = product_assignments ?db1" "dimensions db' = dimensions ?db1"
      "matrices db' = matrices ?db1"
    using assms(3) ed
    by (auto simp: add_row_def result_simps Let_def new_id_eq dest!: get_dimension_run)
  note inv1 = ensure_inv [OF assms(1), of "rc_tenant c"]
  note g = editable_matrix_InrD [OF ed]
  have "rows_ok (next_id ?db1) (matrices db) (matrix_rows db)" using pricing_invD(9) [OF inv1] by simp
  then have "rows_ok (next_id db') (matrices db) (matrix_rows db @ [r])"
  proof (rule rows_ok_append)
    show "next_id ?db1 \<le> mr_id x \<and> row_ok (next_id db') (matrices db) x" if "x \<in> set [r]" for x
      using that g cmd store_price_InrD [OF price] r by (auto simp: row_ok_def db' row_input_ok_def)
    show "\<not> ranges_overlap (mr_from x) (mr_to x) (mr_from s) (mr_to s)"
      if "x \<in> set [r]" "s \<in> set (matrix_rows db)" "mr_matrix x = mr_matrix s" "mr_active x" "mr_active s" for x s
      using that r require_no_overlap_InrD [OF free, of s] by simp
  qed (simp_all add: db')
  moreover have "price_data db' k = price_data ?db1 k" if k: "k \<noteq> rc_id c" for k
  proof (rule price_data_other)
    fix x assume "x \<in> set (matrices ?db1)" "pm_card x = k"
    then have "pm_id x \<noteq> pm_id m" using other_matrix [OF assms(1) ed k] by simp
    then show "filter (\<lambda>s. mr_matrix s = pm_id x) (matrix_rows db') = filter (\<lambda>s. mr_matrix s = pm_id x) (matrix_rows ?db1)"
      using r(3) by (simp add: db')
  qed (simp add: db')
  ultimately have "pricing_inv db' \<and> honours ?db1 db'"
    using g pricing_inv_at(4) [OF inv1, of "next_id db'"]
    by (intro matrices_inv [OF inv1, of c]) (simp_all add: db')
  then show ?thesis using honours_ensure by blast
qed

lemma get_row_InrD: "get_row db i rid = Inr r \<Longrightarrow> r \<in> set (matrix_rows db) \<and> mr_id r = rid \<and> mr_matrix r = i"
  by (auto simp: get_row_def split: option.splits if_splits dest: row_get_SomeD)

lemma update_row_inv:
  assumes "pricing_inv db" and cmd: "row_input_ok cmd" and "update_row e i rid cmd a db = Inr (r', db')"
  shows "pricing_inv db' \<and> honours db db'"
proof -
  obtain m c where ed: "editable_matrix e db i = Inr (m, c)"
    using assms(3) by (auto simp: update_row_def result_simps)
  let ?db1 = "ensure_default_dimensions (rc_tenant c) db"
  obtain r price where free: "require_no_overlap ?db1 (pm_id m) cmd (Some (mr_id r)) = Inr ()"
    and price: "store_price (wi_price cmd) = Inr price" and row: "get_row db (pm_id m) rid = Inr r"
    and r': "mr_id r' = mr_id r" "mr_tenant r' = mr_tenant r" "mr_matrix r' = mr_matrix r"
      "mr_from r' = wi_from cmd" "mr_to r' = wi_to cmd" "mr_price r' = price" "mr_active r' = wi_active cmd"
    and db': "matrix_rows db' = row_update mr_id (mr_id r) (\<lambda>_. r') (matrix_rows db)"
      "next_id db' = Suc (next_id ?db1)"
      "rate_cards db' = rate_cards ?db1" "center_assignments db' = center_assignments ?db1"
      "product_assignments db' = product_assignments ?db1" "dimensions db' = dimensions ?db1"
      "matrices db' = matrices ?db1"
    using assms(3) ed
    by (auto simp: update_row_def result_simps Let_def dest!: get_dimension_run)
  note inv1 = ensure_inv [OF assms(1), of "rc_tenant c"]
  note g = editable_matrix_InrD [OF ed]
  have r: "r \<in> set (matrix_rows db)" "mr_matrix r = pm_id m" using get_row_InrD [OF row] by auto
  have old: "row_ok (next_id db') (matrices db) r"
    using pricing_inv_at(5) [OF inv1, of "next_id db'"] r(1) by (simp add: db' rows_ok_def)
  have "row_ok (next_id db') (matrices db) r'"
    using old cmd store_price_InrD [OF price] by (simp add: row_ok_def r' row_input_ok_def)
  moreover have "rows_ok (next_id db') (matrices db) (matrix_rows db)"
    using pricing_inv_at(5) [OF inv1, of "next_id db'"] by (simp add: db')
  ultimately have "rows_ok (next_id db') (matrices db) (row_update mr_id (mr_id r) (\<lambda>_. r') (matrix_rows db))"
    using r(1) r'(1) require_no_overlap_InrD [OF free] r(2)
    by (intro rows_ok_replace) (auto simp: r')
  moreover have "price_data db' k = price_data ?db1 k" if k: "k \<noteq> rc_id c" for k
  proof (rule price_data_other)
    fix x assume "x \<in> set (matrices ?db1)" "pm_card x = k"
    then have "pm_id x \<noteq> pm_id m" using other_matrix [OF assms(1) ed k] by simp
    then show "filter (\<lambda>s. mr_matrix s = pm_id x) (matrix_rows db') = filter (\<lambda>s. mr_matrix s = pm_id x) (matrix_rows ?db1)"
      unfolding db' using r r'(3) by (simp add: filter_row_put [OF pricing_invD(12) [OF assms(1)]])
  qed (simp add: db')
  ultimately have "pricing_inv db' \<and> honours ?db1 db'"
    using g pricing_inv_at(4) [OF inv1, of "next_id db'"]
    by (intro matrices_inv [OF inv1, of c]) (simp_all add: db')
  then show ?thesis using honours_ensure by blast
qed

lemma delete_row_inv:
  assumes "pricing_inv db" and "delete_row e i rid a db = Inr (u, db')"
  shows "pricing_inv db' \<and> honours db db'"
proof -
  obtain m c where ed: "editable_matrix e db i = Inr (m, c)"
    using assms(2) by (auto simp: delete_row_def result_simps)
  obtain r where row: "get_row db (pm_id m) rid = Inr r"
    and db': "matrix_rows db' = row_delete mr_id (mr_id r) (matrix_rows db)" "next_id db' = Suc (next_id db)"
      "rate_cards db' = rate_cards db" "center_assignments db' = center_assignments db"
      "product_assignments db' = product_assignments db" "dimensions db' = dimensions db"
      "matrices db' = matrices db"
    using assms(2) ed by (auto simp: delete_row_def result_simps)
  have "rows_ok (next_id db) (matrices db) (matrix_rows db')"
    using pricing_invD(9) [OF assms(1)] pricing_invD(12) [OF assms(1)]
    by (intro rows_ok_subset [OF pricing_invD(9) [OF assms(1)]])
      (auto simp: db'(1) in_row_delete rows_ok_def row_ok_def intro: unique_keys_row_delete)
  moreover have "price_data db' k = price_data db k" if k: "k \<noteq> rc_id c" for k
  proof (rule price_data_other)
    fix x assume "x \<in> set (matrices db)" "pm_card x = k"
    then have "pm_id x \<noteq> pm_id m" using other_matrix [OF assms(1) ed k] by simp
    then show "filter (\<lambda>s. mr_matrix s = pm_id x) (matrix_rows db') = filter (\<lambda>s. mr_matrix s = pm_id x) (matrix_rows db)"
      unfolding db' using get_row_InrD [OF row]
      by (intro filter_row_delete [OF pricing_invD(12) [OF assms(1)]]) auto
  qed (simp add: db')
  ultimately show ?thesis
    using pricing_invD(8) [OF assms(1)] editable_matrix_InrD [OF ed]
    by (intro matrices_inv [OF assms(1), of c]) (auto simp: db' intro: conditions_mono)
qed


section \<open>The gaps\<close>

definition in_gap :: "pyfloat \<Rightarrow> (pyfloat \<times> pyfloat) list \<Rightarrow> bool" where
  "in_gap v gs \<longleftrightarrow> (\<exists>g \<in> set gs. fst g \<le> v \<and> v < snd g)"

lemma in_gap_append [simp]: "in_gap v (xs @ ys) \<longleftrightarrow> in_gap v xs \<or> in_gap v ys"
  by (auto simp: in_gap_def)

lemma in_gap_simps [simp]: "\<not> in_gap v []" "in_gap v [(a, b)] \<longleftrightarrow> a \<le> v \<and> v < b"
  by (auto simp: in_gap_def)

lemma gaps_chain:
  assumes "sorted_wrt (\<lambda>a b. mr_to a \<le> mr_from b) rs" and "\<forall>r \<in> set rs. mr_from r < mr_to r"
  shows "in_gap v (gaps rs) \<longleftrightarrow>
           (\<exists>r \<in> set rs. mr_to r \<le> v) \<and> (\<exists>r \<in> set rs. v < mr_from r) \<and> (\<forall>r \<in> set rs. \<not> band_contains r v)"
  using assms
proof (induction rs rule: gaps.induct)
  case (1 a b rs)
  let ?gap = "in_gap v (gaps (a # b # rs)) \<longleftrightarrow> mr_to a \<le> v \<and> v < mr_from b \<or> in_gap v (gaps (b # rs))"
  have split: ?gap by auto
  have later: "mr_to a \<le> mr_from r \<and> mr_from b \<le> mr_from r \<and> mr_from r < mr_to r"
    if "r \<in> set (b # rs)" for r
  proof (cases "r = b")
    case False
    then have "r \<in> set rs" using that by simp
    then have "mr_to b \<le> mr_from r" "mr_to a \<le> mr_from r" "mr_from b < mr_to b" using 1 by auto
    then show ?thesis using 1 that by force
  qed (use 1 in auto)
  have a: "mr_from a < mr_to a" using 1 by simp
  have IH: "in_gap v (gaps (b # rs)) \<longleftrightarrow>
      (\<exists>r \<in> set (b # rs). mr_to r \<le> v) \<and> (\<exists>r \<in> set (b # rs). v < mr_from r)
      \<and> (\<forall>r \<in> set (b # rs). \<not> band_contains r v)"
    using 1 by simp
  have after: "\<not> v < mr_to a" if "r \<in> set (b # rs)" "mr_to r \<le> v" for r
    using later [OF that(1)] that(2) by linarith
  have before: "mr_to a \<le> v" if "r \<in> set (b # rs)" "mr_from r \<le> v" for r
    using later [OF that(1)] that(2) by linarith
  show ?case
  proof (cases "mr_from b \<le> v")
    case True
    then have "mr_to a \<le> v" using before [of b] by simp
    moreover have "mr_to b \<le> v \<or> band_contains b v" using True by (auto simp: band_contains_def)
    ultimately show ?thesis
      unfolding split IH using True a by (auto simp: band_contains_def)
  next
    case False
    then have "\<not> band_contains r v \<and> \<not> mr_to r \<le> v" if "r \<in> set (b # rs)" for r
      using later [OF that] by (auto simp: band_contains_def)
    then show ?thesis
      unfolding split IH using False a by (auto simp: band_contains_def)
  qed
qed (auto simp: band_contains_def)

lemma active_sorted_chain:
  assumes "rows_ok n ms rs"
  shows "sorted_wrt (\<lambda>a b. mr_to a \<le> mr_from b) (active_sorted (filter (\<lambda>r. mr_matrix r = i) rs))"
proof -
  let ?xs = "active_sorted (filter (\<lambda>r. mr_matrix r = i) rs)"
  have set: "set ?xs = {r \<in> set rs. mr_matrix r = i \<and> mr_active r}"
    by (auto simp: active_sorted_def)
  have "distinct rs" using assms by (simp add: rows_ok_def unique_keys_def distinct_map)
  then have "distinct ?xs" by (simp add: active_sorted_def)
  moreover have "sorted (map mr_from ?xs)" by (simp add: active_sorted_def)
  ultimately have "sorted_wrt (\<lambda>a b. a \<noteq> b \<and> mr_from a \<le> mr_from b) ?xs"
    by (induction ?xs) (auto simp: sorted_wrt_iff_nth_less distinct_conv_nth)
  then show ?thesis
  proof (rule sorted_wrt_mono_rel [rotated])
    fix a b
    assume ab: "a \<in> set ?xs" "b \<in> set ?xs" "a \<noteq> b \<and> mr_from a \<le> mr_from b"
    have "mr_id a \<noteq> mr_id b"
      using ab assms unfolding set by (auto simp: rows_ok_def dest: unique_keysD)
    then have "\<not> ranges_overlap (mr_from a) (mr_to a) (mr_from b) (mr_to b)"
      using ab assms unfolding set rows_ok_def by (intro bands_disjointD [of rs]) auto
    moreover have "mr_from b < mr_to b" using ab assms unfolding set by (auto simp: rows_ok_def row_ok_def)
    ultimately show "mr_to a \<le> mr_from b" using ab(3) by (auto simp: ranges_overlap_def)
  qed
qed

text \<open>
  C22: The continuity check of a matrix is exact. In a database that satisfies the pricing
  invariant, a reading falls in one of the gaps the detail view lists exactly when it lies above
  some active band and below another but inside none of them.
\<close>

theorem matrix_gaps_exact:
  assumes "pricing_inv db"
  shows "in_gap v (matrix_gaps db i) \<longleftrightarrow>
           (\<exists>r \<in> set (rows_of db i). mr_active r \<and> mr_to r \<le> v)
         \<and> (\<exists>r \<in> set (rows_of db i). mr_active r \<and> v < mr_from r)
         \<and> \<not> (\<exists>r \<in> set (rows_of db i). mr_active r \<and> band_contains r v)"
proof -
  let ?xs = "active_sorted (rows_of db i)"
  have "set ?xs = {r \<in> set (rows_of db i). mr_active r}" by (auto simp: active_sorted_def)
  moreover have "\<forall>r \<in> set ?xs. mr_from r < mr_to r"
    using pricing_invD(9) [OF assms] by (auto simp: active_sorted_def rows_of_def rows_ok_def row_ok_def)
  ultimately show ?thesis
    using gaps_chain [OF active_sorted_chain [OF pricing_invD(9) [OF assms], of i], of v]
    by (auto simp: matrix_gaps_def rows_of_def)
qed


lemma matrix_gaps_exact_witness:
  "in_gap (21/5) (matrix_gaps sample_pricing 5) \<and> \<not> in_gap (7/2) (matrix_gaps sample_pricing 5)"
  unfolding matrix_gaps_exact [OF sample_pricing_inv]
  by (simp add: sample_defs rows_of_def band_contains_def)

end
