(* ===== verification/Resolution.thy ===== *)
theory Resolution
  imports Matrices
begin

text \<open>
  The pricing resolution engine (\<open>modules/pricing/resolution.py\<close>): from a centre, a product, a date
  and a quality reading to the one band that prices it (BR-0003). Read side only.
\<close>

section \<open>Queries and results\<close>

record resolution_query =
  rq_center :: uuid
  rq_product :: string
  rq_date :: date
  rq_dimension :: string
  rq_value :: pyfloat

definition ResolutionQuery :: "uuid \<Rightarrow> string \<Rightarrow> date \<Rightarrow> string \<Rightarrow> pyfloat \<Rightarrow> resolution_query result" where
  "ResolutionQuery center product on dimn v =
     (if length product < 2 \<or> 40 < length product then Inl (ValueError ''product_code'')
      else if length dimn < 2 \<or> 30 < length dimn then Inl (ValueError ''dimension_code'')
      else Inr \<lparr>rq_center = center, rq_product = str_upper product, rq_date = on,
                rq_dimension = str_upper dimn, rq_value = v\<rparr>)"

record resolution_result =
  rr_card :: uuid
  rr_card_code :: string
  rr_card_version :: nat
  rr_matrix :: uuid
  rr_matrix_name :: string
  rr_row :: uuid
  rr_sequence :: nat
  rr_from :: pyfloat
  rr_to :: pyfloat
  rr_unit_price :: money
  rr_reading :: quantity
  rr_metadata :: payload

definition STAGE_DIMENSION :: string where "STAGE_DIMENSION = ''dimension''"
definition STAGE_RATE_CARD :: string where "STAGE_RATE_CARD = ''rate_card''"
definition STAGE_MATRIX :: string where "STAGE_MATRIX = ''matrix''"
definition STAGE_BAND :: string where "STAGE_BAND = ''band''"

section \<open>The repository\<close>

text \<open>Each query is the join the code writes: one row per combination of joined rows.\<close>

definition band_candidates ::
  "'a pricing_db_scheme \<Rightarrow> uuid \<Rightarrow> resolution_query \<Rightarrow> (pricing_matrix \<times> matrix_row) list" where
  "band_candidates db c q =
     [(m, r). m \<leftarrow> matrices db, r \<leftarrow> matrix_rows db,
        mr_matrix r = pm_id m \<and> pm_card m = c \<and> pm_product m = rq_product q
        \<and> pm_dimension m = rq_dimension q \<and> pm_status m = MActive \<and> mr_active r
        \<and> band_contains r (rq_value q)]"

definition applicable_cards ::
  "'a pricing_db_scheme \<Rightarrow> uuid \<Rightarrow> uuid \<Rightarrow> string \<Rightarrow> date \<Rightarrow> rate_card list" where
  "applicable_cards db tenant center product on =
     [c. c \<leftarrow> rate_cards db, a \<leftarrow> center_assignments db, p \<leftarrow> product_assignments db,
        ca_card a = rc_id c \<and> pa_card p = rc_id c \<and> rc_tenant c = tenant
        \<and> rc_status c = Published \<and> covers c on \<and> ca_center a = center \<and> pa_product p = product]"

definition active_matrices ::
  "'a pricing_db_scheme \<Rightarrow> uuid \<Rightarrow> string \<Rightarrow> string \<Rightarrow> pricing_matrix list" where
  "active_matrices db c product dimn =
     filter (\<lambda>m. pm_card m = c \<and> pm_product m = product \<and> pm_dimension m = dimn
               \<and> pm_status m = MActive) (matrices db)"

definition matching_rows :: "'a pricing_db_scheme \<Rightarrow> uuid \<Rightarrow> pyfloat \<Rightarrow> matrix_row list" where
  "matching_rows db i v =
     filter (\<lambda>r. mr_matrix r = i \<and> mr_active r \<and> band_contains r v) (matrix_rows db)"

section \<open>The service\<close>

definition resolution_result_of ::
  "env \<Rightarrow> rate_card \<Rightarrow> pricing_matrix \<Rightarrow> matrix_row \<Rightarrow> resolution_query \<Rightarrow> quality_dimension
     \<Rightarrow> resolution_result result" where
  "resolution_result_of e c m r q d =
     andthen (money_of (mr_price r) (rc_currency c) None) (\<lambda>price.
     andthen (mk_quantity (rq_value q) (qd_unit d)) (\<lambda>reading.
     Inr \<lparr>rr_card = rc_id c, rr_card_code = rc_code c, rr_card_version = rc_version c,
          rr_matrix = pm_id m, rr_matrix_name = pm_name m, rr_row = mr_id r,
          rr_sequence = mr_sequence r, rr_from = mr_from r, rr_to = mr_to r,
          rr_unit_price = price, rr_reading = reading,
          rr_metadata = [(''strategy'', JStr ''single-query''), (''resolved_at'', JTime (now e)),
            (''effective_from'', JDate (rc_from c)), (''effective_until'', json_opt JDate (rc_until c)),
            (''product_code'', JStr (pm_product m)), (''dimension_code'', JStr (pm_dimension m)),
            (''dimension_name'', JStr (qd_name d)), (''center_id'', JId (rq_center q))]\<rparr>))"

definition resolve ::
  "env \<Rightarrow> 'a pricing_db_scheme \<Rightarrow> resolution_query \<Rightarrow> resolution_result result" where
  "resolve e db q =
     andthen (require_current_tenant e) (\<lambda>tenant.
     case find_dimension tenant (rq_dimension q) (dimensions db) of
       None \<Rightarrow> Inl (PricingResolutionError STAGE_DIMENSION ''unknown quality dimension'')
     | Some d \<Rightarrow>
       (case applicable_cards db tenant (rq_center q) (rq_product q) (rq_date q) of
          [] \<Rightarrow> Inl (PricingResolutionError STAGE_RATE_CARD
                  ''no published rate card covers this center, product, and date'')
        | [c] \<Rightarrow>
            (case band_candidates db (rc_id c) q of
               [(m, r)] \<Rightarrow> resolution_result_of e c m r q d
             | [] \<Rightarrow>
                 if active_matrices db (rc_id c) (rq_product q) (rq_dimension q) = []
                   then Inl (PricingResolutionError STAGE_MATRIX
                          ''the rate card has no active matrix for this product and dimension'')
                 else Inl (PricingResolutionError STAGE_BAND ''no active price band contains the reading'')
             | cs \<Rightarrow> Inl (PricingIntegrityError STAGE_BAND (sort (map (\<lambda>p. mr_id (snd p)) cs))))
        | cs \<Rightarrow> Inl (PricingIntegrityError STAGE_RATE_CARD (sort (map rc_id cs)))))"

section \<open>At most one of each\<close>

text \<open>The bands that price a query, as a relation: the card is published, in force and in scope, its
  matrix active, the band active and around the reading.\<close>

definition prices ::
  "'a pricing_db_scheme \<Rightarrow> uuid \<Rightarrow> resolution_query \<Rightarrow> rate_card \<Rightarrow> pricing_matrix \<Rightarrow> matrix_row \<Rightarrow> bool" where
  "prices db tenant q c m r \<longleftrightarrow>
     c \<in> set (rate_cards db) \<and> rc_tenant c = tenant \<and> rc_status c = Published \<and> covers c (rq_date q)
     \<and> center_of (center_assignments db) (rc_id c) (rq_center q)
     \<and> product_of (product_assignments db) (rc_id c) (rq_product q)
     \<and> m \<in> set (matrices db) \<and> pm_key m = (rc_id c, rq_product q, rq_dimension q) \<and> pm_status m = MActive
     \<and> r \<in> set (matrix_rows db) \<and> mr_matrix r = pm_id m \<and> mr_active r \<and> band_contains r (rq_value q)"

lemma concat_map_filter_nil: "concat (map (\<lambda>x. if P x then [f x] else []) xs) = map f (filter P xs)"
  by (induction xs) auto

lemma length_concat_le_1:
  "(\<And>x. x \<in> set xs \<Longrightarrow> length (f x) \<le> 1)
   \<Longrightarrow> (\<And>x y. x \<in> set xs \<Longrightarrow> y \<in> set xs \<Longrightarrow> f x \<noteq> [] \<Longrightarrow> f y \<noteq> [] \<Longrightarrow> x = y)
   \<Longrightarrow> distinct xs \<Longrightarrow> length (concat (map f xs)) \<le> 1"
proof (induction xs)
  case (Cons x xs)
  have IH: "length (concat (map f xs)) \<le> 1" using Cons by (intro Cons.IH) auto
  show ?case
  proof (cases "f x = []")
    case False
    then have "\<forall>y \<in> set xs. f y = []" using Cons.prems(2,3) by auto
    then have "concat (map f (x # xs)) = f x" by simp
    then show ?thesis unfolding \<open>concat (map f (x # xs)) = f x\<close> using Cons.prems(1) [of x] by simp
  qed (use IH in simp)
qed simp

lemma distinct_of_unique: "unique_keys key xs \<Longrightarrow> distinct xs"
  by (simp add: unique_keys_def distinct_map)

lemma applicable_cards_set:
  "set (applicable_cards db t center product on) =
     {c \<in> set (rate_cards db). rc_tenant c = t \<and> rc_status c = Published \<and> covers c on
        \<and> center_of (center_assignments db) (rc_id c) center
        \<and> product_of (product_assignments db) (rc_id c) product}"
  by (auto simp: applicable_cards_def center_of_def product_of_def split: if_splits)

lemma applicable_cards_le_1:
  assumes inv: "pricing_inv db"
  shows "length (applicable_cards db t center product on) \<le> 1"
proof -
  note i = pricing_invD [OF inv]
  define hit where "hit c a p \<longleftrightarrow> ca_card a = rc_id c \<and> pa_card p = rc_id c \<and> rc_tenant c = t
    \<and> rc_status c = Published \<and> covers c on \<and> ca_center a = center \<and> pa_product p = product"
    for c :: rate_card and a :: center_assignment and p :: product_assignment
  define by_product where "by_product c a = concat (map (\<lambda>p. if hit c a p then [c] else [])
      (product_assignments db))" for c a
  define by_center where "by_center c = concat (map (by_product c) (center_assignments db))" for c
  have eq: "applicable_cards db t center product on = concat (map by_center (rate_cards db))"
    unfolding applicable_cards_def by_center_def by_product_def hit_def ..
  have uc: "unique_keys ca_key (center_assignments db)" and up: "unique_keys pa_key (product_assignments db)"
    using i(4,5) by (simp_all add: centers_ok_def products_ok_def)
  have 1: "length (by_product c a) \<le> 1" for c a
    unfolding by_product_def
  proof (rule length_concat_le_1 [OF _ _ distinct_of_unique [OF up]])
    fix p p' assume "p \<in> set (product_assignments db)" "p' \<in> set (product_assignments db)"
      "(if hit c a p then [c] else []) \<noteq> []" "(if hit c a p' then [c] else []) \<noteq> []"
    then show "p = p'"
      using unique_keysD [OF up, of p p'] by (simp add: hit_def pa_key_def split: if_splits)
  qed simp
  have some_p: "\<exists>p \<in> set (product_assignments db). hit c a p" if "by_product c a \<noteq> []" for c a
    using that by (auto simp: by_product_def split: if_splits)
  have 2: "length (by_center c) \<le> 1" for c
    unfolding by_center_def
  proof (rule length_concat_le_1 [OF 1 _ distinct_of_unique [OF uc]])
    fix a b assume ab: "a \<in> set (center_assignments db)" "b \<in> set (center_assignments db)"
      "by_product c a \<noteq> []" "by_product c b \<noteq> []"
    have "ca_key a = ca_key b"
      using some_p [OF ab(3)] some_p [OF ab(4)] by (auto simp: hit_def ca_key_def)
    then show "a = b" by (rule unique_keysD [OF uc ab(1,2)])
  qed
  have some_a: "c \<in> set (applicable_cards db t center product on)"
    if "c \<in> set (rate_cards db)" "by_center c \<noteq> []" for c
    using that unfolding eq by_center_def by (fastforce simp: by_product_def split: if_splits)
  show ?thesis
    unfolding eq
  proof (rule length_concat_le_1 [OF 2 _ distinct_of_unique [OF i(10)]])
    fix c d assume "c \<in> set (rate_cards db)" "d \<in> set (rate_cards db)" "by_center c \<noteq> []" "by_center d \<noteq> []"
    then have cd: "c \<in> set (applicable_cards db t center product on)"
      "d \<in> set (applicable_cards db t center product on)" using some_a by auto
    then have "rc_id c = rc_id d"
      using covers_both_overlap [of c on d] unfolding applicable_cards_set
      by (intro windows_okD [OF i(6), of c d center product]) auto
    then show "c = d" using cd unique_keysD [OF i(10)] by (simp add: applicable_cards_set)
  qed
qed

lemma band_candidates_set:
  "(m, r) \<in> set (band_candidates db c q) \<longleftrightarrow>
     m \<in> set (matrices db) \<and> pm_key m = (c, rq_product q, rq_dimension q) \<and> pm_status m = MActive
     \<and> r \<in> set (matrix_rows db) \<and> mr_matrix r = pm_id m \<and> mr_active r \<and> band_contains r (rq_value q)"
  by (auto simp: band_candidates_def pm_key_def split: if_splits)

lemma band_candidates_le_1:
  assumes inv: "pricing_inv db"
  shows "length (band_candidates db c q) \<le> 1"
proof -
  note i = pricing_invD [OF inv]
  have um: "unique_keys pm_key (matrices db)" using i(8) by (simp add: matrices_ok_def)
  define rows where "rows m = concat (map (\<lambda>r. if mr_matrix r = pm_id m \<and> pm_card m = c \<and> pm_product m = rq_product q
        \<and> pm_dimension m = rq_dimension q \<and> pm_status m = MActive \<and> mr_active r
        \<and> band_contains r (rq_value q) then [(m, r)] else []) (matrix_rows db))"
    for m :: pricing_matrix
  have eq: "band_candidates db c q = concat (map rows (matrices db))"
    unfolding band_candidates_def rows_def ..
  have bands: "r = s" if "r \<in> set (matrix_rows db)" "s \<in> set (matrix_rows db)" "mr_matrix r = mr_matrix s"
      "mr_active r" "mr_active s" "band_contains r v" "band_contains s v" for r s v
    using that i(9) contains_both_overlap [of r v s] bands_disjointD [of "matrix_rows db" r s]
      unique_keysD [OF i(12), of r s] by (auto simp: rows_ok_def)
  show ?thesis
    unfolding eq
  proof (rule length_concat_le_1 [OF _ _ distinct_of_unique [OF um]])
    show "length (rows m) \<le> 1" for m
      unfolding rows_def
    proof (rule length_concat_le_1 [OF _ _ distinct_of_unique [OF i(12)]])
      fix r s assume "r \<in> set (matrix_rows db)" "s \<in> set (matrix_rows db)"
        and "(if mr_matrix r = pm_id m \<and> pm_card m = c \<and> pm_product m = rq_product q
            \<and> pm_dimension m = rq_dimension q \<and> pm_status m = MActive \<and> mr_active r
            \<and> band_contains r (rq_value q) then [(m, r)] else []) \<noteq> []"
        and "(if mr_matrix s = pm_id m \<and> pm_card m = c \<and> pm_product m = rq_product q
            \<and> pm_dimension m = rq_dimension q \<and> pm_status m = MActive \<and> mr_active s
            \<and> band_contains s (rq_value q) then [(m, s)] else []) \<noteq> []"
      then show "r = s" by (intro bands [of r s "rq_value q"]) (simp_all split: if_splits)
    qed simp
    fix m m' assume m: "m \<in> set (matrices db)" "m' \<in> set (matrices db)" "rows m \<noteq> []" "rows m' \<noteq> []"
    have "pm_key x = (c, rq_product q, rq_dimension q)" if "rows x \<noteq> []" for x
      using that by (auto simp: rows_def pm_key_def split: if_splits)
    then have "pm_key m = pm_key m'" using m(3,4) by simp
    then show "m = m'" by (rule unique_keysD [OF um m(1,2)])
  qed
qed


section \<open>What a resolution means\<close>

lemma result_of_ok:
  assumes inv: "pricing_inv db" and c: "c \<in> set (rate_cards db)" and d: "d \<in> set (dimensions db)"
  shows "\<exists>x. resolution_result_of e c m r q d = Inr x \<and> rr_card x = rc_id c \<and> rr_matrix x = pm_id m
     \<and> rr_row x = mr_id r \<and> rr_from x = mr_from r \<and> rr_to x = mr_to r
     \<and> money_of (mr_price r) (rc_currency c) None = Inr (rr_unit_price x)
     \<and> amount (rr_unit_price x) = mr_price r \<and> currency (rr_unit_price x) = rc_currency c
     \<and> q_value (rr_reading x) = rq_value q \<and> q_unit (rr_reading x) = qd_unit d"
  using card_currency [OF inv c] pricing_invD(7) [OF inv] d
  by (auto simp: resolution_result_of_def money_of_valid mk_quantity_def dimensions_ok_def)

lemma find_dimension_SomeD: "find_dimension t k ds = Some d \<Longrightarrow> d \<in> set ds \<and> qd_tenant d = t \<and> qd_code d = k"
  unfolding find_dimension_def by (drule find_SomeD) simp

lemma prices_iff:
  "prices db t q c m r \<longleftrightarrow>
     c \<in> set (applicable_cards db t (rq_center q) (rq_product q) (rq_date q))
     \<and> (m, r) \<in> set (band_candidates db (rc_id c) q)"
  by (auto simp: prices_def applicable_cards_set band_candidates_set)

lemma singleton_of_le_1: "length xs \<le> 1 \<Longrightarrow> x \<in> set xs \<Longrightarrow> xs = [x]"
  by (cases xs) auto

text \<open>The four ways a resolution can end, for a database that satisfies the pricing invariant.\<close>

lemma resolve_cases:
  assumes inv: "pricing_inv db" and t: "current_tenant e = Some t"
  obtains (dimension) "find_dimension t (rq_dimension q) (dimensions db) = None"
      "resolve e db q = Inl (PricingResolutionError STAGE_DIMENSION ''unknown quality dimension'')"
  | (card) d where "find_dimension t (rq_dimension q) (dimensions db) = Some d"
      "applicable_cards db t (rq_center q) (rq_product q) (rq_date q) = []"
      "resolve e db q = Inl (PricingResolutionError STAGE_RATE_CARD
         ''no published rate card covers this center, product, and date'')"
  | (matrix) d c where "find_dimension t (rq_dimension q) (dimensions db) = Some d"
      "applicable_cards db t (rq_center q) (rq_product q) (rq_date q) = [c]"
      "band_candidates db (rc_id c) q = []"
      "active_matrices db (rc_id c) (rq_product q) (rq_dimension q) = []"
      "resolve e db q = Inl (PricingResolutionError STAGE_MATRIX
         ''the rate card has no active matrix for this product and dimension'')"
  | (band) d c where "find_dimension t (rq_dimension q) (dimensions db) = Some d"
      "applicable_cards db t (rq_center q) (rq_product q) (rq_date q) = [c]"
      "band_candidates db (rc_id c) q = []"
      "active_matrices db (rc_id c) (rq_product q) (rq_dimension q) \<noteq> []"
      "resolve e db q = Inl (PricingResolutionError STAGE_BAND ''no active price band contains the reading'')"
  | (found) d c m r x where "find_dimension t (rq_dimension q) (dimensions db) = Some d"
      "applicable_cards db t (rq_center q) (rq_product q) (rq_date q) = [c]"
      "band_candidates db (rc_id c) q = [(m, r)]"
      "resolution_result_of e c m r q d = Inr x" "resolve e db q = Inr x"
proof (cases "find_dimension t (rq_dimension q) (dimensions db)")
  case None
  then show thesis using t by (intro dimension) (simp_all add: resolve_def require_current_tenant_def)
next
  case (Some d)
  note dim = Some
  from applicable_cards_le_1 [OF inv, of t "rq_center q" "rq_product q" "rq_date q"]
  show thesis
  proof (rule length_le_1_cases)
    assume "applicable_cards db t (rq_center q) (rq_product q) (rq_date q) = []"
    then show thesis using t dim by (intro card) (simp_all add: resolve_def require_current_tenant_def)
  next
    fix c assume c: "applicable_cards db t (rq_center q) (rq_product q) (rq_date q) = [c]"
    then have "c \<in> set (applicable_cards db t (rq_center q) (rq_product q) (rq_date q))" by simp
    then have mem: "c \<in> set (rate_cards db)" by (simp add: applicable_cards_set)
    from band_candidates_le_1 [OF inv, of "rc_id c" q]
    show thesis
    proof (rule length_le_1_cases)
      assume none: "band_candidates db (rc_id c) q = []"
      show thesis
      proof (cases "active_matrices db (rc_id c) (rq_product q) (rq_dimension q) = []")
        case True
        then show thesis
          using t dim c none by (intro matrix) (simp_all add: resolve_def require_current_tenant_def)
      next
        case False
        then show thesis
          using t dim c none by (intro band) (simp_all add: resolve_def require_current_tenant_def)
      qed
    next
      fix p assume p: "band_candidates db (rc_id c) q = [p]"
      obtain m r where mr: "p = (m, r)" by (cases p)
      obtain x where x: "resolution_result_of e c m r q d = Inr x"
        using result_of_ok [OF inv mem, of d e m r q] find_dimension_SomeD [OF dim] by blast
      then show thesis
        using t dim c p mr by (intro found [OF dim c _ x]) (simp_all add: resolve_def require_current_tenant_def)
    qed
  qed
qed


lemma resolve_InrE:
  assumes inv: "pricing_inv db" and t: "current_tenant e = Some t" and x: "resolve e db q = Inr x"
  obtains d c m r where "find_dimension t (rq_dimension q) (dimensions db) = Some d" "prices db t q c m r"
    "resolution_result_of e c m r q d = Inr x"
proof (rule resolve_cases [OF inv t, of q])
  fix d c m r y
  assume "find_dimension t (rq_dimension q) (dimensions db) = Some d"
    and "applicable_cards db t (rq_center q) (rq_product q) (rq_date q) = [c]"
    and "band_candidates db (rc_id c) q = [(m, r)]"
    and "resolution_result_of e c m r q d = Inr y" and "resolve e db q = Inr y"
  then show thesis using x by (intro that [of d c m r]) (simp_all add: prices_iff)
qed (use x in simp_all)

lemma resolve_InrI:
  assumes inv: "pricing_inv db" and t: "current_tenant e = Some t"
    and d: "find_dimension t (rq_dimension q) (dimensions db) = Some d" and p: "prices db t q c m r"
  shows "\<exists>x. resolve e db q = Inr x \<and> resolution_result_of e c m r q d = Inr x"
  by (rule resolve_cases [OF inv t, of q]) (use d p in \<open>auto simp: prices_iff\<close>)

lemma result_of_fields:
  assumes "pricing_inv db" and "prices db t q c m r" and "d \<in> set (dimensions db)"
    and "resolution_result_of e c m r q d = Inr x"
  shows "rr_card x = rc_id c \<and> rr_matrix x = pm_id m \<and> rr_row x = mr_id r \<and> amount (rr_unit_price x) = mr_price r
    \<and> currency (rr_unit_price x) = rc_currency c \<and> q_value (rr_reading x) = rq_value q
    \<and> q_unit (rr_reading x) = qd_unit d"
  using result_of_ok [OF assms(1) _ assms(3), of c e m r q] assms(2,4) by (auto simp: prices_def)


text \<open>
  C4: Resolution is never ambiguous. Whatever centre, product, date, dimension and reading are
  asked for, at most one card, matrix and band of the organisation price the query, so the
  engine's integrity error (BR-0003) is not reachable while the pricing invariant holds.
\<close>

theorem resolve_never_ambiguous:
  assumes "pricing_inv db"
  shows "(\<forall>c m r c' m' r'. prices db t q c m r \<longrightarrow> prices db t q c' m' r' \<longrightarrow> c' = c \<and> m' = m \<and> r' = r)
    \<and> (current_tenant e = Some t \<longrightarrow> (\<forall>s ids. resolve e db q \<noteq> Inl (PricingIntegrityError s ids)))"
proof -
  have "c' = c \<and> m' = m \<and> r' = r" if p: "prices db t q c m r" "prices db t q c' m' r'" for c m r c' m' r'
  proof -
    have cards: "c' = c"
      using p singleton_of_le_1 [OF applicable_cards_le_1 [OF assms]] by (metis list.inject prices_iff)
    moreover have "(m', r') = (m, r)"
      using p cards singleton_of_le_1 [OF band_candidates_le_1 [OF assms]] by (metis list.inject prices_iff)
    ultimately show ?thesis by simp
  qed
  moreover have "resolve e db q \<noteq> Inl (PricingIntegrityError s ids)" if "current_tenant e = Some t" for s ids
    by (rule resolve_cases [OF assms that, of q]) simp_all
  ultimately show ?thesis by simp
qed

text \<open>
  C19: A resolution succeeds exactly when some published, in-scope, in-force card has an active
  matrix with an active band around the reading, and then it reports that card, matrix and band,
  the band's price in the card's currency, and the reading in the dimension's unit.
\<close>

theorem resolve_exact:
  assumes "pricing_inv db" and "current_tenant e = Some t"
  shows "(\<exists>x. resolve e db q = Inr x \<and> rr_card x = i \<and> rr_matrix x = j \<and> rr_row x = k
            \<and> amount (rr_unit_price x) = p \<and> currency (rr_unit_price x) = cur)
         \<longleftrightarrow> find_dimension t (rq_dimension q) (dimensions db) \<noteq> None
             \<and> (\<exists>c m r. prices db t q c m r \<and> rc_id c = i \<and> pm_id m = j \<and> mr_id r = k
                  \<and> mr_price r = p \<and> rc_currency c = cur)"
    (is "?ok \<longleftrightarrow> ?dim \<and> ?priced")
proof (rule resolve_cases [OF assms, of q])
  fix d c m r x
  assume d: "find_dimension t (rq_dimension q) (dimensions db) = Some d"
    and c: "applicable_cards db t (rq_center q) (rq_product q) (rq_date q) = [c]"
    and b: "band_candidates db (rc_id c) q = [(m, r)]"
    and x: "resolution_result_of e c m r q d = Inr x" "resolve e db q = Inr x"
  have "c \<in> set (applicable_cards db t (rq_center q) (rq_product q) (rq_date q))" using c by simp
  then have mem: "c \<in> set (rate_cards db)" by (simp add: applicable_cards_set)
  have "rr_card x = rc_id c \<and> rr_matrix x = pm_id m \<and> rr_row x = mr_id r
      \<and> amount (rr_unit_price x) = mr_price r \<and> currency (rr_unit_price x) = rc_currency c"
    using result_of_ok [OF assms(1) mem, of d e m r q] find_dimension_SomeD [OF d] x(1) by auto
  moreover have "prices db t q c' m' r' \<longleftrightarrow> c' = c \<and> m' = m \<and> r' = r" for c' m' r'
    unfolding prices_iff c using b by auto
  ultimately show ?thesis using d x(2) by auto
qed (auto simp: prices_iff)

text \<open>
  A failed resolution names the first stage that has no match: the dimension if the
  organisation does not know it, otherwise the rate card if none is published for the centre,
  product and date, otherwise the matrix if the card has no active one, otherwise the band.
\<close>

theorem resolve_failing_stage:
  assumes "pricing_inv db" and "current_tenant e = Some t" and "resolve e db q = Inl err"
  shows "\<exists>why. err = PricingResolutionError
    (if find_dimension t (rq_dimension q) (dimensions db) = None then STAGE_DIMENSION
     else if applicable_cards db t (rq_center q) (rq_product q) (rq_date q) = [] then STAGE_RATE_CARD
     else if active_matrices db (rc_id (hd (applicable_cards db t (rq_center q) (rq_product q) (rq_date q))))
               (rq_product q) (rq_dimension q) = [] then STAGE_MATRIX
     else STAGE_BAND) why"
  by (rule resolve_cases [OF assms(1,2), of q]) (use assms(3) in auto)

definition sample_query :: "pyfloat \<Rightarrow> resolution_query" where
  "sample_query v = \<lparr>rq_center = 50, rq_product = ''RAW-COW-MILK'', rq_date = 738900,
     rq_dimension = ''FAT'', rq_value = v\<rparr>"

lemma sample_prices: "prices sample_pricing 7 (sample_query (7/2)) sample_card sample_matrix sample_row"
  by (simp add: prices_def sample_query_def sample_defs center_of_def product_of_def pm_key_def covers_def
      band_contains_def)

lemma resolve_never_ambiguous_witness:
  "\<forall>s ids. resolve (sample_env 7 0) sample_pricing (sample_query (7/2)) \<noteq> Inl (PricingIntegrityError s ids)"
  using resolve_never_ambiguous [OF sample_pricing_inv, of 7 "sample_query (7/2)" "sample_env 7 0"]
  by (simp add: sample_env_def)

lemma resolve_exact_witness:
  "\<exists>x. resolve (sample_env 7 0) sample_pricing (sample_query (7/2)) = Inr x \<and> rr_row x = 6
     \<and> amount (rr_unit_price x) = 81/2 \<and> currency (rr_unit_price x) = ''KES''"
proof -
  have "current_tenant (sample_env 7 0) = Some 7" by (simp add: sample_env_def)
  moreover have "find_dimension 7 (rq_dimension (sample_query (7/2))) (dimensions sample_pricing) \<noteq> None"
    by (simp add: find_dimension_def sample_query_def sample_defs)
  moreover have "rc_id sample_card = 1 \<and> pm_id sample_matrix = 5 \<and> mr_id sample_row = 6
      \<and> mr_price sample_row = 81/2 \<and> rc_currency sample_card = ''KES''"
    by (simp add: sample_defs)
  ultimately show ?thesis
    using resolve_exact [OF sample_pricing_inv, of "sample_env 7 0" 7 "sample_query (7/2)" 1 5 6 "81/2" "''KES''"]
      sample_prices by blast
qed

lemma resolve_failing_stage_witness:
  "\<exists>why. resolve (sample_env 7 0) sample_pricing (sample_query (17/4))
           = Inl (PricingResolutionError ''band'' why)"
proof -
  have t: "current_tenant (sample_env 7 0) = Some 7" by (simp add: sample_env_def)
  have r: "resolve (sample_env 7 0) sample_pricing (sample_query (17/4)) =
          Inl (PricingResolutionError STAGE_BAND ''no active price band contains the reading'')"
    by (simp add: resolve_def t require_current_tenant_def find_dimension_def applicable_cards_def
        band_candidates_def active_matrices_def sample_query_def sample_defs covers_def band_contains_def)
  show ?thesis
    using resolve_failing_stage [OF sample_pricing_inv t r] r
    by (simp add: STAGE_BAND_def)
qed

end
