(* ===== verification/Configuration.thy ===== *)
theory Configuration
  imports Platform
begin

text \<open>
  The configuration module (\<open>modules/configuration/service.py\<close>): entries keyed by scope, tenant and
  key, resolved most specific first, the tenant's own value before the global one.
\<close>

section \<open>The service\<close>

definition find_config :: "string \<Rightarrow> uuid option \<Rightarrow> string \<Rightarrow> config_entry list \<Rightarrow> config_entry option" where
  "find_config scope tenant key es =
     find (\<lambda>c. cfg_scope c = scope \<and> cfg_tenant c = tenant \<and> cfg_key c = key) es"

definition find_global :: "string \<Rightarrow> config_entry list \<Rightarrow> config_entry option" where
  "find_global key es = find (\<lambda>c. cfg_scope c = ''global'' \<and> cfg_key c = key) es"

definition resolve_config :: "env \<Rightarrow> 'a core_db_scheme \<Rightarrow> string \<Rightarrow> json result" where
  "resolve_config e db key =
     (let own = (case current_tenant e of
                   None \<Rightarrow> None
                 | Some t \<Rightarrow> find_config ''tenant'' (Some t) key (config_entries db)) in
      case own of
        Some c \<Rightarrow> Inr (cfg_value c)
      | None \<Rightarrow> (case find_global key (config_entries db) of
                   None \<Rightarrow> Inl (NotFoundError ''config key not found'')
                 | Some c \<Rightarrow> Inr (cfg_value c)))"

definition set_config ::
  "env \<Rightarrow> string \<Rightarrow> json \<Rightarrow> string \<Rightarrow> uuid option \<Rightarrow> 'a core_db_scheme \<Rightarrow> 'a core_db_scheme" where
  "set_config e key v scope actor db =
     (let tenant = (if scope = ''tenant'' then current_tenant e else None);
          es = config_entries db;
          es' = (case find_config scope tenant key es of
                   None \<Rightarrow> es @ [\<lparr>cfg_scope = scope, cfg_tenant = tenant, cfg_key = key, cfg_value = v\<rparr>]
                 | Some _ \<Rightarrow> map (\<lambda>c. if cfg_scope c = scope \<and> cfg_tenant c = tenant \<and> cfg_key c = key
                                      then c\<lparr>cfg_value := v\<rparr> else c) es)
      in audit_of e ''configuration.entry.set'' ''config_entry'' (JStr key) actor
           [(''scope'', JStr scope)] (db\<lparr>config_entries := es'\<rparr>))"

section \<open>A scoped store\<close>

text \<open>What a reader relies on: a slot that was written holds what was written, and writing one slot
  changes no other.\<close>

locale slot_store =
  fixes look :: "'s \<Rightarrow> 'k \<Rightarrow> 'v option" and put :: "'k \<Rightarrow> 'v \<Rightarrow> 's \<Rightarrow> 's"
  assumes look_put_same: "look (put k v s) k = Some v"
    and look_put_other: "k \<noteq> k' \<Longrightarrow> look (put k v s) k' = look s k'"
begin

lemma look_after_puts:
  "look (fold (\<lambda>(k, v). put k v) kvs s) k =
     (case map_of (rev kvs) k of None \<Rightarrow> look s k | Some v \<Rightarrow> Some v)"
proof (induction kvs arbitrary: s)
  case (Cons kv kvs)
  obtain k' v where kv: "kv = (k', v)" by (cases kv)
  show ?case
    using look_put_same [of k v s] look_put_other [of k' k v s]
    by (auto simp: kv Cons.IH map_add_def split: option.splits)
qed simp

end

type_synonym config_slot = "string \<times> uuid option \<times> string"

definition look_config :: "config_entry list \<Rightarrow> config_slot \<Rightarrow> json option" where
  "look_config es k = map_option cfg_value (find_config (fst k) (fst (snd k)) (snd (snd k)) es)"

definition put_config :: "config_slot \<Rightarrow> json \<Rightarrow> config_entry list \<Rightarrow> config_entry list" where
  "put_config k v es =
     (case k of (scope, tenant, key) \<Rightarrow>
        case find_config scope tenant key es of
          None \<Rightarrow> es @ [\<lparr>cfg_scope = scope, cfg_tenant = tenant, cfg_key = key, cfg_value = v\<rparr>]
        | Some _ \<Rightarrow> map (\<lambda>c. if cfg_scope c = scope \<and> cfg_tenant c = tenant \<and> cfg_key c = key
                             then c\<lparr>cfg_value := v\<rparr> else c) es)"

lemma config_entries_set:
  "config_entries (set_config e key v scope actor db) =
     put_config (scope, if scope = ''tenant'' then current_tenant e else None, key) v (config_entries db)"
  by (simp add: set_config_def put_config_def Let_def audit_of_def)

lemma find_config_map:
  "find_config a b c (map (\<lambda>x. if cfg_scope x = s \<and> cfg_tenant x = t \<and> cfg_key x = k then x\<lparr>cfg_value := v\<rparr> else x) es) =
     map_option (\<lambda>x. if cfg_scope x = s \<and> cfg_tenant x = t \<and> cfg_key x = k then x\<lparr>cfg_value := v\<rparr> else x)
       (find_config a b c es)"
  unfolding find_config_def by (induction es) auto

lemma find_config_append:
  "find_config a b c (es @ [x]) =
     (case find_config a b c es of
        None \<Rightarrow> if cfg_scope x = a \<and> cfg_tenant x = b \<and> cfg_key x = c then Some x else None
      | Some y \<Rightarrow> Some y)"
  by (simp add: find_config_def find_append split: option.split)

lemma find_config_SomeD: "find_config a b c es = Some x \<Longrightarrow> cfg_scope x = a \<and> cfg_tenant x = b \<and> cfg_key x = c"
  unfolding find_config_def by (drule find_SomeD) simp

interpretation config: slot_store look_config put_config
proof
  fix k :: config_slot and v es
  show "look_config (put_config k v es) k = Some v"
    by (cases "find_config (fst k) (fst (snd k)) (snd (snd k)) es")
      (auto simp: look_config_def put_config_def find_config_map find_config_append split_def
        dest: find_config_SomeD)
next
  fix k k' :: config_slot and v es assume ne: "k \<noteq> k'"
  show "look_config (put_config k v es) k' = look_config es k'"
  proof (cases "find_config (fst k') (fst (snd k')) (snd (snd k')) es")
    case None
    then show ?thesis
      using ne by (cases "find_config (fst k) (fst (snd k)) (snd (snd k)) es")
        (auto simp: look_config_def put_config_def find_config_map find_config_append split_def prod_eq_iff)
  next
    case (Some x)
    then show ?thesis
      using ne find_config_SomeD [OF Some]
      by (cases "find_config (fst k) (fst (snd k)) (snd (snd k)) es")
        (auto simp: look_config_def put_config_def find_config_map find_config_append split_def prod_eq_iff)
  qed
qed

section \<open>Precedence\<close>

lemma resolve_config_look:
  "resolve_config e db key =
     (case Option.bind (current_tenant e) (\<lambda>t. look_config (config_entries db) (''tenant'', Some t, key)) of
        Some v \<Rightarrow> Inr v
      | None \<Rightarrow> need (NotFoundError ''config key not found'')
                  (map_option cfg_value (find_global key (config_entries db))))"
  by (auto simp: resolve_config_def look_config_def Let_def split: option.splits)

lemma find_global_put:
  assumes "fst k \<noteq> ''global''"
  shows "map_option cfg_value (find_global key (put_config k v es)) = map_option cfg_value (find_global key es)"
proof -
  have "find_global key (map f es) = map_option f (find_global key es)"
    if "\<And>x. cfg_scope (f x) = cfg_scope x \<and> cfg_key (f x) = cfg_key x" for f es
    unfolding find_global_def using that by (induction es) auto
  moreover have "find_global key (es @ [x]) = find_global key es" if "cfg_scope x \<noteq> ''global''" for x
    using that by (simp add: find_global_def find_append split: option.split)
  moreover have "map_option cfg_value (map_option (\<lambda>c. if cfg_scope c = fst k \<and> P c then c\<lparr>cfg_value := v\<rparr> else c)
      (find_global key es)) = map_option cfg_value (find_global key es)" for P
    using assms by (cases "find_global key es") (auto simp: find_global_def dest: find_SomeD)
  ultimately show ?thesis
    using assms by (simp add: put_config_def split_def split: option.split)
qed

text \<open>
  An organisation's own setting wins and stays its own. After a tenant-scoped value is set,
  that tenant resolves the key to it whatever the global entry says, and every other tenant and
  every other key resolve to what they resolved to before.
\<close>

theorem config_tenant_value:
  assumes "current_tenant e = Some t"
  shows "resolve_config e (set_config e key v ''tenant'' actor db) key = Inr v
    \<and> (current_tenant e' \<noteq> Some t \<or> key' \<noteq> key \<longrightarrow>
         resolve_config e' (set_config e key v ''tenant'' actor db) key' = resolve_config e' db key')"
proof -
  let ?k = "(''tenant'', Some t, key)"
  have es: "config_entries (set_config e key v ''tenant'' actor db) = put_config ?k v (config_entries db)"
    using assms by (simp add: config_entries_set)
  have "look_config (put_config ?k v es) (''tenant'', Some t', key') = look_config es (''tenant'', Some t', key')"
    if "t' \<noteq> t \<or> key' \<noteq> key" for t' es
    using that by (intro config.look_put_other) auto
  then show ?thesis
    using assms config.look_put_same [of ?k v "config_entries db"]
    by (cases "current_tenant e'") (auto simp: resolve_config_look es find_global_put split: option.split)
qed

lemma config_tenant_value_witness:
  "resolve_config (sample_env 7 0)
     (set_config (sample_env 7 0) ''pricing.rounding_policy'' (JStr ''DOWN'') ''tenant'' None empty_core)
     ''pricing.rounding_policy'' = Inr (JStr ''DOWN'')"
  by (rule config_tenant_value [of "sample_env 7 0" 7, THEN conjunct1]) (simp add: sample_env_def)

end
