(* ===== verification/Calculator.thy ===== *)
theory Calculator
  imports Resolution Configuration
begin

text \<open>
  The pricing calculator (\<open>modules/pricing/calculator.py\<close>): the pure domain calculation
  (unit price times quantity under an explicit rounding policy, with its trace), the
  re-verification of the resolved band, the choice of the policy, and the service that emits
  \<open>pricing.calculated.v1\<close>, the durable record of a calculation.
\<close>

section \<open>The domain calculation\<close>

definition CALCULATOR_VERSION :: string where "CALCULATOR_VERSION = ''1.0.0''"
definition CALCULATED_EVENT :: string where "CALCULATED_EVENT = ''pricing.calculated.v1''"
definition ROUNDING_POLICY_CONFIG_KEY :: string where
  "ROUNDING_POLICY_CONFIG_KEY = ''pricing.rounding_policy''"

text \<open>
  A trace step without its prose: the values are the numbers the strings denote, the expression
  the list of its two factors.
\<close>

record trace_step =
  ts_sequence :: nat
  ts_operation :: string
  ts_values :: payload

record calculation =
  cl_unit_price :: money
  cl_quantity :: quantity
  cl_gross :: money
  cl_currency :: string
  cl_policy :: string
  cl_version :: string
  cl_trace :: "trace_step list"

definition calculate_pure :: "money \<Rightarrow> quantity \<Rightarrow> string \<Rightarrow> calculation result" where
  "calculate_pure price qty policy =
     (if map_of ROUNDING_POLICIES policy = None then Inl (ValueError ''unknown rounding policy'')
      else if q_value qty < 0 then Inl (ValueError ''quantity must not be negative'')
      else
        let f = as_decimal qty;
            raw = dec_mul (amount price) f in
        andthen (multiplied_by price f policy) (\<lambda>gross.
        Inr \<lparr>cl_unit_price = price, cl_quantity = qty, cl_gross = gross, cl_currency = currency price,
             cl_policy = policy, cl_version = CALCULATOR_VERSION,
             cl_trace =
               [\<lparr>ts_sequence = 1, ts_operation = ''inputs'',
                 ts_values = [(''unit_price'', JDec (amount price)), (''currency'', JStr (currency price)),
                   (''quantity'', JDec f), (''unit'', JStr (q_unit qty))]\<rparr>,
                \<lparr>ts_sequence = 2, ts_operation = ''normalize'',
                 ts_values = [(''unit_price'', JDec (amount price)), (''quantity'', JDec f)]\<rparr>,
                \<lparr>ts_sequence = 3, ts_operation = ''multiply'',
                 ts_values = [(''expression'', JList [JDec (amount price), JDec f]), (''raw_amount'', JDec raw)]\<rparr>,
                \<lparr>ts_sequence = 4, ts_operation = ''round'',
                 ts_values = [(''policy'', JStr policy), (''precision'', JInt (int (precision price))),
                   (''raw_amount'', JDec raw), (''rounded_amount'', JDec (amount gross))]\<rparr>]\<rparr>))"

section \<open>Requests and results\<close>

record calculation_request =
  cq_row :: uuid
  cq_quantity :: pyfloat
  cq_unit :: "string option"
  cq_date :: date
  cq_policy :: "string option"

definition CalculationRequest ::
  "uuid \<Rightarrow> pyfloat \<Rightarrow> string option \<Rightarrow> date \<Rightarrow> string option \<Rightarrow> calculation_request result" where
  "CalculationRequest row q u on policy =
     (if q < 0 then Inl (ValueError ''quantity'')
      else if 20 < length (opt_str u) then Inl (ValueError ''quantity_unit'')
      else if (case policy of None \<Rightarrow> False | Some p \<Rightarrow> map_of ROUNDING_POLICIES p = None)
        then Inl (ValueError ''unknown rounding policy'')
      else Inr \<lparr>cq_row = row, cq_quantity = q, cq_unit = u, cq_date = on, cq_policy = policy\<rparr>)"

definition required_unit :: "string option \<Rightarrow> string result" where
  "required_unit u =
     (if opt_str u = [] then Inl (ValueError ''quantity_unit is required'') else Inr (opt_str u))"

record resolution_trace =
  rt_card :: uuid
  rt_card_code :: string
  rt_card_version :: nat
  rt_matrix :: uuid
  rt_matrix_name :: string
  rt_row :: uuid
  rt_from :: pyfloat
  rt_to :: pyfloat

record calculation_result =
  cr_id :: uuid
  cr_calculation :: calculation
  cr_at :: datetime
  cr_resolution :: resolution_trace

section \<open>The service\<close>

definition band_problems :: "matrix_row \<Rightarrow> pricing_matrix \<Rightarrow> rate_card option \<Rightarrow> date \<Rightarrow> string list" where
  "band_problems r m c on =
     (if \<not> mr_active r then [''the resolved band is inactive''] else [])
     @ (if pm_status m \<noteq> MActive then [''the pricing matrix is not active''] else [])
     @ (case c of
          None \<Rightarrow> [''the rate card is no longer published'']
        | Some c \<Rightarrow>
            if rc_status c \<noteq> Published then [''the rate card is no longer published'']
            else if \<not> covers c on
              then [''the transaction date is outside the rate card effective window'']
            else [])"

definition verified_band ::
  "uuid \<Rightarrow> 'a pricing_db_scheme \<Rightarrow> calculation_request
     \<Rightarrow> (matrix_row \<times> pricing_matrix \<times> rate_card) result" where
  "verified_band tenant db req =
     (case row_get mr_id (cq_row req) (matrix_rows db) of
        None \<Rightarrow> Inl (NotFoundError ''pricing matrix row not found'')
      | Some r \<Rightarrow>
          (case row_get pm_id (mr_matrix r) (matrices db) of
             None \<Rightarrow> Inl (NotFoundError ''pricing matrix row not found'')
           | Some m \<Rightarrow>
               if pm_tenant m \<noteq> tenant then Inl (NotFoundError ''pricing matrix row not found'')
               else
                 let c = row_get rc_id (pm_card m) (rate_cards db);
                     problems = band_problems r m c (cq_date req) in
                 if problems \<noteq> [] then Inl (PricingCalculationError problems)
                 else (case c of None \<Rightarrow> Inl (PricingCalculationError problems) | Some c \<Rightarrow> Inr (r, m, c))))"

definition choose_policy :: "env \<Rightarrow> 'a pricing_db_scheme \<Rightarrow> calculation_request \<Rightarrow> string result" where
  "choose_policy e db req =
     (case cq_policy req of
        Some p \<Rightarrow> Inr p
      | None \<Rightarrow>
          (case resolve_config e db ROUNDING_POLICY_CONFIG_KEY of
             Inl _ \<Rightarrow> Inr DEFAULT_ROUNDING_POLICY
           | Inr (JStr p) \<Rightarrow>
               if map_of ROUNDING_POLICIES p = None
                 then Inl (PricingCalculationError [''the configured rounding policy is not supported''])
               else Inr p
           | Inr _ \<Rightarrow> Inl (PricingCalculationError [''the configured rounding policy is not supported''])))"

definition calculate ::
  "env \<Rightarrow> calculation_request \<Rightarrow> uuid \<Rightarrow> 'a pricing_db_scheme
     \<Rightarrow> (calculation_result \<times> 'a pricing_db_scheme) result" where
  "calculate e req actor db =
     andthen (require_current_tenant e) (\<lambda>tenant.
     andthen (verified_band tenant db req) (\<lambda>(r, m, c).
     andthen (choose_policy e db req) (\<lambda>policy.
     andthen (money_of (mr_price r) (rc_currency c) None) (\<lambda>price.
     andthen (required_unit (cq_unit req)) (\<lambda>unit.
     andthen (mk_quantity (cq_quantity req) unit) (\<lambda>qty.
     andthen (calculate_pure price qty policy) (\<lambda>cl.
       let (i, db1) = new_id db;
           db2 = publish e CALCULATED_EVENT
             [(''calculation_id'', JId i), (''rate_card_id'', JId (rc_id c)), (''matrix_id'', JId (pm_id m)),
              (''row_id'', JId (mr_id r)), (''quantity'', JDec (as_decimal (cl_quantity cl))),
              (''quantity_unit'', JStr (q_unit (cl_quantity cl))),
              (''unit_price'', JDec (amount (cl_unit_price cl))),
              (''gross_amount'', JDec (amount (cl_gross cl))), (''currency'', JStr (cl_currency cl)),
              (''rounding_policy'', JStr (cl_policy cl)), (''calculator_version'', JStr (cl_version cl)),
              (''transaction_date'', JDate (cq_date req))]
             (Some actor) (Some ''pricing_calculation'') (Some i) db1
       in Inr (\<lparr>cr_id = i, cr_calculation = cl, cr_at = now e,
                cr_resolution = \<lparr>rt_card = rc_id c, rt_card_code = rc_code c, rt_card_version = rc_version c,
                  rt_matrix = pm_id m, rt_matrix_name = pm_name m, rt_row = mr_id r,
                  rt_from = mr_from r, rt_to = mr_to r\<rparr>\<rparr>, db2))))))))"

section \<open>Facts\<close>

lemma verified_band_InrD:
  "verified_band t db req = Inr (r, m, c) \<Longrightarrow>
     row_get mr_id (cq_row req) (matrix_rows db) = Some r \<and> row_get pm_id (mr_matrix r) (matrices db) = Some m
     \<and> row_get rc_id (pm_card m) (rate_cards db) = Some c \<and> pm_tenant m = t \<and> mr_active r
     \<and> pm_status m = MActive \<and> rc_status c = Published \<and> covers c (cq_date req)"
  by (auto simp: verified_band_def band_problems_def Let_def split: option.splits if_splits)

lemma calculate_pure_InrD:
  assumes "calculate_pure price qty policy = Inr cl"
  shows "cl_unit_price cl = price" "cl_quantity cl = qty" "cl_policy cl = policy" "cl_currency cl = currency price"
    "multiplied_by price (as_decimal qty) policy = Inr (cl_gross cl)" "0 \<le> q_value qty"
  using assms by (auto simp: calculate_pure_def Let_def result_simps)

text \<open>The whole run of a successful calculation.\<close>

lemma calculate_run:
  assumes "calculate e req a db = Inr (x, db')"
  obtains t r m c price qty cl where "current_tenant e = Some t" "verified_band t db req = Inr (r, m, c)"
    "choose_policy e db req = Inr (cl_policy cl)" "money_of (mr_price r) (rc_currency c) None = Inr price"
    "opt_str (cq_unit req) \<noteq> []" "mk_quantity (cq_quantity req) (opt_str (cq_unit req)) = Inr qty"
    "calculate_pure price qty (cl_policy cl) = Inr cl" "cr_calculation x = cl" "cr_id x = next_id db"
    "rt_row (cr_resolution x) = mr_id r" "rt_card (cr_resolution x) = rc_id c"
    "db' = publish e CALCULATED_EVENT
             [(''calculation_id'', JId (next_id db)), (''rate_card_id'', JId (rc_id c)),
              (''matrix_id'', JId (pm_id m)), (''row_id'', JId (mr_id r)),
              (''quantity'', JDec (as_decimal qty)), (''quantity_unit'', JStr (q_unit qty)),
              (''unit_price'', JDec (amount price)), (''gross_amount'', JDec (amount (cl_gross cl))),
              (''currency'', JStr (currency price)), (''rounding_policy'', JStr (cl_policy cl)),
              (''calculator_version'', JStr (cl_version cl)), (''transaction_date'', JDate (cq_date req))]
             (Some a) (Some ''pricing_calculation'') (Some (next_id db)) (db\<lparr>next_id := Suc (next_id db)\<rparr>)"
proof -
  obtain t r m c policy price qty cl where run: "current_tenant e = Some t" "verified_band t db req = Inr (r, m, c)"
    "choose_policy e db req = Inr policy" "money_of (mr_price r) (rc_currency c) None = Inr price"
    "opt_str (cq_unit req) \<noteq> []" "mk_quantity (cq_quantity req) (opt_str (cq_unit req)) = Inr qty"
    "calculate_pure price qty policy = Inr cl"
    using assms by (auto simp: calculate_def require_current_tenant_def required_unit_def result_simps
        new_id_eq Let_def split: prod.splits)
  note cl = calculate_pure_InrD [OF run(7)]
  show thesis
    using assms run cl
    by (intro that [OF run(1,2) _ run(4,5,6), of cl])
      (auto simp: calculate_def require_current_tenant_def required_unit_def new_id_eq Let_def)
qed


lemma calculate_inv:
  assumes "pricing_inv db" and "calculate e req a db = Inr (x, db')"
  shows "pricing_inv db'"
  by (rule calculate_run [OF assms(2)], rule pricing_inv_frame [OF assms(1)]) simp_all

lemma calculate_honours:
  assumes "calculate e req a db = Inr (x, db')"
  shows "honours db db'"
  by (rule calculate_run [OF assms], rule honours_frame [where ds = "[]"]) simp_all

text \<open>
  C20: The domain calculation is exact up to one rounding, and its trace tells the truth. For a
  product that fits the decimal context, the gross differs from price times quantity by at most
  half a unit of the money's precision (less than one unit when truncating) and is never negative for
  a non-negative price. The four trace steps record, in order, the price, currency, quantity and unit
  of the inputs, the normalised price and quantity, the exact product with its factors, and the
  policy, precision, exact and rounded amount of the rounding; the result repeats price, quantity,
  currency and policy.
\<close>

theorem calculate_pure_correct:
  assumes "valid_money price" and "calculate_pure price qty policy = Inr cl"
    and "at_scale s (amount price * as_decimal qty)"
    and "\<bar>amount price * as_decimal qty\<bar> * 10 ^ s < 10 ^ prec"
  shows "currency (cl_gross cl) = currency price \<and> at_scale (precision price) (amount (cl_gross cl))
    \<and> \<bar>amount (cl_gross cl) - amount price * as_decimal qty\<bar>
        < (if policy = ''DOWN'' then 1 else 2/3) / 10 ^ precision price
    \<and> (policy \<noteq> ''DOWN'' \<longrightarrow>
         \<bar>amount (cl_gross cl) - amount price * as_decimal qty\<bar> \<le> 1 / (2 * 10 ^ precision price))
    \<and> (0 \<le> amount price \<longrightarrow> 0 \<le> amount (cl_gross cl))
    \<and> cl_unit_price cl = price \<and> cl_quantity cl = qty \<and> cl_currency cl = currency price \<and> cl_policy cl = policy
    \<and> map ts_sequence (cl_trace cl) = [1, 2, 3, 4]
    \<and> map ts_operation (cl_trace cl) = [''inputs'', ''normalize'', ''multiply'', ''round'']
    \<and> map ts_values (cl_trace cl) =
        [[(''unit_price'', JDec (amount price)), (''currency'', JStr (currency price)),
          (''quantity'', JDec (as_decimal qty)), (''unit'', JStr (q_unit qty))],
         [(''unit_price'', JDec (amount price)), (''quantity'', JDec (as_decimal qty))],
         [(''expression'', JList [JDec (amount price), JDec (as_decimal qty)]),
          (''raw_amount'', JDec (amount price * as_decimal qty))],
         [(''policy'', JStr policy), (''precision'', JInt (int (precision price))),
          (''raw_amount'', JDec (amount price * as_decimal qty)), (''rounded_amount'', JDec (amount (cl_gross cl)))]]"
proof -
  note cl = calculate_pure_InrD [OF assms(2)]
  note mult = multiplied_by_correct [OF assms(1) cl(5) assms(3,4)]
  have raw: "dec_mul (amount price) (as_decimal qty) = amount price * as_decimal qty"
    unfolding dec_mul_def using assms(3,4) by (rule ctx_exact)
  have "0 \<le> amount price \<Longrightarrow> 0 \<le> amount price * as_decimal qty"
    using cl(6) repr_dec_nonneg by (simp add: as_decimal_def)
  then have "0 \<le> amount price \<longrightarrow> 0 \<le> amount (cl_gross cl)"
    using multiplied_by_InrD [OF cl(5)] quantize_nonneg raw by metis
  moreover have "map ts_sequence (cl_trace cl) = [1, 2, 3, 4]
    \<and> map ts_operation (cl_trace cl) = [''inputs'', ''normalize'', ''multiply'', ''round'']
    \<and> map ts_values (cl_trace cl) =
        [[(''unit_price'', JDec (amount price)), (''currency'', JStr (currency price)),
          (''quantity'', JDec (as_decimal qty)), (''unit'', JStr (q_unit qty))],
         [(''unit_price'', JDec (amount price)), (''quantity'', JDec (as_decimal qty))],
         [(''expression'', JList [JDec (amount price), JDec (as_decimal qty)]),
          (''raw_amount'', JDec (amount price * as_decimal qty))],
         [(''policy'', JStr policy), (''precision'', JInt (int (precision price))),
          (''raw_amount'', JDec (amount price * as_decimal qty)), (''rounded_amount'', JDec (amount (cl_gross cl)))]]"
    using assms(2) by (auto simp: calculate_pure_def Let_def result_simps raw)
  moreover have "\<bar>x\<bar> \<le> 1 / (2 * 10 ^ k) \<Longrightarrow> \<bar>x\<bar> < 2/3 / 10 ^ k" for x :: rat and k
    by (rule le_less_trans, assumption) (simp add: field_simps)
  ultimately show ?thesis using mult cl by simp
qed

lemma sample_money_valid:
  "valid_money \<lparr>amount = 81/2, currency = ''KES'', precision = 2, rounding_policy = ROUNDING_POLICY_UNSPECIFIED\<rparr>"
  by (simp add: valid_money_def) code_simp

text \<open>A reading of 12.5 units.\<close>

lemma repr_12_5: "repr_dec (25/2) = 25/2"
proof -
  have "double (25/2) = 25/2" by (rule double_exact [of _ 1 25]) simp_all
  moreover have "digits15 (25/2)" by (rule digits15_at_scale [of 1]) (auto intro: at_scaleI [of _ _ 125])
  ultimately show ?thesis using repr_dec_double [of "25/2"] by metis
qed


section \<open>Calculations of a resolved band\<close>

definition calc_event :: "string" where "calc_event = ''pricing_calculation''"

definition fits :: "decimal \<Rightarrow> bool" where
  "fits q \<longleftrightarrow> 0 \<le> q \<and> q \<le> 10 ^ 15"

lemma multiplied_by_total:
  assumes "valid_money m" and "precision m \<le> 2" and "0 \<le> amount m" "amount m \<le> 10 ^ 8" and "fits f"
    and "map_of ROUNDING_POLICIES policy \<noteq> None"
  shows "\<exists>r. multiplied_by m f policy = Inr r"
proof -
  obtain mode where mode: "rounding_mode_of policy = Inr mode"
    using assms(6) by (auto simp: rounding_mode_of_def)
  have f: "0 \<le> f" "f \<le> 10 ^ 15" using assms(5) by (auto simp: fits_def)
  have x: "0 \<le> amount m * f" using f assms(3) by simp
  have xb: "amount m * f \<le> 10 ^ 8 * 10 ^ 15" using f assms(3,4) by (intro mult_mono) auto
  have "\<bar>ctx (amount m * f) - amount m * f\<bar> \<le> \<bar>amount m * f\<bar> / (2 * 10 ^ 27)" by (rule ctx_error)
  also have "\<dots> \<le> (10 ^ 8 * 10 ^ 15) / (2 * 10 ^ 27)"
    using x xb by (intro divide_right_mono) auto
  also have "\<dots> \<le> 1" by simp
  finally have "ctx (amount m * f) - amount m * f \<le> 1" by (rule abs_le_D1)
  then have "ctx (amount m * f) \<le> 10 ^ 8 * 10 ^ 15 + 1" using xb by linarith
  moreover have "0 \<le> ctx (amount m * f)" using x by (rule ctx_nonneg)
  ultimately have "\<bar>dec_mul (amount m) f\<bar> \<le> 10 ^ 8 * 10 ^ 15 + 1" by (simp add: dec_mul_def)
  moreover have "(10::rat) ^ precision m \<le> 10 ^ 2" using assms(2) by (intro power_increasing) auto
  ultimately have "\<bar>dec_mul (amount m) f\<bar> * 10 ^ precision m \<le> (10 ^ 8 * 10 ^ 15 + 1) * 10 ^ 2"
    by (intro mult_mono) auto
  then have "\<bar>dec_mul (amount m) f\<bar> * 10 ^ precision m \<le> 10 ^ prec - 1" by (simp add: prec_def)
  then obtain y where "quantize mode (precision m) (dec_mul (amount m) f) = Inr y"
    using quantize_total by blast
  then show ?thesis using mode mk_money_same [OF assms(1)] by (simp add: multiplied_by_def)
qed

lemma row_get_in: "unique_keys key rows \<Longrightarrow> r \<in> set rows \<Longrightarrow> key r = i \<Longrightarrow> row_get key i rows = Some r"
  using row_get_unique [of key rows r] by auto

lemma resolved_calculates:
  assumes inv: "pricing_inv db" and agg: "aggregates_ok calc_event db" and t: "current_tenant e = Some t"
    and res: "resolve e db q = Inr x"
    and req: "cq_row req = rr_row x" "cq_date req = rq_date q" "opt_str (cq_unit req) \<noteq> []"
      "length (opt_str (cq_unit req)) \<le> 20" "0 \<le> cq_quantity req" "fits (repr_dec (cq_quantity req))"
    and policy: "choose_policy e db req = Inr p" "map_of ROUNDING_POLICIES p \<noteq> None"
  shows "\<exists>y db' ev. calculate e req a db = Inr (y, db')
    \<and> cl_unit_price (cr_calculation y) = rr_unit_price x
    \<and> rt_card (cr_resolution y) = rr_card x \<and> rt_row (cr_resolution y) = rr_row x
    \<and> find_aggregate_event calc_event (cr_id y) t db' = Some ev
    \<and> map_of (ev_payload ev) ''unit_price'' = Some (JDec (amount (rr_unit_price x)))
    \<and> map_of (ev_payload ev) ''gross_amount'' = Some (JDec (amount (cl_gross (cr_calculation y))))
    \<and> map_of (ev_payload ev) ''quantity_unit'' = Some (JStr (opt_str (cq_unit req)))"
proof -
  note i = pricing_invD [OF inv]
  obtain d c m r where d: "find_dimension t (rq_dimension q) (dimensions db) = Some d"
    and c: "applicable_cards db t (rq_center q) (rq_product q) (rq_date q) = [c]"
    and b: "band_candidates db (rc_id c) q = [(m, r)]"
    and x: "resolution_result_of e c m r q d = Inr x"
    by (rule resolve_cases [OF inv t, of q]) (use res in auto)
  have p: "prices db t q c m r" unfolding prices_iff c b by simp
  have mem: "c \<in> set (rate_cards db)" "m \<in> set (matrices db)" "r \<in> set (matrix_rows db)"
    using p by (simp_all add: prices_def)
  have px: "rr_row x = mr_id r" "rr_card x = rc_id c"
    "money_of (mr_price r) (rc_currency c) None = Inr (rr_unit_price x)"
    using result_of_ok [OF inv mem(1), of d e m r q] find_dimension_SomeD [OF d] x by auto
  have fm: "pm_tenant m = t"
    using matrices_status [OF i(8) i(10) mem(1,2)] p by (simp add: follows_def prices_def pm_key_def)
  have vb: "verified_band t db req = Inr (r, m, c)"
    using p req(1,2) px fm row_get_in [OF i(12) mem(3)] row_get_in [OF i(11) mem(2)] row_get_in [OF i(10) mem(1)]
    by (simp add: verified_band_def band_problems_def prices_def pm_key_def)
  let ?q = "\<lparr>q_value = cq_quantity req, q_unit = opt_str (cq_unit req), q_precision = 2\<rparr>"
  have qty: "mk_quantity (cq_quantity req) (opt_str (cq_unit req)) = Inr ?q"
    using req(4) by (simp add: mk_quantity_def)
  have cur: "valid_money (rr_unit_price x)" "precision (rr_unit_price x) \<le> 2" "amount (rr_unit_price x) = mr_price r"
  proof -
    have "rr_unit_price x = \<lparr>amount = mr_price r, currency = rc_currency c,
        precision = minor_units (Some (rc_currency c)), rounding_policy = ROUNDING_POLICY_UNSPECIFIED\<rparr>"
      using money_of_valid [OF card_currency [OF inv mem(1)], of "mr_price r"] px(3) by simp
    then show "valid_money (rr_unit_price x)" "precision (rr_unit_price x) \<le> 2"
      "amount (rr_unit_price x) = mr_price r"
      using card_currency [OF inv mem(1)] minor_units_le [of "Some (rc_currency c)"]
      by (simp_all add: valid_money_def)
  qed
  have "0 < mr_price r" "mr_price r < 10 ^ 8"
    using i(9) mem(3) by (auto simp: rows_ok_def row_ok_def)
  then obtain g where g: "multiplied_by (rr_unit_price x) (as_decimal ?q) p = Inr g"
    using multiplied_by_total [OF cur(1,2), of "as_decimal ?q" p] cur(3) req(6) policy(2)
    by (auto simp: as_decimal_def)
  obtain cl where cl: "calculate_pure (rr_unit_price x) ?q p = Inr cl"
    using g req(5) policy(2) by (auto simp: calculate_pure_def Let_def)
  note cf = calculate_pure_InrD [OF cl]
  have fresh: "look_event (outbox db) (Some calc_event, Some (next_id db), Some t) = None"
    by (rule aggregates_ok_fresh [OF agg])
  show ?thesis
    using t vb policy px req(3) qty cl cf fresh cur
    by (auto simp: calculate_def require_current_tenant_def required_unit_def new_id_eq Let_def
        find_aggregate_event_look outbox_publish look_event_def find_append event_key_of_def calc_event_def)
qed


text \<open>
  What is resolved can be calculated, at the resolved price. If a query resolves to a band,
  then a calculation for that band on the same date, in a non-empty unit, for any quantity from 0
  to 10^15 and under a supported policy succeeds; it uses exactly the unit price and the card the
  resolution reported, and the calculated event that settlement will read back carries the unit
  price, the gross amount and the unit of this calculation.
\<close>

theorem resolved_is_calculable:
  assumes inv: "pricing_inv db" and agg: "aggregates_ok calc_event db" and t: "current_tenant e = Some t"
    and res: "resolve e db q = Inr x"
    and req: "cq_row req = rr_row x" "cq_date req = rq_date q" "opt_str (cq_unit req) \<noteq> []"
      "length (opt_str (cq_unit req)) \<le> 20" "0 \<le> cq_quantity req" "fits (repr_dec (cq_quantity req))"
    and policy: "choose_policy e db req = Inr p" "map_of ROUNDING_POLICIES p \<noteq> None"
  shows "\<exists>y db' ev. calculate e req a db = Inr (y, db')
    \<and> cl_unit_price (cr_calculation y) = rr_unit_price x
    \<and> rt_card (cr_resolution y) = rr_card x \<and> rt_row (cr_resolution y) = rr_row x
    \<and> find_aggregate_event calc_event (cr_id y) t db' = Some ev
    \<and> map_of (ev_payload ev) ''unit_price'' = Some (JDec (amount (rr_unit_price x)))
    \<and> map_of (ev_payload ev) ''gross_amount'' = Some (JDec (amount (cl_gross (cr_calculation y))))
    \<and> map_of (ev_payload ev) ''quantity_unit'' = Some (JStr (opt_str (cq_unit req)))"
  by (rule resolved_calculates [OF assms])


definition sample_price :: money where
  "sample_price = \<lparr>amount = 81/2, currency = ''KES'', precision = 2,
     rounding_policy = ROUNDING_POLICY_UNSPECIFIED\<rparr>"

definition sample_quantity :: quantity where
  "sample_quantity = \<lparr>q_value = 25/2, q_unit = ''kg'', q_precision = 2\<rparr>"

lemma calculate_pure_correct_witness:
  "\<exists>cl. calculate_pure sample_price sample_quantity ''HALF_UP'' = Inr cl
     \<and> \<bar>amount (cl_gross cl) - 81/2 * (25/2)\<bar> \<le> 1 / (2 * 10 ^ 2)"
proof -
  have v: "valid_money sample_price" using sample_money_valid by (simp add: sample_price_def)
  have q: "as_decimal sample_quantity = 25/2" by (simp add: as_decimal_def sample_quantity_def repr_12_5)
  obtain r where "multiplied_by sample_price (25/2) ''HALF_UP'' = Inr r"
    using multiplied_by_total [OF v, of "25/2" "''HALF_UP''"]
    by (auto simp: sample_price_def fits_def ROUNDING_POLICIES_def)
  then obtain cl where cl: "calculate_pure sample_price sample_quantity ''HALF_UP'' = Inr cl"
    using that unfolding calculate_pure_def Let_def q
    by (simp add: ROUNDING_POLICIES_def) (simp add: sample_quantity_def)
  have s: "at_scale 2 (amount sample_price * as_decimal sample_quantity)"
    unfolding q by (rule at_scaleI [of _ _ 50625]) (simp add: sample_price_def)
  have b: "\<bar>amount sample_price * as_decimal sample_quantity\<bar> * 10 ^ 2 < 10 ^ prec"
    unfolding q by (simp add: sample_price_def prec_def)
  show ?thesis
    using calculate_pure_correct [OF v cl s b] cl unfolding q by (auto simp: sample_price_def)
qed

lemma resolved_is_calculable_witness:
  "\<exists>x y db'. resolve (sample_env 7 0) sample_pricing (sample_query (7/2)) = Inr x
     \<and> calculate (sample_env 7 0) \<lparr>cq_row = 6, cq_quantity = 25/2, cq_unit = Some ''kg'', cq_date = 738900,
          cq_policy = None\<rparr> 9 sample_pricing = Inr (y, db')
     \<and> amount (cl_unit_price (cr_calculation y)) = amount (rr_unit_price x)"
proof -
  let ?e = "sample_env 7 0"
  let ?req = "\<lparr>cq_row = 6, cq_quantity = 25/2, cq_unit = Some ''kg'', cq_date = 738900, cq_policy = None\<rparr>"
  have t: "current_tenant ?e = Some 7" by (simp add: sample_env_def)
  obtain x where x: "resolve ?e sample_pricing (sample_query (7/2)) = Inr x" "rr_row x = 6"
  proof -
    have "resolve ?e sample_pricing (sample_query (7/2)) =
        resolution_result_of ?e sample_card sample_matrix sample_row (sample_query (7/2)) sample_dimension"
      by (simp add: resolve_def t require_current_tenant_def find_dimension_def applicable_cards_def
          band_candidates_def sample_query_def sample_defs covers_def band_contains_def)
    moreover have "\<exists>x. \<dots> = Inr x \<and> rr_row x = mr_id sample_row"
      using result_of_ok [OF sample_pricing_inv, of sample_card sample_dimension ?e sample_matrix sample_row]
      by (auto simp: sample_pricing_def)
    ultimately show thesis using that by (auto simp: sample_row_def)
  qed
  have agg: "aggregates_ok calc_event sample_pricing" by (simp add: aggregates_ok_def sample_pricing_def)
  have pol: "choose_policy ?e sample_pricing ?req = Inr ''HALF_UP''"
    by (simp add: choose_policy_def resolve_config_def find_config_def find_global_def sample_env_def
        sample_pricing_def DEFAULT_ROUNDING_POLICY_def)
  have known: "map_of ROUNDING_POLICIES ''HALF_UP'' \<noteq> None" by (simp add: ROUNDING_POLICIES_def)
  have "fits (repr_dec (cq_quantity ?req))" by (simp add: fits_def repr_12_5)
  then show ?thesis
    using resolved_is_calculable [OF sample_pricing_inv agg t x(1), of ?req] x pol known
    by (fastforce simp: opt_str_def sample_query_def)
qed

end
