(* ===== verification/FloatMath.thy ===== *)
theory FloatMath
  imports Floats
begin

text \<open>
  The float arithmetic the collection service needs beyond subtraction: the basic operations, the
  correctly rounded square root, and \<open>statistics.fmean\<close> and \<open>statistics.pstdev\<close>, which compute
  exactly on the rationals and round at the end.
\<close>

section \<open>Basic operations\<close>

definition fl_add :: "pyfloat \<Rightarrow> pyfloat \<Rightarrow> pyfloat" where
  "fl_add x y = double (x + y)"

definition fl_mul :: "pyfloat \<Rightarrow> pyfloat \<Rightarrow> pyfloat" where
  "fl_mul x y = double (x * y)"

definition fl_div :: "pyfloat \<Rightarrow> pyfloat \<Rightarrow> pyfloat" where
  "fl_div x y = double (x / y)"

section \<open>Square roots\<close>

text \<open>\<open>math.isqrt\<close>, two bits of the argument per bit of the root.\<close>

fun isqrt :: "nat \<Rightarrow> nat" where
  "isqrt n =
     (if n = 0 then 0
      else let r = 2 * isqrt (n div 4) in if (r + 1) * (r + 1) \<le> n then r + 1 else r)"

declare isqrt.simps [simp del]

lemma isqrt_bounds: "isqrt n * isqrt n \<le> n \<and> n < (isqrt n + 1) * (isqrt n + 1)"
proof (induction n rule: isqrt.induct)
  case (1 n)
  show ?case
  proof (cases "n = 0")
    case False
    define s where "s = isqrt (n div 4)"
    have s: "s * s \<le> n div 4" "n div 4 < (s + 1) * (s + 1)" using 1 False by (simp_all add: s_def)
    have "(2 * s) * (2 * s) = 4 * (s * s)" by (simp add: algebra_simps)
    then have lo: "(2 * s) * (2 * s) \<le> n" using s(1) by linarith
    have "n div 4 + 1 \<le> (s + 1) * (s + 1)" using s(2) by linarith
    then have "4 * (n div 4) + 4 \<le> 4 * ((s + 1) * (s + 1))" by linarith
    also have "\<dots> = (2 * s + 2) * (2 * s + 2)" by (simp add: algebra_simps)
    finally have "n < (2 * s + 2) * (2 * s + 2)" by linarith
    then show ?thesis using lo False by (simp add: isqrt.simps [of n] s_def [symmetric] Let_def)
  qed (simp add: isqrt.simps)
qed

text \<open>The nearest integer to the square root, a tie to the even one.\<close>

definition round_sqrt :: "rat \<Rightarrow> int" where
  "round_sqrt y =
     (let r = int (isqrt (nat \<lfloor>y\<rfloor>)); mid = (of_int r + 1/2) * (of_int r + 1/2) in
      if mid < y then r + 1 else if y < mid then r else if even r then r else r + 1)"

definition fl_sqrt :: "rat \<Rightarrow> pyfloat" where
  "fl_sqrt x =
     (if x \<le> 0 then 0
      else let s = scale_up 4 (2 ^ 104) x; d = scale_dn 4 (2 ^ 106) x in
        of_int (round_sqrt (x * 4 ^ s / 4 ^ d)) * 2 ^ d / 2 ^ s)"

text \<open>The rounded root of \<open>y\<close> is within half of the exact one, stated without the root itself.\<close>

lemma round_sqrt_close:
  assumes "0 \<le> y"
  shows "0 \<le> round_sqrt y"
    "1 \<le> round_sqrt y \<Longrightarrow> (of_int (round_sqrt y) - 1/2) * (of_int (round_sqrt y) - 1/2) \<le> y"
    "y \<le> (of_int (round_sqrt y) + 1/2) * (of_int (round_sqrt y) + 1/2)"
proof -
  define r where "r = int (isqrt (nat \<lfloor>y\<rfloor>))"
  have r: "0 \<le> r" by (simp add: r_def)
  have "isqrt (nat \<lfloor>y\<rfloor>) * isqrt (nat \<lfloor>y\<rfloor>) \<le> nat \<lfloor>y\<rfloor>"
    "nat \<lfloor>y\<rfloor> < (isqrt (nat \<lfloor>y\<rfloor>) + 1) * (isqrt (nat \<lfloor>y\<rfloor>) + 1)"
    using isqrt_bounds [of "nat \<lfloor>y\<rfloor>"] by auto
  then have "int (isqrt (nat \<lfloor>y\<rfloor>) * isqrt (nat \<lfloor>y\<rfloor>)) \<le> int (nat \<lfloor>y\<rfloor>)"
    "int (nat \<lfloor>y\<rfloor>) + 1 \<le> int ((isqrt (nat \<lfloor>y\<rfloor>) + 1) * (isqrt (nat \<lfloor>y\<rfloor>) + 1))"
    by linarith+
  then have i: "r * r \<le> \<lfloor>y\<rfloor>" "\<lfloor>y\<rfloor> + 1 \<le> (r + 1) * (r + 1)"
    using assms by (simp_all add: r_def algebra_simps)
  have "of_int (r * r) \<le> y" using i(1) by (simp add: le_floor_iff)
  then have lo: "of_int r * of_int r \<le> y" by simp
  have "y < of_int (\<lfloor>y\<rfloor> + 1)" by linarith
  also have "\<dots> \<le> of_int ((r + 1) * (r + 1))" using i(2) by (simp only: of_int_le_iff)
  finally have hi: "y < (of_int r + 1) * (of_int r + 1)" by simp
  have c: "round_sqrt y = r \<and> y \<le> (of_int r + 1/2) * (of_int r + 1/2)
      \<or> round_sqrt y = r + 1 \<and> (of_int r + 1/2) * (of_int r + 1/2) \<le> y"
    unfolding round_sqrt_def r_def [symmetric] Let_def by auto
  have half: "(of_int r - 1/2) * (of_int r - 1/2) \<le> (of_int r * of_int r :: rat)" if "1 \<le> r"
    using that by (simp add: algebra_simps)
  have up: "(of_int r + 1) * (of_int r + 1) \<le> (of_int r + 3/2) * (of_int r + 3/2 :: rat)"
    using r by (intro mult_mono) simp_all
  show "0 \<le> round_sqrt y" using c r by auto
  show "(of_int (round_sqrt y) - 1/2) * (of_int (round_sqrt y) - 1/2) \<le> y" if "1 \<le> round_sqrt y"
    using c
  proof
    assume "round_sqrt y = r \<and> y \<le> (of_int r + 1/2) * (of_int r + 1/2)"
    then show ?thesis using half lo that by simp
  next
    assume "round_sqrt y = r + 1 \<and> (of_int r + 1/2) * (of_int r + 1/2) \<le> y"
    then show ?thesis by (simp add: algebra_simps)
  qed
  show "y \<le> (of_int (round_sqrt y) + 1/2) * (of_int (round_sqrt y) + 1/2)"
    using c
  proof
    assume "round_sqrt y = r + 1 \<and> (of_int r + 1/2) * (of_int r + 1/2) \<le> y"
    then have "(of_int (round_sqrt y) + 1/2) * (of_int (round_sqrt y) + 1/2) = (of_int r + 3/2) * (of_int r + 3/2 :: rat)"
      by (simp add: add.commute)
    then show ?thesis using hi up by linarith
  qed simp
qed

section \<open>Statistics\<close>

definition fmean :: "pyfloat list \<Rightarrow> pyfloat" where
  "fmean xs = fl_div (double (sum_list xs)) (of_nat (length xs))"

definition variance :: "pyfloat list \<Rightarrow> rat" where
  "variance xs =
     (let n = of_nat (length xs); mu = sum_list xs / n in sum_list (map (\<lambda>x. (x - mu) * (x - mu)) xs) / n)"

definition pstdev :: "pyfloat list \<Rightarrow> pyfloat" where
  "pstdev xs = fl_sqrt (variance xs)"

end
