(* ===== verification/Readings.thy ===== *)
theory Readings
  imports FloatMath Platform
begin

text \<open>
  Where the numbers of a collection come from: the mock instruments and the guard that refuses them
  (\<open>infrastructure/hardware.py\<close>), the attribution of an instrument reading to a registered device
  (\<open>milk_collection/service.py\<close>, \<open>_resolve_instrument\<close> and \<open>_provenance\<close>), and the plausibility
  bounds on weights and qualities.
\<close>

section \<open>Mock instruments\<close>

definition mock_seed :: "env \<Rightarrow> string \<Rightarrow> pyfloat \<Rightarrow> pyfloat \<Rightarrow> nat \<Rightarrow> pyfloat" where
  "mock_seed e key lo hi digits =
     (let h = fl_div (of_nat (sha_seed e key)) 4294967295 in
      py_round digits (fl_add lo (fl_mul h (fl_sub hi lo))))"

definition refuse_unless_allowed :: "env \<Rightarrow> string \<Rightarrow> unit result" where
  "refuse_unless_allowed e device =
     (if \<not> mock_hardware_enabled e
        then Inl (MockHardwareRefused (device @ '' cannot fabricate a measurement in this environment''))
      else Inr ())"

definition mock_scale_read :: "env \<Rightarrow> string \<Rightarrow> (pyfloat \<times> pyfloat) result" where
  "mock_scale_read e container =
     andthen (refuse_unless_allowed e ''mock_scale'') (\<lambda>_.
     Inr (mock_seed e (''gross:'' @ container) 8 42 2, mock_seed e (''tare:'' @ container) 1 3 2))"

record quality_values =
  qv_fat :: pyfloat
  qv_snf :: pyfloat
  qv_clr :: pyfloat
  qv_density :: "pyfloat option"
  qv_temperature :: "pyfloat option"

definition mock_analyzer_read :: "env \<Rightarrow> string \<Rightarrow> quality_values result" where
  "mock_analyzer_read e container =
     andthen (refuse_unless_allowed e ''mock_analyzer'') (\<lambda>_.
     Inr \<lparr>qv_fat = mock_seed e (''fat:'' @ container) 3 (13/2) 2,
          qv_snf = mock_seed e (''snf:'' @ container) (15/2) (19/2) 2,
          qv_clr = mock_seed e (''clr:'' @ container) 26 32 2,
          qv_density = Some (mock_seed e (''density:'' @ container) (double (1026/1000)) (double (1032/1000)) 4),
          qv_temperature = Some (mock_seed e (''temp:'' @ container) 18 30 1)\<rparr>)"

definition refuse_mock_source :: "env \<Rightarrow> string \<Rightarrow> unit result" where
  "refuse_mock_source e source =
     (if \<not> mock_hardware_enabled e
        then Inl (MockHardwareRefused (source @ '' is not permitted in this environment''))
      else Inr ())"

section \<open>Registered instruments\<close>

definition INSTRUMENT_SOURCES :: "(string \<times> string) list" where
  "INSTRUMENT_SOURCES = [(''scale'', ''scale''), (''analyzer'', ''milk_analyzer'')]"

definition get_device :: "env \<Rightarrow> 'a core_db_scheme \<Rightarrow> uuid \<Rightarrow> device result" where
  "get_device e db i =
     andthen (require_current_tenant e) (\<lambda>tenant.
       case row_get dev_id i (devices db) of
         None \<Rightarrow> Inl (NotFoundError ''device not found'')
       | Some d \<Rightarrow> if dev_tenant d \<noteq> tenant then Inl (NotFoundError ''device not found'') else Inr d)"

definition resolve_instrument ::
  "env \<Rightarrow> 'a core_db_scheme \<Rightarrow> string \<Rightarrow> uuid option \<Rightarrow> uuid \<Rightarrow> uuid result" where
  "resolve_instrument e db source claimed center =
     (case claimed of
        None \<Rightarrow> Inl (ConflictError ''the source requires the device_id that produced the reading'')
      | Some i \<Rightarrow>
          andthen (get_device e db i) (\<lambda>d.
          if Some (dev_category d) \<noteq> map_of INSTRUMENT_SOURCES source
            then Inl (ConflictError ''the device cannot produce such a reading'')
          else if dev_status d \<noteq> ''active'' then Inl (ConflictError ''the device is not active'')
          else if dev_center d \<noteq> Some center
            then Inl (ConflictError ''the device is not assigned to this centre'')
          else Inr (dev_id d)))"

definition provenance :: "string \<Rightarrow> uuid option \<Rightarrow> string option \<Rightarrow> payload" where
  "provenance source device frame =
     [(''source'', JStr source)]
     @ (case device of None \<Rightarrow> [] | Some d \<Rightarrow> [(''device_id'', JId d)])
     @ (if opt_str frame = [] then [] else [(''frame_hash'', JStr (opt_str frame))])"

section \<open>Bounds\<close>

definition MAX_GROSS :: pyfloat where
  "MAX_GROSS = 200"

definition QUALITY_RANGES :: "(string \<times> pyfloat \<times> pyfloat) list" where
  "QUALITY_RANGES =
     [(''fat'', 0, 15), (''snf'', 0, 15), (''clr'', 20, 40), (''density'', 1, double (115/100)),
      (''temperature_c'', 0, 50)]"

definition quality_items :: "quality_values \<Rightarrow> (string \<times> pyfloat option) list" where
  "quality_items v =
     [(''fat'', Some (qv_fat v)), (''snf'', Some (qv_snf v)), (''clr'', Some (qv_clr v)),
      (''density'', qv_density v), (''temperature_c'', qv_temperature v)]"

definition in_range :: "string \<Rightarrow> pyfloat option \<Rightarrow> bool" where
  "in_range k v =
     (case v of None \<Rightarrow> True
      | Some x \<Rightarrow> (case map_of QUALITY_RANGES k of None \<Rightarrow> True | Some (lo, hi) \<Rightarrow> lo \<le> x \<and> x \<le> hi))"

definition check_quality :: "quality_values \<Rightarrow> unit result" where
  "check_quality v =
     (case find (\<lambda>(k, x). \<not> in_range k x) (quality_items v) of
        None \<Rightarrow> Inr ()
      | Some (k, _) \<Rightarrow> Inl (ConflictError (k @ '' out of range'')))"

definition check_weight :: "pyfloat \<Rightarrow> pyfloat \<Rightarrow> unit result" where
  "check_weight gross tare =
     (if gross \<le> 0 \<or> tare < 0 then Inl (ConflictError ''gross must be > 0 and tare >= 0'')
      else if MAX_GROSS < gross then Inl (ConflictError ''gross exceeds the limit'')
      else if gross \<le> tare then Inl (ConflictError ''tare must be less than gross'')
      else Inr ())"

section \<open>Facts\<close>

lemma refuse_mock_source_Inr [result_simps]:
  "refuse_mock_source e s = Inr u \<longleftrightarrow> mock_hardware_enabled e"
  by (simp add: refuse_mock_source_def)

lemma check_weight_Inr [result_simps]:
  "check_weight g t = Inr u \<longleftrightarrow> 0 < g \<and> 0 \<le> t \<and> g \<le> 200 \<and> t < g"
  by (auto simp: check_weight_def MAX_GROSS_def)

lemma check_quality_Inr:
  "check_quality v = Inr u \<longleftrightarrow>
     0 \<le> qv_fat v \<and> qv_fat v \<le> 15 \<and> 0 \<le> qv_snf v \<and> qv_snf v \<le> 15 \<and> 20 \<le> qv_clr v \<and> qv_clr v \<le> 40
     \<and> (\<forall>x. qv_density v = Some x \<longrightarrow> 1 \<le> x \<and> x \<le> double (115/100))
     \<and> (\<forall>x. qv_temperature v = Some x \<longrightarrow> 0 \<le> x \<and> x \<le> 50)"
  by (cases "qv_density v"; cases "qv_temperature v")
    (auto simp: check_quality_def quality_items_def in_range_def QUALITY_RANGES_def split: if_splits)

text \<open>What an accepted attribution guarantees.\<close>

lemma resolve_instrument_InrD:
  assumes "resolve_instrument e db source claimed center = Inr i"
  obtains d where "claimed = Some i" "row_get dev_id i (devices db) = Some d"
    "current_tenant e = Some (dev_tenant d)" "map_of INSTRUMENT_SOURCES source = Some (dev_category d)"
    "dev_status d = ''active''" "dev_center d = Some center"
proof -
  obtain j d where j: "claimed = Some j" "get_device e db j = Inr d"
      "map_of INSTRUMENT_SOURCES source = Some (dev_category d)" "dev_status d = ''active''"
      "dev_center d = Some center" "dev_id d = i"
    using assms by (auto simp: resolve_instrument_def result_simps split: option.splits if_splits)
  then have d: "row_get dev_id j (devices db) = Some d" "current_tenant e = Some (dev_tenant d)"
    by (auto simp: get_device_def require_current_tenant_def result_simps split: option.splits if_splits)
  then have "j = i" using row_get_SomeD [OF d(1)] j(6) by simp
  then show thesis using that j d by simp
qed

text \<open>The net weight of two readings of at most three decimals is their exact difference.\<close>

lemma net_weight_exact:
  assumes "at_scale 3 g" "at_scale 3 t" and "0 \<le> t" "t < g" "g \<le> 200"
  shows "py_round 3 (fl_sub (double g) (double t)) = double (g - t)"
proof -
  obtain k where k: "g = of_int k / 10 ^ 3" using assms(1) by (rule at_scaleE)
  obtain l where l: "t = of_int l / 10 ^ 3" using assms(2) by (rule at_scaleE)
  have e: "\<bar>double g - g\<bar> \<le> 200 / 2 ^ 53" "\<bar>double t - t\<bar> \<le> 200 / 2 ^ 53"
    using double_error [of g] double_error [of t] assms by (auto intro: order_trans divide_right_mono)
  define x where "x = double g - double t"
  have x: "\<bar>x - (g - t)\<bar> \<le> 400 / 2 ^ 53" using e unfolding x_def by linarith
  have "(400::rat) / 2 ^ 53 \<le> 1" by simp
  then have "\<bar>x\<bar> \<le> 201" using x assms(3-5) by linarith
  then have "\<bar>x\<bar> / 2 ^ 53 \<le> 201 / 2 ^ 53" by (rule divide_right_mono) simp
  then have "\<bar>double x - x\<bar> \<le> 201 / 2 ^ 53" using double_error [of x] by linarith
  then have "\<bar>double x - (g - t)\<bar> \<le> 601 / 2 ^ 53" using x by linarith
  moreover have "double x * 10 ^ 3 - of_int (k - l) = (double x - (g - t)) * 10 ^ 3"
    by (simp add: k l field_simps)
  ultimately have "\<bar>double x * 10 ^ 3 - of_int (k - l)\<bar> < 1/2"
    by (simp only: abs_mult) simp
  then have "round_half_even (double x * 10 ^ 3) = k - l" by (rule round_half_even_eqI)
  then have "py_round 3 (double x) = double (of_int (k - l) / 10 ^ 3)" by (simp add: py_round_def)
  moreover have "fl_sub (double g) (double t) = double x" by (simp add: fl_sub_def x_def)
  moreover have "double (of_int (k - l) / 10 ^ 3) = double (g - t)" by (simp add: k l diff_divide_distrib)
  ultimately show ?thesis by (simp only:)
qed

end
