(* ===== verification/CollectionTables.thy ===== *)
theory CollectionTables
  imports Calculator Readings
begin

text \<open>
  The tables of the milk collection module (\<open>modules/milk_collection/models.py\<close>) on top of the
  pricing tables, the states of a transaction, and how a row is written: the money columns are
  \<open>Numeric\<close> and keep their declared digits.
\<close>

section \<open>States\<close>

datatype tx_state =
  NEW | SUPPLIER_IDENTIFIED | MILK_RECEIVED | WEIGHT_CAPTURED | QUALITY_PENDING | QUALITY_CAPTURED
  | PRICING_PENDING | PRICED | ACCEPTED | REJECTED | COMPLETED | CANCELLED

fun state_name :: "tx_state \<Rightarrow> string" where
  "state_name NEW = ''NEW''"
| "state_name SUPPLIER_IDENTIFIED = ''SUPPLIER_IDENTIFIED''"
| "state_name MILK_RECEIVED = ''MILK_RECEIVED''"
| "state_name WEIGHT_CAPTURED = ''WEIGHT_CAPTURED''"
| "state_name QUALITY_PENDING = ''QUALITY_PENDING''"
| "state_name QUALITY_CAPTURED = ''QUALITY_CAPTURED''"
| "state_name PRICING_PENDING = ''PRICING_PENDING''"
| "state_name PRICED = ''PRICED''"
| "state_name ACCEPTED = ''ACCEPTED''"
| "state_name REJECTED = ''REJECTED''"
| "state_name COMPLETED = ''COMPLETED''"
| "state_name CANCELLED = ''CANCELLED''"

definition terminal :: "tx_state \<Rightarrow> bool" where
  "terminal s \<longleftrightarrow> s = COMPLETED \<or> s = CANCELLED"

datatype session_status = SOpen | SClosed

section \<open>Rows\<close>

record collection_session =
  cs_id :: uuid
  cs_tenant :: uuid
  cs_center :: uuid
  cs_status :: session_status
  cs_label :: string
  cs_opened_by :: uuid
  cs_opened_at :: datetime
  cs_closed_by :: "uuid option"
  cs_closed_at :: "datetime option"

text \<open>The price detail of a priced row is the prose of the card's code, version and band; the model
  keeps the four values.\<close>

record milk_tx =
  tx_id :: uuid
  tx_tenant :: uuid
  tx_session :: uuid
  tx_center :: uuid
  tx_supplier :: "uuid option"
  tx_operator :: uuid
  tx_state :: tx_state
  tx_milk_type :: "string option"
  tx_milk_custom :: "string option"
  tx_container_type :: "string option"
  tx_container :: "string option"
  tx_arrival_temp :: "pyfloat option"
  tx_arrived_at :: "datetime option"
  tx_weight_unit :: "string option"
  tx_gross :: "pyfloat option"
  tx_tare :: "pyfloat option"
  tx_net :: "pyfloat option"
  tx_weight_source :: "string option"
  tx_trade_unit :: "string option"
  tx_trade_quantity :: "pyfloat option"
  tx_factor :: "decimal option"
  tx_fat :: "pyfloat option"
  tx_snf :: "pyfloat option"
  tx_clr :: "pyfloat option"
  tx_density :: "pyfloat option"
  tx_quality_temp :: "pyfloat option"
  tx_remarks :: string
  tx_quality_source :: "string option"
  tx_pricing_status :: "string option"
  tx_unit_price :: "decimal option"
  tx_gross_amount :: "decimal option"
  tx_currency :: "string option"
  tx_calculation :: "uuid option"
  tx_pricing_detail :: json
  tx_base_price :: "decimal option"
  tx_override_reason :: "string option"
  tx_overridden_by :: "uuid option"
  tx_overridden_at :: "datetime option"
  tx_rejected_reason :: "string option"
  tx_decided_by :: "uuid option"
  tx_decided_at :: "datetime option"
  tx_cancelled_reason :: "string option"
  tx_created_at :: datetime
  tx_completed_at :: "datetime option"
  tx_slip :: "string option"

record transaction_event =
  te_id :: uuid
  te_tenant :: uuid
  te_tx :: uuid
  te_sequence :: nat
  te_type :: string
  te_data :: payload
  te_actor :: uuid
  te_at :: datetime

record transaction_snapshot =
  sn_id :: uuid
  sn_tenant :: uuid
  sn_tx :: uuid
  sn_data :: payload

record transaction_metrics =
  tm_id :: uuid
  tm_tenant :: uuid
  tm_tx :: uuid
  tm_session :: uuid
  tm_center :: uuid
  tm_supplier :: "uuid option"
  tm_operator :: uuid
  tm_started :: datetime
  tm_completed :: datetime
  tm_duration :: pyfloat
  tm_final :: tx_state

record collection_db = pricing_db +
  sessions :: "collection_session list"
  transactions :: "milk_tx list"
  tx_events :: "transaction_event list"
  snapshots :: "transaction_snapshot list"
  tx_metrics :: "transaction_metrics list"

section \<open>Writing a row\<close>

definition put_tx :: "milk_tx \<Rightarrow> 'a collection_db_scheme \<Rightarrow> 'a collection_db_scheme" where
  "put_tx tx db = db\<lparr>transactions := row_update tx_id (tx_id tx) (\<lambda>_. tx) (transactions db)\<rparr>"

definition stored_tx :: "milk_tx \<Rightarrow> milk_tx result" where
  "stored_tx tx =
     andthen (numeric_opt 8 4 (tx_factor tx)) (\<lambda>f.
     andthen (numeric_opt 12 4 (tx_unit_price tx)) (\<lambda>u.
     andthen (numeric_opt 16 2 (tx_gross_amount tx)) (\<lambda>g.
     andthen (numeric_opt 12 4 (tx_base_price tx)) (\<lambda>b.
     Inr (tx\<lparr>tx_factor := f, tx_unit_price := u, tx_gross_amount := g, tx_base_price := b\<rparr>)))))"

definition save_tx ::
  "milk_tx \<Rightarrow> 'a collection_db_scheme \<Rightarrow> 'a collection_db_scheme result" where
  "save_tx tx db = andthen (stored_tx tx) (\<lambda>row. Inr (put_tx row db))"

section \<open>What a row says\<close>

definition paid_quantity :: "milk_tx \<Rightarrow> pyfloat option" where
  "paid_quantity tx = (case tx_trade_quantity tx of Some q \<Rightarrow> Some q | None \<Rightarrow> tx_net tx)"

definition paid_unit :: "milk_tx \<Rightarrow> string" where
  "paid_unit tx =
     or_else (opt_str (tx_trade_unit tx)) (or_else (opt_str (tx_weight_unit tx)) ''kg'')"

definition MILK_TYPES :: "string list" where
  "MILK_TYPES = [''cow'', ''buffalo'', ''goat'', ''sheep'', ''mixed'', ''custom'']"

definition product_code_for :: "string option \<Rightarrow> string option" where
  "product_code_for milk =
     (if opt_str milk = [] \<or> milk = Some ''custom'' then None
      else Some (''RAW-'' @ str_upper (opt_str milk) @ ''-MILK''))"

section \<open>Facts\<close>

lemma stored_tx_same:
  assumes "stored_tx tx = Inr row"
  obtains f u g b where "row = tx\<lparr>tx_factor := f, tx_unit_price := u, tx_gross_amount := g, tx_base_price := b\<rparr>"
    "numeric_opt 8 4 (tx_factor tx) = Inr f" "numeric_opt 12 4 (tx_unit_price tx) = Inr u"
    "numeric_opt 16 2 (tx_gross_amount tx) = Inr g" "numeric_opt 12 4 (tx_base_price tx) = Inr b"
  using assms by (auto simp: stored_tx_def result_simps)

lemma publish_collection [simp]:
  "sessions (publish e n d a t i db) = sessions db"
  "transactions (publish e n d a t i db) = transactions db"
  "tx_events (publish e n d a t i db) = tx_events db"
  "snapshots (publish e n d a t i db) = snapshots db"
  "tx_metrics (publish e n d a t i db) = tx_metrics db"
  "sequences (publish e n d a t i db) = sequences db"
  by (simp_all add: publish_def new_id_def)

lemma audit_collection [simp]:
  "sessions (audit e n t i a d db) = sessions db"
  "transactions (audit e n t i a d db) = transactions db"
  "tx_events (audit e n t i a d db) = tx_events db"
  "snapshots (audit e n t i a d db) = snapshots db"
  "tx_metrics (audit e n t i a d db) = tx_metrics db"
  "sequences (audit e n t i a d db) = sequences db"
  by (simp_all add: audit_def audit_of_def)

end
