(* ===== verification/Collection.thy ===== *)
theory Collection
  imports CollectionTables
begin

text \<open>
  The milk collection service (\<open>modules/milk_collection/service.py\<close>): collection sessions, and the
  transaction from the arrival of a supplier to the frozen record. Every operation is the whole
  handler with its guards, its event log entry, audit record and outbox event. Commands are the
  arguments of the operations, validated by the constructor functions of the request models.
\<close>

section \<open>Commands\<close>

record milk_info =
  mi_milk_type :: string
  mi_milk_custom :: "string option"
  mi_container_type :: string
  mi_container :: string
  mi_temperature :: "pyfloat option"
  mi_arrived_at :: "datetime option"

definition MilkInfoCommand ::
  "string \<Rightarrow> string option \<Rightarrow> string \<Rightarrow> string \<Rightarrow> pyfloat option \<Rightarrow> datetime option \<Rightarrow> milk_info result" where
  "MilkInfoCommand milk custom ctype cid temp arrived =
     (if 60 < length (opt_str custom) then Inl (ValueError ''milk_type_custom'')
      else if ctype = [] \<or> 40 < length ctype then Inl (ValueError ''container_type'')
      else if cid = [] \<or> 80 < length cid then Inl (ValueError ''container_identifier'')
      else if (case temp of None \<Rightarrow> False | Some t \<Rightarrow> t < 0 \<or> 50 < t) then Inl (ValueError ''temperature_c'')
      else Inr \<lparr>mi_milk_type = milk, mi_milk_custom = custom, mi_container_type = ctype,
                mi_container = cid, mi_temperature = temp, mi_arrived_at = arrived\<rparr>)"

record rate_override =
  ro_unit_price :: decimal
  ro_reason :: string

definition RateOverrideCommand :: "decimal \<Rightarrow> string \<Rightarrow> rate_override result" where
  "RateOverrideCommand price reason =
     (if price \<le> 0 then Inl (ValueError ''unit_price'')
      else if length reason < 3 \<or> 300 < length reason then Inl (ValueError ''reason'')
      else Inr \<lparr>ro_unit_price = price, ro_reason = reason\<rparr>)"

record weight_command =
  wc_source :: string
  wc_unit :: "string option"
  wc_gross :: "pyfloat option"
  wc_tare :: "pyfloat option"
  wc_device :: "uuid option"
  wc_frame :: "string option"

record quality_command =
  qc_source :: string
  qc_fat :: "pyfloat option"
  qc_snf :: "pyfloat option"
  qc_clr :: "pyfloat option"
  qc_density :: "pyfloat option"
  qc_temperature :: "pyfloat option"
  qc_remarks :: string
  qc_device :: "uuid option"
  qc_frame :: "string option"

definition RejectCommand :: "string \<Rightarrow> string result" where
  "RejectCommand reason =
     (if length reason < 3 \<or> 300 < length reason then Inl (ValueError ''reason'') else Inr reason)"

section \<open>Helpers of the service\<close>

definition COLLECTION_BUS_EVENTS :: "(string \<times> string) list" where
  "COLLECTION_BUS_EVENTS =
     [(''TransactionCreated'', ''collection.transaction-created.v1''),
      (''SupplierIdentified'', ''collection.supplier-identified.v1''),
      (''MilkReceived'', ''collection.milk-received.v1''),
      (''WeightCaptured'', ''collection.weight-captured.v1''),
      (''QualityCaptured'', ''collection.quality-captured.v1''),
      (''QualityDeviationFlagged'', ''collection.quality-deviation-flagged.v1''),
      (''PricingRequested'', ''collection.pricing-requested.v1''),
      (''PricingCompleted'', ''collection.pricing-completed.v1''),
      (''PricingUnavailable'', ''collection.pricing-unavailable.v1''),
      (''TransactionAccepted'', ''collection.transaction-accepted.v1''),
      (''TransactionRejected'', ''collection.transaction-rejected.v1''),
      (''TransactionCompleted'', ''collection.transaction-completed.v1''),
      (''RateOverridden'', ''collection.rate-overridden.v1''),
      (''TransactionCancelled'', ''collection.transaction-cancelled.v1''),
      (''Repriced'', ''collection.transaction-repriced.v1'')]"

definition PRICING_DIMENSION :: string where
  "PRICING_DIMENSION = ''FAT''"

definition get_tx :: "env \<Rightarrow> 'a collection_db_scheme \<Rightarrow> uuid \<Rightarrow> milk_tx result" where
  "get_tx e db i =
     andthen (require_current_tenant e) (\<lambda>tenant.
       case row_get tx_id i (transactions db) of
         None \<Rightarrow> Inl (NotFoundError ''transaction not found'')
       | Some tx \<Rightarrow> if tx_tenant tx \<noteq> tenant then Inl (NotFoundError ''transaction not found'') else Inr tx)"

definition get_mutable ::
  "env \<Rightarrow> 'a collection_db_scheme \<Rightarrow> uuid \<Rightarrow> tx_state \<Rightarrow> milk_tx result" where
  "get_mutable e db i expected =
     andthen (get_tx e db i) (\<lambda>tx.
     if terminal (tx_state tx) then Inl (ConflictError ''transaction is immutable'')
     else if tx_state tx \<noteq> expected then Inl (ConflictError ''unexpected transaction state'')
     else Inr tx)"

definition get_session :: "env \<Rightarrow> 'a collection_db_scheme \<Rightarrow> uuid \<Rightarrow> collection_session result" where
  "get_session e db i =
     andthen (require_current_tenant e) (\<lambda>tenant.
       case row_get cs_id i (sessions db) of
         None \<Rightarrow> Inl (NotFoundError ''collection session not found'')
       | Some s \<Rightarrow> if cs_tenant s \<noteq> tenant then Inl (NotFoundError ''collection session not found'')
                   else Inr s)"

text \<open>\<open>_record\<close>: the next entry of the transaction's own log, the audit record, the outbox event.\<close>

definition events_of :: "'a collection_db_scheme \<Rightarrow> uuid \<Rightarrow> transaction_event list" where
  "events_of db i = filter (\<lambda>v. te_tx v = i) (tx_events db)"

definition record_tx ::
  "env \<Rightarrow> milk_tx \<Rightarrow> string \<Rightarrow> payload \<Rightarrow> uuid \<Rightarrow> 'a collection_db_scheme \<Rightarrow> 'a collection_db_scheme" where
  "record_tx e tx event data actor db =
     (let full = data @ [(''state'', JStr (state_name (tx_state tx)))];
          (i, db1) = new_id db;
          db2 = db1\<lparr>tx_events := tx_events db1 @
            [\<lparr>te_id = i, te_tenant = tx_tenant tx, te_tx = tx_id tx,
              te_sequence = length (events_of db (tx_id tx)) + 1, te_type = event, te_data = full,
              te_actor = actor, te_at = now e\<rparr>]\<rparr>
      in publish e (bus_name COLLECTION_BUS_EVENTS event) ((''transaction_id'', JId (tx_id tx)) # data)
           (Some actor) (Some ''milk_collection_transaction'') (Some (tx_id tx))
           (audit e (''collection.transaction.'' @ event) ''milk_collection_transaction'' (tx_id tx)
              (Some actor) full db2))"

section \<open>Sessions\<close>

definition open_session ::
  "env \<Rightarrow> uuid \<Rightarrow> string \<Rightarrow> uuid \<Rightarrow> 'a collection_db_scheme
     \<Rightarrow> (collection_session \<times> 'a collection_db_scheme) result" where
  "open_session e center label actor db =
     andthen (require_current_tenant e) (\<lambda>tenant.
     case row_get cc_id center (centers db) of
       None \<Rightarrow> Inl (NotFoundError ''collection center not found'')
     | Some cc \<Rightarrow>
         if cc_tenant cc \<noteq> tenant then Inl (NotFoundError ''collection center not found'')
         else if cc_status cc \<noteq> ''active'' then Inl (ConflictError ''collection center is not active'')
         else if find (\<lambda>s. cs_center s = center \<and> cs_status s = SOpen) (sessions db) \<noteq> None
           then Inl (ConflictError ''center already has an open session'')
         else if fst (center_readiness e center) = ''NOT_READY''
           then Inl (ConflictError ''center is NOT_READY'')
         else
           let (i, db1) = new_id db;
               s = \<lparr>cs_id = i, cs_tenant = tenant, cs_center = center, cs_status = SOpen,
                    cs_label = label, cs_opened_by = actor, cs_opened_at = now e,
                    cs_closed_by = None, cs_closed_at = None\<rparr>;
               db2 = db1\<lparr>sessions := sessions db1 @ [s]\<rparr>;
               db3 = audit e ''collection.session.opened'' ''collection_session'' i (Some actor)
                       [(''center_id'', JId center), (''readiness'', JStr (fst (center_readiness e center)))] db2
           in Inr (s, publish e ''collection.session-opened.v1''
                        [(''session_id'', JId i), (''center_id'', JId center)] (Some actor) None None db3))"

definition in_flight :: "'a collection_db_scheme \<Rightarrow> uuid \<Rightarrow> milk_tx list" where
  "in_flight db i = filter (\<lambda>tx. tx_session tx = i \<and> \<not> terminal (tx_state tx)) (transactions db)"

definition close_session ::
  "env \<Rightarrow> uuid \<Rightarrow> uuid \<Rightarrow> 'a collection_db_scheme
     \<Rightarrow> (collection_session \<times> 'a collection_db_scheme) result" where
  "close_session e i actor db =
     andthen (get_session e db i) (\<lambda>s.
     if cs_status s = SClosed then Inl (ConflictError ''session already closed'')
     else if in_flight db (cs_id s) \<noteq> [] then Inl (ConflictError ''transaction(s) still in flight'')
     else
       let s' = s\<lparr>cs_status := SClosed, cs_closed_by := Some actor, cs_closed_at := Some (now e)\<rparr>;
           db1 = db\<lparr>sessions := row_update cs_id (cs_id s) (\<lambda>_. s') (sessions db)\<rparr>;
           db2 = audit e ''collection.session.closed'' ''collection_session'' (cs_id s) (Some actor) [] db1
       in Inr (s', publish e ''collection.session-closed.v1'' [(''session_id'', JId (cs_id s))]
                     (Some actor) None None db2))"

section \<open>From arrival to weight\<close>

definition create_transaction ::
  "env \<Rightarrow> uuid \<Rightarrow> uuid \<Rightarrow> 'a collection_db_scheme \<Rightarrow> (milk_tx \<times> 'a collection_db_scheme) result" where
  "create_transaction e sid actor db =
     andthen (get_session e db sid) (\<lambda>s.
     if cs_status s \<noteq> SOpen then Inl (ConflictError ''collection session is not open'')
     else
       let (i, db1) = new_id db;
           tx = \<lparr>tx_id = i, tx_tenant = cs_tenant s, tx_session = cs_id s, tx_center = cs_center s,
                 tx_supplier = None, tx_operator = actor, tx_state = NEW,
                 tx_milk_type = None, tx_milk_custom = None, tx_container_type = None, tx_container = None,
                 tx_arrival_temp = None, tx_arrived_at = None,
                 tx_weight_unit = None, tx_gross = None, tx_tare = None, tx_net = None,
                 tx_weight_source = None, tx_trade_unit = None, tx_trade_quantity = None, tx_factor = None,
                 tx_fat = None, tx_snf = None, tx_clr = None, tx_density = None, tx_quality_temp = None,
                 tx_remarks = [], tx_quality_source = None,
                 tx_pricing_status = None, tx_unit_price = None, tx_gross_amount = None,
                 tx_currency = None, tx_calculation = None, tx_pricing_detail = JNull,
                 tx_base_price = None, tx_override_reason = None, tx_overridden_by = None,
                 tx_overridden_at = None,
                 tx_rejected_reason = None, tx_decided_by = None, tx_decided_at = None,
                 tx_cancelled_reason = None, tx_created_at = now e, tx_completed_at = None, tx_slip = None\<rparr>
       in Inr (tx, record_tx e tx ''TransactionCreated''
                     [(''session_id'', JId (cs_id s)), (''center_id'', JId (cs_center s))] actor
                     (db1\<lparr>transactions := transactions db1 @ [tx]\<rparr>)))"

definition resolve_supplier ::
  "env \<Rightarrow> 'a core_db_scheme \<Rightarrow> string \<Rightarrow> string option \<Rightarrow> uuid option \<Rightarrow> supplier result" where
  "resolve_supplier e db meth value sid =
     andthen (require_current_tenant e) (\<lambda>tenant.
     andthen
       (if meth = ''manual'' then
          (case sid of
             None \<Rightarrow> Inl (ConflictError ''manual identification requires supplier_id'')
           | Some i \<Rightarrow> Inr (row_get sup_id i (suppliers db)))
        else if meth = ''qr'' then
          (if opt_str value = [] then Inl (ConflictError ''qr identification requires value'')
           else case qr_verify e (opt_str value) of
               None \<Rightarrow> Inl (InvalidTokenError ''invalid supplier QR payload'')
             | Some i \<Rightarrow> Inr (row_get sup_id i (suppliers db)))
        else if meth = ''code'' then
          (if opt_str value = [] then Inl (ConflictError ''code identification requires value'')
           else Inr (find (\<lambda>s. sup_tenant s = tenant \<and> sup_code s = str_strip (opt_str value)) (suppliers db)))
        else if meth = ''phone'' then
          (if opt_str value = [] then Inl (ConflictError ''phone identification requires value'')
           else Inr (find (\<lambda>s. sup_tenant s = tenant
                  \<and> list_ex (\<lambda>p. sp_supplier p = sup_id s \<and> sp_phone p = str_strip (opt_str value))
                       (supplier_profiles db)) (suppliers db)))
        else Inl (ConflictError ''method must be qr, code, phone, or manual''))
       (\<lambda>found. case found of
          None \<Rightarrow> Inl (NotFoundError ''supplier not found'')
        | Some s \<Rightarrow> if sup_tenant s \<noteq> tenant then Inl (NotFoundError ''supplier not found'') else Inr s))"

definition identify_supplier ::
  "env \<Rightarrow> uuid \<Rightarrow> string \<Rightarrow> string option \<Rightarrow> uuid option \<Rightarrow> uuid \<Rightarrow> 'a collection_db_scheme
     \<Rightarrow> (milk_tx \<times> 'a collection_db_scheme) result" where
  "identify_supplier e i meth value sid actor db =
     andthen (get_mutable e db i NEW) (\<lambda>tx.
     andthen (resolve_supplier e db meth value sid) (\<lambda>s.
     if sup_status s \<noteq> ''active'' then Inl (ConflictError ''supplier is not active'')
     else if find (\<lambda>a. sc_supplier a = sup_id s \<and> sc_center a = tx_center tx) (supplier_centers db) = None
       then Inl (ConflictError ''supplier is not assigned to this collection center'')
     else
       let tx' = tx\<lparr>tx_supplier := Some (sup_id s), tx_state := SUPPLIER_IDENTIFIED\<rparr>
       in Inr (tx', record_tx e tx' ''SupplierIdentified''
                      [(''supplier_id'', JId (sup_id s)), (''method'', JStr meth)] actor (put_tx tx' db))))"

definition receive_milk ::
  "env \<Rightarrow> uuid \<Rightarrow> milk_info \<Rightarrow> uuid \<Rightarrow> 'a collection_db_scheme
     \<Rightarrow> (milk_tx \<times> 'a collection_db_scheme) result" where
  "receive_milk e i cmd actor db =
     andthen (get_mutable e db i SUPPLIER_IDENTIFIED) (\<lambda>tx.
     if mi_milk_type cmd \<notin> set MILK_TYPES then Inl (ConflictError ''unknown milk_type'')
     else if mi_milk_type cmd = ''custom'' \<and> opt_str (mi_milk_custom cmd) = []
       then Inl (ConflictError ''milk_type_custom is required for custom milk type'')
     else
       let tx' = tx\<lparr>tx_milk_type := Some (mi_milk_type cmd), tx_milk_custom := mi_milk_custom cmd,
                    tx_container_type := Some (mi_container_type cmd), tx_container := Some (mi_container cmd),
                    tx_arrival_temp := mi_temperature cmd,
                    tx_arrived_at := Some (case mi_arrived_at cmd of None \<Rightarrow> now e | Some t \<Rightarrow> t),
                    tx_state := MILK_RECEIVED\<rparr>
       in Inr (tx', record_tx e tx' ''MilkReceived''
                      [(''milk_type'', JStr (mi_milk_type cmd)),
                       (''container'', JStr (mi_container_type cmd @ '':'' @ mi_container cmd))] actor
                      (put_tx tx' db)))"

text \<open>The container's own identifier keys the mock readings; every received transaction has one.\<close>

definition container_key :: "milk_tx \<Rightarrow> string" where
  "container_key tx = or_else (opt_str (tx_container tx)) (show_nat (tx_id tx))"

definition weight_reading ::
  "env \<Rightarrow> 'a core_db_scheme \<Rightarrow> milk_tx \<Rightarrow> weight_command \<Rightarrow> (pyfloat \<times> pyfloat \<times> uuid option) result" where
  "weight_reading e db tx cmd =
     (if wc_source cmd = ''mock_scale'' then
        andthen (refuse_mock_source e ''mock_scale'') (\<lambda>_.
        andthen (mock_scale_read e (container_key tx)) (\<lambda>(g, t). Inr (g, t, None)))
      else if wc_source cmd = ''manual'' \<or> wc_source cmd = ''scale'' then
        (case (wc_gross cmd, wc_tare cmd) of
           (Some g, Some t) \<Rightarrow>
             if wc_source cmd = ''scale'' then
               andthen (resolve_instrument e db ''scale'' (wc_device cmd) (tx_center tx))
                 (\<lambda>d. Inr (g, t, Some d))
             else Inr (g, t, None)
         | _ \<Rightarrow> Inl (ConflictError ''weight requires gross and tare''))
      else Inl (ConflictError ''weight source must be manual, scale or mock_scale''))"

text \<open>The paid quantity, pinned when the declared factor is in force on the business day.\<close>

definition pin_trade ::
  "conversion_terms \<Rightarrow> date \<Rightarrow> string \<Rightarrow> pyfloat \<Rightarrow> milk_tx \<Rightarrow> milk_tx result" where
  "pin_trade terms on unit net tx =
     (if in_force terms on then
        (case (trade_unit terms, factor terms) of
           (Some tu, Some f) \<Rightarrow>
             andthen (trade_quantity net unit tu f) (\<lambda>q.
             Inr (tx\<lparr>tx_trade_unit := Some tu, tx_factor := Some f, tx_trade_quantity := Some q\<rparr>))
         | _ \<Rightarrow> Inr tx)
      else Inr tx)"

definition capture_weight ::
  "env \<Rightarrow> uuid \<Rightarrow> weight_command \<Rightarrow> uuid \<Rightarrow> 'a collection_db_scheme
     \<Rightarrow> (milk_tx \<times> 'a collection_db_scheme) result" where
  "capture_weight e i cmd actor db =
     andthen (get_mutable e db i MILK_RECEIVED) (\<lambda>tx.
     andthen (require_tenant_unit e db (wc_unit cmd) (Some (tx_tenant tx))) (\<lambda>unit.
     andthen (weight_reading e db tx cmd) (\<lambda>(gross, tare, device).
     andthen (check_weight gross tare) (\<lambda>_.
       let net = py_round 3 (fl_sub gross tare);
           tx1 = tx\<lparr>tx_weight_unit := Some unit, tx_gross := Some (py_round 3 gross),
                    tx_tare := Some (py_round 3 tare), tx_net := Some net,
                    tx_weight_source := Some (wc_source cmd)\<rparr>;
           today = business_today e (tenant_timezone e db (Some (tx_tenant tx)))
       in
       andthen (pin_trade (tenant_units e db (Some (tx_tenant tx))) today unit net tx1) (\<lambda>tx2.
       let tx3 = tx2\<lparr>tx_state := WEIGHT_CAPTURED\<rparr>;
           tx4 = tx3\<lparr>tx_state := QUALITY_PENDING\<rparr>
       in
       andthen (save_tx tx4 db) (\<lambda>db1.
       Inr (tx4, record_tx e tx3 ''WeightCaptured''
              ([(''gross'', json_opt JFloat (tx_gross tx3)), (''tare'', json_opt JFloat (tx_tare tx3)),
                (''net'', json_opt JFloat (tx_net tx3)), (''unit'', json_opt JStr (tx_weight_unit tx3)),
                (''trade_unit'', json_opt JStr (tx_trade_unit tx3)),
                (''trade_quantity'', json_opt JFloat (tx_trade_quantity tx3)),
                (''conversion_factor'', json_opt JDec (tx_factor tx3))]
               @ provenance (wc_source cmd) device (wc_frame cmd)) actor db1)))))))"

section \<open>Quality\<close>

definition quality_reading ::
  "env \<Rightarrow> 'a core_db_scheme \<Rightarrow> milk_tx \<Rightarrow> quality_command \<Rightarrow> (quality_values \<times> uuid option) result" where
  "quality_reading e db tx cmd =
     (if qc_source cmd = ''mock_analyzer'' then
        andthen (refuse_mock_source e ''mock_analyzer'') (\<lambda>_.
        andthen (mock_analyzer_read e (container_key tx)) (\<lambda>v. Inr (v, None)))
      else if qc_source cmd = ''manual'' \<or> qc_source cmd = ''analyzer'' then
        (case (qc_fat cmd, qc_snf cmd, qc_clr cmd) of
           (Some fat, Some snf, Some clr) \<Rightarrow>
             let v = \<lparr>qv_fat = fat, qv_snf = snf, qv_clr = clr, qv_density = qc_density cmd,
                      qv_temperature = qc_temperature cmd\<rparr> in
             if qc_source cmd = ''analyzer'' then
               andthen (resolve_instrument e db ''analyzer'' (qc_device cmd) (tx_center tx))
                 (\<lambda>d. Inr (v, Some d))
             else Inr (v, None)
         | _ \<Rightarrow> Inl (ConflictError ''quality requires fat, snf, and clr''))
      else Inl (ConflictError ''quality source must be manual, analyzer or mock_analyzer''))"

definition DEVIATION_MIN_HISTORY :: nat where "DEVIATION_MIN_HISTORY = 5"
definition DEVIATION_WINDOW :: nat where "DEVIATION_WINDOW = 20"
definition DEVIATION_SIGMA :: pyfloat where "DEVIATION_SIGMA = 3"
definition DEVIATION_FLOOR :: pyfloat where "DEVIATION_FLOOR = 1/2"

text \<open>The supplier's last decided collections of the same milk, newest first.\<close>

definition baseline_rows :: "milk_tx \<Rightarrow> 'a collection_db_scheme \<Rightarrow> milk_tx list" where
  "baseline_rows tx db =
     take DEVIATION_WINDOW (sort_key (\<lambda>t. - tx_created_at t)
       (filter (\<lambda>t. tx_tenant t = tx_tenant tx \<and> tx_supplier t = tx_supplier tx \<and> tx_id t \<noteq> tx_id tx
            \<and> tx_milk_type t = tx_milk_type tx \<and> (tx_state t = ACCEPTED \<or> tx_state t = COMPLETED))
          (transactions db)))"

definition metric_deviation :: "string \<Rightarrow> pyfloat option \<Rightarrow> pyfloat list \<Rightarrow> payload" where
  "metric_deviation metric value series =
     (case value of
        None \<Rightarrow> []
      | Some v \<Rightarrow>
          if length series < DEVIATION_MIN_HISTORY then []
          else
            let mean = fmean series; spread = pstdev series; dev = \<bar>fl_sub v mean\<bar> in
            if max (fl_mul DEVIATION_SIGMA spread) DEVIATION_FLOOR \<le> dev
              then [(metric, JObj [(''value'', JFloat v), (''baseline_mean'', JFloat (py_round 2 mean)),
                       (''baseline_sd'', JFloat (py_round 3 spread)),
                       (''baseline_n'', JInt (int (length series)))])]
            else [])"

definition quality_deviation :: "milk_tx \<Rightarrow> 'a collection_db_scheme \<Rightarrow> payload" where
  "quality_deviation tx db =
     (if tx_supplier tx = None \<or> tx_milk_type tx = None then []
      else
        let rows = baseline_rows tx db in
        metric_deviation ''fat'' (tx_fat tx) (List.map_filter tx_fat rows)
        @ metric_deviation ''snf'' (tx_snf tx) (List.map_filter tx_snf rows))"

section \<open>Pricing\<close>

definition pricing_facts :: "milk_tx \<Rightarrow> payload" where
  "pricing_facts tx =
     [(''unit_price'', json_opt JDec (tx_unit_price tx)), (''gross_amount'', json_opt JDec (tx_gross_amount tx)),
      (''currency'', json_opt JStr (tx_currency tx)), (''calculation_id'', json_opt JId (tx_calculation tx))]"

definition pricing_attempt ::
  "env \<Rightarrow> milk_tx \<Rightarrow> uuid \<Rightarrow> 'a pricing_db_scheme \<Rightarrow> (calculation_result \<times> 'a pricing_db_scheme) result" where
  "pricing_attempt e tx actor db =
     (let on = business_date_of e (tx_created_at tx) (tenant_timezone e db None) in
      case product_code_for (tx_milk_type tx) of
        None \<Rightarrow> Inl (PricingResolutionError ''product'' ''no product mapping for this milk type'')
      | Some product \<Rightarrow>
          andthen (need (ValueError ''value'') (tx_fat tx)) (\<lambda>fat.
          andthen (ResolutionQuery (tx_center tx) product on PRICING_DIMENSION fat) (\<lambda>q.
          andthen (resolve e db q) (\<lambda>r.
          andthen (need (ValueError ''quantity'') (paid_quantity tx)) (\<lambda>qty.
          andthen (CalculationRequest (rr_row r) qty (Some (paid_unit tx)) on None) (\<lambda>req.
          calculate e req actor db))))))"

definition priced :: "calculation_result \<Rightarrow> milk_tx \<Rightarrow> milk_tx" where
  "priced x tx =
     tx\<lparr>tx_pricing_status := Some ''priced'',
        tx_unit_price := Some (amount (cl_unit_price (cr_calculation x))),
        tx_gross_amount := Some (amount (cl_gross (cr_calculation x))),
        tx_currency := Some (cl_currency (cr_calculation x)), tx_calculation := Some (cr_id x),
        tx_pricing_detail :=
          JObj [(''rate_card_code'', JStr (rt_card_code (cr_resolution x))),
                (''rate_card_version'', JInt (int (rt_card_version (cr_resolution x)))),
                (''range_from'', JFloat (rt_from (cr_resolution x))),
                (''range_to'', JFloat (rt_to (cr_resolution x)))]\<rparr>"

definition unpriced :: "string \<Rightarrow> milk_tx \<Rightarrow> milk_tx" where
  "unpriced reason tx =
     tx\<lparr>tx_pricing_status := Some ''pricing_unavailable'', tx_pricing_detail := JStr (take 300 reason)\<rparr>"

fun join_reasons :: "string list \<Rightarrow> string" where
  "join_reasons [] = []"
| "join_reasons [p] = p"
| "join_reasons (p # ps) = p @ ''; '' @ join_reasons ps"

text \<open>\<open>_price\<close>: the failure facts (none when priced), the transaction and the state after it.\<close>

definition price_tx ::
  "env \<Rightarrow> milk_tx \<Rightarrow> uuid \<Rightarrow> 'a pricing_db_scheme
     \<Rightarrow> (payload option \<times> milk_tx \<times> 'a pricing_db_scheme) result" where
  "price_tx e tx actor db =
     (case pricing_attempt e tx actor db of
        Inr (x, db1) \<Rightarrow> Inr (None, if tx_base_price tx \<noteq> None then tx else priced x tx, db1)
      | Inl (PricingResolutionError stage reason) \<Rightarrow>
          Inr (Some [(''stage'', JStr stage), (''reason'', JStr (take 300 reason))], unpriced reason tx, db)
      | Inl (PricingIntegrityError stage ids) \<Rightarrow>
          let reason = ''multiple candidates matched where exactly one is required'' in
          Inr (Some [(''stage'', JStr stage), (''reason'', JStr (take 300 reason))], unpriced reason tx, db)
      | Inl (PricingCalculationError problems) \<Rightarrow>
          let reason = join_reasons problems in
          Inr (Some [(''stage'', JNull), (''reason'', JStr (take 300 reason))], unpriced reason tx, db)
      | Inl err \<Rightarrow> Inl err)"

definition apply_pricing ::
  "env \<Rightarrow> milk_tx \<Rightarrow> uuid \<Rightarrow> 'a collection_db_scheme \<Rightarrow> (milk_tx \<times> 'a collection_db_scheme) result" where
  "apply_pricing e tx actor db =
     (let tx1 = tx\<lparr>tx_state := PRICING_PENDING\<rparr>;
          db1 = record_tx e tx1 ''PricingRequested'' [(''dimension'', JStr PRICING_DIMENSION)] actor db
      in andthen (price_tx e tx1 actor db1) (\<lambda>(failure, tx2, db2).
         let db3 = (case failure of
                      None \<Rightarrow> record_tx e tx2 ''PricingCompleted'' (pricing_facts tx2) actor db2
                    | Some f \<Rightarrow> record_tx e tx2 ''PricingUnavailable'' f actor db2)
         in Inr (tx2\<lparr>tx_state := PRICED\<rparr>, db3)))"

definition capture_quality ::
  "env \<Rightarrow> uuid \<Rightarrow> quality_command \<Rightarrow> uuid \<Rightarrow> 'a collection_db_scheme
     \<Rightarrow> (milk_tx \<times> 'a collection_db_scheme) result" where
  "capture_quality e i cmd actor db =
     andthen (get_mutable e db i QUALITY_PENDING) (\<lambda>tx.
     andthen (quality_reading e db tx cmd) (\<lambda>(v, device).
     andthen (check_quality v) (\<lambda>_.
       let tx1 = tx\<lparr>tx_fat := Some (qv_fat v), tx_snf := Some (qv_snf v), tx_clr := Some (qv_clr v),
                    tx_density := qv_density v, tx_quality_temp := qv_temperature v,
                    tx_remarks := qc_remarks cmd, tx_quality_source := Some (qc_source cmd),
                    tx_state := QUALITY_CAPTURED\<rparr>;
           db1 = record_tx e tx1 ''QualityCaptured''
             ([(''fat'', json_opt JFloat (tx_fat tx1)), (''snf'', json_opt JFloat (tx_snf tx1)),
               (''clr'', json_opt JFloat (tx_clr tx1))]
              @ provenance (qc_source cmd) device (qc_frame cmd)) actor db;
           dev = quality_deviation tx1 db1;
           db2 = (if dev = [] then db1
                  else record_tx e tx1 ''QualityDeviationFlagged''
                         [(''supplier_id'', json_opt JId (tx_supplier tx1)), (''metrics'', JObj dev)] actor db1)
       in
       andthen (apply_pricing e tx1 actor db2) (\<lambda>(tx2, db3).
       andthen (save_tx tx2 db3) (\<lambda>db4. Inr (tx2, db4))))))"

definition override_rate ::
  "env \<Rightarrow> uuid \<Rightarrow> rate_override \<Rightarrow> uuid \<Rightarrow> 'a collection_db_scheme
     \<Rightarrow> (milk_tx \<times> 'a collection_db_scheme) result" where
  "override_rate e i cmd actor db =
     andthen (get_mutable e db i PRICED) (\<lambda>tx.
     case (tx_unit_price tx, tx_net tx, paid_quantity tx) of
       (Some previous, Some _, Some qty) \<Rightarrow>
         let base = (case tx_base_price tx of None \<Rightarrow> previous | Some b \<Rightarrow> b) in
         andthen (quantize ROUND_HALF_UP 2 (dec_mul (ro_unit_price cmd) (repr_dec qty))) (\<lambda>gross.
           let tx' = tx\<lparr>tx_base_price := Some base, tx_unit_price := Some (ro_unit_price cmd),
                        tx_gross_amount := Some gross, tx_override_reason := Some (str_strip (ro_reason cmd)),
                        tx_overridden_by := Some actor, tx_overridden_at := Some (now e)\<rparr>
           in
           andthen (save_tx tx' db) (\<lambda>db1.
           Inr (tx', record_tx e tx' ''RateOverridden''
                  [(''base_unit_price'', JDec base), (''previous_unit_price'', JDec previous),
                   (''unit_price'', JDec (ro_unit_price cmd)), (''gross_amount'', JDec gross),
                   (''reason'', JStr (str_strip (ro_reason cmd)))] actor db1)))
     | _ \<Rightarrow> Inl (ConflictError ''nothing to override: this collection has no resolved rate yet''))"

definition reprice_problems :: "milk_tx \<Rightarrow> string list" where
  "reprice_problems tx =
     (if tx_state tx \<noteq> COMPLETED then [''transaction is not COMPLETED''] else [])
     @ (if tx_rejected_reason tx \<noteq> None then [''rejected milk is not payable''] else [])
     @ (if tx_pricing_status tx \<noteq> Some ''pricing_unavailable''
          then [''pricing is not pricing_unavailable''] else [])"

definition reprice ::
  "env \<Rightarrow> uuid \<Rightarrow> uuid \<Rightarrow> 'a collection_db_scheme \<Rightarrow> (milk_tx \<times> 'a collection_db_scheme) result" where
  "reprice e i actor db =
     andthen (get_tx e db i) (\<lambda>tx.
     if reprice_problems tx \<noteq> [] then Inl (ConflictError (join_reasons (reprice_problems tx)))
     else
       andthen (price_tx e tx actor db) (\<lambda>(failure, tx', db1).
       case failure of
         Some f \<Rightarrow> Inl (ConflictError ''no rate card covers this collection'')
       | None \<Rightarrow>
           andthen (save_tx tx' db1) (\<lambda>db2.
           Inr (tx', record_tx e tx' ''Repriced'' (pricing_facts tx') actor db2))))"

section \<open>Decision and completion\<close>

text \<open>\<open>_decide\<close>: an \<open>UPDATE ... WHERE state = 'PRICED'\<close>; no row updated means another decision won.\<close>

definition decide ::
  "env \<Rightarrow> uuid \<Rightarrow> tx_state \<Rightarrow> string option \<Rightarrow> uuid \<Rightarrow> 'a collection_db_scheme
     \<Rightarrow> (milk_tx \<times> 'a collection_db_scheme) result" where
  "decide e i decision reason actor db =
     andthen (get_tx e db i) (\<lambda>tx.
     if tx_state tx \<noteq> PRICED then Inl (ConflictError ''expected state PRICED'')
     else
       let tx' = tx\<lparr>tx_state := decision, tx_decided_by := Some actor, tx_decided_at := Some (now e),
                    tx_rejected_reason := reason\<rparr>
       in Inr (tx', put_tx tx' db))"

definition accept_tx ::
  "env \<Rightarrow> uuid \<Rightarrow> uuid \<Rightarrow> 'a collection_db_scheme \<Rightarrow> (milk_tx \<times> 'a collection_db_scheme) result" where
  "accept_tx e i actor db =
     andthen (decide e i ACCEPTED None actor db) (\<lambda>(tx, db1).
     Inr (tx, record_tx e tx ''TransactionAccepted'' [] actor db1))"

definition reject_tx ::
  "env \<Rightarrow> uuid \<Rightarrow> string \<Rightarrow> uuid \<Rightarrow> 'a collection_db_scheme \<Rightarrow> (milk_tx \<times> 'a collection_db_scheme) result" where
  "reject_tx e i reason actor db =
     andthen (decide e i REJECTED (Some reason) actor db) (\<lambda>(tx, db1).
     Inr (tx, record_tx e tx ''TransactionRejected''
            [(''reason'', JStr reason), (''supplier_id'', json_opt JId (tx_supplier tx))] actor db1))"

definition SLIP_DOC_TYPE :: string where "SLIP_DOC_TYPE = ''collection_slip''"
definition SLIP_PREFIX :: string where "SLIP_PREFIX = ''SLP''"

definition freeze :: "milk_tx \<Rightarrow> tx_state \<Rightarrow> payload" where
  "freeze tx decision =
     [(''transaction_id'', JId (tx_id tx)), (''session_id'', JId (tx_session tx)),
      (''center_id'', JId (tx_center tx)), (''supplier_id'', json_opt JId (tx_supplier tx)),
      (''operator_id'', JId (tx_operator tx)), (''decision'', JStr (state_name decision)),
      (''milk'', JObj
        [(''type'', json_opt JStr (tx_milk_type tx)), (''type_custom'', json_opt JStr (tx_milk_custom tx)),
         (''container_type'', json_opt JStr (tx_container_type tx)),
         (''container_identifier'', json_opt JStr (tx_container tx)),
         (''arrival_temperature_c'', json_opt JFloat (tx_arrival_temp tx)),
         (''arrived_at'', json_opt JTime (tx_arrived_at tx))]),
      (''weight'', JObj
        [(''unit'', json_opt JStr (tx_weight_unit tx)), (''gross'', json_opt JFloat (tx_gross tx)),
         (''tare'', json_opt JFloat (tx_tare tx)), (''net'', json_opt JFloat (tx_net tx)),
         (''source'', json_opt JStr (tx_weight_source tx)), (''trade_unit'', json_opt JStr (tx_trade_unit tx)),
         (''trade_quantity'', json_opt JFloat (tx_trade_quantity tx)),
         (''conversion_factor'', json_opt JDec (tx_factor tx))]),
      (''quality'', JObj
        [(''fat'', json_opt JFloat (tx_fat tx)), (''snf'', json_opt JFloat (tx_snf tx)),
         (''clr'', json_opt JFloat (tx_clr tx)), (''density'', json_opt JFloat (tx_density tx)),
         (''temperature_c'', json_opt JFloat (tx_quality_temp tx)), (''remarks'', JStr (tx_remarks tx)),
         (''source'', json_opt JStr (tx_quality_source tx))]),
      (''pricing'', JObj
        [(''status'', json_opt JStr (tx_pricing_status tx)), (''unit_price'', json_opt JDec (tx_unit_price tx)),
         (''gross_amount'', json_opt JDec (tx_gross_amount tx)), (''currency'', json_opt JStr (tx_currency tx)),
         (''calculation_id'', json_opt JId (tx_calculation tx)), (''detail'', tx_pricing_detail tx)]),
      (''rejected_reason'', json_opt JStr (tx_rejected_reason tx)),
      (''slip_number'', json_opt JStr (tx_slip tx)), (''created_at'', JTime (tx_created_at tx)),
      (''completed_at'', json_opt JTime (tx_completed_at tx))]"

definition completed_facts :: "milk_tx \<Rightarrow> tx_state \<Rightarrow> pyfloat \<Rightarrow> payload" where
  "completed_facts tx decision duration =
     [(''decision'', JStr (state_name decision)), (''duration_s'', JFloat duration),
      (''center_id'', JId (tx_center tx)), (''supplier_id'', json_opt JId (tx_supplier tx)),
      (''net_weight'', json_opt JFloat (tx_net tx)), (''gross_amount'', json_opt JDec (tx_gross_amount tx)),
      (''currency'', json_opt JStr (tx_currency tx)), (''rejected'', JBool (tx_rejected_reason tx \<noteq> None)),
      (''slip_number'', json_opt JStr (tx_slip tx)), (''fat'', json_opt JFloat (tx_fat tx)),
      (''snf'', json_opt JFloat (tx_snf tx)), (''unit_price'', json_opt JDec (tx_unit_price tx)),
      (''base_unit_price'', json_opt JDec (tx_base_price tx)),
      (''quantity_unit'', JStr (unit_label (Some (paid_unit tx)))),
      (''paid_quantity'', json_opt JFloat (paid_quantity tx)),
      (''measured_unit'', JStr (unit_label (tx_weight_unit tx))),
      (''conversion_factor'', json_opt JDec (tx_factor tx))]"

definition seconds_between :: "datetime \<Rightarrow> datetime \<Rightarrow> pyfloat" where
  "seconds_between from to = fl_div (of_int (to - from)) 1000000"

definition complete_tx ::
  "env \<Rightarrow> uuid \<Rightarrow> uuid \<Rightarrow> 'a collection_db_scheme \<Rightarrow> (milk_tx \<times> 'a collection_db_scheme) result" where
  "complete_tx e i actor db =
     andthen (get_tx e db i) (\<lambda>tx.
     if tx_state tx \<noteq> ACCEPTED \<and> tx_state tx \<noteq> REJECTED
       then Inl (ConflictError ''cannot complete a transaction in this state'')
     else
       let decision = tx_state tx;
           (number, db1) = next_document_number e (tx_tenant tx) SLIP_DOC_TYPE SLIP_PREFIX db;
           tx' = tx\<lparr>tx_completed_at := Some (now e), tx_state := COMPLETED, tx_slip := Some number\<rparr>;
           (sid, db2) = new_id db1;
           db3 = db2\<lparr>snapshots := snapshots db2 @
                   [\<lparr>sn_id = sid, sn_tenant = tx_tenant tx, sn_tx = tx_id tx, sn_data = freeze tx' decision\<rparr>]\<rparr>;
           duration = seconds_between (tx_created_at tx) (now e);
           (mid, db4) = new_id db3;
           db5 = db4\<lparr>tx_metrics := tx_metrics db4 @
                   [\<lparr>tm_id = mid, tm_tenant = tx_tenant tx, tm_tx = tx_id tx, tm_session = tx_session tx,
                     tm_center = tx_center tx, tm_supplier = tx_supplier tx, tm_operator = tx_operator tx,
                     tm_started = tx_created_at tx, tm_completed = now e,
                     tm_duration = py_round 3 duration, tm_final = decision\<rparr>]\<rparr>
       in Inr (tx', record_tx e tx' ''TransactionCompleted'' (completed_facts tx' decision duration) actor
                      (put_tx tx' db5)))"

definition cancel_tx ::
  "env \<Rightarrow> uuid \<Rightarrow> string \<Rightarrow> uuid \<Rightarrow> 'a collection_db_scheme \<Rightarrow> (milk_tx \<times> 'a collection_db_scheme) result" where
  "cancel_tx e i reason actor db =
     andthen (get_tx e db i) (\<lambda>tx.
     if tx_state tx = ACCEPTED \<or> tx_state tx = REJECTED \<or> terminal (tx_state tx)
       then Inl (ConflictError ''cannot cancel a transaction in this state'')
     else
       let tx' = tx\<lparr>tx_state := CANCELLED, tx_cancelled_reason := Some (take 300 reason),
                    tx_completed_at := Some (now e)\<rparr>
       in Inr (tx', record_tx e tx' ''TransactionCancelled'' [(''reason'', JStr (take 300 reason))] actor
                      (put_tx tx' db)))"

text \<open>
  \<open>slip\<close>, the part that is not presentation: the guard, the number minted for a record from before
  slips existed, and the decision read from the snapshot.
\<close>

definition slip_of ::
  "env \<Rightarrow> uuid \<Rightarrow> 'a collection_db_scheme \<Rightarrow> ((milk_tx \<times> json) \<times> 'a collection_db_scheme) result" where
  "slip_of e i db =
     andthen (get_tx e db i) (\<lambda>tx.
     if tx_state tx \<noteq> COMPLETED then Inl (ConflictError ''a slip exists only for completed transactions'')
     else
       let (tx', db1) =
             (if tx_slip tx = None then
                (let (number, db0) = next_document_number e (tx_tenant tx) SLIP_DOC_TYPE SLIP_PREFIX db;
                     t = tx\<lparr>tx_slip := Some number\<rparr>
                 in (t, put_tx t db0))
              else (tx, db));
           frozen = (case find (\<lambda>s. sn_tx s = tx_id tx) (snapshots db1) of
                       None \<Rightarrow> None | Some s \<Rightarrow> map_of (sn_data s) ''decision'');
           decision = (case frozen of
                         Some d \<Rightarrow> d
                       | None \<Rightarrow> JStr (if opt_str (tx_rejected_reason tx) \<noteq> [] then ''REJECTED'' else ''ACCEPTED''))
       in Inr ((tx', decision), db1))"

end
