(* ===== verification/PricingSteps.thy ===== *)
theory PricingSteps
  imports Calculator
begin

text \<open>
  The pricing module as a transition system: one step per service operation (and one for
  everything the rest of the platform does, which leaves the pricing tables alone). The invariant
  holds in every reachable state, the terms of a card that has left the draft stage never change,
  and a price once resolved stays resolved as long as its card is published.
\<close>

section \<open>Steps\<close>

inductive pricing_step :: "'a pricing_db_scheme \<Rightarrow> 'a pricing_db_scheme \<Rightarrow> bool" where
  step_create: "RateCardInput nm ds cur f u b = Inr cmd \<Longrightarrow> create_card e tokens code cmd a db = Inr (c, db')
    \<Longrightarrow> pricing_step db db'"
| step_update: "RateCardInput nm ds cur f u b = Inr cmd \<Longrightarrow> update_draft e i cmd a db = Inr (c, db')
    \<Longrightarrow> pricing_step db db'"
| step_submit: "submit_for_review e i a db = Inr (c, db') \<Longrightarrow> pricing_step db db'"
| step_approve: "approve_card e i a db = Inr (c, db') \<Longrightarrow> pricing_step db db'"
| step_publish: "publish_card e i a db = Inr (c, db') \<Longrightarrow> pricing_step db db'"
| step_archive: "archive_card e i a db = Inr (c, db') \<Longrightarrow> pricing_step db db'"
| step_new_version: "new_version e i a db = Inr (c, db') \<Longrightarrow> pricing_step db db'"
| step_assign_center: "assign_center e i k a db = Inr (x, db') \<Longrightarrow> pricing_step db db'"
| step_unassign_center: "unassign_center e i k a db = Inr (v, db') \<Longrightarrow> pricing_step db db'"
| step_assign_product: "AssignProductCommand code name = Inr p \<Longrightarrow> assign_product e i p a db = Inr (y, db')
    \<Longrightarrow> pricing_step db db'"
| step_unassign_product: "unassign_product e i code a db = Inr (v, db') \<Longrightarrow> pricing_step db db'"
| step_list_dimensions: "list_dimensions e db = Inr (dims, db') \<Longrightarrow> pricing_step db db'"
| step_create_dimension: "DimensionInput code nm un mn mx = Inr di \<Longrightarrow> create_dimension e di a db = Inr (d, db')
    \<Longrightarrow> pricing_step db db'"
| step_create_matrix: "MatrixInput nm pr pn dn = Inr mi \<Longrightarrow> create_matrix e i mi a db = Inr (m, db')
    \<Longrightarrow> pricing_step db db'"
| step_update_matrix: "MatrixInput nm pr pn dn = Inr mi \<Longrightarrow> update_matrix e i mi a db = Inr (m, db')
    \<Longrightarrow> pricing_step db db'"
| step_delete_matrix: "delete_matrix e i a db = Inr (v, db') \<Longrightarrow> pricing_step db db'"
| step_add_row: "RowInput fr tv pr sq ac = Inr wi \<Longrightarrow> add_row e i wi a db = Inr (r, db') \<Longrightarrow> pricing_step db db'"
| step_update_row: "RowInput fr tv pr sq ac = Inr wi \<Longrightarrow> update_row e i k wi a db = Inr (r, db')
    \<Longrightarrow> pricing_step db db'"
| step_delete_row: "delete_row e i k a db = Inr (v, db') \<Longrightarrow> pricing_step db db'"
| step_calculate: "calculate e req a db = Inr (z, db') \<Longrightarrow> pricing_step db db'"
| step_other: "next_id db \<le> next_id db' \<Longrightarrow> rate_cards db' = rate_cards db
    \<Longrightarrow> center_assignments db' = center_assignments db \<Longrightarrow> product_assignments db' = product_assignments db
    \<Longrightarrow> dimensions db' = dimensions db \<Longrightarrow> matrices db' = matrices db \<Longrightarrow> matrix_rows db' = matrix_rows db
    \<Longrightarrow> pricing_step db db'"

definition no_pricing :: "'a pricing_db_scheme \<Rightarrow> bool" where
  "no_pricing db \<longleftrightarrow> rate_cards db = [] \<and> center_assignments db = [] \<and> product_assignments db = []
     \<and> dimensions db = [] \<and> matrices db = [] \<and> matrix_rows db = []"

lemma ensure_honours: "honours db (ensure_default_dimensions t db)"
proof -
  obtain ds where "dimensions (ensure_default_dimensions t db) = dimensions db @ ds"
    by (rule ensure_eq [of t db]) simp
  then show ?thesis by (intro honours_frame) simp_all
qed

lemmas op_invs =
  create_inv update_draft_inv submit_inv approve_inv publish_inv archive_inv new_version_inv
  assign_center_inv unassign_center_inv assign_product_inv unassign_product_inv create_matrix_inv
  update_matrix_inv delete_matrix_inv delete_row_inv

text \<open>Every operation keeps the invariant and changes only what BR-0001 allows.\<close>

lemma step_keeps: "pricing_step db db' \<Longrightarrow> pricing_inv db \<Longrightarrow> pricing_inv db' \<and> honours db db'"
proof (induction rule: pricing_step.induct)
  case (step_list_dimensions e db dims db')
  then show ?case
    using ensure_inv ensure_honours
    by (auto simp: list_dimensions_def require_current_tenant_def result_simps Let_def)
next
  case (step_create_dimension code nm un mn mx di e a db d db')
  then show ?case using create_dimension_inv DimensionInput_unit by blast
next
  case (step_add_row fr tv pr sq ac wi e i a db r db')
  then show ?case using add_row_inv RowInput_ok by blast
next
  case (step_update_row fr tv pr sq ac wi e i k a db r db')
  then show ?case using update_row_inv RowInput_ok by blast
next
  case (step_calculate e req a db z db')
  then show ?case using calculate_inv calculate_honours by blast
next
  case (step_other db db')
  then show ?case using pricing_inv_frame [of db db'] honours_frame [of db' db "[]"] by simp
qed (rule op_invs; assumption)+

section \<open>The life cycle of a card\<close>

fun card_rank :: "card_status \<Rightarrow> nat" where
  "card_rank Draft = 0" | "card_rank UnderReview = 1" | "card_rank Approved = 2"
| "card_rank Published = 3" | "card_rank Archived = 4"

lemma card_rank_less: "s \<noteq> Archived \<Longrightarrow> card_rank s < 4"
  by (cases s) auto

interpretation card_life: ranked_lifecycle card_edge "\<lambda>s. s = Archived" card_rank
  by unfold_locales (auto simp: card_edge_def card_rank_less)

text \<open>What a run of the module preserves: the content of every card that is past the draft stage, and
  the order of the statuses.\<close>

definition keeps :: "'a pricing_db_scheme \<Rightarrow> 'a pricing_db_scheme \<Rightarrow> bool" where
  "keeps db db' \<longleftrightarrow>
     (\<forall>c \<in> set (rate_cards db).
        (rc_status c \<noteq> Draft \<longrightarrow> frozen_content db' (rc_id c) = frozen_content db (rc_id c))
        \<and> (\<exists>c' \<in> set (rate_cards db'). rc_id c' = rc_id c \<and> card_edge\<^sup>*\<^sup>* (rc_status c) (rc_status c')))
     \<and> (\<exists>ds. dimensions db' = dimensions db @ ds)"

lemma keeps_refl: "keeps db db"
  by (auto simp: keeps_def)

lemma past_draft: "card_edge\<^sup>*\<^sup>* s t \<Longrightarrow> s \<noteq> Draft \<Longrightarrow> t \<noteq> Draft"
  using card_life.rank_mono [of s t] by (cases s) auto

lemma keeps_honours: "keeps db db1 \<Longrightarrow> honours db1 db2 \<Longrightarrow> keeps db db2"
  unfolding keeps_def honours_def
proof (elim conjE exE, intro conjI ballI)
  fix c ds es
  assume k: "\<forall>c \<in> set (rate_cards db).
        (rc_status c \<noteq> Draft \<longrightarrow> frozen_content db1 (rc_id c) = frozen_content db (rc_id c))
        \<and> (\<exists>c' \<in> set (rate_cards db1). rc_id c' = rc_id c \<and> card_edge\<^sup>*\<^sup>* (rc_status c) (rc_status c'))"
    and h: "\<forall>d \<in> set (rate_cards db1).
        (rc_status d \<noteq> Draft \<longrightarrow> frozen_content db2 (rc_id d) = frozen_content db1 (rc_id d))
        \<and> (\<exists>d' \<in> set (rate_cards db2). rc_id d' = rc_id d
             \<and> (rc_status d' = rc_status d \<or> card_edge (rc_status d) (rc_status d')))"
    and c: "c \<in> set (rate_cards db)"
  obtain c1 where c1: "c1 \<in> set (rate_cards db1)" "rc_id c1 = rc_id c" "card_edge\<^sup>*\<^sup>* (rc_status c) (rc_status c1)"
    using k c by blast
  show "rc_status c \<noteq> Draft \<longrightarrow> frozen_content db2 (rc_id c) = frozen_content db (rc_id c)"
    using h k c c1 past_draft by metis
  obtain c2 where c2: "c2 \<in> set (rate_cards db2)" "rc_id c2 = rc_id c1"
      "rc_status c2 = rc_status c1 \<or> card_edge (rc_status c1) (rc_status c2)"
    using h c1(1) by blast
  then have "card_edge\<^sup>*\<^sup>* (rc_status c) (rc_status c2)" using c1(3) by auto
  then show "\<exists>c' \<in> set (rate_cards db2). rc_id c' = rc_id c \<and> card_edge\<^sup>*\<^sup>* (rc_status c) (rc_status c')"
    using c2 c1(2) by auto
qed auto

lemma run_keeps: "pricing_step\<^sup>*\<^sup>* db db' \<Longrightarrow> pricing_inv db \<Longrightarrow> pricing_inv db' \<and> keeps db db'"
  by (induction rule: rtranclp_induct) (auto intro: keeps_refl dest: step_keeps keeps_honours)

lemma no_pricing_inv: "no_pricing db \<Longrightarrow> pricing_inv db"
  by (simp add: no_pricing_def pricing_inv_def cards_ok_def open_ok_def currencies_ok_def centers_ok_def
      products_ok_def windows_ok_def dimensions_ok_def matrices_ok_def rows_ok_def bands_disjoint_def
      unique_keys_def)


text \<open>
  C1: Whatever sequence of pricing operations a new installation runs, no organisation has two
  published cards in force on the same day for a centre and a product they share (BR-0002), no two
  active bands of a matrix share a reading, and a code has at most one version still open.
\<close>

theorem reachable_prices_unambiguous:
  assumes "no_pricing db0" and "pricing_step\<^sup>*\<^sup>* db0 db"
  shows "(\<forall>c \<in> set (rate_cards db). \<forall>d \<in> set (rate_cards db). \<forall>center product on.
            rc_tenant c = rc_tenant d \<longrightarrow> rc_status c = Published \<longrightarrow> rc_status d = Published
            \<longrightarrow> center \<in> set (center_ids db (rc_id c)) \<inter> set (center_ids db (rc_id d))
            \<longrightarrow> product \<in> set (product_codes db (rc_id c)) \<inter> set (product_codes db (rc_id d))
            \<longrightarrow> covers c on \<longrightarrow> covers d on \<longrightarrow> c = d)
       \<and> (\<forall>r \<in> set (matrix_rows db). \<forall>s \<in> set (matrix_rows db). \<forall>v.
            mr_matrix r = mr_matrix s \<longrightarrow> mr_active r \<longrightarrow> mr_active s
            \<longrightarrow> band_contains r v \<longrightarrow> band_contains s v \<longrightarrow> r = s)
       \<and> (\<forall>c \<in> set (rate_cards db). \<forall>d \<in> set (rate_cards db).
            version_key c = version_key d \<or> (rc_tenant c = rc_tenant d \<and> rc_code c = rc_code d
              \<and> is_open (rc_status c) \<and> is_open (rc_status d)) \<longrightarrow> c = d)"
proof (intro conjI ballI allI impI)
  have inv: "pricing_inv db" using run_keeps [OF assms(2)] no_pricing_inv [OF assms(1)] by blast
  note i = pricing_invD [OF inv]
  show "c = d"
    if "c \<in> set (rate_cards db)" "d \<in> set (rate_cards db)" "rc_tenant c = rc_tenant d"
      "rc_status c = Published" "rc_status d = Published"
      "center \<in> set (center_ids db (rc_id c)) \<inter> set (center_ids db (rc_id d))"
      "product \<in> set (product_codes db (rc_id c)) \<inter> set (product_codes db (rc_id d))"
      "covers c on" "covers d on" for c d center product on
  proof (rule unique_keysD [OF i(10) that(1,2)])
    show "rc_id c = rc_id d"
      using covers_both_overlap [OF that(8,9)] that
      by (intro windows_okD [OF i(6), of c d center product])
        (auto simp: center_of_def product_of_def center_ids_def product_codes_def card_products_def)
  qed
  show "r = s"
    if "r \<in> set (matrix_rows db)" "s \<in> set (matrix_rows db)" "mr_matrix r = mr_matrix s"
      "mr_active r" "mr_active s" "band_contains r v" "band_contains s v" for r s v
    using that i(9) contains_both_overlap [of r v s] bands_disjointD [of "matrix_rows db" r s]
      unique_keysD [OF i(12), of r s] by (auto simp: rows_ok_def)
  show "c = d"
    if c: "c \<in> set (rate_cards db)" "d \<in> set (rate_cards db)"
      "version_key c = version_key d \<or> (rc_tenant c = rc_tenant d \<and> rc_code c = rc_code d
        \<and> is_open (rc_status c) \<and> is_open (rc_status d))" for c d
    using c(3)
  proof
    assume "version_key c = version_key d"
    moreover have "unique_keys version_key (rate_cards db)" using i(1) by (simp add: cards_ok_def)
    ultimately show "c = d" using c by (blast intro: unique_keysD)
  next
    assume "rc_tenant c = rc_tenant d \<and> rc_code c = rc_code d \<and> is_open (rc_status c) \<and> is_open (rc_status d)"
    then have "rc_id c = rc_id d" using i(2) c(1,2) unfolding open_ok_def by blast
    then show "c = d" by (rule unique_keysD [OF i(10) c(1,2)])
  qed
qed

text \<open>
  C2: BR-0001. From the moment a card leaves the draft stage, no operation of the module changes
  its terms, its centres, its products, or its matrices and bands with their prices; the card never
  disappears; and its status only moves forward along the life cycle, with no way out of the archive.
\<close>

theorem published_card_immutable:
  assumes "pricing_inv db" and "pricing_step\<^sup>*\<^sup>* db db'" and "c \<in> set (rate_cards db)"
    and "rc_status c \<noteq> Draft"
  shows "frozen_content db' (rc_id c) = frozen_content db (rc_id c)
    \<and> (\<exists>c' \<in> set (rate_cards db'). rc_id c' = rc_id c \<and> card_terms c' = card_terms c
         \<and> card_edge\<^sup>*\<^sup>* (rc_status c) (rc_status c')
         \<and> card_rank (rc_status c) \<le> card_rank (rc_status c'))"
proof -
  have k: "pricing_inv db'" "keeps db db'" using run_keeps [OF assms(2,1)] by auto
  have f: "frozen_content db' (rc_id c) = frozen_content db (rc_id c)"
    using k(2) assms(3,4) by (simp add: keeps_def)
  obtain c' where c': "c' \<in> set (rate_cards db')" "rc_id c' = rc_id c" "card_edge\<^sup>*\<^sup>* (rc_status c) (rc_status c')"
    using k(2) assms(3) by (auto simp: keeps_def)
  have "row_get rc_id (rc_id c) (rate_cards db') = Some c'"
    using row_get_unique [OF pricing_invD(10) [OF k(1)] c'(1)] c'(2) by simp
  moreover have "row_get rc_id (rc_id c) (rate_cards db) = Some c"
    using row_get_unique [OF pricing_invD(10) [OF assms(1)] assms(3)] .
  ultimately have "card_terms c' = card_terms c" using f by (simp add: frozen_content_def)
  then show ?thesis using f c' card_life.rank_mono by blast
qed

section \<open>Resolution over time\<close>

lemma price_data_row:
  assumes "price_data db' i = price_data db i" and "m \<in> set (matrices db)" "pm_card m = i"
    and "r \<in> set (matrix_rows db)" "mr_matrix r = pm_id m"
  obtains m' where "m' \<in> set (matrices db')" "m'\<lparr>pm_status := MDraft\<rparr> = m\<lparr>pm_status := MDraft\<rparr>"
    "r \<in> set (matrix_rows db')"
proof -
  let ?rows = "\<lambda>db m. filter (\<lambda>r. mr_matrix r = pm_id m) (matrix_rows db)"
  have "(m\<lparr>pm_status := MDraft\<rparr>, ?rows db m) \<in> set (price_data db' i)"
    unfolding assms(1) using assms(2,3) by (auto simp: price_data_def)
  then obtain m' where m': "m' \<in> set (matrices db')" "m\<lparr>pm_status := MDraft\<rparr> = m'\<lparr>pm_status := MDraft\<rparr>"
      "?rows db m = ?rows db' m'" by (auto simp: price_data_def)
  have "r \<in> set (?rows db m)" using assms(4,5) by simp
  then have "r \<in> set (?rows db' m')" unfolding m'(3) .
  then show thesis using that m' by auto
qed

lemma center_of_iff: "center_of (center_assignments db) i k \<longleftrightarrow> k \<in> set (center_ids db i)"
  by (auto simp: center_of_def center_ids_def)

lemma product_of_iff: "product_of (product_assignments db) i p \<longleftrightarrow> p \<in> set (product_codes db i)"
  by (auto simp: product_of_def product_codes_def card_products_def)

lemma status_of_matrix:
  assumes "pricing_inv db" and "c \<in> set (rate_cards db)" "m \<in> set (matrices db)" "pm_card m = rc_id c"
  shows "pm_status m = expected_status (rc_status c)"
proof -
  obtain d where d: "d \<in> set (rate_cards db)" "follows d m"
    using pricing_invD(8) [OF assms(1)] assms(3) by (auto simp: matrices_ok_def)
  then have "rc_id d = rc_id c" using assms(4) by (simp add: follows_def)
  then have "d = c" by (rule unique_keysD [OF pricing_invD(10) [OF assms(1)] d(1) assms(2)])
  then show ?thesis using d(2) by (simp add: follows_def)
qed

lemma prices_stable:
  assumes inv: "pricing_inv db" and inv': "pricing_inv db'" and k: "keeps db db'"
    and p: "prices db t q c m r" and c': "c' \<in> set (rate_cards db')" "rc_id c' = rc_id c" "rc_status c' = Published"
  obtains m' where "prices db' t q c' m' r" "pm_id m' = pm_id m" "rc_currency c' = rc_currency c"
proof -
  have c: "c \<in> set (rate_cards db)" and st: "rc_status c = Published" using p by (simp_all add: prices_def)
  have f: "frozen_content db' (rc_id c) = frozen_content db (rc_id c)" using k c st by (simp add: keeps_def)
  have "row_get rc_id (rc_id c) (rate_cards db') = Some c'"
    using row_get_unique [OF pricing_invD(10) [OF inv'] c'(1)] c'(2) by simp
  then have terms: "card_terms c' = card_terms c"
    using f row_get_unique [OF pricing_invD(10) [OF inv] c] by (simp add: frozen_content_def)
  have pd: "price_data db' (rc_id c) = price_data db (rc_id c)" using f by (simp add: frozen_content_def)
  obtain m' where m': "m' \<in> set (matrices db')" "m'\<lparr>pm_status := MDraft\<rparr> = m\<lparr>pm_status := MDraft\<rparr>"
      "r \<in> set (matrix_rows db')"
    by (rule price_data_row [OF pd, of m r]) (use p in \<open>auto simp: prices_def pm_key_def\<close>)
  have same: "pm_id m' = pm_id m" "pm_key m' = pm_key m"
    using arg_cong [OF m'(2), of pm_id] arg_cong [OF m'(2), of pm_key] by (simp_all add: pm_key_def)
  then have "pm_status m' = MActive"
    using status_of_matrix [OF inv' c'(1) m'(1)] c' p by (simp add: prices_def pm_key_def expected_status_def)
  then have "prices db' t q c' m' r"
    using p f c' m' same terms
    by (simp add: prices_def center_of_iff product_of_iff frozen_content_def card_terms_def covers_def)
  then show thesis using that same terms by (simp add: card_terms_def)
qed

text \<open>
  C3: A price is stable. If a query resolves today and the card that priced it is still published
  later, then after any sequence of pricing operations in between the same query resolves to the
  same card, matrix, band, unit price and currency: publishing, versioning or editing other cards
  cannot move it.
\<close>

theorem resolution_stable:
  assumes "pricing_inv db" and "pricing_step\<^sup>*\<^sup>* db db'" and "current_tenant e = Some t"
    and "resolve e db q = Inr x" and "c' \<in> set (rate_cards db')" "rc_id c' = rr_card x" "rc_status c' = Published"
  shows "\<exists>x'. resolve e db' q = Inr x' \<and> rr_card x' = rr_card x \<and> rr_matrix x' = rr_matrix x
    \<and> rr_row x' = rr_row x \<and> amount (rr_unit_price x') = amount (rr_unit_price x)
    \<and> currency (rr_unit_price x') = currency (rr_unit_price x)"
proof -
  have k: "pricing_inv db'" "keeps db db'" using run_keeps [OF assms(2,1)] by auto
  obtain d c m r where d: "find_dimension t (rq_dimension q) (dimensions db) = Some d"
    and p: "prices db t q c m r" and x: "resolution_result_of e c m r q d = Inr x"
    by (rule resolve_InrE [OF assms(1,3,4)])
  note fields = result_of_fields [OF assms(1) p _ x] find_dimension_SomeD [OF d]
  obtain m' where p': "prices db' t q c' m' r" "pm_id m' = pm_id m" "rc_currency c' = rc_currency c"
    by (rule prices_stable [OF assms(1) k p assms(5) _ assms(7)]) (use assms(6) fields in auto)
  have d': "find_dimension t (rq_dimension q) (dimensions db') = Some d"
    using d k(2) by (auto simp: keeps_def find_dimension_def find_append)
  obtain x' where x': "resolve e db' q = Inr x'" "resolution_result_of e c' m' r q d = Inr x'"
    using resolve_InrI [OF k(1) assms(3) d' p'(1)] by blast
  show ?thesis
    using x' p' fields assms(6) result_of_fields [OF k(1) p'(1) _ x'(2)] find_dimension_SomeD [OF d'] by auto
qed

text \<open>
  A new version is a draft with the next free version number that copies its source: the same
  centres, the same products and the same matrices with the same bands and prices. It is refused
  while another version of the code is open.
\<close>

theorem new_version_copies:
  assumes "pricing_inv db" and "new_version e i a db = Inr (c, db')"
  shows "center_ids db' (rc_id c) = center_ids db i \<and> product_codes db' (rc_id c) = product_codes db i
    \<and> price_list db' (rc_id c) = price_list db i
    \<and> rate_cards db' = rate_cards db @ [c] \<and> rc_status c = Draft
    \<and> (\<forall>d \<in> set (rate_cards db). rc_tenant d = rc_tenant c \<and> rc_code d = rc_code c
         \<longrightarrow> rc_version d < rc_version c \<and> \<not> is_open (rc_status d))"
proof -
  note i = pricing_invD [OF assms(1)]
  obtain source xs ps where g: "get_card e db i = Inr source"
    and closed: "find (\<lambda>d. rc_tenant d = rc_tenant c \<and> rc_code d = rc_code c \<and> is_open (rc_status d)) (rate_cards db) = None"
    and c: "c = source\<lparr>rc_id := next_id db, rc_status := Draft, rc_published_at := None, rc_archived_at := None,
           rc_version := Suc (if max_version db (rc_tenant source) (rc_code source) = 0
             then rc_version source else max_version db (rc_tenant source) (rc_code source))\<rparr>"
    and cards: "rate_cards db' = rate_cards db @ [c]"
    and xs: "center_assignments db' = center_assignments db @ xs" "map ca_center xs = center_ids db i"
      "\<forall>x \<in> set xs. ca_card x = next_id db \<and> next_id db \<le> ca_id x \<and> ca_id x < next_id db'"
    and ps: "product_assignments db' = product_assignments db @ ps" "map pa_product ps = product_codes db i"
      "\<forall>x \<in> set ps. pa_card x = next_id db \<and> next_id db \<le> pa_id x \<and> pa_id x < next_id db'"
    and pl: "price_list db' (next_id db) = price_list db i"
    by (rule new_version_run [OF assms]) (rule that)
  have "filter (\<lambda>a. ca_card a = next_id db) (center_assignments db) = []"
    "filter (\<lambda>a. pa_card a = next_id db) (product_assignments db) = []"
    using i(4,5) by (auto simp: filter_empty_conv centers_ok_def products_ok_def)
  moreover have "filter (\<lambda>a. ca_card a = next_id db) xs = xs" "filter (\<lambda>a. pa_card a = next_id db) ps = ps"
    using xs(3) ps(3) by simp_all
  moreover have "sorted (map pa_product ps)"
    unfolding ps(2) product_codes_def card_products_def by simp
  ultimately have "center_ids db' (rc_id c) = center_ids db i" "product_codes db' (rc_id c) = product_codes db i"
    using xs ps by (simp_all add: c center_ids_def product_codes_def card_products_def sort_key_id_if_sorted)
  moreover have "rc_version d < rc_version c"
    if "d \<in> set (rate_cards db)" "rc_tenant d = rc_tenant c" "rc_code d = rc_code c" for d
    using max_version_ge [OF that(1)] that(2,3) by (auto simp: c)
  moreover have "\<not> is_open (rc_status d)"
    if "d \<in> set (rate_cards db)" "rc_tenant d = rc_tenant c" "rc_code d = rc_code c" for d
    using closed that by (auto simp: find_None_iff)
  ultimately show ?thesis using pl cards by (auto simp: c)
qed

section \<open>Publishing\<close>

text \<open>A published card of the same organisation, in the same centre and for the same product, in force at
  the same time.\<close>

definition rival :: "'a pricing_db_scheme \<Rightarrow> rate_card \<Rightarrow> rate_card \<Rightarrow> bool" where
  "rival db c d \<longleftrightarrow> rc_tenant d = rc_tenant c \<and> rc_status d = Published
     \<and> set (center_ids db (rc_id c)) \<inter> set (center_ids db (rc_id d)) \<noteq> {}
     \<and> set (product_codes db (rc_id c)) \<inter> set (product_codes db (rc_id d)) \<noteq> {}
     \<and> overlaps (rc_from c) (rc_until c) (rc_from d) (rc_until d)"

lemma get_card_iff:
  assumes "pricing_inv db"
  shows "get_card e db i = Inr c \<longleftrightarrow>
      c \<in> set (rate_cards db) \<and> rc_id c = i \<and> current_tenant e = Some (rc_tenant c)"
  using get_card_InrD [of e db i c] row_get_unique [OF pricing_invD(10) [OF assms], of c]
  by (auto simp: get_card_def require_current_tenant_def result_simps)

lemma filter_eq_self: "distinct xs \<Longrightarrow> x \<in> set xs \<Longrightarrow> filter (\<lambda>y. y = x) xs = [x]"
  by (induction xs) (auto simp: filter_empty_conv)

lemma filter_this:
  assumes "unique_keys key xs" and "x \<in> set xs" and "P x"
  shows "filter (\<lambda>y. key y = key x \<and> P y) xs = [x]"
proof -
  have "filter (\<lambda>y. key y = key x \<and> P y) xs = filter (\<lambda>y. y = x) xs"
    using assms unique_keysD [OF assms(1) _ assms(2)] by (intro filter_cong) auto
  then show ?thesis using assms(2) distinct_of_unique [OF assms(1)] by (simp add: filter_eq_self)
qed

lemma no_overlap_iff:
  assumes "pricing_inv db" and "c \<in> set (rate_cards db)" "rc_status c = Approved"
  shows "assert_no_published_overlap db c (center_ids db (rc_id c)) (product_codes db (rc_id c)) = Inr ()
    \<longleftrightarrow> (\<forall>d \<in> set (rate_cards db). \<not> rival db c d)"
proof -
  have "rc_id d \<noteq> rc_id c" if "d \<in> set (rate_cards db)" "rc_status d = Published" for d
    using that assms(2,3) unique_keysD [OF pricing_invD(10) [OF assms(1)], of d c] by auto
  moreover have "list_ex (\<lambda>a. ca_card a = j \<and> ca_center a \<in> S) (center_assignments db)
      \<longleftrightarrow> S \<inter> set (center_ids db j) \<noteq> {}" for j S
    by (auto simp: list_ex_iff center_ids_def)
  moreover have "list_ex (\<lambda>p. pa_card p = j \<and> pa_product p \<in> S) (product_assignments db)
      \<longleftrightarrow> S \<inter> set (product_codes db j) \<noteq> {}" for j S
    by (auto simp: list_ex_iff product_codes_def card_products_def)
  ultimately show ?thesis
    by (auto simp: assert_no_published_overlap_def published_rivals_def rival_def list_ex_iff)
qed

lemma publish_card_iff:
  assumes inv: "pricing_inv db"
  shows "publish_card e i a db = Inr (c', db') \<longleftrightarrow>
    (\<exists>c \<in> set (rate_cards db). rc_id c = i \<and> current_tenant e = Some (rc_tenant c) \<and> rc_status c = Approved
       \<and> center_ids db i \<noteq> [] \<and> product_codes db i \<noteq> [] \<and> (\<forall>d \<in> set (rate_cards db). \<not> rival db c d)
       \<and> c' = c\<lparr>rc_status := Published, rc_published_at := Some (now e)\<rparr>
       \<and> db' = record_card e c' ''RateCardPublished''
                  [(''version'', JInt (int (rc_version c'))), (''effective_from'', JDate (rc_from c')),
                   (''effective_until'', json_opt JDate (rc_until c'))] a
                  (transition_matrices e c' MDraft MActive a (put_card c' db)))"
proof
  assume "publish_card e i a db = Inr (c', db')"
  then obtain c where "get_card e db i = Inr c" and "rc_status c = Approved" "center_ids db (rc_id c) \<noteq> []"
      "product_codes db (rc_id c) \<noteq> []"
      "assert_no_published_overlap db c (center_ids db (rc_id c)) (product_codes db (rc_id c)) = Inr ()"
      "c' = c\<lparr>rc_status := Published, rc_published_at := Some (now e)\<rparr>"
      "db' = record_card e c' ''RateCardPublished''
                  [(''version'', JInt (int (rc_version c'))), (''effective_from'', JDate (rc_from c')),
                   (''effective_until'', json_opt JDate (rc_until c'))] a
                  (transition_matrices e c' MDraft MActive a (put_card c' db))"
    by (auto simp: publish_card_def result_simps Let_def split: if_splits)
  then show "\<exists>c \<in> set (rate_cards db). rc_id c = i \<and> current_tenant e = Some (rc_tenant c) \<and> rc_status c = Approved
       \<and> center_ids db i \<noteq> [] \<and> product_codes db i \<noteq> [] \<and> (\<forall>d \<in> set (rate_cards db). \<not> rival db c d)
       \<and> c' = c\<lparr>rc_status := Published, rc_published_at := Some (now e)\<rparr>
       \<and> db' = record_card e c' ''RateCardPublished''
                  [(''version'', JInt (int (rc_version c'))), (''effective_from'', JDate (rc_from c')),
                   (''effective_until'', json_opt JDate (rc_until c'))] a
                  (transition_matrices e c' MDraft MActive a (put_card c' db))"
    using no_overlap_iff [OF inv, of c] by (intro bexI [of _ c]) (auto simp: get_card_iff [OF inv])
qed (use no_overlap_iff [OF inv] filter_this [OF pricing_invD(10) [OF inv], where P = "\<lambda>c. rc_status c = Approved"]
     in \<open>auto simp: publish_card_def get_card_iff [OF inv] result_simps Let_def\<close>)

text \<open>
  Publishing succeeds exactly for an approved card of the caller's organisation with at least one
  centre and one product and no rival: no published card in force at the same time for a shared
  centre and product (BR-0002).
\<close>

theorem publish_succeeds_iff:
  assumes "pricing_inv db"
  shows "(\<exists>c' db'. publish_card e i a db = Inr (c', db')) \<longleftrightarrow>
      (\<exists>c \<in> set (rate_cards db). rc_id c = i \<and> current_tenant e = Some (rc_tenant c) \<and> rc_status c = Approved
         \<and> center_ids db i \<noteq> [] \<and> product_codes db i \<noteq> [] \<and> (\<forall>d \<in> set (rate_cards db). \<not> rival db c d))"
  unfolding publish_card_iff [OF assms] by blast

text \<open>
  Publishing sets the card published, stamps the time and activates every matrix of the card; no
  other card and no other matrix changes, and one event announces it.
\<close>

theorem publish_effect:
  assumes "pricing_inv db" and "publish_card e i a db = Inr (c', db')"
  shows "rate_cards db' = map (\<lambda>x. if rc_id x = i
             then x\<lparr>rc_status := Published, rc_published_at := Some (now e)\<rparr> else x) (rate_cards db)
      \<and> matrices db' = map (\<lambda>m. if pm_card m = i then m\<lparr>pm_status := MActive\<rparr> else m) (matrices db)"
proof -
  obtain c where c: "c \<in> set (rate_cards db)" "rc_id c = i" "rc_status c = Approved"
    and c': "c' = c\<lparr>rc_status := Published, rc_published_at := Some (now e)\<rparr>"
    and db': "db' = record_card e c' ''RateCardPublished''
                     [(''version'', JInt (int (rc_version c'))), (''effective_from'', JDate (rc_from c')),
                      (''effective_until'', json_opt JDate (rc_until c'))] a
                     (transition_matrices e c' MDraft MActive a (put_card c' db))"
    using assms by (auto simp: publish_card_iff)
  have only: "x = c" if "x \<in> set (rate_cards db)" "rc_id x = i" for x
    using unique_keysD [OF pricing_invD(10) [OF assms(1)] that(1) c(1)] that(2) c(2) by simp
  have "rate_cards db' = map (\<lambda>x. if rc_id x = i then c' else x) (rate_cards db)"
    using c(2) by (simp add: db' put_card_def row_update_def c')
  also have "\<dots> = map (\<lambda>x. if rc_id x = i
      then x\<lparr>rc_status := Published, rc_published_at := Some (now e)\<rparr> else x) (rate_cards db)"
    using only by (intro map_cong [OF refl]) (auto simp: c')
  finally show ?thesis
    using publish_matrices [OF assms(1) c(1), of c' e a] c
    by (auto simp: db' c' retarget_def expected_status_def)
qed

text \<open>
  Creating and editing disagree on an omitted currency. Creation falls back to the
  organisation's currency; editing a draft stores the omission and is refused by the column's
  \<open>NOT NULL\<close> constraint, so the very command that created a card cannot edit it.
\<close>

theorem omitted_currency_edit_fails:
  assumes "pricing_inv db" and "ri_currency cmd = None"
    and "create_card e tokens code cmd a db = Inr (c, db')"
  shows "update_draft e (rc_id c) cmd a db' = Inl (IntegrityError ''rate_card.currency'')"
proof -
  obtain t code' cur where t: "current_tenant e = Some t" and b: "check_branch (ri_branch cmd) t db = Inr ()"
    and c: "c = \<lparr>rc_id = next_id db, rc_tenant = t, rc_branch = ri_branch cmd, rc_code = code',
              rc_name = ri_name cmd, rc_description = ri_description cmd, rc_currency = cur,
              rc_from = ri_from cmd, rc_until = ri_until cmd, rc_status = Draft, rc_version = 1,
              rc_published_at = None, rc_archived_at = None\<rparr>"
    and db': "db' = record_card e c ''RateCardCreated'' [(''version'', JInt 1)] a
                      (db\<lparr>next_id := Suc (next_id db), rate_cards := rate_cards db @ [c]\<rparr>)"
    using assms(3) by (auto simp: create_card_def require_current_tenant_def result_simps new_id_eq Let_def
        split: if_splits option.splits)
  have "row_get rc_id (next_id db) (rate_cards db) = None"
    using card_id_less [OF assms(1)] by (fastforce simp: row_get_None_iff)
  then have "get_card e db' (rc_id c) = Inr c"
    by (simp add: get_card_def t require_current_tenant_def db' c row_get_append result_simps)
  moreover have "check_branch (ri_branch cmd) t db' = Inr ()"
    using b by (cases "ri_branch cmd")
      (simp_all add: check_branch_def db' record_card_def publish_def audit_def audit_of_def new_id_eq)
  ultimately show ?thesis
    by (simp add: update_draft_def assms(2) need_def require_draft_def c result_simps)
qed

section \<open>Runs on the small price list\<close>

definition sample_input :: rate_card_input where
  "sample_input = \<lparr>ri_name = ''Base'', ri_description = [], ri_currency = None, ri_from = 738886,
     ri_until = None, ri_branch = None\<rparr>"

definition sample_new :: pricing_db where
  "sample_new = sample_pricing\<lparr>next_id := 1, rate_cards := [], center_assignments := [],
     product_assignments := [], dimensions := [], matrices := [], matrix_rows := []\<rparr>"

definition sample_approved :: pricing_db where
  "sample_approved = sample_pricing\<lparr>rate_cards := [sample_card\<lparr>rc_status := Approved, rc_published_at := None\<rparr>],
     matrices := [sample_matrix\<lparr>pm_status := MDraft\<rparr>]\<rparr>"

lemma sample_input_ok: "RateCardInput ''Base'' [] None 738886 None None = Inr sample_input"
  by (simp add: RateCardInput_def sample_input_def result_simps)

lemma sample_env_tenant [simp]: "current_tenant (sample_env t x) = Some t" "now (sample_env t x) = x"
  by (simp_all add: sample_env_def)

lemma sample_upper: "str_upper ''RC-A'' = ''RC-A''"
  by code_simp

lemma sample_kes: "\<exists>y. map_of CURRENCIES ''KES'' = Some y"
  by (simp add: CURRENCIES_def)

lemma sample_create:
  assumes "db \<in> {sample_new, sample_pricing}"
  obtains c db' where "create_card (sample_env 7 0) [] (Some ''RC-A'') sample_input 99 db = Inr (c, db')"
    "rate_cards db' = rate_cards db @ [c]"
  using assms sample_kes
  by (auto simp: create_card_def require_current_tenant_def sample_input_def sample_upper code_taken_def
      check_branch_def tenant_currency_def tenant_org_def resolve_tenant_def get_org_def opt_str_def new_id_eq
      result_simps sample_new_def sample_defs Let_def)

lemma reachable_prices_unambiguous_witness:
  "\<exists>db. pricing_step\<^sup>*\<^sup>* sample_new db \<and> rate_cards db \<noteq> []
     \<and> (\<forall>c \<in> set (rate_cards db). \<forall>d \<in> set (rate_cards db). version_key c = version_key d \<longrightarrow> c = d)"
proof -
  obtain c db' where run: "create_card (sample_env 7 0) [] (Some ''RC-A'') sample_input 99 sample_new = Inr (c, db')"
    and cards: "rate_cards db' = rate_cards sample_new @ [c]"
    by (rule sample_create [of sample_new]) simp_all
  have new: "no_pricing sample_new" by (simp add: no_pricing_def sample_new_def)
  have steps: "pricing_step\<^sup>*\<^sup>* sample_new db'"
    using step_create [OF sample_input_ok run] by simp
  have "\<forall>c \<in> set (rate_cards db'). \<forall>d \<in> set (rate_cards db'). version_key c = version_key d \<longrightarrow> c = d"
    using reachable_prices_unambiguous [OF new steps] by (elim conjE) blast
  moreover have "rate_cards db' \<noteq> []" using cards by simp
  ultimately show ?thesis using steps by blast
qed

lemma published_card_immutable_witness:
  "\<exists>db'. pricing_step\<^sup>*\<^sup>* sample_pricing db' \<and> rate_cards db' \<noteq> rate_cards sample_pricing
     \<and> frozen_content db' 1 = frozen_content sample_pricing 1"
proof -
  obtain c' db' where run: "archive_card (sample_env 7 0) 1 99 sample_pricing = Inr (c', db')"
    and cards: "rate_cards db' = [c']" "rc_status c' = Archived"
    by (simp add: archive_card_def get_card_def require_current_tenant_def result_simps Let_def sample_defs put_card_def)
  have "rc_status sample_card \<noteq> Draft" "rc_id sample_card = 1" "sample_card \<in> set (rate_cards sample_pricing)"
    "rc_status sample_card = Published" "rate_cards sample_pricing = [sample_card]"
    by (simp_all add: sample_defs)
  moreover have "pricing_step\<^sup>*\<^sup>* sample_pricing db'" using step_archive [OF run] by simp
  ultimately show ?thesis
    using published_card_immutable [OF sample_pricing_inv, of db' sample_card] cards by auto
qed

lemma resolution_stable_witness:
  "\<exists>db' x'. pricing_step\<^sup>*\<^sup>* sample_pricing db' \<and> length (rate_cards db') = 2
     \<and> resolve (sample_env 7 0) db' (sample_query (7/2)) = Inr x' \<and> amount (rr_unit_price x') = 81/2"
proof -
  obtain c db' where run: "create_card (sample_env 7 0) [] (Some ''RC-A'') sample_input 99 sample_pricing = Inr (c, db')"
    and cards: "rate_cards db' = rate_cards sample_pricing @ [c]"
    by (rule sample_create [of sample_pricing]) simp_all
  have steps: "pricing_step\<^sup>*\<^sup>* sample_pricing db'" using step_create [OF sample_input_ok run] by simp
  have d: "find_dimension 7 (rq_dimension (sample_query (7/2))) (dimensions sample_pricing) = Some sample_dimension"
    by (simp add: find_dimension_def sample_query_def sample_defs)
  obtain x where x: "resolve (sample_env 7 0) sample_pricing (sample_query (7/2)) = Inr x"
      "resolution_result_of (sample_env 7 0) sample_card sample_matrix sample_row (sample_query (7/2)) sample_dimension = Inr x"
    using resolve_InrI [OF sample_pricing_inv _ d sample_prices, of "sample_env 7 0"] by auto
  have "rr_card x = 1" "amount (rr_unit_price x) = 81/2"
    using result_of_fields [OF sample_pricing_inv sample_prices _ x(2)] by (simp_all add: sample_defs)
  moreover have "sample_card \<in> set (rate_cards db')" "rc_id sample_card = 1" "rc_status sample_card = Published"
    "length (rate_cards db') = 2"
    using cards by (simp_all add: sample_defs)
  ultimately show ?thesis
    using resolution_stable [OF sample_pricing_inv steps _ x(1), of 7 sample_card] steps by auto
qed

lemma new_version_copies_witness:
  "\<exists>c db'. new_version (sample_env 7 0) 1 99 sample_pricing = Inr (c, db')
     \<and> length (price_list db' (rc_id c)) = 1 \<and> price_list db' (rc_id c) = price_list sample_pricing 1"
proof -
  obtain c db' where run: "new_version (sample_env 7 0) 1 99 sample_pricing = Inr (c, db')"
    by (auto simp: new_version_def get_card_def require_current_tenant_def result_simps Let_def new_id_eq
        sample_defs is_open_def)
  moreover have "length (price_list sample_pricing 1) = 1"
    by (simp add: price_list_def sample_defs)
  ultimately show ?thesis using new_version_copies [OF sample_pricing_inv run] by auto
qed

lemma sample_approved_inv: "pricing_inv sample_approved"
proof -
  have "windows_ok [sample_card\<lparr>rc_status := Approved, rc_published_at := None\<rparr>] xs ps" for xs ps
    by (simp add: windows_ok_def)
  moreover have "str_isalpha ''KES'' \<and> str_upper ''KES'' = ''KES''" by code_simp
  ultimately show ?thesis
    by (simp add: sample_approved_def pricing_inv_def sample_defs cards_ok_def open_ok_def currencies_ok_def
        centers_ok_def products_ok_def dimensions_ok_def matrices_ok_def rows_ok_def row_ok_def
        bands_disjoint_def unique_keys_def follows_def expected_status_def ranges_overlap_def at_scale_4_samples)
qed

lemma publish_succeeds_iff_witness:
  "\<exists>c' db'. publish_card (sample_env 7 0) 1 99 sample_approved = Inr (c', db')"
  unfolding publish_succeeds_iff [OF sample_approved_inv]
  by (simp add: sample_approved_def sample_defs center_ids_def product_codes_def card_products_def rival_def)

lemma publish_effect_witness:
  "\<exists>c' db'. publish_card (sample_env 7 0) 1 99 sample_approved = Inr (c', db')
     \<and> map rc_status (rate_cards db') = [Published] \<and> map pm_status (matrices db') = [MActive]"
proof -
  have "\<exists>c' db'. publish_card (sample_env 7 0) 1 99 sample_approved = Inr (c', db')"
    unfolding publish_card_iff [OF sample_approved_inv]
    by (simp add: sample_approved_def sample_defs center_ids_def product_codes_def card_products_def rival_def)
  then obtain c' db' where run: "publish_card (sample_env 7 0) 1 99 sample_approved = Inr (c', db')" by blast
  then show ?thesis
    using publish_effect [OF sample_approved_inv run] by (simp add: sample_approved_def sample_defs)
qed

lemma omitted_currency_edit_fails_witness:
  "\<exists>c db'. create_card (sample_env 7 0) [] (Some ''RC-A'') sample_input 99 sample_new = Inr (c, db')
     \<and> update_draft (sample_env 7 0) (rc_id c) sample_input 99 db' = Inl (IntegrityError ''rate_card.currency'')"
proof -
  obtain c db' where run: "create_card (sample_env 7 0) [] (Some ''RC-A'') sample_input 99 sample_new = Inr (c, db')"
    by (rule sample_create [of sample_new]) simp_all
  have "pricing_inv sample_new" by (rule no_pricing_inv) (simp add: no_pricing_def sample_new_def)
  then show ?thesis
    using omitted_currency_edit_fails [OF _ _ run] run by (simp add: sample_input_def)
qed

end
