(* ===== verification/Numbering.thy ===== *)
theory Numbering
  imports Platform
begin

text \<open>
  Tables whose rows carry a number of a document series (collection slips, settlements, payments,
  receipts; \<open>core/document_numbers.py\<close>): every number was issued by its series, and within an
  organisation no two rows share one. Minting a number for a new or an existing row keeps this.
\<close>

lemma document_number_inj2:
  assumes "document_number p y v = document_number p y' w"
  shows "y = y' \<and> v = w"
proof -
  have "(p @ ''-'' @ y) @ CHR ''-'' # pad_zeros WIDTH (show_nat v)
      = (p @ ''-'' @ y') @ CHR ''-'' # pad_zeros WIDTH (show_nat w)"
    using assms by (simp add: document_number_def)
  then have "p @ ''-'' @ y = p @ ''-'' @ y'" using split_at_hyphen hyphen_not_in_pad by blast
  then show ?thesis using document_number_inj [OF assms] by simp
qed

lemma allocate_mono: "series_next qs j \<le> series_next (snd (allocate k qs)) j"
  using doc_series.alloc_same [of k qs] doc_series.alloc_other [of k j qs] by (cases "k = j") auto

lemma next_document_number_eq:
  assumes "next_document_number e t dt px db = (n, db')"
  obtains p where "n = document_number px p (series_next (sequences db) (t, dt, p))"
    "db' = db\<lparr>sequences := snd (allocate (t, dt, p) (sequences db))\<rparr>"
  using assms that by (auto simp: next_document_number_def Let_def split_def doc_series.alloc_value)

definition numbers_ok ::
  "string \<Rightarrow> string \<Rightarrow> ('r \<Rightarrow> uuid) \<Rightarrow> ('r \<Rightarrow> uuid) \<Rightarrow> ('r \<Rightarrow> string option) \<Rightarrow> doc_sequence list \<Rightarrow> 'r list \<Rightarrow> bool" where
  "numbers_ok dt px ident tenant num qs rows \<longleftrightarrow>
     (\<forall>r \<in> set rows. \<forall>n. num r = Some n \<longrightarrow>
        (\<exists>p v. n = document_number px p v \<and> v < series_next qs (tenant r, dt, p)))
     \<and> (\<forall>r \<in> set rows. \<forall>s \<in> set rows. tenant r = tenant s \<longrightarrow> num r \<noteq> None
          \<longrightarrow> num r = num s \<longrightarrow> ident r = ident s)"

lemma numbers_okD:
  assumes "numbers_ok dt px ident tenant num qs rows"
  shows "r \<in> set rows \<Longrightarrow> num r = Some n \<Longrightarrow>
      \<exists>p v. n = document_number px p v \<and> v < series_next qs (tenant r, dt, p)"
    and "r \<in> set rows \<Longrightarrow> s \<in> set rows \<Longrightarrow> tenant r = tenant s \<Longrightarrow> num r = Some n \<Longrightarrow> num s = Some n
      \<Longrightarrow> ident r = ident s"
  using assms unfolding numbers_ok_def by (blast, metis option.distinct(1))

lemma numbers_okI:
  assumes "\<And>r n. r \<in> set rows \<Longrightarrow> num r = Some n \<Longrightarrow>
      \<exists>p v. n = document_number px p v \<and> v < series_next qs (tenant r, dt, p)"
    and "\<And>r s n. r \<in> set rows \<Longrightarrow> s \<in> set rows \<Longrightarrow> tenant r = tenant s \<Longrightarrow> num r = Some n \<Longrightarrow> num s = Some n
      \<Longrightarrow> ident r = ident s"
  shows "numbers_ok dt px ident tenant num qs rows"
  using assms unfolding numbers_ok_def by (metis option.exhaust)

lemma numbers_Nil [simp]: "numbers_ok dt px ident tenant num qs []"
  by (simp add: numbers_ok_def)

text \<open>Rows that keep their identity and number, in series that only grow.\<close>

lemma numbers_kept:
  assumes "numbers_ok dt px ident tenant num qs rows"
    and "\<And>r'. r' \<in> set rows' \<Longrightarrow> num r' \<noteq> None \<Longrightarrow>
           \<exists>r \<in> set rows. ident r = ident r' \<and> tenant r = tenant r' \<and> num r = num r'"
    and "\<And>k. series_next qs k \<le> series_next qs' k"
  shows "numbers_ok dt px ident tenant num qs' rows'"
proof (rule numbers_okI)
  fix r' n assume r': "r' \<in> set rows'" "num r' = Some n"
  then obtain r where r: "r \<in> set rows" "tenant r = tenant r'" "num r = Some n" using assms(2) by force
  then obtain p v where n: "n = document_number px p v" "v < series_next qs (tenant r', dt, p)"
    using numbers_okD(1) [OF assms(1), of r n] by auto
  then have "v < series_next qs' (tenant r', dt, p)" using assms(3) [of "(tenant r', dt, p)"] by simp
  then show "\<exists>p v. n = document_number px p v \<and> v < series_next qs' (tenant r', dt, p)"
    using n(1) by blast
next
  fix r' s' n assume r': "r' \<in> set rows'" "num r' = Some n" and s': "s' \<in> set rows'" "num s' = Some n"
    and t: "tenant r' = tenant s'"
  obtain r where r: "r \<in> set rows" "ident r = ident r'" "tenant r = tenant r'" "num r = Some n"
    using assms(2) [OF r'(1)] r'(2) by auto
  obtain s where s: "s \<in> set rows" "ident s = ident s'" "tenant s = tenant s'" "num s = Some n"
    using assms(2) [OF s'(1)] s'(2) by auto
  show "ident r' = ident s'" using numbers_okD(2) [OF assms(1) r(1) s(1) _ r(4) s(4)] r s t by simp
qed

text \<open>One row receives the next number of its series.\<close>

lemma numbers_mint:
  assumes "numbers_ok dt px ident tenant num (sequences db) rows"
    and "next_document_number e t dt px db = (n, db')"
    and "\<And>r'. r' \<in> set rows' \<Longrightarrow> num r' \<noteq> None \<Longrightarrow>
           (ident r' = i \<and> tenant r' = t \<and> num r' = Some n)
           \<or> (\<exists>r \<in> set rows. ident r = ident r' \<and> tenant r = tenant r' \<and> num r = num r')"
  shows "numbers_ok dt px ident tenant num (sequences db') rows'"
proof -
  obtain p where n: "n = document_number px p (series_next (sequences db) (t, dt, p))"
    and db': "db' = db\<lparr>sequences := snd (allocate (t, dt, p) (sequences db))\<rparr>"
    using assms(2) by (rule next_document_number_eq)
  have grow: "series_next (sequences db) k \<le> series_next (sequences db') k" for k
    by (simp add: db' allocate_mono)
  have fresh: "num r \<noteq> Some n" if r: "r \<in> set rows" "tenant r = t" for r
  proof
    assume "num r = Some n"
    then obtain q v where q: "n = document_number px q v" "v < series_next (sequences db) (t, dt, q)"
      using numbers_okD(1) [OF assms(1) r(1)] r(2) by auto
    then have "q = p \<and> v = series_next (sequences db) (t, dt, p)"
      using n by (intro document_number_inj2 [of px]) (simp only:)
    then show False using q(2) by simp
  qed
  show ?thesis
  proof (rule numbers_okI)
    fix r' m assume r': "r' \<in> set rows'" "num r' = Some m"
    show "\<exists>q v. m = document_number px q v \<and> v < series_next (sequences db') (tenant r', dt, q)"
    proof (cases "tenant r' = t \<and> m = n")
      case True
      then show ?thesis
        using n by (intro exI [of _ p] exI [of _ "series_next (sequences db) (t, dt, p)"])
          (simp add: db' doc_series.alloc_same)
    next
      case False
      then obtain r where "r \<in> set rows" "tenant r = tenant r'" "num r = Some m"
        using assms(3) [OF r'(1)] r'(2) by auto
      then show ?thesis
        using numbers_okD(1) [OF assms(1), of r m] grow by (metis order_less_le_trans)
    qed
  next
    fix r' s' m assume r': "r' \<in> set rows'" "num r' = Some m" and s': "s' \<in> set rows'" "num s' = Some m"
      and t: "tenant r' = tenant s'"
    have old: "\<exists>r \<in> set rows. ident r = ident x \<and> tenant r = tenant x \<and> num r = Some m"
      if "x \<in> set rows'" "num x = Some m" "\<not> (tenant x = t \<and> m = n)" for x
      using assms(3) [OF that(1)] that(2,3) by auto
    show "ident r' = ident s'"
    proof (cases "tenant r' = t \<and> m = n")
      case True
      then have "ident x = i" if "x \<in> set rows'" "num x = Some m" "tenant x = t" for x
        using assms(3) [OF that(1)] that(2,3) fresh by auto
      then show ?thesis using True r' s' t by simp
    next
      case False
      then show ?thesis
        using old [OF r'] old [OF s'] t numbers_okD(2) [OF assms(1)] by metis
    qed
  qed
qed

end
