(* ===== verification/CollectionSteps.thy ===== *)
theory CollectionSteps
  imports Collection PricingSteps Numbering
begin

text \<open>
  The collection module as a transition system. A transaction only moves along the documented state
  machine, each group of facts is frozen once its step is behind, a completed record never changes
  except to receive the price it was missing, the transaction log is numbered without gaps, a closed
  session has nothing in flight, and no two slips of an organisation share a number.
\<close>

section \<open>The state machine\<close>

definition tx_edge :: "tx_state \<Rightarrow> tx_state \<Rightarrow> bool" where
  "tx_edge s t \<longleftrightarrow>
     (s, t) \<in> {(NEW, SUPPLIER_IDENTIFIED), (SUPPLIER_IDENTIFIED, MILK_RECEIVED),
              (MILK_RECEIVED, WEIGHT_CAPTURED), (WEIGHT_CAPTURED, QUALITY_PENDING),
              (QUALITY_PENDING, QUALITY_CAPTURED), (QUALITY_CAPTURED, PRICING_PENDING),
              (PRICING_PENDING, PRICED), (PRICED, ACCEPTED), (PRICED, REJECTED),
              (ACCEPTED, COMPLETED), (REJECTED, COMPLETED)}
     \<or> (t = CANCELLED \<and> s \<notin> {ACCEPTED, REJECTED, COMPLETED, CANCELLED})"

fun tx_rank :: "tx_state \<Rightarrow> nat" where
  "tx_rank NEW = 0" | "tx_rank SUPPLIER_IDENTIFIED = 1" | "tx_rank MILK_RECEIVED = 2"
| "tx_rank WEIGHT_CAPTURED = 3" | "tx_rank QUALITY_PENDING = 4" | "tx_rank QUALITY_CAPTURED = 5"
| "tx_rank PRICING_PENDING = 6" | "tx_rank PRICED = 7" | "tx_rank ACCEPTED = 8" | "tx_rank REJECTED = 8"
| "tx_rank COMPLETED = 9" | "tx_rank CANCELLED = 10"

lemma tx_rank_lt_cancelled: "s \<noteq> CANCELLED \<Longrightarrow> tx_rank s < 10"
  by (cases s) auto

interpretation tx_life: ranked_lifecycle tx_edge terminal tx_rank
proof
  show "terminal s \<Longrightarrow> \<not> tx_edge s t" for s t by (auto simp: terminal_def tx_edge_def)
  show "tx_edge s t \<Longrightarrow> tx_rank s < tx_rank t" for s t
    using tx_rank_lt_cancelled [of s] by (auto simp: tx_edge_def)
qed

lemma edge_path2: "tx_edge a b \<Longrightarrow> tx_edge b c \<Longrightarrow> tx_edge\<^sup>*\<^sup>* a c"
  by (blast intro: converse_rtranclp_into_rtranclp)

lemma edge_path3: "tx_edge a b \<Longrightarrow> tx_edge b c \<Longrightarrow> tx_edge c d \<Longrightarrow> tx_edge\<^sup>*\<^sup>* a d"
  by (blast intro: converse_rtranclp_into_rtranclp)

section \<open>What a row may become\<close>

definition tx_home where
  "tx_home tx = (tx_id tx, tx_tenant tx, tx_session tx, tx_center tx, tx_operator tx, tx_created_at tx)"

definition milk_facts where
  "milk_facts tx = (tx_milk_type tx, tx_milk_custom tx, tx_container_type tx, tx_container tx,
     tx_arrival_temp tx, tx_arrived_at tx)"

definition weight_facts where
  "weight_facts tx = (tx_weight_unit tx, tx_gross tx, tx_tare tx, tx_net tx, tx_weight_source tx,
     tx_trade_unit tx, tx_trade_quantity tx, tx_factor tx)"

definition quality_facts where
  "quality_facts tx = (tx_fat tx, tx_snf tx, tx_clr tx, tx_density tx, tx_quality_temp tx,
     tx_remarks tx, tx_quality_source tx)"

definition price_facts where
  "price_facts tx = (tx_pricing_status tx, tx_unit_price tx, tx_gross_amount tx, tx_currency tx,
     tx_calculation tx, tx_pricing_detail tx)"

definition decision_facts where
  "decision_facts tx = (tx_rejected_reason tx, tx_decided_by tx, tx_decided_at tx, tx_base_price tx,
     tx_override_reason tx, tx_overridden_by tx, tx_overridden_at tx)"

definition closing_facts where
  "closing_facts tx = (tx_cancelled_reason tx, tx_completed_at tx)"

lemmas facts_defs = tx_home_def milk_facts_def weight_facts_def quality_facts_def price_facts_def
  decision_facts_def closing_facts_def

text \<open>A group of facts is frozen from a rank on.\<close>

definition kept :: "nat \<Rightarrow> (milk_tx \<Rightarrow> 'f) \<Rightarrow> milk_tx \<Rightarrow> milk_tx \<Rightarrow> bool" where
  "kept k f tx row \<longleftrightarrow> (k \<le> tx_rank (tx_state tx) \<longrightarrow> f row = f tx)"

definition price_kept :: "milk_tx \<Rightarrow> milk_tx \<Rightarrow> bool" where
  "price_kept tx row \<longleftrightarrow>
     (8 \<le> tx_rank (tx_state tx) \<longrightarrow> tx_pricing_status tx \<noteq> Some ''pricing_unavailable''
        \<longrightarrow> price_facts row = price_facts tx)"

definition slip_kept :: "milk_tx \<Rightarrow> milk_tx \<Rightarrow> bool" where
  "slip_kept tx row \<longleftrightarrow> (9 \<le> tx_rank (tx_state tx) \<longrightarrow> tx_slip tx \<noteq> None \<longrightarrow> tx_slip row = tx_slip tx)"

definition evolves :: "milk_tx \<Rightarrow> milk_tx \<Rightarrow> bool" where
  "evolves tx row \<longleftrightarrow>
     tx_edge\<^sup>*\<^sup>* (tx_state tx) (tx_state row) \<and> kept 0 tx_home tx row \<and> kept 1 tx_supplier tx row
     \<and> kept 2 milk_facts tx row \<and> kept 3 weight_facts tx row \<and> kept 5 quality_facts tx row
     \<and> kept 8 decision_facts tx row \<and> kept 9 closing_facts tx row \<and> price_kept tx row \<and> slip_kept tx row"

lemma evolves_refl: "evolves tx tx"
  by (simp add: evolves_def kept_def price_kept_def slip_kept_def)

lemma kept_trans: "tx_rank (tx_state a) \<le> tx_rank (tx_state b) \<Longrightarrow> kept k f a b \<Longrightarrow> kept k f b c \<Longrightarrow> kept k f a c"
  by (simp add: kept_def)

lemma price_kept_trans:
  "tx_rank (tx_state a) \<le> tx_rank (tx_state b) \<Longrightarrow> price_kept a b \<Longrightarrow> price_kept b c \<Longrightarrow> price_kept a c"
  by (auto simp: price_kept_def price_facts_def)

lemma slip_kept_trans:
  "tx_rank (tx_state a) \<le> tx_rank (tx_state b) \<Longrightarrow> slip_kept a b \<Longrightarrow> slip_kept b c \<Longrightarrow> slip_kept a c"
  by (auto simp: slip_kept_def)

lemma evolves_trans:
  assumes "evolves a b" and "evolves b c"
  shows "evolves a c"
proof -
  note a = assms(1) [unfolded evolves_def] and b = assms(2) [unfolded evolves_def]
  have r: "tx_rank (tx_state a) \<le> tx_rank (tx_state b)" using a by (intro tx_life.rank_mono) simp
  show ?thesis
    unfolding evolves_def
  proof (intro conjI)
    show "tx_edge\<^sup>*\<^sup>* (tx_state a) (tx_state c)" using a b by (blast intro: rtranclp_trans)
  qed (rule kept_trans [OF r] price_kept_trans [OF r] slip_kept_trans [OF r],
      use a in blast, use b in blast)+
qed

text \<open>A record that is complete, has its slip and does not wait for a price is never changed.\<close>

lemma evolves_done:
  assumes "evolves tx row" and "tx_state tx = COMPLETED" and "tx_slip tx \<noteq> None"
    and "tx_pricing_status tx \<noteq> Some ''pricing_unavailable''"
  shows "row = tx"
proof -
  have "tx_state row = COMPLETED"
    using tx_life.terminal_stays [of "tx_state tx" "tx_state row"] assms by (auto simp: evolves_def terminal_def)
  then show ?thesis
    using assms
    by (intro milk_tx.equality)
      (simp_all add: evolves_def kept_def price_kept_def slip_kept_def facts_defs)
qed

section \<open>The invariant\<close>

definition sessions_ok :: "uuid \<Rightarrow> collection_session list \<Rightarrow> bool" where
  "sessions_ok n ss \<longleftrightarrow> unique_keys cs_id ss \<and> (\<forall>s \<in> set ss. cs_id s < n)
     \<and> (\<forall>s \<in> set ss. \<forall>s' \<in> set ss. cs_center s = cs_center s' \<longrightarrow> cs_status s = SOpen
          \<longrightarrow> cs_status s' = SOpen \<longrightarrow> cs_id s = cs_id s')"

definition housed :: "collection_session list \<Rightarrow> milk_tx \<Rightarrow> bool" where
  "housed ss tx \<longleftrightarrow>
     (\<exists>s \<in> set ss. cs_id s = tx_session tx \<and> cs_tenant s = tx_tenant tx \<and> cs_center s = tx_center tx
        \<and> (cs_status s = SClosed \<longrightarrow> terminal (tx_state tx)))"

text \<open>No price before pricing.\<close>

definition price_due :: "milk_tx \<Rightarrow> bool" where
  "price_due tx \<longleftrightarrow> (tx_rank (tx_state tx) < 7 \<longrightarrow>
     tx_unit_price tx = None \<and> tx_base_price tx = None \<and> tx_pricing_status tx = None)"

definition txs_ok :: "uuid \<Rightarrow> collection_session list \<Rightarrow> milk_tx list \<Rightarrow> bool" where
  "txs_ok n ss txs \<longleftrightarrow> unique_keys tx_id txs
     \<and> (\<forall>tx \<in> set txs. tx_id tx < n \<and> stored_tx tx = Inr tx \<and> price_due tx \<and> housed ss tx)"

definition events_ok :: "'a collection_db_scheme \<Rightarrow> bool" where
  "events_ok db \<longleftrightarrow>
     (\<forall>i. map te_sequence (events_of db i) = [1 ..< Suc (length (events_of db i))])"

definition completed_ids :: "milk_tx list \<Rightarrow> uuid set" where
  "completed_ids txs = tx_id ` {tx \<in> set txs. tx_state tx = COMPLETED}"

definition snapshots_ok :: "milk_tx list \<Rightarrow> transaction_snapshot list \<Rightarrow> bool" where
  "snapshots_ok txs sns \<longleftrightarrow> unique_keys sn_tx sns \<and> sn_tx ` set sns = completed_ids txs"

definition slips_ok :: "doc_sequence list \<Rightarrow> milk_tx list \<Rightarrow> bool" where
  "slips_ok qs txs \<longleftrightarrow> numbers_ok SLIP_DOC_TYPE SLIP_PREFIX tx_id tx_tenant tx_slip qs txs"

definition collection_inv :: "'a collection_db_scheme \<Rightarrow> bool" where
  "collection_inv db \<longleftrightarrow> sessions_ok (next_id db) (sessions db)
     \<and> txs_ok (next_id db) (sessions db) (transactions db) \<and> events_ok db
     \<and> snapshots_ok (transactions db) (snapshots db) \<and> slips_ok (sequences db) (transactions db)"

definition same_pricing :: "'a pricing_db_scheme \<Rightarrow> 'a pricing_db_scheme \<Rightarrow> bool" where
  "same_pricing db db' \<longleftrightarrow> next_id db \<le> next_id db' \<and> rate_cards db' = rate_cards db
     \<and> center_assignments db' = center_assignments db \<and> product_assignments db' = product_assignments db
     \<and> dimensions db' = dimensions db \<and> matrices db' = matrices db \<and> matrix_rows db' = matrix_rows db"

lemma same_pricing_inv: "same_pricing db db' \<Longrightarrow> pricing_inv db \<Longrightarrow> pricing_inv db'"
  unfolding same_pricing_def by (rule pricing_inv_frame) auto

section \<open>Frames\<close>

lemma record_tx_tables [simp]:
  "sessions (record_tx e tx n d a db) = sessions db"
  "transactions (record_tx e tx n d a db) = transactions db"
  "snapshots (record_tx e tx n d a db) = snapshots db"
  "sequences (record_tx e tx n d a db) = sequences db"
  "rate_cards (record_tx e tx n d a db) = rate_cards db"
  "center_assignments (record_tx e tx n d a db) = center_assignments db"
  "product_assignments (record_tx e tx n d a db) = product_assignments db"
  "dimensions (record_tx e tx n d a db) = dimensions db"
  "matrices (record_tx e tx n d a db) = matrices db"
  "matrix_rows (record_tx e tx n d a db) = matrix_rows db"
  "next_id (record_tx e tx n d a db) = Suc (Suc (next_id db))"
  by (simp_all add: record_tx_def new_id_eq Let_def)

lemma record_tx_events_of:
  "\<exists>v. te_sequence v = Suc (length (events_of db (tx_id tx))) \<and> te_type v = n \<and> te_actor v = a
     \<and> (\<forall>i. events_of (record_tx e tx n d a db) i =
          (if i = tx_id tx then events_of db i @ [v] else events_of db i))"
  by (auto simp: record_tx_def new_id_eq Let_def events_of_def)

lemma record_tx_events_ok: "events_ok db \<Longrightarrow> events_ok (record_tx e tx n d a db)"
  unfolding events_ok_def
proof
  fix i
  assume ok: "\<forall>i. map te_sequence (events_of db i) = [1 ..< Suc (length (events_of db i))]"
  obtain v where v: "te_sequence v = Suc (length (events_of db (tx_id tx)))"
      "\<forall>i. events_of (record_tx e tx n d a db) i = (if i = tx_id tx then events_of db i @ [v] else events_of db i)"
    using record_tx_events_of [of db tx n a e d] by auto
  show "map te_sequence (events_of (record_tx e tx n d a db) i) =
      [1 ..< Suc (length (events_of (record_tx e tx n d a db) i))]"
    using ok v by (simp del: upt_Suc add: upt_Suc_append)
qed

lemma events_ok_frame: "tx_events db' = tx_events db \<Longrightarrow> events_ok db' = events_ok db"
  by (simp add: events_ok_def events_of_def)

text \<open>The log only grows, and stays numbered.\<close>

definition log_grows :: "'a collection_db_scheme \<Rightarrow> 'a collection_db_scheme \<Rightarrow> bool" where
  "log_grows db db' \<longleftrightarrow> (events_ok db \<longrightarrow> events_ok db') \<and> (\<exists>es. tx_events db' = tx_events db @ es)"

lemma log_grows_same: "tx_events db2 = tx_events db1 \<Longrightarrow> log_grows db db2 = log_grows db db1"
  using events_ok_frame [of db2 db1] by (simp add: log_grows_def)

lemma log_grows_refl: "log_grows db db"
  by (simp add: log_grows_def)

lemma log_grows_record: "log_grows db db1 \<Longrightarrow> log_grows db (record_tx e tx n d a db1)"
  unfolding log_grows_def using record_tx_events_ok [of db1 e tx n d a]
  by (auto simp: record_tx_def new_id_eq Let_def)

lemma put_tx_tables [simp]:
  "transactions (put_tx tx db) = row_update tx_id (tx_id tx) (\<lambda>_. tx) (transactions db)"
  "sessions (put_tx tx db) = sessions db" "snapshots (put_tx tx db) = snapshots db"
  "sequences (put_tx tx db) = sequences db" "tx_events (put_tx tx db) = tx_events db"
  "rate_cards (put_tx tx db) = rate_cards db" "center_assignments (put_tx tx db) = center_assignments db"
  "product_assignments (put_tx tx db) = product_assignments db" "dimensions (put_tx tx db) = dimensions db"
  "matrices (put_tx tx db) = matrices db" "matrix_rows (put_tx tx db) = matrix_rows db"
  "next_id (put_tx tx db) = next_id db" "devices (put_tx tx db) = devices db"
  by (simp_all add: put_tx_def)

lemma save_tx_Inr: "save_tx tx db = Inr db' \<longleftrightarrow> (\<exists>row. stored_tx tx = Inr row \<and> db' = put_tx row db)"
  by (auto simp: save_tx_def result_simps)

text \<open>Pricing a transaction reads the price list and appends one event.\<close>

lemma price_tx_cases:
  assumes "price_tx e tx a db = Inr (failure, tx', db')"
  obtains (priced) x where "pricing_attempt e tx a db = Inr (x, db')" "failure = None"
      "tx' = (if tx_base_price tx \<noteq> None then tx else priced x tx)"
  | (failed) reason f where "failure = Some f" "tx' = unpriced reason tx" "db' = db"
  using assms by (auto simp: price_tx_def Let_def split: sum.splits prod.splits error.splits)

lemma pricing_attempt_run:
  assumes "pricing_attempt e tx a db = Inr (x, db')"
  obtains product fat q r qty req where "product_code_for (tx_milk_type tx) = Some product"
    "tx_fat tx = Some fat"
    "ResolutionQuery (tx_center tx) product (business_date_of e (tx_created_at tx) (tenant_timezone e db None))
       PRICING_DIMENSION fat = Inr q"
    "resolve e db q = Inr r" "paid_quantity tx = Some qty"
    "CalculationRequest (rr_row r) qty (Some (paid_unit tx))
       (business_date_of e (tx_created_at tx) (tenant_timezone e db None)) None = Inr req"
    "calculate e req a db = Inr (x, db')"
  using assms by (auto simp: pricing_attempt_def Let_def result_simps split: option.splits)

lemma calculate_frame:
  fixes db :: "'a collection_db_scheme"
  assumes "calculate e req a db = Inr (x, db')"
  shows "sessions db' = sessions db \<and> transactions db' = transactions db \<and> snapshots db' = snapshots db
    \<and> sequences db' = sequences db \<and> tx_events db' = tx_events db \<and> same_pricing db db'"
  by (rule calculate_run [OF assms]) (simp add: same_pricing_def)

lemma price_tx_frame:
  fixes db :: "'a collection_db_scheme"
  assumes "price_tx e tx a db = Inr (failure, tx', db')"
  shows "sessions db' = sessions db \<and> transactions db' = transactions db \<and> snapshots db' = snapshots db
    \<and> sequences db' = sequences db \<and> tx_events db' = tx_events db \<and> same_pricing db db'"
  by (rule price_tx_cases [OF assms])
    (auto simp: same_pricing_def elim!: pricing_attempt_run dest: calculate_frame)

section \<open>The shape of a change\<close>

definition tx_change ::
  "'a collection_db_scheme \<Rightarrow> milk_tx \<Rightarrow> milk_tx \<Rightarrow> 'a collection_db_scheme \<Rightarrow> bool" where
  "tx_change db tx row db' \<longleftrightarrow>
     tx \<in> set (transactions db) \<and> evolves tx row \<and> stored_tx row = Inr row \<and> price_due row
     \<and> transactions db' = row_update tx_id (tx_id tx) (\<lambda>_. row) (transactions db)
     \<and> sessions db' = sessions db \<and> log_grows db db' \<and> same_pricing db db'
     \<and> (\<exists>ss. snapshots db' = snapshots db @ ss)"

definition quiet ::
  "'a collection_db_scheme \<Rightarrow> milk_tx \<Rightarrow> milk_tx \<Rightarrow> 'a collection_db_scheme \<Rightarrow> bool" where
  "quiet db tx row db' \<longleftrightarrow>
     snapshots db' = snapshots db \<and> sequences db' = sequences db \<and> tx_slip row = tx_slip tx
     \<and> (tx_state row = COMPLETED \<longleftrightarrow> tx_state tx = COMPLETED)"

lemma evolves_id: "evolves tx row \<Longrightarrow> tx_id row = tx_id tx \<and> tx_tenant row = tx_tenant tx
    \<and> tx_session row = tx_session tx \<and> tx_center row = tx_center tx"
  by (simp add: evolves_def kept_def tx_home_def)

lemma evolves_terminal: "evolves tx row \<Longrightarrow> terminal (tx_state tx) \<Longrightarrow> tx_state row = tx_state tx"
  unfolding evolves_def using tx_life.terminal_stays by blast

lemma evolves_housed: "evolves tx row \<Longrightarrow> housed ss tx \<Longrightarrow> housed ss row"
  using evolves_id [of tx row] evolves_terminal [of tx row] by (auto simp: housed_def)

lemma inv_parts:
  assumes "collection_inv db"
  shows "sessions_ok (next_id db) (sessions db)" "txs_ok (next_id db) (sessions db) (transactions db)"
    "events_ok db" "snapshots_ok (transactions db) (snapshots db)" "slips_ok (sequences db) (transactions db)"
    "unique_keys tx_id (transactions db)" "unique_keys cs_id (sessions db)"
proof -
  show "sessions_ok (next_id db) (sessions db)" "txs_ok (next_id db) (sessions db) (transactions db)"
    "events_ok db" "snapshots_ok (transactions db) (snapshots db)" "slips_ok (sequences db) (transactions db)"
    using assms unfolding collection_inv_def by blast+
  then show "unique_keys tx_id (transactions db)" "unique_keys cs_id (sessions db)"
    unfolding txs_ok_def sessions_ok_def by blast+
qed

lemma txs_ok_mono: "txs_ok n ss txs \<Longrightarrow> n \<le> k \<Longrightarrow> txs_ok k ss txs"
  unfolding txs_ok_def by (meson order_less_le_trans)

lemma sessions_ok_mono: "sessions_ok n ss \<Longrightarrow> n \<le> k \<Longrightarrow> sessions_ok k ss"
  unfolding sessions_ok_def by (meson order_less_le_trans)

lemma txs_ok_put:
  assumes "txs_ok n ss txs" and "tx \<in> set txs" and "evolves tx row" and "stored_tx row = Inr row" "price_due row"
  shows "txs_ok n ss (row_update tx_id (tx_id tx) (\<lambda>_. row) txs)"
proof -
  have id: "tx_id row = tx_id tx" using evolves_id [OF assms(3)] by simp
  have "unique_keys tx_id (row_update tx_id (tx_id tx) (\<lambda>_. row) txs)"
    using assms(1) unique_keys_row_put [OF _ assms(2) id] by (simp add: txs_ok_def)
  then show ?thesis
    using assms id evolves_housed [OF assms(3)] by (auto simp: txs_ok_def in_row_put)
qed

lemma slips_ok_put:
  assumes "slips_ok qs txs" and "tx \<in> set txs" and "evolves tx row" and "tx_slip row = tx_slip tx"
  shows "slips_ok qs (row_update tx_id (tx_id tx) (\<lambda>_. row) txs)"
  using assms(1) unfolding slips_ok_def
  by (rule numbers_kept) (use assms(2,4) evolves_id [OF assms(3)] in \<open>auto simp: in_row_put\<close>)

lemma completed_ids_put:
  assumes "unique_keys tx_id txs" and "tx \<in> set txs" and "tx_id row = tx_id tx"
  shows "completed_ids (row_update tx_id (tx_id tx) (\<lambda>_. row) txs) =
     (if tx_state row = COMPLETED then insert (tx_id tx) (completed_ids txs) else completed_ids txs - {tx_id tx})"
proof -
  have "completed_ids (row_update tx_id (tx_id tx) (\<lambda>_. row) txs) =
      tx_id ` {x. (x = row \<or> x \<in> set txs \<and> tx_id x \<noteq> tx_id tx) \<and> tx_state x = COMPLETED}"
    by (simp add: completed_ids_def in_row_put [OF assms(2)])
  also have "\<dots> = (if tx_state row = COMPLETED then insert (tx_id tx) (completed_ids txs)
      else completed_ids txs - {tx_id tx})"
    using assms(3) by (auto simp: completed_ids_def image_iff) metis+
  finally show ?thesis .
qed

lemma in_completed_ids:
  "unique_keys tx_id txs \<Longrightarrow> tx \<in> set txs \<Longrightarrow> tx_id tx \<in> completed_ids txs \<longleftrightarrow> tx_state tx = COMPLETED"
  unfolding completed_ids_def by (auto dest: unique_keysD)

lemma snapshots_ok_put:
  assumes "snapshots_ok txs sns" and "unique_keys tx_id txs" "tx \<in> set txs" and "tx_id row = tx_id tx"
    and "tx_state row = COMPLETED \<longleftrightarrow> tx_state tx = COMPLETED"
  shows "snapshots_ok (row_update tx_id (tx_id tx) (\<lambda>_. row) txs) sns"
  using assms(1,5) in_completed_ids [OF assms(2,3)]
  by (auto simp: snapshots_ok_def completed_ids_put [OF assms(2-4)])

lemma snapshots_ok_add:
  assumes "snapshots_ok txs sns" and "unique_keys tx_id txs" "tx \<in> set txs" and "tx_id row = tx_id tx"
    and "tx_state row = COMPLETED" "tx_state tx \<noteq> COMPLETED" and "sn_tx s = tx_id tx"
  shows "snapshots_ok (row_update tx_id (tx_id tx) (\<lambda>_. row) txs) (sns @ [s])"
proof -
  have "sn_tx s \<notin> sn_tx ` set sns"
    using assms(1,6,7) in_completed_ids [OF assms(2,3)] by (simp add: snapshots_ok_def)
  then have "unique_keys sn_tx (sns @ [s])"
    using assms(1) by (intro unique_keys_append_fresh) (auto simp: snapshots_ok_def)
  then show ?thesis
    using assms(1,5,7) by (simp add: snapshots_ok_def completed_ids_put [OF assms(2-4)])
qed

lemma completed_ids_snoc: "tx_state tx \<noteq> COMPLETED \<Longrightarrow> completed_ids (txs @ [tx]) = completed_ids txs"
  by (auto simp: completed_ids_def)

lemma change_inv:
  assumes "collection_inv db" and "tx_change db tx row db'"
    and "snapshots_ok (transactions db') (snapshots db')" and "slips_ok (sequences db') (transactions db')"
  shows "collection_inv db'"
proof -
  note i = inv_parts [OF assms(1)]
  note c = assms(2) [unfolded tx_change_def]
  have n: "next_id db \<le> next_id db'" using c by (simp add: same_pricing_def)
  have "sessions_ok (next_id db') (sessions db)" using sessions_ok_mono [OF i(1) n] .
  moreover have "txs_ok (next_id db') (sessions db) (transactions db')"
    using txs_ok_put [OF txs_ok_mono [OF i(2) n], of tx row] c by simp
  ultimately show ?thesis using i(3) c assms(3,4) by (simp add: collection_inv_def log_grows_def)
qed

lemma quiet_change_inv:
  assumes "collection_inv db" and "tx_change db tx row db'" and "quiet db tx row db'"
  shows "collection_inv db'"
proof (rule change_inv [OF assms(1,2)])
  note i = inv_parts [OF assms(1)]
  note c = assms(2) [unfolded tx_change_def] and q = assms(3) [unfolded quiet_def]
  show "snapshots_ok (transactions db') (snapshots db')"
    using snapshots_ok_put [OF i(4,6), of tx row] c q evolves_id [of tx row] by simp
  show "slips_ok (sequences db') (transactions db')"
    using slips_ok_put [OF i(5), of tx row] c q by simp
qed

section \<open>Every operation is such a change\<close>

lemma get_tx_InrD:
  "get_tx e db i = Inr tx \<Longrightarrow>
     tx \<in> set (transactions db) \<and> tx_id tx = i \<and> current_tenant e = Some (tx_tenant tx)"
  by (auto simp: get_tx_def require_current_tenant_def result_simps split: option.splits if_splits
      dest: row_get_SomeD)

lemma get_mutable_Inr [result_simps]:
  "get_mutable e db i s = Inr tx \<longleftrightarrow> get_tx e db i = Inr tx \<and> \<not> terminal (tx_state tx) \<and> tx_state tx = s"
  by (auto simp: get_mutable_def result_simps)

lemma stored_iff:
  "stored_tx tx = Inr tx \<longleftrightarrow>
     numeric_opt 8 4 (tx_factor tx) = Inr (tx_factor tx) \<and> numeric_opt 12 4 (tx_unit_price tx) = Inr (tx_unit_price tx)
     \<and> numeric_opt 16 2 (tx_gross_amount tx) = Inr (tx_gross_amount tx)
     \<and> numeric_opt 12 4 (tx_base_price tx) = Inr (tx_base_price tx)"
proof
  assume "stored_tx tx = Inr tx"
  then obtain f u g b where t: "tx\<lparr>tx_factor := f, tx_unit_price := u, tx_gross_amount := g, tx_base_price := b\<rparr> = tx"
    and "numeric_opt 8 4 (tx_factor tx) = Inr f" "numeric_opt 12 4 (tx_unit_price tx) = Inr u"
      "numeric_opt 16 2 (tx_gross_amount tx) = Inr g" "numeric_opt 12 4 (tx_base_price tx) = Inr b"
    by (metis stored_tx_same)
  then show "numeric_opt 8 4 (tx_factor tx) = Inr (tx_factor tx) \<and> numeric_opt 12 4 (tx_unit_price tx) = Inr (tx_unit_price tx)
     \<and> numeric_opt 16 2 (tx_gross_amount tx) = Inr (tx_gross_amount tx)
     \<and> numeric_opt 12 4 (tx_base_price tx) = Inr (tx_base_price tx)"
    using arg_cong [OF t, of tx_factor] arg_cong [OF t, of tx_unit_price] arg_cong [OF t, of tx_gross_amount]
      arg_cong [OF t, of tx_base_price] by simp
qed (simp add: stored_tx_def)

lemma stored_row: "stored_tx tx = Inr row \<Longrightarrow> stored_tx row = Inr row"
  by (erule stored_tx_same) (simp add: stored_iff numeric_opt_idem)

lemma inv_stored: "collection_inv db \<Longrightarrow> tx \<in> set (transactions db) \<Longrightarrow> stored_tx tx = Inr tx"
  by (simp add: collection_inv_def txs_ok_def)

lemma inv_price_due: "collection_inv db \<Longrightarrow> tx \<in> set (transactions db) \<Longrightarrow> price_due tx"
  by (simp add: collection_inv_def txs_ok_def)

lemma evolves_rank: "evolves tx row \<Longrightarrow> tx_rank (tx_state tx) \<le> tx_rank (tx_state row)"
  unfolding evolves_def using tx_life.rank_mono by blast

lemmas evolves_simps = evolves_def kept_def price_kept_def slip_kept_def facts_defs

text \<open>Changes that write no money column.\<close>

lemma plain_change:
  assumes "collection_inv db" and "get_tx e db i = Inr tx" and "evolves tx row"
    and "tx_factor row = tx_factor tx" "tx_unit_price row = tx_unit_price tx"
      "tx_gross_amount row = tx_gross_amount tx" "tx_base_price row = tx_base_price tx"
      "tx_pricing_status row = tx_pricing_status tx"
  shows "tx_change db tx row (record_tx e t n d a (put_tx row db))"
proof -
  note g = get_tx_InrD [OF assms(2)]
  have "stored_tx row = Inr row" using inv_stored [OF assms(1)] g assms(4-7) by (simp add: stored_iff)
  moreover have "price_due row"
    using inv_price_due [OF assms(1)] g assms(4-8) evolves_rank [OF assms(3)] by (auto simp: price_due_def)
  moreover have "log_grows db (record_tx e t n d a (put_tx row db))"
    by (rule log_grows_record) (simp add: log_grows_same [of _ db] log_grows_refl)
  ultimately show ?thesis
    using g assms(3) evolves_id [OF assms(3)]
    by (simp add: tx_change_def same_pricing_def)
qed

lemma identify_change:
  assumes "collection_inv db" and "identify_supplier e i m v sid a db = Inr (row, db')"
  shows "\<exists>tx. tx_change db tx row db' \<and> quiet db tx row db' \<and> tx_state tx = NEW"
proof -
  obtain tx and s :: supplier where g: "get_tx e db i = Inr tx" "tx_state tx = NEW"
    and row: "row = tx\<lparr>tx_supplier := Some (sup_id s), tx_state := SUPPLIER_IDENTIFIED\<rparr>"
    and db': "db' = record_tx e row ''SupplierIdentified''
                [(''supplier_id'', JId (sup_id s)), (''method'', JStr m)] a (put_tx row db)"
    using assms(2) by (auto simp: identify_supplier_def result_simps Let_def)
  have ev: "evolves tx row" by (simp add: evolves_simps row g(2)) (simp add: tx_edge_def r_into_rtranclp)
  show ?thesis
    using plain_change [OF assms(1) g(1) ev] g(2)
    by (intro exI [of _ tx]) (simp add: row db' quiet_def)
qed

lemma receive_change:
  assumes "collection_inv db" and "receive_milk e i cmd a db = Inr (row, db')"
  shows "\<exists>tx. tx_change db tx row db' \<and> quiet db tx row db' \<and> tx_state tx = SUPPLIER_IDENTIFIED"
proof -
  obtain tx n d where g: "get_tx e db i = Inr tx" "tx_state tx = SUPPLIER_IDENTIFIED"
    and row: "row = tx\<lparr>tx_milk_type := Some (mi_milk_type cmd), tx_milk_custom := mi_milk_custom cmd,
                    tx_container_type := Some (mi_container_type cmd), tx_container := Some (mi_container cmd),
                    tx_arrival_temp := mi_temperature cmd,
                    tx_arrived_at := Some (case mi_arrived_at cmd of None \<Rightarrow> now e | Some t \<Rightarrow> t),
                    tx_state := MILK_RECEIVED\<rparr>"
    and db': "db' = record_tx e row n d a (put_tx row db)"
    using assms(2) by (auto simp: receive_milk_def result_simps Let_def)
  have ev: "evolves tx row" by (simp add: evolves_simps row g(2)) (simp add: tx_edge_def r_into_rtranclp)
  show ?thesis
    using plain_change [OF assms(1) g(1) ev] g(2)
    by (intro exI [of _ tx]) (simp add: row db' quiet_def)
qed

lemma accept_change:
  assumes "collection_inv db" and "accept_tx e i a db = Inr (row, db')"
  shows "\<exists>tx. tx_change db tx row db' \<and> quiet db tx row db' \<and> tx_state tx = PRICED"
proof -
  obtain tx where g: "get_tx e db i = Inr tx" "tx_state tx = PRICED"
    and row: "row = tx\<lparr>tx_state := ACCEPTED, tx_decided_by := Some a, tx_decided_at := Some (now e),
                    tx_rejected_reason := None\<rparr>"
    and db': "db' = record_tx e row ''TransactionAccepted'' [] a (put_tx row db)"
    using assms(2) by (auto simp: accept_tx_def decide_def result_simps Let_def)
  have ev: "evolves tx row" by (simp add: evolves_simps row g(2)) (simp add: tx_edge_def r_into_rtranclp)
  show ?thesis
    using plain_change [OF assms(1) g(1) ev] g(2)
    by (intro exI [of _ tx]) (simp add: row db' quiet_def)
qed

lemma reject_change:
  assumes "collection_inv db" and "reject_tx e i r a db = Inr (row, db')"
  shows "\<exists>tx. tx_change db tx row db' \<and> quiet db tx row db' \<and> tx_state tx = PRICED"
proof -
  obtain tx d where g: "get_tx e db i = Inr tx" "tx_state tx = PRICED"
    and row: "row = tx\<lparr>tx_state := REJECTED, tx_decided_by := Some a, tx_decided_at := Some (now e),
                    tx_rejected_reason := Some r\<rparr>"
    and db': "db' = record_tx e row ''TransactionRejected'' d a (put_tx row db)"
    using assms(2) by (auto simp: reject_tx_def decide_def result_simps Let_def)
  have ev: "evolves tx row" by (simp add: evolves_simps row g(2)) (simp add: tx_edge_def r_into_rtranclp)
  show ?thesis
    using plain_change [OF assms(1) g(1) ev] g(2)
    by (intro exI [of _ tx]) (simp add: row db' quiet_def)
qed

lemma cancel_change:
  assumes "collection_inv db" and "cancel_tx e i r a db = Inr (row, db')"
  shows "\<exists>tx. tx_change db tx row db' \<and> quiet db tx row db'"
proof -
  obtain tx d where g: "get_tx e db i = Inr tx"
    and st: "tx_state tx \<noteq> ACCEPTED" "tx_state tx \<noteq> REJECTED" "\<not> terminal (tx_state tx)"
    and row: "row = tx\<lparr>tx_state := CANCELLED, tx_cancelled_reason := Some (take 300 r),
                    tx_completed_at := Some (now e)\<rparr>"
    and db': "db' = record_tx e row ''TransactionCancelled'' d a (put_tx row db)"
    using assms(2) by (auto simp: cancel_tx_def result_simps Let_def)
  have rank: "tx_rank (tx_state tx) < 8"
    using st by (cases "tx_state tx") (auto simp: terminal_def)
  have "tx_edge\<^sup>*\<^sup>* (tx_state tx) CANCELLED"
    using st by (intro r_into_rtranclp) (auto simp: tx_edge_def terminal_def)
  then have ev: "evolves tx row" using rank by (simp add: evolves_simps row)
  show ?thesis
    using plain_change [OF assms(1) g(1) ev] st
    by (intro exI [of _ tx]) (auto simp: row db' quiet_def terminal_def)
qed

text \<open>Changes that write money columns: the row keeps the stored figures.\<close>

lemma save_change:
  assumes "collection_inv db" and "get_tx e db i = Inr tx" and "stored_tx tx' = Inr row"
    and "transactions db1 = transactions db" "sessions db1 = sessions db" "same_pricing db db1"
    and "log_grows db db1" and "evolves tx row" and "\<exists>ss. snapshots db1 = snapshots db @ ss" and "price_due row"
  shows "tx_change db tx row (put_tx row db1)"
proof -
  note g = get_tx_InrD [OF assms(2)]
  have "log_grows db (put_tx row db1)" using assms(7) log_grows_same [of "put_tx row db1" db1] by simp
  then show ?thesis
    using g assms(4-10) evolves_id [OF assms(8)] stored_row [OF assms(3)]
    by (simp add: tx_change_def same_pricing_def)
qed

lemma change_record:
  assumes "tx_change db tx row db1"
  shows "tx_change db tx row (record_tx e t n d a db1)"
  using assms by (simp add: tx_change_def same_pricing_def log_grows_record)

lemma quiet_record: "quiet db tx row (record_tx e t n d a db1) = quiet db tx row db1"
  by (simp add: quiet_def)

text \<open>The figures that were stored before are stored unchanged.\<close>

lemma stored_tx_keeps:
  assumes "stored_tx tx = Inr tx" and "stored_tx t = Inr row"
  shows "tx_factor t = tx_factor tx \<Longrightarrow> tx_factor row = tx_factor tx"
    and "tx_base_price t = tx_base_price tx \<Longrightarrow> tx_base_price row = tx_base_price tx"
    and "tx_unit_price t = tx_unit_price tx \<Longrightarrow> tx_unit_price row = tx_unit_price tx"
  using assms(1) unfolding stored_iff by (rule_tac [!] stored_tx_same [OF assms(2)]) auto

lemma pin_trade_InrD:
  assumes "pin_trade terms on unit net tx = Inr tx'"
  shows "\<exists>u q f. tx' = tx\<lparr>tx_trade_unit := u, tx_trade_quantity := q, tx_factor := f\<rparr>"
proof -
  have same: "tx = tx\<lparr>tx_trade_unit := tx_trade_unit tx, tx_trade_quantity := tx_trade_quantity tx,
      tx_factor := tx_factor tx\<rparr>"
    by (rule milk_tx.equality) simp_all
  have "tx' = tx \<or> (\<exists>u q f. tx' = tx\<lparr>tx_trade_unit := Some u, tx_factor := Some f, tx_trade_quantity := Some q\<rparr>)"
    using assms by (auto simp: pin_trade_def result_simps split: if_splits option.splits)
  then show ?thesis
  proof
    assume "tx' = tx"
    then show ?thesis using same by blast
  next
    assume "\<exists>u q f. tx' = tx\<lparr>tx_trade_unit := Some u, tx_factor := Some f, tx_trade_quantity := Some q\<rparr>"
    then obtain u q f where
      "tx' = tx\<lparr>tx_trade_unit := Some u, tx_factor := Some f, tx_trade_quantity := Some q\<rparr>" by blast
    then show ?thesis by (intro exI [of _ "Some u"] exI [of _ "Some q"] exI [of _ "Some f"]) simp
  qed
qed

lemma weight_change:
  assumes "collection_inv db" and "capture_weight e i cmd a db = Inr (t, db')"
  shows "\<exists>tx row. tx_change db tx row db' \<and> quiet db tx row db' \<and> tx_state tx = MILK_RECEIVED
     \<and> stored_tx t = Inr row"
proof -
  obtain tx unit g tr dev tx2 row n d where get: "get_tx e db i = Inr tx" "tx_state tx = MILK_RECEIVED"
    and pin: "pin_trade (tenant_units e db (Some (tx_tenant tx)))
        (business_today e (tenant_timezone e db (Some (tx_tenant tx)))) unit (py_round 3 (fl_sub g tr))
        (tx\<lparr>tx_weight_unit := Some unit, tx_gross := Some (py_round 3 g), tx_tare := Some (py_round 3 tr),
           tx_net := Some (py_round 3 (fl_sub g tr)), tx_weight_source := Some (wc_source cmd)\<rparr>) = Inr tx2"
    and t: "t = tx2\<lparr>tx_state := QUALITY_PENDING\<rparr>" "stored_tx t = Inr row"
    and db': "db' = record_tx e (tx2\<lparr>tx_state := WEIGHT_CAPTURED\<rparr>) n d a (put_tx row db)"
    using assms(2) by (auto simp: capture_weight_def result_simps save_tx_Inr Let_def split: prod.splits)
  obtain u q f where tx2: "tx2 = tx\<lparr>tx_weight_unit := Some unit, tx_gross := Some (py_round 3 g),
      tx_tare := Some (py_round 3 tr), tx_net := Some (py_round 3 (fl_sub g tr)),
      tx_weight_source := Some (wc_source cmd), tx_trade_unit := u, tx_trade_quantity := q, tx_factor := f\<rparr>"
    using pin_trade_InrD [OF pin] by auto
  obtain f' u' g' b' where row: "row = t\<lparr>tx_factor := f', tx_unit_price := u', tx_gross_amount := g', tx_base_price := b'\<rparr>"
    using t(2) by (rule stored_tx_same)
  have "tx_edge\<^sup>*\<^sup>* MILK_RECEIVED QUALITY_PENDING"
    by (rule edge_path2 [of _ WEIGHT_CAPTURED]) (simp_all add: tx_edge_def)
  then have ev: "evolves tx row" by (simp add: evolves_simps row t(1) tx2 get(2))
  note g = get_tx_InrD [OF get(1)]
  have "tx_unit_price tx = None" "tx_base_price tx = None" "tx_pricing_status tx = None"
    using inv_price_due [OF assms(1)] g get(2) by (auto simp: price_due_def)
  then have due: "price_due row"
    using stored_tx_keeps(2,3) [OF inv_stored [OF assms(1) conjunct1 [OF g]] t(2)]
    by (simp add: price_due_def t(1) tx2) (simp add: row t(1) tx2)
  have "tx_change db tx row (put_tx row db)"
    by (rule save_change [OF assms(1) get(1) t(2)]) (simp_all add: ev due same_pricing_def log_grows_refl)
  moreover have "quiet db tx row (put_tx row db)"
    by (simp add: quiet_def row t(1) tx2 get(2))
  ultimately show ?thesis
    using get(2) t(2) by (intro exI [of _ tx] exI [of _ row]) (simp add: db' change_record quiet_record)
qed

text \<open>Steps that only write the log (and, when pricing runs, the outbox).\<close>

definition log_only :: "'a collection_db_scheme \<Rightarrow> 'a collection_db_scheme \<Rightarrow> bool" where
  "log_only db db' \<longleftrightarrow> sessions db' = sessions db \<and> transactions db' = transactions db
     \<and> snapshots db' = snapshots db \<and> sequences db' = sequences db
     \<and> log_grows db db' \<and> same_pricing db db'"

lemma log_only_refl: "log_only db db"
  by (simp add: log_only_def same_pricing_def log_grows_refl)

lemma log_only_record: "log_only db db1 \<Longrightarrow> log_only db (record_tx e tx n d a db1)"
  by (auto simp: log_only_def same_pricing_def log_grows_record)

lemma log_only_price: "log_only db db1 \<Longrightarrow> price_tx e tx a db1 = Inr (f, tx', db2) \<Longrightarrow> log_only db db2"
  using log_grows_same [of db2 db1 db] by (auto simp: log_only_def same_pricing_def dest!: price_tx_frame)

lemma apply_pricing_run:
  assumes "apply_pricing e tx a db = Inr (t, db')" and "log_only db0 db"
  obtains failure tx2 db2 where
    "price_tx e (tx\<lparr>tx_state := PRICING_PENDING\<rparr>) a
       (record_tx e (tx\<lparr>tx_state := PRICING_PENDING\<rparr>) ''PricingRequested''
          [(''dimension'', JStr PRICING_DIMENSION)] a db) = Inr (failure, tx2, db2)"
    "t = tx2\<lparr>tx_state := PRICED\<rparr>" "log_only db0 db'"
proof -
  let ?tx = "tx\<lparr>tx_state := PRICING_PENDING\<rparr>"
  let ?db = "record_tx e ?tx ''PricingRequested'' [(''dimension'', JStr PRICING_DIMENSION)] a db"
  obtain failure tx2 db2 where p: "price_tx e ?tx a ?db = Inr (failure, tx2, db2)"
    and t: "t = tx2\<lparr>tx_state := PRICED\<rparr>"
    and db': "db' = (case failure of None \<Rightarrow> record_tx e tx2 ''PricingCompleted'' (pricing_facts tx2) a db2
                    | Some f \<Rightarrow> record_tx e tx2 ''PricingUnavailable'' f a db2)"
    using assms(1) by (auto simp: apply_pricing_def result_simps Let_def)
  have "log_only db0 db2" using log_only_price [OF log_only_record [OF assms(2)] p] .
  then have "log_only db0 db'" by (simp add: db' log_only_record split: option.split)
  then show thesis by (rule that [OF p t])
qed

text \<open>Pricing touches the price alone.\<close>

definition same_but_price :: "milk_tx \<Rightarrow> milk_tx \<Rightarrow> bool" where
  "same_but_price tx tx' \<longleftrightarrow>
     tx' = tx\<lparr>tx_pricing_status := tx_pricing_status tx', tx_unit_price := tx_unit_price tx',
       tx_gross_amount := tx_gross_amount tx', tx_currency := tx_currency tx',
       tx_calculation := tx_calculation tx', tx_pricing_detail := tx_pricing_detail tx'\<rparr>"

lemma price_tx_same: "price_tx e tx a db = Inr (f, tx', db') \<Longrightarrow> same_but_price tx tx'"
  unfolding same_but_price_def
  by (erule price_tx_cases) (auto simp: priced_def unpriced_def intro!: milk_tx.equality)

text \<open>A quality capture: the row with its reading, the log before pricing, pricing, saving.\<close>

definition quality_row :: "quality_command \<Rightarrow> quality_values \<Rightarrow> milk_tx \<Rightarrow> milk_tx" where
  "quality_row cmd v tx =
     tx\<lparr>tx_fat := Some (qv_fat v), tx_snf := Some (qv_snf v), tx_clr := Some (qv_clr v),
        tx_density := qv_density v, tx_quality_temp := qv_temperature v,
        tx_remarks := qc_remarks cmd, tx_quality_source := Some (qc_source cmd),
        tx_state := QUALITY_CAPTURED\<rparr>"

definition quality_log ::
  "env \<Rightarrow> quality_command \<Rightarrow> uuid option \<Rightarrow> uuid \<Rightarrow> milk_tx \<Rightarrow> 'a collection_db_scheme \<Rightarrow> 'a collection_db_scheme" where
  "quality_log e cmd dv a t db =
     (let db1 = record_tx e t ''QualityCaptured''
            ([(''fat'', json_opt JFloat (tx_fat t)), (''snf'', json_opt JFloat (tx_snf t)),
              (''clr'', json_opt JFloat (tx_clr t))] @ provenance (qc_source cmd) dv (qc_frame cmd)) a db
      in if quality_deviation t db1 = [] then db1
         else record_tx e t ''QualityDeviationFlagged''
                [(''supplier_id'', json_opt JId (tx_supplier t)), (''metrics'', JObj (quality_deviation t db1))] a db1)"

lemma capture_quality_eq:
  "capture_quality e i cmd a db =
     andthen (get_mutable e db i QUALITY_PENDING) (\<lambda>tx.
     andthen (quality_reading e db tx cmd) (\<lambda>(v, dv).
     andthen (check_quality v) (\<lambda>_.
     andthen (apply_pricing e (quality_row cmd v tx) a (quality_log e cmd dv a (quality_row cmd v tx) db))
       (\<lambda>(tx2, db3). andthen (save_tx tx2 db3) (\<lambda>db4. Inr (tx2, db4))))))"
  by (simp only: capture_quality_def Let_def quality_log_def quality_row_def)

lemma quality_log_only: "log_only db (quality_log e cmd dv a t db)"
  by (simp add: quality_log_def Let_def log_only_record log_only_refl)

lemma quality_change:
  fixes db :: "'a collection_db_scheme"
  assumes "collection_inv db" and "capture_quality e i cmd a db = Inr (t, db')"
  shows "\<exists>tx row. tx_change db tx row db' \<and> quiet db tx row db' \<and> tx_state tx = QUALITY_PENDING
     \<and> stored_tx t = Inr row"
proof -
  obtain tx v dv row db3 where get: "get_tx e db i = Inr tx" "tx_state tx = QUALITY_PENDING"
    and ap: "apply_pricing e (quality_row cmd v tx) a (quality_log e cmd dv a (quality_row cmd v tx) db) = Inr (t, db3)"
    and row: "stored_tx t = Inr row" and db': "db' = put_tx row db3"
    using assms(2) unfolding capture_quality_eq by (auto simp: result_simps save_tx_Inr)
  note start_def = quality_row_def
  have "log_only db (quality_log e cmd dv a (quality_row cmd v tx) db)" by (rule quality_log_only)
  then obtain failure tx2 and dbq dbp :: "'a collection_db_scheme" where pr: "price_tx e ((quality_row cmd v tx)\<lparr>tx_state := PRICING_PENDING\<rparr>) a dbq
        = Inr (failure, tx2, dbp)"
      and t: "t = tx2\<lparr>tx_state := PRICED\<rparr>" and log: "log_only db db3"
    by (rule apply_pricing_run [OF ap])
  obtain s u g c k dd where tx2: "tx2 = (quality_row cmd v tx)\<lparr>tx_state := PRICING_PENDING, tx_pricing_status := s,
      tx_unit_price := u, tx_gross_amount := g, tx_currency := c, tx_calculation := k, tx_pricing_detail := dd\<rparr>"
    using price_tx_same [OF pr] unfolding same_but_price_def by (rule that)
  obtain f' u' g' b' where r: "row = t\<lparr>tx_factor := f', tx_unit_price := u', tx_gross_amount := g', tx_base_price := b'\<rparr>"
    using row by (rule stored_tx_same)
  have st: "stored_tx tx = Inr tx" using inv_stored [OF assms(1)] get_tx_InrD [OF get(1)] by simp
  have f': "tx_factor row = tx_factor tx"
    by (rule stored_tx_keeps(1) [OF st row]) (simp add: t tx2 start_def)
  have "tx_edge\<^sup>*\<^sup>* QUALITY_PENDING PRICED"
    by (rule edge_path3 [of _ QUALITY_CAPTURED PRICING_PENDING]) (simp_all add: tx_edge_def)
  then have ev: "evolves tx row"
    using f' by (simp add: evolves_simps r t tx2 start_def get(2))
  have "tx_change db tx row db'"
    unfolding db' by (rule save_change [OF assms(1) get(1) row]) (use log ev in \<open>simp_all add: log_only_def price_due_def r t\<close>)
  moreover have "quiet db tx row db'"
    using log by (simp add: quiet_def db' r t tx2 start_def get(2) log_only_def)
  ultimately show ?thesis using get(2) row by blast
qed

lemma override_run:
  assumes "override_rate e i cmd a db = Inr (t, db')"
  obtains tx p q g row d where "get_tx e db i = Inr tx" "tx_state tx = PRICED" "tx_unit_price tx = Some p"
    "paid_quantity tx = Some q"
    "quantize ROUND_HALF_UP 2 (dec_mul (ro_unit_price cmd) (repr_dec q)) = Inr g"
    "t = tx\<lparr>tx_base_price := Some (case tx_base_price tx of None \<Rightarrow> p | Some b \<Rightarrow> b),
            tx_unit_price := Some (ro_unit_price cmd),
            tx_gross_amount := Some g, tx_override_reason := Some (str_strip (ro_reason cmd)),
            tx_overridden_by := Some a, tx_overridden_at := Some (now e)\<rparr>"
    "stored_tx t = Inr row" "db' = record_tx e t ''RateOverridden'' d a (put_tx row db)"
proof -
  obtain tx where get: "get_tx e db i = Inr tx" "tx_state tx = PRICED" "get_mutable e db i PRICED = Inr tx"
    using assms by (auto simp: override_rate_def result_simps)
  show thesis
    using assms that [OF get(1,2)]
    by (cases "tx_unit_price tx"; cases "tx_net tx"; cases "paid_quantity tx")
      (auto simp: override_rate_def get(3) result_simps save_tx_Inr Let_def)
qed

lemma override_change:
  assumes "collection_inv db" and "override_rate e i cmd a db = Inr (t, db')"
  shows "\<exists>tx row. tx_change db tx row db' \<and> quiet db tx row db' \<and> tx_state tx = PRICED
     \<and> stored_tx t = Inr row"
proof -
  obtain tx p q g row d where get: "get_tx e db i = Inr tx" "tx_state tx = PRICED"
    and t: "t = tx\<lparr>tx_base_price := Some (case tx_base_price tx of None \<Rightarrow> p | Some b \<Rightarrow> b),
                        tx_unit_price := Some (ro_unit_price cmd),
                        tx_gross_amount := Some g, tx_override_reason := Some (str_strip (ro_reason cmd)),
                        tx_overridden_by := Some a, tx_overridden_at := Some (now e)\<rparr>"
    and row: "stored_tx t = Inr row" and db': "db' = record_tx e t ''RateOverridden'' d a (put_tx row db)"
    using assms(2) by (rule override_run)
  obtain f' u' g' b' where r: "row = t\<lparr>tx_factor := f', tx_unit_price := u', tx_gross_amount := g', tx_base_price := b'\<rparr>"
    using row by (rule stored_tx_same)
  have "stored_tx tx = Inr tx" using inv_stored [OF assms(1)] get_tx_InrD [OF get(1)] by simp
  then have "tx_factor row = tx_factor tx"
    by (rule stored_tx_keeps(1) [OF _ row]) (simp add: t)
  then have ev: "evolves tx row" by (simp add: evolves_simps r t get(2))
  have due: "price_due row" by (simp add: price_due_def r t get(2))
  have "tx_change db tx row (put_tx row db)"
    by (rule save_change [OF assms(1) get(1) row]) (simp_all add: ev due same_pricing_def log_grows_refl)
  moreover have "quiet db tx row (put_tx row db)" by (simp add: quiet_def r t get(2))
  ultimately show ?thesis
    using get(2) row by (intro exI [of _ tx] exI [of _ row]) (simp add: db' change_record quiet_record)
qed

lemma reprice_problems_none:
  "reprice_problems tx = [] \<longleftrightarrow> tx_state tx = COMPLETED \<and> tx_rejected_reason tx = None
     \<and> tx_pricing_status tx = Some ''pricing_unavailable''"
  by (simp add: reprice_problems_def)

lemma reprice_change:
  assumes "collection_inv db" and "reprice e i a db = Inr (t, db')"
  shows "\<exists>tx row. tx_change db tx row db' \<and> quiet db tx row db' \<and> tx_state tx = COMPLETED
     \<and> stored_tx t = Inr row"
proof -
  obtain tx row db1 n d where get: "get_tx e db i = Inr tx" and rp: "reprice_problems tx = []"
    and pr: "price_tx e tx a db = Inr (None, t, db1)"
    and row: "stored_tx t = Inr row" and db': "db' = record_tx e t n d a (put_tx row db1)"
    using assms(2)
    by (auto simp: reprice_def result_simps save_tx_Inr Let_def split: option.splits)
  note rp' = rp [unfolded reprice_problems_none]
  have log: "log_only db db1" by (rule log_only_price [OF log_only_refl pr])
  obtain s u g c k dd where t: "t = tx\<lparr>tx_pricing_status := s,
      tx_unit_price := u, tx_gross_amount := g, tx_currency := c, tx_calculation := k, tx_pricing_detail := dd\<rparr>"
    using price_tx_same [OF pr] unfolding same_but_price_def by (rule that)
  obtain f' u' g' b' where r: "row = t\<lparr>tx_factor := f', tx_unit_price := u', tx_gross_amount := g', tx_base_price := b'\<rparr>"
    using row by (rule stored_tx_same)
  have st: "stored_tx tx = Inr tx" using inv_stored [OF assms(1)] get_tx_InrD [OF get] by simp
  have "tx_factor row = tx_factor tx" "tx_base_price row = tx_base_price tx"
    by (rule stored_tx_keeps [OF st row]; simp add: t)+
  then have ev: "evolves tx row" using rp' by (simp add: evolves_simps r t)
  have "tx_change db tx row (put_tx row db1)"
    by (rule save_change [OF assms(1) get row]) (use log ev rp' in \<open>simp_all add: log_only_def price_due_def r t\<close>)
  moreover have "quiet db tx row (put_tx row db1)" using log by (simp add: quiet_def r t log_only_def)
  ultimately show ?thesis
    using rp' row by (intro exI [of _ tx] exI [of _ row]) (simp add: db' change_record quiet_record)
qed

text \<open>Completion and the late slip mint a number; completion also freezes the snapshot.\<close>

lemma slips_ok_mint:
  assumes "slips_ok (sequences db) (transactions db)" and "tx \<in> set (transactions db)"
    and "next_document_number e (tx_tenant tx) SLIP_DOC_TYPE SLIP_PREFIX db = (n, db1)"
    and "tx_id row = tx_id tx" "tx_tenant row = tx_tenant tx" "tx_slip row = Some n"
  shows "slips_ok (sequences db1) (row_update tx_id (tx_id tx) (\<lambda>_. row) (transactions db))"
  using assms(1,3) unfolding slips_ok_def
  by (rule numbers_mint [where i = "tx_id tx"]) (use assms(2,4-6) in \<open>auto simp: in_row_put\<close>)

lemma next_number_frame:
  "next_document_number e t dt px db = (n, db1) \<Longrightarrow> \<exists>qs. db1 = db\<lparr>sequences := qs\<rparr>"
  by (auto elim!: next_document_number_eq)

lemma complete_run:
  fixes db :: "'a collection_db_scheme"
  assumes "complete_tx e i a db = Inr (row, db')"
  obtains tx n dbn s db1 d where "get_tx e db i = Inr tx" "tx_state tx = ACCEPTED \<or> tx_state tx = REJECTED"
    "next_document_number e (tx_tenant tx) SLIP_DOC_TYPE SLIP_PREFIX db = (n, dbn)"
    "row = tx\<lparr>tx_completed_at := Some (now e), tx_state := COMPLETED, tx_slip := Some n\<rparr>"
    "sn_tx s = tx_id tx" "sn_data s = freeze row (tx_state tx)"
    "snapshots db1 = snapshots db @ [s]" "sequences db1 = sequences dbn"
    "sessions db1 = sessions db" "transactions db1 = transactions db" "tx_events db1 = tx_events db"
    "same_pricing db db1" "db' = record_tx e row ''TransactionCompleted'' d a (put_tx row db1)"
proof -
  obtain tx where g: "get_tx e db i = Inr tx" "tx_state tx = ACCEPTED \<or> tx_state tx = REJECTED"
    using assms by (auto simp: complete_tx_def result_simps)
  obtain n dbn where n: "next_document_number e (tx_tenant tx) SLIP_DOC_TYPE SLIP_PREFIX db = (n, dbn)"
    by fastforce
  obtain qs where dbn: "dbn = db\<lparr>sequences := qs\<rparr>" using next_number_frame [OF n] by blast
  define r where "r = tx\<lparr>tx_completed_at := Some (now e), tx_state := COMPLETED, tx_slip := Some n\<rparr>"
  define sn where "sn = \<lparr>sn_id = next_id dbn, sn_tenant = tx_tenant tx, sn_tx = tx_id tx,
          sn_data = freeze r (tx_state tx)\<rparr>"
  define dur where "dur = seconds_between (tx_created_at tx) (now e)"
  define db1 where "db1 = db\<lparr>sequences := qs, snapshots := snapshots db @ [sn], next_id := Suc (Suc (next_id db)),
      tx_metrics := tx_metrics db @
        [\<lparr>tm_id = Suc (next_id db), tm_tenant = tx_tenant tx, tm_tx = tx_id tx, tm_session = tx_session tx,
          tm_center = tx_center tx, tm_supplier = tx_supplier tx, tm_operator = tx_operator tx,
          tm_started = tx_created_at tx, tm_completed = now e,
          tm_duration = py_round 3 dur, tm_final = tx_state tx\<rparr>]\<rparr>"
  have "row = r" "db' = record_tx e r ''TransactionCompleted'' (completed_facts r (tx_state tx) dur) a (put_tx r db1)"
    using assms g(2)
    by (auto simp: complete_tx_def g(1) n dbn new_id_eq Let_def db1_def r_def sn_def dur_def)
  then show thesis
    by (intro that [OF g n, of sn db1]) (simp_all add: r_def sn_def db1_def dbn same_pricing_def)
qed

lemma complete_change:
  assumes "collection_inv db" and "complete_tx e i a db = Inr (row, db')"
  shows "\<exists>tx. tx_change db tx row db' \<and> collection_inv db'"
proof -
  note inv = inv_parts [OF assms(1)]
  obtain tx n dbn s db1 d where get: "get_tx e db i = Inr tx" "tx_state tx = ACCEPTED \<or> tx_state tx = REJECTED"
    and mint: "next_document_number e (tx_tenant tx) SLIP_DOC_TYPE SLIP_PREFIX db = (n, dbn)"
    and row: "row = tx\<lparr>tx_completed_at := Some (now e), tx_state := COMPLETED, tx_slip := Some n\<rparr>"
    and s: "sn_tx s = tx_id tx" and t: "snapshots db1 = snapshots db @ [s]" "sequences db1 = sequences dbn"
      "sessions db1 = sessions db" "transactions db1 = transactions db" "tx_events db1 = tx_events db" "same_pricing db db1"
    and db': "db' = record_tx e row ''TransactionCompleted'' d a (put_tx row db1)"
    using assms(2) by (rule complete_run)
  note g = get_tx_InrD [OF get(1)]
  have st: "stored_tx row = Inr row" using inv_stored [OF assms(1)] g by (simp add: stored_iff row)
  have "tx_edge (tx_state tx) COMPLETED" using get(2) by (auto simp: tx_edge_def)
  moreover have "tx_rank (tx_state tx) = 8" using get(2) by auto
  ultimately have ev: "evolves tx row" by (simp add: evolves_simps row r_into_rtranclp)
  have ch: "tx_change db tx row db'"
    unfolding db' by (rule change_record, rule save_change [OF assms(1) get(1) st])
      (use t ev log_grows_same [of db1 db db] in \<open>simp_all add: log_grows_refl price_due_def row\<close>)
  have sl: "slips_ok (sequences db') (transactions db')"
    using slips_ok_mint [OF inv(5) _ mint, of row] g t by (simp add: db' row)
  have "snapshots_ok (transactions db') (snapshots db')"
    using snapshots_ok_add [OF inv(4,6), of tx row s] g get(2) s t by (auto simp: db' row)
  then show ?thesis using change_inv [OF assms(1) ch _ sl] ch by blast
qed

lemma slip_run:
  fixes db :: "'a collection_db_scheme"
  assumes "slip_of e i db = Inr ((row, d), db')"
  obtains (kept) "get_tx e db i = Inr row" "tx_state row = COMPLETED" "tx_slip row \<noteq> None" "db' = db"
  | (minted) tx n dbn where "get_tx e db i = Inr tx" "tx_state tx = COMPLETED" "tx_slip tx = None"
    "next_document_number e (tx_tenant tx) SLIP_DOC_TYPE SLIP_PREFIX db = (n, dbn)"
    "row = tx\<lparr>tx_slip := Some n\<rparr>" "db' = put_tx row dbn"
proof -
  obtain tx where g: "get_tx e db i = Inr tx" "tx_state tx = COMPLETED"
    using assms by (auto simp: slip_of_def result_simps)
  obtain n dbn where n: "next_document_number e (tx_tenant tx) SLIP_DOC_TYPE SLIP_PREFIX db = (n, dbn)"
    by fastforce
  show thesis
  proof (cases "tx_slip tx")
    case None
    then have "row = tx\<lparr>tx_slip := Some n\<rparr> \<and> db' = put_tx row dbn"
      using assms by (auto simp: slip_of_def g n Let_def)
    then show thesis using minted [OF g None n] by blast
  next
    case (Some x)
    then have "row = tx \<and> db' = db" using assms by (simp add: slip_of_def g Let_def)
    then show thesis using kept g Some by simp
  qed
qed

lemma slip_change:
  assumes "collection_inv db" and "slip_of e i db = Inr ((row, d), db')"
  shows "\<exists>tx. tx_change db tx row db' \<and> collection_inv db'"
  using assms(2)
proof (cases rule: slip_run)
  case minted: (minted tx n dbn)
  note inv = inv_parts [OF assms(1)] and g = get_tx_InrD [OF minted(1)]
  obtain qs where dbn: "dbn = db\<lparr>sequences := qs\<rparr>" using next_number_frame [OF minted(4)] by blast
  have st: "stored_tx row = Inr row" using inv_stored [OF assms(1)] g by (simp add: stored_iff minted(5))
  have ev: "evolves tx row" using minted(2,3) by (simp add: evolves_simps minted(5))
  have ch: "tx_change db tx row db'"
    unfolding minted(6) by (rule save_change [OF assms(1) minted(1) st])
      (use ev log_grows_same [of dbn db db] minted(2) in \<open>simp_all add: dbn same_pricing_def log_grows_refl price_due_def minted(5)\<close>)
  moreover have "slips_ok (sequences db') (transactions db')"
    using slips_ok_mint [OF inv(5) _ minted(4), of row] g by (simp add: minted(5,6) dbn)
  moreover have "snapshots_ok (transactions db') (snapshots db')"
    using snapshots_ok_put [OF inv(4,6), of tx row] g minted(2) by (simp add: minted(5,6) dbn)
  ultimately show ?thesis using change_inv [OF assms(1)] by blast
next
  case kept
  note g = get_tx_InrD [OF kept(1)]
  have same: "row_update tx_id (tx_id row) (\<lambda>_. row) (transactions db) = transactions db"
    using unique_keysD [OF inv_parts(6) [OF assms(1)] _ conjunct1 [OF g]]
    unfolding row_update_def by (intro map_idI) metis
  have "tx_change db row row db'"
    using g same inv_stored [OF assms(1)] inv_price_due [OF assms(1)]
    by (simp add: tx_change_def evolves_refl kept(4) same_pricing_def log_grows_refl)
  then show ?thesis using assms(1) kept(4) by blast
qed

section \<open>Sessions and new transactions\<close>

lemma get_session_InrD:
  "get_session e db i = Inr s \<Longrightarrow>
     s \<in> set (sessions db) \<and> cs_id s = i \<and> current_tenant e = Some (cs_tenant s)"
  by (auto simp: get_session_def require_current_tenant_def result_simps split: option.splits if_splits
      dest: row_get_SomeD)

lemma open_session_run:
  fixes db :: "'a collection_db_scheme"
  assumes "open_session e c l a db = Inr (s, db')"
  shows "cs_id s = next_id db \<and> cs_center s = c \<and> cs_status s = SOpen
     \<and> (\<forall>x \<in> set (sessions db). cs_center x = c \<longrightarrow> cs_status x \<noteq> SOpen)
     \<and> sessions db' = sessions db @ [s] \<and> next_id db' = Suc (Suc (next_id db))
     \<and> transactions db' = transactions db \<and> tx_events db' = tx_events db \<and> snapshots db' = snapshots db
     \<and> sequences db' = sequences db"
proof -
  have none: "find (\<lambda>s. cs_center s = c \<and> cs_status s = SOpen) (sessions db) = None"
    using assms by (auto simp: open_session_def require_current_tenant_def result_simps Let_def
        split: option.splits if_splits)
  then show ?thesis
    using assms unfolding find_None_ball
    by (auto simp: open_session_def require_current_tenant_def result_simps Let_def new_id_eq
        split: option.splits if_splits)
qed

lemma open_session_inv:
  assumes "collection_inv db" and "open_session e c l a db = Inr (s, db')"
  shows "collection_inv db'"
proof -
  note i = inv_parts [OF assms(1)] and r = open_session_run [OF assms(2)]
  have less: "cs_id x < next_id db" if "x \<in> set (sessions db)" for x
    using i(1) that unfolding sessions_ok_def by blast
  have old: "cs_id x = cs_id y" if "x \<in> set (sessions db)" "y \<in> set (sessions db)" "cs_center x = cs_center y"
      "cs_status x = SOpen" "cs_status y = SOpen" for x y
    using i(1) that unfolding sessions_ok_def by blast
  have ss: "sessions db' = sessions db @ [s]" and n: "next_id db' = Suc (Suc (next_id db))"
    and s: "cs_id s = next_id db" and other: "\<forall>x \<in> set (sessions db). cs_center x = cs_center s \<longrightarrow> cs_status x \<noteq> SOpen"
    using r by auto
  have "sessions_ok (next_id db') (sessions db')"
    unfolding sessions_ok_def
  proof (intro conjI ballI impI)
    show "unique_keys cs_id (sessions db')"
      unfolding ss by (rule unique_keys_append_next [OF i(7) less]) (simp_all add: s)
    show "cs_id x < next_id db'" if "x \<in> set (sessions db')" for x
      using that less [of x] by (auto simp: ss n s)
    show "cs_id x = cs_id y"
      if "x \<in> set (sessions db')" "y \<in> set (sessions db')" "cs_center x = cs_center y" "cs_status x = SOpen"
        "cs_status y = SOpen" for x y
    proof -
      have "x = s \<or> x \<in> set (sessions db)" "y = s \<or> y \<in> set (sessions db)" using that(1,2) by (auto simp: ss)
      then consider "x = s" "y = s" | "x = s" "y \<in> set (sessions db)" | "y = s" "x \<in> set (sessions db)"
        | "x \<in> set (sessions db)" "y \<in> set (sessions db)" by blast
      then show ?thesis using that(3-5) other by cases (auto intro: old)
    qed
  qed
  moreover have "txs_ok (next_id db') (sessions db') (transactions db')"
    using txs_ok_mono [OF i(2), of "next_id db'"] r by (auto simp: txs_ok_def housed_def)
  moreover have "events_ok db'" using events_ok_frame [of db' db] i(3) r by simp
  ultimately show ?thesis using i(4,5) r by (simp add: collection_inv_def)
qed

lemma close_session_run:
  fixes db :: "'a collection_db_scheme"
  assumes "close_session e i a db = Inr (s', db')"
  obtains s where "get_session e db i = Inr s" "cs_status s = SOpen" "in_flight db i = []"
    "s' = s\<lparr>cs_status := SClosed, cs_closed_by := Some a, cs_closed_at := Some (now e)\<rparr>"
    "sessions db' = row_update cs_id (cs_id s) (\<lambda>_. s') (sessions db)" "next_id db' = Suc (next_id db)"
    "transactions db' = transactions db" "tx_events db' = tx_events db" "snapshots db' = snapshots db"
    "sequences db' = sequences db"
proof -
  obtain s where g: "get_session e db i = Inr s" "cs_status s \<noteq> SClosed" "in_flight db (cs_id s) = []"
    using assms by (auto simp: close_session_def result_simps)
  have "cs_status s = SOpen" using g(2) by (cases "cs_status s") auto
  then show thesis
    using assms g get_session_InrD [OF g(1)]
    by (intro that [OF g(1)]) (auto simp: close_session_def Let_def)
qed

lemma close_session_inv:
  assumes "collection_inv db" and "close_session e i a db = Inr (s', db')"
  shows "collection_inv db'"
proof -
  note inv = inv_parts [OF assms(1)]
  obtain s where g: "get_session e db i = Inr s" "cs_status s = SOpen" and fl: "in_flight db i = []"
    and s': "s' = s\<lparr>cs_status := SClosed, cs_closed_by := Some a, cs_closed_at := Some (now e)\<rparr>"
    and t: "sessions db' = row_update cs_id (cs_id s) (\<lambda>_. s') (sessions db)" "next_id db' = Suc (next_id db)"
    "transactions db' = transactions db" "tx_events db' = tx_events db" "snapshots db' = snapshots db"
    "sequences db' = sequences db"
    using assms(2) by (rule close_session_run)
  note s = get_session_InrD [OF g(1)]
  have mem: "x \<in> set (sessions db') \<longleftrightarrow> x = s' \<or> (x \<in> set (sessions db) \<and> cs_id x \<noteq> cs_id s)" for x
    unfolding t(1) by (rule in_row_put) (use s in simp)
  have one: "unique_keys cs_id (sessions db')"
    using unique_keys_row_put [OF inv(7), of s cs_id s'] inv(7) s by (simp add: t(1) s')
  have "sessions_ok (next_id db') (sessions db')"
    unfolding sessions_ok_def
  proof (intro conjI ballI impI)
    show "unique_keys cs_id (sessions db')" by (rule one)
    show "cs_id x < next_id db'" if "x \<in> set (sessions db')" for x
      using that inv(1) s unfolding sessions_ok_def mem t(2) by (auto simp: s' intro: less_SucI)
    show "cs_id x = cs_id y"
      if "x \<in> set (sessions db')" "y \<in> set (sessions db')" "cs_center x = cs_center y" "cs_status x = SOpen"
        "cs_status y = SOpen" for x y
    proof -
      have "x \<noteq> s'" "y \<noteq> s'" using that(4,5) by (auto simp: s')
      then show ?thesis using that inv(1) unfolding sessions_ok_def mem by blast
    qed
  qed
  moreover have "txs_ok (next_id db') (sessions db') (transactions db')"
    unfolding txs_ok_def
  proof (intro conjI ballI)
    show "unique_keys tx_id (transactions db')" using inv(6) t by simp
    fix tx assume tx: "tx \<in> set (transactions db')"
    show "tx_id tx < next_id db'" "stored_tx tx = Inr tx" "price_due tx"
      using inv(2) tx t unfolding txs_ok_def by (auto intro: less_SucI)
    obtain x where x: "x \<in> set (sessions db)" "cs_id x = tx_session tx" "cs_tenant x = tx_tenant tx"
        "cs_center x = tx_center tx" "cs_status x = SClosed \<longrightarrow> terminal (tx_state tx)"
      using inv(2) tx t unfolding txs_ok_def housed_def by auto
    show "housed (sessions db') tx"
    proof (cases "cs_id x = cs_id s")
      case True
      then have "x = s" using unique_keysD [OF inv(7) x(1)] s by blast
      moreover have "terminal (tx_state tx)"
        using fl tx t x True s by (auto simp: in_flight_def filter_empty_conv)
      moreover have "s' \<in> set (sessions db')" using mem by blast
      ultimately show ?thesis
        unfolding housed_def by (intro bexI [of _ s']) (use x in \<open>simp_all add: s'\<close>)
    next
      case False
      then have "x \<in> set (sessions db')" using x(1) mem by blast
      then show ?thesis unfolding housed_def using x(2-5) by blast
    qed
  qed
  moreover have "events_ok db'" using events_ok_frame [of db' db] inv(3) t by simp
  ultimately show ?thesis using inv(4,5) t by (simp add: collection_inv_def)
qed

lemma create_transaction_run:
  fixes db :: "'a collection_db_scheme"
  assumes "create_transaction e i a db = Inr (tx, db')"
  obtains s n d where "get_session e db i = Inr s" "cs_status s = SOpen"
    "tx_id tx = next_id db" "tx_tenant tx = cs_tenant s" "tx_session tx = cs_id s" "tx_center tx = cs_center s"
    "tx_state tx = NEW" "tx_slip tx = None" "stored_tx tx = Inr tx" "price_due tx"
    "db' = record_tx e tx n d a (db\<lparr>next_id := Suc (next_id db), transactions := transactions db @ [tx]\<rparr>)"
proof -
  obtain s where g: "get_session e db i = Inr s" "cs_status s = SOpen"
    using assms by (auto simp: create_transaction_def result_simps)
  show thesis
    using assms by (intro that [OF g]) (auto simp: create_transaction_def g Let_def new_id_eq stored_iff price_due_def)
qed

lemma create_transaction_inv:
  assumes "collection_inv db" and "create_transaction e i a db = Inr (tx, db')"
  shows "collection_inv db' \<and> transactions db' = transactions db @ [tx]"
proof -
  note inv = inv_parts [OF assms(1)]
  obtain s n d where g: "get_session e db i = Inr s" "cs_status s = SOpen"
    and tx: "tx_id tx = next_id db" "tx_tenant tx = cs_tenant s" "tx_session tx = cs_id s" "tx_center tx = cs_center s"
    "tx_state tx = NEW" "tx_slip tx = None" "stored_tx tx = Inr tx" "price_due tx"
    and db': "db' = record_tx e tx n d a (db\<lparr>next_id := Suc (next_id db), transactions := transactions db @ [tx]\<rparr>)"
    using assms(2) by (rule create_transaction_run)
  note s = get_session_InrD [OF g(1)]
  have less: "tx_id x < next_id db" if "x \<in> set (transactions db)" for x
    using inv(2) that unfolding txs_ok_def by blast
  have "housed (sessions db) tx" using s g(2) tx by (auto simp: housed_def)
  then have "txs_ok (next_id db') (sessions db) (transactions db @ [tx])"
    using inv(2) less tx unfolding txs_ok_def by (auto simp: db' intro: less_SucI unique_keys_append_next)
  moreover have "sessions_ok (next_id db') (sessions db)" using sessions_ok_mono [OF inv(1)] by (simp add: db')
  moreover have "events_ok db'"
    unfolding db' by (rule record_tx_events_ok)
      (use inv(3) events_ok_frame [of "db\<lparr>next_id := Suc (next_id db), transactions := transactions db @ [tx]\<rparr>" db] in simp)
  moreover have "snapshots_ok (transactions db @ [tx]) (snapshots db)"
    using inv(4) tx(5) by (simp add: snapshots_ok_def completed_ids_snoc)
  moreover have "slips_ok (sequences db) (transactions db @ [tx])"
    using inv(5) unfolding slips_ok_def by (rule numbers_kept) (use tx(6) in auto)
  ultimately show ?thesis by (simp add: collection_inv_def db')
qed

end
