(* ===== verification/CollectionRuns.thy ===== *)
theory CollectionRuns
  imports CollectionSteps
begin

text \<open>
  Runs of the collection module: one step per service operation, and one for the rest of the
  platform. The invariant holds along every run, every transaction evolves as its state machine
  allows, its log and the snapshots are append-only, and a session can always be brought to its end.
\<close>

section \<open>Steps\<close>

inductive collection_step :: "'a collection_db_scheme \<Rightarrow> 'a collection_db_scheme \<Rightarrow> bool" where
  step_open: "open_session e c l a db = Inr (s, db') \<Longrightarrow> collection_step db db'"
| step_close: "close_session e i a db = Inr (s, db') \<Longrightarrow> collection_step db db'"
| step_create: "create_transaction e i a db = Inr (tx, db') \<Longrightarrow> collection_step db db'"
| step_identify: "identify_supplier e i m v sid a db = Inr (tx, db') \<Longrightarrow> collection_step db db'"
| step_receive: "MilkInfoCommand mt cu ct ci te ar = Inr mi \<Longrightarrow> receive_milk e i mi a db = Inr (tx, db')
    \<Longrightarrow> collection_step db db'"
| step_weigh: "capture_weight e i wc a db = Inr (tx, db') \<Longrightarrow> collection_step db db'"
| step_quality: "capture_quality e i qc a db = Inr (tx, db') \<Longrightarrow> collection_step db db'"
| step_override: "RateOverrideCommand p r = Inr ro \<Longrightarrow> override_rate e i ro a db = Inr (tx, db')
    \<Longrightarrow> collection_step db db'"
| step_reprice: "reprice e i a db = Inr (tx, db') \<Longrightarrow> collection_step db db'"
| step_accept: "accept_tx e i a db = Inr (tx, db') \<Longrightarrow> collection_step db db'"
| step_reject: "RejectCommand r = Inr re \<Longrightarrow> reject_tx e i re a db = Inr (tx, db') \<Longrightarrow> collection_step db db'"
| step_complete: "complete_tx e i a db = Inr (tx, db') \<Longrightarrow> collection_step db db'"
| step_cancel: "cancel_tx e i r a db = Inr (tx, db') \<Longrightarrow> collection_step db db'"
| step_slip: "slip_of e i db = Inr (x, db') \<Longrightarrow> collection_step db db'"
| step_elsewhere: "sessions db' = sessions db \<Longrightarrow> transactions db' = transactions db
    \<Longrightarrow> tx_events db' = tx_events db \<Longrightarrow> snapshots db' = snapshots db \<Longrightarrow> next_id db \<le> next_id db'
    \<Longrightarrow> (\<forall>k. series_next (sequences db) k \<le> series_next (sequences db') k) \<Longrightarrow> collection_step db db'"

definition no_collection :: "'a collection_db_scheme \<Rightarrow> bool" where
  "no_collection db \<longleftrightarrow> sessions db = [] \<and> transactions db = [] \<and> tx_events db = [] \<and> snapshots db = []"

text \<open>What a step, and so a run, keeps of every transaction.\<close>

definition tracks :: "'a collection_db_scheme \<Rightarrow> 'a collection_db_scheme \<Rightarrow> bool" where
  "tracks db db' \<longleftrightarrow>
     (\<forall>tx \<in> set (transactions db). \<exists>row \<in> set (transactions db'). evolves tx row)
     \<and> (\<exists>es. tx_events db' = tx_events db @ es) \<and> (\<exists>ss. snapshots db' = snapshots db @ ss)"

lemma tracks_refl: "tracks db db"
  by (auto simp: tracks_def intro: evolves_refl)

lemma tracks_trans: "tracks a b \<Longrightarrow> tracks b c \<Longrightarrow> tracks a c"
proof -
  assume ab: "tracks a b" and bc: "tracks b c"
  have "\<exists>z \<in> set (transactions c). evolves x z" if "x \<in> set (transactions a)" for x
    using ab bc that evolves_trans unfolding tracks_def by meson
  moreover have "\<exists>es. tx_events c = tx_events a @ es" "\<exists>ss. snapshots c = snapshots a @ ss"
    using ab bc by (auto simp: tracks_def)
  ultimately show ?thesis by (simp add: tracks_def)
qed

lemma tracks_frame:
  "transactions db' = transactions db \<Longrightarrow> tx_events db' = tx_events db \<Longrightarrow> snapshots db' = snapshots db
    \<Longrightarrow> tracks db db'"
  by (auto simp: tracks_def intro: evolves_refl)

lemma change_tracks:
  assumes "collection_inv db" and "tx_change db tx row db'"
  shows "tracks db db'"
proof -
  note c = assms(2) [unfolded tx_change_def]
  have "\<exists>y \<in> set (transactions db'). evolves x y" if x: "x \<in> set (transactions db)" for x
  proof (cases "tx_id x = tx_id tx")
    case True
    then have "x = tx" using unique_keysD [OF inv_parts(6) [OF assms(1)] x] c by blast
    then show ?thesis using c by (auto simp: in_row_put)
  next
    case False
    then show ?thesis using c x by (auto simp: in_row_put intro: evolves_refl)
  qed
  then show ?thesis using c by (simp add: tracks_def log_grows_def)
qed

lemma quiet_step:
  "collection_inv db \<Longrightarrow> tx_change db tx row db' \<Longrightarrow> quiet db tx row db' \<Longrightarrow> collection_inv db' \<and> tracks db db'"
  using quiet_change_inv change_tracks by blast

lemma elsewhere_inv:
  assumes "collection_inv db" and "sessions db' = sessions db" "transactions db' = transactions db"
    "tx_events db' = tx_events db" "snapshots db' = snapshots db" "next_id db \<le> next_id db'"
    "\<forall>k. series_next (sequences db) k \<le> series_next (sequences db') k"
  shows "collection_inv db'"
proof -
  note i = inv_parts [OF assms(1)]
  have "slips_ok (sequences db') (transactions db)"
    using i(5) unfolding slips_ok_def by (rule numbers_kept) (use assms(7) in auto)
  then show ?thesis
    using i assms(2-6) events_ok_frame [of db' db] sessions_ok_mono [OF i(1)] txs_ok_mono [OF i(2)]
    by (simp add: collection_inv_def)
qed

lemma collection_step_keeps:
  "collection_step db db' \<Longrightarrow> collection_inv db \<Longrightarrow> collection_inv db' \<and> tracks db db'"
proof (induction rule: collection_step.induct)
  case (step_open e c l a db s db')
  then show ?case using open_session_inv open_session_run tracks_frame by meson
next
  case (step_close e i a db s db')
  then show ?case using close_session_inv close_session_run tracks_frame by metis
next
  case (step_create e i a db tx db')
  have c: "collection_inv db'" "transactions db' = transactions db @ [tx]"
    using create_transaction_inv [OF step_create(2,1)] by simp_all
  obtain s n d where db': "db' = record_tx e tx n d a (db\<lparr>next_id := Suc (next_id db), transactions := transactions db @ [tx]\<rparr>)"
    using step_create(1) by (rule create_transaction_run)
  have "tx_events (db\<lparr>next_id := Suc (next_id db), transactions := transactions db @ [tx]\<rparr>) = tx_events db" by simp
  then have "log_grows db db'"
    unfolding db' by (rule log_grows_record [OF iffD2 [OF log_grows_same log_grows_refl]])
  then show ?case using c by (auto simp: tracks_def log_grows_def db' intro: evolves_refl)
next
  case (step_identify e i m v sid a db tx db')
  then show ?case using identify_change quiet_step by meson
next
  case (step_receive mt cu ct ci te ar mi e i a db tx db')
  then show ?case using receive_change quiet_step by meson
next
  case (step_weigh e i wc a db tx db')
  then show ?case using weight_change quiet_step by meson
next
  case (step_quality e i qc a db tx db')
  then show ?case using quality_change quiet_step by meson
next
  case (step_override p r ro e i a db tx db')
  then show ?case using override_change quiet_step by meson
next
  case (step_reprice e i a db tx db')
  then show ?case using reprice_change quiet_step by meson
next
  case (step_accept e i a db tx db')
  then show ?case using accept_change quiet_step by meson
next
  case (step_reject r re e i a db tx db')
  then show ?case using reject_change quiet_step by meson
next
  case (step_complete e i a db tx db')
  then show ?case using complete_change change_tracks by meson
next
  case (step_cancel e i r a db tx db')
  then show ?case using cancel_change quiet_step by meson
next
  case (step_slip e i db x db')
  obtain row d where "x = (row, d)" by (cases x)
  then show ?case using slip_change step_slip change_tracks by metis
next
  case (step_elsewhere db' db)
  then show ?case using elsewhere_inv [of db db'] tracks_frame by blast
qed

lemma collection_run_keeps:
  "collection_step\<^sup>*\<^sup>* db db' \<Longrightarrow> collection_inv db \<Longrightarrow> collection_inv db' \<and> tracks db db'"
  by (induction rule: rtranclp_induct) (auto intro: tracks_refl dest: collection_step_keeps tracks_trans)

lemma no_collection_inv: "no_collection db \<Longrightarrow> collection_inv db"
  by (simp add: no_collection_def collection_inv_def sessions_ok_def txs_ok_def events_ok_def events_of_def
      snapshots_ok_def completed_ids_def slips_ok_def)

end
