(* ===== verification/CollectionGuarantees.thy ===== *)
theory CollectionGuarantees
  imports CollectionRuns
begin

text \<open>
  What the collection module promises: the state of every reachable installation, the
  immutability of completed records, how weights, qualities and prices come about, that a session
  can always be brought to its end, and two places where the code accepts more than it says.
\<close>

section \<open>Pricing a collection\<close>

lemma record_tx_organizations [simp]: "organizations (record_tx e tx n d a db) = organizations db"
  by (simp add: record_tx_def Let_def new_id_eq publish_def audit_def audit_of_def)

lemma record_tx_timezone [simp]: "tenant_timezone e (record_tx e' tx n d a db) t = tenant_timezone e db t"
  by (simp add: tenant_timezone_def tenant_org_def get_org_def [abs_def])

text \<open>The price list, at the collection's own business day, has exactly one price for the milk.\<close>

definition list_price ::
  "env \<Rightarrow> 'a pricing_db_scheme \<Rightarrow> milk_tx \<Rightarrow> rate_card \<Rightarrow> matrix_row \<Rightarrow> bool" where
  "list_price e db tx c r \<longleftrightarrow>
     (\<exists>t product fat q m. current_tenant e = Some t \<and> product_code_for (tx_milk_type tx) = Some product
        \<and> tx_fat tx = Some fat
        \<and> ResolutionQuery (tx_center tx) product (business_date_of e (tx_created_at tx) (tenant_timezone e db None))
            PRICING_DIMENSION fat = Inr q
        \<and> prices db t q c m r)"

lemma attempt_list_price:
  assumes inv: "pricing_inv db" and run: "pricing_attempt e tx a db = Inr (x, db')"
  shows "\<exists>c r. list_price e db tx c r \<and> amount (cl_unit_price (cr_calculation x)) = mr_price r
     \<and> cl_currency (cr_calculation x) = rc_currency c"
proof -
  let ?on = "business_date_of e (tx_created_at tx) (tenant_timezone e db None)"
  obtain product fat q res qty req where product: "product_code_for (tx_milk_type tx) = Some product"
    and fat: "tx_fat tx = Some fat" and q: "ResolutionQuery (tx_center tx) product ?on PRICING_DIMENSION fat = Inr q"
    and res: "resolve e db q = Inr res" and req: "CalculationRequest (rr_row res) qty (Some (paid_unit tx)) ?on None = Inr req"
    and calc: "calculate e req a db = Inr (x, db')"
    by (rule pricing_attempt_run [OF run])
  obtain t r' m' c' price qy cl where t: "current_tenant e = Some t" and vb: "verified_band t db req = Inr (r', m', c')"
    and price: "money_of (mr_price r') (rc_currency c') None = Inr price"
    and cp: "calculate_pure price qy (cl_policy cl) = Inr cl" and x: "cr_calculation x = cl"
    by (rule calculate_run [OF calc])
  obtain d c m r where d: "find_dimension t (rq_dimension q) (dimensions db) = Some d" and p: "prices db t q c m r"
    and rr: "resolution_result_of e c m r q d = Inr res"
    by (rule resolve_InrE [OF inv t res])
  have dm: "d \<in> set (dimensions db)" using find_dimension_SomeD [OF d] by simp
  have row: "cq_row req = mr_id r"
    using req result_of_fields [OF inv p dm rr] by (auto simp: CalculationRequest_def split: if_splits)
  note v = verified_band_InrD [OF vb]
  have mem: "c \<in> set (rate_cards db)" "m \<in> set (matrices db)" "r \<in> set (matrix_rows db)"
    "mr_matrix r = pm_id m" "pm_card m = rc_id c"
    using p by (auto simp: prices_def pm_key_def)
  note i = pricing_invD [OF inv]
  have "r' = r" using v row row_get_in [OF i(12) mem(3)] by simp
  moreover have "m' = m" using v row_get_in [OF i(11) mem(2)] mem(4) calculation by simp
  moreover have "c' = c" using v row_get_in [OF i(10) mem(1)] mem(5) calculation by simp
  ultimately have "price = \<lparr>amount = mr_price r, currency = rc_currency c,
      precision = minor_units (Some (rc_currency c)), rounding_policy = ROUNDING_POLICY_UNSPECIFIED\<rparr>"
    using price money_of_valid [OF card_currency [OF inv mem(1)]] by simp
  then have "amount (cl_unit_price cl) = mr_price r" "cl_currency cl = rc_currency c"
    using calculate_pure_InrD [OF cp] by simp_all
  then show ?thesis using t product fat q p x unfolding list_price_def by blast
qed

lemma list_price_frame:
  assumes "rate_cards db' = rate_cards db" "center_assignments db' = center_assignments db"
    "product_assignments db' = product_assignments db" "matrices db' = matrices db"
    "matrix_rows db' = matrix_rows db" "tenant_timezone e db' None = tenant_timezone e db None"
  shows "list_price e db' tx c r = list_price e db tx c r"
  using assms by (simp add: list_price_def prices_def)

section \<open>Every reachable installation\<close>

lemma one_per_key:
  "unique_keys f xs \<Longrightarrow> length (filter (\<lambda>x. f x = k) xs) = (if k \<in> f ` set xs then 1 else 0)"
proof (induction xs)
  case (Cons x xs)
  then have "unique_keys f xs" "f x \<notin> f ` set xs" by (auto simp: unique_keys_def)
  then show ?case using Cons.IH by auto
qed simp

text \<open>
  C23: Whatever sequence of collection operations a new installation runs, a centre has at most one
  open session; every collection belongs to a session of its own organisation and centre, and to a
  closed one only when it is finished; its log is numbered 1, 2, 3, ... without gaps; no two
  collections of an organisation carry the same slip number; and exactly the completed ones have a
  snapshot, one each.
\<close>

theorem reachable_collections_consistent:
  assumes "no_collection db0" and "collection_step\<^sup>*\<^sup>* db0 db"
  shows "(\<forall>s \<in> set (sessions db). \<forall>s' \<in> set (sessions db). cs_center s = cs_center s'
            \<longrightarrow> cs_status s = SOpen \<longrightarrow> cs_status s' = SOpen \<longrightarrow> s = s')
       \<and> (\<forall>tx \<in> set (transactions db). \<exists>s \<in> set (sessions db). cs_id s = tx_session tx
            \<and> cs_tenant s = tx_tenant tx \<and> cs_center s = tx_center tx
            \<and> (cs_status s = SClosed \<longrightarrow> terminal (tx_state tx)))
       \<and> (\<forall>i. map te_sequence (events_of db i) = [1 ..< Suc (length (events_of db i))])
       \<and> (\<forall>tx \<in> set (transactions db). \<forall>tx' \<in> set (transactions db). tx_tenant tx = tx_tenant tx'
            \<longrightarrow> tx_slip tx \<noteq> None \<longrightarrow> tx_slip tx = tx_slip tx' \<longrightarrow> tx = tx')
       \<and> (\<forall>tx \<in> set (transactions db).
            length (filter (\<lambda>s. sn_tx s = tx_id tx) (snapshots db)) = (if tx_state tx = COMPLETED then 1 else 0))"
proof (intro conjI ballI allI impI)
  have inv: "collection_inv db" using collection_run_keeps [OF assms(2)] no_collection_inv [OF assms(1)] by blast
  note i = inv_parts [OF inv]
  show "s = s'"
    if s: "s \<in> set (sessions db)" "s' \<in> set (sessions db)" "cs_center s = cs_center s'" "cs_status s = SOpen"
      "cs_status s' = SOpen" for s s'
    using i(1) s unique_keysD [OF i(7) s(1,2)] unfolding sessions_ok_def by blast
  show "\<exists>s \<in> set (sessions db). cs_id s = tx_session tx \<and> cs_tenant s = tx_tenant tx
      \<and> cs_center s = tx_center tx \<and> (cs_status s = SClosed \<longrightarrow> terminal (tx_state tx))"
    if "tx \<in> set (transactions db)" for tx
    using i(2) that unfolding txs_ok_def housed_def by blast
  show "map te_sequence (events_of db k) = [1 ..< Suc (length (events_of db k))]" for k
    using i(3) unfolding events_ok_def by blast
  show "tx = tx'"
    if t: "tx \<in> set (transactions db)" "tx' \<in> set (transactions db)" "tx_tenant tx = tx_tenant tx'"
      "tx_slip tx \<noteq> None" "tx_slip tx = tx_slip tx'" for tx tx'
    using i(5) t unique_keysD [OF i(6) t(1,2)] unfolding slips_ok_def numbers_ok_def by blast
  show "length (filter (\<lambda>s. sn_tx s = tx_id tx) (snapshots db)) = (if tx_state tx = COMPLETED then 1 else 0)"
    if "tx \<in> set (transactions db)" for tx
    using one_per_key [of sn_tx "snapshots db" "tx_id tx"] i(4) in_completed_ids [OF i(6) that]
    by (simp add: snapshots_ok_def)
qed

text \<open>
  C24: A completed collection that has its slip and does not wait for a price is a permanent record:
  no later operation of the module, on it or on anything else, changes a field of it, its snapshot
  or its log.
\<close>

theorem completed_collection_immutable:
  assumes "collection_inv db" and "collection_step\<^sup>*\<^sup>* db db'" and "tx \<in> set (transactions db)"
    and "tx_state tx = COMPLETED" "tx_slip tx \<noteq> None" "tx_pricing_status tx \<noteq> Some ''pricing_unavailable''"
  shows "row_get tx_id (tx_id tx) (transactions db') = Some tx
    \<and> filter (\<lambda>s. sn_tx s = tx_id tx) (snapshots db') = filter (\<lambda>s. sn_tx s = tx_id tx) (snapshots db)
    \<and> (\<exists>es. events_of db' (tx_id tx) = events_of db (tx_id tx) @ es)"
proof -
  have inv': "collection_inv db'" and tr: "tracks db db'"
    using collection_run_keeps [OF assms(2,1)] by simp_all
  note i = inv_parts [OF assms(1)] and i' = inv_parts [OF inv']
  have tx: "tx \<in> set (transactions db')"
    using tr assms(3) evolves_done [OF _ assms(4-6)] unfolding tracks_def by blast
  obtain ss where ss: "snapshots db' = snapshots db @ ss" using tr unfolding tracks_def by blast
  have "length (filter (\<lambda>s. sn_tx s = tx_id tx) (snapshots db')) = 1"
      "length (filter (\<lambda>s. sn_tx s = tx_id tx) (snapshots db)) = 1"
    using one_per_key [of sn_tx "snapshots db'" "tx_id tx"] one_per_key [of sn_tx "snapshots db" "tx_id tx"]
      i(4) i'(4) in_completed_ids [OF i'(6) tx] in_completed_ids [OF i(6) assms(3)] assms(4)
    by (simp_all add: snapshots_ok_def)
  then have "filter (\<lambda>s. sn_tx s = tx_id tx) (snapshots db') = filter (\<lambda>s. sn_tx s = tx_id tx) (snapshots db)"
    by (simp add: ss)
  moreover have "\<exists>es. events_of db' (tx_id tx) = events_of db (tx_id tx) @ es"
    using tr by (auto simp: tracks_def events_of_def)
  ultimately show ?thesis using row_get_unique [OF i'(6) tx] by simp
qed

text \<open>
  C25: A collection only moves forward along the documented states, and what a stage established is
  never rewritten by a later one: the identity and the centre from the start, the supplier once
  identified, the milk once received, the weight once captured, the quality once captured, the
  decision and any override once decided.
\<close>

theorem collection_moves_forward:
  assumes "collection_inv db" and "collection_step\<^sup>*\<^sup>* db db'" and "tx \<in> set (transactions db)"
  shows "\<exists>row \<in> set (transactions db'). tx_home row = tx_home tx
    \<and> tx_edge\<^sup>*\<^sup>* (tx_state tx) (tx_state row) \<and> tx_rank (tx_state tx) \<le> tx_rank (tx_state row)
    \<and> (1 \<le> tx_rank (tx_state tx) \<longrightarrow> tx_supplier row = tx_supplier tx)
    \<and> (2 \<le> tx_rank (tx_state tx) \<longrightarrow> milk_facts row = milk_facts tx)
    \<and> (3 \<le> tx_rank (tx_state tx) \<longrightarrow> weight_facts row = weight_facts tx)
    \<and> (5 \<le> tx_rank (tx_state tx) \<longrightarrow> quality_facts row = quality_facts tx)
    \<and> (8 \<le> tx_rank (tx_state tx) \<longrightarrow> decision_facts row = decision_facts tx)"
proof -
  have "tracks db db'" using collection_run_keeps [OF assms(2,1)] by simp
  then obtain row where "row \<in> set (transactions db')" "evolves tx row"
    using assms(3) unfolding tracks_def by blast
  then show ?thesis
    using evolves_rank [of tx row] unfolding evolves_def kept_def by blast
qed

section \<open>Sessions come to an end\<close>

lemma in_flight_put:
  assumes "unique_keys tx_id (transactions db)" and "tx \<in> set (in_flight db i)"
    and "tx_id row = tx_id tx" "terminal (tx_state row)"
    and "transactions db' = row_update tx_id (tx_id tx) (\<lambda>_. row) (transactions db)"
  shows "Suc (length (in_flight db' i)) = length (in_flight db i)"
proof -
  have tx: "tx \<in> set (transactions db)" "tx_session tx = i" "\<not> terminal (tx_state tx)"
    using assms(2) by (auto simp: in_flight_def)
  obtain as bs where "transactions db = as @ tx # bs" "transactions db' = as @ row # bs"
    using row_put_split [OF assms(1) tx(1), of row] assms(5) by metis
  then show ?thesis using tx(2,3) assms(4) by (simp add: in_flight_def)
qed

text \<open>A collection in flight can be completed when it is decided, and cancelled before.\<close>

lemma finish_one:
  fixes e :: env and db :: "'a collection_db_scheme"
  assumes inv: "collection_inv db" and tx: "tx \<in> set (in_flight db i)" and t: "current_tenant e = Some (tx_tenant tx)"
  shows "\<exists>db'. collection_step db db' \<and> Suc (length (in_flight db' i)) = length (in_flight db i)
     \<and> sessions db' = sessions db"
proof -
  note u = inv_parts(6) [OF inv]
  have mem: "tx \<in> set (transactions db)" "\<not> terminal (tx_state tx)" using tx by (auto simp: in_flight_def)
  have get: "get_tx e db (tx_id tx) = Inr tx"
    using row_get_unique [OF u mem(1)] t by (simp add: get_tx_def require_current_tenant_def)
  show ?thesis
  proof (cases "tx_state tx = ACCEPTED \<or> tx_state tx = REJECTED")
    case True
    then have "\<exists>row db'. complete_tx e (tx_id tx) 0 db = Inr (row, db')"
      by (simp add: complete_tx_def get Let_def split_def)
    then obtain row db' where run: "complete_tx e (tx_id tx) 0 db = Inr (row, db')" by blast
    have "transactions db' = row_update tx_id (tx_id tx) (\<lambda>_. row) (transactions db) \<and> sessions db' = sessions db
        \<and> tx_id row = tx_id tx \<and> tx_state row = COMPLETED"
      by (rule complete_run [OF run]) (use get in auto)
    then show ?thesis
      using step_complete [OF run] in_flight_put [OF u tx, of row db'] by (auto simp: terminal_def)
  next
    case False
    let ?row = "tx\<lparr>tx_state := CANCELLED, tx_cancelled_reason := Some [], tx_completed_at := Some (now e)\<rparr>"
    obtain db' where run: "cancel_tx e (tx_id tx) [] 0 db = Inr (?row, db')"
      and db': "transactions db' = row_update tx_id (tx_id tx) (\<lambda>_. ?row) (transactions db)" "sessions db' = sessions db"
      using False mem(2) by (simp add: cancel_tx_def get Let_def)
    then show ?thesis
      using step_cancel [OF run] in_flight_put [OF u tx, of ?row db'] by (auto simp: terminal_def)
  qed
qed

lemma drain:
  fixes e :: env and db :: "'a collection_db_scheme"
  assumes "collection_inv db" and "\<And>s. s \<in> set (sessions db) \<Longrightarrow> cs_id s = i \<Longrightarrow> current_tenant e = Some (cs_tenant s)"
  shows "\<exists>db'. collection_step\<^sup>*\<^sup>* db db' \<and> in_flight db' i = [] \<and> sessions db' = sessions db"
  using assms
proof (induction "length (in_flight db i)" arbitrary: db)
  case 0
  then show ?case by (intro exI [of _ db]) simp
next
  case (Suc n)
  obtain tx txs where fl: "in_flight db i = tx # txs" using Suc.hyps(2) by (cases "in_flight db i") auto
  then have tx: "tx \<in> set (in_flight db i)" by simp
  then have "tx \<in> set (transactions db)" "tx_session tx = i" by (simp_all add: in_flight_def)
  then obtain s where "s \<in> set (sessions db)" "cs_id s = i" "cs_tenant s = tx_tenant tx"
    using inv_parts(2) [OF Suc.prems(1)] unfolding txs_ok_def housed_def by blast
  then have "current_tenant e = Some (tx_tenant tx)" using Suc.prems(2) by force
  then obtain db1 where one: "collection_step db db1" "Suc (length (in_flight db1 i)) = length (in_flight db i)"
      "sessions db1 = sessions db"
    using finish_one [OF Suc.prems(1) tx] by blast
  have "collection_inv db1" using collection_step_keeps [OF one(1) Suc.prems(1)] by simp
  then obtain db' where "collection_step\<^sup>*\<^sup>* db1 db'" "in_flight db' i = []" "sessions db' = sessions db1"
    using Suc.hyps(1) [of db1] Suc.hyps(2) Suc.prems(2) one(2,3) by auto
  then show ?case using one(1,3) by (intro exI [of _ db']) (auto intro: converse_rtranclp_into_rtranclp)
qed

text \<open>
  C26: No session is stuck. From every reachable state, an open session can be driven by operations
  of the module alone to the point where closing it succeeds, and then everything in it is finished.
\<close>

theorem session_can_be_closed:
  fixes e :: env and db :: "'a collection_db_scheme"
  assumes "collection_inv db" and "s \<in> set (sessions db)" "cs_status s = SOpen"
    and "current_tenant e = Some (cs_tenant s)"
  shows "\<exists>db1 s' db2. collection_step\<^sup>*\<^sup>* db db1 \<and> close_session e (cs_id s) a db1 = Inr (s', db2)
    \<and> cs_status s' = SClosed
    \<and> (\<forall>tx \<in> set (transactions db2). tx_session tx = cs_id s \<longrightarrow> terminal (tx_state tx))"
proof -
  have "x = s" if "x \<in> set (sessions db)" "cs_id x = cs_id s" for x
    using unique_keysD [OF inv_parts(7) [OF assms(1)] that(1) assms(2) that(2)] .
  then obtain db1 where run: "collection_step\<^sup>*\<^sup>* db db1" and fl: "in_flight db1 (cs_id s) = []"
    and ss: "sessions db1 = sessions db"
    using drain [OF assms(1), of "cs_id s" e] assms(4) by metis
  have "get_session e db1 (cs_id s) = Inr s"
    using row_get_unique [OF inv_parts(7) [OF assms(1)] assms(2)] assms(4)
    by (simp add: get_session_def require_current_tenant_def ss)
  then obtain s' db2 where cl: "close_session e (cs_id s) a db1 = Inr (s', db2)" "cs_status s' = SClosed"
      "transactions db2 = transactions db1"
    using assms(3) fl by (simp add: close_session_def Let_def)
  then show ?thesis using run fl by (intro exI [of _ db1] exI [of _ s'] exI [of _ db2])
      (auto simp: in_flight_def filter_empty_conv)
qed

section \<open>Weights\<close>

lemma double_within: "\<bar>x\<bar> \<le> 200 \<Longrightarrow> \<bar>double x - x\<bar> \<le> 1 / 10 ^ 6"
proof -
  assume "\<bar>x\<bar> \<le> 200"
  then have "\<bar>x\<bar> / 2 ^ 53 \<le> 200 / 2 ^ 53" by (rule divide_right_mono) simp
  moreover have "(200::rat) / 2 ^ 53 \<le> 1 / 10 ^ 6" by simp
  ultimately show ?thesis using double_error [of x] by linarith
qed

lemma py_round_double:
  assumes "at_scale 3 x" and "\<bar>x\<bar> \<le> 200"
  shows "py_round 3 (double x) = double x"
proof -
  obtain k where k: "x = of_int k / 10 ^ 3" using assms(1) by (rule at_scaleE)
  have "double x * 10 ^ 3 - of_int k = (double x - x) * 10 ^ 3" by (simp add: k field_simps)
  then have "\<bar>double x * 10 ^ 3 - of_int k\<bar> < 1/2"
    using double_within [OF assms(2)] by (simp only: abs_mult) simp
  then have "round_half_even (double x * 10 ^ 3) = k" by (rule round_half_even_eqI)
  then show ?thesis by (simp add: py_round_def k)
qed

text \<open>The bounds on the readings as floats are the bounds on the weights themselves.\<close>

lemma at_scale_less:
  assumes "at_scale p x" "at_scale p y" and "x < y"
  shows "x + 1 / 10 ^ p \<le> y"
proof -
  obtain k where k: "x = of_int k / 10 ^ p" using assms(1) by (rule at_scaleE)
  obtain l where l: "y = of_int l / 10 ^ p" using assms(2) by (rule at_scaleE)
  have "k < l" using assms(3) by (simp add: k l divide_less_cancel)
  then have "(of_int k + 1 :: rat) \<le> of_int l" by linarith
  then have "(of_int k + 1) / (10::rat) ^ p \<le> of_int l / 10 ^ p" by (rule divide_right_mono) simp
  then show ?thesis by (simp add: k l add_divide_distrib)
qed

lemma at_scale_200: "at_scale 3 200"
  by (rule at_scaleI [of _ _ 200000]) simp

lemma double_bounds: "0 \<le> x \<Longrightarrow> x - x / 10 ^ 6 \<le> double x \<and> double x \<le> x + x / 10 ^ 6"
proof -
  assume x: "0 \<le> x"
  then have "x / 2 ^ 53 \<le> x / 10 ^ 6" by (intro divide_left_mono) simp_all
  then show ?thesis using double_error [of x] x by linarith
qed

lemma double_neg: "x < 0 \<Longrightarrow> double x < 0"
proof -
  assume x: "x < 0"
  then have "\<bar>x\<bar> / 2 ^ 53 < \<bar>x\<bar>" by (simp add: divide_less_eq)
  then show ?thesis using double_error [of x] x by linarith
qed

lemma weights_checked:
  assumes "at_scale 3 g" "at_scale 3 t" and "0 < double g" "0 \<le> double t" "double g \<le> 200" "double t < double g"
  shows "0 \<le> t" "t < g" "g \<le> 200"
proof -
  show t0: "0 \<le> t" using assms(4) double_neg [of t] by linarith
  have g0: "0 \<le> g" using assms(3) double_neg [of g] by linarith
  show g: "g \<le> 200"
  proof (rule ccontr)
    assume "\<not> g \<le> 200"
    then have "200 + 1 / 10 ^ 3 \<le> g" using at_scale_less [OF at_scale_200 assms(1)] by simp
    moreover have "g - g / 10 ^ 6 \<le> 200" using double_bounds [OF g0] assms(5) by linarith
    ultimately show False by (simp add: field_simps)
  qed
  show "t < g"
  proof (rule ccontr)
    assume "\<not> t < g"
    then consider "t = g" | "g + 1 / 10 ^ 3 \<le> t" using at_scale_less [OF assms(1,2)] by fastforce
    then show False
    proof cases
      case 1
      then show False using assms(6) by simp
    next
      case 2
      have "t - t / 10 ^ 6 < g + g / 10 ^ 6" using double_bounds [OF t0] double_bounds [OF g0] assms(6) by linarith
      then show False using 2 g by (simp add: field_simps)
    qed
  qed
qed

lemma weigh_run:
  assumes "capture_weight e i cmd a db = Inr (t, db')"
  obtains tx unit g tr dev where "get_tx e db i = Inr tx" "tx_state tx = MILK_RECEIVED"
    "require_tenant_unit e db (wc_unit cmd) (Some (tx_tenant tx)) = Inr unit"
    "weight_reading e db tx cmd = Inr (g, tr, dev)" "0 < g" "0 \<le> tr" "g \<le> 200" "tr < g"
    "tx_gross t = Some (py_round 3 g)" "tx_tare t = Some (py_round 3 tr)"
    "tx_net t = Some (py_round 3 (fl_sub g tr))" "tx_weight_unit t = Some unit"
    "tx_weight_source t = Some (wc_source cmd)" "tx_state t = QUALITY_PENDING" "tx_id t = i"
proof -
  obtain tx unit g tr dev tx2 where get: "get_tx e db i = Inr tx" "tx_state tx = MILK_RECEIVED"
    and unit: "require_tenant_unit e db (wc_unit cmd) (Some (tx_tenant tx)) = Inr unit"
    and r: "weight_reading e db tx cmd = Inr (g, tr, dev)" "0 < g" "0 \<le> tr" "g \<le> 200" "tr < g"
    and pin: "pin_trade (tenant_units e db (Some (tx_tenant tx)))
        (business_today e (tenant_timezone e db (Some (tx_tenant tx)))) unit (py_round 3 (fl_sub g tr))
        (tx\<lparr>tx_weight_unit := Some unit, tx_gross := Some (py_round 3 g), tx_tare := Some (py_round 3 tr),
           tx_net := Some (py_round 3 (fl_sub g tr)), tx_weight_source := Some (wc_source cmd)\<rparr>) = Inr tx2"
    and t: "t = tx2\<lparr>tx_state := QUALITY_PENDING\<rparr>"
    using assms by (auto simp: capture_weight_def result_simps save_tx_Inr Let_def split: prod.splits)
  show thesis
    using pin_trade_InrD [OF pin] get_tx_InrD [OF get(1)]
    by (intro that [OF get unit r]) (auto simp: t)
qed

text \<open>
  C27: What is weighed is what is stored. A captured weight lies within the scale's limits, and for
  readings of at most three decimals the stored net weight is exactly the gross less the tare, to
  the last digit, although the code computes it in binary floating point. The unit is the one the
  organisation measures in.
\<close>

theorem captured_weight_exact:
  assumes "capture_weight e i cmd a db = Inr (tx, db')"
    and "wc_source cmd \<in> {''manual'', ''scale''}"
    and "wc_gross cmd = Some (double g)" "wc_tare cmd = Some (double t)" and "at_scale 3 g" "at_scale 3 t"
  shows "0 \<le> t \<and> t < g \<and> g \<le> 200 \<and> tx_gross tx = Some (double g) \<and> tx_tare tx = Some (double t)
    \<and> tx_net tx = Some (double (g - t))
    \<and> tx_weight_unit tx = Some (measured_unit (tenant_units e db (Some (tx_tenant tx))))
    \<and> tx_state tx = QUALITY_PENDING"
proof (rule weigh_run [OF assms(1)])
  fix tx0 unit x y dev
  assume r: "weight_reading e db tx0 cmd = Inr (x, y, dev)" "0 < x" "0 \<le> y" "x \<le> 200" "y < x"
    and f: "tx_gross tx = Some (py_round 3 x)" "tx_tare tx = Some (py_round 3 y)"
    "tx_net tx = Some (py_round 3 (fl_sub x y))" "tx_weight_unit tx = Some unit" "tx_state tx = QUALITY_PENDING"
    and u: "require_tenant_unit e db (wc_unit cmd) (Some (tx_tenant tx0)) = Inr unit"
    and g0: "get_tx e db i = Inr tx0"
  have xy: "x = double g" "y = double t"
    using r(1) assms(2-4) by (auto simp: weight_reading_def result_simps split: if_splits)
  note w = weights_checked [OF assms(5,6)] r(2-5) [unfolded xy]
  have b: "0 \<le> t" "t < g" "g \<le> 200" using w by blast+
  have "tx_tenant tx = tx_tenant tx0"
    using assms(1) g0 by (auto simp: capture_weight_def result_simps save_tx_Inr Let_def dest!: pin_trade_InrD split: prod.splits)
  moreover have "unit = measured_unit (tenant_units e db (Some (tx_tenant tx0)))"
    using u by (auto simp: require_tenant_unit_def Let_def split: if_splits sum.splits)
  ultimately show ?thesis
    using f b net_weight_exact [OF assms(5,6) b] py_round_double [OF assms(5)] py_round_double [OF assms(6)]
    by (simp add: xy)
qed

text \<open>
  No reading without a source that may produce it. A weight or a quality enters the ledger as a
  mock reading only where the environment allows mock hardware, and as an instrument reading only
  from a device registered by the same organisation, of the category that measures it, active, and
  assigned to the collection's own centre.
\<close>

theorem readings_are_attributed:
  assumes "capture_weight e i wc a db = Inr (tx, db') \<or> capture_quality e i qc a db = Inr (tx, db')"
    and "source = (if capture_weight e i wc a db = Inr (tx, db') then wc_source wc else qc_source qc)"
    and "claimed = (if capture_weight e i wc a db = Inr (tx, db') then wc_device wc else qc_device qc)"
  shows "source \<in> {''manual'', ''scale'', ''analyzer'', ''mock_scale'', ''mock_analyzer''}
    \<and> (source \<in> {''mock_scale'', ''mock_analyzer''} \<longrightarrow> mock_hardware_enabled e)
    \<and> (source \<in> {''scale'', ''analyzer''} \<longrightarrow>
         (\<exists>tx0 d. get_tx e db i = Inr tx0 \<and> d \<in> set (devices db) \<and> claimed = Some (dev_id d)
            \<and> dev_tenant d = tx_tenant tx0 \<and> dev_center d = Some (tx_center tx0) \<and> dev_status d = ''active''
            \<and> map_of INSTRUMENT_SOURCES source = Some (dev_category d)))"
proof -
  have dev: "\<exists>d. d \<in> set (devices db) \<and> c = Some (dev_id d) \<and> dev_tenant d = tx_tenant tx0
      \<and> dev_center d = Some (tx_center tx0) \<and> dev_status d = ''active''
      \<and> map_of INSTRUMENT_SOURCES src = Some (dev_category d)"
    if "resolve_instrument e db src c (tx_center tx0) = Inr k" "get_tx e db i = Inr tx0" for src c tx0 k
    by (rule resolve_instrument_InrD [OF that(1)]) (use get_tx_InrD [OF that(2)] in \<open>auto dest: row_get_SomeD\<close>)
  show ?thesis
  proof (cases "capture_weight e i wc a db = Inr (tx, db')")
    case True
    then obtain tx0 x y dv where g: "get_tx e db i = Inr tx0" "weight_reading e db tx0 wc = Inr (x, y, dv)"
      by (rule weigh_run)
    then show ?thesis
      using dev [OF _ g(1), of "''scale''" "wc_device wc"] True assms(2,3)
      by (auto simp: weight_reading_def result_simps split: if_splits option.splits)
  next
    case False
    then have "capture_quality e i qc a db = Inr (tx, db')" using assms(1) by simp
    then obtain tx0 v dv where g: "get_tx e db i = Inr tx0" "quality_reading e db tx0 qc = Inr (v, dv)"
      by (auto simp: capture_quality_def result_simps)
    then show ?thesis
      using dev [OF _ g(1), of "''analyzer''" "qc_device qc"] False assms(2,3)
      by (auto simp: quality_reading_def result_simps Let_def split: if_splits option.splits)
  qed
qed

section \<open>Quality and price\<close>

lemma quality_log_timezone: "tenant_timezone e (quality_log e' cmd dv a t db) k = tenant_timezone e db k"
  by (simp add: quality_log_def Let_def)

lemma quality_run:
  fixes db :: "'a collection_db_scheme"
  assumes "capture_quality e i cmd a db = Inr (t, db')"
  obtains tx v dv tx1 db1 failure tx2 db2 where "get_tx e db i = Inr tx" "tx_state tx = QUALITY_PENDING"
    "quality_reading e db tx cmd = Inr (v, dv)" "check_quality v = Inr ()"
    "tx1 = (quality_row cmd v tx)\<lparr>tx_state := PRICING_PENDING\<rparr>"
    "log_only db db1" "tenant_timezone e db1 None = tenant_timezone e db None"
    "price_tx e tx1 a db1 = Inr (failure, tx2, db2)"
    "t = tx2\<lparr>tx_state := PRICED\<rparr>"
proof -
  obtain tx v dv db3 where g: "get_tx e db i = Inr tx" "tx_state tx = QUALITY_PENDING"
    and v: "quality_reading e db tx cmd = Inr (v, dv)" "check_quality v = Inr ()"
    and ap: "apply_pricing e (quality_row cmd v tx) a (quality_log e cmd dv a (quality_row cmd v tx) db) = Inr (t, db3)"
    using assms unfolding capture_quality_eq by (auto simp: result_simps)
  note log = quality_log_only [of db e cmd dv a "quality_row cmd v tx"]
  show thesis
    by (rule apply_pricing_run [OF ap log])
      (rule that [OF g v refl log_only_record [OF log]], simp_all add: quality_log_timezone)
qed

text \<open>
  C28: A quality reading prices the milk by the list or says that it cannot, and never blocks the
  collection. After a successful capture the collection is priced at exactly the one band of the
  organisation's price list that holds for its centre, milk, business day and fat reading, in the
  card's currency; or it is marked unpriced and carries no unit price. The stored reading is within
  the plausible ranges.
\<close>

theorem quality_capture_prices:
  assumes "pricing_inv db" and "collection_inv db" and "capture_quality e i cmd a db = Inr (tx, db')"
  shows "tx_state tx = PRICED
    \<and> ((tx_pricing_status tx = Some ''priced''
          \<and> (\<exists>c r. list_price e db tx c r \<and> tx_unit_price tx = Some (mr_price r)
               \<and> tx_currency tx = Some (rc_currency c)))
       \<or> (tx_pricing_status tx = Some ''pricing_unavailable'' \<and> tx_unit_price tx = None))
    \<and> (\<exists>fat. tx_fat tx = Some fat \<and> 0 \<le> fat \<and> fat \<le> 15)"
proof -
  obtain tx0 v dv tx1 db1 failure tx2 db2 where g: "get_tx e db i = Inr tx0" "tx_state tx0 = QUALITY_PENDING"
    and v: "quality_reading e db tx0 cmd = Inr (v, dv)" "check_quality v = Inr ()"
    and tx1: "tx1 = (quality_row cmd v tx0)\<lparr>tx_state := PRICING_PENDING\<rparr>"
    and log: "log_only db db1" and tz: "tenant_timezone e db1 None = tenant_timezone e db None"
    and pr: "price_tx e tx1 a db1 = Inr (failure, tx2, db2)" and tx: "tx = tx2\<lparr>tx_state := PRICED\<rparr>"
    using assms(3) by (rule quality_run)
  have due: "tx_unit_price tx0 = None" "tx_base_price tx0 = None"
    using inv_price_due [OF assms(2), of tx0] get_tx_InrD [OF g(1)] g(2) by (simp_all add: price_due_def)
  have sp: "same_pricing db db1" using log by (simp add: log_only_def)
  show ?thesis
    using pr
  proof (cases rule: price_tx_cases)
    case (priced x)
    obtain c r where lp: "list_price e db1 tx1 c r" and p: "amount (cl_unit_price (cr_calculation x)) = mr_price r"
        "cl_currency (cr_calculation x) = rc_currency c"
      using attempt_list_price [OF same_pricing_inv [OF sp assms(1)] priced(1)] by blast
    have tx': "tx = (priced x tx1)\<lparr>tx_state := PRICED\<rparr>" using priced(3) due(2) by (simp add: tx tx1 quality_row_def)
    have "list_price e db tx1 c r"
      using lp list_price_frame [of db1 db e tx1 c r] sp tz by (simp add: same_pricing_def)
    then have "list_price e db tx c r" by (simp add: list_price_def tx' priced_def)
    then show ?thesis
      using p v(2) by (auto simp: tx' priced_def tx1 quality_row_def check_quality_Inr)
  next
    case (failed reason f)
    then show ?thesis using due v(2) by (simp add: tx unpriced_def tx1 quality_row_def check_quality_Inr)
  qed
qed

lemma milk_product_query:
  assumes "milk \<in> set MILK_TYPES"
  shows "product_code_for (Some milk) = None
    \<or> (\<exists>product q. product_code_for (Some milk) = Some product \<and> ResolutionQuery k product on PRICING_DIMENSION fat = Inr q)"
proof -
  have "str_upper ''FAT'' = ''FAT''" by code_simp
  then show ?thesis
    using assms
    by (auto simp: MILK_TYPES_def product_code_for_def opt_str_def ResolutionQuery_def PRICING_DIMENSION_def str_upper_def)
qed

text \<open>
  A missing price never blocks the scale. Whenever the quality reading itself is acceptable and
  the price list has no price for the milk, the capture still succeeds: the collection is marked
  \<open>pricing_unavailable\<close> with the reason, and everything else about it is stored.
\<close>

theorem missing_price_never_blocks:
  fixes db :: "'a collection_db_scheme"
  assumes "pricing_inv db" and "collection_inv db"
    and "get_tx e db i = Inr tx" "tx_state tx = QUALITY_PENDING" "tx_milk_type tx = Some milk" "milk \<in> set MILK_TYPES"
    and "quality_reading e db tx cmd = Inr (v, dv)" "check_quality v = Inr ()"
    and "\<nexists>c r. list_price e db (tx\<lparr>tx_fat := Some (qv_fat v)\<rparr>) c r"
  shows "\<exists>tx' db' reason. capture_quality e i cmd a db = Inr (tx', db')
    \<and> tx_state tx' = PRICED \<and> tx_pricing_status tx' = Some ''pricing_unavailable''
    \<and> tx_pricing_detail tx' = JStr reason \<and> tx_fat tx' = Some (qv_fat v) \<and> weight_facts tx' = weight_facts tx"
proof -
  define t1 where "t1 = quality_row cmd v tx"
  define d2 where "d2 = quality_log e cmd dv a t1 db"
  define t2 where "t2 = t1\<lparr>tx_state := PRICING_PENDING\<rparr>"
  define d3 where "d3 = record_tx e t2 ''PricingRequested'' [(''dimension'', JStr PRICING_DIMENSION)] a d2"
  obtain t where t: "current_tenant e = Some t" using get_tx_InrD [OF assms(3)] by simp
  have log: "log_only db d3" by (simp add: d3_def d2_def log_only_record quality_log_only)
  then have sp: "same_pricing db d3" by (simp add: log_only_def)
  have tz: "tenant_timezone e d3 None = tenant_timezone e db None" by (simp add: d3_def d2_def quality_log_timezone)
  have none: "\<not> list_price e d3 t2 c r" for c r
    using assms(9) list_price_frame [of d3 db e t2 c r] sp tz
    by (auto simp: same_pricing_def list_price_def t2_def t1_def quality_row_def)
  obtain reason where att: "\<exists>stage. pricing_attempt e t2 a d3 = Inl (PricingResolutionError stage reason)"
  proof (cases "product_code_for (Some milk)")
    case None
    then show thesis
      by (intro that) (simp add: pricing_attempt_def Let_def t2_def t1_def quality_row_def assms(5))
  next
    case (Some product)
    let ?on = "business_date_of e (tx_created_at t2) (tenant_timezone e d3 None)"
    obtain q where q: "ResolutionQuery (tx_center t2) product ?on PRICING_DIMENSION (qv_fat v) = Inr q"
      using milk_product_query [OF assms(6)] Some by fastforce
    have np: "\<not> prices d3 t q c m r" for c m r
      using none Some q t by (auto simp: list_price_def t2_def t1_def quality_row_def assms(5))
    obtain stage why where "resolve e d3 q = Inl (PricingResolutionError stage why)"
      by (rule resolve_cases [OF same_pricing_inv [OF sp assms(1)] t, of q])
        (use np in \<open>auto simp: prices_iff\<close>)
    then have "pricing_attempt e t2 a d3 = Inl (PricingResolutionError stage why)"
      using Some q by (simp add: pricing_attempt_def Let_def t2_def t1_def quality_row_def assms(5))
    then show thesis by (rule_tac that) blast
  qed
  define t3 where "t3 = (unpriced reason t2)\<lparr>tx_state := PRICED\<rparr>"
  obtain d4 where ap: "apply_pricing e t1 a d2 = Inr (t3, d4)"
    using att by (auto simp: apply_pricing_def price_tx_def Let_def t2_def [symmetric] d3_def [symmetric] t3_def)
  have st: "stored_tx t3 = Inr t3"
    using inv_stored [OF assms(2), of tx] get_tx_InrD [OF assms(3)]
    by (simp add: stored_iff t3_def t2_def t1_def quality_row_def unpriced_def)
  have get: "get_mutable e db i QUALITY_PENDING = Inr tx" using assms(3,4) by (simp add: result_simps terminal_def)
  have "capture_quality e i cmd a db = Inr (t3, put_tx t3 d4)"
    using ap st by (simp add: capture_quality_eq get assms(7,8) d2_def t1_def save_tx_def)
  then show ?thesis
    by (intro exI conjI, assumption) (simp_all add: t3_def t2_def t1_def quality_row_def unpriced_def weight_facts_def)
qed

section \<open>Overrides, late prices, completion\<close>

lemma quantized_product:
  assumes "quantize ROUND_HALF_UP 2 (dec_mul x y) = Inr g"
  shows "\<bar>g - x * y\<bar> \<le> 1 / 200 + \<bar>x * y\<bar> / (2 * 10 ^ 27)"
proof -
  have "\<bar>g - dec_mul x y\<bar> \<le> 1 / (2 * 10 ^ 2)" by (rule quantize_error_half [OF assms]) simp
  moreover have "\<bar>dec_mul x y - x * y\<bar> \<le> \<bar>x * y\<bar> / (2 * 10 ^ 27)"
    unfolding dec_mul_def by (rule ctx_error)
  moreover have "(1::rat) / (2 * 10 ^ 2) = 1 / 200" by simp
  ultimately show ?thesis by linarith
qed

text \<open>A series of overrides of one collection, each by its own request.\<close>

fun override_each ::
  "uuid \<Rightarrow> (env \<times> rate_override \<times> uuid) list \<Rightarrow> 'a collection_db_scheme \<Rightarrow> 'a collection_db_scheme result" where
  "override_each i [] db = Inr db"
| "override_each i ((e, cmd, a) # os) db = andthen (override_rate e i cmd a db) (\<lambda>(tx, db1). override_each i os db1)"

text \<open>The row an override stores, compared with the row it found.\<close>

definition overridden :: "env \<times> rate_override \<times> uuid \<Rightarrow> milk_tx \<Rightarrow> milk_tx \<Rightarrow> bool" where
  "overridden r tx row \<longleftrightarrow> (case r of (e, cmd, a) \<Rightarrow> \<exists>b u g f q.
     numeric_opt 12 4 (if tx_base_price tx = None then tx_unit_price tx else tx_base_price tx) = Inr (Some b)
     \<and> numeric 12 4 (ro_unit_price cmd) = Inr u \<and> numeric_opt 8 4 (tx_factor tx) = Inr f \<and> paid_quantity tx = Some q
     \<and> \<bar>g - ro_unit_price cmd * repr_dec q\<bar> \<le> 1 / 200 + \<bar>ro_unit_price cmd * repr_dec q\<bar> / (2 * 10 ^ 27)
     \<and> at_scale 2 g \<and> row = tx\<lparr>tx_base_price := Some b, tx_unit_price := Some u, tx_gross_amount := Some g, tx_factor := f,
                tx_override_reason := Some (str_strip (ro_reason cmd)), tx_overridden_by := Some a,
                tx_overridden_at := Some (now e)\<rparr>)"

lemma get_tx_row: "get_tx e db i = Inr tx \<Longrightarrow> row_get tx_id i (transactions db) = Some tx \<and> current_tenant e = Some (tx_tenant tx)"
  by (auto simp: get_tx_def require_current_tenant_def result_simps split: option.splits if_splits)

lemma row_get_replaced: "row_get key (key r) rows = Some q \<Longrightarrow> row_get key (key r) (row_update key (key r) (\<lambda>_. r) rows) = Some r"
  by (induction rows) auto

lemma override_stored:
  assumes "get_tx e0 db i = Inr tx" and "override_rate e i cmd a db = Inr (t, db')"
  obtains row where "get_tx e db' i = Inr row" "overridden (e, cmd, a) tx row" "tx_state tx = PRICED"
    "transactions db' = row_update tx_id i (\<lambda>_. row) (transactions db)"
proof (rule override_run [OF assms(2)])
  fix tx0 p q g row d
  assume g: "get_tx e db i = Inr tx0" "tx_state tx0 = PRICED" "tx_unit_price tx0 = Some p" "paid_quantity tx0 = Some q"
      "quantize ROUND_HALF_UP 2 (dec_mul (ro_unit_price cmd) (repr_dec q)) = Inr g"
    and t: "t = tx0\<lparr>tx_base_price := Some (case tx_base_price tx0 of None \<Rightarrow> p | Some b \<Rightarrow> b),
            tx_unit_price := Some (ro_unit_price cmd),
            tx_gross_amount := Some g, tx_override_reason := Some (str_strip (ro_reason cmd)),
            tx_overridden_by := Some a, tx_overridden_at := Some (now e)\<rparr>"
    and row: "stored_tx t = Inr row" and db': "db' = record_tx e t ''RateOverridden'' d a (put_tx row db)"
  have tx0: "tx0 = tx" using get_tx_row [OF g(1)] get_tx_row [OF assms(1)] by simp
  have id: "tx_id tx = i" using row_get_SomeD [of tx_id i "transactions db" tx] get_tx_row [OF assms(1)] by simp
  obtain f u g' b where r: "row = t\<lparr>tx_factor := f, tx_unit_price := u, tx_gross_amount := g', tx_base_price := b\<rparr>"
    "numeric_opt 12 4 (tx_unit_price t) = Inr u" "numeric_opt 16 2 (tx_gross_amount t) = Inr g'"
    "numeric_opt 12 4 (tx_base_price t) = Inr b" "numeric_opt 8 4 (tx_factor t) = Inr f"
    using row by (rule stored_tx_same) blast
  obtain x b' u' where x: "numeric 16 2 g = Inr x" "g' = Some x" "b = Some b'" "numeric 12 4 (ro_unit_price cmd) = Inr u'" "u = Some u'"
    using r(2-4) by (auto simp: t result_simps)
  then have g': "g' = Some g" using numeric_at_scale [OF quantize_at_scale [OF g(5)]] by blast
  have rid: "tx_id row = i" "tx_tenant row = tx_tenant tx" using id by (simp_all add: r(1) t tx0)
  have "numeric_opt 12 4 (if tx_base_price tx = None then tx_unit_price tx else tx_base_price tx) = Inr (Some b')"
    using r(4) g(3) by (simp add: t tx0 x(3) del: numeric_opt.simps split: option.splits if_splits)
  moreover have "numeric_opt 8 4 (tx_factor tx) = Inr f" using r(5) by (simp add: t tx0)
  moreover have "row = tx\<lparr>tx_base_price := Some b', tx_unit_price := Some u', tx_gross_amount := Some g, tx_factor := f,
                tx_override_reason := Some (str_strip (ro_reason cmd)), tx_overridden_by := Some a,
                tx_overridden_at := Some (now e)\<rparr>"
    by (simp add: r(1) t tx0 x(3,5) g')
  ultimately have "overridden (e, cmd, a) tx row"
    unfolding overridden_def prod.case using g(4) quantized_product [OF g(5)] quantize_at_scale [OF g(5)] x(4) unfolding tx0 by blast
  moreover have ts: "transactions db' = row_update tx_id i (\<lambda>_. row) (transactions db)" by (simp add: db' put_tx_def rid)
  moreover have "get_tx e db' i = Inr row"
    using row_get_replaced [of tx_id row "transactions db" tx] get_tx_row [OF assms(1)] get_tx_row [OF g(1)]
    by (simp add: get_tx_def require_current_tenant_def ts rid tx0 need_def)
  ultimately show thesis using that g(2) tx0 by blast
qed

lemma overridden_twice:
  assumes "overridden r tx row" and "overridden r' row row'"
  shows "overridden r' tx row'"
proof -
  obtain e cmd a e' cmd' a' where rs: "r = (e, cmd, a)" "r' = (e', cmd', a')" by (metis prod.collapse)
  obtain b u g f q where one: "numeric_opt 12 4 (if tx_base_price tx = None then tx_unit_price tx else tx_base_price tx) = Inr (Some b)"
    "row = tx\<lparr>tx_base_price := Some b, tx_unit_price := Some u, tx_gross_amount := Some g, tx_factor := f,
        tx_override_reason := Some (str_strip (ro_reason cmd)), tx_overridden_by := Some a, tx_overridden_at := Some (now e)\<rparr>"
    and fac: "numeric_opt 8 4 (tx_factor tx) = Inr f"
    using assms(1) unfolding overridden_def rs prod.case by blast
  have same: "paid_quantity row = paid_quantity tx" "numeric_opt 12 4 (if tx_base_price row = None then tx_unit_price row else tx_base_price row) = Inr (Some b)"
    using numeric_opt_idem [OF one(1)] by (simp_all add: one(2) paid_quantity_def del: numeric_opt.simps split: option.split)
  have keep: "numeric_opt 8 4 (tx_factor row) = Inr f" using numeric_opt_idem [OF fac] by (simp add: one(2))
  obtain u' g' q' where two: "numeric 12 4 (ro_unit_price cmd') = Inr u'" "paid_quantity tx = Some q'"
    "\<bar>g' - ro_unit_price cmd' * repr_dec q'\<bar> \<le> 1 / 200 + \<bar>ro_unit_price cmd' * repr_dec q'\<bar> / (2 * 10 ^ 27)"
    "at_scale 2 g'" "row' = row\<lparr>tx_base_price := Some b, tx_unit_price := Some u', tx_gross_amount := Some g', tx_factor := f,
        tx_override_reason := Some (str_strip (ro_reason cmd')), tx_overridden_by := Some a', tx_overridden_at := Some (now e')\<rparr>"
    using assms(2) unfolding overridden_def rs prod.case same keep by auto
  have "row' = tx\<lparr>tx_base_price := Some b, tx_unit_price := Some u', tx_gross_amount := Some g', tx_factor := f,
        tx_override_reason := Some (str_strip (ro_reason cmd')), tx_overridden_by := Some a', tx_overridden_at := Some (now e')\<rparr>"
    by (simp add: two(5) one(2))
  then show ?thesis unfolding overridden_def rs prod.case using one(1) fac two(1-4) by blast
qed

text \<open>
  C29: Overrides (BR-0029) never lose the list price. After any number of overrides of a collection the
  stored row still has the price the list gave before the first of them; its price is the one the
  last override ordered, as the column keeps it, and its amount is that order times the paid quantity,
  rounded once to cents; reason, user and time are those of the last override, and nothing else on the
  row and no other collection changes. The first of
  them found the collection priced and not yet decided.
\<close>

theorem override_keeps_list_price:
  fixes db db' :: "'a collection_db_scheme"
  assumes "get_tx e0 db i = Inr tx" and "override_each i os db = Inr db'" and "os \<noteq> []" and "last os = (e, cmd, a)"
  shows "\<exists>row b u g f q. get_tx e db' i = Inr row \<and> transactions db' = row_update tx_id i (\<lambda>_. row) (transactions db)
     \<and> tx_state tx = PRICED
     \<and> numeric_opt 12 4 (if tx_base_price tx = None then tx_unit_price tx else tx_base_price tx) = Inr (Some b)
     \<and> numeric 12 4 (ro_unit_price cmd) = Inr u \<and> numeric_opt 8 4 (tx_factor tx) = Inr f \<and> paid_quantity tx = Some q
     \<and> \<bar>g - ro_unit_price cmd * repr_dec q\<bar> \<le> 1 / 200 + \<bar>ro_unit_price cmd * repr_dec q\<bar> / (2 * 10 ^ 27)
     \<and> at_scale 2 g \<and> row = tx\<lparr>tx_base_price := Some b, tx_unit_price := Some u, tx_gross_amount := Some g, tx_factor := f,
                tx_override_reason := Some (str_strip (ro_reason cmd)), tx_overridden_by := Some a,
                tx_overridden_at := Some (now e)\<rparr>"
proof -
  have "\<exists>row. get_tx e db' i = Inr row \<and> transactions db' = row_update tx_id i (\<lambda>_. row) (transactions db)
      \<and> tx_state tx = PRICED \<and> overridden (e, cmd, a) tx row"
    using assms
  proof (induction os arbitrary: db tx e0)
    case (Cons r os)
    obtain e1 cmd1 a1 where r: "r = (e1, cmd1, a1)" by (metis prod.collapse)
    obtain t db1 where o: "override_rate e1 i cmd1 a1 db = Inr (t, db1)" and rest: "override_each i os db1 = Inr db'"
      using Cons.prems(2) by (auto simp: r result_simps)
    obtain row where s: "get_tx e1 db1 i = Inr row" "overridden (e1, cmd1, a1) tx row" "tx_state tx = PRICED"
        "transactions db1 = row_update tx_id i (\<lambda>_. row) (transactions db)"
      using override_stored [OF Cons.prems(1) o] .
    show ?case
    proof (cases "os = []")
      case True
      then show ?thesis using s rest Cons.prems(4) by (auto simp: r)
    next
      case False
      then obtain row' where s': "get_tx e db' i = Inr row'" "transactions db' = row_update tx_id i (\<lambda>_. row') (transactions db1)"
          "overridden (e, cmd, a) row row'"
        using Cons.IH [OF s(1) rest False] Cons.prems(4) by auto
      have "tx_id row = i" using get_tx_row [OF s(1)] row_get_SomeD by metis
      then have "transactions db' = row_update tx_id i (\<lambda>_. row') (transactions db)"
        unfolding s'(2) s(4) by (simp add: row_update_def)
      then show ?thesis using s'(1) s(3) overridden_twice [OF s(2) s'(3)] by blast
    qed
  qed simp
  then show ?thesis unfolding overridden_def prod.case by blast
qed

text \<open>
  A late price (D-3) is the price of the day of the collection. Repricing works only on a
  completed, not rejected collection whose pricing was unavailable; it takes the one band that holds
  for the collection's own business day, and changes nothing but the price.
\<close>

theorem reprice_uses_collection_day:
  assumes "pricing_inv db" and "get_tx e db i = Inr tx" and "tx_base_price tx = None"
    and "reprice e i a db = Inr (tx', db')"
  shows "tx_state tx = COMPLETED \<and> tx_rejected_reason tx = None
    \<and> tx_pricing_status tx = Some ''pricing_unavailable'' \<and> tx_pricing_status tx' = Some ''priced''
    \<and> (\<exists>c r. list_price e db tx c r \<and> tx_unit_price tx' = Some (mr_price r)
         \<and> tx_currency tx' = Some (rc_currency c))
    \<and> same_but_price tx tx'"
proof -
  obtain db1 where rp: "reprice_problems tx = []" and pr: "price_tx e tx a db = Inr (None, tx', db1)"
    using assms(4) by (auto simp: reprice_def assms(2) result_simps split: option.splits if_splits)
  show ?thesis
    using pr
  proof (cases rule: price_tx_cases)
    case (priced x)
    then have "tx' = priced x tx" using assms(3) by simp
    then show ?thesis
      using rp attempt_list_price [OF assms(1) priced(1)] price_tx_same [OF pr]
      by (auto simp: reprice_problems_none priced_def)
  qed simp
qed

text \<open>
  Completion closes the books on a collection in one step: it takes the next slip number of the
  organisation's year, and files exactly one snapshot, which is the frozen record with that number,
  the decision and the completion time; nothing but the state, the time and the slip changes on the
  collection itself.
\<close>

theorem completion_files_snapshot:
  fixes db :: "'a collection_db_scheme"
  assumes "get_tx e db i = Inr tx" and "complete_tx e i a db = Inr (tx', db')"
  shows "(tx_state tx = ACCEPTED \<or> tx_state tx = REJECTED)
    \<and> tx' = tx\<lparr>tx_completed_at := Some (now e), tx_state := COMPLETED, tx_slip := tx_slip tx'\<rparr>
    \<and> tx_slip tx' = Some (fst (next_document_number e (tx_tenant tx) SLIP_DOC_TYPE SLIP_PREFIX db))
    \<and> (\<exists>s. snapshots db' = snapshots db @ [s] \<and> sn_tx s = i \<and> sn_data s = freeze tx' (tx_state tx)
         \<and> map_of (sn_data s) ''decision'' = Some (JStr (state_name (tx_state tx)))
         \<and> map_of (sn_data s) ''slip_number'' = Some (json_opt JStr (tx_slip tx')))"
proof (rule complete_run [OF assms(2)])
  fix tx0 n dbn s db1 d
  assume g: "get_tx e db i = Inr tx0" "tx_state tx0 = ACCEPTED \<or> tx_state tx0 = REJECTED"
    and n: "next_document_number e (tx_tenant tx0) SLIP_DOC_TYPE SLIP_PREFIX db = (n, dbn)"
    and t: "tx' = tx0\<lparr>tx_completed_at := Some (now e), tx_state := COMPLETED, tx_slip := Some n\<rparr>"
    and s: "sn_tx s = tx_id tx0" "sn_data s = freeze tx' (tx_state tx0)" "snapshots db1 = snapshots db @ [s]"
    and db': "db' = record_tx e tx' ''TransactionCompleted'' d a (put_tx tx' db1)"
  have tx: "tx0 = tx" "tx_id tx = i" using g(1) assms(1) get_tx_InrD [OF assms(1)] by simp_all
  have "snapshots db' = snapshots db @ [s]" using s by (simp add: db')
  then show ?thesis
    using g(2) s n tx by (auto simp: t freeze_def)
qed

text \<open>
  A finished collection refuses everything. Once a collection is completed or cancelled, no
  identification, reception, weighing, quality capture, override, decision, completion or
  cancellation goes through; each is answered with a conflict, and a decision is taken at most once.
\<close>

theorem finished_collection_refuses:
  assumes "get_tx e db i = Inr tx" and "terminal (tx_state tx) \<or> tx_state tx = ACCEPTED \<or> tx_state tx = REJECTED"
  shows "(\<exists>w. accept_tx e i a db = Inl (ConflictError w)) \<and> (\<exists>w. reject_tx e i r a db = Inl (ConflictError w))
    \<and> (\<exists>w. override_rate e i ro a db = Inl (ConflictError w))
    \<and> (\<exists>w. identify_supplier e i m v sid a db = Inl (ConflictError w))
    \<and> (\<exists>w. receive_milk e i mi a db = Inl (ConflictError w))
    \<and> (\<exists>w. capture_weight e i wc a db = Inl (ConflictError w))
    \<and> (\<exists>w. capture_quality e i qc a db = Inl (ConflictError w))
    \<and> (\<exists>w. cancel_tx e i r a db = Inl (ConflictError w))
    \<and> (terminal (tx_state tx) \<longrightarrow> (\<exists>w. complete_tx e i a db = Inl (ConflictError w)))"
proof -
  have mut: "\<exists>w. get_mutable e db i s = Inl (ConflictError w)" if "s \<notin> {ACCEPTED, REJECTED, COMPLETED, CANCELLED}" for s
    using assms that by (auto simp: get_mutable_def terminal_def)
  have np: "tx_state tx \<noteq> PRICED" using assms(2) by (auto simp: terminal_def)
  have "\<exists>w. andthen (get_mutable e db i s) f = Inl (ConflictError w)"
    if "s \<notin> {ACCEPTED, REJECTED, COMPLETED, CANCELLED}" for s and f :: "milk_tx \<Rightarrow> (milk_tx \<times> 'a collection_db_scheme) result"
    using mut [OF that] by auto
  then show ?thesis
    using assms np
    by (auto simp: accept_tx_def reject_tx_def decide_def override_rate_def identify_supplier_def
        receive_milk_def capture_weight_def capture_quality_def cancel_tx_def complete_tx_def terminal_def)
qed

section \<open>Where the code accepts more than it says\<close>

text \<open>
  The reason of an override is required to be ``not merely non-empty'', but only its raw length
  is checked: three blanks pass the command, and the reason stored after stripping is empty.
\<close>

theorem blank_override_reason_stored:
  assumes "0 < p" and "RateOverrideCommand p ''   '' = Inr cmd" and "override_rate e i cmd a db = Inr (tx, db')"
  shows "tx_override_reason tx = Some [] \<and> tx_unit_price tx = Some p"
proof (rule override_run [OF assms(3)])
  have blank: "str_strip ''   '' = []" by code_simp
  fix tx0 p0 g
  assume "tx = tx0\<lparr>tx_base_price := Some (case tx_base_price tx0 of None \<Rightarrow> p0 | Some b \<Rightarrow> b),
            tx_unit_price := Some (ro_unit_price cmd),
            tx_gross_amount := Some g, tx_override_reason := Some (str_strip (ro_reason cmd)),
            tx_overridden_by := Some a, tx_overridden_at := Some (now e)\<rparr>"
  then show ?thesis
    using assms(1,2) blank by (auto simp: RateOverrideCommand_def)
qed

end
