(* ===== verification/CollectionSamples.thy ===== *)
theory CollectionSamples
  imports CollectionGuarantees
begin

text \<open>
  A small collection day: one open session at the centre of the sample price list and one cow-milk
  collection of 12.5 kg, in any state. The guarantees are applied to it.
\<close>

definition sample_session :: collection_session where
  "sample_session = \<lparr>cs_id = 60, cs_tenant = 7, cs_center = 50, cs_status = SOpen, cs_label = ''AM'',
     cs_opened_by = 9, cs_opened_at = 0, cs_closed_by = None, cs_closed_at = None\<rparr>"

text \<open>The morning of day 738900.\<close>

definition sample_now :: datetime where
  "sample_now = 1705276800000000"

definition sample_tx :: "tx_state \<Rightarrow> milk_tx" where
  "sample_tx st =
     \<lparr>tx_id = 61, tx_tenant = 7, tx_session = 60, tx_center = 50,
      tx_supplier = Some 70, tx_operator = 9, tx_state = st,
      tx_milk_type = Some ''cow'', tx_milk_custom = None, tx_container_type = Some ''can'', tx_container = Some ''C1'',
      tx_arrival_temp = None, tx_arrived_at = Some sample_now,
      tx_weight_unit = Some ''kg'', tx_gross = Some (29/2), tx_tare = Some 2, tx_net = Some (25/2),
      tx_weight_source = Some ''manual'', tx_trade_unit = None, tx_trade_quantity = None, tx_factor = None,
      tx_fat = None, tx_snf = None, tx_clr = None, tx_density = None, tx_quality_temp = None,
      tx_remarks = [], tx_quality_source = None,
      tx_pricing_status = None, tx_unit_price = None, tx_gross_amount = None,
      tx_currency = None, tx_calculation = None, tx_pricing_detail = JNull,
      tx_base_price = None, tx_override_reason = None, tx_overridden_by = None, tx_overridden_at = None,
      tx_rejected_reason = None, tx_decided_by = None, tx_decided_at = None,
      tx_cancelled_reason = None, tx_created_at = sample_now, tx_completed_at = None, tx_slip = None\<rparr>"

definition sample_priced :: "tx_state \<Rightarrow> milk_tx" where
  "sample_priced st = (sample_tx st)\<lparr>tx_fat := Some (7/2), tx_snf := Some 8, tx_clr := Some 27,
     tx_quality_source := Some ''manual'', tx_pricing_status := Some ''priced'', tx_unit_price := Some (81/2),
     tx_gross_amount := Some (2025/4), tx_currency := Some ''KES'', tx_calculation := Some 62\<rparr>"

lemma sample_tx_fields [simp]:
  "tx_id (sample_tx st) = 61" "tx_tenant (sample_tx st) = 7" "tx_session (sample_tx st) = 60"
  "tx_center (sample_tx st) = 50" "tx_state (sample_tx st) = st" "tx_slip (sample_tx st) = None"
  "tx_milk_type (sample_tx st) = Some ''cow''" "tx_unit_price (sample_tx st) = None" "tx_base_price (sample_tx st) = None"
  "tx_pricing_status (sample_tx st) = None" "tx_net (sample_tx st) = Some (25/2)" "tx_trade_quantity (sample_tx st) = None"
  "tx_trade_unit (sample_tx st) = None" "tx_weight_unit (sample_tx st) = Some ''kg''"
  "tx_created_at (sample_tx st) = sample_now" "tx_container (sample_tx st) = Some ''C1''"
  "tx_factor (sample_tx st) = None" "tx_gross_amount (sample_tx st) = None" "tx_supplier (sample_tx st) = Some 70"
  by (simp_all add: sample_tx_def)

lemma sample_priced_fields [simp]:
  "tx_id (sample_priced st) = 61" "tx_tenant (sample_priced st) = 7" "tx_session (sample_priced st) = 60"
  "tx_center (sample_priced st) = 50" "tx_state (sample_priced st) = st" "tx_slip (sample_priced st) = None"
  "tx_net (sample_priced st) = Some (25/2)" "tx_trade_quantity (sample_priced st) = None"
  "tx_unit_price (sample_priced st) = Some (81/2)" "tx_base_price (sample_priced st) = None"
  "tx_pricing_status (sample_priced st) = Some ''priced''" "tx_factor (sample_priced st) = None"
  "tx_gross_amount (sample_priced st) = Some (2025/4)" "tx_calculation (sample_priced st) = Some 62"
  by (simp_all add: sample_priced_def)

lemma completed_ids_one: "completed_ids [tx] = (if tx_state tx = COMPLETED then {tx_id tx} else {})"
  by (auto simp: completed_ids_def)

definition sample_collection ::
  "collection_session list \<Rightarrow> milk_tx list \<Rightarrow> transaction_snapshot list \<Rightarrow> collection_db" where
  "sample_collection ss txs sns =
     pricing_db.extend (sample_pricing\<lparr>next_id := 100\<rparr>) (collection_db.fields ss txs [] sns [])"

lemma sample_collection_tables [simp]:
  "sessions (sample_collection ss txs sns) = ss" "transactions (sample_collection ss txs sns) = txs"
  "tx_events (sample_collection ss txs sns) = []" "snapshots (sample_collection ss txs sns) = sns"
  "next_id (sample_collection ss txs sns) = 100" "sequences (sample_collection ss txs sns) = []"
  "organizations (sample_collection ss txs sns) = [sample_org]"
  "outbox (sample_collection ss txs sns) = []" "config_entries (sample_collection ss txs sns) = []"
  "centers (sample_collection ss txs sns) = centers sample_pricing"
  "devices (sample_collection ss txs sns) = []"
  "rate_cards (sample_collection ss txs sns) = [sample_card]"
  "center_assignments (sample_collection ss txs sns) = center_assignments sample_pricing"
  "product_assignments (sample_collection ss txs sns) = product_assignments sample_pricing"
  "dimensions (sample_collection ss txs sns) = [sample_dimension]"
  "matrices (sample_collection ss txs sns) = [sample_matrix]"
  "matrix_rows (sample_collection ss txs sns) = [sample_row, sample_row2]"
  by (simp_all add: sample_collection_def pricing_db.defs collection_db.defs sample_pricing_def)

lemma sample_collection_pricing: "pricing_inv (sample_collection ss txs sns)"
proof -
  have "pricing_inv (sample_pricing\<lparr>next_id := 100\<rparr>)"
    by (rule pricing_inv_frame [OF sample_pricing_inv]) (simp_all add: sample_pricing_def)
  then show ?thesis
    by (simp add: pricing_inv_def) (simp add: sample_defs)
qed

lemma sample_fits: "numeric 12 4 (81/2) = Inr (81/2)" "numeric 16 2 (2025/4) = Inr (2025/4)"
proof -
  show "numeric 12 4 (81/2) = Inr (81/2)" by (rule numeric_fits [OF at_scale_4_samples(1)]) simp
  have "at_scale 2 (2025/4)" by (rule at_scaleI [of _ _ 50625]) simp
  then show "numeric 16 2 (2025/4) = Inr (2025/4)" by (rule numeric_fits) simp
qed

lemma sample_stored: "stored_tx (sample_tx st) = Inr (sample_tx st)" "stored_tx (sample_priced st) = Inr (sample_priced st)"
  by (simp_all add: stored_iff sample_fits)

lemma sample_inv:
  assumes "st \<noteq> COMPLETED" and "tx = sample_tx st \<or> (tx = sample_priced st \<and> 7 \<le> tx_rank st)"
  shows "collection_inv (sample_collection [sample_session] [tx] [])"
proof -
  have "stored_tx tx = Inr tx" using assms(2) sample_stored by blast
  then show ?thesis
    using assms
    by (auto simp: collection_inv_def sessions_ok_def txs_ok_def unique_keys_def price_due_def housed_def events_ok_def
        events_of_def snapshots_ok_def completed_ids_one slips_ok_def numbers_ok_def sample_session_def)
qed

lemma sample_get:
  "get_tx (sample_env 7 t) (sample_collection ss [sample_tx st] sns) 61 = Inr (sample_tx st)"
  "get_tx (sample_env 7 t) (sample_collection ss [sample_priced st] sns) 61 = Inr (sample_priced st)"
  by (simp_all add: get_tx_def require_current_tenant_def)

section \<open>Runs\<close>

lemma sample_open:
  "\<exists>s db'. open_session (sample_env 7 sample_now) 50 ''AM'' 9 (sample_collection [] [] []) = Inr (s, db')
     \<and> cs_status s = SOpen \<and> sessions db' = [s]"
  by (simp add: open_session_def require_current_tenant_def sample_pricing_def sample_env_def Let_def new_id_eq)

lemma reachable_collections_consistent_witness:
  "\<exists>db. collection_step\<^sup>*\<^sup>* (sample_collection [] [] []) db \<and> sessions db \<noteq> []
     \<and> (\<forall>s \<in> set (sessions db). \<forall>s' \<in> set (sessions db). cs_center s = cs_center s' \<longrightarrow> cs_status s = SOpen
          \<longrightarrow> cs_status s' = SOpen \<longrightarrow> s = s')"
proof -
  obtain s db where run: "open_session (sample_env 7 sample_now) 50 ''AM'' 9 (sample_collection [] [] []) = Inr (s, db)"
    and ss: "sessions db = [s]" using sample_open by blast
  have "no_collection (sample_collection [] [] [])" by (simp add: no_collection_def)
  moreover have steps: "collection_step\<^sup>*\<^sup>* (sample_collection [] [] []) db" using step_open [OF run] by simp
  ultimately have "\<forall>s \<in> set (sessions db). \<forall>s' \<in> set (sessions db). cs_center s = cs_center s' \<longrightarrow> cs_status s = SOpen
          \<longrightarrow> cs_status s' = SOpen \<longrightarrow> s = s'"
    by (rule reachable_collections_consistent [THEN conjunct1])
  then show ?thesis using steps ss by (intro exI [of _ db]) simp
qed

definition sample_done :: milk_tx where
  "sample_done = (sample_priced COMPLETED)\<lparr>tx_slip := Some (document_number SLIP_PREFIX ''2024'' 1)\<rparr>"

definition sample_snapshot :: transaction_snapshot where
  "sample_snapshot = \<lparr>sn_id = 63, sn_tenant = 7, sn_tx = 61, sn_data = freeze sample_done ACCEPTED\<rparr>"

definition sample_archive :: collection_db where
  "sample_archive = (sample_collection [sample_session] [sample_done] [sample_snapshot])
     \<lparr>sequences := [\<lparr>sq_tenant = 7, sq_type = SLIP_DOC_TYPE, sq_period = ''2024'', sq_next = 2\<rparr>]\<rparr>"

lemma sample_done_facts: "tx_id sample_done = 61" "tx_tenant sample_done = 7" "tx_session sample_done = 60"
  "tx_center sample_done = 50" "tx_state sample_done = COMPLETED" "tx_pricing_status sample_done = Some ''priced''"
  "tx_slip sample_done = Some (document_number SLIP_PREFIX ''2024'' 1)"
  by (simp_all add: sample_done_def)

lemma sample_archive_inv: "collection_inv sample_archive"
proof -
  have st: "stored_tx sample_done = Inr sample_done"
    using sample_stored(2) [of COMPLETED] by (simp add: stored_iff sample_done_def)
  have "numbers_ok SLIP_DOC_TYPE SLIP_PREFIX tx_id tx_tenant tx_slip
      [\<lparr>sq_tenant = 7, sq_type = SLIP_DOC_TYPE, sq_period = ''2024'', sq_next = 2\<rparr>] [sample_done]"
    by (rule numbers_okI)
      (auto simp: sample_done_facts series_next_def sq_key_def intro!: exI [of _ "''2024''"] exI [of _ 1])
  then show ?thesis
    using st
    by (simp add: collection_inv_def sessions_ok_def txs_ok_def unique_keys_def price_due_def housed_def events_ok_def
        events_of_def snapshots_ok_def completed_ids_one slips_ok_def sample_session_def sample_archive_def
        sample_done_facts sample_snapshot_def)
qed

lemma completed_collection_immutable_witness:
  "\<exists>db'. collection_step\<^sup>*\<^sup>* sample_archive db' \<and> sessions db' \<noteq> sessions sample_archive
     \<and> row_get tx_id 61 (transactions db') = Some sample_done"
proof -
  obtain s db' where run: "close_session (sample_env 7 sample_now) 60 9 sample_archive = Inr (s, db')"
    and ss: "sessions db' = [s]" "cs_status s = SClosed"
    by (simp add: close_session_def get_session_def require_current_tenant_def sample_archive_def sample_session_def
        in_flight_def sample_done_facts terminal_def Let_def)
  have steps: "collection_step\<^sup>*\<^sup>* sample_archive db'" using step_close [OF run] by simp
  have "sample_done \<in> set (transactions sample_archive)" "sessions sample_archive = [sample_session]"
    "cs_status sample_session = SOpen"
    by (simp_all add: sample_archive_def sample_session_def)
  then show ?thesis
    using completed_collection_immutable [OF sample_archive_inv steps, of sample_done] steps ss
    by (intro exI [of _ db']) (auto simp: sample_done_facts)
qed

abbreviation sample_day :: "milk_tx \<Rightarrow> collection_db" where
  "sample_day tx \<equiv> sample_collection [sample_session] [tx] []"

lemma collection_moves_forward_witness:
  "\<exists>db'. collection_step\<^sup>*\<^sup>* (sample_day (sample_tx QUALITY_PENDING)) db'
     \<and> (\<exists>row \<in> set (transactions db'). tx_rank QUALITY_PENDING \<le> tx_rank (tx_state row)
          \<and> weight_facts row = weight_facts (sample_tx QUALITY_PENDING) \<and> tx_state row = CANCELLED)"
proof -
  let ?db = "sample_day (sample_tx QUALITY_PENDING)"
  obtain row0 db' where run: "cancel_tx (sample_env 7 sample_now) 61 ''spilled'' 9 ?db = Inr (row0, db')"
    and t: "transactions db' = [row0]" "tx_state row0 = CANCELLED"
    by (simp add: cancel_tx_def sample_get Let_def terminal_def)
  have inv: "collection_inv ?db" by (rule sample_inv [of QUALITY_PENDING]) simp_all
  have steps: "collection_step\<^sup>*\<^sup>* ?db db'" using step_cancel [OF run] by simp
  show ?thesis
    using collection_moves_forward [OF inv steps, of "sample_tx QUALITY_PENDING"] steps t
    by (intro exI [of _ db']) auto
qed

lemma session_can_be_closed_witness:
  "\<exists>db1 s' db2. collection_step\<^sup>*\<^sup>* (sample_day (sample_tx WEIGHT_CAPTURED)) db1
     \<and> close_session (sample_env 7 sample_now) 60 9 db1 = Inr (s', db2) \<and> cs_status s' = SClosed"
proof -
  have "collection_inv (sample_day (sample_tx WEIGHT_CAPTURED))" by (rule sample_inv [of WEIGHT_CAPTURED]) simp_all
  moreover have "cs_id sample_session = 60" "cs_status sample_session = SOpen" "cs_tenant sample_session = 7"
    by (simp_all add: sample_session_def)
  ultimately show ?thesis
    using session_can_be_closed [of "sample_day (sample_tx WEIGHT_CAPTURED)" sample_session "sample_env 7 sample_now" 9]
    by simp blast
qed

section \<open>Quality and price\<close>

definition sample_quality :: "pyfloat \<Rightarrow> quality_command" where
  "sample_quality fat = \<lparr>qc_source = ''manual'', qc_fat = Some fat, qc_snf = Some 8, qc_clr = Some 27,
     qc_density = None, qc_temperature = None, qc_remarks = [], qc_device = None, qc_frame = None\<rparr>"

lemma sample_date: "business_date_of (sample_env 7 t) sample_now ''UTC'' = 738900"
  by (simp add: business_date_of_def zone_offset_def sample_env_def sample_now_def day_us_def epoch_ordinal_def)

lemma sample_product: "product_code_for (Some ''cow'') = Some ''RAW-COW-MILK''" "str_upper ''RAW-COW-MILK'' = ''RAW-COW-MILK''"
  "str_upper ''FAT'' = ''FAT''"
  by (simp_all add: product_code_for_def opt_str_def str_upper_def) code_simp+

lemma sample_the_query:
  "ResolutionQuery 50 ''RAW-COW-MILK'' 738900 PRICING_DIMENSION v = Inr (sample_query v)"
  by (simp add: ResolutionQuery_def PRICING_DIMENSION_def sample_query_def sample_product)

lemma sample_gross:
  assumes "multiplied_by \<lparr>amount = 81/2, currency = ''KES'', precision = 2,
      rounding_policy = ROUNDING_POLICY_UNSPECIFIED\<rparr> (25/2) ''HALF_UP'' = Inr g"
  shows "amount g = 2025/4"
proof -
  have s: "at_scale 2 (2025/4)" by (rule at_scaleI [of _ _ 50625]) simp
  have "ctx (2025/4) = 2025/4" by (rule ctx_exact [OF s]) (simp add: prec_def)
  then have d: "dec_mul (81/2) (25/2) = 2025/4" by (simp add: dec_mul_def)
  have "quantize ROUND_HALF_UP 2 (dec_mul (81/2) (25/2)) = Inr (2025/4)"
    unfolding d by (rule quantize_exact [OF s]) (simp add: prec_def)
  moreover have "rounding_mode_of ''HALF_UP'' = Inr ROUND_HALF_UP" by (simp add: rounding_mode_of_def ROUNDING_POLICIES_def)
  ultimately show ?thesis
    using assms by (auto simp: multiplied_by_def result_simps mk_money_def split: if_splits)
qed

text \<open>Any state with the sample price list prices the sample milk at 81/2 a kilogram.\<close>

lemma sample_attempt:
  fixes db :: "'a pricing_db_scheme"
  assumes inv: "pricing_inv db" and agg: "aggregates_ok calc_event db" and org: "organizations db = [sample_org]"
    and cfg: "config_entries db = []"
    and tabs: "rate_cards db = [sample_card]" "center_assignments db = center_assignments sample_pricing"
      "product_assignments db = product_assignments sample_pricing" "dimensions db = [sample_dimension]"
      "matrices db = [sample_matrix]" "matrix_rows db = [sample_row, sample_row2]"
    and tx: "tx_milk_type tx = Some ''cow''" "tx_created_at tx = sample_now" "tx_center tx = 50"
      "tx_fat tx = Some (7/2)" "paid_quantity tx = Some (25/2)" "paid_unit tx = ''kg''"
  shows "\<exists>x db'. pricing_attempt (sample_env 7 t) tx a db = Inr (x, db')
     \<and> amount (cl_unit_price (cr_calculation x)) = 81/2 \<and> amount (cl_gross (cr_calculation x)) = 2025/4
     \<and> cl_currency (cr_calculation x) = ''KES''"
proof -
  let ?e = "sample_env 7 t" and ?q = "sample_query (7/2)"
  have tz: "tenant_timezone ?e db None = ''UTC''"
    by (simp add: tenant_timezone_def tenant_org_def resolve_tenant_def get_org_def org sample_org_def or_else_def)
  have d: "find_dimension 7 (rq_dimension ?q) (dimensions db) = Some sample_dimension"
    by (simp add: tabs find_dimension_def sample_query_def sample_dimension_def)
  have p: "prices db 7 ?q sample_card sample_matrix sample_row"
    using sample_prices tabs by (simp add: prices_def sample_pricing_def)
  obtain r where r: "resolve ?e db ?q = Inr r" "resolution_result_of ?e sample_card sample_matrix sample_row ?q sample_dimension = Inr r"
    using resolve_InrI [OF inv _ d p, of ?e] by auto
  have row: "rr_row r = 6"
    using result_of_fields [OF inv p _ r(2)] tabs by (simp add: sample_row_def)
  let ?req = "\<lparr>cq_row = rr_row r, cq_quantity = 25/2, cq_unit = Some ''kg'', cq_date = 738900, cq_policy = None\<rparr>"
  have req: "CalculationRequest (rr_row r) (25/2) (Some ''kg'') 738900 None = Inr ?req"
    by (simp add: CalculationRequest_def opt_str_def)
  have pol: "choose_policy ?e db ?req = Inr ''HALF_UP''"
    by (simp add: choose_policy_def resolve_config_def find_config_def find_global_def sample_env_def cfg
        DEFAULT_ROUNDING_POLICY_def)
  have "\<exists>y db' ev. calculate ?e ?req a db = Inr (y, db') \<and> cl_unit_price (cr_calculation y) = rr_unit_price r
    \<and> rt_card (cr_resolution y) = rr_card r \<and> rt_row (cr_resolution y) = rr_row r
    \<and> find_aggregate_event calc_event (cr_id y) 7 db' = Some ev
    \<and> map_of (ev_payload ev) ''unit_price'' = Some (JDec (amount (rr_unit_price r)))
    \<and> map_of (ev_payload ev) ''gross_amount'' = Some (JDec (amount (cl_gross (cr_calculation y))))
    \<and> map_of (ev_payload ev) ''quantity_unit'' = Some (JStr (opt_str (cq_unit ?req)))"
    by (rule resolved_calculates [OF inv agg _ r(1) _ _ _ _ _ _ pol])
      (simp_all add: sample_query_def opt_str_def fits_def repr_12_5 ROUNDING_POLICIES_def)
  then obtain y db' where y: "calculate ?e ?req a db = Inr (y, db')" by blast
  have att: "pricing_attempt ?e tx a db = Inr (y, db')"
    using y req r(1) sample_the_query [of "7/2"]
    by (simp add: pricing_attempt_def Let_def tx tz sample_date sample_product)
  obtain u rr mm cc price qty cl where c: "verified_band u db ?req = Inr (rr, mm, cc)" "current_tenant ?e = Some u"
    and pc: "choose_policy ?e db ?req = Inr (cl_policy cl)" "money_of (mr_price rr) (rc_currency cc) None = Inr price"
    and q: "mk_quantity (25/2) ''kg'' = Inr qty" and cp: "calculate_pure price qty (cl_policy cl) = Inr cl"
    and yc: "cr_calculation y = cl"
    by (rule calculate_run [OF y]) (simp add: opt_str_def)
  have "rr = sample_row" "cc = sample_card"
    using verified_band_InrD [OF c(1)] row tabs by (auto simp: sample_row_def sample_matrix_def sample_card_def)
  then have price: "price = \<lparr>amount = 81/2, currency = ''KES'', precision = 2, rounding_policy = ROUNDING_POLICY_UNSPECIFIED\<rparr>"
    using pc(2) card_currency [OF inv, of sample_card] money_of_valid [of "''KES''" "81/2"] tabs(1)
    by (simp add: sample_row_def sample_card_def minor_units_def CURRENCIES_def)
  have qd: "as_decimal qty = 25/2" using q by (auto simp: mk_quantity_def as_decimal_def repr_12_5 split: if_splits)
  have "cl_policy cl = ''HALF_UP''" using pc(1) pol by simp
  then have "amount (cl_gross cl) = 2025/4"
    using calculate_pure_InrD(5) [OF cp] unfolding price qd by (intro sample_gross) simp
  then show ?thesis using att yc calculate_pure_InrD [OF cp] price by auto
qed

lemma sample_log_tables:
  "organizations (quality_log e cmd dv a tx db) = organizations db"
  "config_entries (quality_log e cmd dv a tx db) = config_entries db"
  "config_entries (record_tx e tx n d a db) = config_entries db"
  by (simp_all add: quality_log_def record_tx_def Let_def new_id_eq publish_def audit_def audit_of_def)

lemma aggregates_record: "aggregates_ok calc_event db \<Longrightarrow> aggregates_ok calc_event (record_tx e tx n d a db)"
  by (auto simp: aggregates_ok_def record_tx_def Let_def new_id_eq publish_def audit_def audit_of_def calc_event_def
      intro: less_SucI)

lemma sample_capture:
  "\<exists>tx db'. capture_quality (sample_env 7 sample_now) 61 (sample_quality (7/2)) 9
       (sample_day (sample_tx QUALITY_PENDING)) = Inr (tx, db')
     \<and> tx_unit_price tx = Some (81/2) \<and> tx_gross_amount tx = Some (2025/4) \<and> tx_pricing_status tx = Some ''priced''"
proof -
  let ?e = "sample_env 7 sample_now" and ?db = "sample_day (sample_tx QUALITY_PENDING)" and ?cmd = "sample_quality (7/2)"
  let ?v = "\<lparr>qv_fat = 7/2, qv_snf = 8, qv_clr = 27, qv_density = None, qv_temperature = None\<rparr>"
  define t1 where "t1 = quality_row ?cmd ?v (sample_tx QUALITY_PENDING)"
  define t2 where "t2 = t1\<lparr>tx_state := PRICING_PENDING\<rparr>"
  define d2 where "d2 = quality_log ?e ?cmd None 9 t1 ?db"
  define d3 where "d3 = record_tx ?e t2 ''PricingRequested'' [(''dimension'', JStr PRICING_DIMENSION)] 9 d2"
  have get: "get_mutable ?e ?db 61 QUALITY_PENDING = Inr (sample_tx QUALITY_PENDING)"
    by (simp add: result_simps sample_get terminal_def)
  have read: "quality_reading ?e ?db (sample_tx QUALITY_PENDING) ?cmd = Inr (?v, None)" "check_quality ?v = Inr ()"
    by (simp_all add: quality_reading_def sample_quality_def check_quality_Inr)
  have sp: "same_pricing ?db d3"
    using log_only_record [OF quality_log_only [of ?db ?e ?cmd None 9 t1]] unfolding d3_def d2_def log_only_def by blast
  have "aggregates_ok calc_event ?db" by (simp add: aggregates_ok_def)
  then have agg: "aggregates_ok calc_event d3"
    by (simp add: d3_def d2_def quality_log_def Let_def aggregates_record)
  have "\<exists>x db'. pricing_attempt ?e t2 9 d3 = Inr (x, db')
     \<and> amount (cl_unit_price (cr_calculation x)) = 81/2 \<and> amount (cl_gross (cr_calculation x)) = 2025/4
     \<and> cl_currency (cr_calculation x) = ''KES''"
    by (rule sample_attempt [OF same_pricing_inv [OF sp sample_collection_pricing] agg])
      (use sp in \<open>simp_all add: same_pricing_def d3_def d2_def sample_log_tables t2_def t1_def quality_row_def
        paid_quantity_def paid_unit_def opt_str_def or_else_def\<close>)
  then obtain x d4 where x: "pricing_attempt ?e t2 9 d3 = Inr (x, d4)"
      "amount (cl_unit_price (cr_calculation x)) = 81/2" "amount (cl_gross (cr_calculation x)) = 2025/4" by blast
  define t3 where "t3 = (priced x t2)\<lparr>tx_state := PRICED\<rparr>"
  have base: "tx_base_price t2 = None" by (simp add: t2_def t1_def quality_row_def)
  obtain d5 where ap: "apply_pricing ?e t1 9 d2 = Inr (t3, d5)"
    using x base by (auto simp: apply_pricing_def price_tx_def Let_def t2_def [symmetric] d3_def [symmetric] t3_def)
  have fit: "numeric 12 4 (amount (cl_unit_price (cr_calculation x))) = Inr (81/2)"
      "numeric 16 2 (amount (cl_gross (cr_calculation x))) = Inr (2025/4)"
    unfolding x(2,3) by (rule sample_fits)+
  have "stored_tx t3 = Inr t3"
    using fit unfolding x(2,3) [symmetric] by (simp add: stored_iff t3_def priced_def t2_def t1_def quality_row_def sample_fits)
  then have "capture_quality ?e 61 ?cmd 9 ?db = Inr (t3, put_tx t3 d5)"
    using ap by (simp add: capture_quality_eq get read t1_def [symmetric] d2_def [symmetric] save_tx_def)
  moreover have "tx_unit_price t3 = Some (81/2)" "tx_gross_amount t3 = Some (2025/4)"
      "tx_pricing_status t3 = Some ''priced''"
    using x(2,3) by (simp_all add: t3_def priced_def)
  ultimately show ?thesis by blast
qed

lemma sample_pending_inv: "collection_inv (sample_day (sample_tx QUALITY_PENDING))"
  by (rule sample_inv [of QUALITY_PENDING]) simp_all

lemma quality_capture_prices_witness:
  "\<exists>tx db'. capture_quality (sample_env 7 sample_now) 61 (sample_quality (7/2)) 9
       (sample_day (sample_tx QUALITY_PENDING)) = Inr (tx, db') \<and> tx_state tx = PRICED
     \<and> (\<exists>c r. list_price (sample_env 7 sample_now) (sample_day (sample_tx QUALITY_PENDING)) tx c r \<and> mr_price r = 81/2)"
proof -
  obtain tx db' where run: "capture_quality (sample_env 7 sample_now) 61 (sample_quality (7/2)) 9
       (sample_day (sample_tx QUALITY_PENDING)) = Inr (tx, db')"
    and p: "tx_unit_price tx = Some (81/2)" using sample_capture by blast
  show ?thesis
    using quality_capture_prices [OF sample_collection_pricing sample_pending_inv run] p run by auto
qed

lemma missing_price_never_blocks_witness:
  "\<exists>tx db'. capture_quality (sample_env 7 sample_now) 61 (sample_quality (17/4)) 9
       (sample_day (sample_tx QUALITY_PENDING)) = Inr (tx, db')
     \<and> tx_pricing_status tx = Some ''pricing_unavailable'' \<and> tx_state tx = PRICED"
proof -
  let ?e = "sample_env 7 sample_now" and ?db = "sample_day (sample_tx QUALITY_PENDING)" and ?cmd = "sample_quality (17/4)"
  let ?v = "\<lparr>qv_fat = 17/4, qv_snf = 8, qv_clr = 27, qv_density = None, qv_temperature = None\<rparr>"
  have read: "quality_reading ?e ?db (sample_tx QUALITY_PENDING) ?cmd = Inr (?v, None)" "check_quality ?v = Inr ()"
    by (simp_all add: quality_reading_def sample_quality_def check_quality_Inr)
  have "\<not> band_contains r v" if "r = sample_row \<or> r = sample_row2" "v * 4 = 17" for r v
    using that by (auto simp: band_contains_def sample_row_def sample_row2_def)
  then have none: "\<nexists>c r. list_price ?e ?db ((sample_tx QUALITY_PENDING)\<lparr>tx_fat := Some (qv_fat ?v)\<rparr>) c r"
    by (auto simp: list_price_def prices_def ResolutionQuery_def split: if_splits)
  have "''cow'' \<in> set MILK_TYPES" by (simp add: MILK_TYPES_def)
  then show ?thesis
    using missing_price_never_blocks [OF sample_collection_pricing sample_pending_inv sample_get(1) _ _ _ read none]
    by (metis sample_tx_fields(5,7))
qed

definition sample_weight :: weight_command where
  "sample_weight = \<lparr>wc_source = ''manual'', wc_unit = None, wc_gross = Some (double (29/2)),
     wc_tare = Some (double 2), wc_device = None, wc_frame = None\<rparr>"

lemma sample_doubles: "double (29/2) = 29/2" "double 2 = 2" "double (25/2) = 25/2"
  by (rule double_exact [of _ 1 29], simp, simp, rule double_exact [of _ 1 4], simp, simp,
      rule double_exact [of _ 1 25], simp, simp)

lemma sample_units:
  "tenant_units (sample_env 7 t) (sample_collection ss txs sns) (Some 7)
     = \<lparr>measured_unit = ''kg'', trade_unit = None, factor = None, effective_from = None\<rparr>"
  by (simp add: tenant_units_def tenant_org_def resolve_tenant_def get_org_def sample_org_def or_else_def)

lemma sample_weigh:
  "\<exists>tx db'. capture_weight (sample_env 7 sample_now) 61 sample_weight 9 (sample_day (sample_tx MILK_RECEIVED)) = Inr (tx, db')
     \<and> tx_tenant tx = 7"
proof -
  let ?e = "sample_env 7 sample_now" and ?db = "sample_day (sample_tx MILK_RECEIVED)"
  have get: "get_mutable ?e ?db 61 MILK_RECEIVED = Inr (sample_tx MILK_RECEIVED)"
    by (simp add: result_simps sample_get terminal_def)
  have read: "weight_reading ?e ?db (sample_tx MILK_RECEIVED) sample_weight = Inr (29/2, 2, None)"
    by (simp add: weight_reading_def sample_weight_def sample_doubles)
  have unit: "require_tenant_unit ?e ?db (wc_unit sample_weight) (Some 7) = Inr ''kg''"
    by (simp add: require_tenant_unit_def sample_units sample_weight_def)
  have chk: "check_weight (29/2) 2 = Inr ()" by (simp add: result_simps)
  show ?thesis
    by (simp add: capture_weight_def get read unit chk Let_def pin_trade_def in_force_def sample_units save_tx_def stored_tx_def)
qed

lemma captured_weight_exact_witness:
  "\<exists>tx db'. capture_weight (sample_env 7 sample_now) 61 sample_weight 9 (sample_day (sample_tx MILK_RECEIVED)) = Inr (tx, db')
     \<and> tx_net tx = Some (25/2) \<and> tx_weight_unit tx = Some ''kg''"
proof -
  obtain tx db' where run: "capture_weight (sample_env 7 sample_now) 61 sample_weight 9
      (sample_day (sample_tx MILK_RECEIVED)) = Inr (tx, db')" and t: "tx_tenant tx = 7"
    using sample_weigh by blast
  have "at_scale 3 (29/2)" "at_scale 3 2"
    by (rule at_scaleI [of _ _ 14500], simp, rule at_scaleI [of _ _ 2000], simp)
  then show ?thesis
    using captured_weight_exact [OF run, of "29/2" 2] run t
    by (intro exI [of _ tx] exI [of _ db']) (simp add: sample_weight_def sample_doubles sample_units)
qed

lemma readings_are_attributed_witness:
  "\<exists>tx db'. capture_weight (sample_env 7 sample_now) 61 sample_weight 9 (sample_day (sample_tx MILK_RECEIVED)) = Inr (tx, db')
     \<and> wc_source sample_weight \<in> {''manual'', ''scale'', ''analyzer'', ''mock_scale'', ''mock_analyzer''}"
proof -
  obtain tx db' where run: "capture_weight (sample_env 7 sample_now) 61 sample_weight 9
      (sample_day (sample_tx MILK_RECEIVED)) = Inr (tx, db')"
    using sample_weigh by blast
  show ?thesis
    using readings_are_attributed [OF disjI1 [OF run], of "wc_source sample_weight" undefined "wc_device sample_weight"] run
    by auto
qed

lemma sample_override:
  assumes "get_tx (sample_env 7 sample_now) db 61 = Inr t" and "tx_state t = PRICED" and "tx_unit_price t = Some p"
    and "tx_net t = Some (25/2)" and "tx_trade_quantity t = None" and "tx_factor t = None"
    and "numeric 12 4 (case tx_base_price t of None \<Rightarrow> p | Some b \<Rightarrow> b) = Inr w"
  shows "\<exists>tx db'. override_rate (sample_env 7 sample_now) 61 \<lparr>ro_unit_price = 50, ro_reason = r\<rparr> 9 db = Inr (tx, db')"
proof -
  have "at_scale 4 50" by (rule at_scaleI [of _ _ 500000]) simp
  then have u: "numeric 12 4 50 = Inr 50" by (simp add: numeric_fits)
  have s: "at_scale 2 625" by (rule at_scaleI [of _ _ 62500]) simp
  have "ctx 625 = 625" by (rule ctx_exact [OF s]) (simp add: prec_def)
  then have g: "quantize ROUND_HALF_UP 2 (dec_mul 50 (25/2)) = Inr 625"
    using quantize_exact [OF s, of ROUND_HALF_UP] by (simp add: dec_mul_def prec_def)
  have "numeric 16 2 625 = Inr 625" by (rule numeric_fits [OF s]) simp
  moreover have "get_mutable (sample_env 7 sample_now) db 61 PRICED = Inr t"
    by (simp add: get_mutable_def result_simps assms(1,2) terminal_def)
  ultimately show ?thesis
    using assms u g by (simp add: override_rate_def paid_quantity_def Let_def save_tx_def stored_tx_def repr_12_5)
qed

lemma sample_override_50:
  "\<exists>tx db'. override_rate (sample_env 7 sample_now) 61 \<lparr>ro_unit_price = 50, ro_reason = r\<rparr> 9
     (sample_day (sample_priced PRICED)) = Inr (tx, db')"
  by (rule sample_override [OF sample_get(2), where p = "81/2" and w = "81/2"]) (simp_all add: sample_fits)

text \<open>Two overrides of the collection, the second of them on the row the first one stored.\<close>

lemma sample_overrides:
  "\<exists>db'. override_each 61 [(sample_env 7 sample_now, \<lparr>ro_unit_price = 50, ro_reason = r\<rparr>, 9),
       (sample_env 7 sample_now, \<lparr>ro_unit_price = 50, ro_reason = r'\<rparr>, 9)] (sample_day (sample_priced PRICED)) = Inr db'"
proof -
  let ?e = "sample_env 7 sample_now"
  obtain t db1 where one: "override_rate ?e 61 \<lparr>ro_unit_price = 50, ro_reason = r\<rparr> 9 (sample_day (sample_priced PRICED))
      = Inr (t, db1)" using sample_override_50 by blast
  obtain row where row: "get_tx ?e db1 61 = Inr row"
      "overridden (?e, \<lparr>ro_unit_price = 50, ro_reason = r\<rparr>, 9) (sample_priced PRICED) row"
    using override_stored [OF sample_get(2) one] .
  obtain b u g f where f: "b = 81/2" "f = None"
      "row = (sample_priced PRICED)\<lparr>tx_base_price := Some b, tx_unit_price := Some u, tx_gross_amount := Some g,
         tx_factor := f, tx_override_reason := Some (str_strip r), tx_overridden_by := Some 9, tx_overridden_at := Some (now ?e)\<rparr>"
    using row(2) unfolding overridden_def prod.case by (auto simp: sample_fits)
  have "\<exists>t2 db'. override_rate ?e 61 \<lparr>ro_unit_price = 50, ro_reason = r'\<rparr> 9 db1 = Inr (t2, db')"
    by (rule sample_override [OF row(1), where p = u and w = "81/2"]) (simp_all add: f(3) [unfolded f(1,2)] sample_fits)
  then show ?thesis using one by auto
qed

lemma override_keeps_list_price_witness:
  "\<exists>db' row. override_each 61 [(sample_env 7 sample_now, \<lparr>ro_unit_price = 50, ro_reason = ''festival''\<rparr>, 9),
       (sample_env 7 sample_now, \<lparr>ro_unit_price = 50, ro_reason = ''festival price''\<rparr>, 9)]
       (sample_day (sample_priced PRICED)) = Inr db'
     \<and> get_tx (sample_env 7 sample_now) db' 61 = Inr row
     \<and> tx_base_price row = Some (81/2) \<and> tx_override_reason row = Some ''festival price''"
proof -
  let ?e = "sample_env 7 sample_now" and ?c = "\<lambda>r. \<lparr>ro_unit_price = 50, ro_reason = r\<rparr>"
  obtain db' where run: "override_each 61 [(?e, ?c ''festival'', 9), (?e, ?c ''festival price'', 9)]
      (sample_day (sample_priced PRICED)) = Inr db'" using sample_overrides by blast
  have last: "last [(?e, ?c ''festival'', 9), (?e, ?c ''festival price'', 9::uuid)] = (?e, ?c ''festival price'', 9)" by simp
  obtain row b where row: "get_tx ?e db' 61 = Inr row"
      "tx_base_price row = Some b" "tx_override_reason row = Some (str_strip ''festival price'')"
      "numeric_opt 12 4 (Some (81/2)) = Inr (Some b)"
    using override_keeps_list_price [OF sample_get(2) run _ last] by fastforce
  have "b = 81/2" using row(4) by (simp add: sample_fits)
  moreover have "str_strip ''festival price'' = ''festival price''" by code_simp
  ultimately show ?thesis using run row(1-3) by auto
qed

lemma blank_override_reason_stored_witness:
  "\<exists>tx db'. override_rate (sample_env 7 sample_now) 61 \<lparr>ro_unit_price = 50, ro_reason = ''   ''\<rparr> 9
     (sample_day (sample_priced PRICED)) = Inr (tx, db') \<and> tx_override_reason tx = Some []"
proof -
  obtain tx db' where run: "override_rate (sample_env 7 sample_now) 61 \<lparr>ro_unit_price = 50, ro_reason = ''   ''\<rparr> 9
     (sample_day (sample_priced PRICED)) = Inr (tx, db')" using sample_override_50 by blast
  have "RateOverrideCommand 50 ''   '' = Inr \<lparr>ro_unit_price = 50, ro_reason = ''   ''\<rparr>"
    by (simp add: RateOverrideCommand_def)
  then show ?thesis using blank_override_reason_stored [of 50, OF _ _ run] run by simp
qed

lemma completion_files_snapshot_witness:
  "\<exists>tx db'. complete_tx (sample_env 7 sample_now) 61 9 (sample_day (sample_priced ACCEPTED)) = Inr (tx, db')
     \<and> tx_state tx = COMPLETED \<and> length (snapshots db') = 1"
proof -
  obtain tx db' where run: "complete_tx (sample_env 7 sample_now) 61 9 (sample_day (sample_priced ACCEPTED)) = Inr (tx, db')"
    by (simp add: complete_tx_def sample_get Let_def split_def)
  show ?thesis
    using completion_files_snapshot [OF sample_get(2) run] run
    by (intro exI [of _ tx] exI [of _ db']) (auto dest: arg_cong [of tx _ tx_state])
qed

lemma finished_collection_refuses_witness:
  "\<exists>w. accept_tx (sample_env 7 sample_now) 61 9 (sample_day (sample_priced CANCELLED)) = Inl (ConflictError w)"
  by (rule finished_collection_refuses [OF sample_get(2), THEN conjunct1]) (simp add: terminal_def)

definition sample_unpriced :: milk_tx where
  "sample_unpriced = (sample_tx COMPLETED)\<lparr>tx_fat := Some (7/2), tx_pricing_status := Some ''pricing_unavailable''\<rparr>"

lemma reprice_uses_collection_day_witness:
  "\<exists>tx db'. reprice (sample_env 7 0) 61 9 (sample_collection [sample_session] [sample_unpriced] []) = Inr (tx, db')
     \<and> tx_pricing_status tx = Some ''priced''
     \<and> (\<exists>c r. list_price (sample_env 7 0) (sample_collection [sample_session] [sample_unpriced] []) sample_unpriced c r
          \<and> tx_unit_price tx = Some (mr_price r))"
proof -
  let ?db = "sample_collection [sample_session] [sample_unpriced] []" and ?e = "sample_env 7 0"
  have get: "get_tx ?e ?db 61 = Inr sample_unpriced"
    by (simp add: get_tx_def require_current_tenant_def sample_unpriced_def)
  have base: "tx_base_price sample_unpriced = None" by (simp add: sample_unpriced_def)
  have "aggregates_ok calc_event ?db" by (simp add: aggregates_ok_def)
  then have "\<exists>x db'. pricing_attempt ?e sample_unpriced 9 ?db = Inr (x, db')
     \<and> amount (cl_unit_price (cr_calculation x)) = 81/2 \<and> amount (cl_gross (cr_calculation x)) = 2025/4
     \<and> cl_currency (cr_calculation x) = ''KES''"
    by (intro sample_attempt [OF sample_collection_pricing])
      (simp_all add: sample_unpriced_def paid_quantity_def paid_unit_def opt_str_def or_else_def)
  then obtain x d4 where x: "pricing_attempt ?e sample_unpriced 9 ?db = Inr (x, d4)"
      "amount (cl_unit_price (cr_calculation x)) = 81/2" "amount (cl_gross (cr_calculation x)) = 2025/4" by blast
  have pr: "price_tx ?e sample_unpriced 9 ?db = Inr (None, priced x sample_unpriced, d4)"
    using x(1) base by (simp add: price_tx_def)
  have "reprice_problems sample_unpriced = []"
    by (simp add: reprice_problems_none sample_unpriced_def) (simp add: sample_tx_def)
  moreover have "numeric 12 4 (amount (cl_unit_price (cr_calculation x))) = Inr (81/2)"
      "numeric 16 2 (amount (cl_gross (cr_calculation x))) = Inr (2025/4)"
    unfolding x(2,3) by (rule sample_fits)+
  then have "\<exists>row. stored_tx (priced x sample_unpriced) = Inr row"
    by (simp add: stored_tx_def priced_def sample_unpriced_def sample_fits)
  ultimately obtain tx db' where run: "reprice ?e 61 9 ?db = Inr (tx, db')"
    by (auto simp: reprice_def get pr save_tx_def)
  show ?thesis using reprice_uses_collection_day [OF sample_collection_pricing get base run] run by auto
qed

end
