(* ===== verification/Settlement.thy ===== *)
theory Settlement
  imports Collection Numbering
begin

text \<open>
  The settlement service (\<open>modules/settlement/\<close>): what a supplier is owed for a period. Lines copy
  the amounts of the recorded price calculations; totals are sums of the lines; finalizing fixes them.
\<close>

section \<open>Tables\<close>

datatype settlement_status = SDraft | SCalculated | SFinalized | SCancelled

fun settlement_status_name :: "settlement_status \<Rightarrow> string" where
  "settlement_status_name SDraft = ''draft''"
| "settlement_status_name SCalculated = ''calculated''"
| "settlement_status_name SFinalized = ''finalized''"
| "settlement_status_name SCancelled = ''cancelled''"

record settlement =
  st_id :: uuid
  st_tenant :: uuid
  st_supplier :: uuid
  st_center :: uuid
  st_number :: string
  st_from :: date
  st_to :: date
  st_currency :: string
  st_gross :: decimal
  st_adjustments :: decimal
  st_net :: decimal
  st_status :: settlement_status
  st_created_at :: datetime
  st_finalized_at :: "datetime option"
  st_cancelled_at :: "datetime option"

record settlement_line =
  sl_id :: uuid
  sl_tenant :: uuid
  sl_settlement :: uuid
  sl_calculation :: uuid
  sl_transaction :: "uuid option"
  sl_date :: date
  sl_quantity :: decimal
  sl_unit :: string
  sl_price :: decimal
  sl_gross :: decimal
  sl_trace :: uuid
  sl_created_at :: datetime

record settlement_db = collection_db +
  settlements :: "settlement list"
  settlement_lines :: "settlement_line list"

definition SETTLEMENT_BUS_EVENTS :: "(string \<times> string) list" where
  "SETTLEMENT_BUS_EVENTS =
     [(''created'', ''settlement.created.v1''), (''updated'', ''settlement.updated.v1''),
      (''finalized'', ''settlement.finalized.v1''), (''cancelled'', ''settlement.cancelled.v1'')]"

definition OPEN_STATUSES :: "settlement_status list" where
  "OPEN_STATUSES = [SDraft, SCalculated]"

definition NO_ADJUSTMENTS :: decimal where
  "NO_ADJUSTMENTS = 0"

definition put_settlement :: "settlement \<Rightarrow> 'a settlement_db_scheme \<Rightarrow> 'a settlement_db_scheme" where
  "put_settlement s db = db\<lparr>settlements := row_update st_id (st_id s) (\<lambda>_. s) (settlements db)\<rparr>"

section \<open>Commands\<close>

record create_settlement_command =
  cs_supplier :: uuid
  cs_of_center :: uuid
  cs_from :: date
  cs_to :: date
  cs_currency :: "string option"

definition CreateSettlementCommand ::
  "uuid \<Rightarrow> uuid \<Rightarrow> date \<Rightarrow> date \<Rightarrow> string option \<Rightarrow> create_settlement_command result" where
  "CreateSettlementCommand supp cen from to cur =
     andthen
       (case cur of
          None \<Rightarrow> Inr None
        | Some c \<Rightarrow>
            if length c \<noteq> 3 then Inl (ValueError ''currency length'')
            else if \<not> str_isalpha c then Inl (ValueError ''currency must be a 3-letter ISO 4217 code'')
            else Inr (Some (str_upper c)))
       (\<lambda>cur'.
        if to < from then Inl (ValueError ''period_to must not be before period_from'')
        else Inr \<lparr>cs_supplier = supp, cs_of_center = cen, cs_from = from, cs_to = to, cs_currency = cur'\<rparr>)"

section \<open>Helpers\<close>

definition periods_overlap :: "date \<Rightarrow> date \<Rightarrow> date \<Rightarrow> date \<Rightarrow> bool" where
  "periods_overlap a b c d \<longleftrightarrow> a \<le> d \<and> c \<le> b"

definition get_settlement :: "env \<Rightarrow> 'a settlement_db_scheme \<Rightarrow> uuid \<Rightarrow> settlement result" where
  "get_settlement e db i =
     andthen (require_current_tenant e) (\<lambda>tenant.
       case row_get st_id i (settlements db) of
         None \<Rightarrow> Inl (NotFoundError ''settlement not found'')
       | Some s \<Rightarrow> if st_tenant s \<noteq> tenant then Inl (NotFoundError ''settlement not found'') else Inr s)"

definition require_open :: "settlement \<Rightarrow> unit result" where
  "require_open s =
     (if st_status s = SFinalized then Inl (ConflictError ''finalized settlements are immutable'')
      else if st_status s = SCancelled then Inl (ConflictError ''cancelled settlements cannot be modified'')
      else Inr ())"

definition record_settlement ::
  "env \<Rightarrow> settlement \<Rightarrow> string \<Rightarrow> payload \<Rightarrow> uuid \<Rightarrow> 'a settlement_db_scheme \<Rightarrow> 'a settlement_db_scheme" where
  "record_settlement e s event data actor db =
     publish e (bus_name SETTLEMENT_BUS_EVENTS event)
       ([(''settlement_id'', JId (st_id s)), (''settlement_number'', JStr (st_number s)),
         (''supplier_id'', JId (st_supplier s)), (''status'', JStr (settlement_status_name (st_status s)))] @ data)
       (Some actor) (Some ''settlement'') (Some (st_id s))
       (audit e (''settlement.'' @ event) ''settlement'' (st_id s) (Some actor)
          ((''number'', JStr (st_number s)) # data) db)"

text \<open>The lines of a settlement, as \<open>_lines\<close> orders them: by date, then in the order they were added.\<close>

definition lines_of :: "'a settlement_db_scheme \<Rightarrow> uuid \<Rightarrow> settlement_line list" where
  "lines_of db i =
     sort_key sl_date (sort_key sl_created_at (filter (\<lambda>l. sl_settlement l = i) (settlement_lines db)))"

definition line_count :: "'a settlement_db_scheme \<Rightarrow> uuid \<Rightarrow> nat" where
  "line_count db i = length (filter (\<lambda>l. sl_settlement l = i) (settlement_lines db))"

definition std_money :: "decimal \<Rightarrow> string \<Rightarrow> money result" where
  "std_money a c = mk_money a c 2 ROUNDING_POLICY_UNSPECIFIED"

fun add_up :: "money \<Rightarrow> string \<Rightarrow> decimal list \<Rightarrow> money result" where
  "add_up acc c [] = Inr acc"
| "add_up acc c (x # xs) =
     andthen (std_money x c) (\<lambda>m. andthen (money_plus acc m) (\<lambda>acc'. add_up acc' c xs))"

definition sum_lines :: "'a settlement_db_scheme \<Rightarrow> settlement \<Rightarrow> money result" where
  "sum_lines db s =
     andthen (std_money 0 (st_currency s)) (\<lambda>zero.
     add_up zero (st_currency s) (map sl_gross (lines_of db (st_id s))))"

definition sum_quantity :: "'a settlement_db_scheme \<Rightarrow> uuid \<Rightarrow> decimal \<times> string" where
  "sum_quantity db i =
     (let ls = lines_of db i;
          quantity = dec_sum 0 (map sl_quantity ls);
          unit = (case remdups (map sl_unit ls) of [u] \<Rightarrow> u | _ \<Rightarrow> [])
      in (if unit = [] then 0 else quantity, unit))"

section \<open>Opening a settlement\<close>

definition assert_no_period_overlap ::
  "uuid \<Rightarrow> create_settlement_command \<Rightarrow> 'a settlement_db_scheme \<Rightarrow> unit result" where
  "assert_no_period_overlap tenant cmd db =
     (if list_ex (\<lambda>o'. st_tenant o' = tenant \<and> st_supplier o' = cs_supplier cmd \<and> st_status o' \<noteq> SCancelled
            \<and> periods_overlap (cs_from cmd) (cs_to cmd) (st_from o') (st_to o')) (settlements db)
        then Inl (ConflictError ''period overlaps another settlement for this supplier'')
      else Inr ())"

definition create_settlement ::
  "env \<Rightarrow> create_settlement_command \<Rightarrow> uuid \<Rightarrow> 'a settlement_db_scheme
     \<Rightarrow> (settlement \<times> 'a settlement_db_scheme) result" where
  "create_settlement e cmd actor db =
     andthen (require_current_tenant e) (\<lambda>tenant.
     andthen (need (NotFoundError ''supplier not found'') (row_get sup_id (cs_supplier cmd) (suppliers db))) (\<lambda>sup.
     if sup_tenant sup \<noteq> tenant then Inl (NotFoundError ''supplier not found'')
     else
       andthen (need (NotFoundError ''collection center not found'') (row_get cc_id (cs_of_center cmd) (centers db))) (\<lambda>cc.
       if cc_tenant cc \<noteq> tenant then Inl (NotFoundError ''collection center not found'')
       else
         andthen (assert_no_period_overlap tenant cmd db) (\<lambda>_.
         let (number, db1) = next_document_number e tenant ''settlement'' ''STL'' db in
         andthen (case cs_currency cmd of
                    Some c \<Rightarrow> if c = [] then tenant_currency e db None else Inr c
                  | None \<Rightarrow> tenant_currency e db None) (\<lambda>cur.
           let (i, db2) = new_id db1;
               s = \<lparr>st_id = i, st_tenant = tenant, st_supplier = cs_supplier cmd, st_center = cs_of_center cmd,
                    st_number = number, st_from = cs_from cmd, st_to = cs_to cmd, st_currency = cur,
                    st_gross = 0, st_adjustments = 0, st_net = 0, st_status = SDraft, st_created_at = now e,
                    st_finalized_at = None, st_cancelled_at = None\<rparr>
           in Inr (s, record_settlement e s ''created'' [] actor
                        (db2\<lparr>settlements := settlements db2 @ [s]\<rparr>)))))))"

section \<open>Lines\<close>

text \<open>\<open>_verified_calculation\<close>: the durable record of the calculation, in the settlement's currency.\<close>

definition verified_calculation ::
  "settlement \<Rightarrow> uuid \<Rightarrow> 'a settlement_db_scheme \<Rightarrow> outbox_event result" where
  "verified_calculation s k db =
     (case find_aggregate_event ''pricing_calculation'' k (st_tenant s) db of
        None \<Rightarrow> Inl (NotFoundError ''pricing calculation not found'')
      | Some ev \<Rightarrow>
          if map_of (ev_payload ev) ''currency'' \<noteq> Some (JStr (st_currency s))
            then Inl (ConflictError ''calculation currency does not match settlement currency'')
          else Inr ev)"

text \<open>A line counts against BR-0008 and BR-0012 while its settlement is not cancelled.\<close>

definition live_line :: "uuid \<Rightarrow> 'a settlement_db_scheme \<Rightarrow> settlement_line \<Rightarrow> bool" where
  "live_line tenant db l \<longleftrightarrow>
     list_ex (\<lambda>s. st_id s = sl_settlement l \<and> st_status s \<noteq> SCancelled \<and> st_tenant s = tenant) (settlements db)"

definition assert_calculation_unsettled ::
  "settlement \<Rightarrow> uuid \<Rightarrow> 'a settlement_db_scheme \<Rightarrow> unit result" where
  "assert_calculation_unsettled s k db =
     (if list_ex (\<lambda>l. sl_calculation l = k \<and> live_line (st_tenant s) db l) (settlement_lines db)
        then Inl (ConflictError ''this pricing calculation is already settled'') else Inr ())"

definition assert_transaction_unsettled ::
  "settlement \<Rightarrow> uuid \<Rightarrow> 'a settlement_db_scheme \<Rightarrow> unit result" where
  "assert_transaction_unsettled s t db =
     (if list_ex (\<lambda>l. sl_transaction l = Some t \<and> live_line (st_tenant s) db l) (settlement_lines db)
        then Inl (ConflictError ''this collection transaction is already settled'') else Inr ())"

definition assert_line_date_settleable ::
  "settlement \<Rightarrow> date \<Rightarrow> 'a settlement_db_scheme \<Rightarrow> unit result" where
  "assert_line_date_settleable s on db =
     (if st_from s \<le> on \<and> on \<le> st_to s then Inr ()
      else if st_to s < on then Inl (ConflictError ''date is after the settlement period'')
      else if find (\<lambda>o'. st_tenant o' = st_tenant s \<and> st_supplier o' = st_supplier s
                 \<and> st_status o' = SFinalized \<and> st_from o' \<le> on \<and> on \<le> st_to o') (settlements db) = None
        then Inl (ConflictError ''date is outside the settlement period'')
      else Inr ())"

text \<open>Reading a field of the record; a record without it fails.\<close>

definition dec_field :: "payload \<Rightarrow> string \<Rightarrow> decimal result" where
  "dec_field p k = (case map_of p k of Some (JDec x) \<Rightarrow> Inr x | _ \<Rightarrow> Inl (ValueError k))"

definition date_field :: "payload \<Rightarrow> string \<Rightarrow> date result" where
  "date_field p k = (case map_of p k of Some (JDate x) \<Rightarrow> Inr x | _ \<Rightarrow> Inl (ValueError k))"

definition str_field :: "payload \<Rightarrow> string \<Rightarrow> string" where
  "str_field p k = (case map_of p k of Some (JStr x) \<Rightarrow> x | _ \<Rightarrow> [])"

definition add_calculation ::
  "env \<Rightarrow> uuid \<Rightarrow> uuid \<Rightarrow> uuid option \<Rightarrow> uuid \<Rightarrow> 'a settlement_db_scheme
     \<Rightarrow> (settlement_line \<times> 'a settlement_db_scheme) result" where
  "add_calculation e i calc tx actor db =
     andthen (get_settlement e db i) (\<lambda>s.
     andthen (require_open s) (\<lambda>_.
     andthen (verified_calculation s calc db) (\<lambda>ev.
     andthen (assert_calculation_unsettled s calc db) (\<lambda>_.
     andthen (case tx of None \<Rightarrow> Inr () | Some t \<Rightarrow> assert_transaction_unsettled s t db) (\<lambda>_.
     andthen (date_field (ev_payload ev) ''transaction_date'') (\<lambda>on.
     andthen (assert_line_date_settleable s on db) (\<lambda>_.
     andthen (andthen (dec_field (ev_payload ev) ''quantity'') (numeric 14 3)) (\<lambda>qty.
     andthen (andthen (dec_field (ev_payload ev) ''unit_price'') (numeric 12 4)) (\<lambda>price.
     andthen (andthen (dec_field (ev_payload ev) ''gross_amount'') (numeric 16 2)) (\<lambda>gross.
       let (k, db1) = new_id db;
           l = \<lparr>sl_id = k, sl_tenant = st_tenant s, sl_settlement = st_id s, sl_calculation = calc,
                sl_transaction = tx, sl_date = on, sl_quantity = qty,
                sl_unit = or_else (str_field (ev_payload ev) ''quantity_unit'')
                            (measured_unit (tenant_units e db (Some (st_tenant s)))),
                sl_price = price, sl_gross = gross, sl_trace = ev_id ev, sl_created_at = now e\<rparr>;
           s' = s\<lparr>st_status := SDraft\<rparr>
       in Inr (l, record_settlement e s' ''updated'' [(''line_added'', JId calc)] actor
                    (put_settlement s' (db1\<lparr>settlement_lines := settlement_lines db1 @ [l]\<rparr>)))))))))))))"

definition eligible_problems :: "settlement \<Rightarrow> milk_tx \<Rightarrow> string list" where
  "eligible_problems s tx =
     (if tx_state tx \<noteq> COMPLETED then [''transaction is not COMPLETED''] else [])
     @ (if tx_rejected_reason tx \<noteq> None then [''rejected milk is not payable''] else [])
     @ (if tx_calculation tx = None then [''transaction has no pricing calculation''] else [])
     @ (if tx_supplier tx \<noteq> Some (st_supplier s) then [''transaction belongs to a different supplier''] else [])
     @ (if tx_center tx \<noteq> st_center s then [''transaction belongs to a different center''] else [])"

definition eligible_transaction ::
  "settlement \<Rightarrow> uuid \<Rightarrow> 'a settlement_db_scheme \<Rightarrow> (uuid \<times> milk_tx) result" where
  "eligible_transaction s t db =
     (case row_get tx_id t (transactions db) of
        None \<Rightarrow> Inl (NotFoundError ''milk transaction not found'')
      | Some tx \<Rightarrow>
          if tx_tenant tx \<noteq> st_tenant s then Inl (NotFoundError ''milk transaction not found'')
          else if eligible_problems s tx \<noteq> [] then Inl (ConflictError (join_reasons (eligible_problems s tx)))
          else (case tx_calculation tx of
                  None \<Rightarrow> Inl (ConflictError (join_reasons (eligible_problems s tx)))
                | Some k \<Rightarrow> Inr (k, tx)))"

definition add_transaction ::
  "env \<Rightarrow> uuid \<Rightarrow> uuid \<Rightarrow> uuid \<Rightarrow> 'a settlement_db_scheme
     \<Rightarrow> (settlement_line \<times> 'a settlement_db_scheme) result" where
  "add_transaction e i t actor db =
     andthen (get_settlement e db i) (\<lambda>s.
     andthen (eligible_transaction s t db) (\<lambda>(k, tx).
     add_calculation e i k (Some (tx_id tx)) actor db))"

text \<open>The sweep. The upper bound is midnight after the period's last day, without a time zone, which
  the database reads as UTC.\<close>

definition sweep_until :: "settlement \<Rightarrow> datetime" where
  "sweep_until s = (st_to s + 1 - epoch_ordinal) * day_us"

definition sweep_candidates :: "settlement \<Rightarrow> 'a settlement_db_scheme \<Rightarrow> (uuid \<times> uuid) list" where
  "sweep_candidates s db =
     List.map_filter (\<lambda>tx. map_option (\<lambda>k. (k, tx_id tx)) (tx_calculation tx))
       (filter (\<lambda>tx. tx_tenant tx = st_tenant s \<and> tx_supplier tx = Some (st_supplier s)
            \<and> tx_center tx = st_center s \<and> tx_state tx = COMPLETED \<and> tx_rejected_reason tx = None
            \<and> tx_created_at tx < sweep_until s) (transactions db))"

fun sweep ::
  "env \<Rightarrow> uuid \<Rightarrow> uuid \<Rightarrow> (uuid \<times> uuid) list \<Rightarrow> nat \<times> nat \<Rightarrow> 'a settlement_db_scheme
     \<Rightarrow> ((nat \<times> nat) \<times> 'a settlement_db_scheme) result" where
  "sweep e i actor [] counts db = Inr (counts, db)"
| "sweep e i actor ((k, t) # rest) (added, skipped) db =
     (case add_calculation e i k (Some t) actor db of
        Inr (l, db') \<Rightarrow> sweep e i actor rest (added + 1, skipped) db'
      | Inl (ConflictError why) \<Rightarrow> sweep e i actor rest (added, skipped + 1) db
      | Inl err \<Rightarrow> Inl err)"

definition collect_period ::
  "env \<Rightarrow> uuid \<Rightarrow> uuid \<Rightarrow> 'a settlement_db_scheme \<Rightarrow> ((nat \<times> nat) \<times> 'a settlement_db_scheme) result" where
  "collect_period e i actor db =
     andthen (get_settlement e db i) (\<lambda>s.
     andthen (require_open s) (\<lambda>_.
     sweep e i actor (sweep_candidates s db) (0, 0) db))"

definition remove_line ::
  "env \<Rightarrow> uuid \<Rightarrow> uuid \<Rightarrow> uuid \<Rightarrow> 'a settlement_db_scheme \<Rightarrow> (unit \<times> 'a settlement_db_scheme) result" where
  "remove_line e i k actor db =
     andthen (get_settlement e db i) (\<lambda>s.
     andthen (require_open s) (\<lambda>_.
     case row_get sl_id k (settlement_lines db) of
       None \<Rightarrow> Inl (NotFoundError ''settlement line not found'')
     | Some l \<Rightarrow>
         if sl_settlement l \<noteq> st_id s then Inl (NotFoundError ''settlement line not found'')
         else
           let s' = s\<lparr>st_status := SDraft\<rparr>
           in Inr ((), record_settlement e s' ''updated'' [(''line_removed'', JId (sl_calculation l))] actor
                (put_settlement s' (db\<lparr>settlement_lines := row_delete sl_id (sl_id l) (settlement_lines db)\<rparr>)))))"

section \<open>Totals and the end of the life cycle\<close>

definition calculate_totals ::
  "env \<Rightarrow> uuid \<Rightarrow> uuid \<Rightarrow> 'a settlement_db_scheme \<Rightarrow> (settlement \<times> 'a settlement_db_scheme) result" where
  "calculate_totals e i actor db =
     andthen (get_settlement e db i) (\<lambda>s.
     andthen (require_open s) (\<lambda>_.
     andthen (sum_lines db s) (\<lambda>gross.
     andthen (std_money NO_ADJUSTMENTS (st_currency s)) (\<lambda>adj.
     andthen (money_plus gross adj) (\<lambda>net.
     andthen (numeric 16 2 (amount gross)) (\<lambda>g.
     andthen (numeric 16 2 (amount net)) (\<lambda>n.
       let s' = s\<lparr>st_gross := g, st_adjustments := amount adj, st_net := n, st_status := SCalculated\<rparr>
       in Inr (s', record_settlement e s' ''updated''
                 [(''totals_calculated'', JBool True), (''gross_amount'', JDec (st_gross s')),
                  (''net_amount'', JDec (st_net s'))] actor (put_settlement s' db)))))))))"

definition finalize_settlement ::
  "env \<Rightarrow> uuid \<Rightarrow> uuid \<Rightarrow> 'a settlement_db_scheme \<Rightarrow> (settlement \<times> 'a settlement_db_scheme) result" where
  "finalize_settlement e i actor db =
     andthen (get_settlement e db i) (\<lambda>s.
     if st_status s \<noteq> SCalculated then Inl (ConflictError ''only calculated settlements can be finalized'')
     else if line_count db (st_id s) = 0 then Inl (ConflictError ''cannot finalize a settlement with no lines'')
     else
       andthen (sum_lines db s) (\<lambda>gross.
       if amount gross \<noteq> st_gross s then Inl (ConflictError ''settlement totals no longer match the lines'')
       else
         andthen (assert_period_open db (st_tenant s) (st_to s)) (\<lambda>_.
           let s' = s\<lparr>st_status := SFinalized, st_finalized_at := Some (now e)\<rparr>;
               (quantity, unit) = sum_quantity db (st_id s)
           in Inr (s', record_settlement e s' ''finalized''
                     [(''gross_amount'', JDec (st_gross s')), (''net_amount'', JDec (st_net s')),
                      (''currency'', JStr (st_currency s')), (''line_count'', JInt (int (line_count db (st_id s)))),
                      (''quantity'', JDec quantity), (''quantity_unit'', JStr unit),
                      (''period_from'', JDate (st_from s')), (''period_to'', JDate (st_to s'))] actor
                     (put_settlement s' db)))))"

definition cancel_settlement ::
  "env \<Rightarrow> uuid \<Rightarrow> string \<Rightarrow> uuid \<Rightarrow> 'a settlement_db_scheme \<Rightarrow> (settlement \<times> 'a settlement_db_scheme) result" where
  "cancel_settlement e i reason actor db =
     andthen (get_settlement e db i) (\<lambda>s.
     andthen (require_open s) (\<lambda>_.
       let s' = s\<lparr>st_status := SCancelled, st_cancelled_at := Some (now e)\<rparr>
       in Inr (s', record_settlement e s' ''cancelled'' [(''reason'', JStr reason)] actor (put_settlement s' db))))"

end
