(* ===== verification/Payment.thy ===== *)
theory Payment
  imports Settlement "HOL-Library.List_Lexorder" "HOL-Library.Char_ord"
begin

text \<open>
  The payment service (\<open>modules/payment/\<close>): payments allocate the outstanding amounts of finalized
  settlements, run through execution attempts and end completed or cancelled.
\<close>

section \<open>Tables\<close>

datatype payment_status = PDraft | PPending | PProcessing | PCompleted | PFailed | PCancelled

fun payment_status_name :: "payment_status \<Rightarrow> string" where
  "payment_status_name PDraft = ''draft''"
| "payment_status_name PPending = ''pending''"
| "payment_status_name PProcessing = ''processing''"
| "payment_status_name PCompleted = ''completed''"
| "payment_status_name PFailed = ''failed''"
| "payment_status_name PCancelled = ''cancelled''"

definition LIVE_STATUSES :: "payment_status list" where
  "LIVE_STATUSES = [PDraft, PPending, PProcessing, PCompleted]"

definition PAYMENT_METHODS :: "string list" where
  "PAYMENT_METHODS = [''BANK_TRANSFER'', ''CASH'', ''CHEQUE'', ''MOBILE_MONEY'']"

datatype attempt_status = AProcessing | ACompleted | AFailed

record payment =
  py_id :: uuid
  py_tenant :: uuid
  py_supplier :: uuid
  py_number :: string
  py_currency :: string
  py_method :: string
  py_amount :: decimal
  py_reference :: "string option"
  py_details :: payload
  py_status :: payment_status
  py_key :: "string option"
  py_attempts :: nat
  py_failure :: "string option"
  py_note :: "string option"
  py_created_at :: datetime
  py_completed_at :: "datetime option"
  py_failed_at :: "datetime option"
  py_cancelled_at :: "datetime option"

record payment_line =
  pl_id :: uuid
  pl_tenant :: uuid
  pl_payment :: uuid
  pl_settlement :: uuid
  pl_number :: string
  pl_amount :: decimal
  pl_created_at :: datetime

record payment_attempt =
  pt_id :: uuid
  pt_tenant :: uuid
  pt_payment :: uuid
  pt_count :: nat
  pt_provider :: string
  pt_reference :: "string option"
  pt_status :: attempt_status
  pt_operator :: "uuid option"
  pt_failure :: "string option"
  pt_started_at :: datetime
  pt_completed_at :: "datetime option"

record payment_db = settlement_db +
  payments :: "payment list"
  payment_lines :: "payment_line list"
  payment_attempts :: "payment_attempt list"

definition PAYMENT_BUS_EVENTS :: "(string \<times> string) list" where
  "PAYMENT_BUS_EVENTS =
     [(''created'', ''payment.created.v1''), (''processing'', ''payment.processing.v1''),
      (''completed'', ''payment.completed.v1''), (''failed'', ''payment.failed.v1''),
      (''cancelled'', ''payment.cancelled.v1''), (''retry'', ''payment.retry.v1'')]"

definition CANCELLABLE_STATUSES :: "payment_status list" where
  "CANCELLABLE_STATUSES = [PDraft, PPending, PFailed]"

definition put_payment :: "payment \<Rightarrow> 'a payment_db_scheme \<Rightarrow> 'a payment_db_scheme" where
  "put_payment p db = db\<lparr>payments := row_update py_id (py_id p) (\<lambda>_. p) (payments db)\<rparr>"

section \<open>Commands\<close>

record allocation_input =
  al_settlement :: uuid
  al_amount :: "decimal option"

record create_payment_command =
  cp_supplier :: uuid
  cp_currency :: "string option"
  cp_method :: string
  cp_allocations :: "allocation_input list"
  cp_reference :: "string option"
  cp_details :: payload
  cp_note :: "string option"
  cp_key :: "string option"

definition CreatePaymentCommand ::
  "uuid \<Rightarrow> string option \<Rightarrow> string \<Rightarrow> allocation_input list \<Rightarrow> string option \<Rightarrow> payload \<Rightarrow> string option
     \<Rightarrow> string option \<Rightarrow> create_payment_command result" where
  "CreatePaymentCommand supp cur meth als ref details note key =
     andthen
       (case cur of
          None \<Rightarrow> Inr None
        | Some c \<Rightarrow>
            if length c \<noteq> 3 then Inl (ValueError ''currency length'')
            else if \<not> str_isalpha c then Inl (ValueError ''currency must be a 3-letter ISO 4217 code'')
            else Inr (Some (str_upper c)))
       (\<lambda>cur'.
        if str_upper meth \<notin> set PAYMENT_METHODS then Inl (ValueError ''unknown method'')
        else if als = [] then Inl (ValueError ''allocations'')
        else if 80 < length (opt_str key) then Inl (ValueError ''idempotency_key'')
        else Inr \<lparr>cp_supplier = supp, cp_currency = cur', cp_method = str_upper meth, cp_allocations = als,
                  cp_reference = ref, cp_details = details, cp_note = note, cp_key = key\<rparr>)"

record execute_payment_command =
  ep_provider :: "string option"
  ep_reference :: "string option"

section \<open>Helpers\<close>

definition get_payment :: "env \<Rightarrow> 'a payment_db_scheme \<Rightarrow> uuid \<Rightarrow> payment result" where
  "get_payment e db i =
     andthen (require_current_tenant e) (\<lambda>tenant.
       case row_get py_id i (payments db) of
         None \<Rightarrow> Inl (NotFoundError ''payment not found'')
       | Some p \<Rightarrow> if py_tenant p \<noteq> tenant then Inl (NotFoundError ''payment not found'') else Inr p)"

definition audit_payment ::
  "env \<Rightarrow> payment \<Rightarrow> string \<Rightarrow> payload \<Rightarrow> uuid \<Rightarrow> 'a payment_db_scheme \<Rightarrow> 'a payment_db_scheme" where
  "audit_payment e p action data actor db =
     audit e (''payment.'' @ action) ''payment'' (py_id p) (Some actor) ((''number'', JStr (py_number p)) # data) db"

definition record_payment ::
  "env \<Rightarrow> payment \<Rightarrow> string \<Rightarrow> payload \<Rightarrow> uuid \<Rightarrow> 'a payment_db_scheme \<Rightarrow> 'a payment_db_scheme" where
  "record_payment e p event data actor db =
     publish e (bus_name PAYMENT_BUS_EVENTS event)
       ([(''payment_id'', JId (py_id p)), (''payment_number'', JStr (py_number p)),
         (''supplier_id'', JId (py_supplier p)), (''status'', JStr (payment_status_name (py_status p)))] @ data)
       (Some actor) (Some ''payment'') (Some (py_id p))
       (audit_payment e p event data actor db)"

text \<open>\<open>_lines\<close>: in the order they were added, then by settlement number.\<close>

definition payment_lines_of :: "'a payment_db_scheme \<Rightarrow> uuid \<Rightarrow> payment_line list" where
  "payment_lines_of db i =
     sort_key pl_created_at (sort_key pl_number (filter (\<lambda>l. pl_payment l = i) (payment_lines db)))"

section \<open>What is already claimed\<close>

text \<open>
  The query groups the live lines by settlement and payment status and adds each group in the
  database, exactly; the groups are added in Python.
\<close>

definition claim_group :: "uuid \<Rightarrow> 'a payment_db_scheme \<Rightarrow> uuid \<Rightarrow> payment_status \<Rightarrow> payment_line list" where
  "claim_group tenant db i st =
     filter (\<lambda>l. pl_tenant l = tenant \<and> pl_settlement l = i \<and>
                 list_ex (\<lambda>p. py_id p = pl_payment l \<and> py_tenant p = tenant \<and> py_status p = st) (payments db))
       (payment_lines db)"

definition group_sums :: "uuid \<Rightarrow> 'a payment_db_scheme \<Rightarrow> uuid \<Rightarrow> payment_status list \<Rightarrow> decimal list" where
  "group_sums tenant db i sts =
     map (\<lambda>st. sum_list (map pl_amount (claim_group tenant db i st)))
       (filter (\<lambda>st. claim_group tenant db i st \<noteq> []) sts)"

definition allocations_for :: "uuid \<Rightarrow> 'a payment_db_scheme \<Rightarrow> uuid \<Rightarrow> decimal \<times> decimal" where
  "allocations_for tenant db i =
     (dec_sum 0 (group_sums tenant db i LIVE_STATUSES), dec_sum 0 (group_sums tenant db i [PCompleted]))"

definition outstanding_of :: "settlement \<Rightarrow> decimal \<Rightarrow> decimal result" where
  "outstanding_of s allocated =
     andthen (std_money (st_net s) (st_currency s)) (\<lambda>payable.
     andthen (std_money allocated (st_currency s)) (\<lambda>claimed.
     andthen (money_minus payable claimed) (\<lambda>rest. Inr (amount rest))))"

record balance_view =
  bv_settlement :: uuid
  bv_number :: string
  bv_supplier :: uuid
  bv_currency :: string
  bv_payable :: decimal
  bv_allocated :: decimal
  bv_paid :: decimal
  bv_outstanding :: decimal
  bv_fully_paid :: bool

definition balance_of :: "env \<Rightarrow> uuid \<Rightarrow> 'a payment_db_scheme \<Rightarrow> balance_view result" where
  "balance_of e i db =
     andthen (require_current_tenant e) (\<lambda>tenant.
     andthen (need (NotFoundError ''settlement not found'') (row_get st_id i (settlements db))) (\<lambda>s.
     if st_tenant s \<noteq> tenant then Inl (NotFoundError ''settlement not found'')
     else
       let (allocated, paid) = allocations_for tenant db (st_id s) in
       andthen (outstanding_of s allocated) (\<lambda>rest.
       Inr \<lparr>bv_settlement = st_id s, bv_number = st_number s, bv_supplier = st_supplier s,
            bv_currency = st_currency s, bv_payable = st_net s, bv_allocated = allocated, bv_paid = paid,
            bv_outstanding = rest, bv_fully_paid = (rest \<le> 0)\<rparr>)))"

section \<open>Creating a payment\<close>

definition payable_settlement ::
  "uuid \<Rightarrow> uuid \<Rightarrow> uuid \<Rightarrow> string \<Rightarrow> 'a payment_db_scheme \<Rightarrow> settlement result" where
  "payable_settlement i tenant supp cur db =
     andthen (need (NotFoundError ''settlement not found'') (row_get st_id i (settlements db))) (\<lambda>s.
     if st_tenant s \<noteq> tenant then Inl (NotFoundError ''settlement not found'')
     else if st_status s \<noteq> SFinalized then Inl (ConflictError ''only finalized settlements can be paid'')
     else if st_supplier s \<noteq> supp then Inl (ConflictError ''settlement belongs to a different supplier'')
     else if cur = [] then Inl (ValidationError ''a payment needs a currency and this organization has none'')
     else if st_currency s \<noteq> cur then Inl (ConflictError ''currency conversion is not a payment operation'')
     else Inr s)"

definition resolve_allocation ::
  "uuid \<Rightarrow> settlement \<Rightarrow> decimal option \<Rightarrow> 'a payment_db_scheme \<Rightarrow> decimal result" where
  "resolve_allocation tenant s requested db =
     andthen (outstanding_of s (fst (allocations_for tenant db (st_id s)))) (\<lambda>rest.
     if rest \<le> 0 then Inl (ConflictError ''settlement is already fully paid or allocated'')
     else case requested of
         None \<Rightarrow> Inr rest
       | Some r \<Rightarrow>
           andthen (quantize_money r (Some (st_currency s))) (\<lambda>x.
           if x \<le> 0 then Inl (ConflictError ''an allocation must be a positive amount'')
           else if rest < x then Inl (ConflictError ''allocation exceeds the outstanding amount'')
           else Inr x))"

fun resolve_allocations ::
  "uuid \<Rightarrow> uuid \<Rightarrow> string \<Rightarrow> 'a payment_db_scheme \<Rightarrow> uuid list \<Rightarrow> money \<Rightarrow> allocation_input list
     \<Rightarrow> ((settlement \<times> decimal) list \<times> money) result" where
  "resolve_allocations tenant supp cur db seen acc [] = Inr ([], acc)"
| "resolve_allocations tenant supp cur db seen acc (a # as) =
     (if al_settlement a \<in> set seen then Inl (ConflictError ''the same settlement appears twice in one payment'')
      else
        andthen (payable_settlement (al_settlement a) tenant supp cur db) (\<lambda>s.
        andthen (resolve_allocation tenant s (al_amount a) db) (\<lambda>x.
        andthen (std_money x cur) (\<lambda>m.
        andthen (money_plus acc m) (\<lambda>acc'.
        andthen (resolve_allocations tenant supp cur db (al_settlement a # seen) acc' as) (\<lambda>(rest, all).
        Inr ((s, x) # rest, all)))))))"

fun add_payment_lines ::
  "env \<Rightarrow> payment \<Rightarrow> (settlement \<times> decimal) list \<Rightarrow> 'a payment_db_scheme \<Rightarrow> 'a payment_db_scheme result" where
  "add_payment_lines e p [] db = Inr db"
| "add_payment_lines e p ((s, x) # rest) db =
     andthen (numeric 16 2 x) (\<lambda>y.
       let (i, db1) = new_id db;
           l = \<lparr>pl_id = i, pl_tenant = py_tenant p, pl_payment = py_id p, pl_settlement = st_id s,
                pl_number = st_number s, pl_amount = y, pl_created_at = now e\<rparr>
       in add_payment_lines e p rest (db1\<lparr>payment_lines := payment_lines db1 @ [l]\<rparr>))"

definition existing_payment :: "uuid \<Rightarrow> string option \<Rightarrow> 'a payment_db_scheme \<Rightarrow> payment option" where
  "existing_payment tenant key db =
     (if opt_str key = [] then None else find (\<lambda>p. py_tenant p = tenant \<and> py_key p = key) (payments db))"

text \<open>The second half of \<open>create\<close>: the row, its lines and the record.\<close>

definition file_payment ::
  "env \<Rightarrow> create_payment_command \<Rightarrow> uuid \<Rightarrow> uuid \<Rightarrow> string \<Rightarrow> (settlement \<times> decimal) list \<Rightarrow> money
     \<Rightarrow> 'a payment_db_scheme \<Rightarrow> (payment \<times> 'a payment_db_scheme) result" where
  "file_payment e cmd actor tenant cur resolved all db =
     (let (number, db1) = next_document_number e tenant ''payment'' ''PAY'' db;
          (i, db2) = new_id db1 in
      andthen (numeric 16 2 (amount all)) (\<lambda>x.
      andthen (column_opt 120 (cp_reference cmd)) (\<lambda>ref.
      let p = \<lparr>py_id = i, py_tenant = tenant, py_supplier = cp_supplier cmd, py_number = number,
               py_currency = cur, py_method = cp_method cmd, py_amount = x,
               py_reference = ref, py_details = cp_details cmd, py_status = PDraft,
               py_key = cp_key cmd, py_attempts = 0, py_failure = None, py_note = cp_note cmd,
               py_created_at = now e, py_completed_at = None, py_failed_at = None,
               py_cancelled_at = None\<rparr> in
      if x \<le> 0 then Inl (IntegrityError ''ck_payment_amount_positive'')
      else if cp_key cmd \<noteq> None
          \<and> list_ex (\<lambda>q. py_tenant q = tenant \<and> py_key q = cp_key cmd) (payments db)
        then Inl (IntegrityError ''uq_payment_idempotency'')
      else
        andthen (add_payment_lines e p resolved (db2\<lparr>payments := payments db2 @ [p]\<rparr>)) (\<lambda>db3.
        Inr (p, record_payment e p ''created''
          [(''amount'', JDec (py_amount p)), (''line_count'', JInt (int (length resolved)))] actor db3)))))"

definition create_payment ::
  "env \<Rightarrow> create_payment_command \<Rightarrow> uuid \<Rightarrow> 'a payment_db_scheme \<Rightarrow> (payment \<times> 'a payment_db_scheme) result" where
  "create_payment e cmd actor db =
     andthen (require_current_tenant e) (\<lambda>tenant.
     case existing_payment tenant (cp_key cmd) db of
       Some p \<Rightarrow> Inr (p, db)
     | None \<Rightarrow>
         andthen (assert_period_open db tenant (business_today e (tenant_timezone e db (Some tenant)))) (\<lambda>_.
         andthen (need (NotFoundError ''supplier not found'') (row_get sup_id (cp_supplier cmd) (suppliers db))) (\<lambda>sp.
         if sup_tenant sp \<noteq> tenant then Inl (NotFoundError ''supplier not found'')
         else
           andthen (case cp_currency cmd of
                      Some c \<Rightarrow> if c = [] then tenant_currency e db None else Inr c
                    | None \<Rightarrow> tenant_currency e db None) (\<lambda>cur.
           andthen (std_money 0 cur) (\<lambda>zero.
           andthen (resolve_allocations tenant (cp_supplier cmd) cur db [] zero
                      (sort_key al_settlement (cp_allocations cmd))) (\<lambda>(resolved, all).
           if amount all \<le> 0 then Inl (ConflictError ''a payment must move a positive amount'')
           else file_payment e cmd actor tenant cur resolved all db))))))"

section \<open>The life cycle\<close>

text \<open>\<open>_transition\<close> is a compare-and-set on the status.\<close>

definition pay_transition ::
  "payment \<Rightarrow> payment_status list \<Rightarrow> payment_status \<Rightarrow> payment result" where
  "pay_transition p expected to =
     (if py_status p = PCompleted then Inl (ConflictError ''completed payments are immutable'')
      else if py_status p = PCancelled then Inl (ConflictError ''cancelled payments are terminal'')
      else if py_status p \<notin> set expected then Inl (ConflictError ''unexpected payment status'')
      else Inr (p\<lparr>py_status := to\<rparr>))"

definition submit_payment ::
  "env \<Rightarrow> uuid \<Rightarrow> uuid \<Rightarrow> 'a payment_db_scheme \<Rightarrow> (payment \<times> 'a payment_db_scheme) result" where
  "submit_payment e i actor db =
     andthen (get_payment e db i) (\<lambda>p.
     andthen (pay_transition p [PDraft] PPending) (\<lambda>p'.
     Inr (p', audit_payment e p' ''submitted'' [(''amount'', JDec (py_amount p'))] actor (put_payment p' db))))"

text \<open>
  \<open>_open_attempt\<close>: the command bounds neither text, so the columns of the attempt refuse what is too
  long. The payment's own reference has the length of the attempt's.
\<close>

definition open_attempt ::
  "env \<Rightarrow> payment \<Rightarrow> execute_payment_command \<Rightarrow> uuid \<Rightarrow> uuid \<Rightarrow> payment_attempt result" where
  "open_attempt e p cmd actor i =
     andthen (column_text 40 (str_upper (or_else (opt_str (ep_provider cmd)) (py_method p)))) (\<lambda>provider.
     andthen (column_opt 120 (ep_reference cmd)) (\<lambda>ref.
     Inr \<lparr>pt_id = i, pt_tenant = py_tenant p, pt_payment = py_id p, pt_count = py_attempts p + 1,
      pt_provider = provider, pt_reference = ref, pt_status = AProcessing, pt_operator = Some actor,
      pt_failure = None, pt_started_at = now e, pt_completed_at = None\<rparr>))"

definition execute_payment ::
  "env \<Rightarrow> uuid \<Rightarrow> execute_payment_command \<Rightarrow> uuid \<Rightarrow> 'a payment_db_scheme
     \<Rightarrow> (payment \<times> 'a payment_db_scheme) result" where
  "execute_payment e i cmd actor db =
     andthen (get_payment e db i) (\<lambda>p.
     andthen (pay_transition p [PPending, PFailed] PProcessing) (\<lambda>p1.
     let (k, db1) = new_id db in
     andthen (open_attempt e p1 cmd actor k) (\<lambda>t.
       let p' = p1\<lparr>py_failure := None, py_attempts := pt_count t,
                   py_reference := (if opt_str (ep_reference cmd) = [] then py_reference p1 else ep_reference cmd)\<rparr>;
           db2 = record_payment e p' ''processing''
                   [(''attempt_number'', JInt (int (pt_count t))), (''provider'', JStr (pt_provider t))] actor
                   (put_payment p' (db1\<lparr>payment_attempts := payment_attempts db1 @ [t]\<rparr>))
       in Inr (p', if py_status p = PFailed
                   then record_payment e p' ''retry'' [(''attempt_number'', JInt (int (pt_count t)))] actor db2
                   else db2))))"

definition retry_payment ::
  "env \<Rightarrow> uuid \<Rightarrow> execute_payment_command \<Rightarrow> uuid \<Rightarrow> 'a payment_db_scheme
     \<Rightarrow> (payment \<times> 'a payment_db_scheme) result" where
  "retry_payment e i cmd actor db =
     andthen (get_payment e db i) (\<lambda>p.
     if py_status p \<noteq> PFailed then Inl (ConflictError ''only a failed payment can be retried'')
     else execute_payment e i cmd actor db)"

text \<open>\<open>_close_attempt\<close> closes the latest attempt still in processing, if there is one.\<close>

definition latest_open_attempt :: "uuid \<Rightarrow> 'a payment_db_scheme \<Rightarrow> payment_attempt option" where
  "latest_open_attempt i db =
     (case rev (sort_key pt_count (filter (\<lambda>t. pt_payment t = i \<and> pt_status t = AProcessing) (payment_attempts db))) of
        [] \<Rightarrow> None | t # ts \<Rightarrow> Some t)"

definition close_attempt ::
  "env \<Rightarrow> payment \<Rightarrow> attempt_status \<Rightarrow> string option \<Rightarrow> string option \<Rightarrow> 'a payment_db_scheme
     \<Rightarrow> 'a payment_db_scheme" where
  "close_attempt e p st ref reason db =
     (case latest_open_attempt (py_id p) db of
        None \<Rightarrow> db
      | Some t \<Rightarrow>
          db\<lparr>payment_attempts := row_update pt_id (pt_id t)
               (\<lambda>_. t\<lparr>pt_status := st, pt_completed_at := Some (now e),
                      pt_reference := (if opt_str ref = [] then pt_reference t else ref),
                      pt_failure := (if opt_str reason = [] then pt_failure t else reason)\<rparr>)
               (payment_attempts db)\<rparr>)"

section \<open>What a receipt is built from\<close>

definition settlement_volume :: "uuid \<Rightarrow> uuid \<Rightarrow> string \<Rightarrow> 'a payment_db_scheme \<Rightarrow> decimal \<times> decimal \<times> string" where
  "settlement_volume tenant i org_unit db =
     (case filter (\<lambda>l. sl_tenant l = tenant \<and> sl_settlement l = i) (settlement_lines db) of
        [] \<Rightarrow> (0, 0, [])
      | l # ls \<Rightarrow> (sum_list (map sl_quantity (l # ls)), sum_list (map sl_gross (l # ls)),
                  or_else (fold (\<lambda>l' u. min u (sl_unit l')) ls (sl_unit l)) org_unit))"

definition receipt_line ::
  "uuid \<Rightarrow> string \<Rightarrow> 'a payment_db_scheme \<Rightarrow> payment_line \<Rightarrow> payload result" where
  "receipt_line tenant org_unit db l =
     (let s = row_get st_id (pl_settlement l) (settlements db);
          (qty, gross, unit) = settlement_volume tenant (pl_settlement l) org_unit db in
      andthen (if 0 < qty
               then andthen (dec_div gross qty) (\<lambda>r. andthen (quantize ROUND_HALF_EVEN 4 r) (\<lambda>r'. Inr (Some r')))
               else Inr None) (\<lambda>rate.
      Inr [(''settlement_id'', JId (pl_settlement l)), (''settlement_number'', JStr (pl_number l)),
           (''center_id'', json_opt (\<lambda>s. JId (st_center s)) s),
           (''center_name'', JStr (case s of None \<Rightarrow> []
              | Some s \<Rightarrow> (case row_get cc_id (st_center s) (centers db) of None \<Rightarrow> [] | Some c \<Rightarrow> cc_name c))),
           (''quantity'', if qty = 0 then JNull else JDec qty), (''quantity_unit'', JStr unit),
           (''average_rate'', json_opt JDec rate),
           (''gross_amount'', JDec (case s of None \<Rightarrow> 0 | Some s \<Rightarrow> st_gross s)),
           (''adjustments_amount'', JDec (case s of None \<Rightarrow> 0 | Some s \<Rightarrow> st_adjustments s)),
           (''net_amount'', JDec (case s of None \<Rightarrow> 0 | Some s \<Rightarrow> st_net s)),
           (''amount_paid'', JDec (pl_amount l)),
           (''period_from'', json_opt (\<lambda>s. JDate (st_from s)) s),
           (''period_to'', json_opt (\<lambda>s. JDate (st_to s)) s)]))"

fun receipt_lines ::
  "uuid \<Rightarrow> string \<Rightarrow> 'a payment_db_scheme \<Rightarrow> payment_line list \<Rightarrow> json list result" where
  "receipt_lines tenant org_unit db [] = Inr []"
| "receipt_lines tenant org_unit db (l # ls) =
     andthen (receipt_line tenant org_unit db l) (\<lambda>x.
     andthen (receipt_lines tenant org_unit db ls) (\<lambda>xs. Inr (JObj x # xs)))"

definition receipt_facts :: "env \<Rightarrow> payment \<Rightarrow> payment_line list \<Rightarrow> 'a payment_db_scheme \<Rightarrow> payload result" where
  "receipt_facts e p ls db =
     andthen (receipt_lines (py_tenant p) (measured_unit (tenant_units e db (Some (py_tenant p)))) db ls) (\<lambda>detail.
     Inr [(''organization_name'', JStr (case get_org db (py_tenant p) of None \<Rightarrow> [] | Some org \<Rightarrow> org_name org)),
          (''supplier_name'', JStr (case find (\<lambda>sp. sp_supplier sp = py_supplier p) (supplier_profiles db) of
             None \<Rightarrow> [] | Some sp \<Rightarrow> sp_full_name sp)),
          (''supplier_code'', JStr (case row_get sup_id (py_supplier p) (suppliers db) of
             None \<Rightarrow> [] | Some sp \<Rightarrow> sup_code sp)),
          (''lines'', JList detail)])"

definition complete_payment ::
  "env \<Rightarrow> uuid \<Rightarrow> string option \<Rightarrow> uuid \<Rightarrow> 'a payment_db_scheme \<Rightarrow> (payment \<times> 'a payment_db_scheme) result" where
  "complete_payment e i ref actor db =
     andthen (get_payment e db i) (\<lambda>p.
     andthen (pay_transition p [PProcessing] PCompleted) (\<lambda>p1.
     andthen (if opt_str ref = [] then Inr (py_reference p1) else column_opt 120 ref) (\<lambda>reference.
       let p' = p1\<lparr>py_completed_at := Some (now e), py_reference := reference\<rparr>;
           db1 = close_attempt e p' ACompleted ref None (put_payment p' db);
           ls = payment_lines_of db1 (py_id p') in
       andthen (receipt_facts e p' ls db1) (\<lambda>facts.
       Inr (p', record_payment e p' ''completed''
         ([(''amount'', JDec (py_amount p')), (''currency'', JStr (py_currency p')),
           (''reference'', JStr (opt_str (py_reference p'))), (''method'', JStr (py_method p')),
           (''paid_at'', JTime (now e)),
           (''settlement_number'', JStr (case ls of [l] \<Rightarrow> pl_number l | _ \<Rightarrow> py_number p')),
           (''settlement_ids'', JList (map (\<lambda>l. JId (pl_settlement l)) ls))] @ facts) actor db1)))))"

definition FailPaymentCommand :: "string \<Rightarrow> string result" where
  "FailPaymentCommand reason = (if reason = [] then Inl (ValueError ''reason'') else Inr reason)"

definition fail_payment ::
  "env \<Rightarrow> uuid \<Rightarrow> string \<Rightarrow> uuid \<Rightarrow> 'a payment_db_scheme \<Rightarrow> (payment \<times> 'a payment_db_scheme) result" where
  "fail_payment e i reason actor db =
     andthen (get_payment e db i) (\<lambda>p.
     andthen (pay_transition p [PProcessing] PFailed) (\<lambda>p1.
       let p' = p1\<lparr>py_failed_at := Some (now e), py_failure := Some reason\<rparr>
       in Inr (p', record_payment e p' ''failed'' [(''reason'', JStr reason)] actor
                     (close_attempt e p' AFailed None (Some reason) (put_payment p' db)))))"

definition CancelPaymentCommand :: "string \<Rightarrow> string result" where
  "CancelPaymentCommand reason = (if reason = [] then Inl (ValueError ''reason'') else Inr reason)"

definition cancel_payment ::
  "env \<Rightarrow> uuid \<Rightarrow> string \<Rightarrow> uuid \<Rightarrow> 'a payment_db_scheme \<Rightarrow> (payment \<times> 'a payment_db_scheme) result" where
  "cancel_payment e i reason actor db =
     andthen (get_payment e db i) (\<lambda>p.
     if py_status p = PProcessing then Inl (ConflictError ''a processing payment cannot be cancelled'')
     else
       andthen (pay_transition p CANCELLABLE_STATUSES PCancelled) (\<lambda>p1.
         let p' = p1\<lparr>py_cancelled_at := Some (now e)\<rparr>
         in Inr (p', record_payment e p' ''cancelled'' [(''reason'', JStr reason)] actor (put_payment p' db))))"

end
