(* ===== verification/SettlementSteps.thy ===== *)
theory SettlementSteps
  imports Settlement
begin

text \<open>
  The settlement module as a transition system: what its tables keep in every reachable state
  (BR-0008 to BR-0012 and BR-0027), and how a settlement may change along a run.
\<close>

section \<open>The life cycle\<close>

definition st_edge :: "settlement_status \<Rightarrow> settlement_status \<Rightarrow> bool" where
  "st_edge s t \<longleftrightarrow> s \<in> set OPEN_STATUSES \<and> (t = SFinalized \<longrightarrow> s = SCalculated)"

definition st_final :: "settlement_status \<Rightarrow> bool" where
  "st_final s \<longleftrightarrow> s \<notin> set OPEN_STATUSES"

interpretation settlement_life: lifecycle st_edge st_final
  by unfold_locales (simp add: st_edge_def st_final_def)

lemma st_final_iff: "st_final s \<longleftrightarrow> s = SFinalized \<or> s = SCancelled"
  by (cases s) (simp_all add: st_final_def OPEN_STATUSES_def)

lemma require_open_Inr [result_simps]: "require_open s = Inr u \<longleftrightarrow> \<not> st_final (st_status s)"
  by (auto simp: require_open_def st_final_iff)

definition st_home where
  "st_home s = (st_id s, st_tenant s, st_supplier s, st_center s, st_number s, st_from s, st_to s,
     st_currency s, st_created_at s)"

lemma st_home_eq: "st_home s' = st_home s \<longleftrightarrow> st_id s' = st_id s \<and> st_tenant s' = st_tenant s
    \<and> st_supplier s' = st_supplier s \<and> st_center s' = st_center s \<and> st_number s' = st_number s
    \<and> st_from s' = st_from s \<and> st_to s' = st_to s \<and> st_currency s' = st_currency s
    \<and> st_created_at s' = st_created_at s"
  by (auto simp: st_home_def)

section \<open>The invariant\<close>

text \<open>BR-0009: the periods of a supplier's settlements do not overlap, unless one is cancelled.\<close>

definition settlements_ok :: "uuid \<Rightarrow> settlement list \<Rightarrow> bool" where
  "settlements_ok n ss \<longleftrightarrow> unique_keys st_id ss \<and> (\<forall>s \<in> set ss. st_id s < n)
     \<and> (\<forall>s \<in> set ss. \<forall>s' \<in> set ss. st_tenant s = st_tenant s' \<longrightarrow> st_supplier s = st_supplier s'
          \<longrightarrow> st_status s \<noteq> SCancelled \<longrightarrow> st_status s' \<noteq> SCancelled
          \<longrightarrow> periods_overlap (st_from s) (st_to s) (st_from s') (st_to s') \<longrightarrow> st_id s = st_id s')"

text \<open>BR-0027: a line lies in its settlement's period, or before it in a period already closed.\<close>

definition settleable :: "settlement list \<Rightarrow> settlement \<Rightarrow> date \<Rightarrow> bool" where
  "settleable ss s on \<longleftrightarrow> on \<le> st_to s \<and>
     (st_from s \<le> on \<or> (\<exists>f \<in> set ss. st_tenant f = st_tenant s \<and> st_supplier f = st_supplier s
        \<and> st_status f = SFinalized \<and> st_from f \<le> on \<and> on \<le> st_to f))"

definition lines_ok :: "uuid \<Rightarrow> settlement list \<Rightarrow> settlement_line list \<Rightarrow> bool" where
  "lines_ok n ss ls \<longleftrightarrow> unique_keys sl_id ls \<and> (\<forall>l \<in> set ls. sl_id l < n \<and>
     (\<exists>s \<in> set ss. st_id s = sl_settlement l \<and> st_tenant s = sl_tenant l \<and> settleable ss s (sl_date l)))"

text \<open>BR-0008, BR-0012: a calculation or a transaction is on at most one standing line.\<close>

definition standing :: "settlement list \<Rightarrow> settlement_line \<Rightarrow> bool" where
  "standing ss l \<longleftrightarrow> (\<exists>s \<in> set ss. st_id s = sl_settlement l \<and> st_status s \<noteq> SCancelled)"

definition same_milk :: "settlement_line \<Rightarrow> settlement_line \<Rightarrow> bool" where
  "same_milk l l' \<longleftrightarrow> sl_tenant l = sl_tenant l' \<and>
     (sl_calculation l = sl_calculation l' \<or> (sl_transaction l \<noteq> None \<and> sl_transaction l = sl_transaction l'))"

definition paid_once :: "settlement list \<Rightarrow> settlement_line list \<Rightarrow> bool" where
  "paid_once ss ls \<longleftrightarrow> (\<forall>l \<in> set ls. \<forall>l' \<in> set ls. standing ss l \<longrightarrow> standing ss l' \<longrightarrow> same_milk l l'
     \<longrightarrow> sl_id l = sl_id l')"

text \<open>BR-0011: calculated totals are the sum of the lines; a finalized settlement has lines.\<close>

definition totalled :: "settlement_line list \<Rightarrow> settlement \<Rightarrow> bool" where
  "totalled ls s \<longleftrightarrow>
     (\<exists>m. add_up \<lparr>amount = 0, currency = str_upper (st_currency s), precision = 2,
             rounding_policy = ROUNDING_POLICY_UNSPECIFIED\<rparr> (st_currency s)
             (map sl_gross (sort_key sl_date (sort_key sl_created_at (filter (\<lambda>l. sl_settlement l = st_id s) ls)))) = Inr m
        \<and> numeric 16 2 (amount m) = Inr (st_gross s) \<and> st_adjustments s = 0
        \<and> numeric 16 2 (dec_add (amount m) 0) = Inr (st_net s)
        \<and> (st_status s = SFinalized \<longrightarrow> amount m = st_gross s))"

definition totals_ok :: "settlement list \<Rightarrow> settlement_line list \<Rightarrow> bool" where
  "totals_ok ss ls \<longleftrightarrow> (\<forall>s \<in> set ss.
     (st_status s \<in> {SCalculated, SFinalized} \<longrightarrow> totalled ls s)
     \<and> (st_status s = SFinalized \<longrightarrow> st_finalized_at s \<noteq> None \<and> (\<exists>l \<in> set ls. sl_settlement l = st_id s)))"

text \<open>Every line is a copy of the record of its calculation.\<close>

definition copied :: "outbox_event \<Rightarrow> settlement_line \<Rightarrow> bool" where
  "copied ev l \<longleftrightarrow> ev_id ev = sl_trace l
     \<and> map_of (ev_payload ev) ''transaction_date'' = Some (JDate (sl_date l))
     \<and> (\<exists>q. map_of (ev_payload ev) ''quantity'' = Some (JDec q) \<and> numeric 14 3 q = Inr (sl_quantity l))
     \<and> (\<exists>p. map_of (ev_payload ev) ''unit_price'' = Some (JDec p) \<and> numeric 12 4 p = Inr (sl_price l))
     \<and> (\<exists>g. map_of (ev_payload ev) ''gross_amount'' = Some (JDec g) \<and> numeric 16 2 g = Inr (sl_gross l))"

definition traced :: "settlement list \<Rightarrow> settlement_line list \<Rightarrow> outbox_event list \<Rightarrow> bool" where
  "traced ss ls evs \<longleftrightarrow> (\<forall>l \<in> set ls. \<exists>ev.
     look_event evs (Some ''pricing_calculation'', Some (sl_calculation l), Some (sl_tenant l)) = Some ev
     \<and> copied ev l
     \<and> (\<exists>s \<in> set ss. st_id s = sl_settlement l \<and> map_of (ev_payload ev) ''currency'' = Some (JStr (st_currency s))))"

definition settlement_numbers :: "doc_sequence list \<Rightarrow> settlement list \<Rightarrow> bool" where
  "settlement_numbers qs ss \<longleftrightarrow> numbers_ok ''settlement'' ''STL'' st_id st_tenant (\<lambda>s. Some (st_number s)) qs ss"

definition settlement_inv :: "'a settlement_db_scheme \<Rightarrow> bool" where
  "settlement_inv db \<longleftrightarrow> settlements_ok (next_id db) (settlements db)
     \<and> lines_ok (next_id db) (settlements db) (settlement_lines db)
     \<and> paid_once (settlements db) (settlement_lines db)
     \<and> totals_ok (settlements db) (settlement_lines db)
     \<and> traced (settlements db) (settlement_lines db) (outbox db)
     \<and> settlement_numbers (sequences db) (settlements db)"

lemma settlement_invD:
  assumes "settlement_inv db"
  shows "settlements_ok (next_id db) (settlements db)" "lines_ok (next_id db) (settlements db) (settlement_lines db)"
    "paid_once (settlements db) (settlement_lines db)" "totals_ok (settlements db) (settlement_lines db)"
    "traced (settlements db) (settlement_lines db) (outbox db)" "settlement_numbers (sequences db) (settlements db)"
    "unique_keys st_id (settlements db)" "unique_keys sl_id (settlement_lines db)"
  using assms by (simp_all add: settlement_inv_def settlements_ok_def lines_ok_def)

section \<open>Frames\<close>

lemma record_settlement_tables [simp]:
  "settlements (record_settlement e s n d a db) = settlements db"
  "settlement_lines (record_settlement e s n d a db) = settlement_lines db"
  "sequences (record_settlement e s n d a db) = sequences db"
  "transactions (record_settlement e s n d a db) = transactions db"
  "next_id (record_settlement e s n d a db) = Suc (next_id db)"
  by (simp_all add: record_settlement_def publish_def audit_def audit_of_def new_id_eq Let_def)

lemma record_settlement_outbox:
  "\<exists>ev. outbox (record_settlement e s n d a db) = outbox db @ [ev] \<and> ev_aggregate_type ev = Some ''settlement''"
  by (simp add: record_settlement_def outbox_publish audit_def audit_of_def)

lemma put_settlement_tables [simp]:
  "settlements (put_settlement s db) = row_update st_id (st_id s) (\<lambda>_. s) (settlements db)"
  "settlement_lines (put_settlement s db) = settlement_lines db"
  "sequences (put_settlement s db) = sequences db" "transactions (put_settlement s db) = transactions db"
  "next_id (put_settlement s db) = next_id db" "outbox (put_settlement s db) = outbox db"
  by (simp_all add: put_settlement_def)

lemma get_settlement_InrD:
  "get_settlement e db i = Inr s \<Longrightarrow>
     s \<in> set (settlements db) \<and> st_id s = i \<and> current_tenant e = Some (st_tenant s)"
  by (auto simp: get_settlement_def result_simps require_current_tenant_def dest: row_get_SomeD
      split: option.splits if_splits)

section \<open>One change\<close>

text \<open>
  Every operation on an open settlement replaces its row and may add one line to it or take one away.
\<close>

definition settlement_change ::
  "'a settlement_db_scheme \<Rightarrow> settlement \<Rightarrow> settlement \<Rightarrow> (settlement_line \<Rightarrow> bool) \<Rightarrow> settlement_line option
     \<Rightarrow> 'a settlement_db_scheme \<Rightarrow> bool" where
  "settlement_change db s s' P new db' \<longleftrightarrow>
     s \<in> set (settlements db) \<and> \<not> st_final (st_status s) \<and> st_home s' = st_home s
     \<and> settlements db' = row_update st_id (st_id s) (\<lambda>_. s') (settlements db)
     \<and> settlement_lines db' = filter P (settlement_lines db) @ (case new of None \<Rightarrow> [] | Some l \<Rightarrow> [l])
     \<and> (\<forall>l. \<not> P l \<longrightarrow> sl_settlement l = st_id s)
     \<and> (\<forall>l. new = Some l \<longrightarrow> sl_settlement l = st_id s \<and> sl_tenant l = st_tenant s \<and> sl_id l = next_id db)
     \<and> next_id db < next_id db' \<and> sequences db' = sequences db \<and> transactions db' = transactions db
     \<and> (\<exists>evs. outbox db' = outbox db @ evs)"

lemma row_update_in:
  assumes "s \<in> set ss"
  shows "x \<in> set (row_update st_id (st_id s) (\<lambda>_. s') ss) \<longleftrightarrow> x = s' \<or> (x \<in> set ss \<and> st_id x \<noteq> st_id s)"
  using assms by (rule in_row_put)

lemma settlements_ok_put:
  assumes "settlements_ok n ss" and "s \<in> set ss" and "\<not> st_final (st_status s)" and "st_home s' = st_home s" and "n \<le> n'"
  shows "settlements_ok n' (row_update st_id (st_id s) (\<lambda>_. s') ss)"
proof -
  note h = assms(4) [unfolded st_home_eq]
  have u: "unique_keys st_id ss" using assms(1) by (simp add: settlements_ok_def)
  have ns: "st_status s \<noteq> SCancelled" using assms(3) by (simp add: st_final_iff)
  have "unique_keys st_id (row_update st_id (st_id s) (\<lambda>_. s') ss)"
    using unique_keys_row_put [OF u assms(2), of st_id s'] u h by simp
  moreover have "st_id x < n'" if "x \<in> set (row_update st_id (st_id s) (\<lambda>_. s') ss)" for x
    using that assms(1,2,5) h by (fastforce simp: row_update_in settlements_ok_def)
  moreover have "st_id x = st_id y"
    if x: "x \<in> set (row_update st_id (st_id s) (\<lambda>_. s') ss)" and y: "y \<in> set (row_update st_id (st_id s) (\<lambda>_. s') ss)"
      and e: "st_tenant x = st_tenant y" "st_supplier x = st_supplier y" "st_status x \<noteq> SCancelled"
        "st_status y \<noteq> SCancelled" "periods_overlap (st_from x) (st_to x) (st_from y) (st_to y)" for x y
  proof -
    have rep: "\<exists>z \<in> set ss. st_home z = st_home w \<and> st_status z \<noteq> SCancelled"
      if "w \<in> set (row_update st_id (st_id s) (\<lambda>_. s') ss)" "st_status w \<noteq> SCancelled" for w
      using that assms(2,4) ns by (auto simp: row_update_in)
    obtain a where a: "a \<in> set ss" "st_home a = st_home x" "st_status a \<noteq> SCancelled" using rep [OF x e(3)] by blast
    obtain b where b: "b \<in> set ss" "st_home b = st_home y" "st_status b \<noteq> SCancelled" using rep [OF y e(4)] by blast
    have "st_id a = st_id b"
      using assms(1) a b e unfolding settlements_ok_def st_home_eq by (metis (no_types))
    then show ?thesis using a(2) b(2) by (simp add: st_home_eq)
  qed
  ultimately show ?thesis unfolding settlements_ok_def by blast
qed

lemma settleable_mono:
  assumes "settleable ss s on" and "st_home s' = st_home s"
    and "\<And>f. f \<in> set ss \<Longrightarrow> st_status f = SFinalized \<Longrightarrow> f \<in> set ss'"
  shows "settleable ss' s' on"
  using assms by (auto simp: settleable_def st_home_eq)

lemma finalized_kept:
  assumes "f \<in> set ss" and "st_status f = SFinalized" and "unique_keys st_id ss" and "s \<in> set ss" and "\<not> st_final (st_status s)"
  shows "f \<in> set (row_update st_id (st_id s) (\<lambda>_. s') ss)"
proof -
  have "st_id f \<noteq> st_id s" using unique_keysD [OF assms(3,1,4)] assms(2,5) by (auto simp: st_final_iff)
  then show ?thesis using assms(1,4) by (simp add: row_update_in)
qed

lemma lines_ok_change:
  assumes inv: "settlement_inv db" and c: "settlement_change db s s' P new db'"
    and new: "\<And>l. new = Some l \<Longrightarrow> settleable (settlements db) s (sl_date l)"
  shows "lines_ok (next_id db') (settlements db') (settlement_lines db')"
proof -
  note i = settlement_invD [OF inv] and c' = c [unfolded settlement_change_def]
  let ?ls = "filter P (settlement_lines db)"
  have "unique_keys sl_id (settlement_lines db')"
  proof (cases new)
    case None
    then show ?thesis using c' i(8) by (simp add: unique_keys_filter)
  next
    case (Some l)
    have "unique_keys sl_id (?ls @ [l])"
      using i(2) c' Some by (intro unique_keys_append_next [where n = "next_id db"])
        (auto simp: lines_ok_def unique_keys_filter)
    then show ?thesis using c' Some by simp
  qed
  moreover have "sl_id l < next_id db' \<and> (\<exists>t \<in> set (settlements db'). st_id t = sl_settlement l
      \<and> st_tenant t = sl_tenant l \<and> settleable (settlements db') t (sl_date l))"
    if l: "l \<in> set (settlement_lines db')" for l
  proof -
    have "l \<in> set (settlement_lines db) \<or> new = Some l"
      using l c' by (auto split: option.splits)
    then obtain t where t: "t \<in> set (settlements db)" "st_id t = sl_settlement l" "st_tenant t = sl_tenant l"
        "settleable (settlements db) t (sl_date l)" and n: "sl_id l < next_id db'"
    proof
      assume "l \<in> set (settlement_lines db)"
      then obtain t where "t \<in> set (settlements db)" "st_id t = sl_settlement l" "st_tenant t = sl_tenant l"
          "settleable (settlements db) t (sl_date l)" and "sl_id l < next_id db"
        using i(2) unfolding lines_ok_def by blast
      then show thesis using that c' by force
    next
      assume "new = Some l"
      then show thesis using that [of s] new c' by auto
    qed
    define u where "u = (if st_id t = st_id s then s' else t)"
    have "st_home u = st_home t"
      using unique_keysD [OF i(7) t(1), of s] c' by (auto simp: u_def)
    moreover have "u \<in> set (settlements db')"
      using t(1) c' by (auto simp: u_def row_update_in)
    moreover have "f \<in> set (settlements db')" if "f \<in> set (settlements db)" "st_status f = SFinalized" for f
      using finalized_kept [OF that i(7)] c' by auto
    ultimately have "u \<in> set (settlements db') \<and> st_id u = sl_settlement l \<and> st_tenant u = sl_tenant l
        \<and> settleable (settlements db') u (sl_date l)"
      using t settleable_mono [OF t(4), of u "settlements db'"] by (simp add: st_home_eq)
    then show ?thesis using n by blast
  qed
  ultimately show ?thesis unfolding lines_ok_def by blast
qed

lemma standing_put:
  assumes "standing (row_update st_id (st_id s) (\<lambda>_. s') ss) l" and "s \<in> set ss" and "\<not> st_final (st_status s)"
    and "st_home s' = st_home s"
  shows "standing ss l"
proof -
  obtain t where t: "t \<in> set (row_update st_id (st_id s) (\<lambda>_. s') ss)" "st_id t = sl_settlement l" "st_status t \<noteq> SCancelled"
    using assms(1) by (auto simp: standing_def)
  then have "t = s' \<or> t \<in> set ss" using assms(2) by (auto simp: row_update_in)
  then show ?thesis
  proof
    assume "t = s'"
    then show ?thesis using t assms(2-4) by (auto simp: standing_def st_home_eq st_final_iff)
  next
    assume "t \<in> set ss"
    then show ?thesis using t by (auto simp: standing_def)
  qed
qed

lemma paid_once_change:
  assumes inv: "settlement_inv db" and c: "settlement_change db s s' P new db'"
    and new: "\<And>l k. new = Some l \<Longrightarrow> k \<in> set (settlement_lines db) \<Longrightarrow> standing (settlements db) k \<Longrightarrow> \<not> same_milk k l"
  shows "paid_once (settlements db') (settlement_lines db')"
proof -
  note i = settlement_invD [OF inv] and c' = c [unfolded settlement_change_def]
  have st: "standing (settlements db) l" if "standing (settlements db') l" for l
    using standing_put [of s s' "settlements db" l] that c' by simp
  have sym: "same_milk k l \<longleftrightarrow> same_milk l k" for k l by (simp add: same_milk_def eq_commute) metis
  have "sl_id k = sl_id l"
    if k: "k \<in> set (settlement_lines db')" and l: "l \<in> set (settlement_lines db')"
      and sk: "standing (settlements db') k" and sl: "standing (settlements db') l" and m: "same_milk k l" for k l
  proof -
    have k': "k \<in> set (settlement_lines db) \<or> new = Some k" and l': "l \<in> set (settlement_lines db) \<or> new = Some l"
      using k l c' by (auto split: option.splits)
    show ?thesis
    proof (cases "new = Some k \<or> new = Some l")
      case True
      then show ?thesis using new k' l' m st [OF sk] st [OF sl] sym by (metis option.inject)
    next
      case False
      then show ?thesis using i(3) k' l' m st [OF sk] st [OF sl] unfolding paid_once_def by blast
    qed
  qed
  then show ?thesis unfolding paid_once_def by blast
qed

lemma change_lines_elsewhere:
  assumes "settlement_change db s s' P new db'" and "i \<noteq> st_id s"
  shows "filter (\<lambda>l. sl_settlement l = i) (settlement_lines db') = filter (\<lambda>l. sl_settlement l = i) (settlement_lines db)"
proof -
  note c = assms(1) [unfolded settlement_change_def]
  have "filter (\<lambda>l. sl_settlement l = i) (case new of None \<Rightarrow> [] | Some l \<Rightarrow> [l]) = []"
    using c assms(2) by (auto split: option.splits)
  moreover have "filter (\<lambda>l. sl_settlement l = i) (filter P (settlement_lines db))
      = filter (\<lambda>l. sl_settlement l = i) (settlement_lines db)"
    unfolding filter_filter using c assms(2) by (intro filter_cong) auto
  ultimately show ?thesis using c by simp
qed

lemma totalled_cong:
  "filter (\<lambda>l. sl_settlement l = st_id s) ls' = filter (\<lambda>l. sl_settlement l = st_id s) ls \<Longrightarrow> totalled ls' s = totalled ls s"
  by (simp add: totalled_def)

lemma totals_ok_change:
  assumes inv: "settlement_inv db" and c: "settlement_change db s s' P new db'"
    and tot: "st_status s' \<in> {SCalculated, SFinalized} \<Longrightarrow> totalled (settlement_lines db') s'"
    and fin: "st_status s' = SFinalized \<Longrightarrow> st_finalized_at s' \<noteq> None \<and> (\<exists>l \<in> set (settlement_lines db'). sl_settlement l = st_id s')"
  shows "totals_ok (settlements db') (settlement_lines db')"
  unfolding totals_ok_def
proof
  note i = settlement_invD [OF inv] and c' = c [unfolded settlement_change_def]
  fix t assume "t \<in> set (settlements db')"
  then consider "t = s'" | "t \<in> set (settlements db)" "st_id t \<noteq> st_id s"
    using c' by (auto simp: row_update_in)
  then show "(st_status t \<in> {SCalculated, SFinalized} \<longrightarrow> totalled (settlement_lines db') t)
      \<and> (st_status t = SFinalized \<longrightarrow> st_finalized_at t \<noteq> None \<and> (\<exists>l \<in> set (settlement_lines db'). sl_settlement l = st_id t))"
  proof cases
    case 1
    then show ?thesis using tot fin by blast
  next
    case 2
    note f = change_lines_elsewhere [OF c 2(2)]
    have "(\<exists>l \<in> set (settlement_lines db'). sl_settlement l = st_id t)
        \<longleftrightarrow> (\<exists>l \<in> set (settlement_lines db). sl_settlement l = st_id t)"
      using arg_cong [OF f, of set] by (auto simp: set_eq_iff)
    then show ?thesis using i(4) 2(1) totalled_cong [OF f] unfolding totals_ok_def by blast
  qed
qed

lemma traced_change:
  assumes inv: "settlement_inv db" and c: "settlement_change db s s' P new db'"
    and new: "\<And>l. new = Some l \<Longrightarrow> \<exists>ev.
      look_event (outbox db) (Some ''pricing_calculation'', Some (sl_calculation l), Some (sl_tenant l)) = Some ev
      \<and> copied ev l \<and> map_of (ev_payload ev) ''currency'' = Some (JStr (st_currency s))"
  shows "traced (settlements db') (settlement_lines db') (outbox db')"
  unfolding traced_def
proof
  note i = settlement_invD [OF inv] and c' = c [unfolded settlement_change_def]
  fix l assume "l \<in> set (settlement_lines db')"
  then have l: "l \<in> set (settlement_lines db) \<or> new = Some l" using c' by (auto split: option.splits)
  obtain evs where evs: "outbox db' = outbox db @ evs" using c' by blast
  have "\<exists>ev. look_event (outbox db) (Some ''pricing_calculation'', Some (sl_calculation l), Some (sl_tenant l)) = Some ev
      \<and> copied ev l \<and> (\<exists>t \<in> set (settlements db). st_id t = sl_settlement l
          \<and> map_of (ev_payload ev) ''currency'' = Some (JStr (st_currency t)))"
  proof (cases "new = Some l")
    case True
    then show ?thesis using new [OF True] c' by metis
  next
    case False
    then show ?thesis using l i(5) unfolding traced_def by blast
  qed
  then obtain ev t where ev: "look_event (outbox db) (Some ''pricing_calculation'', Some (sl_calculation l), Some (sl_tenant l)) = Some ev"
      "copied ev l" and t: "t \<in> set (settlements db)" "st_id t = sl_settlement l"
      "map_of (ev_payload ev) ''currency'' = Some (JStr (st_currency t))" by blast
  have "look_event (outbox db') (Some ''pricing_calculation'', Some (sl_calculation l), Some (sl_tenant l)) = Some ev"
    using ev(1) by (simp add: evs look_event_def find_append)
  moreover have "\<exists>u \<in> set (settlements db'). st_id u = sl_settlement l \<and> st_currency u = st_currency t"
  proof (cases "st_id t = st_id s")
    case True
    then have "t = s" using unique_keysD [OF i(7) t(1)] c' by blast
    moreover have "s' \<in> set (settlements db')" "st_id s' = st_id s" "st_currency s' = st_currency s"
      using c' by (auto simp: row_update_in st_home_eq)
    ultimately show ?thesis using t(2) by auto
  next
    case False
    then show ?thesis using t c' by (auto simp: row_update_in)
  qed
  ultimately show "\<exists>ev. look_event (outbox db') (Some ''pricing_calculation'', Some (sl_calculation l), Some (sl_tenant l)) = Some ev
      \<and> copied ev l \<and> (\<exists>s \<in> set (settlements db'). st_id s = sl_settlement l
          \<and> map_of (ev_payload ev) ''currency'' = Some (JStr (st_currency s)))"
    using ev(2) t(3) by metis
qed

lemma settlement_numbers_change:
  assumes inv: "settlement_inv db" and c: "settlement_change db s s' P new db'"
  shows "settlement_numbers (sequences db') (settlements db')"
  unfolding settlement_numbers_def
proof (rule numbers_kept [OF settlement_invD(6) [OF inv, unfolded settlement_numbers_def]])
  note c' = c [unfolded settlement_change_def]
  fix r assume "r \<in> set (settlements db')"
  then show "\<exists>t \<in> set (settlements db). st_id t = st_id r \<and> st_tenant t = st_tenant r \<and> Some (st_number t) = Some (st_number r)"
    using c' by (auto simp: row_update_in st_home_eq)
next
  show "series_next (sequences db) k \<le> series_next (sequences db') k" for k
    using c by (simp add: settlement_change_def)
qed

text \<open>The whole invariant, from what the operation must check.\<close>

definition good_line :: "'a settlement_db_scheme \<Rightarrow> settlement \<Rightarrow> settlement_line \<Rightarrow> bool" where
  "good_line db s l \<longleftrightarrow> settleable (settlements db) s (sl_date l)
     \<and> (\<forall>k \<in> set (settlement_lines db). standing (settlements db) k \<longrightarrow> \<not> same_milk k l)
     \<and> (\<exists>ev. look_event (outbox db) (Some ''pricing_calculation'', Some (sl_calculation l), Some (sl_tenant l)) = Some ev
          \<and> copied ev l \<and> map_of (ev_payload ev) ''currency'' = Some (JStr (st_currency s)))"

lemma settlement_change_inv:
  assumes inv: "settlement_inv db" and c: "settlement_change db s s' P new db'"
    and new: "\<And>l. new = Some l \<Longrightarrow> good_line db s l"
    and tot: "st_status s' \<in> {SCalculated, SFinalized} \<Longrightarrow> totalled (settlement_lines db') s'"
    and fin: "st_status s' = SFinalized \<Longrightarrow> st_finalized_at s' \<noteq> None \<and> (\<exists>l \<in> set (settlement_lines db'). sl_settlement l = st_id s')"
  shows "settlement_inv db'"
proof -
  note c' = c [unfolded settlement_change_def]
  have "settlements_ok (next_id db') (settlements db')"
    using settlements_ok_put [OF settlement_invD(1) [OF inv], of s s'] c' by simp
  moreover have "lines_ok (next_id db') (settlements db') (settlement_lines db')"
    by (rule lines_ok_change [OF inv c]) (use new in \<open>simp add: good_line_def\<close>)
  moreover have "paid_once (settlements db') (settlement_lines db')"
    by (rule paid_once_change [OF inv c]) (use new in \<open>simp add: good_line_def\<close>)
  moreover have "traced (settlements db') (settlement_lines db') (outbox db')"
    by (rule traced_change [OF inv c]) (use new in \<open>simp add: good_line_def\<close>)
  ultimately show ?thesis
    using totals_ok_change [OF inv c tot fin] settlement_numbers_change [OF inv c]
    by (simp add: settlement_inv_def)
qed

section \<open>The operations\<close>

lemma standing_live:
  assumes "settlement_inv db" and "k \<in> set (settlement_lines db)"
  shows "standing (settlements db) k \<longleftrightarrow> live_line (sl_tenant k) db k"
proof -
  obtain t where t: "t \<in> set (settlements db)" "st_id t = sl_settlement k" "st_tenant t = sl_tenant k"
    using settlement_invD(2) [OF assms(1)] assms(2) unfolding lines_ok_def by blast
  have "st_tenant s = sl_tenant k" if "s \<in> set (settlements db)" "st_id s = sl_settlement k" for s
    using unique_keysD [OF settlement_invD(7) [OF assms(1)] that(1) t(1)] that(2) t by simp
  then show ?thesis by (auto simp: standing_def live_line_def list_ex_iff)
qed

lemma sum_lines_totalled:
  "sum_lines db s = Inr m \<Longrightarrow> add_up \<lparr>amount = 0, currency = str_upper (st_currency s), precision = 2,
     rounding_policy = ROUNDING_POLICY_UNSPECIFIED\<rparr> (st_currency s) (map sl_gross (lines_of db (st_id s))) = Inr m"
  by (auto simp: sum_lines_def result_simps std_money_def mk_money_def split: if_splits)

lemma settlement_changeI:
  assumes "s \<in> set (settlements db)" "\<not> st_final (st_status s)" "st_home s' = st_home s"
    "db' = record_settlement e s' n d a (put_settlement s' db1)"
    "settlements db1 = settlements db" "sequences db1 = sequences db" "transactions db1 = transactions db"
    "outbox db1 = outbox db" "next_id db \<le> next_id db1"
    "settlement_lines db1 = filter P (settlement_lines db) @ (case new of None \<Rightarrow> [] | Some l \<Rightarrow> [l])"
    "\<And>l. \<not> P l \<Longrightarrow> sl_settlement l = st_id s"
    "\<And>l. new = Some l \<Longrightarrow> sl_settlement l = st_id s \<and> sl_tenant l = st_tenant s \<and> sl_id l = next_id db"
  shows "settlement_change db s s' P new db'"
  unfolding settlement_change_def
  using assms record_settlement_outbox [of e s' n d a "put_settlement s' db1"]
  by (auto simp: st_home_eq)

lemma add_calculation_run:
  fixes db :: "'a settlement_db_scheme"
  assumes r: "add_calculation e i k tx a db = Inr (l, db')"
  obtains s ev on q p g where "get_settlement e db i = Inr s"
    "settlement_change db s (s\<lparr>st_status := SDraft\<rparr>) (\<lambda>_. True) (Some l) db'"
    "verified_calculation s k db = Inr ev" "assert_calculation_unsettled s k db = Inr ()"
    "(case tx of None \<Rightarrow> Inr () | Some t \<Rightarrow> assert_transaction_unsettled s t db) = Inr ()"
    "date_field (ev_payload ev) ''transaction_date'' = Inr on" "assert_line_date_settleable s on db = Inr ()"
    "dec_field (ev_payload ev) ''quantity'' = Inr q" "numeric 14 3 q = Inr (sl_quantity l)"
    "dec_field (ev_payload ev) ''unit_price'' = Inr p" "numeric 12 4 p = Inr (sl_price l)"
    "dec_field (ev_payload ev) ''gross_amount'' = Inr g" "numeric 16 2 g = Inr (sl_gross l)"
    "sl_id l = next_id db" "sl_tenant l = st_tenant s" "sl_settlement l = st_id s" "sl_calculation l = k"
    "sl_transaction l = tx" "sl_date l = on" "sl_trace l = ev_id ev"
proof -
  from r obtain s ev on q qty p price g gross where s: "get_settlement e db i = Inr s" "\<not> st_final (st_status s)"
    and ev: "verified_calculation s k db = Inr ev"
    and uns: "assert_calculation_unsettled s k db = Inr ()"
      "(case tx of None \<Rightarrow> Inr () | Some t \<Rightarrow> assert_transaction_unsettled s t db) = Inr ()"
    and on: "date_field (ev_payload ev) ''transaction_date'' = Inr on" "assert_line_date_settleable s on db = Inr ()"
    and q: "dec_field (ev_payload ev) ''quantity'' = Inr q" "numeric 14 3 q = Inr qty"
    and p: "dec_field (ev_payload ev) ''unit_price'' = Inr p" "numeric 12 4 p = Inr price"
    and g: "dec_field (ev_payload ev) ''gross_amount'' = Inr g" "numeric 16 2 g = Inr gross"
    and l: "l = \<lparr>sl_id = next_id db, sl_tenant = st_tenant s, sl_settlement = st_id s, sl_calculation = k,
                sl_transaction = tx, sl_date = on, sl_quantity = qty,
                sl_unit = or_else (str_field (ev_payload ev) ''quantity_unit'')
                            (measured_unit (tenant_units e db (Some (st_tenant s)))),
                sl_price = price, sl_gross = gross, sl_trace = ev_id ev, sl_created_at = now e\<rparr>"
    and db': "db' = record_settlement e (s\<lparr>st_status := SDraft\<rparr>) ''updated'' [(''line_added'', JId k)] a
        (put_settlement (s\<lparr>st_status := SDraft\<rparr>)
           (db\<lparr>next_id := Suc (next_id db), settlement_lines := settlement_lines db @ [l]\<rparr>))"
    unfolding add_calculation_def result_simps by (auto simp: Let_def new_id_eq)
  note sd = get_settlement_InrD [OF s(1)]
  have "settlement_change db s (s\<lparr>st_status := SDraft\<rparr>) (\<lambda>_. True) (Some l) db'"
    by (rule settlement_changeI [OF _ _ _ db'])
      (use sd s(2) in \<open>simp_all add: st_home_eq l\<close>)
  then show thesis using that [of s ev on q p g] s ev uns on q p g by (simp add: l)
qed

lemma add_calculation_change:
  fixes db :: "'a settlement_db_scheme"
  assumes inv: "settlement_inv db" and r: "add_calculation e i k tx a db = Inr (l, db')"
  obtains s where "get_settlement e db i = Inr s" "settlement_change db s (s\<lparr>st_status := SDraft\<rparr>) (\<lambda>_. True) (Some l) db'"
    "good_line db s l" "sl_calculation l = k" "sl_transaction l = tx"
proof -
  obtain s ev on q p g where s: "get_settlement e db i = Inr s"
    and c: "settlement_change db s (s\<lparr>st_status := SDraft\<rparr>) (\<lambda>_. True) (Some l) db'"
    and ev: "verified_calculation s k db = Inr ev"
    and uns: "assert_calculation_unsettled s k db = Inr ()"
      "(case tx of None \<Rightarrow> Inr () | Some t \<Rightarrow> assert_transaction_unsettled s t db) = Inr ()"
    and on: "date_field (ev_payload ev) ''transaction_date'' = Inr on" "assert_line_date_settleable s on db = Inr ()"
    and q: "dec_field (ev_payload ev) ''quantity'' = Inr q" "numeric 14 3 q = Inr (sl_quantity l)"
    and p: "dec_field (ev_payload ev) ''unit_price'' = Inr p" "numeric 12 4 p = Inr (sl_price l)"
    and g: "dec_field (ev_payload ev) ''gross_amount'' = Inr g" "numeric 16 2 g = Inr (sl_gross l)"
    and l: "sl_id l = next_id db" "sl_tenant l = st_tenant s" "sl_settlement l = st_id s" "sl_calculation l = k"
      "sl_transaction l = tx" "sl_date l = on" "sl_trace l = ev_id ev"
    using r by (rule add_calculation_run)
  have "good_line db s l"
    unfolding good_line_def
  proof (intro conjI ballI impI)
    show "settleable (settlements db) s (sl_date l)"
      using on(2) by (auto simp: assert_line_date_settleable_def settleable_def l find_None_ball split: if_splits)
  next
    fix k' assume k': "k' \<in> set (settlement_lines db)" "standing (settlements db) k'"
    show "\<not> same_milk k' l"
      using uns k' standing_live [OF inv k'(1)]
      by (auto simp: same_milk_def l assert_calculation_unsettled_def assert_transaction_unsettled_def list_ex_iff
          split: if_splits)
  next
    show "\<exists>ev. look_event (outbox db) (Some ''pricing_calculation'', Some (sl_calculation l), Some (sl_tenant l)) = Some ev
        \<and> copied ev l \<and> map_of (ev_payload ev) ''currency'' = Some (JStr (st_currency s))"
      using ev on(1) q p g
      by (intro exI [of _ ev]) (auto simp: verified_calculation_def find_aggregate_event_look copied_def l date_field_def
          dec_field_def split: option.splits if_splits json.splits)
  qed
  then show thesis using that s c l by blast
qed

lemma remove_line_change:
  assumes inv: "settlement_inv db" and r: "remove_line e i k a db = Inr (u, db')"
  obtains s l where "get_settlement e db i = Inr s" "l \<in> set (settlement_lines db)" "sl_id l = k"
    "settlement_change db s (s\<lparr>st_status := SDraft\<rparr>) (\<lambda>l'. \<not> (sl_id l' = k \<and> sl_settlement l' = st_id s)) None db'"
proof -
  from r obtain s l where s: "get_settlement e db i = Inr s" "\<not> st_final (st_status s)"
    and l: "row_get sl_id k (settlement_lines db) = Some l" "sl_settlement l = st_id s"
    and db': "db' = record_settlement e (s\<lparr>st_status := SDraft\<rparr>) ''updated'' [(''line_removed'', JId (sl_calculation l))] a
        (put_settlement (s\<lparr>st_status := SDraft\<rparr>)
           (db\<lparr>settlement_lines := row_delete sl_id (sl_id l) (settlement_lines db)\<rparr>))"
    unfolding remove_line_def result_simps by (auto simp: Let_def split: option.splits if_splits)
  note sd = get_settlement_InrD [OF s(1)] and ld = row_get_SomeD [OF l(1)]
  have "row_delete sl_id k (settlement_lines db)
      = filter (\<lambda>l'. \<not> (sl_id l' = k \<and> sl_settlement l' = st_id s)) (settlement_lines db)"
    unfolding row_delete_def
    using unique_keysD [OF settlement_invD(8) [OF inv] _ conjunct1 [OF ld]] ld l(2) by (intro filter_cong) auto
  then have "settlement_change db s (s\<lparr>st_status := SDraft\<rparr>)
      (\<lambda>l'. \<not> (sl_id l' = k \<and> sl_settlement l' = st_id s)) None db'"
    by (intro settlement_changeI [OF _ _ _ db']) (use sd s(2) ld in \<open>simp_all add: st_home_eq\<close>)
  then show thesis using that s(1) ld by blast
qed

lemma same_lines_change:
  "s \<in> set (settlements db) \<Longrightarrow> \<not> st_final (st_status s) \<Longrightarrow> st_home s' = st_home s
    \<Longrightarrow> db' = record_settlement e s' n d a (put_settlement s' db) \<Longrightarrow> settlement_change db s s' (\<lambda>_. True) None db'"
  by (rule settlement_changeI [where ?db1.0 = db]) simp_all

lemma calculate_totals_change:
  assumes "calculate_totals e i a db = Inr (s', db')"
  obtains s where "get_settlement e db i = Inr s" "settlement_change db s s' (\<lambda>_. True) None db'"
    "st_status s' = SCalculated" "totalled (settlement_lines db') s'"
proof -
  from assms obtain s gross adj net g n where s: "get_settlement e db i = Inr s" "\<not> st_final (st_status s)"
    and gr: "sum_lines db s = Inr gross" and adj: "std_money NO_ADJUSTMENTS (st_currency s) = Inr adj"
    and net: "money_plus gross adj = Inr net" and gn: "numeric 16 2 (amount gross) = Inr g" "numeric 16 2 (amount net) = Inr n"
    and s': "s' = s\<lparr>st_gross := g, st_adjustments := amount adj, st_net := n, st_status := SCalculated\<rparr>"
    and db': "db' = record_settlement e s' ''updated'' [(''totals_calculated'', JBool True),
        (''gross_amount'', JDec (st_gross s')), (''net_amount'', JDec (st_net s'))] a (put_settlement s' db)"
    unfolding calculate_totals_def result_simps by (auto simp: Let_def)
  have a: "amount adj = 0" "amount net = dec_add (amount gross) 0"
    using adj net mk_money_InrD by (auto simp: std_money_def NO_ADJUSTMENTS_def money_plus_def split: if_splits)
  have c: "settlement_change db s s' (\<lambda>_. True) None db'"
    using db' get_settlement_InrD [OF s(1)] s(2) same_lines_change [of s db s' db' e] by (auto simp: s' st_home_eq)
  then have "settlement_lines db' = settlement_lines db" by (simp add: settlement_change_def)
  then have "totalled (settlement_lines db') s'"
    using sum_lines_totalled [OF gr] gn a by (simp add: totalled_def s' lines_of_def)
  then show thesis using that s(1) c by (simp add: s')
qed

lemma finalize_change:
  assumes inv: "settlement_inv db" and r: "finalize_settlement e i a db = Inr (s', db')"
  obtains s where "get_settlement e db i = Inr s" "settlement_change db s s' (\<lambda>_. True) None db'"
    "st_status s = SCalculated" "s' = s\<lparr>st_status := SFinalized, st_finalized_at := Some (now e)\<rparr>"
    "totalled (settlement_lines db') s'" "\<exists>l \<in> set (settlement_lines db'). sl_settlement l = st_id s'"
    "assert_period_open db (st_tenant s) (st_to s) = Inr ()"
proof -
  from r obtain s gross where s: "get_settlement e db i = Inr s" "st_status s = SCalculated"
    and gr: "sum_lines db s = Inr gross" "amount gross = st_gross s"
    and cnt: "line_count db (st_id s) \<noteq> 0" and po: "assert_period_open db (st_tenant s) (st_to s) = Inr ()"
    and s': "s' = s\<lparr>st_status := SFinalized, st_finalized_at := Some (now e)\<rparr>"
    and db': "db' = record_settlement e s' ''finalized''
        [(''gross_amount'', JDec (st_gross s')), (''net_amount'', JDec (st_net s')), (''currency'', JStr (st_currency s')),
         (''line_count'', JInt (int (line_count db (st_id s)))), (''quantity'', JDec (fst (sum_quantity db (st_id s)))),
         (''quantity_unit'', JStr (snd (sum_quantity db (st_id s)))), (''period_from'', JDate (st_from s')),
         (''period_to'', JDate (st_to s'))] a (put_settlement s' db)"
    unfolding finalize_settlement_def result_simps by (auto simp: Let_def split_def)
  note sd = get_settlement_InrD [OF s(1)]
  have c: "settlement_change db s s' (\<lambda>_. True) None db'"
    by (rule same_lines_change [OF _ _ _ db']) (use sd s(2) in \<open>simp_all add: s' st_home_eq st_final_iff\<close>)
  then have ls: "settlement_lines db' = settlement_lines db" by (simp add: settlement_change_def)
  have "totalled (settlement_lines db) s"
    using settlement_invD(4) [OF inv] sd s(2) by (simp add: totals_ok_def)
  then have "totalled (settlement_lines db') s'"
    using sum_lines_totalled [OF gr(1)] gr(2) by (auto simp: totalled_def ls s' lines_of_def)
  moreover have "\<exists>l \<in> set (settlement_lines db'). sl_settlement l = st_id s'"
    using cnt by (auto simp: line_count_def ls s' filter_empty_conv)
  ultimately show thesis using that [OF s(1) c s(2) s'] po by blast
qed

lemma cancel_settlement_change:
  assumes "cancel_settlement e i reason a db = Inr (s', db')"
  obtains s where "get_settlement e db i = Inr s" "settlement_change db s s' (\<lambda>_. True) None db'"
    "s' = s\<lparr>st_status := SCancelled, st_cancelled_at := Some (now e)\<rparr>"
proof -
  from assms obtain s where s: "get_settlement e db i = Inr s" "\<not> st_final (st_status s)"
    and s': "s' = s\<lparr>st_status := SCancelled, st_cancelled_at := Some (now e)\<rparr>"
    and db': "db' = record_settlement e s' ''cancelled'' [(''reason'', JStr reason)] a (put_settlement s' db)"
    unfolding cancel_settlement_def result_simps by (auto simp: Let_def)
  have "settlement_change db s s' (\<lambda>_. True) None db'"
    by (rule same_lines_change [OF _ s(2) _ db']) (use get_settlement_InrD [OF s(1)] in \<open>simp_all add: s' st_home_eq\<close>)
  then show thesis using that s(1) s' by blast
qed

section \<open>Opening a settlement\<close>

lemma create_settlement_run:
  fixes db :: "'a settlement_db_scheme"
  assumes "create_settlement e cmd a db = Inr (s, db')"
  obtains number db1 where "current_tenant e = Some (st_tenant s)" "assert_no_period_overlap (st_tenant s) cmd db = Inr ()"
    "next_document_number e (st_tenant s) ''settlement'' ''STL'' db = (number, db1)"
    "st_number s = number" "st_id s = next_id db" "st_supplier s = cs_supplier cmd" "st_center s = cs_of_center cmd"
    "st_from s = cs_from cmd" "st_to s = cs_to cmd" "st_status s = SDraft"
    "settlements db' = settlements db @ [s]" "settlement_lines db' = settlement_lines db" "next_id db < next_id db'"
    "sequences db' = sequences db1" "transactions db' = transactions db" "\<exists>evs. outbox db' = outbox db @ evs"
proof -
  from assms obtain t where t: "require_current_tenant e = Inr t"
    by (auto simp: create_settlement_def result_simps)
  obtain number db1 where n: "next_document_number e t ''settlement'' ''STL'' db = (number, db1)"
    by (meson surj_pair)
  from assms obtain cur where no: "assert_no_period_overlap t cmd db = Inr ()"
    and s: "s = \<lparr>st_id = next_id db1, st_tenant = t, st_supplier = cs_supplier cmd, st_center = cs_of_center cmd,
                st_number = number, st_from = cs_from cmd, st_to = cs_to cmd, st_currency = cur,
                st_gross = 0, st_adjustments = 0, st_net = 0, st_status = SDraft, st_created_at = now e,
                st_finalized_at = None, st_cancelled_at = None\<rparr>"
    and db': "db' = record_settlement e s ''created'' [] a (db1\<lparr>next_id := Suc (next_id db1), settlements := settlements db1 @ [s]\<rparr>)"
    by (auto simp: create_settlement_def t n result_simps new_id_eq Let_def split: if_splits option.splits)
  obtain p where "db1 = db\<lparr>sequences := snd (allocate (t, ''settlement'', p) (sequences db))\<rparr>"
    using n by (rule next_document_number_eq)
  then have f: "next_id db1 = next_id db" "settlements db1 = settlements db" "settlement_lines db1 = settlement_lines db"
      "transactions db1 = transactions db" "outbox db1 = outbox db" by simp_all
  have "\<exists>evs. outbox db' = outbox db @ evs"
    using record_settlement_outbox [of e s "''created''" "[]" a "db1\<lparr>next_id := Suc (next_id db1), settlements := settlements db1 @ [s]\<rparr>"]
    by (auto simp: db' f)
  then show thesis
    using that [of number db1] t no n by (simp add: s db' f require_current_tenant_def need_eq_Inr)
qed

lemma create_settlement_inv:
  fixes db :: "'a settlement_db_scheme"
  assumes inv: "settlement_inv db" and r: "create_settlement e cmd a db = Inr (s, db')"
  shows "settlement_inv db'"
proof -
  obtain number db1 where c: "assert_no_period_overlap (st_tenant s) cmd db = Inr ()"
    "next_document_number e (st_tenant s) ''settlement'' ''STL'' db = (number, db1)"
    "st_number s = number" "st_id s = next_id db" "st_supplier s = cs_supplier cmd"
    "st_from s = cs_from cmd" "st_to s = cs_to cmd" "st_status s = SDraft"
    "settlements db' = settlements db @ [s]" "settlement_lines db' = settlement_lines db" "next_id db < next_id db'"
    "sequences db' = sequences db1" "\<exists>evs. outbox db' = outbox db @ evs"
    using r by (rule create_settlement_run)
  note i = settlement_invD [OF inv]
  have fresh: "st_id t < next_id db" if "t \<in> set (settlements db)" for t
    using i(1) that by (simp add: settlements_ok_def)
  have home: "\<exists>t \<in> set (settlements db). st_id t = sl_settlement l" if "l \<in> set (settlement_lines db)" for l
    using i(2) that unfolding lines_ok_def by blast
  have free: "\<not> periods_overlap (st_from s) (st_to s) (st_from t) (st_to t)"
    if "t \<in> set (settlements db)" "st_tenant t = st_tenant s" "st_supplier t = st_supplier s" "st_status t \<noteq> SCancelled" for t
    using c(1) that by (auto simp: assert_no_period_overlap_def list_ex_iff c split: if_splits)
  have sym: "periods_overlap a b c d = periods_overlap c d a b" for a b c d by (auto simp: periods_overlap_def)
  have "settlements_ok (next_id db') (settlements db')"
    unfolding settlements_ok_def
  proof (intro conjI ballI impI)
    show "unique_keys st_id (settlements db')"
      unfolding c(9) by (rule unique_keys_append_next [OF i(7) fresh c(4)])
    show "st_id x < next_id db'" if "x \<in> set (settlements db')" for x
      using that fresh [of x] c by auto
    show "st_id x = st_id y"
      if "x \<in> set (settlements db')" "y \<in> set (settlements db')" "st_tenant x = st_tenant y" "st_supplier x = st_supplier y"
        "st_status x \<noteq> SCancelled" "st_status y \<noteq> SCancelled"
        "periods_overlap (st_from x) (st_to x) (st_from y) (st_to y)" for x y
    proof (cases "x \<in> set (settlements db) \<and> y \<in> set (settlements db)")
      case True
      then show ?thesis using i(1) that unfolding settlements_ok_def by blast
    next
      case False
      then show ?thesis using that free [of x] free [of y] sym c(9) by auto
    qed
  qed
  moreover have "lines_ok (next_id db') (settlements db') (settlement_lines db')"
  proof -
    have "settleable (settlements db @ [s]) t on" if "settleable (settlements db) t on" for t on
      using that by (auto simp: settleable_def)
    then show ?thesis using i(2) c unfolding lines_ok_def c(9,10) by fastforce
  qed
  moreover have "standing (settlements db') l \<longleftrightarrow> standing (settlements db) l" if "l \<in> set (settlement_lines db)" for l
  proof -
    have "st_id s \<noteq> sl_settlement l" using home [OF that] fresh c(4) by fastforce
    then show ?thesis by (auto simp: standing_def c(9))
  qed
  then have "paid_once (settlements db') (settlement_lines db')"
    using i(3) unfolding paid_once_def c(10) by blast
  moreover have "totals_ok (settlements db') (settlement_lines db')"
    using i(4) c(8) by (auto simp: totals_ok_def c(9,10))
  moreover have "traced (settlements db') (settlement_lines db') (outbox db')"
    unfolding traced_def c(9,10)
  proof
    fix l assume l: "l \<in> set (settlement_lines db)"
    obtain evs where "outbox db' = outbox db @ evs" using c(13) by blast
    then show "\<exists>ev. look_event (outbox db') (Some ''pricing_calculation'', Some (sl_calculation l), Some (sl_tenant l)) = Some ev
        \<and> copied ev l \<and> (\<exists>t \<in> set (settlements db @ [s]). st_id t = sl_settlement l
            \<and> map_of (ev_payload ev) ''currency'' = Some (JStr (st_currency t)))"
      using i(5) l unfolding traced_def by (fastforce simp: look_event_def find_append)
  qed
  moreover have "settlement_numbers (sequences db') (settlements db')"
    unfolding settlement_numbers_def c(12)
    by (rule numbers_mint [OF i(6) [unfolded settlement_numbers_def] c(2)]) (use c in auto)
  ultimately show ?thesis by (simp add: settlement_inv_def)
qed

section \<open>Runs\<close>

text \<open>
  One step per operation of the service, and one for the rest of the platform, which appends to the
  outbox and draws identifiers and numbers but does not write the settlement tables.
\<close>

inductive settlement_step :: "'a settlement_db_scheme \<Rightarrow> 'a settlement_db_scheme \<Rightarrow> bool" where
  step_create: "CreateSettlementCommand sp ce f t cu = Inr cmd \<Longrightarrow> create_settlement e cmd a db = Inr (s, db')
    \<Longrightarrow> settlement_step db db'"
| step_add_calculation: "add_calculation e i k tx a db = Inr (l, db') \<Longrightarrow> settlement_step db db'"
| step_add_transaction: "add_transaction e i t a db = Inr (l, db') \<Longrightarrow> settlement_step db db'"
| step_collect: "collect_period e i a db = Inr (n, db') \<Longrightarrow> settlement_step db db'"
| step_remove: "remove_line e i k a db = Inr (u, db') \<Longrightarrow> settlement_step db db'"
| step_totals: "calculate_totals e i a db = Inr (s, db') \<Longrightarrow> settlement_step db db'"
| step_finalize: "finalize_settlement e i a db = Inr (s, db') \<Longrightarrow> settlement_step db db'"
| step_cancel: "cancel_settlement e i r a db = Inr (s, db') \<Longrightarrow> settlement_step db db'"
| step_elsewhere: "settlements db' = settlements db \<Longrightarrow> settlement_lines db' = settlement_lines db
    \<Longrightarrow> (\<exists>evs. outbox db' = outbox db @ evs) \<Longrightarrow> next_id db \<le> next_id db'
    \<Longrightarrow> (\<forall>k. series_next (sequences db) k \<le> series_next (sequences db') k) \<Longrightarrow> settlement_step db db'"

definition no_settlements :: "'a settlement_db_scheme \<Rightarrow> bool" where
  "no_settlements db \<longleftrightarrow> settlements db = [] \<and> settlement_lines db = []"

text \<open>
  What a run keeps of every settlement: its terms, its place in the life cycle, and, once it is
  finalized or cancelled, everything including its lines.
\<close>

definition settled_as :: "'a settlement_db_scheme \<Rightarrow> 'a settlement_db_scheme \<Rightarrow> bool" where
  "settled_as db db' \<longleftrightarrow>
     (\<forall>s \<in> set (settlements db). \<exists>s' \<in> set (settlements db').
        st_home s' = st_home s \<and> st_edge\<^sup>*\<^sup>* (st_status s) (st_status s')
        \<and> (st_final (st_status s) \<longrightarrow> s' = s \<and> filter (\<lambda>l. sl_settlement l = st_id s) (settlement_lines db')
             = filter (\<lambda>l. sl_settlement l = st_id s) (settlement_lines db)))
     \<and> (\<exists>evs. outbox db' = outbox db @ evs)"

lemma settled_as_refl: "settled_as db db"
  by (auto simp: settled_as_def)

lemma settled_as_trans: "settled_as a b \<Longrightarrow> settled_as b c \<Longrightarrow> settled_as a c"
proof -
  assume ab: "settled_as a b" and bc: "settled_as b c"
  have "\<exists>u \<in> set (settlements c). st_home u = st_home s \<and> st_edge\<^sup>*\<^sup>* (st_status s) (st_status u)
      \<and> (st_final (st_status s) \<longrightarrow> u = s \<and> filter (\<lambda>l. sl_settlement l = st_id s) (settlement_lines c)
           = filter (\<lambda>l. sl_settlement l = st_id s) (settlement_lines a))"
    if s: "s \<in> set (settlements a)" for s
  proof -
    obtain t where t: "t \<in> set (settlements b)" "st_home t = st_home s" "st_edge\<^sup>*\<^sup>* (st_status s) (st_status t)"
        "st_final (st_status s) \<longrightarrow> t = s \<and> filter (\<lambda>l. sl_settlement l = st_id s) (settlement_lines b)
           = filter (\<lambda>l. sl_settlement l = st_id s) (settlement_lines a)"
      using ab s unfolding settled_as_def by meson
    obtain u where u: "u \<in> set (settlements c)" "st_home u = st_home t" "st_edge\<^sup>*\<^sup>* (st_status t) (st_status u)"
        "st_final (st_status t) \<longrightarrow> u = t \<and> filter (\<lambda>l. sl_settlement l = st_id t) (settlement_lines c)
           = filter (\<lambda>l. sl_settlement l = st_id t) (settlement_lines b)"
      using bc t(1) unfolding settled_as_def by meson
    show ?thesis using t u by (intro bexI [OF _ u(1)]) auto
  qed
  moreover have "\<exists>evs. outbox c = outbox a @ evs" using ab bc by (auto simp: settled_as_def)
  ultimately show ?thesis by (simp add: settled_as_def)
qed

lemma settled_as_frame:
  "(\<And>s. s \<in> set (settlements db) \<Longrightarrow> s \<in> set (settlements db')) \<Longrightarrow> settlement_lines db' = settlement_lines db
    \<Longrightarrow> \<exists>evs. outbox db' = outbox db @ evs \<Longrightarrow> settled_as db db'"
  unfolding settled_as_def by (metis rtranclp.rtrancl_refl)

lemma settlement_change_settled_as:
  assumes inv: "settlement_inv db" and c: "settlement_change db s s' P new db'"
    and edge: "st_edge (st_status s) (st_status s')"
  shows "settled_as db db'"
  unfolding settled_as_def
proof (intro conjI ballI)
  note c' = c [unfolded settlement_change_def]
  show "\<exists>evs. outbox db' = outbox db @ evs" using c' by blast
  fix t assume t: "t \<in> set (settlements db)"
  show "\<exists>u \<in> set (settlements db'). st_home u = st_home t \<and> st_edge\<^sup>*\<^sup>* (st_status t) (st_status u)
      \<and> (st_final (st_status t) \<longrightarrow> u = t \<and> filter (\<lambda>l. sl_settlement l = st_id t) (settlement_lines db')
           = filter (\<lambda>l. sl_settlement l = st_id t) (settlement_lines db))"
  proof (cases "st_id t = st_id s")
    case True
    then have "t = s" using unique_keysD [OF settlement_invD(7) [OF inv] t] c' by blast
    then show ?thesis using c' edge by (intro bexI [of _ s']) (auto simp: row_update_in)
  next
    case False
    then show ?thesis using c' t change_lines_elsewhere [OF c False] by (intro bexI [of _ t]) (auto simp: row_update_in)
  qed
qed

lemma open_edges: "\<not> st_final s \<Longrightarrow> st_edge s SDraft" "\<not> st_final s \<Longrightarrow> st_edge s SCalculated"
  "\<not> st_final s \<Longrightarrow> st_edge s SCancelled" "st_edge SCalculated SFinalized"
  by (simp_all add: st_edge_def st_final_def OPEN_STATUSES_def)

lemma add_calculation_keeps:
  fixes db :: "'a settlement_db_scheme"
  assumes "settlement_inv db" and "add_calculation e i k tx a db = Inr (l, db')"
  shows "settlement_inv db' \<and> settled_as db db'"
proof -
  obtain s where s: "settlement_change db s (s\<lparr>st_status := SDraft\<rparr>) (\<lambda>_. True) (Some l) db'" "good_line db s l"
    using add_calculation_change [OF assms] by metis
  have "st_edge (st_status s) SDraft" using s(1) by (simp add: settlement_change_def open_edges)
  then show ?thesis
    using settlement_change_inv [OF assms(1) s(1)] settlement_change_settled_as [OF assms(1) s(1)] s(2) by simp
qed

lemma add_transaction_eq:
  assumes "add_transaction e i t a db = Inr (l, db')"
  obtains s k where "get_settlement e db i = Inr s" "eligible_transaction s t db = Inr k"
    "add_calculation e i (fst k) (Some (tx_id (snd k))) a db = Inr (l, db')"
  using assms by (auto simp: add_transaction_def result_simps)

lemma sweep_keeps:
  "sweep e i a ks n db = Inr (n', db') \<Longrightarrow> settlement_inv db \<Longrightarrow> settlement_inv db' \<and> settled_as db db'"
proof (induction e i a ks n db rule: sweep.induct)
  case (1 e i a n db)
  then show ?case by (simp add: settled_as_refl)
next
  case (2 e i a k t rest added skipped db)
  show ?case
  proof (cases "add_calculation e i k (Some t) a db")
    case (Inl err)
    then show ?thesis using 2 by (cases err) simp_all
  next
    case (Inr r)
    obtain l db1 where r: "r = (l, db1)" by (cases r)
    have k: "settlement_inv db1 \<and> settled_as db db1"
      using add_calculation_keeps [OF 2(4)] Inr r by blast
    have "sweep e i a rest (added + 1, skipped) db1 = Inr (n', db')" using 2(3) Inr r by simp
    then have "settlement_inv db' \<and> settled_as db1 db'" using 2(2) [OF Inr r [symmetric]] k by blast
    then show ?thesis using k settled_as_trans by blast
  qed
qed

lemma settlement_step_keeps:
  "settlement_step db db' \<Longrightarrow> settlement_inv db \<Longrightarrow> settlement_inv db' \<and> settled_as db db'"
proof (induction rule: settlement_step.induct)
  case (step_create sp ce f t cu cmd e a db s db')
  have "settled_as db db'"
    by (rule create_settlement_run [OF step_create(2)]) (rule settled_as_frame, auto)
  then show ?case using create_settlement_inv step_create by blast
next
  case (step_add_calculation e i k tx a db l db')
  then show ?case by (intro add_calculation_keeps)
next
  case (step_add_transaction e i t a db l db')
  show ?case
    by (rule add_transaction_eq [OF step_add_transaction(1)]) (rule add_calculation_keeps [OF step_add_transaction(2)])
next
  case (step_collect e i a db n db')
  then show ?case by (auto simp: collect_period_def result_simps dest: sweep_keeps)
next
  case (step_remove e i k a db u db')
  obtain s P where c: "settlement_change db s (s\<lparr>st_status := SDraft\<rparr>) P None db'"
    using remove_line_change [OF step_remove(2,1)] by metis
  then have "st_edge (st_status s) SDraft" by (simp add: settlement_change_def open_edges)
  then show ?case
    using settlement_change_inv [OF step_remove(2) c] settlement_change_settled_as [OF step_remove(2) c] by simp
next
  case (step_totals e i a db s' db')
  obtain s where c: "settlement_change db s s' (\<lambda>_. True) None db'" and t: "st_status s' = SCalculated" "totalled (settlement_lines db') s'"
    using calculate_totals_change [OF step_totals(1)] by metis
  have "st_edge (st_status s) SCalculated" using c by (simp add: settlement_change_def open_edges)
  then show ?case
    using settlement_change_inv [OF step_totals(2) c] settlement_change_settled_as [OF step_totals(2) c] t by simp
next
  case (step_finalize e i a db s' db')
  obtain s where c: "settlement_change db s s' (\<lambda>_. True) None db'" and t: "st_status s = SCalculated"
      "s' = s\<lparr>st_status := SFinalized, st_finalized_at := Some (now e)\<rparr>" "totalled (settlement_lines db') s'"
      "\<exists>l \<in> set (settlement_lines db'). sl_settlement l = st_id s'"
    using finalize_change [OF step_finalize(2,1)] by metis
  then show ?case
    using settlement_change_inv [OF step_finalize(2) c] settlement_change_settled_as [OF step_finalize(2) c] open_edges(4)
    by simp
next
  case (step_cancel e i r a db s' db')
  obtain s where c: "settlement_change db s s' (\<lambda>_. True) None db'"
      and t: "s' = s\<lparr>st_status := SCancelled, st_cancelled_at := Some (now e)\<rparr>"
    using cancel_settlement_change [OF step_cancel(1)] by metis
  have "st_edge (st_status s) SCancelled" using c by (simp add: settlement_change_def open_edges)
  then show ?case
    using settlement_change_inv [OF step_cancel(2) c] settlement_change_settled_as [OF step_cancel(2) c] t by simp
next
  case (step_elsewhere db' db)
  have "settlement_numbers (sequences db') (settlements db)"
    using settlement_invD(6) [OF step_elsewhere(6)] step_elsewhere(5)
    unfolding settlement_numbers_def by (rule_tac numbers_kept) auto
  moreover have "traced (settlements db) (settlement_lines db) (outbox db')"
    using settlement_invD(5) [OF step_elsewhere(6)] step_elsewhere(3)
    unfolding traced_def by (fastforce simp: look_event_def find_append)
  moreover have "lines_ok (next_id db') (settlements db) (settlement_lines db)"
    using settlement_invD(2) [OF step_elsewhere(6)] step_elsewhere(4) unfolding lines_ok_def by fastforce
  moreover have "settlements_ok (next_id db') (settlements db)"
    using settlement_invD(1) [OF step_elsewhere(6)] step_elsewhere(4) unfolding settlements_ok_def by fastforce
  moreover have "settled_as db db'" using step_elsewhere by (intro settled_as_frame) auto
  ultimately show ?case
    using settlement_invD(3,4) [OF step_elsewhere(6)] step_elsewhere(1,2) by (simp add: settlement_inv_def)
qed

lemma settlement_run_keeps:
  "settlement_step\<^sup>*\<^sup>* db db' \<Longrightarrow> settlement_inv db \<Longrightarrow> settlement_inv db' \<and> settled_as db db'"
  by (induction rule: rtranclp_induct) (auto intro: settled_as_refl dest: settlement_step_keeps settled_as_trans)

lemma no_settlements_inv: "no_settlements db \<Longrightarrow> settlement_inv db"
  by (simp add: no_settlements_def settlement_inv_def settlements_ok_def lines_ok_def paid_once_def totals_ok_def
      traced_def settlement_numbers_def)

end
