(* ===== verification/SettlementGuarantees.thy ===== *)
theory SettlementGuarantees
  imports SettlementSteps
begin

text \<open>
  What the settlement module promises: nothing is paid twice, a finalized settlement is final and
  its totals are exact, every amount comes from a recorded calculation, and sweeping a period twice
  adds nothing.
\<close>

section \<open>Totals\<close>

lemma add_up_dec_sum:
  assumes "add_up acc c xs = Inr m" and "currency acc = str_upper c" and "precision acc = 2"
  shows "amount m = dec_sum (amount acc) xs"
  using assms
proof (induction xs arbitrary: acc)
  case (Cons x xs)
  then obtain n acc' where n: "std_money x c = Inr n" and a: "money_plus acc n = Inr acc'" and r: "add_up acc' c xs = Inr m"
    by (auto simp: result_simps)
  have n': "amount n = x" "currency n = str_upper c" "precision n = 2"
    using n mk_money_InrD by (auto simp: std_money_def)
  have "mk_money (dec_add (amount acc) x) (str_upper c) 2 (rounding_policy acc) = Inr acc'"
    using a n' Cons.prems(2,3) by (simp add: money_plus_def)
  then have "amount acc' = dec_add (amount acc) x" "currency acc' = str_upper (str_upper c)" "precision acc' = 2"
    using mk_money_InrD by blast+
  then show ?case using Cons.IH [OF r] by (simp add: str_upper_idem)
qed simp

lemma sum_abs_bound:
  assumes "\<And>x. x \<in> set xs \<Longrightarrow> \<bar>x\<bar> \<le> b"
  shows "(\<Sum>x\<leftarrow>xs. \<bar>x\<bar>) \<le> of_nat (length xs) * (b :: rat)"
  using assms by (induction xs) (auto simp: algebra_simps intro: add_mono)

lemma totalled_exact:
  assumes t: "totalled ls s" and few: "length (filter (\<lambda>l. sl_settlement l = st_id s) ls) \<le> 10 ^ 11"
    and fit: "\<And>l. l \<in> set ls \<Longrightarrow> at_scale 2 (sl_gross l) \<and> \<bar>sl_gross l\<bar> < 10 ^ 14"
  shows "st_gross s = (\<Sum>l \<leftarrow> filter (\<lambda>l. sl_settlement l = st_id s) ls. sl_gross l) \<and> st_net s = st_gross s"
proof -
  let ?ls = "filter (\<lambda>l. sl_settlement l = st_id s) ls"
  let ?xs = "map sl_gross (sort_key sl_date (sort_key sl_created_at ?ls))"
  obtain m :: money where m: "amount m = dec_sum 0 ?xs" "numeric 16 2 (amount m) = Inr (st_gross s)"
      "numeric 16 2 (dec_add (amount m) 0) = Inr (st_net s)"
  proof -
    obtain m where a: "add_up \<lparr>amount = 0, currency = str_upper (st_currency s), precision = 2,
             rounding_policy = ROUNDING_POLICY_UNSPECIFIED\<rparr> (st_currency s) ?xs = Inr m"
        "numeric 16 2 (amount m) = Inr (st_gross s)" "numeric 16 2 (dec_add (amount m) 0) = Inr (st_net s)"
      using t unfolding totalled_def by blast
    have "amount m = dec_sum 0 ?xs" using add_up_dec_sum [OF a(1)] by simp
    then show thesis using that a(2,3) by blast
  qed
  have fits: "at_scale 2 x \<and> \<bar>x\<bar> \<le> 10 ^ 14" if "x \<in> set ?xs" for x
    using that fit by (auto intro: less_imp_le)
  have "(\<Sum>x\<leftarrow>?xs. \<bar>x\<bar>) \<le> of_nat (length ?xs) * 10 ^ 14"
    using fits by (intro sum_abs_bound) blast
  also have "\<dots> \<le> of_nat (10 ^ 11) * 10 ^ 14"
    using few by (intro mult_right_mono) (simp_all only: of_nat_le_iff length_map length_sort, simp_all)
  finally have b: "(\<bar>0\<bar> + (\<Sum>x\<leftarrow>?xs. \<bar>x\<bar>)) * 10 ^ 2 < 10 ^ prec" by (simp add: prec_def)
  have sum: "amount m = sum_list ?xs"
    using dec_sum_exact [of 2 0 ?xs] b fits m(1) by simp
  have scale: "at_scale 2 (amount m)" unfolding sum by (rule at_scale_sum_list) (use fits in blast)
  have g: "st_gross s = amount m" using numeric_at_scale [OF scale m(2)] .
  have "\<bar>amount m\<bar> < 10 ^ 14" using numeric_InrD [OF m(2)] g by simp
  then have "dec_add (amount m) 0 = amount m"
    using scale by (subst dec_add_exact [of 2]) (simp_all add: prec_def)
  then have "st_net s = st_gross s" using m(2,3) by simp
  moreover have "sum_list ?xs = (\<Sum>l\<leftarrow>?ls. sl_gross l)" by (simp only: sort_key_sum)
  ultimately show ?thesis using g sum by simp
qed

lemma line_amounts_fit:
  assumes "settlement_inv db" and "l \<in> set (settlement_lines db)"
  shows "at_scale 3 (sl_quantity l) \<and> at_scale 4 (sl_price l) \<and> at_scale 2 (sl_gross l) \<and> \<bar>sl_gross l\<bar> < 10 ^ 14"
proof -
  obtain ev where "copied ev l" using settlement_invD(5) [OF assms(1)] assms(2) unfolding traced_def by blast
  then show ?thesis using numeric_InrD unfolding copied_def by fastforce
qed

section \<open>Sweeping a period\<close>

text \<open>While lines are added, a settlement keeps its terms and stays open or stays as it is.\<close>

definition same_terms :: "settlement \<Rightarrow> settlement \<Rightarrow> bool" where
  "same_terms s s' \<longleftrightarrow> s' = s \<or> (\<not> st_final (st_status s) \<and> \<not> st_final (st_status s') \<and> st_home s' = st_home s)"

definition extends :: "'a settlement_db_scheme \<Rightarrow> 'a settlement_db_scheme \<Rightarrow> bool" where
  "extends db db' \<longleftrightarrow> list_all2 same_terms (settlements db) (settlements db')
     \<and> set (settlement_lines db) \<subseteq> set (settlement_lines db') \<and> transactions db' = transactions db
     \<and> (\<exists>evs. outbox db' = outbox db @ evs)"

lemma same_terms_refl: "same_terms s s"
  by (simp add: same_terms_def)

lemma same_terms_trans: "same_terms a b \<Longrightarrow> same_terms b c \<Longrightarrow> same_terms a c"
  by (auto simp: same_terms_def)

lemma extends_refl: "extends db db"
  by (simp add: extends_def list.rel_refl same_terms_refl)

lemma extends_trans: "extends a b \<Longrightarrow> extends b c \<Longrightarrow> extends a c"
  unfolding extends_def using list_all2_trans [of same_terms same_terms same_terms, OF same_terms_trans] by fastforce

lemma list_ex_same_terms:
  assumes "list_all2 same_terms xs ys" and "\<And>x y. same_terms x y \<Longrightarrow> P x = Q y"
  shows "list_ex P xs = list_ex Q ys"
  using assms(1) by (induction rule: list_all2_induct) (simp_all add: assms(2))

lemma find_same_terms:
  assumes "list_all2 same_terms xs ys" and "\<And>x y. same_terms x y \<Longrightarrow> P x = Q y"
  shows "find P xs = None \<longleftrightarrow> find Q ys = None"
  using assms(1) by (induction rule: list_all2_induct) (simp_all add: assms(2))

lemma same_terms_fields:
  "same_terms s s' \<Longrightarrow> st_id s' = st_id s \<and> st_tenant s' = st_tenant s \<and> st_supplier s' = st_supplier s
     \<and> st_from s' = st_from s \<and> st_to s' = st_to s \<and> st_currency s' = st_currency s
     \<and> (st_status s' = SCancelled \<longleftrightarrow> st_status s = SCancelled) \<and> (st_status s' = SFinalized \<longleftrightarrow> st_status s = SFinalized)"
  by (auto simp: same_terms_def st_home_eq st_final_iff)

lemma row_get_same_terms:
  assumes "list_all2 same_terms xs ys"
  shows "row_get st_id i xs = Some s \<Longrightarrow> \<exists>s'. row_get st_id i ys = Some s' \<and> same_terms s s'"
  using assms(1) by (induction rule: list_all2_induct) (auto simp: same_terms_fields split: if_splits)

lemma live_line_extends: "extends db db' \<Longrightarrow> live_line t db' l = live_line t db l"
  unfolding live_line_def extends_def
  by (rule list_ex_same_terms [symmetric], erule conjunct1) (simp add: same_terms_fields)

text \<open>Why a priced transaction is passed over.\<close>

definition passed_over :: "'a settlement_db_scheme \<Rightarrow> settlement \<Rightarrow> uuid \<times> uuid \<Rightarrow> bool" where
  "passed_over db s kt \<longleftrightarrow>
     (\<exists>ev. find_aggregate_event ''pricing_calculation'' (fst kt) (st_tenant s) db = Some ev \<and>
        (map_of (ev_payload ev) ''currency'' \<noteq> Some (JStr (st_currency s))
         \<or> (\<exists>l \<in> set (settlement_lines db). (sl_calculation l = fst kt \<or> sl_transaction l = Some (snd kt))
              \<and> live_line (st_tenant s) db l)
         \<or> (\<exists>on. date_field (ev_payload ev) ''transaction_date'' = Inr on
              \<and> (\<exists>err. assert_line_date_settleable s on db = Inl err))))"

lemma date_conflict: "assert_line_date_settleable s on db = Inl err \<Longrightarrow> \<exists>why. err = ConflictError why"
  by (auto simp: assert_line_date_settleable_def split: if_splits)

lemma no_conflict: "numeric p s x \<noteq> Inl (ConflictError why)" "dec_field f k \<noteq> Inl (ConflictError why)"
  "date_field f k \<noteq> Inl (ConflictError why)"
  by (auto simp: numeric_def dec_field_def date_field_def Let_def split: option.splits json.splits)

lemma passed_over_iff:
  assumes "get_settlement e db i = Inr s" and "\<not> st_final (st_status s)"
  shows "(\<exists>why. add_calculation e i k (Some t) a db = Inl (ConflictError why)) \<longleftrightarrow> passed_over db s (k, t)"
proof -
  have o: "require_open s = Inr ()" using assms(2) by (simp add: require_open_Inr)
  show ?thesis
  proof (cases "find_aggregate_event ''pricing_calculation'' k (st_tenant s) db")
    case None
    then show ?thesis by (simp add: add_calculation_def assms(1) o verified_calculation_def passed_over_def)
  next
    case (Some ev)
    show ?thesis
    proof (cases "map_of (ev_payload ev) ''currency'' \<noteq> Some (JStr (st_currency s))
        \<or> (\<exists>l \<in> set (settlement_lines db). (sl_calculation l = k \<or> sl_transaction l = Some t) \<and> live_line (st_tenant s) db l)")
      case True
      then show ?thesis
        using Some by (auto simp: add_calculation_def assms(1) o verified_calculation_def passed_over_def list_ex_iff
            assert_calculation_unsettled_def assert_transaction_unsettled_def)
    next
      case False
      then have v: "verified_calculation s k db = Inr ev" "assert_calculation_unsettled s k db = Inr ()"
          "assert_transaction_unsettled s t db = Inr ()"
        using Some by (auto simp: verified_calculation_def list_ex_iff assert_calculation_unsettled_def assert_transaction_unsettled_def)
      have "passed_over db s (k, t) \<longleftrightarrow> (\<exists>on. date_field (ev_payload ev) ''transaction_date'' = Inr on
              \<and> (\<exists>err. assert_line_date_settleable s on db = Inl err))"
        using False Some by (auto simp: passed_over_def)
      then show ?thesis
        using date_conflict
        by (simp add: add_calculation_def assms(1) o v andthen_eq_Inl Let_def split_def no_conflict) blast
    qed
  qed
qed

lemma passed_over_extends:
  assumes "extends db db'" and "passed_over db s kt" and "same_terms s s'"
  shows "passed_over db' s' kt"
proof -
  note x = assms(1) [unfolded extends_def]
  have h: "st_tenant s' = st_tenant s" "st_currency s' = st_currency s" "st_supplier s' = st_supplier s"
      "st_from s' = st_from s" "st_to s' = st_to s"
    using same_terms_fields [OF assms(3)] by simp_all
  have "find (\<lambda>o'. st_tenant o' = st_tenant s \<and> st_supplier o' = st_supplier s \<and> st_status o' = SFinalized
          \<and> st_from o' \<le> on \<and> on \<le> st_to o') (settlements db) = None
      \<longleftrightarrow> find (\<lambda>o'. st_tenant o' = st_tenant s \<and> st_supplier o' = st_supplier s \<and> st_status o' = SFinalized
          \<and> st_from o' \<le> on \<and> on \<le> st_to o') (settlements db') = None" for on
    by (rule find_same_terms [OF conjunct1 [OF x]]) (simp add: same_terms_fields)
  then have d: "(\<exists>err. assert_line_date_settleable s' on db' = Inl err) = (\<exists>err. assert_line_date_settleable s on db = Inl err)" for on
    by (simp add: assert_line_date_settleable_def h)
  obtain ev where ev: "find_aggregate_event ''pricing_calculation'' (fst kt) (st_tenant s) db = Some ev"
    and why: "map_of (ev_payload ev) ''currency'' \<noteq> Some (JStr (st_currency s))
         \<or> (\<exists>l \<in> set (settlement_lines db). (sl_calculation l = fst kt \<or> sl_transaction l = Some (snd kt))
              \<and> live_line (st_tenant s) db l)
         \<or> (\<exists>on. date_field (ev_payload ev) ''transaction_date'' = Inr on
              \<and> (\<exists>err. assert_line_date_settleable s on db = Inl err))"
    using assms(2) unfolding passed_over_def by blast
  have "find_aggregate_event ''pricing_calculation'' (fst kt) (st_tenant s) db' = Some ev"
    using ev x by (auto simp: find_aggregate_event_def find_append)
  moreover have "set (settlement_lines db) \<subseteq> set (settlement_lines db')" using x by blast
  ultimately show ?thesis
    using why live_line_extends [OF assms(1)] unfolding passed_over_def h d by blast
qed

lemma get_settlement_extends:
  assumes "extends db db'" and "get_settlement e db i = Inr s" and "current_tenant e' = current_tenant e"
  obtains s' where "get_settlement e' db' i = Inr s'" "same_terms s s'"
proof -
  have "row_get st_id i (settlements db) = Some s"
    using assms(2) by (auto simp: get_settlement_def result_simps split: option.splits if_splits)
  then obtain s' where s': "row_get st_id i (settlements db') = Some s'" "same_terms s s'"
    using row_get_same_terms assms(1) unfolding extends_def by blast
  then have "get_settlement e' db' i = Inr s'"
    using assms(2,3) same_terms_fields [OF s'(2)]
    by (auto simp: get_settlement_def require_current_tenant_def result_simps split: option.splits if_splits)
  then show thesis using that s'(2) by blast
qed

lemma list_all2_row_update:
  "(\<And>x. x \<in> set xs \<Longrightarrow> R x (if key x = i then f x else x)) \<Longrightarrow> list_all2 R xs (row_update key i f xs)"
  by (induction xs) auto

lemma add_calculation_extends:
  fixes db :: "'a settlement_db_scheme"
  assumes u: "unique_keys st_id (settlements db)" and r: "add_calculation e i k (Some t) a db = Inr (l, db')"
    and s: "get_settlement e db i = Inr s"
  shows "extends db db' \<and> unique_keys st_id (settlements db') \<and> passed_over db' s (k, t)"
proof -
  obtain ev where c: "settlement_change db s (s\<lparr>st_status := SDraft\<rparr>) (\<lambda>_. True) (Some l) db'"
    and ev: "verified_calculation s k db = Inr ev" and l: "sl_settlement l = st_id s" "sl_calculation l = k"
    using add_calculation_run [OF r] s by (metis Inr_inject)
  note c' = c [unfolded settlement_change_def]
  have ts: "same_terms s (s\<lparr>st_status := SDraft\<rparr>)"
    using c' by (simp add: same_terms_def st_final_def OPEN_STATUSES_def)
  have "same_terms x (if st_id x = st_id s then s\<lparr>st_status := SDraft\<rparr> else x)" if "x \<in> set (settlements db)" for x
    using unique_keysD [OF u that, of s] c' ts same_terms_refl by auto
  then have "list_all2 same_terms (settlements db) (settlements db')"
    using c' list_all2_row_update [of "settlements db" same_terms st_id "st_id s" "\<lambda>_. s\<lparr>st_status := SDraft\<rparr>"] by simp
  then have x: "extends db db'" using c' by (auto simp: extends_def)
  have "unique_keys st_id (settlements db')" using c' unique_keys_row_put [OF u, of s st_id "s\<lparr>st_status := SDraft\<rparr>"] u by simp
  moreover have "passed_over db' s (k, t)"
  proof -
    obtain evs where "outbox db' = outbox db @ evs" using c' by blast
    then have "find_aggregate_event ''pricing_calculation'' k (st_tenant s) db' = Some ev"
      using ev by (auto simp: verified_calculation_def find_aggregate_event_def find_append split: option.splits if_splits)
    moreover have "l \<in> set (settlement_lines db')" using c' by simp
    moreover have "live_line (st_tenant s) db' l"
      unfolding live_line_def list_ex_iff using c' l
      by (intro bexI [of _ "s\<lparr>st_status := SDraft\<rparr>"]) (auto simp: row_update_in)
    ultimately show ?thesis using l unfolding passed_over_def by auto
  qed
  ultimately show ?thesis using x by blast
qed

lemma same_terms_both: "same_terms s s1 \<Longrightarrow> same_terms s s' \<Longrightarrow> \<not> st_final (st_status s) \<Longrightarrow> same_terms s1 s'"
  by (auto simp: same_terms_def)

lemma same_terms_open: "same_terms s s' \<Longrightarrow> st_final (st_status s') = st_final (st_status s)"
  by (auto simp: same_terms_def)

lemma sweep_passes_over:
  fixes db :: "'a settlement_db_scheme"
  shows "sweep e i a ks c db = Inr (c', db') \<Longrightarrow> unique_keys st_id (settlements db) \<Longrightarrow> get_settlement e db i = Inr s
    \<Longrightarrow> \<not> st_final (st_status s)
    \<Longrightarrow> extends db db' \<and> fst c' + snd c' = fst c + snd c + length ks \<and> (\<forall>s' kt. same_terms s s' \<longrightarrow> kt \<in> set ks \<longrightarrow> passed_over db' s' kt)"
proof (induction e i a ks c db arbitrary: s rule: sweep.induct)
  case (1 e i a c db)
  then show ?case by (simp add: extends_refl)
next
  case (2 e i a k t rest added skipped db)
  note run = 2(3) and u = 2(4) and s = 2(5) and o = 2(6)
  show ?case
  proof (cases "add_calculation e i k (Some t) a db")
    case (Inl err)
    then obtain why where err: "err = ConflictError why" using run by (cases err) auto
    have "sweep e i a rest (added, skipped + 1) db = Inr (c', db')" using run Inl err by simp
    then have ih: "extends db db' \<and> fst c' + snd c' = added + (skipped + 1) + length rest
        \<and> (\<forall>s' kt. same_terms s s' \<longrightarrow> kt \<in> set rest \<longrightarrow> passed_over db' s' kt)"
      using 2(1) [OF Inl err _ u s o] by simp
    moreover have "passed_over db s (k, t)" using passed_over_iff [OF s o] Inl err by blast
    ultimately show ?thesis using passed_over_extends [of db db'] by auto
  next
    case (Inr r)
    obtain l db1 where r: "r = (l, db1)" by (cases r)
    have x: "extends db db1" "unique_keys st_id (settlements db1)" "passed_over db1 s (k, t)"
      using add_calculation_extends [OF u Inr [unfolded r] s] by blast+
    obtain s1 where s1: "get_settlement e db1 i = Inr s1" "same_terms s s1"
      using get_settlement_extends [OF x(1) s refl] .
    have "sweep e i a rest (added + 1, skipped) db1 = Inr (c', db')" using run Inr r by simp
    then have ih: "extends db1 db' \<and> fst c' + snd c' = added + 1 + skipped + length rest
        \<and> (\<forall>s' kt. same_terms s1 s' \<longrightarrow> kt \<in> set rest \<longrightarrow> passed_over db' s' kt)"
      using 2(2) [OF Inr r [symmetric] _ x(2) s1(1)] same_terms_open [OF s1(2)] o by simp
    have "passed_over db' s' kt" if "same_terms s s'" "kt \<in> set ((k, t) # rest)" for s' kt
    proof (cases "kt = (k, t)")
      case True
      then show ?thesis using passed_over_extends [of db1 db' s "(k, t)"] ih x(3) that(1) by blast
    next
      case False
      then show ?thesis using ih that(2) same_terms_both [OF s1(2) that(1) o] by (cases kt) auto
    qed
    then show ?thesis using ih extends_trans [OF x(1)] by auto
  qed
qed

lemma sweep_all_passed_over:
  "\<forall>kt \<in> set ks. passed_over db s kt \<Longrightarrow> get_settlement e db i = Inr s \<Longrightarrow> \<not> st_final (st_status s)
    \<Longrightarrow> sweep e i a ks (x, y) db = Inr ((x, y + length ks), db)"
proof (induction ks arbitrary: y)
  case (Cons kt ks)
  obtain k t where kt: "kt = (k, t)" by (cases kt)
  obtain why where "add_calculation e i k (Some t) a db = Inl (ConflictError why)"
    using passed_over_iff [OF Cons.prems(2,3), of k t a] Cons.prems(1) kt by auto
  then show ?case using Cons by (simp add: kt)
qed simp

lemma sweep_candidates_same: "transactions db' = transactions db \<Longrightarrow> same_terms s s' \<Longrightarrow> sweep_candidates s' db' = sweep_candidates s db"
proof -
  assume "transactions db' = transactions db" and t: "same_terms s s'"
  moreover have "st_center s' = st_center s" using t by (auto simp: same_terms_def st_home_eq)
  ultimately show ?thesis using same_terms_fields [OF t] by (simp add: sweep_candidates_def sweep_until_def)
qed

text \<open>
  C30: Sweeping a period is idempotent, as its docstring promises: after a sweep that added and
  skipped some transactions, sweeping again, by any user at any time, adds none, skips all of them
  and leaves the database as it was.
\<close>

theorem collect_period_idempotent:
  fixes db :: "'a settlement_db_scheme"
  assumes "unique_keys st_id (settlements db)" and "collect_period e i actor db = Inr ((added, skipped), db')"
    and "current_tenant e' = current_tenant e"
  shows "collect_period e' i actor' db' = Inr ((0, added + skipped), db')"
proof -
  obtain s where s: "get_settlement e db i = Inr s" "\<not> st_final (st_status s)"
    and run: "sweep e i actor (sweep_candidates s db) (0, 0) db = Inr ((added, skipped), db')"
    using assms(2) by (auto simp: collect_period_def result_simps)
  have p: "extends db db'" "added + skipped = length (sweep_candidates s db)"
      "\<And>s' kt. same_terms s s' \<Longrightarrow> kt \<in> set (sweep_candidates s db) \<Longrightarrow> passed_over db' s' kt"
    using sweep_passes_over [OF run assms(1) s] by auto
  obtain s' where s': "get_settlement e' db' i = Inr s'" "same_terms s s'"
    using get_settlement_extends [OF p(1) s(1) assms(3)] .
  have c: "sweep_candidates s' db' = sweep_candidates s db"
    using p(1) s'(2) by (intro sweep_candidates_same) (simp_all add: extends_def)
  have o: "\<not> st_final (st_status s')" using same_terms_open [OF s'(2)] s(2) by simp
  then have "require_open s' = Inr ()" by (simp add: require_open_Inr)
  with o show ?thesis
    using sweep_all_passed_over [of "sweep_candidates s db" db' s' e' i actor' 0 0] p(2,3) s'
    by (simp add: collect_period_def c)
qed

section \<open>What every reachable state keeps\<close>

text \<open>
  C6: In every state the platform can reach from an installation without settlements, the periods of
  a supplier's standing settlements never overlap (BR-0009), no pricing calculation and no
  collection is on two standing lines (BR-0008, BR-0012), a line lies in its settlement's period or
  in an earlier one that was already closed (BR-0027), and no two settlements of an organisation
  share a number.
\<close>

theorem settlements_consistent:
  fixes db0 db :: "'a settlement_db_scheme"
  assumes "no_settlements db0" and "settlement_step\<^sup>*\<^sup>* db0 db"
  shows "(\<forall>s \<in> set (settlements db). \<forall>s' \<in> set (settlements db). st_id s \<noteq> st_id s' \<longrightarrow> st_tenant s = st_tenant s'
            \<longrightarrow> st_supplier s = st_supplier s' \<longrightarrow> st_status s \<noteq> SCancelled \<longrightarrow> st_status s' \<noteq> SCancelled
            \<longrightarrow> \<not> periods_overlap (st_from s) (st_to s) (st_from s') (st_to s'))
       \<and> (\<forall>l \<in> set (settlement_lines db). \<forall>l' \<in> set (settlement_lines db). sl_id l \<noteq> sl_id l' \<longrightarrow> sl_tenant l = sl_tenant l'
            \<longrightarrow> live_line (sl_tenant l) db l \<longrightarrow> live_line (sl_tenant l') db l'
            \<longrightarrow> sl_calculation l \<noteq> sl_calculation l' \<and> (sl_transaction l = None \<or> sl_transaction l \<noteq> sl_transaction l'))
       \<and> (\<forall>l \<in> set (settlement_lines db). \<exists>s \<in> set (settlements db). st_id s = sl_settlement l \<and> st_tenant s = sl_tenant l
            \<and> settleable (settlements db) s (sl_date l))
       \<and> (\<forall>s \<in> set (settlements db). \<forall>s' \<in> set (settlements db). st_tenant s = st_tenant s' \<longrightarrow> st_number s = st_number s'
            \<longrightarrow> st_id s = st_id s')"
proof -
  have inv: "settlement_inv db" using settlement_run_keeps [OF assms(2)] no_settlements_inv [OF assms(1)] by blast
  note i = settlement_invD [OF inv]
  have "\<not> same_milk l l'" if "l \<in> set (settlement_lines db)" "l' \<in> set (settlement_lines db)" "sl_id l \<noteq> sl_id l'"
      "live_line (sl_tenant l) db l" "live_line (sl_tenant l') db l'" for l l'
    using i(3) that standing_live [OF inv] unfolding paid_once_def by blast
  then have "\<forall>l \<in> set (settlement_lines db). \<forall>l' \<in> set (settlement_lines db). sl_id l \<noteq> sl_id l' \<longrightarrow> sl_tenant l = sl_tenant l'
      \<longrightarrow> live_line (sl_tenant l) db l \<longrightarrow> live_line (sl_tenant l') db l'
      \<longrightarrow> sl_calculation l \<noteq> sl_calculation l' \<and> (sl_transaction l = None \<or> sl_transaction l \<noteq> sl_transaction l')"
    unfolding same_milk_def by blast
  moreover have "st_id s = st_id s'" if "s \<in> set (settlements db)" "s' \<in> set (settlements db)" "st_tenant s = st_tenant s'"
      "st_number s = st_number s'" for s s'
    using numbers_okD(2) [OF i(6) [unfolded settlement_numbers_def] that(1,2,3)] that(4) by simp
  moreover have "\<forall>l \<in> set (settlement_lines db). \<exists>s \<in> set (settlements db). st_id s = sl_settlement l \<and> st_tenant s = sl_tenant l
            \<and> settleable (settlements db) s (sl_date l)"
    using i(2) unfolding lines_ok_def by blast
  ultimately show ?thesis using i(1) unfolding settlements_ok_def by blast
qed

text \<open>
  C8: A finalized settlement is final (BR-0010): whatever happens afterwards, its row, its totals and
  its lines stay as they are. In particular it cannot be reopened, recalculated or cancelled.
\<close>

theorem finalized_settlement_immutable:
  fixes db0 db db' :: "'a settlement_db_scheme"
  assumes "no_settlements db0" and "settlement_step\<^sup>*\<^sup>* db0 db" and "settlement_step\<^sup>*\<^sup>* db db'"
    and "s \<in> set (settlements db)" and "st_status s = SFinalized"
  shows "s \<in> set (settlements db') \<and> lines_of db' (st_id s) = lines_of db (st_id s)
       \<and> (\<forall>s' \<in> set (settlements db'). st_id s' = st_id s \<longrightarrow> s' = s)"
proof -
  have inv: "settlement_inv db" using settlement_run_keeps [OF assms(2)] no_settlements_inv [OF assms(1)] by blast
  note run = settlement_run_keeps [OF assms(3) inv]
  have s: "s \<in> set (settlements db')"
      "filter (\<lambda>l. sl_settlement l = st_id s) (settlement_lines db') = filter (\<lambda>l. sl_settlement l = st_id s) (settlement_lines db)"
    using run assms(4,5) unfolding settled_as_def by (auto simp: st_final_iff)
  then show ?thesis
    using unique_keysD [OF settlement_invD(7) [OF conjunct1 [OF run]] _ s(1)] by (auto simp: lines_of_def)
qed

text \<open>
  C7: The totals of a settlement are the exact sum of its lines (BR-0011). As long as it has at most
  a hundred thousand million lines, the stored gross amount of a calculated or finalized settlement
  is the sum, over the rationals, of the stored amounts of its lines, and the net amount is the same:
  the context arithmetic the service computes with never rounds.
\<close>

theorem settlement_totals_exact:
  fixes db0 db :: "'a settlement_db_scheme"
  assumes "no_settlements db0" and "settlement_step\<^sup>*\<^sup>* db0 db" and "s \<in> set (settlements db)"
    and "st_status s = SCalculated \<or> st_status s = SFinalized" and "line_count db (st_id s) \<le> 10 ^ 11"
  shows "st_gross s = (\<Sum>l \<leftarrow> filter (\<lambda>l. sl_settlement l = st_id s) (settlement_lines db). sl_gross l)
       \<and> st_net s = st_gross s"
proof -
  have inv: "settlement_inv db" using settlement_run_keeps [OF assms(2)] no_settlements_inv [OF assms(1)] by blast
  have "totalled (settlement_lines db) s" using settlement_invD(4) [OF inv] assms(3,4) by (auto simp: totals_ok_def)
  then show ?thesis
    by (rule totalled_exact) (use assms(5) line_amounts_fit [OF inv] in \<open>auto simp: line_count_def\<close>)
qed

text \<open>
  Amounts never come from the client. In every reachable state each line carries the date,
  quantity, price and amount of the recorded calculation it names, each rounded once to the scale of
  its column, and refers to that record; the calculation was priced in the settlement's currency.
\<close>

theorem settlement_lines_traceable:
  fixes db0 db :: "'a settlement_db_scheme"
  assumes "no_settlements db0" and "settlement_step\<^sup>*\<^sup>* db0 db" and "l \<in> set (settlement_lines db)"
  shows "\<exists>ev s. find_aggregate_event ''pricing_calculation'' (sl_calculation l) (sl_tenant l) db = Some ev
       \<and> sl_trace l = ev_id ev \<and> s \<in> set (settlements db) \<and> st_id s = sl_settlement l
       \<and> map_of (ev_payload ev) ''currency'' = Some (JStr (st_currency s))
       \<and> date_field (ev_payload ev) ''transaction_date'' = Inr (sl_date l)
       \<and> andthen (dec_field (ev_payload ev) ''quantity'') (numeric 14 3) = Inr (sl_quantity l)
       \<and> andthen (dec_field (ev_payload ev) ''unit_price'') (numeric 12 4) = Inr (sl_price l)
       \<and> andthen (dec_field (ev_payload ev) ''gross_amount'') (numeric 16 2) = Inr (sl_gross l)"
proof -
  have inv: "settlement_inv db" using settlement_run_keeps [OF assms(2)] no_settlements_inv [OF assms(1)] by blast
  obtain ev s where "look_event (outbox db) (Some ''pricing_calculation'', Some (sl_calculation l), Some (sl_tenant l)) = Some ev"
      "copied ev l" "s \<in> set (settlements db)" "st_id s = sl_settlement l"
      "map_of (ev_payload ev) ''currency'' = Some (JStr (st_currency s))"
    using settlement_invD(5) [OF inv] assms(3) unfolding traced_def by blast
  then show ?thesis
    by (intro exI [of _ ev] exI [of _ s]) (auto simp: find_aggregate_event_look copied_def date_field_def dec_field_def)
qed

section \<open>What a line does not depend on\<close>

lemma andthen_case:
  "(case andthen m f of Inl e \<Rightarrow> Inl e | Inr y \<Rightarrow> h y) = andthen m (\<lambda>x. case f x of Inl e \<Rightarrow> Inl e | Inr y \<Rightarrow> h y)"
  by (cases m) simp_all

lemma set_transactions [simp]:
  "get_settlement e (db\<lparr>transactions := txs\<rparr>) i = get_settlement e db i"
  "verified_calculation s k (db\<lparr>transactions := txs\<rparr>) = verified_calculation s k db"
  "live_line t (db\<lparr>transactions := txs\<rparr>) l = live_line t db l"
  "assert_line_date_settleable s on (db\<lparr>transactions := txs\<rparr>) = assert_line_date_settleable s on db"
  "tenant_units e (db\<lparr>transactions := txs\<rparr>) t' = tenant_units e db t'"
  by (simp_all add: get_settlement_def verified_calculation_def find_aggregate_event_def live_line_def [abs_def]
      assert_line_date_settleable_def tenant_units_def tenant_org_def get_org_def [abs_def])

lemma set_transactions_unsettled [simp]:
  "assert_calculation_unsettled s k (db\<lparr>transactions := txs\<rparr>) = assert_calculation_unsettled s k db"
  "assert_transaction_unsettled s t (db\<lparr>transactions := txs\<rparr>) = assert_transaction_unsettled s t db"
  by (simp_all add: assert_calculation_unsettled_def assert_transaction_unsettled_def)

lemma line_on_transactions:
  "record_settlement e s n d a (put_settlement s' (db\<lparr>transactions := txs, next_id := i, settlement_lines := ls\<rparr>))
     = (record_settlement e s n d a (put_settlement s' (db\<lparr>next_id := i, settlement_lines := ls\<rparr>)))\<lparr>transactions := txs\<rparr>"
  by (rule settlement_db.equality)
    (simp_all add: record_settlement_def put_settlement_def publish_def audit_def audit_of_def new_id_eq Let_def)

text \<open>
  A calculation is put on a settlement without a look at the collection it prices: the outcome is
  the same whatever the collections table holds. So a calculation of another supplier's milk, or of
  milk that was rejected, is accepted when it is named directly, although the same collection is
  refused when it is added as a transaction.
\<close>

theorem add_calculation_ignores_collections:
  "add_calculation e i calc tx actor (db\<lparr>transactions := txs\<rparr>) =
     (case add_calculation e i calc tx actor db of
        Inl err \<Rightarrow> Inl err | Inr (l, db') \<Rightarrow> Inr (l, db'\<lparr>transactions := txs\<rparr>))"
  unfolding add_calculation_def andthen_case
  by (cases tx) (simp_all add: new_id_eq Let_def line_on_transactions)

end
