(* ===== verification/PaymentSteps.thy ===== *)
theory PaymentSteps
  imports Payment SettlementGuarantees
begin

text \<open>
  The payment module as a transition system on top of the settlements it pays: the consistency of
  payments, lines and attempts, the life cycle, and how much of a settlement is claimed.
\<close>

section \<open>The life cycle\<close>

definition pay_edge :: "payment_status \<Rightarrow> payment_status \<Rightarrow> bool" where
  "pay_edge s t \<longleftrightarrow>
     (s, t) \<in> {(PDraft, PPending), (PPending, PProcessing), (PFailed, PProcessing), (PProcessing, PCompleted),
              (PProcessing, PFailed), (PDraft, PCancelled), (PPending, PCancelled), (PFailed, PCancelled)}"

definition pay_final :: "payment_status \<Rightarrow> bool" where
  "pay_final s \<longleftrightarrow> s = PCompleted \<or> s = PCancelled"

interpretation payment_life: lifecycle pay_edge pay_final
  by unfold_locales (auto simp: pay_edge_def pay_final_def)

lemma pay_transition_Inr:
  "pay_transition p expected to = Inr p' \<longleftrightarrow>
     \<not> pay_final (py_status p) \<and> py_status p \<in> set expected \<and> p' = p\<lparr>py_status := to\<rparr>"
  by (auto simp: pay_transition_def pay_final_def)

definition py_home where
  "py_home p = (py_id p, py_tenant p, py_supplier p, py_number p, py_currency p, py_method p, py_amount p,
     py_details p, py_key p, py_note p, py_created_at p)"

lemma py_home_eq: "py_home p' = py_home p \<longleftrightarrow> py_id p' = py_id p \<and> py_tenant p' = py_tenant p
    \<and> py_supplier p' = py_supplier p \<and> py_number p' = py_number p \<and> py_currency p' = py_currency p
    \<and> py_method p' = py_method p \<and> py_amount p' = py_amount p \<and> py_details p' = py_details p
    \<and> py_key p' = py_key p \<and> py_note p' = py_note p \<and> py_created_at p' = py_created_at p"
  by (auto simp: py_home_def)

section \<open>The invariant\<close>

definition payments_ok :: "uuid \<Rightarrow> payment list \<Rightarrow> bool" where
  "payments_ok n ps \<longleftrightarrow> unique_keys py_id ps \<and> (\<forall>p \<in> set ps. py_id p < n)
     \<and> (\<forall>p \<in> set ps. \<forall>q \<in> set ps. py_tenant p = py_tenant q \<longrightarrow> py_key p \<noteq> None \<longrightarrow> py_key p = py_key q
          \<longrightarrow> py_id p = py_id q)"

text \<open>A line pays part of a finalized settlement of the payee, in the payment's currency.\<close>

definition pays :: "settlement list \<Rightarrow> payment list \<Rightarrow> payment_line \<Rightarrow> bool" where
  "pays ss ps l \<longleftrightarrow> at_scale 2 (pl_amount l) \<and> 0 < pl_amount l \<and>
     (\<exists>p \<in> set ps. py_id p = pl_payment l \<and> py_tenant p = pl_tenant l \<and>
        (\<exists>s \<in> set ss. st_id s = pl_settlement l \<and> st_tenant s = pl_tenant l \<and> st_status s = SFinalized
           \<and> st_supplier s = py_supplier p \<and> st_currency s = py_currency p \<and> st_number s = pl_number l))"

definition payment_lines_ok :: "uuid \<Rightarrow> settlement list \<Rightarrow> payment list \<Rightarrow> payment_line list \<Rightarrow> bool" where
  "payment_lines_ok n ss ps ls \<longleftrightarrow> unique_keys pl_id ls \<and> (\<forall>l \<in> set ls. pl_id l < n \<and> pays ss ps l)
     \<and> (\<forall>l \<in> set ls. \<forall>k \<in> set ls. pl_payment l = pl_payment k \<longrightarrow> pl_settlement l = pl_settlement k \<longrightarrow> pl_id l = pl_id k)"

definition amounts_ok :: "payment list \<Rightarrow> payment_line list \<Rightarrow> bool" where
  "amounts_ok ps ls \<longleftrightarrow> (\<forall>p \<in> set ps. 0 < py_amount p \<and>
     py_amount p = (\<Sum>l \<leftarrow> filter (\<lambda>l. pl_payment l = py_id p) ls. pl_amount l))"

text \<open>The attempts of a payment are numbered; one is open exactly while the payment is processing.\<close>

definition attempted :: "payment_attempt list \<Rightarrow> payment \<Rightarrow> bool" where
  "attempted ts p \<longleftrightarrow>
     map pt_count (filter (\<lambda>t. pt_payment t = py_id p) ts) = [1 ..< Suc (py_attempts p)]
     \<and> length (filter (\<lambda>t. pt_payment t = py_id p \<and> pt_status t = AProcessing) ts)
         = (if py_status p = PProcessing then 1 else 0)"

definition attempts_ok :: "uuid \<Rightarrow> payment list \<Rightarrow> payment_attempt list \<Rightarrow> bool" where
  "attempts_ok n ps ts \<longleftrightarrow> unique_keys pt_id ts
     \<and> (\<forall>t \<in> set ts. pt_id t < n \<and> (\<exists>p \<in> set ps. py_id p = pt_payment t)) \<and> (\<forall>p \<in> set ps. attempted ts p)"

definition payment_numbers :: "doc_sequence list \<Rightarrow> payment list \<Rightarrow> bool" where
  "payment_numbers qs ps \<longleftrightarrow> numbers_ok ''payment'' ''PAY'' py_id py_tenant (\<lambda>p. Some (py_number p)) qs ps"

definition payment_inv :: "'a payment_db_scheme \<Rightarrow> bool" where
  "payment_inv db \<longleftrightarrow> settlement_inv db \<and> payments_ok (next_id db) (payments db)
     \<and> payment_lines_ok (next_id db) (settlements db) (payments db) (payment_lines db)
     \<and> amounts_ok (payments db) (payment_lines db)
     \<and> attempts_ok (next_id db) (payments db) (payment_attempts db) \<and> payment_numbers (sequences db) (payments db)"

lemma payment_invD:
  assumes "payment_inv db"
  shows "settlement_inv db" "payments_ok (next_id db) (payments db)"
    "payment_lines_ok (next_id db) (settlements db) (payments db) (payment_lines db)"
    "amounts_ok (payments db) (payment_lines db)" "attempts_ok (next_id db) (payments db) (payment_attempts db)"
    "payment_numbers (sequences db) (payments db)"
  using assms unfolding payment_inv_def by blast+

lemma payment_inv_keys:
  assumes "payment_inv db"
  shows "unique_keys py_id (payments db)" "unique_keys pl_id (payment_lines db)" "unique_keys pt_id (payment_attempts db)"
  using payment_invD(2,3,5) [OF assms] unfolding payments_ok_def payment_lines_ok_def attempts_ok_def by blast+

lemma line_pays: "payment_inv db \<Longrightarrow> l \<in> set (payment_lines db) \<Longrightarrow> pays (settlements db) (payments db) l"
  using payment_invD(3) unfolding payment_lines_ok_def by blast

section \<open>Frames\<close>

lemma record_payment_tables [simp]:
  "settlements (record_payment e p n d a db) = settlements db"
  "settlement_lines (record_payment e p n d a db) = settlement_lines db"
  "payments (record_payment e p n d a db) = payments db"
  "payment_lines (record_payment e p n d a db) = payment_lines db"
  "payment_attempts (record_payment e p n d a db) = payment_attempts db"
  "sequences (record_payment e p n d a db) = sequences db"
  "next_id (record_payment e p n d a db) = Suc (next_id db)"
  by (simp_all add: record_payment_def audit_payment_def publish_def audit_def audit_of_def new_id_eq Let_def)

lemma audit_payment_tables [simp]:
  "settlements (audit_payment e p n d a db) = settlements db"
  "settlement_lines (audit_payment e p n d a db) = settlement_lines db"
  "payments (audit_payment e p n d a db) = payments db"
  "payment_lines (audit_payment e p n d a db) = payment_lines db"
  "payment_attempts (audit_payment e p n d a db) = payment_attempts db"
  "sequences (audit_payment e p n d a db) = sequences db" "outbox (audit_payment e p n d a db) = outbox db"
  "next_id (audit_payment e p n d a db) = next_id db"
  by (simp_all add: audit_payment_def audit_def audit_of_def)

lemma record_payment_outbox [simp]:
  "outbox (record_payment e p n d a db) = outbox db @
     [\<lparr>ev_id = next_id db, ev_tenant = current_tenant e, ev_aggregate_type = Some ''payment'',
       ev_aggregate_id = Some (py_id p), ev_name = bus_name PAYMENT_BUS_EVENTS n,
       ev_payload = [(''payment_id'', JId (py_id p)), (''payment_number'', JStr (py_number p)),
         (''supplier_id'', JId (py_supplier p)), (''status'', JStr (payment_status_name (py_status p)))] @ d,
       ev_actor = Some a, ev_at = now e\<rparr>]"
  by (simp add: record_payment_def outbox_publish audit_payment_def audit_def audit_of_def)

lemma put_payment_tables [simp]:
  "payments (put_payment p db) = row_update py_id (py_id p) (\<lambda>_. p) (payments db)"
  "settlements (put_payment p db) = settlements db" "settlement_lines (put_payment p db) = settlement_lines db"
  "payment_lines (put_payment p db) = payment_lines db" "payment_attempts (put_payment p db) = payment_attempts db"
  "sequences (put_payment p db) = sequences db" "next_id (put_payment p db) = next_id db"
  "outbox (put_payment p db) = outbox db"
  by (simp_all add: put_payment_def)

lemma close_attempt_tables [simp]:
  "payments (close_attempt e p st r f db) = payments db"
  "settlements (close_attempt e p st r f db) = settlements db"
  "settlement_lines (close_attempt e p st r f db) = settlement_lines db"
  "payment_lines (close_attempt e p st r f db) = payment_lines db"
  "sequences (close_attempt e p st r f db) = sequences db" "next_id (close_attempt e p st r f db) = next_id db"
  "outbox (close_attempt e p st r f db) = outbox db"
  by (simp_all add: close_attempt_def split: option.splits)

lemma get_payment_InrD:
  "get_payment e db i = Inr p \<Longrightarrow>
     p \<in> set (payments db) \<and> py_id p = i \<and> current_tenant e = Some (py_tenant p)"
  by (auto simp: get_payment_def result_simps require_current_tenant_def dest: row_get_SomeD
      split: option.splits if_splits)

section \<open>One transition\<close>

text \<open>
  Every life-cycle operation replaces the row of one payment and touches only its attempts.
\<close>

definition attempts_follow ::
  "uuid \<Rightarrow> payment_attempt list \<Rightarrow> payment \<Rightarrow> uuid \<Rightarrow> payment_attempt list \<Rightarrow> payment \<Rightarrow> bool" where
  "attempts_follow n ts p n' ts' p' \<longleftrightarrow>
     (unique_keys pt_id ts \<longrightarrow> attempted ts p \<longrightarrow> (\<forall>t \<in> set ts. pt_id t < n) \<longrightarrow>
        unique_keys pt_id ts' \<and> attempted ts' p' \<and> (\<forall>t \<in> set ts'. pt_id t < n')
        \<and> (\<forall>i. i \<noteq> py_id p \<longrightarrow> filter (\<lambda>t. pt_payment t = i) ts' = filter (\<lambda>t. pt_payment t = i) ts)
        \<and> pt_payment ` set ts' \<subseteq> insert (py_id p) (pt_payment ` set ts))"

definition payment_change ::
  "'a payment_db_scheme \<Rightarrow> payment \<Rightarrow> payment \<Rightarrow> 'a payment_db_scheme \<Rightarrow> bool" where
  "payment_change db p p' db' \<longleftrightarrow>
     p \<in> set (payments db) \<and> pay_edge (py_status p) (py_status p') \<and> py_home p' = py_home p
     \<and> payments db' = row_update py_id (py_id p) (\<lambda>_. p') (payments db)
     \<and> payment_lines db' = payment_lines db \<and> settlements db' = settlements db
     \<and> settlement_lines db' = settlement_lines db \<and> sequences db' = sequences db
     \<and> next_id db \<le> next_id db' \<and> (\<exists>evs. outbox db' = outbox db @ evs)
     \<and> attempts_follow (next_id db) (payment_attempts db) p (next_id db') (payment_attempts db') p'"

lemma follow_same:
  assumes "py_id p' = py_id p" and "py_attempts p' = py_attempts p" and "py_status p \<noteq> PProcessing" and "py_status p' \<noteq> PProcessing"
    and "n \<le> n'"
  shows "attempts_follow n ts p n' ts p'"
  using assms by (fastforce simp: attempts_follow_def attempted_def)

lemma follow_open:
  assumes "py_id p' = py_id p" and "py_attempts p' = Suc (py_attempts p)" and "py_status p \<noteq> PProcessing" and "py_status p' = PProcessing"
    and "pt_payment t = py_id p" and "pt_id t = n" and "pt_count t = Suc (py_attempts p)" and "pt_status t = AProcessing" and "n < n'"
  shows "attempts_follow n ts p n' (ts @ [t]) p'"
  unfolding attempts_follow_def
proof (intro impI conjI)
  assume u: "unique_keys pt_id ts" and a: "attempted ts p" and b: "\<forall>t \<in> set ts. pt_id t < n"
  show "unique_keys pt_id (ts @ [t])" by (rule unique_keys_append_next [OF u, of n]) (use b assms(6) in auto)
  show "attempted (ts @ [t]) p'" using a assms by (simp add: attempted_def)
  show "\<forall>x \<in> set (ts @ [t]). pt_id x < n'" using b assms(6,9) by auto
  show "\<forall>i. i \<noteq> py_id p \<longrightarrow> filter (\<lambda>t. pt_payment t = i) (ts @ [t]) = filter (\<lambda>t. pt_payment t = i) ts"
    using assms(5) by simp
  show "pt_payment ` set (ts @ [t]) \<subseteq> insert (py_id p) (pt_payment ` set ts)" using assms(5) by auto
qed

lemma follow_close:
  fixes db :: "'a payment_db_scheme"
  assumes "py_id p' = py_id p" and "py_attempts p' = py_attempts p" and "py_status p = PProcessing" and "py_status p' \<noteq> PProcessing"
    and "st \<noteq> AProcessing" and "n \<le> n'"
  shows "attempts_follow n (payment_attempts db) p n' (payment_attempts (close_attempt e p' st r f db)) p'"
  unfolding attempts_follow_def
proof (intro impI)
  let ?ts = "payment_attempts db"
  assume u: "unique_keys pt_id ?ts" and a: "attempted ?ts p" and b: "\<forall>t \<in> set ?ts. pt_id t < n"
  obtain t where t: "filter (\<lambda>t. pt_payment t = py_id p \<and> pt_status t = AProcessing) ?ts = [t]"
    using a assms(3) by (auto simp: attempted_def length_Suc_conv)
  have m: "t \<in> set ?ts" "pt_payment t = py_id p" "pt_status t = AProcessing"
    using arg_cong [OF t, of set] by auto
  have l: "latest_open_attempt (py_id p') db = Some t" using t assms(1) by (simp add: latest_open_attempt_def)
  define t' where "t' = t\<lparr>pt_status := st, pt_completed_at := Some (now e),
      pt_reference := (if opt_str r = [] then pt_reference t else r), pt_failure := (if opt_str f = [] then pt_failure t else f)\<rparr>"
  have ts': "payment_attempts (close_attempt e p' st r f db) = row_update pt_id (pt_id t) (\<lambda>_. t') ?ts" (is "?ts' = _")
    by (simp add: close_attempt_def l t'_def)
  have f: "pt_id t' = pt_id t" "pt_payment t' = pt_payment t" "pt_count t' = pt_count t" "pt_status t' \<noteq> AProcessing"
    using assms(5) by (simp_all add: t'_def)
  obtain as bs where ab: "?ts = as @ t # bs" "row_update pt_id (pt_id t) (\<lambda>_. t') ?ts = as @ t' # bs"
    using row_put_split [OF u m(1), of t'] by metis
  have "unique_keys pt_id ?ts'" unfolding ts' using unique_keys_row_put [OF u m(1), of pt_id t'] u f by simp
  moreover have "attempted ?ts' p'"
  proof -
    have "length (filter (\<lambda>x. pt_payment x = py_id p \<and> pt_status x = AProcessing) (as @ t # bs)) = 1"
      using t ab(1) by simp
    then have "filter (\<lambda>x. pt_payment x = py_id p \<and> pt_status x = AProcessing) ?ts' = []"
      using m(2,3) f(4) by (simp add: ts' ab(2))
    moreover have "map pt_count (filter (\<lambda>x. pt_payment x = py_id p) ?ts') = map pt_count (filter (\<lambda>x. pt_payment x = py_id p) ?ts)"
      unfolding ts' ab(2) using f by (simp add: ab(1))
    ultimately show ?thesis using a assms(1-4) by (simp add: attempted_def)
  qed
  moreover have "\<forall>x \<in> set ?ts'. pt_id x < n'"
    using b f(1) m(1) assms(6) by (fastforce simp: ts' in_row_put)
  moreover have "filter (\<lambda>t. pt_payment t = i) ?ts' = filter (\<lambda>t. pt_payment t = i) ?ts" if "i \<noteq> py_id p" for i
    unfolding ts' using that m f by (intro filter_row_put [OF u m(1)]) auto
  moreover have "pt_payment ` set ?ts' \<subseteq> insert (py_id p) (pt_payment ` set ?ts)"
    using m f by (auto simp: ts' in_row_put)
  ultimately show "unique_keys pt_id ?ts' \<and> attempted ?ts' p' \<and> (\<forall>t \<in> set ?ts'. pt_id t < n')
      \<and> (\<forall>i. i \<noteq> py_id p \<longrightarrow> filter (\<lambda>t. pt_payment t = i) ?ts' = filter (\<lambda>t. pt_payment t = i) ?ts)
      \<and> pt_payment ` set ?ts' \<subseteq> insert (py_id p) (pt_payment ` set ?ts)"
    by blast
qed

section \<open>The life-cycle operations\<close>

lemma submit_change:
  fixes db :: "'a payment_db_scheme"
  assumes "submit_payment e i a db = Inr (p', db')"
  obtains p where "get_payment e db i = Inr p" "payment_change db p p' db'" "p' = p\<lparr>py_status := PPending\<rparr>"
proof -
  from assms obtain p where p: "get_payment e db i = Inr p" "py_status p = PDraft" and p': "p' = p\<lparr>py_status := PPending\<rparr>"
    and db': "db' = audit_payment e p' ''submitted'' [(''amount'', JDec (py_amount p'))] a (put_payment p' db)"
    by (auto simp: submit_payment_def result_simps pay_transition_Inr)
  have "payment_change db p p' db'"
    using get_payment_InrD [OF p(1)] p(2) follow_same [of p' p "next_id db" "next_id db" "payment_attempts db"]
    by (simp add: payment_change_def db' p' py_home_eq pay_edge_def)
  then show thesis using that p p' by blast
qed

lemma execute_change:
  fixes db :: "'a payment_db_scheme"
  assumes "execute_payment e i cmd a db = Inr (p', db')"
  obtains p where "get_payment e db i = Inr p" "payment_change db p p' db'" "py_status p' = PProcessing"
    "py_status p = PPending \<or> py_status p = PFailed"
proof -
  from assms obtain p where p: "get_payment e db i = Inr p" and st: "py_status p = PPending \<or> py_status p = PFailed"
    by (auto simp: execute_payment_def result_simps pay_transition_Inr)
  define p1 where "p1 = p\<lparr>py_status := PProcessing\<rparr>"
  obtain t where t: "open_attempt e p1 cmd a (next_id db) = Inr t"
    using assms p st by (auto simp: execute_payment_def Let_def new_id_eq p1_def result_simps pay_transition_Inr)
  define db2 where "db2 = record_payment e p' ''processing''
                   [(''attempt_number'', JInt (int (pt_count t))), (''provider'', JStr (pt_provider t))] a
                   (put_payment p' (db\<lparr>next_id := Suc (next_id db), payment_attempts := payment_attempts db @ [t]\<rparr>))"
  have "pay_transition p [PPending, PFailed] PProcessing = Inr p1"
    using st by (auto simp: pay_transition_Inr p1_def pay_final_def)
  then have p': "p' = p1\<lparr>py_failure := None, py_attempts := pt_count t,
                   py_reference := (if opt_str (ep_reference cmd) = [] then py_reference p1 else ep_reference cmd)\<rparr>"
    and db': "db' = (if py_status p = PFailed
                   then record_payment e p' ''retry'' [(''attempt_number'', JInt (int (pt_count t)))] a db2 else db2)"
    using assms p by (auto simp: execute_payment_def Let_def new_id_eq t db2_def)
  have o: "\<exists>evs. outbox db' = outbox db @ evs"
    unfolding db' db2_def by (cases "py_status p = PFailed") simp_all
  have f: "attempts_follow (next_id db) (payment_attempts db) p (next_id db') (payment_attempts db @ [t]) p'"
    by (rule follow_open) (use st t in \<open>auto simp: p' p1_def open_attempt_def db' db2_def result_simps\<close>)
  have ts: "payment_attempts db' = payment_attempts db @ [t]" by (simp add: db' db2_def)
  have h: "py_home p' = py_home p" "py_id p' = py_id p" "py_status p' = PProcessing" by (simp_all add: p' p1_def py_home_eq)
  have "payment_change db p p' db'"
    unfolding payment_change_def ts
    using get_payment_InrD [OF p] st o f h by (auto simp: db' db2_def pay_edge_def)
  then show thesis using that p h(3) st by blast
qed

lemma retry_execute: "retry_payment e i cmd a db = Inr r \<Longrightarrow> execute_payment e i cmd a db = Inr r"
  by (auto simp: retry_payment_def result_simps)

lemma complete_payment_change:
  fixes db :: "'a payment_db_scheme"
  assumes "complete_payment e i r a db = Inr (p', db')"
  obtains p where "get_payment e db i = Inr p" "payment_change db p p' db'" "py_status p = PProcessing" "py_status p' = PCompleted"
proof -
  from assms obtain p where p: "get_payment e db i = Inr p" "py_status p = PProcessing"
    by (auto simp: complete_payment_def result_simps pay_transition_Inr)
  define p1 where "p1 = p\<lparr>py_status := PCompleted\<rparr>"
  have "pay_transition p [PProcessing] PCompleted = Inr p1" using p(2) by (simp add: pay_transition_def p1_def)
  then have "p' = p1\<lparr>py_completed_at := Some (now e), py_reference := (if opt_str r = [] then py_reference p1 else r)\<rparr>
      \<and> (\<exists>d. db' = record_payment e p' ''completed'' d a (close_attempt e p' ACompleted r None (put_payment p' db)))"
    using assms unfolding complete_payment_def p(1) Let_def by (auto simp: result_simps)
  then obtain d where p'1: "p' = p1\<lparr>py_completed_at := Some (now e), py_reference := (if opt_str r = [] then py_reference p1 else r)\<rparr>"
    and d: "db' = record_payment e p' ''completed'' d a (close_attempt e p' ACompleted r None (put_payment p' db))" by blast
  have p': "p' = p\<lparr>py_status := PCompleted, py_completed_at := Some (now e),
                   py_reference := (if opt_str r = [] then py_reference p else r)\<rparr>"
    by (simp add: p'1 p1_def)
  have f: "attempts_follow (next_id db) (payment_attempts (put_payment p' db)) p (next_id db')
      (payment_attempts (close_attempt e p' ACompleted r None (put_payment p' db))) p'"
    by (rule follow_close) (simp_all add: p' p d)
  have h: "py_home p' = py_home p" "py_id p' = py_id p" "py_status p' = PCompleted" by (simp_all add: p' py_home_eq)
  have "payment_change db p p' db'"
    unfolding payment_change_def
    using get_payment_InrD [OF p(1)] p(2) f h
    by (auto simp: d pay_edge_def)
  then show thesis using that p h(3) by blast
qed

lemma fail_change:
  fixes db :: "'a payment_db_scheme"
  assumes "fail_payment e i r a db = Inr (p', db')"
  obtains p where "get_payment e db i = Inr p" "payment_change db p p' db'" "py_status p = PProcessing" "py_status p' = PFailed"
proof -
  from assms obtain p where p: "get_payment e db i = Inr p" "py_status p = PProcessing"
    and p': "p' = p\<lparr>py_status := PFailed, py_failed_at := Some (now e), py_failure := Some r\<rparr>"
    and d: "db' = record_payment e p' ''failed'' [(''reason'', JStr r)] a
      (close_attempt e p' AFailed None (Some r) (put_payment p' db))"
    by (auto simp: fail_payment_def result_simps pay_transition_Inr Let_def)
  have f: "attempts_follow (next_id db) (payment_attempts (put_payment p' db)) p (next_id db')
      (payment_attempts (close_attempt e p' AFailed None (Some r) (put_payment p' db))) p'"
    by (rule follow_close) (simp_all add: p' p d)
  have h: "py_home p' = py_home p" "py_id p' = py_id p" "py_status p' = PFailed" by (simp_all add: p' py_home_eq)
  have "payment_change db p p' db'"
    unfolding payment_change_def
    using get_payment_InrD [OF p(1)] p(2) f h
    by (auto simp: d pay_edge_def)
  then show thesis using that p h(3) by blast
qed

lemma cancel_payment_change:
  fixes db :: "'a payment_db_scheme"
  assumes "cancel_payment e i r a db = Inr (p', db')"
  obtains p where "get_payment e db i = Inr p" "payment_change db p p' db'" "py_status p' = PCancelled"
proof -
  from assms obtain p where p: "get_payment e db i = Inr p" "py_status p \<in> set CANCELLABLE_STATUSES"
    and p': "p' = p\<lparr>py_status := PCancelled, py_cancelled_at := Some (now e)\<rparr>"
    and d: "db' = record_payment e p' ''cancelled'' [(''reason'', JStr r)] a (put_payment p' db)"
    by (auto simp: cancel_payment_def result_simps pay_transition_Inr Let_def)
  have n: "next_id db \<le> next_id db'" by (simp add: d)
  have f: "attempts_follow (next_id db) (payment_attempts db) p (next_id db') (payment_attempts db) p'"
    using p(2) n by (intro follow_same) (auto simp: p' CANCELLABLE_STATUSES_def)
  have h: "py_home p' = py_home p" "py_id p' = py_id p" "py_status p' = PCancelled" by (simp_all add: p' py_home_eq)
  have "payment_change db p p' db'"
    unfolding payment_change_def
    using get_payment_InrD [OF p(1)] p(2) f h
    by (auto simp: d pay_edge_def CANCELLABLE_STATUSES_def)
  then show thesis using that p h(3) by blast
qed

section \<open>A transition keeps the invariant\<close>

lemma payment_put_in:
  assumes "p \<in> set ps"
  shows "x \<in> set (row_update py_id (py_id p) (\<lambda>_. p') ps) \<longleftrightarrow> x = p' \<or> (x \<in> set ps \<and> py_id x \<noteq> py_id p)"
  using assms by (rule in_row_put)

lemma home_kept:
  assumes "p \<in> set ps" and "py_home p' = py_home p" and "x \<in> set (row_update py_id (py_id p) (\<lambda>_. p') ps)"
  obtains y where "y \<in> set ps" "py_home x = py_home y"
  using assms payment_put_in [OF assms(1)] by (metis (no_types))

lemma home_moved:
  assumes "unique_keys py_id ps" and "p \<in> set ps" and "py_home p' = py_home p" and "y \<in> set ps"
  obtains x where "x \<in> set (row_update py_id (py_id p) (\<lambda>_. p') ps)" "py_home x = py_home y"
  using assms payment_put_in [OF assms(2)] unique_keysD [OF assms(1)] by (metis (no_types))

lemma attempted_cong:
  assumes "filter (\<lambda>t. pt_payment t = py_id x) ts' = filter (\<lambda>t. pt_payment t = py_id x) ts"
  shows "attempted ts' x = attempted ts x"
proof -
  have "filter (\<lambda>t. pt_payment t = py_id x \<and> pt_status t = AProcessing) us
      = filter (\<lambda>t. pt_status t = AProcessing) (filter (\<lambda>t. pt_payment t = py_id x) us)" for us
    by simp
  then have "filter (\<lambda>t. pt_payment t = py_id x \<and> pt_status t = AProcessing) ts'
      = filter (\<lambda>t. pt_payment t = py_id x \<and> pt_status t = AProcessing) ts" by (metis assms)
  then show ?thesis by (simp only: attempted_def assms)
qed

lemma payment_elsewhere_settlement:
  fixes db db' :: "'a settlement_db_scheme"
  assumes "settlement_inv db" and "settlements db' = settlements db" "settlement_lines db' = settlement_lines db"
    "\<exists>evs. outbox db' = outbox db @ evs" "next_id db \<le> next_id db'"
    "\<forall>k. series_next (sequences db) k \<le> series_next (sequences db') k"
  shows "settlement_inv db'"
  using settlement_step_keeps [OF step_elsewhere [OF assms(2-6)] assms(1)] by simp

lemma pays_put:
  assumes u: "unique_keys py_id ps" and p: "p \<in> set ps" and h: "py_home p' = py_home p" and l: "pays ss ps l"
  shows "pays ss (row_update py_id (py_id p) (\<lambda>_. p') ps) l"
proof -
  obtain q s where q: "q \<in> set ps" "py_id q = pl_payment l" "py_tenant q = pl_tenant l"
    and s: "s \<in> set ss" "st_id s = pl_settlement l" "st_tenant s = pl_tenant l" "st_status s = SFinalized"
      "st_supplier s = py_supplier q" "st_currency s = py_currency q" "st_number s = pl_number l"
    and a: "at_scale 2 (pl_amount l)" "0 < pl_amount l"
    using l unfolding pays_def by blast
  obtain x where "x \<in> set (row_update py_id (py_id p) (\<lambda>_. p') ps)" "py_home x = py_home q"
    using home_moved [OF u p h q(1)] .
  then show ?thesis using q s a unfolding pays_def py_home_eq by metis
qed

lemma payment_change_inv:
  fixes db :: "'a payment_db_scheme"
  assumes inv: "payment_inv db" and c: "payment_change db p p' db'"
  shows "payment_inv db'"
proof -
  note i = payment_invD [OF inv] and k = payment_inv_keys [OF inv] and c' = c [unfolded payment_change_def]
  let ?ps' = "row_update py_id (py_id p) (\<lambda>_. p') (payments db)"
  have p: "p \<in> set (payments db)" and h: "py_home p' = py_home p" and ps': "payments db' = ?ps'"
    and ls: "payment_lines db' = payment_lines db" and n: "next_id db \<le> next_id db'" using c' by blast+
  have id: "py_id p' = py_id p" using h by (simp add: py_home_eq)
  have "settlement_inv db'"
    by (rule payment_elsewhere_settlement [OF i(1)]) (use c' in simp_all)
  moreover have "payments_ok (next_id db') (payments db')"
    unfolding payments_ok_def ps'
  proof (intro conjI ballI impI)
    show "unique_keys py_id ?ps'" using unique_keys_row_put [OF k(1) p, of py_id p'] k(1) id by simp
    fix x assume x: "x \<in> set ?ps'"
    obtain y where y: "y \<in> set (payments db)" "py_home x = py_home y" using home_kept [OF p h x] .
    then have "py_id y < next_id db" using i(2) unfolding payments_ok_def by blast
    then show "py_id x < next_id db'" using y(2) n by (simp add: py_home_eq)
    fix z assume z: "z \<in> set ?ps'" and e: "py_tenant x = py_tenant z" "py_key x \<noteq> None" "py_key x = py_key z"
    obtain w where w: "w \<in> set (payments db)" "py_home z = py_home w" using home_kept [OF p h z] .
    have "py_id y = py_id w" using i(2) y w e unfolding payments_ok_def py_home_eq by metis
    then show "py_id x = py_id z" using y(2) w(2) by (simp add: py_home_eq)
  qed
  moreover have "payment_lines_ok (next_id db') (settlements db') (payments db') (payment_lines db')"
  proof -
    have "pays (settlements db') (payments db') l" if "l \<in> set (payment_lines db)" for l
      using i(3) that pays_put [OF k(1) p h] c' unfolding payment_lines_ok_def by metis
    then show ?thesis using i(3) n unfolding payment_lines_ok_def ls by (meson less_le_trans)
  qed
  moreover have "amounts_ok (payments db') (payment_lines db')"
    unfolding amounts_ok_def ls ps'
  proof
    fix x assume "x \<in> set ?ps'"
    then obtain y where y: "y \<in> set (payments db)" "py_home x = py_home y" using home_kept [OF p h] by blast
    have "py_id x = py_id y" "py_amount x = py_amount y" using y(2) by (simp_all add: py_home_eq)
    then show "0 < py_amount x \<and> py_amount x = (\<Sum>l \<leftarrow> filter (\<lambda>l. pl_payment l = py_id x) (payment_lines db). pl_amount l)"
      using i(4) y(1) unfolding amounts_ok_def by metis
  qed
  moreover have "attempts_ok (next_id db') (payments db') (payment_attempts db')"
  proof -
    note a = i(5) [unfolded attempts_ok_def]
    have f: "unique_keys pt_id (payment_attempts db')" "attempted (payment_attempts db') p'"
        "\<forall>t \<in> set (payment_attempts db'). pt_id t < next_id db'"
        "\<forall>j. j \<noteq> py_id p \<longrightarrow> filter (\<lambda>t. pt_payment t = j) (payment_attempts db') = filter (\<lambda>t. pt_payment t = j) (payment_attempts db)"
        "pt_payment ` set (payment_attempts db') \<subseteq> insert (py_id p) (pt_payment ` set (payment_attempts db))"
      using c' a p unfolding attempts_follow_def by blast+
    have "\<exists>x \<in> set ?ps'. py_id x = pt_payment t" if "t \<in> set (payment_attempts db')" for t
    proof -
      have "pt_payment t \<in> insert (py_id p) (pt_payment ` set (payment_attempts db))" using f(5) that by blast
      then have "pt_payment t = py_id p \<or> (\<exists>u \<in> set (payment_attempts db). pt_payment u = pt_payment t)" by auto
      then obtain y where y: "y \<in> set (payments db)" "py_id y = pt_payment t" using a p by metis
      obtain x where "x \<in> set ?ps'" "py_home x = py_home y" using home_moved [OF k(1) p h y(1)] .
      then show ?thesis using y(2) by (auto simp: py_home_eq)
    qed
    moreover have "attempted (payment_attempts db') x" if x: "x \<in> set ?ps'" for x
    proof (cases "x = p'")
      case False
      then have x: "x \<in> set (payments db)" "py_id x \<noteq> py_id p" using x payment_put_in [OF p] by blast+
      then show ?thesis using a f(4) attempted_cong [of x "payment_attempts db'" "payment_attempts db"] by blast
    qed (use f(2) in simp)
    ultimately show ?thesis using f(1,3) unfolding attempts_ok_def ps' by blast
  qed
  moreover have "payment_numbers (sequences db') (payments db')"
    unfolding payment_numbers_def
  proof (rule numbers_kept [OF i(6) [unfolded payment_numbers_def]])
    fix x assume "x \<in> set (payments db')"
    then obtain y where "y \<in> set (payments db)" "py_home x = py_home y" using home_kept [OF p h] ps' by metis
    then show "\<exists>r \<in> set (payments db). py_id r = py_id x \<and> py_tenant r = py_tenant x \<and> Some (py_number r) = Some (py_number x)"
      by (intro bexI [of _ y]) (simp_all add: py_home_eq)
  next
    show "series_next (sequences db) j \<le> series_next (sequences db') j" for j using c' by simp
  qed
  ultimately show ?thesis unfolding payment_inv_def by blast
qed

section \<open>What is claimed\<close>

definition claiming :: "payment list \<Rightarrow> payment_line \<Rightarrow> bool" where
  "claiming ps l \<longleftrightarrow> (\<exists>p \<in> set ps. py_id p = pl_payment l \<and> py_status p \<in> set LIVE_STATUSES)"

text \<open>The sum of the live allocations of a settlement.\<close>

definition claimed :: "'a payment_db_scheme \<Rightarrow> uuid \<Rightarrow> decimal" where
  "claimed db i = (\<Sum>l \<leftarrow> filter (\<lambda>l. pl_settlement l = i \<and> claiming (payments db) l) (payment_lines db). pl_amount l)"

lemma sum_over_groups:
  fixes g :: "'l \<Rightarrow> 'm::comm_monoid_add"
  assumes "distinct sts"
  shows "(\<Sum>st \<leftarrow> sts. \<Sum>l \<leftarrow> filter (\<lambda>l. P l \<and> f l = st) ls. g l) = (\<Sum>l \<leftarrow> filter (\<lambda>l. P l \<and> f l \<in> set sts) ls. g l)"
proof (induction ls)
  case (Cons l ls)
  have "(\<Sum>st \<leftarrow> sts. if st = f l then g l else 0) = (if f l \<in> set sts then g l else 0)"
    using assms by (induction sts) auto
  moreover have "(\<Sum>st \<leftarrow> sts. \<Sum>l \<leftarrow> filter (\<lambda>l. P l \<and> f l = st) (l # ls). g l)
      = (\<Sum>st \<leftarrow> sts. if P l \<and> st = f l then g l else 0) + (\<Sum>st \<leftarrow> sts. \<Sum>l \<leftarrow> filter (\<lambda>l. P l \<and> f l = st) ls. g l)"
    unfolding sum_list_addf [symmetric] by (intro arg_cong [where f = sum_list] map_cong) auto
  ultimately show ?case using Cons by (cases "P l") auto
qed simp

lemma sum_nonempty_groups: "sum_list (map (\<lambda>st. sum_list (map g (h st))) (filter (\<lambda>st. h st \<noteq> []) sts)) = (\<Sum>st \<leftarrow> sts. sum_list (map g (h st)))"
  for g :: "'l \<Rightarrow> 'm::comm_monoid_add"
  by (induction sts) auto

definition payment_of :: "'a payment_db_scheme \<Rightarrow> payment_line \<Rightarrow> payment" where
  "payment_of db l = (case row_get py_id (pl_payment l) (payments db) of Some p \<Rightarrow> p | None \<Rightarrow> undefined)"

lemma payment_of:
  assumes "payment_inv db" and "l \<in> set (payment_lines db)"
  shows "payment_of db l \<in> set (payments db)" "py_id (payment_of db l) = pl_payment l" "py_tenant (payment_of db l) = pl_tenant l"
    "p \<in> set (payments db) \<Longrightarrow> py_id p = pl_payment l \<Longrightarrow> p = payment_of db l"
proof -
  obtain q where q: "q \<in> set (payments db)" "py_id q = pl_payment l" "py_tenant q = pl_tenant l"
    using payment_invD(3) [OF assms(1)] assms(2) unfolding payment_lines_ok_def pays_def by blast
  have "row_get py_id (pl_payment l) (payments db) = Some q"
    using row_get_unique [OF payment_inv_keys(1) [OF assms(1)] q(1)] q(2) by simp
  then have e: "payment_of db l = q" by (simp add: payment_of_def)
  show "payment_of db l \<in> set (payments db)" "py_id (payment_of db l) = pl_payment l" "py_tenant (payment_of db l) = pl_tenant l"
    using q e by simp_all
  show "p \<in> set (payments db) \<Longrightarrow> py_id p = pl_payment l \<Longrightarrow> p = payment_of db l"
    using unique_keysD [OF payment_inv_keys(1) [OF assms(1)] _ q(1)] q(2) e by simp
qed

lemma claim_group_eq:
  assumes "payment_inv db"
  shows "claim_group t db i st =
    filter (\<lambda>l. (pl_tenant l = t \<and> pl_settlement l = i) \<and> py_status (payment_of db l) = st) (payment_lines db)"
  unfolding claim_group_def list_ex_iff
  by (intro filter_cong refl) (use payment_of [OF assms] in metis)

lemma claiming_eq:
  "payment_inv db \<Longrightarrow> l \<in> set (payment_lines db) \<Longrightarrow>
     claiming (payments db) l \<longleftrightarrow> py_status (payment_of db l) \<in> set LIVE_STATUSES"
  unfolding claiming_def using payment_of by metis

lemma line_settlement_tenant:
  assumes "payment_inv db" and "l \<in> set (payment_lines db)" and "s \<in> set (settlements db)" and "pl_settlement l = st_id s"
  shows "pl_tenant l = st_tenant s"
proof -
  obtain s' where "s' \<in> set (settlements db)" "st_id s' = pl_settlement l" "st_tenant s' = pl_tenant l"
    using payment_invD(3) [OF assms(1)] assms(2) unfolding payment_lines_ok_def pays_def by blast
  then show ?thesis
    using unique_keysD [OF settlement_invD(7) [OF payment_invD(1) [OF assms(1)]] _ assms(3), of s'] assms(4) by simp
qed

lemma group_sums_claimed:
  assumes inv: "payment_inv db" and s: "s \<in> set (settlements db)"
  shows "sum_list (group_sums (st_tenant s) db (st_id s) LIVE_STATUSES) = claimed db (st_id s)"
proof -
  have "sum_list (group_sums (st_tenant s) db (st_id s) LIVE_STATUSES)
      = (\<Sum>st \<leftarrow> LIVE_STATUSES. \<Sum>l \<leftarrow> filter (\<lambda>l. (pl_tenant l = st_tenant s \<and> pl_settlement l = st_id s)
            \<and> py_status (payment_of db l) = st) (payment_lines db). pl_amount l)"
    unfolding group_sums_def claim_group_eq [OF inv] by (rule sum_nonempty_groups)
  also have "\<dots> = (\<Sum>l \<leftarrow> filter (\<lambda>l. (pl_tenant l = st_tenant s \<and> pl_settlement l = st_id s)
            \<and> py_status (payment_of db l) \<in> set LIVE_STATUSES) (payment_lines db). pl_amount l)"
    by (rule sum_over_groups) (simp add: LIVE_STATUSES_def)
  also have "\<dots> = claimed db (st_id s)"
    unfolding claimed_def using line_settlement_tenant [OF inv _ s] claiming_eq [OF inv]
    by (intro arg_cong [where f = sum_list] arg_cong [where f = "map pl_amount"] filter_cong) auto
  finally show ?thesis .
qed

lemma group_sums_fit:
  assumes "payment_inv db" and "x \<in> set (group_sums t db i sts)"
  shows "at_scale 2 x \<and> 0 \<le> x"
proof -
  obtain st where x: "x = sum_list (map pl_amount (claim_group t db i st))" using assms(2) by (auto simp: group_sums_def)
  have "at_scale 2 (pl_amount l) \<and> 0 \<le> pl_amount l" if "l \<in> set (claim_group t db i st)" for l
    using line_pays [OF assms(1), of l] that by (simp add: pays_def claim_group_def)
  then show ?thesis unfolding x by (intro conjI at_scale_sum_list sum_list_nonneg) auto
qed

text \<open>What the service finds outstanding is exactly the net amount less the live allocations.\<close>

lemma outstanding_exact:
  assumes inv: "payment_inv db" and s: "s \<in> set (settlements db)" "st_status s = SFinalized"
    and o: "outstanding_of s (fst (allocations_for (st_tenant s) db (st_id s))) = Inr rest" and pos: "0 < rest"
  shows "rest = st_net s - claimed db (st_id s)" "at_scale 2 rest" "st_net s < 10 ^ 14"
proof -
  let ?gs = "group_sums (st_tenant s) db (st_id s) LIVE_STATUSES"
  have r: "rest = dec_sub (st_net s) (dec_sum 0 ?gs)"
  proof -
    obtain m n d where "std_money (st_net s) (st_currency s) = Inr m" "std_money (dec_sum 0 ?gs) (st_currency s) = Inr n"
        and d: "money_minus m n = Inr d" "rest = amount d"
      using o by (auto simp: outstanding_of_def result_simps allocations_for_def)
    then have "amount m = st_net s" "amount n = dec_sum 0 ?gs" using mk_money_InrD by (auto simp: std_money_def)
    then show ?thesis using d mk_money_InrD by (auto simp: money_minus_def split: if_splits)
  qed
  obtain m :: money where "numeric 16 2 (dec_add (amount m) 0) = Inr (st_net s)"
    using settlement_invD(4) [OF payment_invD(1) [OF inv]] s unfolding totals_ok_def totalled_def by blast
  then have net: "at_scale 2 (st_net s)" "\<bar>st_net s\<bar> < 10 ^ 14" using numeric_InrD [of 16 2] by auto
  have "0 < st_net s - dec_sum 0 ?gs" by (rule ctx_pos) (use pos r in \<open>simp add: dec_sub_def\<close>)
  then have lt: "dec_sum 0 ?gs < 10 ^ 14" using net(2) by linarith
  have sum: "dec_sum 0 ?gs = claimed db (st_id s)"
    using dec_sum_small [of 0 ?gs] group_sums_fit [OF inv] lt group_sums_claimed [OF inv s(1)] by simp
  have sc: "at_scale 2 (dec_sum 0 ?gs)" "0 \<le> dec_sum 0 ?gs"
    using group_sums_fit [OF inv] group_sums_claimed [OF inv s(1)] sum at_scale_sum_list [of ?gs 2] sum_list_nonneg [of ?gs]
    by metis+
  have "\<bar>st_net s - dec_sum 0 ?gs\<bar> < 10 ^ 14" using net(2) sc(2) lt pos r \<open>0 < st_net s - dec_sum 0 ?gs\<close> by linarith
  then have "dec_sub (st_net s) (dec_sum 0 ?gs) = st_net s - dec_sum 0 ?gs"
    using net sc by (intro dec_sub_exact [of 2]) (simp_all add: prec_def)
  then show "rest = st_net s - claimed db (st_id s)" "at_scale 2 rest" using r sum net(1) sc(1) by (simp_all add: at_scale_diff)
  show "st_net s < 10 ^ 14" using net(2) by linarith
qed

section \<open>Creating a payment\<close>

text \<open>An allocation the service accepted: a finalized settlement of the payee, within its outstanding amount.\<close>

definition allocatable :: "'a payment_db_scheme \<Rightarrow> uuid \<Rightarrow> uuid \<Rightarrow> string \<Rightarrow> settlement \<Rightarrow> decimal \<Rightarrow> bool" where
  "allocatable db t supp cur s x \<longleftrightarrow> s \<in> set (settlements db) \<and> st_tenant s = t \<and> st_status s = SFinalized
     \<and> st_supplier s = supp \<and> st_currency s = cur \<and> at_scale 2 x \<and> 0 < x \<and> x < 10 ^ 14
     \<and> x + claimed db (st_id s) \<le> st_net s"

lemma claimed_nonneg: "payment_inv db \<Longrightarrow> 0 \<le> claimed db i"
proof -
  assume inv: "payment_inv db"
  have "0 \<le> pl_amount l" if "l \<in> set (payment_lines db)" for l
    using line_pays [OF inv that] by (simp add: pays_def)
  then show ?thesis unfolding claimed_def by (intro sum_list_nonneg) auto
qed

lemma payable_InrD:
  "payable_settlement i t supp cur db = Inr s \<Longrightarrow> s \<in> set (settlements db) \<and> st_id s = i \<and> st_tenant s = t
     \<and> st_status s = SFinalized \<and> st_supplier s = supp \<and> st_currency s = cur"
  by (auto simp: payable_settlement_def result_simps dest: row_get_SomeD split: if_splits)

lemma resolve_allocation_ok:
  assumes inv: "payment_inv db" and s: "payable_settlement i t supp cur db = Inr s" and r: "resolve_allocation t s req db = Inr x"
  shows "allocatable db t supp cur s x"
proof -
  note p = payable_InrD [OF s]
  from r obtain rest where o: "outstanding_of s (fst (allocations_for t db (st_id s))) = Inr rest" and pos: "0 < rest"
    and x: "case req of None \<Rightarrow> x = rest | Some q \<Rightarrow> quantize_money q (Some (st_currency s)) = Inr x \<and> 0 < x \<and> x \<le> rest"
    by (auto simp: resolve_allocation_def result_simps not_less split: option.splits if_splits)
  have e: "rest = st_net s - claimed db (st_id s)" "at_scale 2 rest" "st_net s < 10 ^ 14"
    using outstanding_exact [OF inv] p o pos by blast+
  have le: "0 < x" "x \<le> rest" using x pos by (auto split: option.splits)
  have "at_scale 2 x" if "quantize_money q (Some (st_currency s)) = Inr x" for q
    using that quantize_at_scale at_scale_mono minor_units_le unfolding quantize_money_def by blast
  then have "at_scale 2 x" using x e(2) by (auto split: option.splits)
  moreover have "x < 10 ^ 14" using le e claimed_nonneg [OF inv, of "st_id s"] by linarith
  ultimately show ?thesis using p le e(1) by (simp add: allocatable_def)
qed

lemma resolve_allocations_ok:
  assumes inv: "payment_inv db"
  shows "resolve_allocations t supp cur db seen acc as = Inr (res, all) \<Longrightarrow>
     distinct (map (st_id \<circ> fst) res) \<and> (\<forall>sx \<in> set res. st_id (fst sx) \<notin> set seen \<and> allocatable db t supp cur (fst sx) (snd sx))
     \<and> amount all = dec_sum (amount acc) (map snd res)"
proof (induction as arbitrary: seen acc res)
  case (Cons a as)
  then obtain s x m acc' rest where new: "al_settlement a \<notin> set seen" and s: "payable_settlement (al_settlement a) t supp cur db = Inr s"
    and x: "resolve_allocation t s (al_amount a) db = Inr x" and m: "std_money x cur = Inr m" "money_plus acc m = Inr acc'"
    and r: "resolve_allocations t supp cur db (al_settlement a # seen) acc' as = Inr (rest, all)" and res: "res = (s, x) # rest"
    by (auto simp: result_simps split: prod.splits if_splits)
  have "amount acc' = dec_add (amount acc) x"
    using m mk_money_InrD by (auto simp: std_money_def money_plus_def split: if_splits)
  moreover have "allocatable db t supp cur s x" using resolve_allocation_ok [OF inv s x] .
  moreover have "st_id s = al_settlement a" using payable_InrD [OF s] by simp
  ultimately show ?case using Cons.IH [OF r] new by (auto simp: res)
qed simp

definition line_for :: "env \<Rightarrow> payment \<Rightarrow> uuid \<Rightarrow> settlement \<times> decimal \<Rightarrow> payment_line" where
  "line_for e p i sx = \<lparr>pl_id = i, pl_tenant = py_tenant p, pl_payment = py_id p, pl_settlement = st_id (fst sx),
     pl_number = st_number (fst sx), pl_amount = snd sx, pl_created_at = now e\<rparr>"

text \<open>The lines of a new payment, one per allocation.\<close>

definition new_lines :: "env \<Rightarrow> payment \<Rightarrow> uuid \<Rightarrow> (settlement \<times> decimal) list \<Rightarrow> payment_line list" where
  "new_lines e p n res = map (\<lambda>(i, sx). line_for e p i sx) (zip [n ..< n + length res] res)"

lemma new_lines_Nil [simp]: "new_lines e p n [] = []"
  by (simp add: new_lines_def)

lemma new_lines_Cons: "new_lines e p n (sx # res) = line_for e p n sx # new_lines e p (Suc n) res"
  unfolding new_lines_def by (subst upt_conv_Cons) (simp_all del: upt_Suc)

lemma in_new_lines:
  assumes "l \<in> set (new_lines e p n res)"
  obtains sx i where "sx \<in> set res" "l = line_for e p i sx" "n \<le> i" "i < n + length res"
proof -
  obtain i sx where z: "(i, sx) \<in> set (zip [n ..< n + length res] res)" and l: "l = line_for e p i sx"
    using assms by (auto simp: new_lines_def)
  show thesis using that [OF set_zip_rightD [OF z] l] set_zip_leftD [OF z] by simp
qed

lemma new_lines_keys: "map pl_id (new_lines e p n res) = [n ..< n + length res]"
  by (induction res arbitrary: n) (simp_all add: new_lines_Cons line_for_def upt_conv_Cons del: upt_Suc)

lemma new_lines_settlements: "map pl_settlement (new_lines e p n res) = map (st_id \<circ> fst) res"
  by (induction res arbitrary: n) (simp_all add: new_lines_Cons line_for_def)

lemma new_lines_amounts: "map pl_amount (new_lines e p n res) = map snd res"
  by (induction res arbitrary: n) (simp_all add: new_lines_Cons line_for_def)

lemma new_lines_payment: "l \<in> set (new_lines e p n res) \<Longrightarrow> pl_payment l = py_id p"
  by (erule in_new_lines) (simp add: line_for_def)

lemma add_payment_lines_eq:
  fixes db :: "'a payment_db_scheme"
  assumes "\<forall>sx \<in> set res. at_scale 2 (snd sx) \<and> 0 < snd sx \<and> snd sx < 10 ^ 14"
  shows "add_payment_lines e p res db = Inr (db\<lparr>next_id := next_id db + length res,
     payment_lines := payment_lines db @ new_lines e p (next_id db) res\<rparr>)"
  using assms
proof (induction res arbitrary: db)
  case (Cons sx res)
  obtain s x where sx: "sx = (s, x)" by (cases sx)
  have "numeric 16 2 x = Inr x" using Cons.prems by (intro numeric_fits) (simp_all add: sx)
  then show ?case
    using Cons.prems Cons.IH [of "db\<lparr>next_id := Suc (next_id db), payment_lines := payment_lines db @ [line_for e p (next_id db) (s, x)]\<rparr>"]
    by (simp add: sx new_id_eq Let_def line_for_def new_lines_Cons)
qed simp

text \<open>What a successful creation adds.\<close>

definition payment_added ::
  "env \<Rightarrow> uuid \<Rightarrow> (settlement \<times> decimal) list \<Rightarrow> 'a payment_db_scheme \<Rightarrow> payment \<Rightarrow> 'a payment_db_scheme \<Rightarrow> bool" where
  "payment_added e t res db p db' \<longleftrightarrow>
     distinct (map (st_id \<circ> fst) res)
     \<and> (\<forall>sx \<in> set res. allocatable db t (py_supplier p) (py_currency p) (fst sx) (snd sx))
     \<and> py_id p = next_id db \<and> py_tenant p = t \<and> py_status p = PDraft \<and> py_attempts p = 0
     \<and> py_amount p = sum_list (map snd res) \<and> 0 < py_amount p
     \<and> (\<forall>q \<in> set (payments db). py_tenant q = t \<longrightarrow> py_key p \<noteq> None \<longrightarrow> py_key q \<noteq> py_key p)
     \<and> payments db' = payments db @ [p] \<and> payment_lines db' = payment_lines db @ new_lines e p (Suc (next_id db)) res
     \<and> payment_attempts db' = payment_attempts db \<and> settlements db' = settlements db
     \<and> settlement_lines db' = settlement_lines db \<and> next_id db' = Suc (Suc (next_id db) + length res)
     \<and> (\<exists>evs. outbox db' = outbox db @ evs)"

lemma create_payment_run:
  fixes db :: "'a payment_db_scheme"
  assumes inv: "payment_inv db" and r: "create_payment e cmd a db = Inr (p, db')"
  obtains (existing) t where "current_tenant e = Some t" "existing_payment t (cp_key cmd) db = Some p" "db' = db"
  | (new) t res number db1 where "current_tenant e = Some t" "existing_payment t (cp_key cmd) db = None"
      "next_document_number e t ''payment'' ''PAY'' db = (number, db1)" "payment_added e t res db p db'"
      "py_number p = number" "py_key p = cp_key cmd" "sequences db' = sequences db1"
proof -
  obtain t where t: "require_current_tenant e = Inr t" using r by (auto simp: create_payment_def result_simps)
  then have ct: "current_tenant e = Some t" by (simp add: require_current_tenant_def result_simps)
  show thesis
  proof (cases "existing_payment t (cp_key cmd) db")
    case (Some q)
    then have "q = p \<and> db' = db" using r by (simp add: create_payment_def t)
    then show thesis using existing [OF ct] Some by blast
  next
    case None
    obtain number db1 where n: "next_document_number e t ''payment'' ''PAY'' db = (number, db1)" by (meson surj_pair)
    obtain per where "db1 = db\<lparr>sequences := snd (allocate (t, ''payment'', per) (sequences db))\<rparr>"
      using n by (rule next_document_number_eq)
    then have f: "next_id db1 = next_id db" "payments db1 = payments db" "payment_lines db1 = payment_lines db"
        "payment_attempts db1 = payment_attempts db" "settlements db1 = settlements db"
        "settlement_lines db1 = settlement_lines db" "outbox db1 = outbox db" by simp_all
    from r obtain cur zero ra where zero: "std_money 0 cur = Inr zero"
      and ra: "resolve_allocations t (cp_supplier cmd) cur db [] zero (sort_key al_settlement (cp_allocations cmd)) = Inr ra"
      and filed: "file_payment e cmd a t cur (fst ra) (snd ra) db = Inr (p, db')"
      by (auto simp: create_payment_def t None result_simps split_def)
    obtain res all where res: "ra = (res, all)" by (cases ra)
    note ok = resolve_allocations_ok [OF inv ra [unfolded res]]
    from filed obtain x db3 where x: "numeric 16 2 (amount all) = Inr x" "0 < x"
      and key: "\<not> (cp_key cmd \<noteq> None \<and> list_ex (\<lambda>q. py_tenant q = t \<and> py_key q = cp_key cmd) (payments db))"
      and p: "p = \<lparr>py_id = next_id db, py_tenant = t, py_supplier = cp_supplier cmd, py_number = number,
                      py_currency = cur, py_method = cp_method cmd, py_amount = x,
                      py_reference = cp_reference cmd, py_details = cp_details cmd, py_status = PDraft,
                      py_key = cp_key cmd, py_attempts = 0, py_failure = None, py_note = cp_note cmd,
                      py_created_at = now e, py_completed_at = None, py_failed_at = None, py_cancelled_at = None\<rparr>"
      and l: "add_payment_lines e p res (db1\<lparr>next_id := Suc (next_id db), payments := payments db @ [p]\<rparr>) = Inr db3"
      and db': "db' = record_payment e p ''created'' [(''amount'', JDec (py_amount p)), (''line_count'', JInt (int (length res)))] a db3"
      by (auto simp: file_payment_def n new_id_eq f Let_def res result_simps not_le split: if_splits)
    have fit: "\<forall>sx \<in> set res. at_scale 2 (snd sx) \<and> 0 < snd sx \<and> snd sx < 10 ^ 14" using ok by (simp add: allocatable_def)
    have z: "amount zero = 0" using zero mk_money_InrD by (auto simp: std_money_def)
    have all: "amount all = dec_sum 0 (map snd res)" using ok z by simp
    have xs: "at_scale 2 y \<and> 0 \<le> y" if "y \<in> set (map snd res)" for y using fit that by auto
    have "dec_sum 0 (map snd res) < 10 ^ 25"
      using numeric_near [OF x(1)] numeric_InrD [OF x(1)] unfolding all by (simp add: abs_le_iff abs_less_iff)
    then have sum: "amount all = sum_list (map snd res)" using dec_sum_small [of 0 "map snd res"] xs all by simp
    have "at_scale 2 (amount all)" unfolding sum by (rule at_scale_sum_list) (use xs in blast)
    then have x': "x = sum_list (map snd res)" using numeric_at_scale x(1) sum by blast
    have l': "db3 = (db1\<lparr>next_id := Suc (next_id db), payments := payments db @ [p]\<rparr>)\<lparr>next_id := Suc (next_id db) + length res,
        payment_lines := payment_lines db @ new_lines e p (Suc (next_id db)) res\<rparr>"
      using l add_payment_lines_eq [OF fit, of e p "db1\<lparr>next_id := Suc (next_id db), payments := payments db @ [p]\<rparr>"]
      by (simp add: f)
    have "payment_added e t res db p db'"
      unfolding payment_added_def
    proof (intro conjI)
      show "distinct (map (st_id \<circ> fst) res)" "\<forall>sx \<in> set res. allocatable db t (py_supplier p) (py_currency p) (fst sx) (snd sx)"
        using ok by (simp_all add: p)
      show "\<forall>q \<in> set (payments db). py_tenant q = t \<longrightarrow> py_key p \<noteq> None \<longrightarrow> py_key q \<noteq> py_key p"
        using key unfolding list_ex_iff p payment.simps by blast
      show "py_amount p = sum_list (map snd res)" "0 < py_amount p" using x' x(2) by (simp_all add: p)
    qed (simp_all add: p db' l' f)
    then show thesis using new [OF ct None n] by (simp add: p db' l' f)
  qed
qed

lemma pays_append: "pays ss ps l \<Longrightarrow> pays ss (ps @ qs) l"
  unfolding pays_def by auto

lemma added_old:
  assumes "payment_inv db" and "payment_added e t res db p db'"
  shows "q \<in> set (payments db) \<Longrightarrow> py_id q < py_id p" "l \<in> set (payment_lines db) \<Longrightarrow> pl_payment l \<noteq> py_id p"
    "l \<in> set (payment_lines db) \<Longrightarrow> pl_id l < next_id db"
proof -
  have id: "py_id p = next_id db" using assms(2) unfolding payment_added_def by blast
  show q: "q \<in> set (payments db) \<Longrightarrow> py_id q < py_id p" for q
    using payment_invD(2) [OF assms(1)] unfolding payments_ok_def id by blast
  show "l \<in> set (payment_lines db) \<Longrightarrow> pl_id l < next_id db"
    using payment_invD(3) [OF assms(1)] unfolding payment_lines_ok_def by blast
  assume "l \<in> set (payment_lines db)"
  then obtain r where "r \<in> set (payments db)" "py_id r = pl_payment l"
    using line_pays [OF assms(1)] unfolding pays_def by blast
  then show "pl_payment l \<noteq> py_id p" using q by fastforce
qed

lemma added_payments_ok:
  assumes inv: "payment_inv db" and c: "payment_added e t res db p db'"
  shows "payments_ok (next_id db') (payments db')"
  unfolding payments_ok_def
proof (intro conjI ballI impI)
  note c' = c [unfolded payment_added_def] and old = added_old(1) [OF inv c]
  have ps: "payments db' = payments db @ [p]" and id: "py_id p = next_id db" using c' by blast+
  show "unique_keys py_id (payments db')"
    unfolding ps by (rule unique_keys_append_next [OF payment_inv_keys(1) [OF inv] old refl])
  show "py_id x < next_id db'" if "x \<in> set (payments db')" for x
    using that old [of x] c' by auto
  show "py_id x = py_id y"
    if "x \<in> set (payments db')" "y \<in> set (payments db')" "py_tenant x = py_tenant y" "py_key x \<noteq> None" "py_key x = py_key y" for x y
  proof (cases "x \<in> set (payments db) \<and> y \<in> set (payments db)")
    case True
    then show ?thesis using payment_invD(2) [OF inv] that unfolding payments_ok_def by blast
  next
    case False
    have "py_key z \<noteq> py_key p" if "z \<in> set (payments db)" "py_tenant z = py_tenant p" "py_key p \<noteq> None" for z
      using c' that by blast
    then show ?thesis using False that unfolding ps by (metis UnE empty_iff empty_set insert_iff list.simps(15) set_append)
  qed
qed

lemma added_lines_ok:
  assumes inv: "payment_inv db" and c: "payment_added e t res db p db'"
  shows "payment_lines_ok (next_id db') (settlements db') (payments db') (payment_lines db')"
  unfolding payment_lines_ok_def
proof (intro conjI ballI impI)
  note c' = c [unfolded payment_added_def] and old = added_old [OF inv c]
  let ?new = "new_lines e p (Suc (next_id db)) res"
  have ls: "payment_lines db' = payment_lines db @ ?new" and ps: "payments db' = payments db @ [p]"
    and ss: "settlements db' = settlements db" and n: "next_id db' = Suc (Suc (next_id db) + length res)" using c' by blast+
  have "set (map pl_id ?new) \<inter> pl_id ` set (payment_lines db) = {}"
    unfolding new_lines_keys using old(3) by fastforce
  then show "unique_keys pl_id (payment_lines db')"
    using payment_inv_keys(2) [OF inv] unfolding unique_keys_def ls map_append distinct_append new_lines_keys by auto
  fix l assume l: "l \<in> set (payment_lines db')"
  show "pl_id l < next_id db'"
    using l old(3) [of l] unfolding ls n by (auto elim!: in_new_lines simp: line_for_def)
  show "pays (settlements db') (payments db') l"
  proof (cases "l \<in> set (payment_lines db)")
    case True
    then show ?thesis using line_pays [OF inv] pays_append unfolding ps ss by blast
  next
    case False
    then obtain sx j where "sx \<in> set res" "l = line_for e p j sx" using l unfolding ls by (auto elim: in_new_lines)
    then show ?thesis using c' unfolding pays_def ps ss by (auto simp: allocatable_def line_for_def)
  qed
  fix m assume m: "m \<in> set (payment_lines db')" and e: "pl_payment l = pl_payment m" "pl_settlement l = pl_settlement m"
  show "pl_id l = pl_id m"
  proof (cases "pl_payment l = py_id p")
    case True
    have "x \<in> set ?new" if "x \<in> set (payment_lines db')" "pl_payment x = py_id p" for x
      using that old(2) [of x] unfolding ls set_append by blast
    then have "l \<in> set ?new" "m \<in> set ?new" using l m e(1) True by auto
    moreover have "distinct (map pl_settlement ?new)" unfolding new_lines_settlements using c' by blast
    ultimately have "l = m" using e(2) inj_onD [of pl_settlement "set ?new"] unfolding distinct_map by blast
    then show ?thesis by simp
  next
    case False
    have "x \<in> set (payment_lines db)" if "x \<in> set (payment_lines db')" "pl_payment x \<noteq> py_id p" for x
      using that new_lines_payment [of x e p] unfolding ls set_append by blast
    then have "l \<in> set (payment_lines db)" "m \<in> set (payment_lines db)" using l m e(1) False by auto
    then show ?thesis using payment_invD(3) [OF inv] e unfolding payment_lines_ok_def by blast
  qed
qed

lemma added_amounts_ok:
  assumes inv: "payment_inv db" and c: "payment_added e t res db p db'"
  shows "amounts_ok (payments db') (payment_lines db')"
  unfolding amounts_ok_def
proof
  note c' = c [unfolded payment_added_def] and old = added_old [OF inv c]
  let ?new = "new_lines e p (Suc (next_id db)) res"
  have ls: "payment_lines db' = payment_lines db @ ?new" using c' by blast
  have nl: "filter (\<lambda>l. pl_payment l = j) ?new = (if j = py_id p then ?new else [])" for j
    using new_lines_payment [of _ e p "Suc (next_id db)" res] by (auto simp: filter_empty_conv filter_id_conv)
  have ol: "filter (\<lambda>l. pl_payment l = py_id p) (payment_lines db) = []" using old(2) by (auto simp: filter_empty_conv)
  fix x assume "x \<in> set (payments db')"
  then consider "x = p" | "x \<in> set (payments db)" "py_id x \<noteq> py_id p" using c' old(1) by fastforce
  then show "0 < py_amount x \<and> py_amount x = (\<Sum>l \<leftarrow> filter (\<lambda>l. pl_payment l = py_id x) (payment_lines db'). pl_amount l)"
  proof cases
    case 1
    have "filter (\<lambda>l. pl_payment l = py_id x) (payment_lines db') = ?new"
      unfolding ls filter_append 1 nl ol by simp
    then show ?thesis using c' 1 by (simp add: new_lines_amounts)
  next
    case 2
    then have "filter (\<lambda>l. pl_payment l = py_id x) (payment_lines db') = filter (\<lambda>l. pl_payment l = py_id x) (payment_lines db)"
      unfolding ls filter_append nl by simp
    then show ?thesis using payment_invD(4) [OF inv] 2(1) unfolding amounts_ok_def by metis
  qed
qed

lemma added_attempts_ok:
  assumes inv: "payment_inv db" and c: "payment_added e t res db p db'"
  shows "attempts_ok (next_id db') (payments db') (payment_attempts db')"
proof -
  note c' = c [unfolded payment_added_def] and a = payment_invD(5) [OF inv, unfolded attempts_ok_def]
  have "filter (\<lambda>t. pt_payment t = py_id p) (payment_attempts db) = []"
    using a added_old(1) [OF inv c] unfolding filter_empty_conv by fastforce
  then have "attempted (payment_attempts db) p"
    using c' attempted_cong [of p "payment_attempts db" "[]"] by (simp add: attempted_def)
  moreover have "\<forall>x \<in> set (payment_attempts db). pt_id x < next_id db'" using a c' by auto
  ultimately show ?thesis using a c' unfolding attempts_ok_def by (auto 0 3)
qed

lemma create_payment_inv:
  fixes db :: "'a payment_db_scheme"
  assumes inv: "payment_inv db" and r: "create_payment e cmd a db = Inr (p, db')"
  shows "payment_inv db'"
  using inv r
proof (cases rule: create_payment_run [consumes 2])
  case (existing t)
  then show ?thesis using inv by simp
next
  case (new t res number db1)
  note c' = new(4) [unfolded payment_added_def]
  have "settlement_inv db'"
  proof (rule payment_elsewhere_settlement [OF payment_invD(1) [OF inv]])
    obtain per where "db1 = db\<lparr>sequences := snd (allocate (t, ''payment'', per) (sequences db))\<rparr>"
      using new(3) by (rule next_document_number_eq)
    then show "\<forall>j. series_next (sequences db) j \<le> series_next (sequences db') j"
      using new(7) by (simp add: allocate_mono)
  qed (use c' in simp_all)
  moreover have "payment_numbers (sequences db') (payments db')"
    unfolding payment_numbers_def new(7)
    by (rule numbers_mint [OF payment_invD(6) [OF inv, unfolded payment_numbers_def] new(3)]) (use new(5) c' in auto)
  ultimately show ?thesis
    unfolding payment_inv_def
    using added_payments_ok [OF inv new(4)] added_lines_ok [OF inv new(4)] added_amounts_ok [OF inv new(4)]
      added_attempts_ok [OF inv new(4)] by blast
qed

section \<open>How much is claimed\<close>

text \<open>BR-0018: the live allocations of a settlement never exceed what it owes.\<close>

definition claims_ok :: "'a payment_db_scheme \<Rightarrow> bool" where
  "claims_ok db \<longleftrightarrow> (\<forall>s \<in> set (settlements db). claimed db (st_id s) \<le> st_net s \<or> claimed db (st_id s) = 0)"

lemma sum_filter_mono:
  fixes g :: "'l \<Rightarrow> rat"
  assumes "\<And>l. l \<in> set ls \<Longrightarrow> P l \<Longrightarrow> Q l" and "\<And>l. l \<in> set ls \<Longrightarrow> 0 \<le> g l"
  shows "(\<Sum>l \<leftarrow> filter P ls. g l) \<le> (\<Sum>l \<leftarrow> filter Q ls. g l)"
  using assms by (induction ls) (auto intro: add_increasing)

lemma claimed_le_change:
  assumes inv: "payment_inv db" and c: "payment_change db p p' db'"
    and live: "py_status p' \<in> set LIVE_STATUSES \<Longrightarrow> py_status p \<in> set LIVE_STATUSES"
  shows "claimed db' i \<le> claimed db i"
proof -
  have ls: "payment_lines db' = payment_lines db" and p: "p \<in> set (payments db)" and id: "py_id p' = py_id p"
    and ps: "payments db' = row_update py_id (py_id p) (\<lambda>_. p') (payments db)"
    using c by (simp_all add: payment_change_def py_home_eq)
  have "claiming (payments db) l" if c: "claiming (payments db') l" for l
  proof -
    obtain q where q: "q \<in> set (payments db')" "py_id q = pl_payment l" "py_status q \<in> set LIVE_STATUSES"
      using c unfolding claiming_def by blast
    then have "q = p' \<or> q \<in> set (payments db)" unfolding ps payment_put_in [OF p] by blast
    then show ?thesis using q p id live unfolding claiming_def by metis
  qed
  moreover have "0 \<le> pl_amount l" if "l \<in> set (payment_lines db)" for l
    using line_pays [OF inv that] by (simp add: pays_def)
  ultimately show ?thesis unfolding claimed_def ls by (intro sum_filter_mono) auto
qed

lemma claims_ok_change:
  assumes inv: "payment_inv db" and c: "payment_change db p p' db'" and ok: "claims_ok db"
    and live: "py_status p' \<in> set LIVE_STATUSES \<Longrightarrow> py_status p \<in> set LIVE_STATUSES"
  shows "claims_ok db'"
  unfolding claims_ok_def
proof
  fix s assume "s \<in> set (settlements db')"
  then have s: "s \<in> set (settlements db)" using c unfolding payment_change_def by metis
  have le: "claimed db' (st_id s) \<le> claimed db (st_id s)" by (rule claimed_le_change [OF inv c live])
  have "0 \<le> claimed db' (st_id s)" by (rule claimed_nonneg [OF payment_change_inv [OF inv c]])
  then show "claimed db' (st_id s) \<le> st_net s \<or> claimed db' (st_id s) = 0"
    using ok s le unfolding claims_ok_def by force
qed

lemma new_lines_of_settlement:
  "distinct (map (st_id \<circ> fst) res) \<Longrightarrow>
     (\<Sum>l \<leftarrow> filter (\<lambda>l. pl_settlement l = i) (new_lines e p n res). pl_amount l)
       = (case find (\<lambda>sx. st_id (fst sx) = i) res of None \<Rightarrow> 0 | Some sx \<Rightarrow> snd sx)"
proof (induction res arbitrary: n)
  case (Cons sx res)
  show ?case
  proof (cases "st_id (fst sx) = i")
    case True
    then have "find (\<lambda>sx. st_id (fst sx) = i) res = None"
      unfolding find_None_ball using Cons.prems by (simp add: image_iff) metis
    then show ?thesis using True Cons by (simp add: new_lines_Cons line_for_def)
  next
    case False
    then show ?thesis using Cons by (simp add: new_lines_Cons line_for_def)
  qed
qed simp

lemma claims_ok_added:
  assumes inv: "payment_inv db" and c: "payment_added e t res db p db'" and ok: "claims_ok db"
  shows "claims_ok db'"
  unfolding claims_ok_def
proof
  note c' = c [unfolded payment_added_def] and old = added_old [OF inv c]
  let ?new = "new_lines e p (Suc (next_id db)) res"
  fix s assume "s \<in> set (settlements db')"
  then have s: "s \<in> set (settlements db)" using c' by metis
  have ls: "payment_lines db' = payment_lines db @ ?new" and ps: "payments db' = payments db @ [p]" using c' by blast+
  have "claiming (payments db') l = claiming (payments db) l" if "l \<in> set (payment_lines db)" for l
    using old(2) [OF that] unfolding claiming_def ps by auto
  moreover have "claiming (payments db') l" if "l \<in> set ?new" for l
    using new_lines_payment [OF that] c' unfolding claiming_def ps by (auto simp: LIVE_STATUSES_def)
  ultimately have "claimed db' (st_id s) = claimed db (st_id s) + (\<Sum>l \<leftarrow> filter (\<lambda>l. pl_settlement l = st_id s) ?new. pl_amount l)"
    unfolding claimed_def ls by (simp cong: filter_cong)
  also have "(\<Sum>l \<leftarrow> filter (\<lambda>l. pl_settlement l = st_id s) ?new. pl_amount l)
      = (case find (\<lambda>sx. st_id (fst sx) = st_id s) res of None \<Rightarrow> 0 | Some sx \<Rightarrow> snd sx)"
    using c' by (intro new_lines_of_settlement) blast
  finally have e: "claimed db' (st_id s) = claimed db (st_id s)
      + (case find (\<lambda>sx. st_id (fst sx) = st_id s) res of None \<Rightarrow> 0 | Some sx \<Rightarrow> snd sx)" .
  show "claimed db' (st_id s) \<le> st_net s \<or> claimed db' (st_id s) = 0"
  proof (cases "find (\<lambda>sx. st_id (fst sx) = st_id s) res")
    case None
    then show ?thesis using ok s e unfolding claims_ok_def by simp
  next
    case (Some sx)
    then have sx: "sx \<in> set res" "st_id (fst sx) = st_id s" using find_SomeD by fastforce+
    then have a: "allocatable db t (py_supplier p) (py_currency p) (fst sx) (snd sx)" using c' by blast
    then have "fst sx = s"
      using unique_keysD [OF settlement_invD(7) [OF payment_invD(1) [OF inv]] _ s] sx(2) by (simp add: allocatable_def)
    then show ?thesis using a e Some by (simp add: allocatable_def add.commute)
  qed
qed

section \<open>Runs\<close>

text \<open>
  One step per operation of the payment service; the other steps are those of the settlement module
  and of the rest of the platform, which leave the payment tables alone.
\<close>

inductive payment_step :: "'a payment_db_scheme \<Rightarrow> 'a payment_db_scheme \<Rightarrow> bool" where
  pay_create: "CreatePaymentCommand sp cu m als r d n k = Inr cmd \<Longrightarrow> create_payment e cmd a db = Inr (p, db')
    \<Longrightarrow> payment_step db db'"
| pay_submit: "submit_payment e i a db = Inr (p, db') \<Longrightarrow> payment_step db db'"
| pay_execute: "execute_payment e i ex a db = Inr (p, db') \<Longrightarrow> payment_step db db'"
| pay_retry: "retry_payment e i ex a db = Inr (p, db') \<Longrightarrow> payment_step db db'"
| pay_complete: "complete_payment e i r' a db = Inr (p, db') \<Longrightarrow> payment_step db db'"
| pay_fail: "FailPaymentCommand w = Inr w' \<Longrightarrow> fail_payment e i w' a db = Inr (p, db') \<Longrightarrow> payment_step db db'"
| pay_cancel: "CancelPaymentCommand w = Inr w' \<Longrightarrow> cancel_payment e i w' a db = Inr (p, db') \<Longrightarrow> payment_step db db'"
| pay_elsewhere: "settlement_step db db' \<Longrightarrow> payments db' = payments db \<Longrightarrow> payment_lines db' = payment_lines db
    \<Longrightarrow> payment_attempts db' = payment_attempts db \<Longrightarrow> next_id db \<le> next_id db'
    \<Longrightarrow> (\<forall>k. series_next (sequences db) k \<le> series_next (sequences db') k) \<Longrightarrow> payment_step db db'"

definition no_payments :: "'a payment_db_scheme \<Rightarrow> bool" where
  "no_payments db \<longleftrightarrow> no_settlements db \<and> payments db = [] \<and> payment_lines db = [] \<and> payment_attempts db = []"

text \<open>A step that takes up a failed payment again.\<close>

definition resumes :: "'a payment_db_scheme \<Rightarrow> 'a payment_db_scheme \<Rightarrow> bool" where
  "resumes db db' \<longleftrightarrow> (\<exists>p \<in> set (payments db). \<exists>p' \<in> set (payments db'). py_id p' = py_id p
     \<and> py_status p = PFailed \<and> py_status p' = PProcessing)"

text \<open>What a step keeps of every payment.\<close>

definition paid_as :: "'a payment_db_scheme \<Rightarrow> 'a payment_db_scheme \<Rightarrow> bool" where
  "paid_as db db' \<longleftrightarrow> (\<forall>p \<in> set (payments db). \<exists>p' \<in> set (payments db').
     py_home p' = py_home p \<and> pay_edge\<^sup>*\<^sup>* (py_status p) (py_status p')
     \<and> filter (\<lambda>l. pl_payment l = py_id p) (payment_lines db') = filter (\<lambda>l. pl_payment l = py_id p) (payment_lines db)
     \<and> (pay_final (py_status p) \<longrightarrow> p' = p \<and> filter (\<lambda>t. pt_payment t = py_id p) (payment_attempts db')
          = filter (\<lambda>t. pt_payment t = py_id p) (payment_attempts db)))"

lemma paid_as_refl: "paid_as db db"
  by (auto simp: paid_as_def)

lemma paid_as_frame:
  "(\<And>p. p \<in> set (payments db) \<Longrightarrow> p \<in> set (payments db')
      \<and> filter (\<lambda>l. pl_payment l = py_id p) (payment_lines db') = filter (\<lambda>l. pl_payment l = py_id p) (payment_lines db))
    \<Longrightarrow> payment_attempts db' = payment_attempts db \<Longrightarrow> paid_as db db'"
  unfolding paid_as_def by (metis rtranclp.rtrancl_refl)

lemma paid_as_trans: "paid_as a b \<Longrightarrow> paid_as b c \<Longrightarrow> paid_as a c"
proof -
  assume ab: "paid_as a b" and bc: "paid_as b c"
  show ?thesis
    unfolding paid_as_def
  proof
    fix p assume "p \<in> set (payments a)"
    then obtain q where q: "q \<in> set (payments b)" "py_home q = py_home p" "pay_edge\<^sup>*\<^sup>* (py_status p) (py_status q)"
      "filter (\<lambda>l. pl_payment l = py_id p) (payment_lines b) = filter (\<lambda>l. pl_payment l = py_id p) (payment_lines a)"
      "pay_final (py_status p) \<longrightarrow> q = p \<and> filter (\<lambda>t. pt_payment t = py_id p) (payment_attempts b)
          = filter (\<lambda>t. pt_payment t = py_id p) (payment_attempts a)"
      using ab unfolding paid_as_def by meson
    have id: "py_id q = py_id p" using q(2) by (simp add: py_home_eq)
    obtain r where r: "r \<in> set (payments c)" "py_home r = py_home q" "pay_edge\<^sup>*\<^sup>* (py_status q) (py_status r)"
      "filter (\<lambda>l. pl_payment l = py_id p) (payment_lines c) = filter (\<lambda>l. pl_payment l = py_id p) (payment_lines b)"
      "pay_final (py_status q) \<longrightarrow> r = q \<and> filter (\<lambda>t. pt_payment t = py_id p) (payment_attempts c)
          = filter (\<lambda>t. pt_payment t = py_id p) (payment_attempts b)"
      using bc q(1) unfolding paid_as_def id [symmetric] by meson
    show "\<exists>r \<in> set (payments c). py_home r = py_home p \<and> pay_edge\<^sup>*\<^sup>* (py_status p) (py_status r)
       \<and> filter (\<lambda>l. pl_payment l = py_id p) (payment_lines c) = filter (\<lambda>l. pl_payment l = py_id p) (payment_lines a)
       \<and> (pay_final (py_status p) \<longrightarrow> r = p \<and> filter (\<lambda>t. pt_payment t = py_id p) (payment_attempts c)
            = filter (\<lambda>t. pt_payment t = py_id p) (payment_attempts a))"
      using q r by (intro bexI [OF _ r(1)]) auto
  qed
qed

lemma payment_change_paid_as:
  assumes inv: "payment_inv db" and c: "payment_change db p p' db'"
  shows "paid_as db db'"
  unfolding paid_as_def
proof
  note c' = c [unfolded payment_change_def] and a = payment_invD(5) [OF inv, unfolded attempts_ok_def]
  have p: "p \<in> set (payments db)" and h: "py_home p' = py_home p" and e: "pay_edge (py_status p) (py_status p')"
    and ps: "payments db' = row_update py_id (py_id p) (\<lambda>_. p') (payments db)" and ls: "payment_lines db' = payment_lines db"
    using c' by blast+
  have p'in: "p' \<in> set (payments db')" unfolding ps payment_put_in [OF p] by blast
  fix q assume q: "q \<in> set (payments db)"
  show "\<exists>r \<in> set (payments db'). py_home r = py_home q \<and> pay_edge\<^sup>*\<^sup>* (py_status q) (py_status r)
       \<and> filter (\<lambda>l. pl_payment l = py_id q) (payment_lines db') = filter (\<lambda>l. pl_payment l = py_id q) (payment_lines db)
       \<and> (pay_final (py_status q) \<longrightarrow> r = q \<and> filter (\<lambda>t. pt_payment t = py_id q) (payment_attempts db')
            = filter (\<lambda>t. pt_payment t = py_id q) (payment_attempts db))"
  proof (cases "py_id q = py_id p")
    case True
    then have "q = p" using unique_keysD [OF payment_inv_keys(1) [OF inv] q p] by simp
    then show ?thesis
      using h e payment_life.terminal_stuck p'in unfolding ls by blast
  next
    case False
    have "filter (\<lambda>t. pt_payment t = py_id q) (payment_attempts db') = filter (\<lambda>t. pt_payment t = py_id q) (payment_attempts db)"
      using c' a p False unfolding attempts_follow_def by blast
    moreover have "q \<in> set (payments db')" unfolding ps payment_put_in [OF p] using q False by blast
    ultimately show ?thesis unfolding ls by blast
  qed
qed

lemma create_paid_as:
  fixes db :: "'a payment_db_scheme"
  assumes inv: "payment_inv db" and r: "create_payment e cmd a db = Inr (p, db')"
  shows "paid_as db db'"
  using inv r
proof (cases rule: create_payment_run [consumes 2])
  case (existing t)
  then show ?thesis by (simp add: paid_as_refl)
next
  case (new t res number db1)
  note c' = new(4) [unfolded payment_added_def]
  have "filter (\<lambda>l. pl_payment l = py_id q) (new_lines e p (Suc (next_id db)) res) = []" if "q \<in> set (payments db)" for q
    using added_old(1) [OF inv new(4) that] new_lines_payment [of _ e p] by (fastforce simp: filter_empty_conv)
  then show ?thesis using c' by (intro paid_as_frame) simp_all
qed

lemma create_claims_ok:
  fixes db :: "'a payment_db_scheme"
  assumes inv: "payment_inv db" and r: "create_payment e cmd a db = Inr (p, db')" and ok: "claims_ok db"
  shows "claims_ok db'"
  using inv r
proof (cases rule: create_payment_run [consumes 2])
  case (existing t)
  then show ?thesis using ok by simp
next
  case (new t res number db1)
  then show ?thesis using claims_ok_added [OF inv _ ok] by blast
qed

lemma payment_elsewhere_inv:
  assumes inv: "payment_inv db" and st: "settlement_step db db'" and same: "payments db' = payments db"
    "payment_lines db' = payment_lines db" "payment_attempts db' = payment_attempts db" and n: "next_id db \<le> next_id db'"
    and q: "\<forall>k. series_next (sequences db) k \<le> series_next (sequences db') k"
  shows "payment_inv db'"
proof -
  note i = payment_invD [OF inv] and k = settlement_step_keeps [OF st payment_invD(1) [OF inv]]
  have fin: "s \<in> set (settlements db')" if "s \<in> set (settlements db)" "st_status s = SFinalized" for s
    using k that unfolding settled_as_def by (metis st_final_iff)
  have "pays (settlements db') (payments db) l" if "l \<in> set (payment_lines db)" for l
    using line_pays [OF inv that] fin unfolding pays_def by blast
  then have "payment_lines_ok (next_id db') (settlements db') (payments db) (payment_lines db)"
    using i(3) n unfolding payment_lines_ok_def by (meson less_le_trans)
  moreover have "payments_ok (next_id db') (payments db)"
    using i(2) n unfolding payments_ok_def by (meson less_le_trans)
  moreover have "attempts_ok (next_id db') (payments db) (payment_attempts db)"
    using i(5) n unfolding attempts_ok_def by (meson less_le_trans)
  moreover have "payment_numbers (sequences db') (payments db)"
    using i(6) q unfolding payment_numbers_def by (rule_tac numbers_kept) auto
  ultimately show ?thesis using k i(4) unfolding payment_inv_def same by blast
qed

lemma payment_elsewhere_claims:
  assumes inv: "payment_inv db" and st: "settlement_step db db'" and same: "payments db' = payments db"
    "payment_lines db' = payment_lines db" and ok: "claims_ok db"
  shows "claims_ok db'"
  unfolding claims_ok_def
proof
  note k = settlement_step_keeps [OF st payment_invD(1) [OF inv]]
  have e: "claimed db' i = claimed db i" for i by (simp add: claimed_def same)
  fix s assume s: "s \<in> set (settlements db')"
  show "claimed db' (st_id s) \<le> st_net s \<or> claimed db' (st_id s) = 0"
  proof (cases "filter (\<lambda>l. pl_settlement l = st_id s \<and> claiming (payments db) l) (payment_lines db) = []")
    case True
    then show ?thesis unfolding e by (simp add: claimed_def)
  next
    case False
    then obtain l where "l \<in> set (payment_lines db)" "pl_settlement l = st_id s" by (auto simp: filter_empty_conv)
    then obtain s0 where s0: "s0 \<in> set (settlements db)" "st_id s0 = st_id s" "st_status s0 = SFinalized"
      using line_pays [OF inv] unfolding pays_def by metis
    then have "s0 \<in> set (settlements db')" using k unfolding settled_as_def by (metis st_final_iff)
    then have "s0 = s" using unique_keysD [OF settlement_invD(7) [OF conjunct1 [OF k]] _ s] s0(2) by blast
    then show ?thesis using ok s0(1) unfolding claims_ok_def e by blast
  qed
qed

text \<open>A transition that keeps the invariant, follows the life cycle and claims nothing new unless it resumes.\<close>

lemma transition_keeps:
  assumes "payment_inv db" and "payment_change db p p' db'"
  shows "payment_inv db' \<and> paid_as db db' \<and> (claims_ok db \<longrightarrow> \<not> resumes db db' \<longrightarrow> claims_ok db')"
proof -
  have c: "p \<in> set (payments db)" "p' \<in> set (payments db')" "py_id p' = py_id p" "pay_edge (py_status p) (py_status p')"
    using assms(2) by (auto simp: payment_change_def payment_put_in py_home_eq)
  have "py_status p \<in> set LIVE_STATUSES" if "\<not> resumes db db'" "py_status p' \<in> set LIVE_STATUSES"
    using c that unfolding resumes_def pay_edge_def LIVE_STATUSES_def by (cases "py_status p") auto
  then show ?thesis using payment_change_inv payment_change_paid_as claims_ok_change assms by metis
qed

lemma payment_step_keeps:
  "payment_step db db' \<Longrightarrow> payment_inv db \<Longrightarrow>
     payment_inv db' \<and> paid_as db db' \<and> (claims_ok db \<longrightarrow> \<not> resumes db db' \<longrightarrow> claims_ok db')"
proof (induction rule: payment_step.induct)
  case (pay_create sp cu m als r d n k cmd e a db p db')
  then show ?case using create_payment_inv create_paid_as create_claims_ok by metis
next
  case (pay_submit e i a db p db')
  then show ?case using submit_change transition_keeps by metis
next
  case (pay_execute e i ex a db p db')
  then show ?case using execute_change transition_keeps by metis
next
  case (pay_retry e i ex a db p db')
  then show ?case using execute_change [OF retry_execute] transition_keeps by metis
next
  case (pay_complete e i r' a db p db')
  then show ?case using complete_payment_change transition_keeps by metis
next
  case (pay_fail w w' e i a db p db')
  then show ?case using fail_change transition_keeps by metis
next
  case (pay_cancel w w' e i a db p db')
  then show ?case using cancel_payment_change transition_keeps by metis
next
  case (pay_elsewhere db db')
  then show ?case using payment_elsewhere_inv payment_elsewhere_claims paid_as_frame [of db db'] by metis
qed

lemma payment_run_keeps:
  "payment_step\<^sup>*\<^sup>* db db' \<Longrightarrow> payment_inv db \<Longrightarrow> payment_inv db' \<and> paid_as db db'"
  by (induction rule: rtranclp_induct) (auto intro: paid_as_refl dest: payment_step_keeps paid_as_trans)

lemma no_payments_inv: "no_payments db \<Longrightarrow> payment_inv db \<and> claims_ok db"
  by (simp add: no_payments_def payment_inv_def no_settlements_inv payments_ok_def payment_lines_ok_def amounts_ok_def
      attempts_ok_def payment_numbers_def claims_ok_def) (simp add: no_settlements_def)

end
