(* ===== verification/PaymentGuarantees.thy ===== *)
theory PaymentGuarantees
  imports PaymentSteps
begin

text \<open>
  What the payment module guarantees: consistent payments, no settlement paid beyond its net amount
  as long as no failed payment is taken up again, immutable outcomes and idempotent creation.
\<close>

lemma reachable_payment_inv:
  "no_payments db0 \<Longrightarrow> payment_step\<^sup>*\<^sup>* db0 db \<Longrightarrow> payment_inv db"
  using no_payments_inv payment_run_keeps by blast

section \<open>Consistency\<close>

text \<open>
  C9: Payments stay consistent. In every state the platform can reach from an installation without
  payments, the amount of a payment is positive and is the exact sum of its lines, every line pays a
  finalized settlement of the payee in the payment's currency and no settlement twice in one payment,
  the attempts are numbered from one without a gap, and one of them is open exactly while the payment
  is processing.
\<close>

theorem payments_consistent:
  fixes db0 db :: "'a payment_db_scheme"
  assumes "no_payments db0" and "payment_step\<^sup>*\<^sup>* db0 db"
  shows "(\<forall>p \<in> set (payments db).
            0 < py_amount p
          \<and> py_amount p = (\<Sum>l \<leftarrow> filter (\<lambda>l. pl_payment l = py_id p) (payment_lines db). pl_amount l)
          \<and> map pt_count (filter (\<lambda>t. pt_payment t = py_id p) (payment_attempts db)) = [1 ..< Suc (py_attempts p)]
          \<and> length (filter (\<lambda>t. pt_payment t = py_id p \<and> pt_status t = AProcessing) (payment_attempts db))
              = (if py_status p = PProcessing then 1 else 0))
       \<and> (\<forall>l \<in> set (payment_lines db). 0 < pl_amount l \<and> (\<exists>p \<in> set (payments db). \<exists>s \<in> set (settlements db).
            py_id p = pl_payment l \<and> st_id s = pl_settlement l \<and> st_status s = SFinalized \<and> st_tenant s = py_tenant p
          \<and> st_supplier s = py_supplier p \<and> st_currency s = py_currency p))
       \<and> (\<forall>l \<in> set (payment_lines db). \<forall>k \<in> set (payment_lines db). pl_payment l = pl_payment k
            \<longrightarrow> pl_settlement l = pl_settlement k \<longrightarrow> pl_id l = pl_id k)"
proof -
  have inv: "payment_inv db" using assms by (rule reachable_payment_inv)
  have a: "0 < py_amount p
          \<and> py_amount p = (\<Sum>l \<leftarrow> filter (\<lambda>l. pl_payment l = py_id p) (payment_lines db). pl_amount l)
          \<and> attempted (payment_attempts db) p" if "p \<in> set (payments db)" for p
    using payment_invD(4,5) [OF inv] that unfolding amounts_ok_def attempts_ok_def by blast
  have b: "0 < pl_amount l \<and> (\<exists>p \<in> set (payments db). \<exists>s \<in> set (settlements db).
            py_id p = pl_payment l \<and> st_id s = pl_settlement l \<and> st_status s = SFinalized \<and> st_tenant s = py_tenant p
          \<and> st_supplier s = py_supplier p \<and> st_currency s = py_currency p)" if "l \<in> set (payment_lines db)" for l
    using line_pays [OF inv that] unfolding pays_def by metis
  show ?thesis
    using a b payment_invD(3) [OF inv] unfolding attempted_def payment_lines_ok_def by blast
qed

section \<open>What may be claimed\<close>

lemma payment_claims_run:
  fixes db db' :: "'a payment_db_scheme"
  assumes "(\<lambda>a b. payment_step a b \<and> \<not> resumes a b)\<^sup>*\<^sup>* db db'" and "payment_inv db \<and> claims_ok db"
  shows "payment_inv db' \<and> claims_ok db'"
  using assms by (induction rule: rtranclp_induct) (auto dest: payment_step_keeps)

text \<open>
  C5: Nothing is paid twice (BR-0018). Along every run in which no failed payment is taken up again,
  the payments that are drafted, pending, processing or completed never claim more of a settlement
  than its net amount, whichever payments were created, cancelled or failed on the way.
\<close>

theorem no_overpayment_without_resuming:
  fixes db0 db :: "'a payment_db_scheme"
  assumes "no_payments db0" and "(\<lambda>a b. payment_step a b \<and> \<not> resumes a b)\<^sup>*\<^sup>* db0 db" and "s \<in> set (settlements db)"
  shows "claimed db (st_id s) \<le> max 0 (st_net s)"
proof -
  have "claims_ok db" using payment_claims_run [OF assms(2) no_payments_inv [OF assms(1)]] by blast
  then show ?thesis using assms(3) unfolding claims_ok_def by fastforce
qed

lemma claimed_put:
  fixes db :: "'a payment_db_scheme"
  assumes inv: "payment_inv db" and c: "payment_change db p p' db'"
    and st: "py_status p \<notin> set LIVE_STATUSES" "py_status p' \<in> set LIVE_STATUSES"
  shows "claimed db' i = claimed db i
     + (\<Sum>l \<leftarrow> filter (\<lambda>l. pl_settlement l = i \<and> pl_payment l = py_id p) (payment_lines db). pl_amount l)"
proof -
  note c' = c [unfolded payment_change_def]
  have p: "p \<in> set (payments db)" and ls: "payment_lines db' = payment_lines db" and h: "py_id p' = py_id p"
    and ps: "payments db' = row_update py_id (py_id p) (\<lambda>_. p') (payments db)"
    using c' by (auto simp: py_home_eq)
  have same: "claiming (payments db') l = (claiming (payments db) l \<or> pl_payment l = py_id p)" for l
    using h st unfolding claiming_def ps Bex_def payment_put_in [OF p] by auto metis+
  have none: "\<not> claiming (payments db) l" if "pl_payment l = py_id p" for l
    using that st(1) unique_keysD [OF payment_inv_keys(1) [OF inv] _ p] unfolding claiming_def by metis
  have split: "(\<Sum>l \<leftarrow> filter (\<lambda>l. P l \<or> Q l) xs. f l) = (\<Sum>l \<leftarrow> filter P xs. f l) + (\<Sum>l \<leftarrow> filter Q xs. f l)"
    if "\<And>l. P l \<Longrightarrow> \<not> Q l" for P Q xs and f :: "payment_line \<Rightarrow> decimal"
    using that by (induction xs) auto
  show ?thesis
    unfolding claimed_def ls same conj_disj_distribL by (rule split) (use none in blast)
qed

text \<open>
  C12: A failed payment is taken up again without a look at what its settlements still owe. Whatever
  has been allocated since it failed, executing it succeeds exactly when provider and reference fit
  their columns, and then claims all its lines once more; the allocation check of creation is not
  repeated.
\<close>

theorem resumed_payment_reclaims:
  fixes db0 db :: "'a payment_db_scheme"
  assumes "no_payments db0" and "payment_step\<^sup>*\<^sup>* db0 db" and "p \<in> set (payments db)" and "py_status p = PFailed"
    and "current_tenant e = Some (py_tenant p)"
  shows "((\<exists>p' db'. execute_payment e (py_id p) cmd actor db = Inr (p', db'))
            \<longleftrightarrow> length (or_else (opt_str (ep_provider cmd)) (py_method p)) \<le> 40 \<and> length (opt_str (ep_reference cmd)) \<le> 120)
     \<and> (\<forall>p' db'. execute_payment e (py_id p) cmd actor db = Inr (p', db') \<longrightarrow> py_status p' = PProcessing
          \<and> (\<forall>i. claimed db' i = claimed db i
               + (\<Sum>l \<leftarrow> filter (\<lambda>l. pl_settlement l = i \<and> pl_payment l = py_id p) (payment_lines db). pl_amount l)))"
proof -
  have inv: "payment_inv db" using assms(1,2) by (rule reachable_payment_inv)
  have g: "get_payment e db (py_id p) = Inr p"
    using row_get_unique [OF payment_inv_keys(1) [OF inv] assms(3)] assms(5)
    by (simp add: get_payment_def require_current_tenant_def)
  have "(\<exists>p' db'. execute_payment e (py_id p) cmd actor db = Inr (p', db'))
      \<longleftrightarrow> length (or_else (opt_str (ep_provider cmd)) (py_method p)) \<le> 40 \<and> length (opt_str (ep_reference cmd)) \<le> 120"
    using assms(4)
    by (auto simp: execute_payment_def g pay_transition_Inr pay_transition_def Let_def new_id_eq open_attempt_def result_simps str_upper_def)
  moreover have "py_status p' = PProcessing \<and> (\<forall>i. claimed db' i = claimed db i
          + (\<Sum>l \<leftarrow> filter (\<lambda>l. pl_settlement l = i \<and> pl_payment l = py_id p) (payment_lines db). pl_amount l))"
    if r: "execute_payment e (py_id p) cmd actor db = Inr (p', db')" for p' db'
  proof -
    obtain q where q: "payment_change db q p' db'" "py_status p' = PProcessing" and "q = p"
      using execute_change [OF r] g by (metis Inr_inject)
    then show ?thesis using claimed_put [OF inv q(1)] assms(4) by (simp add: LIVE_STATUSES_def)
  qed
  ultimately show ?thesis by blast
qed

section \<open>Outcomes\<close>

text \<open>
  C10: A completed payment is permanent, and so is a cancelled one: in every later state its row, its
  lines and its attempts are unchanged, and no other row has its id.
\<close>

theorem completed_payment_immutable:
  fixes db0 db db' :: "'a payment_db_scheme"
  assumes "no_payments db0" and "payment_step\<^sup>*\<^sup>* db0 db" and "payment_step\<^sup>*\<^sup>* db db'" and "p \<in> set (payments db)"
    and "py_status p = PCompleted \<or> py_status p = PCancelled"
  shows "p \<in> set (payments db') \<and> (\<forall>q \<in> set (payments db'). py_id q = py_id p \<longrightarrow> q = p)
       \<and> payment_lines_of db' (py_id p) = payment_lines_of db (py_id p)
       \<and> filter (\<lambda>t. pt_payment t = py_id p) (payment_attempts db') = filter (\<lambda>t. pt_payment t = py_id p) (payment_attempts db)"
proof -
  have inv: "payment_inv db" using assms(1,2) by (rule reachable_payment_inv)
  have k: "payment_inv db' \<and> paid_as db db'" using payment_run_keeps [OF assms(3) inv] .
  have "pay_final (py_status p)" using assms(5) by (simp add: pay_final_def)
  then have "p \<in> set (payments db') \<and> filter (\<lambda>l. pl_payment l = py_id p) (payment_lines db')
       = filter (\<lambda>l. pl_payment l = py_id p) (payment_lines db)
     \<and> filter (\<lambda>t. pt_payment t = py_id p) (payment_attempts db') = filter (\<lambda>t. pt_payment t = py_id p) (payment_attempts db)"
    using k assms(4) unfolding paid_as_def by metis
  then show ?thesis
    using unique_keysD [OF payment_inv_keys(1)] k unfolding payment_lines_of_def by metis
qed

lemma created_key:
  fixes db :: "'a payment_db_scheme"
  assumes inv: "payment_inv db" and r: "create_payment e cmd a db = Inr (p, db')" and k: "opt_str (cp_key cmd) \<noteq> []"
  shows "p \<in> set (payments db') \<and> py_key p = cp_key cmd \<and> current_tenant e = Some (py_tenant p)"
  using inv r
proof (cases rule: create_payment_run [consumes 2])
  case (existing t)
  then show ?thesis using find_SomeD k unfolding existing_payment_def by (fastforce split: if_splits)
next
  case (new t res number db1)
  then show ?thesis by (simp add: payment_added_def)
qed

text \<open>
  C11: Creating a payment is idempotent in its key. Once a payment with a key has been created,
  sending a creation with the same key again, at any later time and with whatever content, returns
  that payment and changes nothing.
\<close>

theorem create_payment_idempotent:
  fixes db0 db db' db'' :: "'a payment_db_scheme"
  assumes "no_payments db0" and "payment_step\<^sup>*\<^sup>* db0 db"
    and "CreatePaymentCommand sp cu m als r d n key = Inr cmd" and "create_payment e cmd actor db = Inr (p, db')"
    and "key = Some (c # cs)" and "payment_step\<^sup>*\<^sup>* db' db''"
    and "cp_key cmd' = key" and "current_tenant e' = current_tenant e"
  shows "\<exists>q. create_payment e' cmd' actor' db'' = Inr (q, db'') \<and> q \<in> set (payments db'') \<and> py_home q = py_home p"
proof -
  have inv: "payment_inv db" using assms(1,2) by (rule reachable_payment_inv)
  have key: "cp_key cmd = key" using assms(3) by (auto simp: CreatePaymentCommand_def result_simps split: if_splits)
  have p: "p \<in> set (payments db') \<and> py_key p = key \<and> current_tenant e = Some (py_tenant p)"
    using created_key [OF inv assms(4)] key assms(5) by (simp add: opt_str_def)
  have inv': "payment_inv db'" using create_payment_inv inv assms(4) by blast
  have k: "payment_inv db'' \<and> paid_as db' db''" using payment_run_keeps [OF assms(6) inv'] .
  then obtain q where q: "q \<in> set (payments db'')" "py_home q = py_home p" using p unfolding paid_as_def by meson
  have "\<exists>q'. find (\<lambda>p'. py_tenant p' = py_tenant p \<and> py_key p' = key) (payments db'') = Some q'"
    using q p by (auto simp: find_None_iff py_home_eq simp flip: not_None_eq)
  then obtain q' where f: "find (\<lambda>p'. py_tenant p' = py_tenant p \<and> py_key p' = key) (payments db'') = Some q'" ..
  then have q': "q' \<in> set (payments db'')" "py_tenant q' = py_tenant p" "py_key q' = key"
    using find_SomeD by fastforce+
  have "py_id q' = py_id q"
    using payment_invD(2) [OF conjunct1 [OF k]] q q' p assms(5) unfolding payments_ok_def py_home_eq by (metis option.distinct(1))
  then have "q' = q" using unique_keysD [OF payment_inv_keys(1) [OF conjunct1 [OF k]] q'(1) q(1)] by blast
  then show ?thesis
    using f q p assms(5,7,8) by (auto simp: create_payment_def existing_payment_def require_current_tenant_def opt_str_def)
qed

end
