(* ===== verification/Scripts.thy ===== *)
theory Scripts
  imports Platform
begin

text \<open>
  What the samples share: scripts of operations, and code equations with which a run is evaluated.
\<close>

section \<open>Scripts\<close>

text \<open>A script is a list of operations, run until the first one that fails.\<close>

fun script :: "('s \<Rightarrow> 's option) list \<Rightarrow> 's \<Rightarrow> 's option" where
  "script [] s = Some s"
| "script (f # fs) s = (case f s of None \<Rightarrow> None | Some s' \<Rightarrow> script fs s')"

definition done_with :: "('b \<times> 's) result \<Rightarrow> 's option" where
  "done_with r = (case r of Inl err \<Rightarrow> None | Inr (x, s') \<Rightarrow> Some s')"

lemma done_with_Some: "done_with r = Some s' \<longleftrightarrow> (\<exists>x. r = Inr (x, s'))"
  by (auto simp: done_with_def split: sum.splits)

lemma script_append: "script (fs @ gs) s = (case script fs s of None \<Rightarrow> None | Some s' \<Rightarrow> script gs s')"
  by (induction fs arbitrary: s) (auto split: option.splits)

lemma script_steps:
  "script fs s = Some s' \<Longrightarrow> (\<And>f t t'. f \<in> set fs \<Longrightarrow> f t = Some t' \<Longrightarrow> R t t') \<Longrightarrow> R\<^sup>*\<^sup>* s s'"
proof (induction fs arbitrary: s)
  case (Cons f fs)
  then obtain u where "f s = Some u" "script fs u = Some s'" by (auto split: option.splits)
  moreover have "R\<^sup>*\<^sup>* u s'" by (rule Cons.IH) (use Cons.prems(2) calculation in auto)
  moreover have "R s u" by (rule Cons.prems(2) [of f]) (simp_all add: calculation(1))
  ultimately show ?case by (simp add: converse_rtranclp_into_rtranclp)
qed simp

text \<open>Evaluation of context arithmetic: a value with few digits is not rounded.\<close>

lemma ctx_code [code]:
  "ctx x = (if snd (quotient_of (x * 1000000)) = 1 \<and> \<bar>x\<bar> < 1000000000000000 then x else sig_round 10 prec x)"
proof -
  have "ctx x = x" if q: "snd (quotient_of (x * 1000000)) = 1" and b: "\<bar>x\<bar> < 1000000000000000"
  proof -
    obtain k where "quotient_of (x * 1000000) = (k, 1)" using q by (metis prod.collapse)
    then have "x * 1000000 = of_int k" using quotient_of_div by fastforce
    then have "at_scale 6 x" by (intro at_scaleI [of _ _ k]) simp
    then show ?thesis using b by (intro ctx_exact [of 6]) (simp_all add: prec_def)
  qed
  then show ?thesis by (simp add: ctx_def)
qed

text \<open>The year of the sample day, evaluated once.\<close>

lemma sample_year: "show_int (year_of 738900) = ''2024''"
  by code_simp

lemma period_for_code [code]: "period_for day = (if day = 738900 then ''2024'' else show_int (year_of day))"
  by (simp add: period_for_def sample_year)

end
