(* ===== verification/PaymentSamples.thy ===== *)
theory PaymentSamples
  imports PaymentGuarantees CollectionSamples Scripts
begin

text \<open>
  One settlement and its payments, run from an installation with one completed collection: the
  guarantees of the settlement and payment modules are applied along this run.
\<close>

section \<open>The installation\<close>

definition sample_event :: outbox_event where
  "sample_event = \<lparr>ev_id = 63, ev_tenant = Some 7, ev_aggregate_type = Some ''pricing_calculation'',
     ev_aggregate_id = Some 62, ev_name = ''pricing.calculated.v1'',
     ev_payload = [(''currency'', JStr ''KES''), (''transaction_date'', JDate 738900), (''quantity'', JDec (25/2)),
                   (''unit_price'', JDec (81/2)), (''gross_amount'', JDec (2025/4))],
     ev_actor = None, ev_at = sample_now\<rparr>"

definition sample_books :: payment_db where
  "sample_books =
     \<lparr>next_id = 100, organizations = [sample_org],
      centers = [\<lparr>cc_id = 50, cc_tenant = 7, cc_name = ''North'', cc_status = ''active''\<rparr>],
      suppliers = [\<lparr>sup_id = 70, sup_tenant = 7, sup_code = ''S-1'', sup_status = ''active''\<rparr>],
      supplier_profiles = [], supplier_centers = [], devices = [], branches = [],
      periods = [], sequences = [], outbox = [sample_event], audit_log = [], config_entries = [],
      rate_cards = [], center_assignments = [], product_assignments = [], dimensions = [], matrices = [],
      matrix_rows = [], sessions = [], transactions = [sample_done], tx_events = [], snapshots = [], tx_metrics = [],
      settlements = [], settlement_lines = [], payments = [], payment_lines = [], payment_attempts = []\<rparr>"

abbreviation morning :: env where
  "morning \<equiv> sample_env 7 sample_now"

text \<open>The settlement of days \<open>d\<close> to \<open>d + 14\<close>.\<close>

definition do_open :: "date \<Rightarrow> payment_db \<Rightarrow> payment_db option" where
  "do_open d db = done_with (create_settlement morning
     \<lparr>cs_supplier = 70, cs_of_center = 50, cs_from = d, cs_to = d + 14, cs_currency = None\<rparr> 9 db)"

definition do_collect :: "uuid \<Rightarrow> payment_db \<Rightarrow> payment_db option" where
  "do_collect i db = done_with (collect_period morning i 9 db)"

definition do_totals :: "uuid \<Rightarrow> payment_db \<Rightarrow> payment_db option" where
  "do_totals i db = done_with (calculate_totals morning i 9 db)"

definition do_finalize :: "uuid \<Rightarrow> payment_db \<Rightarrow> payment_db option" where
  "do_finalize i db = done_with (finalize_settlement morning i 9 db)"

definition sample_request :: "string \<Rightarrow> create_payment_command" where
  "sample_request key = \<lparr>cp_supplier = 70, cp_currency = None, cp_method = ''CASH'',
     cp_allocations = [\<lparr>al_settlement = 100, al_amount = None\<rparr>], cp_reference = None, cp_details = [],
     cp_note = None, cp_key = Some key\<rparr>"

definition do_pay :: "string \<Rightarrow> payment_db \<Rightarrow> payment_db option" where
  "do_pay key db = done_with (create_payment morning (sample_request key) 9 db)"

definition do_submit :: "uuid \<Rightarrow> payment_db \<Rightarrow> payment_db option" where
  "do_submit i db = done_with (submit_payment morning i 9 db)"

definition do_execute :: "uuid \<Rightarrow> payment_db \<Rightarrow> payment_db option" where
  "do_execute i db = done_with (execute_payment morning i \<lparr>ep_provider = None, ep_reference = None\<rparr> 9 db)"

definition do_fail :: "uuid \<Rightarrow> payment_db \<Rightarrow> payment_db option" where
  "do_fail i db = done_with (fail_payment morning i ''bounced'' 9 db)"

definition do_complete :: "uuid \<Rightarrow> payment_db \<Rightarrow> payment_db option" where
  "do_complete i db = done_with (complete_payment morning i None 9 db)"

section \<open>Every operation of the script is a step\<close>

text \<open>The settlement operations leave the payment tables alone.\<close>

definition books_kept :: "'a payment_db_scheme \<Rightarrow> 'a payment_db_scheme \<Rightarrow> bool" where
  "books_kept db db' \<longleftrightarrow> payments db' = payments db \<and> payment_lines db' = payment_lines db
     \<and> payment_attempts db' = payment_attempts db \<and> next_id db \<le> next_id db'
     \<and> (\<forall>k. series_next (sequences db) k \<le> series_next (sequences db') k)"

lemma books_kept_refl: "books_kept db db"
  by (simp add: books_kept_def)

lemma books_kept_trans: "books_kept a b \<Longrightarrow> books_kept b c \<Longrightarrow> books_kept a c"
  proof -
  assume a: "books_kept a b" and b: "books_kept b c"
  have "series_next (sequences a) k \<le> series_next (sequences c) k" for k
    using a b unfolding books_kept_def by (meson order_trans)
  moreover have "next_id a \<le> next_id c" using a b unfolding books_kept_def by (meson order_trans)
  ultimately show ?thesis using a b by (simp add: books_kept_def)
qed

lemma record_settlement_books [simp]:
  "payments (record_settlement e s ev d a db) = payments db"
  "payment_lines (record_settlement e s ev d a db) = payment_lines db"
  "payment_attempts (record_settlement e s ev d a db) = payment_attempts db"
  "payments (put_settlement s db) = payments db" "payment_lines (put_settlement s db) = payment_lines db"
  "payment_attempts (put_settlement s db) = payment_attempts db"
  by (simp_all add: record_settlement_def publish_def audit_def audit_of_def put_settlement_def new_id_eq Let_def)

lemma record_settlement_next: "next_id db \<le> next_id (record_settlement e s ev d a db)"
  by (simp add: record_settlement_def publish_def audit_def audit_of_def new_id_eq Let_def)

lemma create_settlement_books:
  "create_settlement e cmd a db = Inr (s, db') \<Longrightarrow> books_kept db db'"
proof -
  assume r: "create_settlement e cmd a db = Inr (s, db')"
  then obtain t where t: "require_current_tenant e = Inr t" by (auto simp: create_settlement_def result_simps)
  obtain number db1 where n: "next_document_number e t ''settlement'' ''STL'' db = (number, db1)" by (meson surj_pair)
  have k: "payments db' = payments db1 \<and> payment_lines db' = payment_lines db1
      \<and> payment_attempts db' = payment_attempts db1 \<and> next_id db1 \<le> next_id db' \<and> sequences db' = sequences db1"
    using r by (auto simp: create_settlement_def t n result_simps new_id_eq Let_def split: if_splits
        intro: order_trans [OF _ record_settlement_next])
  from n obtain p where "db1 = db\<lparr>sequences := snd (allocate (t, ''settlement'', p) (sequences db))\<rparr>"
    by (rule next_document_number_eq)
  then show ?thesis using k by (simp add: books_kept_def allocate_mono)
qed

lemma add_calculation_books: "add_calculation e i k tx a db = Inr (l, db') \<Longrightarrow> books_kept db db'"
  by (auto simp: add_calculation_def result_simps new_id_eq Let_def books_kept_def
      intro: order_trans [OF _ record_settlement_next])

lemma sweep_books: "sweep e i a ks counts db = Inr (n, db') \<Longrightarrow> books_kept db db'"
proof (induction e i a ks counts db rule: sweep.induct)
  case (2 e i a k t rest added skipped db)
  then show ?case
    by (auto split: sum.splits error.splits intro: books_kept_trans [OF add_calculation_books])
qed (simp add: books_kept_refl)

lemma collect_period_books: "collect_period e i a db = Inr (n, db') \<Longrightarrow> books_kept db db'"
  by (auto simp: collect_period_def result_simps intro: sweep_books)

lemma calculate_totals_books: "calculate_totals e i a db = Inr (s, db') \<Longrightarrow> books_kept db db'"
  by (auto simp: calculate_totals_def result_simps Let_def books_kept_def
      intro: order_trans [OF _ record_settlement_next])

lemma finalize_books: "finalize_settlement e i a db = Inr (s, db') \<Longrightarrow> books_kept db db'"
  by (auto simp: finalize_settlement_def result_simps Let_def split_def books_kept_def split: if_splits
      intro: order_trans [OF _ record_settlement_next])

lemma settlement_is_payment_step: "settlement_step db db' \<Longrightarrow> books_kept db db' \<Longrightarrow> payment_step db db'"
  unfolding books_kept_def by (blast intro: pay_elsewhere)

lemma settlement_ops:
  "do_open d db = Some db' \<Longrightarrow> settlement_step db db' \<and> books_kept db db'"
  "do_collect i db = Some db' \<Longrightarrow> settlement_step db db' \<and> books_kept db db'"
  "do_totals i db = Some db' \<Longrightarrow> settlement_step db db' \<and> books_kept db db'"
  "do_finalize i db = Some db' \<Longrightarrow> settlement_step db db' \<and> books_kept db db'"
proof -
  have "CreateSettlementCommand 70 50 d (d + 14) None
      = Inr \<lparr>cs_supplier = 70, cs_of_center = 50, cs_from = d, cs_to = d + 14, cs_currency = None\<rparr>"
    by (simp add: CreateSettlementCommand_def)
  then show "do_open d db = Some db' \<Longrightarrow> settlement_step db db' \<and> books_kept db db'"
    unfolding do_open_def done_with_Some by (blast intro: settlement_step.step_create create_settlement_books)
  show "do_collect i db = Some db' \<Longrightarrow> settlement_step db db' \<and> books_kept db db'"
    unfolding do_collect_def done_with_Some by (blast intro: settlement_step.step_collect collect_period_books)
  show "do_totals i db = Some db' \<Longrightarrow> settlement_step db db' \<and> books_kept db db'"
    unfolding do_totals_def done_with_Some by (blast intro: settlement_step.step_totals calculate_totals_books)
  show "do_finalize i db = Some db' \<Longrightarrow> settlement_step db db' \<and> books_kept db db'"
    unfolding do_finalize_def done_with_Some by (blast intro: settlement_step.step_finalize finalize_books)
qed

lemma sample_request_command:
  "CreatePaymentCommand 70 None ''CASH'' [\<lparr>al_settlement = 100, al_amount = None\<rparr>] None [] None (Some [c])
     = Inr (sample_request [c])"
  by (simp add: CreatePaymentCommand_def sample_request_def PAYMENT_METHODS_def opt_str_def str_upper_def) code_simp

lemma FailPaymentCommand_bounced: "FailPaymentCommand ''bounced'' = Inr ''bounced''"
  by (simp add: FailPaymentCommand_def)

lemma payment_ops:
  "do_pay [c] db = Some db' \<Longrightarrow> payment_step db db'" "do_submit i db = Some db' \<Longrightarrow> payment_step db db'"
  "do_execute i db = Some db' \<Longrightarrow> payment_step db db'" "do_fail i db = Some db' \<Longrightarrow> payment_step db db'"
  "do_complete i db = Some db' \<Longrightarrow> payment_step db db'"
  unfolding do_pay_def do_submit_def do_execute_def do_fail_def do_complete_def done_with_Some
  by (blast intro: pay_create [OF sample_request_command] pay_submit pay_execute pay_complete
      pay_fail [of "''bounced''" "''bounced''"] FailPaymentCommand_bounced)+

section \<open>The settlement run\<close>

definition settled :: "(payment_db \<Rightarrow> payment_db option) list" where
  "settled = [do_open 738890, do_collect 100, do_totals 100, do_finalize 100]"

lemma settled_evaluated:
  "case script settled sample_books of None \<Rightarrow> False | Some db \<Rightarrow>
     map st_id (settlements db) = [100] \<and> map st_status (settlements db) = [SFinalized]
     \<and> map sl_settlement (settlement_lines db) = [100] \<and> map sl_gross (settlement_lines db) = [2025/4]"
  by code_simp

lemma settled_run:
  obtains db s l where "settlement_step\<^sup>*\<^sup>* sample_books db" "settlements db = [s]" "st_id s = 100" "st_status s = SFinalized"
    "settlement_lines db = [l]" "sl_settlement l = 100" "sl_gross l = 2025/4"
proof -
  from settled_evaluated obtain db where run: "script settled sample_books = Some db"
    and f: "map st_id (settlements db) = [100]" "map st_status (settlements db) = [SFinalized]"
      "map sl_settlement (settlement_lines db) = [100]" "map sl_gross (settlement_lines db) = [2025/4]"
    by (auto split: option.splits)
  have "settlement_step\<^sup>*\<^sup>* sample_books db"
    by (rule script_steps [OF run]) (auto simp: settled_def dest: settlement_ops)
  moreover obtain s where "settlements db = [s]" using f(1) by (auto simp: map_eq_Cons_conv)
  moreover obtain l where "settlement_lines db = [l]" using f(3) by (auto simp: map_eq_Cons_conv)
  ultimately show thesis using that f by simp
qed

lemma sample_books_empty: "no_settlements sample_books" "no_payments sample_books"
  by (simp_all add: no_payments_def no_settlements_def sample_books_def)

lemma settlements_consistent_witness:
  "\<exists>db s l. settlement_step\<^sup>*\<^sup>* sample_books db \<and> settlements db = [s] \<and> settlement_lines db = [l]
     \<and> settleable [s] s (sl_date l)"
proof -
  obtain db s l where run: "settlement_step\<^sup>*\<^sup>* sample_books db" and db: "settlements db = [s]" "settlement_lines db = [l]"
    by (rule settled_run)
  have "\<forall>l \<in> set (settlement_lines db). \<exists>s \<in> set (settlements db). st_id s = sl_settlement l \<and> st_tenant s = sl_tenant l
      \<and> settleable (settlements db) s (sl_date l)"
    using settlements_consistent [OF sample_books_empty(1) run] by blast
  then have "settleable [s] s (sl_date l)" using db by simp
  then show ?thesis using run db by blast
qed

lemma finalized_settlement_immutable_witness:
  "\<exists>db db' s. settlement_step\<^sup>*\<^sup>* sample_books db \<and> settlement_step\<^sup>*\<^sup>* db db' \<and> next_id db \<noteq> next_id db'
     \<and> st_status s = SFinalized \<and> s \<in> set (settlements db')"
proof -
  obtain db s l where run: "settlement_step\<^sup>*\<^sup>* sample_books db" and s: "settlements db = [s]" "st_status s = SFinalized"
    by (rule settled_run)
  have more: "settlement_step\<^sup>*\<^sup>* db (db\<lparr>next_id := Suc (next_id db)\<rparr>)"
    by (intro r_into_rtranclp settlement_step.step_elsewhere) simp_all
  show ?thesis
    using finalized_settlement_immutable [OF sample_books_empty(1) run more, of s] run more s
    by (intro exI [of _ db] exI [of _ "db\<lparr>next_id := Suc (next_id db)\<rparr>"] exI [of _ s]) simp
qed

lemma settlement_totals_exact_witness:
  "\<exists>db s. settlement_step\<^sup>*\<^sup>* sample_books db \<and> settlements db = [s] \<and> st_gross s = 2025/4 \<and> st_net s = 2025/4"
proof -
  obtain db s l where run: "settlement_step\<^sup>*\<^sup>* sample_books db" and s: "settlements db = [s]" "st_status s = SFinalized"
    and l: "settlement_lines db = [l]" "sl_settlement l = 100" "sl_gross l = 2025/4" "st_id s = 100"
    by (rule settled_run)
  show ?thesis
    using settlement_totals_exact [OF sample_books_empty(1) run, of s] run s l
    by (intro exI [of _ db] exI [of _ s]) (simp add: line_count_def)
qed

lemma settlement_lines_traceable_witness:
  "\<exists>db l. \<exists>ev :: outbox_event. settlement_step\<^sup>*\<^sup>* sample_books db \<and> l \<in> set (settlement_lines db) \<and> sl_trace l = ev_id ev
     \<and> andthen (dec_field (ev_payload ev) ''gross_amount'') (numeric 16 2) = Inr (2025/4)"
proof -
  obtain db s l where run: "settlement_step\<^sup>*\<^sup>* sample_books db" and l: "settlement_lines db = [l]" "sl_gross l = 2025/4"
    by (rule settled_run)
  have "l \<in> set (settlement_lines db)" using l by simp
  then obtain ev :: outbox_event where "sl_trace l = ev_id ev"
      "andthen (dec_field (ev_payload ev) ''gross_amount'') (numeric 16 2) = Inr (sl_gross l)"
    using settlement_lines_traceable [OF sample_books_empty(1) run, of l] by blast
  then show ?thesis using run l by (intro exI [of _ db] exI [of _ l] exI [of _ ev]) simp
qed

text \<open>A sweep that adds one collection, and the same sweep again.\<close>

lemma sweep_evaluated:
  "case do_open 738890 sample_books of None \<Rightarrow> False | Some db \<Rightarrow>
     map st_id (settlements db) = [100]
     \<and> (case collect_period morning 100 9 db of Inl err \<Rightarrow> False | Inr (counts, db') \<Rightarrow> counts = (1, 0))"
  by code_simp

lemma collect_period_idempotent_witness:
  "\<exists>db db' :: payment_db. collect_period morning 100 9 db = Inr ((1, 0), db') \<and> collect_period (sample_env 7 0) 100 8 db' = Inr ((0, 1), db')"
proof -
  obtain db where db: "do_open 738890 sample_books = Some db"
    using sweep_evaluated by (simp split: option.splits)
  then obtain counts db' where run: "collect_period morning 100 9 db = Inr (counts, db')"
    using sweep_evaluated by (simp split: sum.splits) (metis surj_pair)
  then have ids: "map st_id (settlements db) = [100]" and run: "collect_period morning 100 9 db = Inr ((1, 0), db')"
    using sweep_evaluated by (simp_all add: db)
  have "unique_keys st_id (settlements db)" by (simp add: unique_keys_def ids)
  moreover have "current_tenant (sample_env 7 0) = current_tenant morning" by (simp add: sample_env_def)
  ultimately show ?thesis using collect_period_idempotent [OF _ run] run by fastforce
qed

section \<open>The payment run\<close>

text \<open>
  The first payment fails, the second one settles the whole amount. \<open>calm\<close> stops a script at a step
  that resumes a failed payment.
\<close>

definition calm :: "(payment_db \<Rightarrow> payment_db option) \<Rightarrow> payment_db \<Rightarrow> payment_db option" where
  "calm f db = (case f db of None \<Rightarrow> None | Some db' \<Rightarrow> if resumes db db' then None else Some db')"

definition claims :: "(payment_db \<Rightarrow> payment_db option) list" where
  "claims = settled @ [do_pay ''a'']"

definition payouts :: "(payment_db \<Rightarrow> payment_db option) list" where
  "payouts = [do_submit 106, do_execute 106, do_fail 106, do_pay ''b'', do_submit 112, do_execute 112, do_complete 112]"

lemma payouts_evaluated:
  "case script (map calm (claims @ payouts)) sample_books of None \<Rightarrow> False | Some db \<Rightarrow>
     map py_id (payments db) = [106, 112] \<and> map py_status (payments db) = [PFailed, PCompleted]
     \<and> map py_tenant (payments db) = [7, 7]
     \<and> map pl_payment (payment_lines db) = [106, 112] \<and> map pl_settlement (payment_lines db) = [100, 100]
     \<and> map pl_amount (payment_lines db) = [2025/4, 2025/4]
     \<and> map st_id (settlements db) = [100] \<and> map st_net (settlements db) = [2025/4]"
  by code_simp

lemma calm_step:
  assumes "calm f db = Some db'" and "f \<in> set (claims @ payouts)"
  shows "payment_step db db' \<and> \<not> resumes db db'"
proof -
  have f: "f db = Some db'" "\<not> resumes db db'" using assms(1) by (auto simp: calm_def split: option.splits if_splits)
  moreover have "payment_step db db'"
    using assms(2) f(1) by (auto simp: claims_def settled_def payouts_def
        dest: settlement_ops payment_ops intro: settlement_is_payment_step)
  ultimately show ?thesis by blast
qed

lemma calm_run:
  assumes "script (map calm fs) db = Some db'" and "set fs \<subseteq> set (claims @ payouts)"
  shows "(\<lambda>a b. payment_step a b \<and> \<not> resumes a b)\<^sup>*\<^sup>* db db'" "payment_step\<^sup>*\<^sup>* db db'"
proof -
  show run: "(\<lambda>a b. payment_step a b \<and> \<not> resumes a b)\<^sup>*\<^sup>* db db'"
    by (rule script_steps [OF assms(1)]) (use assms(2) calm_step in auto)
  then show "payment_step\<^sup>*\<^sup>* db db'" by (rule rtranclp_mono [THEN predicate2D, rotated]) blast
qed

text \<open>The states of the run: before and after the first payment is created, and at the end.\<close>

definition paid_books :: payment_db where
  "paid_books = the (script (map calm (claims @ payouts)) sample_books)"

lemma paid_books_facts:
  "script (map calm (claims @ payouts)) sample_books = Some paid_books"
  "map py_id (payments paid_books) = [106, 112]" "map py_status (payments paid_books) = [PFailed, PCompleted]"
  "map py_tenant (payments paid_books) = [7, 7]" "map pl_payment (payment_lines paid_books) = [106, 112]"
  "map pl_settlement (payment_lines paid_books) = [100, 100]"
  "map pl_amount (payment_lines paid_books) = [2025/4, 2025/4]"
  "map st_id (settlements paid_books) = [100]" "map st_net (settlements paid_books) = [2025/4]"
  using payouts_evaluated unfolding paid_books_def by (simp_all only: split: option.splits) simp_all

lemma paid_books_run:
  "(\<lambda>a b. payment_step a b \<and> \<not> resumes a b)\<^sup>*\<^sup>* sample_books paid_books" "payment_step\<^sup>*\<^sup>* sample_books paid_books"
  using calm_run [OF paid_books_facts(1)] by simp_all

lemma paid_books_rows:
  obtains p q s l k where "payments paid_books = [p, q]" "py_id p = 106" "py_status p = PFailed" "py_tenant p = 7"
    "py_id q = 112" "py_status q = PCompleted" "settlements paid_books = [s]" "st_id s = 100" "st_net s = 2025/4"
    "payment_lines paid_books = [l, k]" "pl_payment l = 106" "pl_settlement l = 100" "pl_amount l = 2025/4"
    "pl_payment k = 112" "pl_settlement k = 100" "pl_amount k = 2025/4"
proof -
  note f = paid_books_facts(2-)
  obtain p q s l k where db: "payments paid_books = [p, q]" "settlements paid_books = [s]" "payment_lines paid_books = [l, k]"
    using f(1,4,7) by (auto simp: map_eq_Cons_conv)
  show thesis by (rule that [OF db(1) _ _ _ _ _ db(2) _ _ db(3)]) (use f in \<open>simp_all add: db\<close>)
qed

lemma paid_books_claims:
  "claimed paid_books 100 = 2025/4"
  "(\<Sum>l \<leftarrow> filter (\<lambda>l. pl_settlement l = 100 \<and> pl_payment l = 106) (payment_lines paid_books). pl_amount l) = 2025/4"
proof -
  obtain p q s l k where db: "payments paid_books = [p, q]" "py_id p = 106" "py_status p = PFailed" "py_tenant p = 7"
    "py_id q = 112" "py_status q = PCompleted" "settlements paid_books = [s]" "st_id s = 100" "st_net s = 2025/4"
    "payment_lines paid_books = [l, k]" "pl_payment l = 106" "pl_settlement l = 100" "pl_amount l = 2025/4"
    "pl_payment k = 112" "pl_settlement k = 100" "pl_amount k = 2025/4"
    by (rule paid_books_rows)
  show "claimed paid_books 100 = 2025/4"
    by (simp add: db claimed_def claiming_def LIVE_STATUSES_def)
  show "(\<Sum>l \<leftarrow> filter (\<lambda>l. pl_settlement l = 100 \<and> pl_payment l = 106) (payment_lines paid_books). pl_amount l) = 2025/4"
    by (simp add: db)
qed

lemma payments_consistent_witness:
  "\<exists>p q. payment_step\<^sup>*\<^sup>* sample_books paid_books \<and> payments paid_books = [p, q] \<and> 0 < py_amount p \<and> 0 < py_amount q"
proof -
  obtain p q where db: "payments paid_books = [p, q]" by (rule paid_books_rows)
  have "\<forall>p \<in> set (payments paid_books). 0 < py_amount p"
    using payments_consistent [OF sample_books_empty(2) paid_books_run(2)] by blast
  then show ?thesis using paid_books_run(2) db by simp
qed

lemma no_overpayment_without_resuming_witness:
  "\<exists>s \<in> set (settlements paid_books). claimed paid_books (st_id s) = 2025/4 \<and> claimed paid_books (st_id s) \<le> max 0 (st_net s)"
proof -
  obtain s where s: "s \<in> set (settlements paid_books)" "st_id s = 100"
    using paid_books_facts(8) by (auto simp: map_eq_Cons_conv)
  show ?thesis
    using no_overpayment_without_resuming [OF sample_books_empty(2) paid_books_run(1) s(1)] paid_books_claims(1) s
    by (intro bexI [of _ s]) simp_all
qed

lemma failed_payment:
  obtains p where "p \<in> set (payments paid_books)" "py_id p = 106" "py_status p = PFailed" "current_tenant morning = Some (py_tenant p)"
proof -
  obtain p q where "payments paid_books = [p, q]" "py_id p = 106" "py_status p = PFailed" "py_tenant p = 7"
    by (rule paid_books_rows)
  then show thesis using that [of p] by (simp add: sample_env_def)
qed

lemma resumed_payment_reclaims_witness:
  "\<exists>p' db'. execute_payment morning 106 \<lparr>ep_provider = Some ''CASH'', ep_reference = None\<rparr> 9 paid_books = Inr (p', db')
     \<and> map st_net (settlements paid_books) = [2025/4] \<and> claimed db' 100 = 2025/2"
proof -
  obtain p where p: "p \<in> set (payments paid_books)" "py_id p = 106" "py_status p = PFailed"
      "current_tenant morning = Some (py_tenant p)"
    by (rule failed_payment)
  show ?thesis
    using resumed_payment_reclaims [OF sample_books_empty(2) paid_books_run(2) p(1,3,4),
        of "\<lparr>ep_provider = Some ''CASH'', ep_reference = None\<rparr>" 9] p(2) paid_books_claims paid_books_facts(9)
    by (fastforce simp: or_else_def opt_str_def)
qed

lemma completed_payment_immutable_witness:
  "\<exists>q db'. q \<in> set (payments paid_books) \<and> py_status q = PCompleted \<and> payment_step paid_books db' \<and> db' \<noteq> paid_books
     \<and> q \<in> set (payments db')"
proof -
  obtain q where q: "q \<in> set (payments paid_books)" "py_status q = PCompleted"
    using paid_books_rows by (metis list.set_intros)
  let ?db = "paid_books\<lparr>next_id := Suc (next_id paid_books)\<rparr>"
  have step: "payment_step paid_books ?db"
    by (rule pay_elsewhere) (auto intro!: settlement_step.step_elsewhere)
  then have steps: "payment_step\<^sup>*\<^sup>* paid_books ?db" by (rule r_into_rtranclp [of payment_step])
  have "?db \<noteq> paid_books" by (metis n_not_Suc_n core_db.select_convs(1) core_db.surjective core_db.update_convs(1))
  then show ?thesis
    using completed_payment_immutable [OF sample_books_empty(2) paid_books_run(2) steps q(1)] q step
    by blast
qed

lemma create_payment_idempotent_witness:
  "\<exists>db0 x db1 y. create_payment morning (sample_request ''a'') 9 db0 = Inr (x, db1) \<and> payment_step\<^sup>*\<^sup>* db1 paid_books
     \<and> create_payment morning (sample_request ''a'') 8 paid_books = Inr (y, paid_books) \<and> py_home y = py_home x"
proof -
  from paid_books_facts(1) obtain db0 db1 where parts: "script (map calm settled) sample_books = Some db0"
      "calm (do_pay ''a'') db0 = Some db1" "script (map calm payouts) db1 = Some paid_books"
    by (auto simp: claims_def script_append split: option.splits)
  then obtain x where x: "create_payment morning (sample_request ''a'') 9 db0 = Inr (x, db1)"
    by (auto simp: calm_def do_pay_def done_with_Some split: option.splits if_splits)
  have runs: "payment_step\<^sup>*\<^sup>* sample_books db0" "payment_step\<^sup>*\<^sup>* db1 paid_books"
    using calm_run(2) [OF parts(1)] calm_run(2) [OF parts(3)] by (auto simp: claims_def)
  show ?thesis
    using create_payment_idempotent [OF sample_books_empty(2) runs(1) sample_request_command x refl runs(2),
        of "sample_request ''a''" morning 8] x runs(2)
    by (simp add: sample_request_def) blast
qed

end
