(* ===== verification/Calendar.thy ===== *)
theory Calendar
  imports Platform
begin

text \<open>
  The calendar half of \<open>core/business_time.py\<close>: the UTC interval of a local day and the months of a
  business date, with the part of \<open>datetime.date\<close> they use. The years and months that the code
  computes partition the days.
\<close>

section \<open>Days and months\<close>

definition day_bounds :: "env \<Rightarrow> date \<Rightarrow> string \<Rightarrow> datetime \<times> datetime" where
  "day_bounds e day tz =
     (let midnight = (\<lambda>d. (d - epoch_ordinal) * day_us);
          utc = (\<lambda>w. w - (case wall_offset e (if tz = [] then ''UTC'' else tz) of None \<Rightarrow> 0 | Some f \<Rightarrow> f w))
      in (utc (midnight day), utc (midnight (day + 1))))"

definition range_bounds :: "env \<Rightarrow> date \<Rightarrow> date \<Rightarrow> string \<Rightarrow> datetime \<times> datetime" where
  "range_bounds e from to tz = (fst (day_bounds e from tz), snd (day_bounds e to tz))"

definition leap_year :: "int \<Rightarrow> bool" where
  "leap_year y \<longleftrightarrow> y mod 4 = 0 \<and> (y mod 100 \<noteq> 0 \<or> y mod 400 = 0)"

text \<open>Days before January 1st of year \<open>y\<close>, as \<open>datetime.py\<close> counts them.\<close>

definition days_before_year :: "int \<Rightarrow> int" where
  "days_before_year y = (y - 1) * 365 + (y - 1) div 4 - (y - 1) div 100 + (y - 1) div 400"

definition month_lengths :: "int \<Rightarrow> int list" where
  "month_lengths y = [31, if leap_year y then 29 else 28, 31, 30, 31, 30, 31, 31, 30, 31, 30, 31]"

text \<open>Which month a day of the year falls in, and which day of it, both from zero.\<close>

fun month_split :: "int list \<Rightarrow> int \<Rightarrow> nat \<times> int" where
  "month_split [] n = (0, n)"
| "month_split (l # ls) n = (if n < l then (0, n) else (let (m, k) = month_split ls (n - l) in (Suc m, k)))"

text \<open>\<open>date.replace(day=1)\<close>.\<close>

definition first_of_month :: "date \<Rightarrow> date" where
  "first_of_month d = d - snd (month_split (month_lengths (year_of d)) (d - 1 - days_before_year (year_of d)))"

definition month_bounds :: "date \<Rightarrow> date \<times> date" where
  "month_bounds day = (let first = first_of_month day in (first, first_of_month (first + 32) - 1))"

definition previous_month_bounds :: "date \<Rightarrow> date \<times> date" where
  "previous_month_bounds day = month_bounds (fst (month_bounds day) - 1)"

section \<open>Years\<close>

definition year_start :: "int \<Rightarrow> date" where
  "year_start y = days_before_year y + 1"

lemma year_length: "year_start (y + 1) - year_start y = (if leap_year y then 366 else 365)"
proof -
  have *: "y div k - (y - 1) div k = (if y mod k = 0 then 1 else 0)" if k: "0 < k" for k :: int
  proof (cases "y mod k = 0")
    case True
    then have "y - 1 = k * (y div k - 1) + (k - 1)" by (simp add: algebra_simps) (metis mult_div_mod_eq add.right_neutral mult.commute)
    then have "(y - 1) div k = y div k - 1" using k by (intro int_div_pos_eq [of _ _ _ "k - 1"]) linarith+
    then show ?thesis using True by simp
  next
    case False
    have "0 \<le> y mod k" "y mod k < k" using k by simp_all
    then have "(y - 1) div k = y div k"
      using False by (intro int_div_pos_eq [of _ _ _ "y mod k - 1"]) (simp_all add: algebra_simps)
    then show ?thesis using False by simp
  qed
  have "year_start (y + 1) - year_start y = 365 + (y div 4 - (y - 1) div 4) - (y div 100 - (y - 1) div 100) + (y div 400 - (y - 1) div 400)"
    by (simp add: year_start_def days_before_year_def algebra_simps)
  then have e: "year_start (y + 1) - year_start y
      = 365 + (if y mod 4 = 0 then 1 else 0) - (if y mod 100 = 0 then 1 else 0) + (if y mod 400 = 0 then 1 else 0)"
    unfolding * [OF zero_less_numeral] .
  have "(100 :: int) dvd 400" "(4 :: int) dvd 100" by simp_all
  then have i: "y mod 400 = 0 \<longrightarrow> y mod 100 = 0" "y mod 100 = 0 \<longrightarrow> y mod 4 = 0"
    unfolding mod_eq_0_iff_dvd by (blast intro: dvd_trans)+
  have "365 + (if A then 1 else 0) - (if B then 1 else 0) + (if C then 1 else 0)
      = (if A \<and> (\<not> B \<or> C) then 366 else (365 :: int))" if "C \<longrightarrow> B" "B \<longrightarrow> A" for A B C
    using that by (cases A; cases B; cases C) simp_all
  from this [OF i] show ?thesis unfolding e leap_year_def .
qed

text \<open>The digits of an ordinal in cycles of 400, 100, 4 and single years.\<close>

lemma ordinal_digits:
  fixes d :: int
  obtains a b c q r where "d = 146097 * a + 36524 * b + 1461 * c + 365 * q + r + 1"
    "0 \<le> b" "0 \<le> c" "0 \<le> q" "0 \<le> r" "b \<le> 4" "c \<le> 24" "q \<le> 4" "r < 365"
    "b = 4 \<longrightarrow> c = 0 \<and> q = 0 \<and> r = 0" "q = 4 \<longrightarrow> r = 0 \<and> c < 24"
    "year_of d = 400 * a + 100 * b + 4 * c + q + (if q = 4 \<or> b = 4 then 0 else 1)"
proof -
  define a m where "a = (d - 1) div 146097" and "m = (d - 1) mod 146097"
  define b m1 where "b = m div 36524" and "m1 = m mod 36524"
  define c m2 where "c = m1 div 1461" and "m2 = m1 mod 1461"
  define q r where "q = m2 div 365" and "r = m2 mod 365"
  note defs = a_def m_def b_def m1_def c_def m2_def q_def r_def
  have e: "d - 1 = 146097 * a + m" "m = 36524 * b + m1" "m1 = 1461 * c + m2" "m2 = 365 * q + r"
    by (simp_all add: defs)
  have u: "m < 146097" "m1 < 36524" "m2 < 1461" "r < 365" "0 \<le> m" "0 \<le> m1" "0 \<le> m2" "0 \<le> r"
    by (simp_all add: defs)
  have l: "0 \<le> b" "0 \<le> c" "0 \<le> q" using u unfolding b_def c_def q_def by (simp_all add: pos_imp_zdiv_nonneg_iff)
  have h: "b \<le> 4" "c \<le> 24" "q \<le> 4" using e u by linarith+
  have "year_of d = 400 * a + 100 * b + 4 * c + q + (if q = 4 \<or> b = 4 then 0 else 1)"
    by (simp add: year_of_def Let_def defs)
  moreover have "d = 146097 * a + 36524 * b + 1461 * c + 365 * q + r + 1" using e by linarith
  moreover have "b = 4 \<longrightarrow> c = 0 \<and> q = 0 \<and> r = 0" "q = 4 \<longrightarrow> r = 0 \<and> c < 24"
    using e u l by (auto intro: antisym)
  ultimately show thesis using that l h u by blast
qed

lemma year_start_digits:
  assumes "0 \<le> b" "b \<le> 3" "0 \<le> c" "c \<le> 24" "0 \<le> q" "q \<le> 3"
  shows "year_start (400 * a + 100 * b + 4 * c + q + 1) = 146097 * a + 36524 * b + 1461 * c + 365 * q + 1"
proof -
  let ?n = "400 * a + 100 * b + 4 * c + q"
  have "?n div 4 = 100 * a + 25 * b + c" using assms by (intro int_div_pos_eq [of _ _ _ q]) (simp_all add: algebra_simps)
  moreover have "?n div 100 = 4 * a + b" using assms by (intro int_div_pos_eq [of _ _ _ "4 * c + q"]) (simp_all add: algebra_simps)
  moreover have "?n div 400 = a" using assms by (intro int_div_pos_eq [of _ _ _ "100 * b + 4 * c + q"]) (simp_all add: algebra_simps)
  ultimately show ?thesis by (simp add: year_start_def days_before_year_def)
qed

lemma year_of_bounds: "year_start (year_of d) \<le> d \<and> d < year_start (year_of d + 1)"
proof -
  obtain a b c q r where d: "d = 146097 * a + 36524 * b + 1461 * c + 365 * q + r + 1"
    and l: "0 \<le> b" "0 \<le> c" "0 \<le> q" "0 \<le> r" "b \<le> 4" "c \<le> 24" "q \<le> 4" "r < 365"
    and last: "b = 4 \<longrightarrow> c = 0 \<and> q = 0 \<and> r = 0" "q = 4 \<longrightarrow> r = 0 \<and> c < 24"
    and y: "year_of d = 400 * a + 100 * b + 4 * c + q + (if q = 4 \<or> b = 4 then 0 else 1)"
    by (rule ordinal_digits)
  consider "b = 4" | "b \<le> 3" "q = 4" | "b \<le> 3" "q \<le> 3" using l by linarith
  then show ?thesis
  proof cases
    case 1
    then have "year_of d = 400 * a + 100 * 3 + 4 * 24 + 3 + 1" "d = 146097 * a + 146096 + 1" using y d last by auto
    moreover have "leap_year (400 * a + 400)" by (simp add: leap_year_def)
    ultimately show ?thesis
      using year_start_digits [of 3 24 3 a] year_length [of "year_of d"] by (simp add: add.commute)
  next
    case 2
    then have e: "year_of d = 400 * a + 100 * b + 4 * c + 3 + 1" "d = 146097 * a + 36524 * b + 1461 * c + 1460 + 1"
      using y d last by auto
    let ?y = "400 * a + 100 * b + 4 * c + 4"
    have "?y = 4 * (100 * a + 25 * b + c + 1)" "?y = (4 * c + 4) + 100 * (4 * a + b)" by simp_all
    then have "?y mod 4 = 0" "?y mod 100 = (4 * c + 4) mod 100" by (metis mod_mult_self1_is_0, metis mod_mult_self2)
    moreover have "(4 * c + 4) mod 100 = 4 * c + 4" using last 2 l by (intro mod_pos_pos_trivial) linarith+
    ultimately have "leap_year ?y" using l by (simp add: leap_year_def)
    then have "year_start (year_of d + 1) = year_start (year_of d) + 366"
      using year_length [of "year_of d"] e(1) by (simp add: add.assoc)
    then show ?thesis
      using e year_start_digits [of b c 3 a] 2 l by simp
  next
    case 3
    then have "year_of d = 400 * a + 100 * b + 4 * c + q + 1" using y by simp
    then show ?thesis
      using d year_start_digits [of b c q a] year_length [of "year_of d"] 3 l by (auto split: if_splits)
  qed
qed

lemma year_start_mono: "x < y \<Longrightarrow> year_start x < year_start y"
proof (induction "nat (y - x)" arbitrary: y)
  case (Suc n)
  have *: "year_start (y - 1) < year_start y" using year_length [of "y - 1"] by (auto split: if_splits)
  show ?case
  proof (cases "x = y - 1")
    case False
    then have "x < y - 1" "n = nat (y - 1 - x)" using Suc.hyps(2) Suc.prems by linarith+
    then show ?thesis using Suc.hyps(1) [of "y - 1"] * by linarith
  qed (use * in simp)
qed simp

lemma year_of_eqI:
  assumes "year_start y \<le> d" and "d < year_start (y + 1)"
  shows "year_of d = y"
proof (rule linorder_cases [of "year_of d" y])
  assume "year_of d < y"
  then have "year_start (year_of d + 1) \<le> year_start y" using year_start_mono [of "year_of d + 1" y] by (cases "year_of d + 1 = y") auto
  then show ?thesis using year_of_bounds [of d] assms by linarith
next
  assume "y < year_of d"
  then have "year_start (y + 1) \<le> year_start (year_of d)" using year_start_mono [of "y + 1" "year_of d"] by (cases "y + 1 = year_of d") auto
  then show ?thesis using year_of_bounds [of d] assms by linarith
qed

section \<open>Months\<close>

lemma month_lengths_bounds: "l \<in> set (month_lengths y) \<Longrightarrow> 28 \<le> l \<and> l \<le> 31"
  by (auto simp: month_lengths_def split: if_splits)

lemma length_month_lengths: "length (month_lengths y) = 12"
  by (simp add: month_lengths_def)

lemma month_lengths_sum: "sum_list (month_lengths y) = year_start (y + 1) - year_start y"
  by (simp add: month_lengths_def year_length)

text \<open>The split finds the month the day is in; the days of one month split alike.\<close>

lemma month_split_block:
  assumes "i < length ls" and "0 \<le> k" and "k < ls ! i" and "\<And>l. l \<in> set ls \<Longrightarrow> 0 < l"
  shows "month_split ls (sum_list (take i ls) + k) = (i, k)"
  using assms
proof (induction ls arbitrary: i)
  case (Cons l ls)
  show ?case
  proof (cases i)
    case (Suc j)
    have "0 \<le> x" if "x \<in> set (take j ls)" for x
      using Cons.prems(4) [of x] in_set_takeD [OF that] by simp
    then have "0 \<le> sum_list (take j ls)" by (rule sum_list_nonneg)
    then show ?thesis using Cons.IH [of j] Cons.prems Suc by simp
  qed (use Cons.prems in simp)
qed simp

lemma month_split_exists:
  fixes n :: int
  assumes "0 \<le> n" and "n < sum_list ls"
  shows "\<exists>i k. i < length ls \<and> 0 \<le> k \<and> k < ls ! i \<and> n = sum_list (take i ls) + k"
  using assms
proof (induction ls arbitrary: n)
  case (Cons l ls)
  show ?case
  proof (cases "n < l")
    case True
    then show ?thesis using Cons.prems by (intro exI [of _ 0] exI [of _ n]) simp
  next
    case False
    then obtain i k where "i < length ls" "0 \<le> k" "k < ls ! i" "n - l = sum_list (take i ls) + k"
      using Cons.IH [of "n - l"] Cons.prems by auto
    then show ?thesis by (intro exI [of _ "Suc i"] exI [of _ k]) simp
  qed
qed simp

text \<open>The first day of the \<open>i\<close>-th month of a year.\<close>

definition month_start :: "int \<Rightarrow> nat \<Rightarrow> date" where
  "month_start y i = year_start y + sum_list (take i (month_lengths y))"

lemma first_of_month_eq:
  assumes "i < 12" and "month_start y i \<le> d" and "d < month_start y (Suc i)"
  shows "first_of_month d = month_start y i"
proof -
  let ?ls = "month_lengths y"
  have i: "i < length ?ls" using assms(1) by (simp add: length_month_lengths)
  have pos: "0 < l" if "l \<in> set ?ls" for l using month_lengths_bounds [OF that] by simp
  have "0 \<le> l" if l: "l \<in> set (take i ?ls) \<union> set (drop (Suc i) ?ls)" for l
  proof -
    have "l \<in> set ?ls" using l set_take_subset [of i ?ls] set_drop_subset [of "Suc i" ?ls] by blast
    then show ?thesis using pos [of l] by linarith
  qed
  then have nn: "0 \<le> sum_list (take i ?ls)" "0 \<le> sum_list (drop (Suc i) ?ls)"
    by (auto intro: sum_list_nonneg)
  define k where "k = d - month_start y i"
  have k: "0 \<le> k" "k < ?ls ! i" using assms(2,3) i by (simp_all add: k_def month_start_def take_Suc_conv_app_nth)
  have "sum_list ?ls = sum_list (take i ?ls) + ?ls ! i + sum_list (drop (Suc i) ?ls)"
    by (subst id_take_nth_drop [OF i]) simp
  then have "year_start (y + 1) = month_start y i + ?ls ! i + sum_list (drop (Suc i) ?ls)"
    using month_lengths_sum [of y] by (simp add: month_start_def)
  then have "year_of d = y"
    using assms(2) k nn by (intro year_of_eqI) (simp_all add: month_start_def k_def)
  moreover have "d - 1 - days_before_year y = sum_list (take i ?ls) + k"
    by (simp add: k_def month_start_def year_start_def)
  ultimately have "first_of_month d = d - k"
    using month_split_block [OF i k pos] unfolding first_of_month_def by simp
  then show ?thesis by (simp add: k_def)
qed

lemma in_some_month:
  obtains y i where "i < 12" "month_start y i \<le> d" "d < month_start y (Suc i)"
proof -
  let ?y = "year_of d"
  have "0 \<le> d - year_start ?y" "d - year_start ?y < sum_list (month_lengths ?y)"
    using year_of_bounds [of d] by (simp_all add: month_lengths_sum)
  then obtain i k where "i < length (month_lengths ?y)" "0 \<le> k" "k < month_lengths ?y ! i"
      "d - year_start ?y = sum_list (take i (month_lengths ?y)) + k"
    using month_split_exists by blast
  then show thesis
    using that [of i ?y] by (simp add: month_start_def take_Suc_conv_app_nth length_month_lengths)
qed

lemma month_start_step:
  assumes "i < 12"
  shows "28 \<le> month_start y (Suc i) - month_start y i" "month_start y (Suc i) - month_start y i \<le> 31"
proof -
  have "month_start y (Suc i) - month_start y i = month_lengths y ! i"
    using assms by (simp add: month_start_def take_Suc_conv_app_nth length_month_lengths)
  moreover have "month_lengths y ! i \<in> set (month_lengths y)" using assms by (simp add: length_month_lengths)
  ultimately show "28 \<le> month_start y (Suc i) - month_start y i" "month_start y (Suc i) - month_start y i \<le> 31"
    using month_lengths_bounds by metis+
qed

lemma month_start_year: "month_start y 12 = month_start (y + 1) 0"
  using month_lengths_sum [of y] by (simp add: month_start_def length_month_lengths)

text \<open>Where a month ends the next one begins, in the same year or in the next.\<close>

lemma next_month_starts:
  assumes "i < 12"
  obtains z j where "j < 12" "month_start z j = month_start y (Suc i)"
proof (cases "Suc i < 12")
  case True
  then show thesis using that by blast
next
  case False
  then show thesis using that [of 0 "y + 1"] assms month_start_year [of y] by (metis less_antisym not_less_iff_gr_or_eq numeral_nat(7) zero_less_numeral)
qed

lemma month_bounds_eq:
  assumes i: "i < 12" and d: "month_start y i \<le> d" "d < month_start y (Suc i)"
  shows "month_bounds d = (month_start y i, month_start y (Suc i) - 1)"
proof -
  obtain z j where j: "j < 12" "month_start z j = month_start y (Suc i)" using next_month_starts [OF i] .
  have "first_of_month (month_start y i + 32) = month_start z j"
    using month_start_step [OF i, of y] month_start_step [OF j(1), of z] j
    by (intro first_of_month_eq) linarith+
  then show ?thesis
    using first_of_month_eq [OF i d] j(2) by (simp add: month_bounds_def Let_def)
qed

text \<open>
  The months of \<open>month_bounds\<close> partition the calendar. The month of a day contains the day and has
  28 to 31 days, every day in it gives the same month, and the previous month ends the day before it
  begins. So bills for consecutive months, as the month-end run drafts them, neither skip a day nor
  bill one twice.
\<close>

theorem month_bounds_partition:
  "case (month_bounds day, previous_month_bounds day) of ((a, b), (a', b')) \<Rightarrow>
     a \<le> day \<and> day \<le> b \<and> 28 \<le> b - a + 1 \<and> b - a + 1 \<le> 31 \<and> b' + 1 = a \<and> a' \<le> b'
     \<and> (month_bounds x = (a, b)) = (a \<le> x \<and> x \<le> b)"
proof -
  obtain y i where m: "i < 12" "month_start y i \<le> day" "day < month_start y (Suc i)" by (rule in_some_month)
  obtain z j where p: "j < 12" "month_start z j \<le> month_start y i - 1" "month_start y i - 1 < month_start z (Suc j)"
    by (rule in_some_month)
  obtain w k where n: "k < 12" "month_start w k \<le> x" "x < month_start w (Suc k)" by (rule in_some_month)
  obtain v l where q: "l < 12" "month_start v l = month_start z (Suc j)" using next_month_starts [OF p(1)] .
  have "month_start z (Suc j) = month_start y i"
  proof (rule ccontr)
    assume "month_start z (Suc j) \<noteq> month_start y i"
    then have "first_of_month (month_start y i) = month_start z j" using p by (intro first_of_month_eq) linarith+
    moreover have "first_of_month (month_start y i) = month_start y i"
      using month_start_step(1) [OF m(1), of y] by (intro first_of_month_eq [OF m(1)]) linarith+
    ultimately show False using p(2) by linarith
  qed
  then have prev: "previous_month_bounds day = (month_start z j, month_start y i - 1)"
    using month_bounds_eq [OF p] by (simp add: previous_month_bounds_def month_bounds_eq [OF m])
  have "month_bounds x = (month_start y i, month_start y (Suc i) - 1)
      \<longleftrightarrow> month_start y i \<le> x \<and> x \<le> month_start y (Suc i) - 1"
    using month_bounds_eq [OF n] month_bounds_eq [OF m(1), of y x] n by (auto simp: le_diff_eq)
  then show ?thesis
    using m month_start_step [OF m(1), of y] p prev by (simp add: month_bounds_eq [OF m])
qed

end
