(* ===== verification/Schedule.thy ===== *)
theory Schedule
  imports Strings Floats
begin

text \<open>
  When a standing order is due (\<open>modules/customer/schedule.py\<close>): weekday masks, date windows, pauses,
  the quantity of a day, and the bounded search for the next delivery with its exact meaning.
\<close>

section \<open>The rules\<close>

definition WEEK :: nat where
  "WEEK = 7"

definition EVERY_DAY :: string where
  "EVERY_DAY = ''1111111''"

definition WEEKDAYS_ONLY :: string where
  "WEEKDAYS_ONLY = ''1111100''"

definition MONDAY_TO_SATURDAY :: string where
  "MONDAY_TO_SATURDAY = ''1111110''"

definition normalise_weekdays :: "string option \<Rightarrow> string result" where
  "normalise_weekdays given =
     (let t = str_strip (case given of None \<Rightarrow> EVERY_DAY | Some m \<Rightarrow> m) in
      if length t \<noteq> WEEK \<or> list_ex (\<lambda>c. c \<noteq> CHR ''0'' \<and> c \<noteq> CHR ''1'') t
        then Inl (ValueError ''weekdays must be 7 characters of 0 or 1'')
      else if CHR ''1'' \<notin> set t
        then Inl (ValueError ''a plan that delivers on no day of the week would never deliver'')
      else Inr t)"

text \<open>\<open>date.weekday()\<close>, Monday is 0: ordinal 1 was a Monday.\<close>

definition weekday :: "date \<Rightarrow> nat" where
  "weekday d = nat ((d + 6) mod 7)"

text \<open>Every stored mask has seven characters (\<open>normalise_weekdays\<close>), so the index is in range.\<close>

definition delivers_on_weekday :: "string \<Rightarrow> date \<Rightarrow> bool" where
  "delivers_on_weekday weekdays day \<longleftrightarrow> weekdays ! weekday day = CHR ''1''"

definition within_dates :: "date \<Rightarrow> date \<Rightarrow> date option \<Rightarrow> bool" where
  "within_dates day from until =
     (if day < from then False else case until of None \<Rightarrow> True | Some u \<Rightarrow> day \<le> u)"

definition is_paused :: "date \<Rightarrow> date option \<Rightarrow> date option \<Rightarrow> bool" where
  "is_paused day paused_from paused_to =
     (case paused_from of
        None \<Rightarrow> False
      | Some f \<Rightarrow> if day < f then False else case paused_to of None \<Rightarrow> True | Some t \<Rightarrow> day \<le> t)"

text \<open>
  \<open>Decimal(str(raw))\<close> of a stored value: a number reads back as itself, anything else raises.
\<close>

fun decimal_of_json :: "json \<Rightarrow> decimal option" where
  "decimal_of_json (JDec d) = Some d"
| "decimal_of_json (JInt k) = Some (of_int k)"
| "decimal_of_json (JFloat x) = Some (repr_dec x)"
| "decimal_of_json _ = None"

definition quantity_for :: "date \<Rightarrow> decimal \<Rightarrow> payload \<Rightarrow> decimal" where
  "quantity_for day base overrides =
     (case map_of overrides (show_nat (weekday day)) of
        None \<Rightarrow> base
      | Some raw \<Rightarrow>
          (case decimal_of_json raw of
             None \<Rightarrow> base
           | Some v \<Rightarrow> if 0 \<le> v then v else base))"

definition due_on ::
  "date \<Rightarrow> string \<Rightarrow> date \<Rightarrow> date option \<Rightarrow> date option \<Rightarrow> date option \<Rightarrow> bool" where
  "due_on day weekdays from until paused_from paused_to \<longleftrightarrow>
     within_dates day from until \<and> delivers_on_weekday weekdays day \<and> \<not> is_paused day paused_from paused_to"

text \<open>The loop of \<open>next_due\<close>: at most \<open>n\<close> days from \<open>day\<close> on.\<close>

fun search_due ::
  "nat \<Rightarrow> date \<Rightarrow> string \<Rightarrow> date \<Rightarrow> date option \<Rightarrow> date option \<Rightarrow> date option \<Rightarrow> date option" where
  "search_due 0 day weekdays from until pf pt = None"
| "search_due (Suc n) day weekdays from until pf pt =
     (if (case until of None \<Rightarrow> False | Some u \<Rightarrow> u < day) then None
      else if due_on day weekdays from until pf pt then Some day
      else search_due n (day + 1) weekdays from until pf pt)"

definition next_due ::
  "date \<Rightarrow> string \<Rightarrow> date \<Rightarrow> date option \<Rightarrow> date option \<Rightarrow> date option \<Rightarrow> nat \<Rightarrow> date option" where
  "next_due after weekdays from until pf pt horizon =
     search_due horizon (max after from) weekdays from until pf pt"

definition describe :: "string \<Rightarrow> string" where
  "describe weekdays =
     (if weekdays = EVERY_DAY then ''schedule.daily''
      else if weekdays = WEEKDAYS_ONLY then ''schedule.weekdays''
      else if weekdays = MONDAY_TO_SATURDAY then ''schedule.mon_sat''
      else ''schedule.custom'')"

section \<open>Masks\<close>

definition good_mask :: "string \<Rightarrow> bool" where
  "good_mask w \<longleftrightarrow> length w = 7 \<and> set w \<subseteq> {CHR ''0'', CHR ''1''} \<and> CHR ''1'' \<in> set w"

lemma normalise_weekdays_good: "normalise_weekdays m = Inr w \<Longrightarrow> good_mask w"
  by (auto simp: normalise_weekdays_def good_mask_def Let_def WEEK_def list_ex_iff split: if_splits)

lemma weekday_less: "weekday d < 7"
proof -
  have "(d + 6) mod 7 < 7" "0 \<le> (d + 6) mod 7" by simp_all
  then show ?thesis unfolding weekday_def by linarith
qed

text \<open>Within any seven days every weekday comes up.\<close>

lemma weekday_within_week:
  assumes "i < 7"
  obtains d where "day \<le> d" "d < day + 7" "weekday d = i"
proof -
  define k where "k = (int i - (day + 6)) mod 7"
  have k: "0 \<le> k" "k < 7" by (simp_all add: k_def)
  have "(day + k + 6) mod 7 = (day + 6 + k) mod 7" by (simp add: ac_simps)
  also have "\<dots> = int i" using assms by (simp add: k_def mod_add_right_eq)
  finally have "(day + k + 6) mod 7 = int i" .
  then show thesis using that [of "day + k"] k by (simp add: weekday_def)
qed

lemma good_mask_due_soon:
  assumes "good_mask w"
  obtains d where "day \<le> d" "d < day + 7" "delivers_on_weekday w d"
proof -
  obtain i where "i < 7" "w ! i = CHR ''1''"
    using assms by (auto simp: good_mask_def in_set_conv_nth)
  then show thesis using weekday_within_week [of i day] that by (metis delivers_on_weekday_def)
qed

section \<open>The search\<close>

lemma search_due_Some:
  "search_due n day w f u pf pt = Some d \<Longrightarrow>
     due_on d w f u pf pt \<and> day \<le> d \<and> d < day + int n
     \<and> (\<forall>x. day \<le> x \<longrightarrow> x < d \<longrightarrow> \<not> due_on x w f u pf pt)"
proof (induction n arbitrary: day)
  case (Suc n)
  show ?case
  proof (cases "due_on day w f u pf pt")
    case True
    then show ?thesis using Suc.prems by (auto split: if_splits)
  next
    case False
    then have d: "search_due n (day + 1) w f u pf pt = Some d" using Suc.prems by (auto split: if_splits)
    have "x = day \<or> day + 1 \<le> x" if "day \<le> x" for x using that by linarith
    then show ?thesis using Suc.IH [OF d] False by (auto simp: algebra_simps)
  qed
qed simp

lemma not_due_after: "u = Some v \<Longrightarrow> v < x \<Longrightarrow> \<not> due_on x w f u pf pt"
  by (auto simp: due_on_def within_dates_def split: if_splits)

lemma search_due_None:
  "search_due n day w f u pf pt = None \<Longrightarrow> day \<le> x \<Longrightarrow> x < day + int n \<Longrightarrow> \<not> due_on x w f u pf pt"
proof (induction n arbitrary: day)
  case (Suc n)
  show ?case
  proof (cases "case u of None \<Rightarrow> False | Some v \<Rightarrow> v < day")
    case True
    then obtain v where v: "u = Some v" "v < day" by (auto split: option.splits)
    then have "v < x" using Suc.prems(2) by linarith
    then show ?thesis by (rule not_due_after [OF v(1)])
  next
    case False
    then have n: "search_due n (day + 1) w f u pf pt = None" "\<not> due_on day w f u pf pt"
      using Suc.prems(1) by (auto split: if_splits)
    show ?thesis
    proof (cases "x = day")
      case True
      then show ?thesis using n(2) by simp
    next
      case False
      then have "day + 1 \<le> x" "x < day + 1 + int n" using Suc.prems by simp_all
      then show ?thesis by (rule Suc.IH [OF n(1)])
    qed
  qed
qed simp

lemma not_due_before: "x < f \<Longrightarrow> \<not> due_on x w f u pf pt"
  by (simp add: due_on_def within_dates_def)

text \<open>
  C33: The next delivery is found exactly. \<open>next_due\<close> answers with the first day from \<open>after\<close> on that is
  due, provided one lies within the horizon counted from the later of \<open>after\<close> and the plan's start; it
  answers with nothing exactly when no day in that window is due.
\<close>

theorem next_due_exact:
  "case next_due after w f u pf pt horizon of
     Some d \<Rightarrow> due_on d w f u pf pt \<and> after \<le> d \<and> d < max after f + int horizon
       \<and> (\<nexists>x. after \<le> x \<and> x < d \<and> due_on x w f u pf pt)
   | None \<Rightarrow> (\<nexists>x. after \<le> x \<and> x < max after f + int horizon \<and> due_on x w f u pf pt)"
proof (cases "next_due after w f u pf pt horizon")
  case None
  then have "search_due horizon (max after f) w f u pf pt = None" by (simp add: next_due_def)
  then have "\<not> due_on x w f u pf pt" if "x < max after f + int horizon" "after \<le> x" for x
    using search_due_None [of horizon "max after f" w f u pf pt x] not_due_before [of x f] that
    by (cases "x < f") auto
  then show ?thesis using None by auto
next
  case (Some d)
  then have "search_due horizon (max after f) w f u pf pt = Some d" by (simp add: next_due_def)
  note s = search_due_Some [OF this]
  have "\<not> due_on x w f u pf pt" if "x < d" "after \<le> x" for x
    using s not_due_before [of x f] that by (cases "x < f") auto
  then show ?thesis using Some s by auto
qed

text \<open>
  C34: A running standing order is never silent. If a plan with a valid weekday mask has no end date and
  is not paused from \<open>after\<close> on, its next delivery is found, and it lies within seven days of the later of
  \<open>after\<close> and its start. So the one-year horizon of the search never hides a plan that delivers.
\<close>

theorem running_plan_due_within_week:
  assumes "normalise_weekdays m = Inr w" and "7 \<le> horizon"
    and "\<And>x. after \<le> x \<Longrightarrow> \<not> is_paused x pf pt"
  shows "\<exists>d. next_due after w f None pf pt horizon = Some d \<and> after \<le> d \<and> f \<le> d \<and> d < max after f + 7"
proof -
  obtain x where x: "max after f \<le> x" "x < max after f + 7" "delivers_on_weekday w x"
    using good_mask_due_soon [OF normalise_weekdays_good [OF assms(1)]] .
  then have due: "due_on x w f None pf pt" using assms(3) [of x] by (simp add: due_on_def within_dates_def)
  show ?thesis
  proof (cases "next_due after w f None pf pt horizon")
    case None
    then show ?thesis
      using search_due_None [of horizon "max after f" w f None pf pt x] due x assms(2) by (simp add: next_due_def)
  next
    case (Some d)
    then have s: "search_due horizon (max after f) w f None pf pt = Some d" by (simp add: next_due_def)
    have "\<not> x < d" using search_due_Some [OF s] due x(1) by blast
    then show ?thesis using search_due_Some [OF s] Some x by auto
  qed
qed

lemma running_plan_due_within_week_witness:
  "\<exists>d. next_due 738000 ''0000010'' 737000 None (Some 737500) (Some 737600) 366 = Some d
     \<and> 738000 \<le> d \<and> 737000 \<le> d \<and> d < max 738000 737000 + 7"
  by (rule running_plan_due_within_week [of "Some '' 0000010 ''"])
    (code_simp, simp, simp add: is_paused_def)

end
