(* ===== verification/SalesTables.thy ===== *)
theory SalesTables
  imports Platform Calendar Schedule Numbering
begin

text \<open>
  The tables of the selling side (\<open>models.py\<close> of \<open>modules/catalog\<close>, \<open>customer\<close>, \<open>delivery\<close>,
  \<open>sale_item\<close> and \<open>billing\<close>), the statuses of their rows, and the scope of a customer's login.
\<close>

section \<open>Statuses\<close>

datatype delivery_status = DScheduled | DDelivered | DSkipped | DReturned | DCancelled

definition DELIVERY_STATUSES :: "(string \<times> delivery_status) list" where
  "DELIVERY_STATUSES =
     [(''scheduled'', DScheduled), (''delivered'', DDelivered), (''skipped'', DSkipped),
      (''returned'', DReturned), (''cancelled'', DCancelled)]"

fun delivery_status_name :: "delivery_status \<Rightarrow> string" where
  "delivery_status_name DScheduled = ''scheduled''"
| "delivery_status_name DDelivered = ''delivered''"
| "delivery_status_name DSkipped = ''skipped''"
| "delivery_status_name DReturned = ''returned''"
| "delivery_status_name DCancelled = ''cancelled''"

definition DELIVERY_SLOTS :: "string list" where
  "DELIVERY_SLOTS = [''morning'', ''evening'']"

definition BILLABLE_STATUSES :: "delivery_status list" where
  "BILLABLE_STATUSES = [DDelivered]"

definition PENDING_STATUSES :: "delivery_status list" where
  "PENDING_STATUSES = [DScheduled]"

datatype item_status = IRecorded | ICancelled

definition BILLABLE_ITEM_STATUSES :: "item_status list" where
  "BILLABLE_ITEM_STATUSES = [IRecorded]"

datatype invoice_status = VDraft | VIssued | VPaid | VCancelled

definition PAYABLE_INVOICE_STATUSES :: "invoice_status list" where
  "PAYABLE_INVOICE_STATUSES = [VIssued, VPaid]"

datatype price_source = FromPlan | Override

fun price_source_name :: "price_source \<Rightarrow> string" where
  "price_source_name FromPlan = ''plan''"
| "price_source_name Override = ''override''"

section \<open>Rows\<close>

record product =
  pd_id :: uuid
  pd_tenant :: uuid
  pd_code :: string
  pd_name :: string
  pd_unit :: string
  pd_price :: "decimal option"
  pd_currency :: string
  pd_active :: bool
  pd_order :: int

record customer =
  cu_id :: uuid
  cu_tenant :: uuid
  cu_code :: string
  cu_name :: string
  cu_type :: string
  cu_phone :: string
  cu_alternate :: string
  cu_address :: string
  cu_notes :: string
  cu_status :: string
  cu_mode :: string
  cu_billing_day :: int
  cu_currency :: string

record delivery_plan =
  dp_id :: uuid
  dp_tenant :: uuid
  dp_customer :: uuid
  dp_product :: string
  dp_quantity :: decimal
  dp_unit :: string
  dp_price :: decimal
  dp_currency :: string
  dp_from :: date
  dp_to :: "date option"
  dp_weekdays :: string
  dp_paused_from :: "date option"
  dp_paused_to :: "date option"
  dp_overrides :: payload
  dp_center :: "uuid option"
  dp_slot :: string
  dp_active :: bool
  dp_created_by :: "uuid option"

record milk_delivery =
  dl_id :: uuid
  dl_tenant :: uuid
  dl_customer :: uuid
  dl_date :: date
  dl_slot :: string
  dl_product :: string
  dl_quantity :: decimal
  dl_unit :: string
  dl_price :: decimal
  dl_currency :: string
  dl_amount :: decimal
  dl_status :: delivery_status
  dl_notes :: string
  dl_plan :: "uuid option"
  dl_source :: price_source
  dl_priced_by :: "uuid option"
  dl_reason :: "string option"
  dl_invoice :: "uuid option"
  dl_recorded_by :: "uuid option"

record sale_item =
  si_id :: uuid
  si_tenant :: uuid
  si_customer :: uuid
  si_date :: date
  si_product :: string
  si_quantity :: decimal
  si_unit :: string
  si_price :: decimal
  si_amount :: decimal
  si_currency :: string
  si_status :: item_status
  si_notes :: string
  si_recorded_by :: "uuid option"
  si_via :: string
  si_key :: "string option"
  si_invoice :: "uuid option"
  si_cancelled_at :: "datetime option"
  si_reason :: string
  si_created_at :: datetime

record invoice =
  iv_id :: uuid
  iv_tenant :: uuid
  iv_customer :: uuid
  iv_number :: string
  iv_from :: date
  iv_to :: date
  iv_currency :: string
  iv_subtotal :: decimal
  iv_adjustments :: decimal
  iv_total :: decimal
  iv_previous :: decimal
  iv_due :: decimal
  iv_status :: invoice_status
  iv_lines :: nat
  iv_issued_at :: "datetime option"
  iv_cancelled_at :: "datetime option"

text \<open>What a line is a line of: the kind and the one of the two source columns that is set.\<close>

datatype line_source = FromDelivery uuid | FromItem uuid

record invoice_line =
  il_id :: uuid
  il_tenant :: uuid
  il_invoice :: uuid
  il_source :: line_source
  il_date :: date
  il_slot :: string
  il_product :: string
  il_quantity :: decimal
  il_unit :: string
  il_price :: decimal
  il_amount :: decimal
  il_price_source :: price_source

datatype receipt_status = CRecorded | CCancelled

record customer_payment =
  cm_id :: uuid
  cm_tenant :: uuid
  cm_customer :: uuid
  cm_number :: string
  cm_amount :: decimal
  cm_currency :: string
  cm_method :: string
  cm_reference :: string
  cm_status :: receipt_status
  cm_notes :: string
  cm_received_at :: datetime
  cm_recorded_by :: "uuid option"

record payment_allocation =
  ap_id :: uuid
  ap_tenant :: uuid
  ap_payment :: uuid
  ap_invoice :: uuid
  ap_number :: string
  ap_amount :: decimal

record customer_receipt =
  cv_id :: uuid
  cv_tenant :: uuid
  cv_number :: string
  cv_payment :: uuid
  cv_payment_number :: string
  cv_customer :: uuid
  cv_name :: string
  cv_code :: string
  cv_amount :: decimal
  cv_currency :: string
  cv_method :: string
  cv_reference :: string
  cv_applied_to :: string
  cv_event :: "uuid option"
  cv_generated_at :: datetime

record sales_db = core_db +
  products :: "product list"
  customers :: "customer list"
  plans :: "delivery_plan list"
  deliveries :: "milk_delivery list"
  sale_items :: "sale_item list"
  invoices :: "invoice list"
  invoice_lines :: "invoice_line list"
  customer_payments :: "customer_payment list"
  allocations :: "payment_allocation list"
  customer_receipts :: "customer_receipt list"

section \<open>Scope and money\<close>

definition enforce_customer_scope :: "env \<Rightarrow> uuid option \<Rightarrow> uuid option result" where
  "enforce_customer_scope e requested =
     (case customer_scope e of
        None \<Rightarrow> Inr requested
      | Some scope \<Rightarrow>
          if requested \<noteq> None \<and> requested \<noteq> Some scope then Inl (NotFoundError ''customer not found'')
          else Inr (Some scope))"

section \<open>Facts\<close>

lemma enforce_customer_scope_Inr:
  "enforce_customer_scope e (Some c) = Inr r \<Longrightarrow> r = Some c \<and> (customer_scope e = None \<or> customer_scope e = Some c)"
  by (auto simp: enforce_customer_scope_def split: option.splits if_splits)

lemma publish_sales [simp]:
  "products (publish e n d a t i db) = products db" "customers (publish e n d a t i db) = customers db"
  "plans (publish e n d a t i db) = plans db" "deliveries (publish e n d a t i db) = deliveries db"
  "sale_items (publish e n d a t i db) = sale_items db" "invoices (publish e n d a t i db) = invoices db"
  "invoice_lines (publish e n d a t i db) = invoice_lines db"
  "customer_payments (publish e n d a t i db) = customer_payments db"
  "allocations (publish e n d a t i db) = allocations db"
  "customer_receipts (publish e n d a t i db) = customer_receipts db"
  "sequences (publish e n d a t i db) = sequences db"
  by (simp_all add: publish_def new_id_def)

lemma audit_of_sales [simp]:
  "products (audit_of e n t i a d db) = products db" "customers (audit_of e n t i a d db) = customers db"
  "plans (audit_of e n t i a d db) = plans db" "deliveries (audit_of e n t i a d db) = deliveries db"
  "sale_items (audit_of e n t i a d db) = sale_items db" "invoices (audit_of e n t i a d db) = invoices db"
  "invoice_lines (audit_of e n t i a d db) = invoice_lines db"
  "customer_payments (audit_of e n t i a d db) = customer_payments db"
  "allocations (audit_of e n t i a d db) = allocations db"
  "customer_receipts (audit_of e n t i a d db) = customer_receipts db"
  "sequences (audit_of e n t i a d db) = sequences db" "next_id (audit_of e n t i a d db) = next_id db"
  "periods (audit_of e n t i a d db) = periods db"
  by (simp_all add: audit_of_def)

lemmas audit_sales [simp] = audit_of_sales [where i = "JId i" for i, folded audit_def]

section \<open>Keyed tables\<close>

text \<open>A table whose identifiers are unique and below the next one, and whose rows satisfy a condition.\<close>

definition table_ok :: "('r \<Rightarrow> uuid) \<Rightarrow> uuid \<Rightarrow> ('r \<Rightarrow> bool) \<Rightarrow> 'r list \<Rightarrow> bool" where
  "table_ok key n P rows \<longleftrightarrow> unique_keys key rows \<and> (\<forall>r \<in> set rows. key r < n \<and> P r)"

lemma table_okD:
  assumes "table_ok key n P rows"
  shows "unique_keys key rows" "r \<in> set rows \<Longrightarrow> key r < n" "r \<in> set rows \<Longrightarrow> P r"
  using assms unfolding table_ok_def by blast+

lemma table_ok_Nil [simp]: "table_ok key n P []"
  by (simp add: table_ok_def)

lemma table_ok_mono:
  "table_ok key n P rows \<Longrightarrow> n \<le> n' \<Longrightarrow> (\<And>r. r \<in> set rows \<Longrightarrow> P r \<Longrightarrow> Q r) \<Longrightarrow> table_ok key n' Q rows"
  unfolding table_ok_def by (meson order_less_le_trans)

lemma table_ok_append:
  assumes "table_ok key n P rows" and "key r = n" and "P r" and "n < n'"
  shows "table_ok key n' P (rows @ [r])"
proof -
  have "unique_keys key (rows @ [r])"
    by (rule unique_keys_append_next [of key rows n]) (use assms(1,2) in \<open>auto simp: table_ok_def\<close>)
  then show ?thesis using assms by (auto simp: table_ok_def)
qed

lemma table_ok_put:
  assumes "table_ok key n P rows" and "r \<in> set rows" and "key r' = key r" and "P r'"
  shows "table_ok key n P (row_update key (key r) (\<lambda>_. r') rows)"
  using assms unique_keys_row_put [of key rows r key r'] by (auto simp: table_ok_def in_row_put)

lemma table_ok_map:
  assumes "table_ok key n P rows" and "\<And>r. key (f r) = key r" and "\<And>r. r \<in> set rows \<Longrightarrow> P r \<Longrightarrow> P (f r)"
  shows "table_ok key n P (map f rows)"
proof -
  have "map key (map f rows) = map key rows" using assms(2) by simp
  then have "unique_keys key (map f rows)" using table_okD(1) [OF assms(1)] unfolding unique_keys_def by metis
  then show ?thesis using assms by (auto simp: table_ok_def)
qed

lemma unique_keys_map:
  "(\<And>r. r \<in> set rows \<Longrightarrow> g (f r) = g r) \<Longrightarrow> unique_keys g (map f rows) = unique_keys g rows"
  unfolding unique_keys_def by (metis (mono_tags, lifting) map_map comp_apply map_cong)

lemma numeric_nonneg: "numeric p s x = Inr y \<Longrightarrow> 0 \<le> x \<Longrightarrow> 0 \<le> y"
  using half_up.rnd_nonneg [of "x * 10 ^ s"] by (auto simp: numeric_def Let_def split: if_splits)

lemma quantize_money_Inr:
  assumes "quantize_money x c = Inr y"
  shows "at_scale (minor_units c) y" "0 \<le> x \<Longrightarrow> 0 \<le> y"
  using assms quantize_at_scale quantize_nonneg unfolding quantize_money_def by blast+

lemma quantize_money_scale2: "quantize_money x c = Inr y \<Longrightarrow> at_scale 2 y"
  using quantize_money_Inr(1) [of x c y] minor_units_le [of c] at_scale_mono by blast

text \<open>An amount of a \<open>Numeric(16, 2)\<close> column that is not negative.\<close>

definition is_amount :: "decimal \<Rightarrow> bool" where
  "is_amount x \<longleftrightarrow> 0 \<le> x \<and> at_scale 2 x \<and> x < 10 ^ 14"

lemma is_amount_0 [simp]: "is_amount 0"
  by (simp add: is_amount_def)

lemma numeric_is_amount: "numeric 16 2 x = Inr y \<Longrightarrow> 0 \<le> x \<Longrightarrow> is_amount y"
  using numeric_InrD [of 16 2 x y] numeric_nonneg [of 16 2 x y] by (auto simp: is_amount_def)

end
