(* ===== verification/Customers.thy ===== *)
theory Customers
  imports SalesTables "HOL-Library.List_Lexorder" "HOL-Library.Char_ord"
begin

text \<open>
  The catalogue (\<open>modules/catalog/service.py\<close>, with the codes of \<open>core/codes.py\<close>) and the customers
  with their standing orders (\<open>modules/customer/service.py\<close>). A command is built by a function of its
  own name that checks what its validators check. The operations return the row their view shows.
\<close>

section \<open>Codes\<close>

definition is_slug_char :: "char \<Rightarrow> bool" where
  "is_slug_char c \<longleftrightarrow> is_upper c \<or> (48 \<le> char_code c \<and> char_code c \<le> 57)"

definition rstrip_hyphens :: "string \<Rightarrow> string" where
  "rstrip_hyphens s = rev (dropWhile (\<lambda>c. c = CHR ''-'') (rev s))"

text \<open>Runs of other characters become one hyphen, none at the ends.\<close>

definition slug_code :: "string \<Rightarrow> nat \<Rightarrow> string" where
  "slug_code name max_length =
     (let slug = str_join ''-'' (words_by (\<lambda>c. \<not> is_slug_char c) (str_upper (str_strip name)))
      in or_else (rstrip_hyphens (take max_length slug)) ''ITEM'')"

definition code_variant :: "string \<Rightarrow> nat \<Rightarrow> nat \<Rightarrow> string" where
  "code_variant base max_length n =
     (let suffix = ''-'' @ show_nat n in rstrip_hyphens (take (max_length - length suffix) base) @ suffix)"

definition unique_code :: "string \<Rightarrow> (string \<Rightarrow> bool) \<Rightarrow> nat \<Rightarrow> string result" where
  "unique_code name taken max_length =
     (let base = slug_code name max_length in
      if \<not> taken base then Inr base
      else case find (\<lambda>n. \<not> taken (code_variant base max_length n)) [2..<1000] of
          None \<Rightarrow> Inl (ValueError ''could not find a free code'')
        | Some n \<Rightarrow> Inr (code_variant base max_length n))"

section \<open>The catalogue\<close>

definition UNIT_SPELLINGS :: "(string \<times> string) list" where
  "UNIT_SPELLINGS =
     [(''l'', ''L''), (''litre'', ''L''), (''litres'', ''L''), (''liter'', ''L''), (''liters'', ''L''), (''ltr'', ''L''),
      (''kg'', ''kg''), (''kgs'', ''kg''), (''kilogram'', ''kg''), (''kilograms'', ''kg''),
      (''pc'', ''pc''), (''pcs'', ''pc''), (''piece'', ''pc''), (''pieces'', ''pc''), (''unit'', ''pc''), (''units'', ''pc'')]"

definition UNIT_MAX :: nat where
  "UNIT_MAX = 12"

definition CODE_MAX :: nat where
  "CODE_MAX = 40"

definition NAME_MAX :: nat where
  "NAME_MAX = 120"

text \<open>The one accepted character outside ASCII, the micro sign, is left out.\<close>

definition product_unit :: "string \<Rightarrow> string result" where
  "product_unit v =
     (let raw = str_strip v in
      case map_of UNIT_SPELLINGS (str_lower raw) of
        Some u \<Rightarrow> Inr u
      | None \<Rightarrow>
          if raw = [] then Inl (ValueError ''unit is required'')
          else if UNIT_MAX < length raw then Inl (ValueError ''unit is too long'')
          else if list_ex (\<lambda>c. \<not> (is_alnum c \<or> c \<in> set '' .-/'')) raw
            then Inl (ValueError ''unit may hold letters, digits, spaces and a few marks'')
          else Inr raw)"

definition normalise_code :: "string \<Rightarrow> string result" where
  "normalise_code v =
     (let cleaned = str_join ''-'' (str_words (map (\<lambda>c. if c = CHR ''_'' then CHR ''-'' else c) (str_upper (str_strip v))))
      in if cleaned = [] \<or> list_ex (\<lambda>c. \<not> (is_alnum c \<or> c = CHR ''-'')) cleaned
           then Inl (ValueError ''code must be letters, digits and hyphens'')
         else Inr cleaned)"

record create_product_command =
  xp_code :: "string option"
  xp_name :: string
  xp_unit :: string
  xp_price :: "decimal option"
  xp_order :: int

definition CreateProductCommand ::
  "string option \<Rightarrow> string \<Rightarrow> string \<Rightarrow> decimal option \<Rightarrow> int \<Rightarrow> create_product_command result" where
  "CreateProductCommand code name unit price order =
     andthen
       (case code of
          None \<Rightarrow> Inr None
        | Some c \<Rightarrow>
            if c = [] \<or> \<not> at_most CODE_MAX c then Inl (ValueError ''code'')
            else if str_strip c = [] then Inr None
            else andthen (normalise_code c) (\<lambda>k. Inr (Some k)))
       (\<lambda>code'.
        if name = [] \<or> \<not> at_most NAME_MAX name then Inl (ValueError ''name'')
        else if \<not> at_most UNIT_MAX unit then Inl (ValueError ''unit'')
        else
          andthen (product_unit unit) (\<lambda>unit'.
          if (case price of None \<Rightarrow> False | Some p \<Rightarrow> p < 0) then Inl (ValueError ''default_price'')
          else if order < 0 \<or> 10000 < order then Inl (ValueError ''sort_order'')
          else Inr \<lparr>xp_code = code', xp_name = name, xp_unit = unit', xp_price = price, xp_order = order\<rparr>))"

definition find_product :: "uuid \<Rightarrow> string \<Rightarrow> 'a sales_db_scheme \<Rightarrow> product option" where
  "find_product tenant code db = find (\<lambda>p. pd_tenant p = tenant \<and> pd_code p = code) (products db)"

definition require_active :: "env \<Rightarrow> string \<Rightarrow> 'a sales_db_scheme \<Rightarrow> product result" where
  "require_active e code db =
     andthen (require_current_tenant e) (\<lambda>tenant.
     case find_product tenant code db of
       None \<Rightarrow> Inl (ValidationError ''not a product in this organisation's catalogue'')
     | Some p \<Rightarrow> if \<not> pd_active p then Inl (ValidationError ''product is deactivated'') else Inr p)"

definition contains :: "string \<Rightarrow> string \<Rightarrow> bool" where
  "contains needle s \<longleftrightarrow> list_ex (\<lambda>i. take (length needle) (drop i s) = needle) [0..<Suc (length s)]"

definition default_standing_order_product :: "env \<Rightarrow> 'a sales_db_scheme \<Rightarrow> product result" where
  "default_standing_order_product e db =
     andthen (require_current_tenant e) (\<lambda>tenant.
     case sort_key pd_order (sort_key pd_code
            (filter (\<lambda>p. pd_tenant p = tenant \<and> pd_active p
                \<and> (contains ''MILK'' (str_upper (pd_code p)) \<or> contains ''MILK'' (str_upper (pd_name p))))
              (products db))) of
       [] \<Rightarrow> Inl (ValidationError ''name the product this standing order is for'')
     | p # _ \<Rightarrow> Inr p)"

text \<open>\<open>quantize_money\<close> of an optional price, as its \<open>Numeric(12, 2)\<close> column keeps it.\<close>

definition stored_price :: "decimal option \<Rightarrow> string \<Rightarrow> decimal option result" where
  "stored_price price cur =
     (case price of
        None \<Rightarrow> Inr None
      | Some x \<Rightarrow> andthen (quantize_money x (Some cur)) (\<lambda>y. andthen (numeric 12 2 y) (\<lambda>z. Inr (Some z))))"

definition product_code :: "create_product_command \<Rightarrow> (string \<Rightarrow> bool) \<Rightarrow> string result" where
  "product_code cmd taken =
     (case xp_code cmd of
        None \<Rightarrow> unique_code (xp_name cmd) taken CODE_MAX
      | Some c \<Rightarrow> if taken c then Inl (ConflictError ''product already exists'') else Inr c)"

definition create_product ::
  "env \<Rightarrow> create_product_command \<Rightarrow> uuid \<Rightarrow> 'a sales_db_scheme \<Rightarrow> (product \<times> 'a sales_db_scheme) result" where
  "create_product e cmd actor db =
     andthen (require_current_tenant e) (\<lambda>tenant.
     andthen (product_code cmd (\<lambda>c. find_product tenant c db \<noteq> None)) (\<lambda>code.
     andthen (tenant_currency e db None) (\<lambda>cur.
     andthen (stored_price (xp_price cmd) cur) (\<lambda>price.
       let (i, db1) = new_id db;
           p = \<lparr>pd_id = i, pd_tenant = tenant, pd_code = code, pd_name = str_strip (xp_name cmd),
                pd_unit = xp_unit cmd, pd_price = price, pd_currency = cur, pd_active = True,
                pd_order = xp_order cmd\<rparr>
       in Inr (p, audit e ''catalog.product.created'' ''product'' i (Some actor)
                 [(''code'', JStr code), (''name'', JStr (pd_name p)), (''unit'', JStr (pd_unit p))]
                 (db1\<lparr>products := products db1 @ [p]\<rparr>))))))"

record update_product_command =
  xu_name :: "string option"
  xu_unit :: "string option"
  xu_price :: "decimal option"
  xu_clear :: bool
  xu_active :: "bool option"
  xu_order :: "int option"

definition UpdateProductCommand ::
  "string option \<Rightarrow> string option \<Rightarrow> decimal option \<Rightarrow> bool \<Rightarrow> bool option \<Rightarrow> int option
     \<Rightarrow> update_product_command result" where
  "UpdateProductCommand name unit price clear act order =
     (if (case name of None \<Rightarrow> False | Some n \<Rightarrow> n = [] \<or> \<not> at_most NAME_MAX n) then Inl (ValueError ''name'')
      else if (case unit of None \<Rightarrow> False | Some u \<Rightarrow> \<not> at_most 12 u) then Inl (ValueError ''unit'')
      else
        andthen (case unit of None \<Rightarrow> Inr None | Some u \<Rightarrow> andthen (product_unit u) (\<lambda>v. Inr (Some v))) (\<lambda>unit'.
        if (case price of None \<Rightarrow> False | Some p \<Rightarrow> p < 0) then Inl (ValueError ''default_price'')
        else if (case order of None \<Rightarrow> False | Some k \<Rightarrow> k < 0 \<or> 10000 < k) then Inl (ValueError ''sort_order'')
        else Inr \<lparr>xu_name = name, xu_unit = unit', xu_price = price, xu_clear = clear, xu_active = act,
                  xu_order = order\<rparr>))"

definition get_product :: "env \<Rightarrow> 'a sales_db_scheme \<Rightarrow> uuid \<Rightarrow> product result" where
  "get_product e db i =
     andthen (require_current_tenant e) (\<lambda>tenant.
     case row_get pd_id i (products db) of
       None \<Rightarrow> Inl (NotFoundError ''product not found'')
     | Some p \<Rightarrow> if pd_tenant p \<noteq> tenant then Inl (NotFoundError ''product not found'') else Inr p)"

text \<open>The row after the update, and what the audit entry lists as changed.\<close>

definition changed_product :: "update_product_command \<Rightarrow> product \<Rightarrow> (product \<times> payload) result" where
  "changed_product cmd p =
     (let name = (case xu_name cmd of None \<Rightarrow> pd_name p | Some n \<Rightarrow> str_strip n);
          unit = (case xu_unit cmd of None \<Rightarrow> pd_unit p | Some u \<Rightarrow> u);
          act = (case xu_active cmd of None \<Rightarrow> pd_active p | Some a \<Rightarrow> a);
          order = (case xu_order cmd of None \<Rightarrow> pd_order p | Some k \<Rightarrow> k) in
      andthen
        (if xu_clear cmd then Inr (None, [(''default_price'', JStr ''cleared'')])
         else case xu_price cmd of
             None \<Rightarrow> Inr (pd_price p, [])
           | Some x \<Rightarrow> andthen (stored_price (Some x) (pd_currency p)) (\<lambda>y. Inr (y, [(''default_price'', json_opt JDec y)])))
        (\<lambda>(price, priced).
         Inr (p\<lparr>pd_name := name, pd_unit := unit, pd_price := price, pd_active := act, pd_order := order\<rparr>,
              (if name \<noteq> pd_name p then [(''name'', JStr name)] else [])
              @ (if unit \<noteq> pd_unit p then [(''unit'', JStr unit)] else []) @ priced
              @ (if act \<noteq> pd_active p then [(''active'', JBool act)] else [])
              @ (if order \<noteq> pd_order p then [(''sort_order'', JInt order)] else []))))"

definition update_product ::
  "env \<Rightarrow> uuid \<Rightarrow> update_product_command \<Rightarrow> uuid \<Rightarrow> 'a sales_db_scheme \<Rightarrow> (product \<times> 'a sales_db_scheme) result" where
  "update_product e i cmd actor db =
     andthen (get_product e db i) (\<lambda>p.
     andthen (changed_product cmd p) (\<lambda>(p', changed).
     let db1 = db\<lparr>products := row_update pd_id i (\<lambda>_. p') (products db)\<rparr> in
     Inr (p', if changed = [] then db1
              else audit e ''catalog.product.updated'' ''product'' i (Some actor)
                     ((''code'', JStr (pd_code p)) # changed) db1)))"

definition ensure_product ::
  "uuid \<Rightarrow> string \<Rightarrow> string \<Rightarrow> string \<Rightarrow> string \<Rightarrow> int \<Rightarrow> 'a sales_db_scheme \<Rightarrow> product \<times> 'a sales_db_scheme" where
  "ensure_product tenant code name unit cur order db =
     (case find_product tenant code db of
        Some p \<Rightarrow> (p, db)
      | None \<Rightarrow>
          (let (i, db1) = new_id db;
               p = \<lparr>pd_id = i, pd_tenant = tenant, pd_code = code, pd_name = name, pd_unit = unit,
                    pd_price = None, pd_currency = cur, pd_active = True, pd_order = order\<rparr>
           in (p, db1\<lparr>products := products db1 @ [p]\<rparr>)))"

definition seed_new_organisation :: "uuid \<Rightarrow> string \<Rightarrow> 'a sales_db_scheme \<Rightarrow> product \<times> 'a sales_db_scheme" where
  "seed_new_organisation tenant cur db =
     ensure_product tenant ''OTHER'' ''Other shop item'' ''pc'' cur 10000
       (snd (ensure_product tenant ''BUFFALO-MILK'' ''Buffalo milk'' ''L'' cur 20
         (snd (ensure_product tenant ''COW-MILK'' ''Cow milk'' ''L'' cur 10 db))))"

section \<open>Commands\<close>

definition CUSTOMER_TYPES :: "string list" where
  "CUSTOMER_TYPES = [''household'', ''shop'', ''hotel'', ''institution'', ''distributor'']"

definition CUSTOMER_STATUSES :: "string list" where
  "CUSTOMER_STATUSES = [''active'', ''inactive'', ''suspended'']"

definition BILLING_MODES :: "string list" where
  "BILLING_MODES = [''credit'', ''prepaid'']"

definition normalise_customer_type :: "string \<Rightarrow> string result" where
  "normalise_customer_type v =
     (let cleaned = str_join '' '' (str_words v) in
      if length cleaned < 2 \<or> 40 < length cleaned then Inl (ValueError ''customer_type'')
      else Inr (if str_lower cleaned \<in> set CUSTOMER_TYPES then str_lower cleaned else cleaned))"

record plan_input =
  np_product :: "string option"
  np_quantity :: decimal
  np_unit :: "string option"
  np_price :: decimal
  np_from :: "date option"
  np_to :: "date option"
  np_weekdays :: string
  np_slot :: string
  np_center :: "uuid option"
  np_overrides :: "(string \<times> decimal) list"

definition DeliveryPlanInput ::
  "string option \<Rightarrow> decimal \<Rightarrow> string option \<Rightarrow> decimal \<Rightarrow> date option \<Rightarrow> date option \<Rightarrow> string \<Rightarrow> string
     \<Rightarrow> uuid option \<Rightarrow> (string \<times> decimal) list \<Rightarrow> plan_input result" where
  "DeliveryPlanInput code qty unit price from until mask_text slot center overrides =
     (if code = Some [] \<or> \<not> at_most 40 (opt_str code) then Inl (ValueError ''product'')
      else if qty < 0 then Inl (ValueError ''default_quantity'')
      else if \<not> at_most 12 (opt_str unit) then Inl (ValueError ''quantity_unit'')
      else if price \<le> 0 then Inl (ValueError ''unit_price'')
      else
        andthen (normalise_weekdays (Some mask_text)) (\<lambda>w.
        if slot \<notin> set DELIVERY_SLOTS then Inl (ValueError ''slot'')
        else if list_ex (\<lambda>(k, _). k \<notin> set (map show_nat [0..<WEEK])) overrides then Inl (ValueError ''weekday key'')
        else Inr \<lparr>np_product = code, np_quantity = qty, np_unit = unit, np_price = price, np_from = from,
                  np_to = until, np_weekdays = w, np_slot = slot, np_center = center, np_overrides = overrides\<rparr>))"

record create_customer_command =
  nc_name :: string
  nc_type :: string
  nc_phone :: string
  nc_alternate :: string
  nc_address :: string
  nc_notes :: string
  nc_mode :: string
  nc_billing_day :: int
  nc_currency :: "string option"
  nc_plan :: "plan_input option"

text \<open>The checks the creating and the updating command share.\<close>

definition customer_fields_ok :: "create_customer_command \<Rightarrow> bool" where
  "customer_fields_ok c \<longleftrightarrow> 2 \<le> length (nc_name c) \<and> at_most 200 (nc_name c) \<and> at_most 32 (nc_phone c)
     \<and> at_most 32 (nc_alternate c) \<and> at_most 300 (nc_address c) \<and> at_most 500 (nc_notes c)
     \<and> 1 \<le> nc_billing_day c \<and> nc_billing_day c \<le> 28"

definition CreateCustomerCommand :: "create_customer_command \<Rightarrow> create_customer_command result" where
  "CreateCustomerCommand c =
     (if \<not> customer_fields_ok c then Inl (ValueError ''field'')
      else
        andthen (normalise_customer_type (nc_type c)) (\<lambda>t.
        if nc_mode c \<notin> set BILLING_MODES then Inl (ValueError ''billing_mode'')
        else if (case nc_currency c of None \<Rightarrow> False | Some k \<Rightarrow> length k \<noteq> 3) then Inl (ValueError ''currency'')
        else Inr (c\<lparr>nc_type := t, nc_currency := map_option str_upper (nc_currency c)\<rparr>)))"

text \<open>\<open>UpdateCustomerCommand\<close> has no currency and no plan, and does not check the billing mode.\<close>

definition UpdateCustomerCommand :: "create_customer_command \<Rightarrow> create_customer_command result" where
  "UpdateCustomerCommand c =
     (if \<not> customer_fields_ok c then Inl (ValueError ''field'')
      else andthen (normalise_customer_type (nc_type c)) (\<lambda>t. Inr (c\<lparr>nc_type := t\<rparr>)))"

section \<open>Customers and their plans\<close>

definition get_customer :: "env \<Rightarrow> 'a sales_db_scheme \<Rightarrow> uuid \<Rightarrow> customer result" where
  "get_customer e db i =
     andthen (require_current_tenant e) (\<lambda>tenant.
       need (NotFoundError ''customer not found'')
         (find (\<lambda>c. cu_id c = i \<and> cu_tenant c = tenant) (customers db)))"

definition get_plan :: "env \<Rightarrow> 'a sales_db_scheme \<Rightarrow> uuid \<Rightarrow> delivery_plan result" where
  "get_plan e db i =
     andthen (require_current_tenant e) (\<lambda>tenant.
       need (NotFoundError ''delivery plan not found'')
         (find (\<lambda>p. dp_id p = i \<and> dp_tenant p = tenant) (plans db)))"

definition sales_today :: "env \<Rightarrow> 'a sales_db_scheme \<Rightarrow> date" where
  "sales_today e db = business_today e (tenant_timezone e db None)"

text \<open>The standing orders that a new one replaces: same customer, product and slot.\<close>

definition superseded :: "uuid \<Rightarrow> uuid \<Rightarrow> string \<Rightarrow> string \<Rightarrow> delivery_plan \<Rightarrow> bool" where
  "superseded tenant c code slot p \<longleftrightarrow>
     dp_tenant p = tenant \<and> dp_customer p = c \<and> dp_product p = code \<and> dp_slot p = slot \<and> dp_active p"

definition supersede_plans ::
  "uuid \<Rightarrow> uuid \<Rightarrow> string \<Rightarrow> string \<Rightarrow> 'a sales_db_scheme \<Rightarrow> 'a sales_db_scheme" where
  "supersede_plans tenant c code slot db =
     db\<lparr>plans := map (\<lambda>p. if superseded tenant c code slot p then p\<lparr>dp_active := False\<rparr> else p) (plans db)\<rparr>"

definition plan_row ::
  "uuid \<Rightarrow> uuid \<Rightarrow> customer \<Rightarrow> plan_input \<Rightarrow> string \<Rightarrow> string \<Rightarrow> date \<Rightarrow> uuid \<Rightarrow> delivery_plan result" where
  "plan_row i tenant c p code unit from actor =
     andthen (numeric 12 3 (np_quantity p)) (\<lambda>q.
     andthen (numeric 12 4 (np_price p)) (\<lambda>price.
     Inr \<lparr>dp_id = i, dp_tenant = tenant, dp_customer = cu_id c, dp_product = code, dp_quantity = q,
          dp_unit = unit, dp_price = price, dp_currency = cu_currency c, dp_from = from, dp_to = np_to p,
          dp_weekdays = np_weekdays p, dp_paused_from = None, dp_paused_to = None,
          dp_overrides = map (\<lambda>(k, v). (k, JDec v)) (np_overrides p), dp_center = np_center p,
          dp_slot = np_slot p, dp_active = True, dp_created_by = Some actor\<rparr>))"

text \<open>
  \<open>set_plan\<close> with the state of the session at its exit: a caller that catches its exception goes on from
  there.
\<close>

definition plan_product :: "env \<Rightarrow> plan_input \<Rightarrow> 'a sales_db_scheme \<Rightarrow> product result" where
  "plan_product e p db =
     andthen (case np_product p of
                Some code \<Rightarrow> Inr code
              | None \<Rightarrow> andthen (default_standing_order_product e db) (\<lambda>d. Inr (pd_code d)))
       (\<lambda>code. require_active e code db)"

definition plan_start :: "env \<Rightarrow> plan_input \<Rightarrow> 'a sales_db_scheme \<Rightarrow> date" where
  "plan_start e p db = (case np_from p of None \<Rightarrow> sales_today e db | Some d \<Rightarrow> d)"

definition set_plan_raw ::
  "env \<Rightarrow> uuid \<Rightarrow> plan_input \<Rightarrow> uuid \<Rightarrow> 'a sales_db_scheme \<Rightarrow> delivery_plan result \<times> 'a sales_db_scheme" where
  "set_plan_raw e cid p actor db =
     (case andthen (get_customer e db cid) (\<lambda>c. andthen (plan_product e p db) (\<lambda>pd. Inr (c, pd))) of
        Inl err \<Rightarrow> (Inl err, db)
      | Inr (c, pd) \<Rightarrow>
          let old = filter (superseded (cu_tenant c) cid (pd_code pd) (np_slot p)) (plans db);
              db1 = supersede_plans (cu_tenant c) cid (pd_code pd) (np_slot p) db;
              from = plan_start e p db;
              unit = or_else (opt_str (np_unit p)) (pd_unit pd);
              (i, db2) = new_id db1
          in if (case np_to p of None \<Rightarrow> False | Some u \<Rightarrow> u < from)
               then (Inl (ConflictError ''a plan cannot end before it begins''), db1)
             else
               case plan_row i (cu_tenant c) c p (pd_code pd) unit from actor of
                 Inl err \<Rightarrow> (Inl err, db2)
               | Inr row \<Rightarrow>
                   (Inr row, audit e ''sales.customer.plan_set'' ''delivery_plan'' i (Some actor)
                      [(''customer'', JStr (cu_code c)), (''product'', JStr (dp_product row)),
                       (''slot'', JStr (dp_slot row)), (''unit_price'', JDec (dp_price row)),
                       (''weekdays'', JStr (dp_weekdays row)), (''quantity'', JDec (dp_quantity row)),
                       (''effective_from'', JDate from), (''superseded'', JList (map (\<lambda>o'. JId (dp_id o')) old))]
                      (db2\<lparr>plans := plans db2 @ [row]\<rparr>)))"

definition committed :: "'r result \<times> 's \<Rightarrow> ('r \<times> 's) result" where
  "committed rs = (case rs of (Inl err, _) \<Rightarrow> Inl err | (Inr r, db) \<Rightarrow> Inr (r, db))"

definition set_plan ::
  "env \<Rightarrow> uuid \<Rightarrow> plan_input \<Rightarrow> uuid \<Rightarrow> 'a sales_db_scheme \<Rightarrow> (delivery_plan \<times> 'a sales_db_scheme) result" where
  "set_plan e cid p actor db = committed (set_plan_raw e cid p actor db)"

text \<open>The first half of \<open>create\<close>: code, currency and row.\<close>

definition register_customer ::
  "env \<Rightarrow> create_customer_command \<Rightarrow> uuid \<Rightarrow> 'a sales_db_scheme \<Rightarrow> customer result \<times> 'a sales_db_scheme" where
  "register_customer e cmd tenant db =
     (let (code, db1) = next_document_number e tenant ''customer'' ''CUS'' db in
      case andthen (case nc_currency cmd of Some k \<Rightarrow> Inr k | None \<Rightarrow> tenant_currency e db1 None) (\<lambda>cur.
           andthen (column_text 20 (nc_type cmd)) (\<lambda>t. Inr (cur, t))) of
        Inl err \<Rightarrow> (Inl err, db1)
      | Inr (cur, t) \<Rightarrow>
          let (i, db2) = new_id db1;
              c = \<lparr>cu_id = i, cu_tenant = tenant, cu_code = code, cu_name = nc_name cmd, cu_type = t,
                   cu_phone = nc_phone cmd, cu_alternate = nc_alternate cmd, cu_address = nc_address cmd,
                   cu_notes = nc_notes cmd, cu_status = ''active'', cu_mode = nc_mode cmd,
                   cu_billing_day = nc_billing_day cmd, cu_currency = cur\<rparr>
          in (Inr c, db2\<lparr>customers := customers db2 @ [c]\<rparr>))"

definition create_customer_raw ::
  "env \<Rightarrow> create_customer_command \<Rightarrow> uuid \<Rightarrow> 'a sales_db_scheme \<Rightarrow> customer result \<times> 'a sales_db_scheme" where
  "create_customer_raw e cmd actor db =
     (case require_current_tenant e of
        Inl err \<Rightarrow> (Inl err, db)
      | Inr tenant \<Rightarrow>
          (case register_customer e cmd tenant db of
             (Inl err, db1) \<Rightarrow> (Inl err, db1)
           | (Inr c, db1) \<Rightarrow>
               let registered = audit e ''sales.customer.registered'' ''customer'' (cu_id c) (Some actor)
                                  [(''code'', JStr (cu_code c)), (''name'', JStr (cu_name c))]
               in case nc_plan cmd of
                    None \<Rightarrow> (Inr c, registered db1)
                  | Some p \<Rightarrow>
                      (case set_plan_raw e (cu_id c) p actor db1 of
                         (Inl err, db2) \<Rightarrow> (Inl err, db2)
                       | (Inr _, db2) \<Rightarrow> (Inr c, registered db2))))"

definition create_customer ::
  "env \<Rightarrow> create_customer_command \<Rightarrow> uuid \<Rightarrow> 'a sales_db_scheme \<Rightarrow> (customer \<times> 'a sales_db_scheme) result" where
  "create_customer e cmd actor db = committed (create_customer_raw e cmd actor db)"

text \<open>
  \<open>import_rows\<close>: a row that fails is reported and the next one goes on in the same transaction, without
  a savepoint. An error of the database itself aborts that transaction, and with it the request. A row
  arrives as what the construction of its command makes of it.
\<close>

record import_row_result =
  ir_row :: nat
  ir_created :: bool
  ir_customer :: "uuid option"
  ir_code :: "string option"
  ir_error :: "error option"

definition MAX_IMPORT_ROWS :: nat where
  "MAX_IMPORT_ROWS = 500"

definition import_one ::
  "env \<Rightarrow> uuid \<Rightarrow> create_customer_command result \<Rightarrow> uuid \<Rightarrow> 'a sales_db_scheme \<Rightarrow> customer result \<times> 'a sales_db_scheme" where
  "import_one e tenant row actor db =
     (case row of
        Inl err \<Rightarrow> (Inl err, db)
      | Inr cmd \<Rightarrow>
          if list_ex (\<lambda>c. cu_tenant c = tenant \<and> cu_name c = nc_name cmd \<and> cu_phone c = nc_phone cmd) (customers db)
            then (Inl (ConflictError ''duplicate of existing customer''), db)
          else create_customer_raw e cmd actor db)"

fun is_database_error :: "error \<Rightarrow> bool" where
  "is_database_error (IntegrityError m) = True"
| "is_database_error _ = False"

fun import_each ::
  "env \<Rightarrow> uuid \<Rightarrow> uuid \<Rightarrow> nat \<Rightarrow> create_customer_command result list \<Rightarrow> 'a sales_db_scheme
     \<Rightarrow> (import_row_result list \<times> 'a sales_db_scheme) result" where
  "import_each e tenant actor n [] db = Inr ([], db)"
| "import_each e tenant actor n (row # rows) db =
     (case import_one e tenant row actor db of
        (Inl err, db1) \<Rightarrow>
          if is_database_error err then Inl err
          else
            andthen (import_each e tenant actor (Suc n) rows db1) (\<lambda>(rs, db2).
            Inr (\<lparr>ir_row = n, ir_created = False, ir_customer = None, ir_code = None, ir_error = Some err\<rparr> # rs, db2))
      | (Inr c, db1) \<Rightarrow>
          andthen (import_each e tenant actor (Suc n) rows db1) (\<lambda>(rs, db2).
          Inr (\<lparr>ir_row = n, ir_created = True, ir_customer = Some (cu_id c), ir_code = Some (cu_code c),
                ir_error = None\<rparr> # rs, db2)))"

definition import_rows ::
  "env \<Rightarrow> create_customer_command result list \<Rightarrow> uuid \<Rightarrow> 'a sales_db_scheme
     \<Rightarrow> (import_row_result list \<times> 'a sales_db_scheme) result" where
  "import_rows e rows actor db =
     (if MAX_IMPORT_ROWS < length rows then Inl (ConflictError ''import limited'')
      else andthen (require_current_tenant e) (\<lambda>tenant. import_each e tenant actor 0 rows db))"

definition put_customer :: "customer \<Rightarrow> 'a sales_db_scheme \<Rightarrow> 'a sales_db_scheme" where
  "put_customer c db = db\<lparr>customers := row_update cu_id (cu_id c) (\<lambda>_. c) (customers db)\<rparr>"

definition update_customer ::
  "env \<Rightarrow> uuid \<Rightarrow> create_customer_command \<Rightarrow> uuid \<Rightarrow> 'a sales_db_scheme \<Rightarrow> (customer \<times> 'a sales_db_scheme) result" where
  "update_customer e i cmd actor db =
     andthen (get_customer e db i) (\<lambda>c.
     andthen (column_text 20 (nc_type cmd)) (\<lambda>t.
     andthen (column_text 16 (nc_mode cmd)) (\<lambda>mode.
     let c' = c\<lparr>cu_name := nc_name cmd, cu_type := t, cu_phone := nc_phone cmd, cu_alternate := nc_alternate cmd,
                cu_address := nc_address cmd, cu_notes := nc_notes cmd, cu_mode := mode,
                cu_billing_day := nc_billing_day cmd\<rparr>
     in Inr (c', audit e ''sales.customer.updated'' ''customer'' i (Some actor) [(''code'', JStr (cu_code c))]
               (put_customer c' db)))))"

definition set_status ::
  "env \<Rightarrow> uuid \<Rightarrow> string \<Rightarrow> uuid \<Rightarrow> 'a sales_db_scheme \<Rightarrow> (customer \<times> 'a sales_db_scheme) result" where
  "set_status e i status actor db =
     (if status \<notin> set CUSTOMER_STATUSES then Inl (ConflictError ''unknown status'')
      else
        andthen (get_customer e db i) (\<lambda>c.
        let c' = c\<lparr>cu_status := status\<rparr> in
        Inr (c', audit e ''sales.customer.status_changed'' ''customer'' i (Some actor)
                   [(''code'', JStr (cu_code c)), (''status'', JStr status)] (put_customer c' db))))"

section \<open>Changing rates\<close>

record rate_change =
  rg_product :: string
  rg_price :: decimal
  rg_from :: "date option"
  rg_customers :: "uuid list option"
  rg_preview :: bool

definition RateChangeCommand ::
  "string \<Rightarrow> decimal \<Rightarrow> date option \<Rightarrow> uuid list option \<Rightarrow> bool \<Rightarrow> rate_change result" where
  "RateChangeCommand code price from cs preview =
     (if \<not> at_most 40 code then Inl (ValueError ''product'')
      else if price \<le> 0 then Inl (ValueError ''unit_price'')
      else Inr \<lparr>rg_product = code, rg_price = price, rg_from = from, rg_customers = cs, rg_preview = preview\<rparr>)"

text \<open>A line of the answer: the customer, the old rate, and why it was skipped.\<close>

record rate_line =
  rl_customer :: uuid
  rl_old :: "decimal option"
  rl_reason :: "string option"

definition paused_on :: "delivery_plan \<Rightarrow> date \<Rightarrow> bool" where
  "paused_on p d \<longleftrightarrow>
     (case dp_paused_from p of
        None \<Rightarrow> False
      | Some f \<Rightarrow> f \<le> d \<and> (case dp_paused_to p of None \<Rightarrow> True | Some t \<Rightarrow> d \<le> t))"

text \<open>The order of a plan with another price, as \<open>change_rates\<close> builds it for \<open>set_plan\<close>.\<close>

definition repriced_input :: "delivery_plan \<Rightarrow> decimal \<Rightarrow> date \<Rightarrow> plan_input result" where
  "repriced_input p price from =
     DeliveryPlanInput (Some (dp_product p)) (dp_quantity p) (Some (dp_unit p)) price (Some from) (dp_to p)
       (dp_weekdays p) (dp_slot p) (dp_center p)
       (map (\<lambda>(k, v). (k, case decimal_of_json v of None \<Rightarrow> 0 | Some d \<Rightarrow> d)) (dp_overrides p))"

fun reprice_plans ::
  "env \<Rightarrow> rate_change \<Rightarrow> date \<Rightarrow> uuid \<Rightarrow> uuid \<Rightarrow> delivery_plan list \<Rightarrow> 'a sales_db_scheme
     \<Rightarrow> (rate_line list \<times> rate_line list \<times> 'a sales_db_scheme) result" where
  "reprice_plans e cmd from actor c [] db = Inr ([], [], db)"
| "reprice_plans e cmd from actor c (p # ps) db =
     (if paused_on p from then
        andthen (reprice_plans e cmd from actor c ps db) (\<lambda>(ch, sk, db').
        Inr (ch, \<lparr>rl_customer = c, rl_old = Some (dp_price p), rl_reason = Some ''plan is paused on the effective date''\<rparr> # sk, db'))
      else if dp_price p = rg_price cmd then
        andthen (reprice_plans e cmd from actor c ps db) (\<lambda>(ch, sk, db').
        Inr (ch, \<lparr>rl_customer = c, rl_old = Some (dp_price p), rl_reason = Some ''already at that rate''\<rparr> # sk, db'))
      else
        andthen (if rg_preview cmd then Inr db
                 else andthen (repriced_input p (rg_price cmd) from) (\<lambda>np.
                      andthen (set_plan e c np actor db) (\<lambda>(_, db'). Inr db'))) (\<lambda>db1.
        andthen (reprice_plans e cmd from actor c ps db1) (\<lambda>(ch, sk, db').
        Inr (\<lparr>rl_customer = c, rl_old = Some (dp_price p), rl_reason = None\<rparr> # ch, sk, db'))))"

text \<open>The plans, customers and names are read once, before the first change.\<close>

definition reprice_customer ::
  "env \<Rightarrow> rate_change \<Rightarrow> date \<Rightarrow> uuid \<Rightarrow> customer option \<Rightarrow> uuid \<Rightarrow> delivery_plan list \<Rightarrow> 'a sales_db_scheme
     \<Rightarrow> (rate_line list \<times> rate_line list \<times> 'a sales_db_scheme) result" where
  "reprice_customer e cmd from actor who c ps db =
     (let skip = (\<lambda>why. Inr ([], [\<lparr>rl_customer = c, rl_old = None, rl_reason = Some why\<rparr>], db)) in
      case who of
        None \<Rightarrow> skip ''not a customer of this organisation''
      | Some cu \<Rightarrow>
          if cu_status cu \<noteq> ''active'' then skip (''customer is '' @ cu_status cu)
          else if ps = [] then skip ''no active plan''
          else reprice_plans e cmd from actor c ps db)"

fun reprice_customers ::
  "env \<Rightarrow> rate_change \<Rightarrow> date \<Rightarrow> uuid \<Rightarrow> (uuid \<times> customer option \<times> delivery_plan list) list \<Rightarrow> 'a sales_db_scheme
     \<Rightarrow> (rate_line list \<times> rate_line list \<times> 'a sales_db_scheme) result" where
  "reprice_customers e cmd from actor [] db = Inr ([], [], db)"
| "reprice_customers e cmd from actor ((c, who, ps) # rest) db =
     andthen (reprice_customer e cmd from actor who c ps db) (\<lambda>(ch, sk, db1).
     andthen (reprice_customers e cmd from actor rest db1) (\<lambda>(ch', sk', db2).
     Inr (ch @ ch', sk @ sk', db2)))"

definition rate_targets ::
  "uuid \<Rightarrow> rate_change \<Rightarrow> 'a sales_db_scheme \<Rightarrow> (uuid \<times> customer option \<times> delivery_plan list) list" where
  "rate_targets tenant cmd db =
     (let ps = sort_key dp_customer
                 (filter (\<lambda>p. dp_tenant p = tenant \<and> dp_product p = rg_product cmd \<and> dp_active p
                    \<and> (case rg_customers cmd of None \<Rightarrow> True | Some cs \<Rightarrow> dp_customer p \<in> set cs)) (plans db));
          wanted = remdups (case rg_customers cmd of Some cs \<Rightarrow> cs | None \<Rightarrow> map dp_customer ps);
          who = (\<lambda>c. find (\<lambda>cu. cu_id cu = c \<and> cu_tenant cu = tenant) (customers db));
          code = (\<lambda>c. case who c of None \<Rightarrow> [] | Some cu \<Rightarrow> cu_code cu)
      in map (\<lambda>c. (c, who c, filter (\<lambda>p. dp_customer p = c) ps)) (sort_key code wanted))"

definition change_rates ::
  "env \<Rightarrow> rate_change \<Rightarrow> uuid \<Rightarrow> 'a sales_db_scheme \<Rightarrow> (rate_line list \<times> rate_line list \<times> 'a sales_db_scheme) result" where
  "change_rates e cmd actor db =
     andthen (require_active e (rg_product cmd) db) (\<lambda>_.
     andthen (require_current_tenant e) (\<lambda>tenant.
     let from = (case rg_from cmd of None \<Rightarrow> sales_today e db | Some d \<Rightarrow> d) in
     andthen (reprice_customers e cmd from actor (rate_targets tenant cmd db) db) (\<lambda>(changed, skipped, db1).
     Inr (changed, skipped,
          if rg_preview cmd then db1
          else audit_of e ''sales.customer.rates_changed'' ''delivery_plan'' (JStr (rg_product cmd)) (Some actor)
                 [(''product'', JStr (rg_product cmd)), (''unit_price'', JDec (rg_price cmd)),
                  (''effective_from'', JDate from), (''changed'', JInt (int (length changed))),
                  (''skipped'', JInt (int (length skipped)))] db1))))"

section \<open>Holidays and questions\<close>

definition put_plan :: "delivery_plan \<Rightarrow> 'a sales_db_scheme \<Rightarrow> 'a sales_db_scheme" where
  "put_plan p db = db\<lparr>plans := row_update dp_id (dp_id p) (\<lambda>_. p) (plans db)\<rparr>"

definition pause_plan ::
  "env \<Rightarrow> uuid \<Rightarrow> date \<Rightarrow> date option \<Rightarrow> uuid \<Rightarrow> 'a sales_db_scheme \<Rightarrow> (delivery_plan \<times> 'a sales_db_scheme) result" where
  "pause_plan e i from until actor db =
     andthen (get_plan e db i) (\<lambda>p.
     if (case until of None \<Rightarrow> False | Some u \<Rightarrow> u < from)
       then Inl (ConflictError ''a pause cannot end before it begins'')
     else
       let p' = p\<lparr>dp_paused_from := Some from, dp_paused_to := until\<rparr> in
       Inr (p', audit e ''sales.customer.plan_paused'' ''delivery_plan'' i (Some actor)
                  [(''from'', JDate from), (''to'', json_opt JDate until)] (put_plan p' db)))"

definition resume_plan ::
  "env \<Rightarrow> uuid \<Rightarrow> uuid \<Rightarrow> 'a sales_db_scheme \<Rightarrow> (delivery_plan \<times> 'a sales_db_scheme) result" where
  "resume_plan e i actor db =
     andthen (get_plan e db i) (\<lambda>p.
     let p' = p\<lparr>dp_paused_from := None, dp_paused_to := None\<rparr> in
     Inr (p', audit e ''sales.customer.plan_resumed'' ''delivery_plan'' i (Some actor) [(''plan'', JId i)]
                (put_plan p' db)))"

definition plan_in_force :: "date \<Rightarrow> delivery_plan \<Rightarrow> bool" where
  "plan_in_force d p \<longleftrightarrow> dp_active p \<and> dp_from p \<le> d \<and> (case dp_to p of None \<Rightarrow> True | Some u \<Rightarrow> d \<le> u)"

definition active_plans :: "env \<Rightarrow> 'a sales_db_scheme \<Rightarrow> uuid \<Rightarrow> delivery_plan list result" where
  "active_plans e db c =
     andthen (require_current_tenant e) (\<lambda>tenant.
     Inr (filter (\<lambda>p. dp_tenant p = tenant \<and> dp_customer p = c \<and> plan_in_force (sales_today e db) p) (plans db)))"

text \<open>\<open>active_plan\<close>: the first active plan of the product, whatever its slot and its dates.\<close>

definition active_plan :: "env \<Rightarrow> 'a sales_db_scheme \<Rightarrow> uuid \<Rightarrow> string \<Rightarrow> delivery_plan option result" where
  "active_plan e db c code =
     andthen (require_current_tenant e) (\<lambda>tenant.
     Inr (find (\<lambda>p. dp_tenant p = tenant \<and> dp_customer p = c \<and> dp_product p = code \<and> dp_active p) (plans db)))"

definition plan_view :: "delivery_plan \<Rightarrow> date \<Rightarrow> string \<times> date option" where
  "plan_view p today =
     (describe (dp_weekdays p),
      if dp_active p
        then next_due today (dp_weekdays p) (dp_from p) (dp_to p) (dp_paused_from p) (dp_paused_to p) 366
      else None)"

definition customers_with_standing_orders :: "env \<Rightarrow> 'a sales_db_scheme \<Rightarrow> customer list result" where
  "customers_with_standing_orders e db =
     andthen (require_current_tenant e) (\<lambda>tenant.
     Inr (sort_key cu_code
            (filter (\<lambda>c. cu_tenant c = tenant \<and> cu_status c = ''active''
                \<and> list_ex (\<lambda>p. dp_customer p = cu_id c \<and> dp_tenant p = tenant \<and> plan_in_force (sales_today e db) p) (plans db))
              (customers db))))"

end
