(* ===== verification/Deliveries.thy ===== *)
theory Deliveries
  imports Customers
begin

text \<open>
  What is sold: deliveries (\<open>modules/delivery/service.py\<close>), the round generated from the standing orders
  (\<open>modules/delivery/generation.py\<close>), and the items sold beside the milk (\<open>modules/sale_item/service.py\<close>).
  The read queries and reports are left out.
\<close>

section \<open>Deliveries\<close>

record record_delivery_command =
  rd_customer :: uuid
  rd_date :: date
  rd_slot :: string
  rd_quantity :: "decimal option"
  rd_product :: "string option"
  rd_status :: delivery_status
  rd_notes :: string
  rd_price :: "decimal option"
  rd_reason :: "string option"

definition known_delivery_status :: "string \<Rightarrow> delivery_status result" where
  "known_delivery_status s = need (ValueError ''status must be one of the delivery statuses'') (map_of DELIVERY_STATUSES s)"

definition RecordDeliveryCommand ::
  "uuid \<Rightarrow> date \<Rightarrow> string \<Rightarrow> decimal option \<Rightarrow> string option \<Rightarrow> string \<Rightarrow> string \<Rightarrow> decimal option \<Rightarrow> string option
     \<Rightarrow> record_delivery_command result" where
  "RecordDeliveryCommand c day slot qty code status notes price reason =
     (if slot \<notin> set DELIVERY_SLOTS then Inl (ValueError ''slot'')
      else if (case qty of None \<Rightarrow> False | Some q \<Rightarrow> q < 0) then Inl (ValueError ''quantity'')
      else if code = Some [] \<or> \<not> at_most 40 (opt_str code) then Inl (ValueError ''product'')
      else
        andthen (known_delivery_status status) (\<lambda>st.
        if \<not> at_most 300 notes \<or> \<not> at_most 300 (opt_str reason) then Inl (ValueError ''notes'')
        else if (case price of None \<Rightarrow> False | Some p \<Rightarrow> p \<le> 0) then Inl (ValueError ''unit_price'')
        else Inr \<lparr>rd_customer = c, rd_date = day, rd_slot = slot, rd_quantity = qty, rd_product = code,
                  rd_status = st, rd_notes = notes, rd_price = price, rd_reason = reason\<rparr>))"

definition delivery_amount :: "delivery_status \<Rightarrow> decimal \<Rightarrow> decimal \<Rightarrow> string option \<Rightarrow> decimal result" where
  "delivery_amount st qty price cur =
     (if st \<in> set BILLABLE_STATUSES then quantize_money (dec_mul qty price) cur else Inr 0)"

definition stored_delivery :: "milk_delivery \<Rightarrow> milk_delivery result" where
  "stored_delivery d =
     andthen (numeric 12 3 (dl_quantity d)) (\<lambda>q.
     andthen (numeric 12 4 (dl_price d)) (\<lambda>p.
     andthen (numeric 16 2 (dl_amount d)) (\<lambda>a.
     Inr (d\<lparr>dl_quantity := q, dl_price := p, dl_amount := a\<rparr>))))"

definition save_delivery :: "milk_delivery \<Rightarrow> 'a sales_db_scheme \<Rightarrow> 'a sales_db_scheme result" where
  "save_delivery d db =
     andthen (stored_delivery d) (\<lambda>row.
     Inr (db\<lparr>deliveries := row_update dl_id (dl_id row) (\<lambda>_. row) (deliveries db)\<rparr>))"

definition delivery_recorded :: "env \<Rightarrow> milk_delivery \<Rightarrow> uuid \<Rightarrow> 'a sales_db_scheme \<Rightarrow> 'a sales_db_scheme" where
  "delivery_recorded e d actor db =
     publish e ''sales.delivery-recorded.v1''
       [(''delivery_id'', JId (dl_id d)), (''customer_id'', JId (dl_customer d)), (''delivery_date'', JDate (dl_date d)),
        (''quantity'', JDec (dl_quantity d)), (''amount'', JDec (dl_amount d)), (''currency'', JStr (dl_currency d))]
       (Some actor) None None db"

text \<open>An operator acts on a delivery that the generator produced: the rate stays the row's own.\<close>

definition confirmed :: "record_delivery_command \<Rightarrow> uuid \<Rightarrow> milk_delivery \<Rightarrow> milk_delivery result" where
  "confirmed cmd actor d =
     (let qty = (case rd_quantity cmd of None \<Rightarrow> dl_quantity d | Some q \<Rightarrow> q);
          d1 = d\<lparr>dl_quantity := qty, dl_status := rd_status cmd,
                 dl_notes := or_else (rd_notes cmd) (dl_notes d)\<rparr>;
          d2 = (case rd_price cmd of
                  None \<Rightarrow> d1
                | Some p \<Rightarrow> d1\<lparr>dl_price := p, dl_source := Override, dl_priced_by := Some actor,
                              dl_reason := rd_reason cmd\<rparr>) in
      if rd_status cmd = DDelivered \<and> qty \<le> 0
        then Inl (ConflictError ''a delivered quantity must be greater than zero'')
      else
        andthen (delivery_amount (dl_status d2) qty (dl_price d2) (Some (dl_currency d2))) (\<lambda>a.
        Inr (d2\<lparr>dl_amount := a\<rparr>)))"

definition confirm_delivery ::
  "env \<Rightarrow> milk_delivery \<Rightarrow> record_delivery_command \<Rightarrow> uuid \<Rightarrow> 'a sales_db_scheme
     \<Rightarrow> (milk_delivery \<times> 'a sales_db_scheme) result" where
  "confirm_delivery e d cmd actor db =
     andthen (confirmed cmd actor d) (\<lambda>d'.
     andthen (save_delivery d' db) (\<lambda>db1.
     Inr (d', delivery_recorded e d' actor
       (audit e ''sales.delivery.confirmed'' ''milk_delivery'' (dl_id d) (Some actor)
         [(''date'', JDate (dl_date d')), (''slot'', JStr (dl_slot d')),
          (''status'', JStr (delivery_status_name (dl_status d'))), (''quantity'', JDec (dl_quantity d')),
          (''amount'', JDec (dl_amount d')), (''from_plan'', json_opt JId (dl_plan d')),
          (''unit_price'', JDec (dl_price d')), (''price_source'', JStr (price_source_name (dl_source d')))] db1))))"

text \<open>The product when the command names none: that of the customer's one standing order.\<close>

definition resolved_product ::
  "env \<Rightarrow> record_delivery_command \<Rightarrow> 'a sales_db_scheme \<Rightarrow> string result" where
  "resolved_product e cmd db =
     (case rd_product cmd of
        Some code \<Rightarrow> Inr code
      | None \<Rightarrow>
          andthen (active_plans e db (rd_customer cmd)) (\<lambda>ps.
          case remdups (map dp_product ps) of
            [] \<Rightarrow> Inl (ConflictError ''no active delivery plan'')
          | [code] \<Rightarrow> Inr code
          | _ \<Rightarrow> Inl (ValidationError ''several standing orders: name the product'')))"

definition same_drop :: "uuid \<Rightarrow> uuid \<Rightarrow> date \<Rightarrow> string \<Rightarrow> string \<Rightarrow> milk_delivery \<Rightarrow> bool" where
  "same_drop tenant c day slot code d \<longleftrightarrow>
     dl_tenant d = tenant \<and> dl_customer d = c \<and> dl_date d = day \<and> dl_slot d = slot \<and> dl_product d = code"

text \<open>The second half of \<open>record\<close>: a delivery that nobody generated or typed before.\<close>

definition file_delivery ::
  "env \<Rightarrow> record_delivery_command \<Rightarrow> uuid \<Rightarrow> customer \<Rightarrow> string \<Rightarrow> delivery_plan \<Rightarrow> decimal \<Rightarrow> uuid \<Rightarrow> 'a sales_db_scheme
     \<Rightarrow> (milk_delivery \<times> 'a sales_db_scheme) result" where
  "file_delivery e cmd tenant c code plan qty actor db =
     (let price = (case rd_price cmd of None \<Rightarrow> dp_price plan | Some p \<Rightarrow> p);
          over = rd_price cmd \<noteq> None in
      andthen (delivery_amount (rd_status cmd) qty price None) (\<lambda>a.
      let (i, db1) = new_id db;
          d = \<lparr>dl_id = i, dl_tenant = tenant, dl_customer = cu_id c, dl_date = rd_date cmd, dl_slot = rd_slot cmd,
               dl_product = code, dl_quantity = qty, dl_unit = dp_unit plan, dl_price = price,
               dl_currency = dp_currency plan, dl_amount = a, dl_status = rd_status cmd, dl_notes = rd_notes cmd,
               dl_plan = Some (dp_id plan), dl_source = (if over then Override else FromPlan),
               dl_priced_by = (if over then Some actor else None),
               dl_reason = (if over then rd_reason cmd else None), dl_invoice = None,
               dl_recorded_by = Some actor\<rparr> in
      andthen (stored_delivery d) (\<lambda>row.
      Inr (d, delivery_recorded e d actor
        (audit e ''sales.delivery.recorded'' ''milk_delivery'' i (Some actor)
          ([(''customer'', JStr (cu_code c)), (''date'', JDate (rd_date cmd)), (''slot'', JStr (rd_slot cmd)),
            (''quantity'', JDec qty), (''amount'', JDec a), (''unit_price'', JDec price),
            (''price_source'', JStr (price_source_name (dl_source d)))]
           @ (if over then [(''override_reason'', json_opt JStr (rd_reason cmd))] else []))
          (db1\<lparr>deliveries := deliveries db1 @ [row]\<rparr>))))))"

definition record_delivery ::
  "env \<Rightarrow> record_delivery_command \<Rightarrow> uuid \<Rightarrow> bool \<Rightarrow> 'a sales_db_scheme
     \<Rightarrow> (milk_delivery \<times> 'a sales_db_scheme) result" where
  "record_delivery e cmd actor may_price db =
     andthen (require_current_tenant e) (\<lambda>tenant.
     if rd_price cmd \<noteq> None \<and> \<not> may_price then Inl (ForbiddenError ''sales.delivery.price'')
     else
       andthen (get_customer e db (rd_customer cmd)) (\<lambda>c.
       if cu_status c \<noteq> ''active'' then Inl (ConflictError ''customer is not active'')
       else
         andthen (resolved_product e cmd db) (\<lambda>code.
         andthen (require_active e code db) (\<lambda>_.
         andthen (active_plan e db (cu_id c) code) (\<lambda>found.
         andthen (need (ConflictError ''no active delivery plan for the product'') found) (\<lambda>plan.
         let qty = (case rd_quantity cmd of None \<Rightarrow> dp_quantity plan | Some q \<Rightarrow> q) in
         if qty \<le> 0 \<and> rd_status cmd = DDelivered
           then Inl (ConflictError ''a delivered quantity must be greater than zero'')
         else case find (same_drop tenant (cu_id c) (rd_date cmd) (rd_slot cmd) code) (deliveries db) of
             None \<Rightarrow> file_delivery e cmd tenant c code plan qty actor db
           | Some d \<Rightarrow>
               if dl_status d \<in> set PENDING_STATUSES then confirm_delivery e d cmd actor db
               else Inl (ConflictError ''already has a delivery of the product in that slot'')))))))"

record amend_delivery_command =
  am_quantity :: "decimal option"
  am_status :: "delivery_status option"
  am_notes :: "string option"
  am_price :: "decimal option"
  am_reason :: "string option"
  am_clear :: bool

definition AmendDeliveryCommand ::
  "decimal option \<Rightarrow> string option \<Rightarrow> string option \<Rightarrow> decimal option \<Rightarrow> string option \<Rightarrow> bool
     \<Rightarrow> amend_delivery_command result" where
  "AmendDeliveryCommand qty status notes price reason clear =
     (if (case qty of None \<Rightarrow> False | Some q \<Rightarrow> q < 0) then Inl (ValueError ''quantity'')
      else
        andthen (case status of None \<Rightarrow> Inr None | Some s \<Rightarrow> andthen (known_delivery_status s) (\<lambda>st. Inr (Some st))) (\<lambda>st.
        if \<not> at_most 300 (opt_str notes) \<or> \<not> at_most 300 (opt_str reason) then Inl (ValueError ''notes'')
        else if (case price of None \<Rightarrow> False | Some p \<Rightarrow> p \<le> 0) then Inl (ValueError ''unit_price'')
        else Inr \<lparr>am_quantity = qty, am_status = st, am_notes = notes, am_price = price, am_reason = reason,
                  am_clear = clear\<rparr>))"

definition get_delivery :: "env \<Rightarrow> 'a sales_db_scheme \<Rightarrow> uuid \<Rightarrow> milk_delivery result" where
  "get_delivery e db i =
     andthen (require_current_tenant e) (\<lambda>tenant.
       need (NotFoundError ''delivery not found'')
         (find (\<lambda>d. dl_id d = i \<and> dl_tenant d = tenant) (deliveries db)))"

definition amended_price ::
  "env \<Rightarrow> amend_delivery_command \<Rightarrow> uuid \<Rightarrow> milk_delivery \<Rightarrow> 'a sales_db_scheme \<Rightarrow> milk_delivery result" where
  "amended_price e cmd actor d db =
     (case am_price cmd of
        Some p \<Rightarrow> Inr (d\<lparr>dl_price := p, dl_source := Override, dl_priced_by := Some actor, dl_reason := am_reason cmd\<rparr>)
      | None \<Rightarrow>
          if am_clear cmd \<and> dl_source d = Override then
            andthen (active_plan e db (dl_customer d) (dl_product d)) (\<lambda>found.
            andthen (need (ConflictError ''no active plan to return to'') found) (\<lambda>plan.
            Inr (d\<lparr>dl_price := dp_price plan, dl_source := FromPlan, dl_priced_by := None, dl_reason := None\<rparr>)))
          else Inr d)"

definition amend_delivery ::
  "env \<Rightarrow> uuid \<Rightarrow> amend_delivery_command \<Rightarrow> uuid \<Rightarrow> bool \<Rightarrow> 'a sales_db_scheme
     \<Rightarrow> (milk_delivery \<times> 'a sales_db_scheme) result" where
  "amend_delivery e i cmd actor may_price db =
     andthen (get_delivery e db i) (\<lambda>d.
     if (am_price cmd \<noteq> None \<or> am_clear cmd) \<and> \<not> may_price then Inl (ForbiddenError ''sales.delivery.price'')
     else if dl_invoice d \<noteq> None then Inl (ConflictError ''this delivery is on an invoice'')
     else
       let d1 = d\<lparr>dl_quantity := (case am_quantity cmd of None \<Rightarrow> dl_quantity d | Some q \<Rightarrow> q),
                  dl_status := (case am_status cmd of None \<Rightarrow> dl_status d | Some s \<Rightarrow> s),
                  dl_notes := (case am_notes cmd of None \<Rightarrow> dl_notes d | Some n \<Rightarrow> n)\<rparr> in
       andthen (amended_price e cmd actor d1 db) (\<lambda>d2.
       andthen (delivery_amount (dl_status d2) (dl_quantity d2) (dl_price d2) None) (\<lambda>a.
       let d' = d2\<lparr>dl_amount := a\<rparr> in
       andthen (save_delivery d' db) (\<lambda>db1.
       Inr (d', audit e ''sales.delivery.amended'' ''milk_delivery'' i (Some actor)
         [(''quantity'', JDec (dl_quantity d')), (''status'', JStr (delivery_status_name (dl_status d'))),
          (''unit_price'', JDec (dl_price d')), (''price_source'', JStr (price_source_name (dl_source d')))] db1)))))"

section \<open>The generated round\<close>

definition due_plan :: "uuid \<Rightarrow> date \<Rightarrow> uuid list option \<Rightarrow> string option \<Rightarrow> delivery_plan \<Rightarrow> bool" where
  "due_plan tenant day cs slot p \<longleftrightarrow>
     dp_tenant p = tenant \<and> plan_in_force day p
     \<and> (case dp_paused_from p of
          None \<Rightarrow> True
        | Some f \<Rightarrow> day < f \<or> (case dp_paused_to p of None \<Rightarrow> False | Some t \<Rightarrow> t < day))
     \<and> (case cs of None \<Rightarrow> True | Some l \<Rightarrow> dp_customer p \<in> set l)
     \<and> (case slot of None \<Rightarrow> True | Some s \<Rightarrow> dp_slot p = s)"

text \<open>The query joins each plan with its customer.\<close>

definition due_plans ::
  "uuid \<Rightarrow> date \<Rightarrow> uuid list option \<Rightarrow> string option \<Rightarrow> 'a sales_db_scheme \<Rightarrow> (delivery_plan \<times> string) list" where
  "due_plans tenant day cs slot db =
     concat (map (\<lambda>p. map (\<lambda>c. (p, cu_status c)) (filter (\<lambda>c. cu_id c = dp_customer p) (customers db)))
       (sort_key dp_customer (filter (due_plan tenant day cs slot) (plans db))))"

datatype due_verdict = NotDue | Holiday | Inactive | Candidate decimal

definition judge :: "date \<Rightarrow> (uuid option \<Rightarrow> bool) option \<Rightarrow> delivery_plan \<times> string \<Rightarrow> due_verdict" where
  "judge day is_working pc =
     (case pc of (p, status) \<Rightarrow>
        if \<not> delivers_on_weekday (dp_weekdays p) day then NotDue
        else if (case is_working of None \<Rightarrow> False | Some works \<Rightarrow> \<not> works (dp_center p)) then Holiday
        else if status \<noteq> ''active'' then Inactive
        else
          let q = quantity_for day (dp_quantity p) (dp_overrides p) in
          if q \<le> 0 then NotDue else Candidate q)"

fun candidates ::
  "date \<Rightarrow> (uuid option \<Rightarrow> bool) option \<Rightarrow> (delivery_plan \<times> string) list \<Rightarrow> (delivery_plan \<times> decimal) list" where
  "candidates day is_working [] = []"
| "candidates day is_working (pc # rest) =
     (case judge day is_working pc of
        Candidate q \<Rightarrow> (fst pc, q) # candidates day is_working rest
      | _ \<Rightarrow> candidates day is_working rest)"

definition scheduled_row :: "uuid \<Rightarrow> uuid \<Rightarrow> date \<Rightarrow> uuid option \<Rightarrow> delivery_plan \<Rightarrow> decimal \<Rightarrow> milk_delivery" where
  "scheduled_row i tenant day actor p q =
     \<lparr>dl_id = i, dl_tenant = tenant, dl_customer = dp_customer p, dl_date = day, dl_slot = dp_slot p,
      dl_product = dp_product p, dl_quantity = q, dl_unit = dp_unit p, dl_price = dp_price p,
      dl_currency = dp_currency p, dl_amount = 0, dl_status = DScheduled, dl_notes = [],
      dl_plan = Some (dp_id p), dl_source = FromPlan, dl_priced_by = None, dl_reason = None,
      dl_invoice = None, dl_recorded_by = actor\<rparr>"

text \<open>
  \<open>INSERT ... ON CONFLICT DO NOTHING\<close>, row by row: a row whose customer, date, slot and product are taken
  is dropped. The second component counts the rows inserted.
\<close>

fun insert_ignoring_conflicts ::
  "uuid \<Rightarrow> date \<Rightarrow> uuid option \<Rightarrow> (delivery_plan \<times> decimal) list \<Rightarrow> 'a sales_db_scheme
     \<Rightarrow> (nat \<times> 'a sales_db_scheme) result" where
  "insert_ignoring_conflicts tenant day actor [] db = Inr (0, db)"
| "insert_ignoring_conflicts tenant day actor ((p, q) # rest) db =
     (let (i, db1) = new_id db in
      andthen (stored_delivery (scheduled_row i tenant day actor p q)) (\<lambda>row.
      if list_ex (same_drop tenant (dp_customer p) day (dp_slot p) (dp_product p)) (deliveries db)
        then insert_ignoring_conflicts tenant day actor rest db1
      else
        andthen (insert_ignoring_conflicts tenant day actor rest (db1\<lparr>deliveries := deliveries db1 @ [row]\<rparr>))
          (\<lambda>(n, db2). Inr (Suc n, db2))))"

record generation_result =
  gr_date :: date
  gr_due :: nat
  gr_created :: nat
  gr_present :: nat
  gr_not_due :: nat
  gr_inactive :: nat
  gr_holiday :: nat

definition verdicts :: "due_verdict \<Rightarrow> date \<Rightarrow> (uuid option \<Rightarrow> bool) option \<Rightarrow> (delivery_plan \<times> string) list \<Rightarrow> nat" where
  "verdicts v day is_working ps = length (filter (\<lambda>pc. judge day is_working pc = v) ps)"

definition generate_for_day ::
  "uuid \<Rightarrow> date \<Rightarrow> uuid option \<Rightarrow> (uuid option \<Rightarrow> bool) option \<Rightarrow> uuid list option \<Rightarrow> string option
     \<Rightarrow> 'a sales_db_scheme \<Rightarrow> (generation_result \<times> 'a sales_db_scheme) result" where
  "generate_for_day tenant day actor is_working cs slot db =
     (let ps = due_plans tenant day cs slot db;
          rows = candidates day is_working ps in
      andthen (insert_ignoring_conflicts tenant day actor rows db) (\<lambda>(created, db1).
      Inr (\<lparr>gr_date = day, gr_due = length rows, gr_created = created, gr_present = length rows - created,
            gr_not_due = verdicts NotDue day is_working ps, gr_inactive = verdicts Inactive day is_working ps,
            gr_holiday = verdicts Holiday day is_working ps\<rparr>, db1)))"

definition generate_for_customers ::
  "env \<Rightarrow> date \<Rightarrow> uuid list \<Rightarrow> string \<Rightarrow> uuid \<Rightarrow> (uuid option \<Rightarrow> bool) option \<Rightarrow> string \<Rightarrow> 'a sales_db_scheme
     \<Rightarrow> (generation_result \<times> 'a sales_db_scheme) result" where
  "generate_for_customers e day cs slot actor is_working reference db =
     andthen (require_current_tenant e) (\<lambda>tenant.
     andthen (generate_for_day tenant day (Some actor) is_working (Some cs) (Some slot) db) (\<lambda>(r, db1).
     Inr (r, audit_of e ''sales.delivery.generated_for_route'' ''milk_delivery'' JNull (Some actor)
       [(''date'', JDate day), (''slot'', JStr slot), (''stops'', JInt (int (length (remdups cs)))),
        (''due'', JInt (int (gr_due r))), (''created'', JInt (int (gr_created r))),
        (''already_present'', JInt (int (gr_present r))), (''not_due'', JInt (int (gr_not_due r))),
        (''inactive_customers'', JInt (int (gr_inactive r))), (''skipped_holiday'', JInt (int (gr_holiday r))),
        (''reference'', JStr reference)] db1)))"

definition scheduled_count :: "uuid \<Rightarrow> date \<Rightarrow> 'a sales_db_scheme \<Rightarrow> nat" where
  "scheduled_count tenant day db =
     length (filter (\<lambda>d. dl_tenant d = tenant \<and> dl_date d = day \<and> dl_status d = DScheduled) (deliveries db))"

section \<open>Items\<close>

definition quantised :: "decimal \<Rightarrow> decimal result" where
  "quantised v = quantize ROUND_HALF_UP 3 v"

record record_item_command =
  it_date :: date
  it_code :: string
  it_quantity :: decimal
  it_price :: "decimal option"
  it_notes :: string
  it_key :: "string option"
  it_via :: string

definition RecordItemCommand ::
  "date \<Rightarrow> string \<Rightarrow> decimal \<Rightarrow> decimal option \<Rightarrow> string \<Rightarrow> string option \<Rightarrow> string \<Rightarrow> record_item_command result" where
  "RecordItemCommand day code qty price notes key via =
     (if code = [] \<or> \<not> at_most 40 code then Inl (ValueError ''product_code'')
      else if qty \<le> 0 then Inl (ValueError ''quantity'')
      else if (case price of None \<Rightarrow> False | Some p \<Rightarrow> p < 0) then Inl (ValueError ''unit_price'')
      else if \<not> at_most 300 notes then Inl (ValueError ''notes'')
      else if \<not> at_most 80 (opt_str key) then Inl (ValueError ''idempotency_key'')
      else if via \<noteq> ''portal'' \<and> via \<noteq> ''mobile'' then Inl (ValueError ''recorded_via'')
      else Inr \<lparr>it_date = day, it_code = str_upper (str_strip code), it_quantity = qty, it_price = price,
                it_notes = notes, it_key = key, it_via = via\<rparr>)"

definition item_customer :: "env \<Rightarrow> 'a sales_db_scheme \<Rightarrow> uuid \<Rightarrow> customer result" where
  "item_customer e db i =
     andthen (require_current_tenant e) (\<lambda>tenant.
     case row_get cu_id i (customers db) of
       None \<Rightarrow> Inl (NotFoundError ''customer not found'')
     | Some c \<Rightarrow> if cu_tenant c \<noteq> tenant then Inl (NotFoundError ''customer not found'') else Inr c)"

definition item_price :: "record_item_command \<Rightarrow> bool \<Rightarrow> product \<Rightarrow> string \<Rightarrow> decimal result" where
  "item_price cmd may_price p cur =
     (if it_price cmd \<noteq> None \<and> \<not> may_price then Inl (ForbiddenError ''sales.item.price'')
      else case it_price cmd of
          Some x \<Rightarrow> quantize_money x (Some cur)
        | None \<Rightarrow>
            (case pd_price p of
               Some x \<Rightarrow> quantize_money x (Some cur)
             | None \<Rightarrow> Inl (ConflictError ''the product has no price in the catalogue'')))"

definition file_item ::
  "env \<Rightarrow> customer \<Rightarrow> record_item_command \<Rightarrow> product \<Rightarrow> decimal \<Rightarrow> decimal \<Rightarrow> decimal \<Rightarrow> uuid \<Rightarrow> 'a sales_db_scheme
     \<Rightarrow> (sale_item \<times> 'a sales_db_scheme) result" where
  "file_item e c cmd p qty price a actor db =
     andthen (numeric 12 3 qty) (\<lambda>q'.
     andthen (numeric 12 2 price) (\<lambda>p'.
     andthen (numeric 16 2 a) (\<lambda>a'.
     andthen (column_text 8 (pd_unit p)) (\<lambda>unit.
     if it_key cmd \<noteq> None \<and> list_ex (\<lambda>x. si_tenant x = cu_tenant c \<and> si_key x = it_key cmd) (sale_items db)
       then Inl (IntegrityError ''uq_sale_item_idempotency'')
     else
       let (i, db1) = new_id db;
           x = \<lparr>si_id = i, si_tenant = cu_tenant c, si_customer = cu_id c, si_date = it_date cmd,
                si_product = pd_code p, si_quantity = q', si_unit = unit, si_price = p', si_amount = a',
                si_currency = cu_currency c, si_status = IRecorded, si_notes = str_strip (it_notes cmd),
                si_recorded_by = Some actor, si_via = it_via cmd, si_key = it_key cmd, si_invoice = None,
                si_cancelled_at = None, si_reason = [], si_created_at = now e\<rparr>
       in Inr (x, publish e ''sales.item-recorded.v1''
                 [(''item_id'', JId i), (''customer_id'', JId (cu_id c)), (''sale_date'', JDate (it_date cmd)),
                  (''product'', JStr (pd_code p)), (''quantity'', JDec qty), (''amount'', JDec a),
                  (''currency'', JStr (cu_currency c))] (Some actor) None None
                 (audit e ''sales.item.recorded'' ''sale_item'' i (Some actor)
                   [(''customer'', JStr (cu_code c)), (''date'', JDate (it_date cmd)), (''product'', JStr (pd_code p)),
                    (''quantity'', JDec qty), (''amount'', JDec a),
                    (''priced_by'', JStr (if it_price cmd \<noteq> None then ''caller'' else ''catalogue''))]
                   (db1\<lparr>sale_items := sale_items db1 @ [x]\<rparr>)))))))"

definition record_item ::
  "env \<Rightarrow> uuid \<Rightarrow> record_item_command \<Rightarrow> uuid \<Rightarrow> bool \<Rightarrow> 'a sales_db_scheme \<Rightarrow> (sale_item \<times> 'a sales_db_scheme) result" where
  "record_item e cid cmd actor may_price db =
     andthen (item_customer e db cid) (\<lambda>c.
     if cu_status c \<noteq> ''active'' then Inl (ConflictError ''customer is not active'')
     else case (if opt_str (it_key cmd) = [] then None
                else find (\<lambda>x. si_tenant x = cu_tenant c \<and> si_key x = it_key cmd) (sale_items db)) of
         Some x \<Rightarrow> Inr (x, db)
       | None \<Rightarrow>
           andthen (require_active e (it_code cmd) db) (\<lambda>p.
           andthen (item_price cmd may_price p (cu_currency c)) (\<lambda>price.
           andthen (quantised (it_quantity cmd)) (\<lambda>qty.
           andthen (quantize_money (dec_mul qty price) (Some (cu_currency c))) (\<lambda>a.
           file_item e c cmd p qty price a actor db)))))"

definition CancelItemCommand :: "string \<Rightarrow> string result" where
  "CancelItemCommand reason =
     (if length reason < 3 \<or> \<not> at_most 300 reason then Inl (ValueError ''reason'') else Inr reason)"

definition get_item :: "env \<Rightarrow> 'a sales_db_scheme \<Rightarrow> uuid \<Rightarrow> sale_item result" where
  "get_item e db i =
     andthen (require_current_tenant e) (\<lambda>tenant.
     case row_get si_id i (sale_items db) of
       None \<Rightarrow> Inl (NotFoundError ''item not found'')
     | Some x \<Rightarrow>
         if si_tenant x \<noteq> tenant then Inl (NotFoundError ''item not found'')
         else andthen (enforce_customer_scope e (Some (si_customer x))) (\<lambda>_. Inr x))"

definition cancel_item ::
  "env \<Rightarrow> uuid \<Rightarrow> string \<Rightarrow> uuid \<Rightarrow> 'a sales_db_scheme \<Rightarrow> (sale_item \<times> 'a sales_db_scheme) result" where
  "cancel_item e i reason actor db =
     andthen (get_item e db i) (\<lambda>x.
     if si_invoice x \<noteq> None then Inl (ConflictError ''this item is on an invoice'')
     else if si_status x \<noteq> IRecorded then Inl (ConflictError ''this item has already been cancelled'')
     else
       let x' = x\<lparr>si_status := ICancelled, si_cancelled_at := Some (now e), si_reason := str_strip reason\<rparr> in
       Inr (x', publish e ''sales.item-cancelled.v1''
              [(''item_id'', JId i), (''customer_id'', JId (si_customer x)), (''sale_date'', JDate (si_date x)),
               (''product'', JStr (si_product x)), (''amount'', JDec (si_amount x)), (''reason'', JStr (str_strip reason))]
              (Some actor) None None
              (audit e ''sales.item.cancelled'' ''sale_item'' i (Some actor)
                [(''reason'', JStr (str_strip reason)), (''amount'', JDec (si_amount x))]
                (db\<lparr>sale_items := row_update si_id i (\<lambda>_. x') (sale_items db)\<rparr>))))"

definition unbilled_for_period :: "env \<Rightarrow> uuid \<Rightarrow> date \<Rightarrow> date \<Rightarrow> 'a sales_db_scheme \<Rightarrow> sale_item list result" where
  "unbilled_for_period e c from until db =
     andthen (require_current_tenant e) (\<lambda>tenant.
     Inr (sort_key si_date (sort_key si_created_at
       (filter (\<lambda>x. si_tenant x = tenant \<and> si_customer x = c \<and> from \<le> si_date x \<and> si_date x \<le> until
            \<and> si_status x \<in> set BILLABLE_ITEM_STATUSES \<and> si_invoice x = None) (sale_items db)))))"

end
