(* ===== verification/Billing.thy ===== *)
theory Billing
  imports Deliveries
begin

text \<open>
  The billing service (\<open>modules/billing/service.py\<close>, \<open>month_end.py\<close>): invoices built from deliveries and
  items, money received and how it is allocated, balances and statements, receipts, and the month-end
  drafts.
\<close>

section \<open>Commands\<close>

definition BILLING_METHODS :: "string list" where
  "BILLING_METHODS = [''CASH'', ''UPI'', ''MOBILE_MONEY'', ''BANK_TRANSFER'', ''CHEQUE'']"

record record_customer_payment_command =
  rp_customer :: uuid
  rp_amount :: decimal
  rp_method :: string
  rp_reference :: string
  rp_notes :: string
  rp_invoices :: "uuid list"

definition RecordCustomerPaymentCommand ::
  "uuid \<Rightarrow> decimal \<Rightarrow> string \<Rightarrow> string \<Rightarrow> string \<Rightarrow> uuid list \<Rightarrow> record_customer_payment_command result" where
  "RecordCustomerPaymentCommand c a meth ref notes ids =
     (if a \<le> 0 then Inl (ValueError ''amount'')
      else if meth \<notin> set BILLING_METHODS then Inl (ValueError ''unknown method'')
      else if \<not> at_most 80 ref then Inl (ValueError ''reference'')
      else if \<not> at_most 300 notes then Inl (ValueError ''notes'')
      else Inr \<lparr>rp_customer = c, rp_amount = a, rp_method = meth, rp_reference = ref, rp_notes = notes,
                rp_invoices = ids\<rparr>)"

text \<open>\<open>money\<close> without a currency: two decimals.\<close>

definition money2 :: "decimal \<Rightarrow> decimal result" where
  "money2 x = quantize_money x None"

section \<open>Balances\<close>

definition payable_invoices :: "uuid \<Rightarrow> uuid \<Rightarrow> 'a sales_db_scheme \<Rightarrow> invoice list" where
  "payable_invoices tenant c db =
     filter (\<lambda>v. iv_tenant v = tenant \<and> iv_customer v = c \<and> iv_status v \<in> set PAYABLE_INVOICE_STATUSES) (invoices db)"

definition recorded_payments :: "uuid \<Rightarrow> uuid \<Rightarrow> 'a sales_db_scheme \<Rightarrow> customer_payment list" where
  "recorded_payments tenant c db =
     filter (\<lambda>p. cm_tenant p = tenant \<and> cm_customer p = c \<and> cm_status p = CRecorded) (customer_payments db)"

record customer_balance =
  kb_currency :: string
  kb_invoiced :: decimal
  kb_paid :: decimal
  kb_outstanding :: decimal
  kb_unbilled :: decimal
  kb_unbilled_deliveries :: nat
  kb_unbilled_items :: nat
  kb_open_invoices :: nat

definition customer_balance_of :: "env \<Rightarrow> uuid \<Rightarrow> 'a sales_db_scheme \<Rightarrow> customer_balance result" where
  "customer_balance_of e requested db =
     andthen (require_current_tenant e) (\<lambda>tenant.
     andthen (enforce_customer_scope e (Some requested)) (\<lambda>scope.
     let cid = (case scope of None \<Rightarrow> requested | Some s \<Rightarrow> s) in
     andthen (get_customer e db cid) (\<lambda>c.
     let invoiced = sum_list (map iv_total (payable_invoices tenant cid db));
         paid = sum_list (map cm_amount (recorded_payments tenant cid db));
         ds = filter (\<lambda>d. dl_tenant d = tenant \<and> dl_customer d = cid \<and> dl_status d \<in> set BILLABLE_STATUSES
                       \<and> dl_invoice d = None) (deliveries db);
         xs = filter (\<lambda>x. si_tenant x = tenant \<and> si_customer x = cid \<and> si_status x \<in> set BILLABLE_ITEM_STATUSES
                       \<and> si_invoice x = None) (sale_items db) in
     andthen (money2 invoiced) (\<lambda>i.
     andthen (money2 paid) (\<lambda>p.
     andthen (money2 (dec_sub invoiced paid)) (\<lambda>owed.
     andthen (money2 (dec_add (sum_list (map dl_amount ds)) (sum_list (map si_amount xs)))) (\<lambda>u.
     Inr \<lparr>kb_currency = cu_currency c, kb_invoiced = i, kb_paid = p, kb_outstanding = owed, kb_unbilled = u,
          kb_unbilled_deliveries = length ds, kb_unbilled_items = length xs,
          kb_open_invoices = length (filter (\<lambda>v. iv_status v = VIssued) (payable_invoices tenant cid db))\<rparr>)))))))"

section \<open>Invoices\<close>

datatype bill_source = BDelivery milk_delivery | BItem sale_item

fun bill_date :: "bill_source \<Rightarrow> date" where
  "bill_date (BDelivery d) = dl_date d"
| "bill_date (BItem x) = si_date x"

fun bill_amount :: "bill_source \<Rightarrow> decimal" where
  "bill_amount (BDelivery d) = dl_amount d"
| "bill_amount (BItem x) = si_amount x"

fun source_ref :: "bill_source \<Rightarrow> line_source" where
  "source_ref (BDelivery d) = FromDelivery (dl_id d)"
| "source_ref (BItem x) = FromItem (si_id x)"

definition unbilled_deliveries :: "uuid \<Rightarrow> uuid \<Rightarrow> date \<Rightarrow> date \<Rightarrow> 'a sales_db_scheme \<Rightarrow> milk_delivery list" where
  "unbilled_deliveries tenant c from until db =
     sort_key dl_date (sort_key dl_slot
       (filter (\<lambda>d. dl_tenant d = tenant \<and> dl_customer d = c \<and> from \<le> dl_date d \<and> dl_date d \<le> until
            \<and> dl_status d \<in> set BILLABLE_STATUSES \<and> dl_invoice d = None) (deliveries db)))"

text \<open>In date order, the milk before the items of a date.\<close>

definition bill_order :: "milk_delivery list \<Rightarrow> sale_item list \<Rightarrow> bill_source list" where
  "bill_order ds xs = sort_key bill_date (map BDelivery ds @ map BItem xs)"

text \<open>The line copies its source; every figure is already at the digits of its column.\<close>

fun line_of :: "uuid \<Rightarrow> uuid \<Rightarrow> uuid \<Rightarrow> bill_source \<Rightarrow> invoice_line" where
  "line_of i tenant iid (BDelivery d) =
     \<lparr>il_id = i, il_tenant = tenant, il_invoice = iid, il_source = FromDelivery (dl_id d), il_date = dl_date d,
      il_slot = dl_slot d, il_product = dl_product d, il_quantity = dl_quantity d, il_unit = dl_unit d,
      il_price = dl_price d, il_amount = dl_amount d, il_price_source = dl_source d\<rparr>"
| "line_of i tenant iid (BItem x) =
     \<lparr>il_id = i, il_tenant = tenant, il_invoice = iid, il_source = FromItem (si_id x), il_date = si_date x,
      il_slot = [], il_product = si_product x, il_quantity = si_quantity x, il_unit = si_unit x,
      il_price = si_price x, il_amount = si_amount x, il_price_source = FromPlan\<rparr>"

fun stamp :: "uuid option \<Rightarrow> line_source \<Rightarrow> 'a sales_db_scheme \<Rightarrow> 'a sales_db_scheme" where
  "stamp iid (FromDelivery i) db = db\<lparr>deliveries := row_update dl_id i (\<lambda>d. d\<lparr>dl_invoice := iid\<rparr>) (deliveries db)\<rparr>"
| "stamp iid (FromItem i) db = db\<lparr>sale_items := row_update si_id i (\<lambda>x. x\<lparr>si_invoice := iid\<rparr>) (sale_items db)\<rparr>"

fun add_invoice_lines ::
  "uuid \<Rightarrow> uuid \<Rightarrow> bill_source list \<Rightarrow> 'a sales_db_scheme \<Rightarrow> 'a sales_db_scheme result" where
  "add_invoice_lines tenant iid [] db = Inr db"
| "add_invoice_lines tenant iid (s # ss) db =
     (if list_ex (\<lambda>l. il_tenant l = tenant \<and> il_source l = source_ref s) (invoice_lines db)
        then Inl (IntegrityError ''uq_invoice_line'')
      else
        let (i, db1) = new_id db in
        add_invoice_lines tenant iid ss
          (stamp (Some iid) (source_ref s) (db1\<lparr>invoice_lines := invoice_lines db1 @ [line_of i tenant iid s]\<rparr>)))"

definition live_invoice_for :: "uuid \<Rightarrow> uuid \<Rightarrow> date \<Rightarrow> date \<Rightarrow> invoice \<Rightarrow> bool" where
  "live_invoice_for tenant c from until v \<longleftrightarrow> iv_tenant v = tenant \<and> iv_customer v = c \<and> iv_from v = from
     \<and> iv_to v = until \<and> iv_status v \<noteq> VCancelled"

text \<open>The row of a new invoice: the sums are taken in the decimal context.\<close>

definition invoice_row ::
  "uuid \<Rightarrow> uuid \<Rightarrow> customer \<Rightarrow> string \<Rightarrow> date \<Rightarrow> date \<Rightarrow> decimal \<Rightarrow> bill_source list \<Rightarrow> invoice result" where
  "invoice_row i tenant c number from until previous bill =
     (let subtotal = dec_sum 0 (map bill_amount bill) in
      andthen (numeric 16 2 previous) (\<lambda>prev.
      andthen (money2 subtotal) (\<lambda>sub.
      andthen (money2 (dec_add subtotal 0)) (\<lambda>total.
      andthen (money2 (dec_add total prev)) (\<lambda>due.
      andthen (numeric 16 2 sub) (\<lambda>sub'.
      andthen (numeric 16 2 total) (\<lambda>total'.
      andthen (numeric 16 2 due) (\<lambda>due'.
      Inr \<lparr>iv_id = i, iv_tenant = tenant, iv_customer = cu_id c, iv_number = number, iv_from = from, iv_to = until,
           iv_currency = cu_currency c, iv_subtotal = sub', iv_adjustments = 0, iv_total = total',
           iv_previous = prev, iv_due = due', iv_status = VDraft, iv_lines = length bill,
           iv_issued_at = None, iv_cancelled_at = None\<rparr>))))))))"

text \<open>The second half of \<open>generate_invoice\<close>, once there is something to bill.\<close>

definition file_invoice ::
  "env \<Rightarrow> uuid \<Rightarrow> customer \<Rightarrow> date \<Rightarrow> date \<Rightarrow> bill_source list \<Rightarrow> uuid option \<Rightarrow> 'a sales_db_scheme
     \<Rightarrow> (invoice \<times> 'a sales_db_scheme) result" where
  "file_invoice e tenant c from until bill actor db =
     andthen (customer_balance_of e (cu_id c) db) (\<lambda>b.
     let (number, db1) = next_document_number e tenant ''customer_invoice'' ''INV'' db;
         (i, db2) = new_id db1 in
     andthen (add_invoice_lines tenant i bill db2) (\<lambda>db3.
     andthen (invoice_row i tenant c number from until (kb_outstanding b) bill) (\<lambda>v.
     Inr (v, audit e ''sales.invoice.generated'' ''customer_invoice'' i actor
               [(''customer'', JStr (cu_code c)), (''invoice'', JStr number), (''lines'', JInt (int (iv_lines v))),
                (''total'', JDec (iv_total v))]
               (db3\<lparr>invoices := invoices db3 @ [v]\<rparr>)))))"

definition generate_invoice ::
  "env \<Rightarrow> uuid \<Rightarrow> date \<Rightarrow> date \<Rightarrow> uuid option \<Rightarrow> 'a sales_db_scheme \<Rightarrow> (invoice \<times> 'a sales_db_scheme) result" where
  "generate_invoice e cid from until actor db =
     andthen (require_current_tenant e) (\<lambda>tenant.
     if until < from then Inl (ConflictError ''the period ends before it begins'')
     else
       andthen (assert_period_open db tenant until) (\<lambda>_.
       andthen (get_customer e db cid) (\<lambda>c.
       if list_ex (live_invoice_for tenant (cu_id c) from until) (invoices db)
         then Inl (ConflictError ''already has invoice'')
       else
         andthen (unbilled_for_period e (cu_id c) from until db) (\<lambda>xs.
         let ds = unbilled_deliveries tenant (cu_id c) from until db in
         if ds = [] \<and> xs = [] then Inl (ConflictError ''no unbilled deliveries or items in this period'')
         else file_invoice e tenant c from until (bill_order ds xs) actor db))))"

definition get_invoice :: "env \<Rightarrow> 'a sales_db_scheme \<Rightarrow> uuid \<Rightarrow> invoice result" where
  "get_invoice e db i =
     andthen (require_current_tenant e) (\<lambda>tenant.
       need (NotFoundError ''invoice not found'')
         (find (\<lambda>v. iv_id v = i \<and> iv_tenant v = tenant) (invoices db)))"

definition lines_of_invoice :: "uuid \<Rightarrow> 'a sales_db_scheme \<Rightarrow> invoice_line list" where
  "lines_of_invoice i db = filter (\<lambda>l. il_invoice l = i) (invoice_lines db)"

definition put_invoice :: "invoice \<Rightarrow> 'a sales_db_scheme \<Rightarrow> 'a sales_db_scheme" where
  "put_invoice v db = db\<lparr>invoices := row_update iv_id (iv_id v) (\<lambda>_. v) (invoices db)\<rparr>"

definition sum_invoice_quantity :: "invoice_line list \<Rightarrow> decimal \<times> string" where
  "sum_invoice_quantity ls =
     (case remdups (map il_unit ls) of
        [u] \<Rightarrow> (dec_sum 0 (map il_quantity ls), u)
      | _ \<Rightarrow> (0, []))"

definition issue_invoice ::
  "env \<Rightarrow> uuid \<Rightarrow> uuid \<Rightarrow> 'a sales_db_scheme \<Rightarrow> (invoice \<times> 'a sales_db_scheme) result" where
  "issue_invoice e i actor db =
     andthen (get_invoice e db i) (\<lambda>v.
     if iv_status v \<noteq> VDraft then Inl (ConflictError ''only a draft invoice can be issued'')
     else if iv_lines v = 0 then Inl (ConflictError ''cannot issue an invoice with no lines'')
     else
       andthen (assert_period_open db (iv_tenant v) (iv_to v)) (\<lambda>_.
       andthen (money2 (sum_list (map il_amount (lines_of_invoice i db)))) (\<lambda>lines_total.
       if lines_total \<noteq> iv_subtotal v then Inl (ConflictError ''invoice totals no longer match the lines'')
       else
         let v' = v\<lparr>iv_status := VIssued, iv_issued_at := Some (now e)\<rparr> in
         andthen (get_customer e db (iv_customer v)) (\<lambda>c.
         let (qty, unit) = sum_invoice_quantity (lines_of_invoice i db) in
         Inr (v', publish e ''sales.invoice-issued.v1''
           [(''invoice_id'', JId i), (''customer_id'', JId (iv_customer v)), (''invoice_number'', JStr (iv_number v)),
            (''amount_due'', JDec (iv_due v)), (''currency'', JStr (iv_currency v)), (''period_from'', JDate (iv_from v)),
            (''period_to'', JDate (iv_to v)), (''total'', JDec (iv_total v)), (''customer_name'', JStr (cu_name c)),
            (''phone'', JStr (cu_phone c)), (''previous_balance'', JDec (iv_previous v)), (''quantity'', JDec qty),
            (''quantity_unit'', JStr unit)] (Some actor) None None
           (audit e ''sales.invoice.issued'' ''customer_invoice'' i (Some actor)
             [(''invoice'', JStr (iv_number v)), (''amount_due'', JDec (iv_due v))] (put_invoice v' db)))))))"

record issue_line =
  ib_invoice :: uuid
  ib_due :: decimal
  ib_reason :: "error option"

fun is_conflict :: "error \<Rightarrow> bool" where
  "is_conflict (ConflictError m) = True"
| "is_conflict _ = False"

text \<open>Each draft is issued inside a savepoint: a conflict leaves the state as it was before that draft.\<close>

fun issue_each ::
  "env \<Rightarrow> uuid \<Rightarrow> bool \<Rightarrow> invoice list \<Rightarrow> decimal \<Rightarrow> 'a sales_db_scheme
     \<Rightarrow> (issue_line list \<times> issue_line list \<times> decimal \<times> 'a sales_db_scheme) result" where
  "issue_each e actor preview [] acc db = Inr ([], [], acc, db)"
| "issue_each e actor preview (v # vs) acc db =
     (let issued = (\<lambda>db'. andthen (issue_each e actor preview vs (dec_add acc (iv_due v)) db') (\<lambda>(is, sk, t, db'').
            Inr (\<lparr>ib_invoice = iv_id v, ib_due = iv_due v, ib_reason = None\<rparr> # is, sk, t, db'')));
          skipped = (\<lambda>why. andthen (issue_each e actor preview vs acc db) (\<lambda>(is, sk, t, db').
            Inr (is, \<lparr>ib_invoice = iv_id v, ib_due = iv_due v, ib_reason = Some why\<rparr> # sk, t, db'))) in
      if preview then (if iv_lines v = 0 then skipped (ConflictError ''no lines'') else issued db)
      else case issue_invoice e (iv_id v) actor db of
          Inl err \<Rightarrow> if is_conflict err then skipped err else Inl err
        | Inr (_, db') \<Rightarrow> issued db')"

definition issue_batch ::
  "env \<Rightarrow> date \<Rightarrow> date \<Rightarrow> uuid \<Rightarrow> bool \<Rightarrow> 'a sales_db_scheme
     \<Rightarrow> ((issue_line list \<times> issue_line list \<times> decimal) \<times> 'a sales_db_scheme) result" where
  "issue_batch e from until actor preview db =
     andthen (require_current_tenant e) (\<lambda>tenant.
     let drafts = sort_key iv_number (filter (\<lambda>v. iv_tenant v = tenant \<and> iv_status v = VDraft \<and> from \<le> iv_from v
                    \<and> iv_to v \<le> until) (invoices db)) in
     andthen (issue_each e actor preview drafts 0 db) (\<lambda>(is, sk, t, db1).
     andthen (money2 t) (\<lambda>total. Inr ((is, sk, total), db1))))"

definition release_lines :: "invoice_line list \<Rightarrow> 'a sales_db_scheme \<Rightarrow> 'a sales_db_scheme" where
  "release_lines ls db =
     fold (\<lambda>l d. let d1 = stamp None (il_source l) d in
                 d1\<lparr>invoice_lines := row_delete il_id (il_id l) (invoice_lines d1)\<rparr>) ls db"

definition cancel_invoice ::
  "env \<Rightarrow> uuid \<Rightarrow> string \<Rightarrow> uuid \<Rightarrow> 'a sales_db_scheme \<Rightarrow> (invoice \<times> 'a sales_db_scheme) result" where
  "cancel_invoice e i reason actor db =
     andthen (get_invoice e db i) (\<lambda>v.
     if iv_status v \<noteq> VDraft then Inl (ConflictError ''only a draft invoice can be cancelled'')
     else
       andthen (assert_period_open db (iv_tenant v) (iv_to v)) (\<lambda>_.
       let db1 = release_lines (lines_of_invoice i db) db;
           v' = v\<lparr>iv_lines := 0, iv_status := VCancelled, iv_cancelled_at := Some (now e)\<rparr> in
       Inr (v', audit e ''sales.invoice.cancelled'' ''customer_invoice'' i (Some actor)
                  [(''invoice'', JStr (iv_number v)), (''reason'', JStr reason)] (put_invoice v' db1))))"

section \<open>Money received\<close>

definition allocated_to :: "uuid \<Rightarrow> 'a sales_db_scheme \<Rightarrow> decimal" where
  "allocated_to i db =
     sum_list (map ap_amount (filter (\<lambda>a. ap_invoice a = i
       \<and> list_ex (\<lambda>p. cm_id p = ap_payment a \<and> cm_status p = CRecorded) (customer_payments db)) (allocations db)))"

definition invoice_outstanding :: "invoice \<Rightarrow> 'a sales_db_scheme \<Rightarrow> decimal result" where
  "invoice_outstanding v db = money2 (dec_sub (iv_total v) (allocated_to (iv_id v) db))"

definition invoices_to_settle :: "uuid \<Rightarrow> uuid \<Rightarrow> uuid list \<Rightarrow> 'a sales_db_scheme \<Rightarrow> invoice list" where
  "invoices_to_settle tenant c ids db =
     sort_key iv_from (filter (\<lambda>v. ids = [] \<or> iv_id v \<in> set ids) (payable_invoices tenant c db))"

text \<open>
  Oldest first. The loop returns the numbers of the invoices that received a portion; what is left over
  stays credit on the account.
\<close>

fun apply_payment ::
  "customer_payment \<Rightarrow> decimal \<Rightarrow> invoice list \<Rightarrow> 'a sales_db_scheme \<Rightarrow> (string list \<times> 'a sales_db_scheme) result" where
  "apply_payment p remaining [] db = Inr ([], db)"
| "apply_payment p remaining (v # vs) db =
     (if remaining \<le> 0 then Inr ([], db)
      else
        andthen (invoice_outstanding v db) (\<lambda>outstanding.
        if outstanding \<le> 0 then apply_payment p remaining vs db
        else
          let portion = min remaining outstanding;
              (i, db1) = new_id db in
          andthen (money2 portion) (\<lambda>m.
          andthen (numeric 16 2 m) (\<lambda>a.
          let row = \<lparr>ap_id = i, ap_tenant = cm_tenant p, ap_payment = cm_id p, ap_invoice = iv_id v,
                     ap_number = iv_number v, ap_amount = a\<rparr>;
              db2 = db1\<lparr>allocations := allocations db1 @ [row]\<rparr>;
              db3 = (if outstanding \<le> portion then put_invoice (v\<lparr>iv_status := VPaid\<rparr>) db2 else db2) in
          andthen (apply_payment p (dec_sub remaining portion) vs db3) (\<lambda>(ns, db4).
          Inr (iv_number v # ns, db4))))))"

definition record_customer_payment ::
  "env \<Rightarrow> record_customer_payment_command \<Rightarrow> uuid \<Rightarrow> 'a sales_db_scheme \<Rightarrow> (customer_payment \<times> 'a sales_db_scheme) result" where
  "record_customer_payment e cmd actor db =
     andthen (require_current_tenant e) (\<lambda>tenant.
     andthen (assert_period_open db tenant (business_today e (tenant_timezone e db (Some tenant)))) (\<lambda>_.
     andthen (get_customer e db (rp_customer cmd)) (\<lambda>c.
     let targets = invoices_to_settle tenant (cu_id c) (rp_invoices cmd) db;
         (number, db1) = next_document_number e tenant ''customer_payment'' ''CPY'' db;
         (i, db2) = new_id db1 in
     andthen (money2 (rp_amount cmd)) (\<lambda>m.
     andthen (numeric 16 2 m) (\<lambda>a.
     let p = \<lparr>cm_id = i, cm_tenant = tenant, cm_customer = cu_id c, cm_number = number, cm_amount = a,
              cm_currency = cu_currency c, cm_method = rp_method cmd, cm_reference = rp_reference cmd,
              cm_status = CRecorded, cm_notes = rp_notes cmd, cm_received_at = now e, cm_recorded_by = Some actor\<rparr> in
     andthen (apply_payment p a targets (db2\<lparr>customer_payments := customer_payments db2 @ [p]\<rparr>)) (\<lambda>(ns, db3).
     Inr (p, publish e ''sales.customer-payment-recorded.v1''
       [(''payment_id'', JId i), (''payment_number'', JStr number), (''customer_id'', JId (cu_id c)),
        (''customer_name'', JStr (cu_name c)), (''customer_code'', JStr (cu_code c)), (''amount'', JDec a),
        (''currency'', JStr (cu_currency c)), (''method'', JStr (rp_method cmd)),
        (''reference'', JStr (rp_reference cmd)), (''applied_to'', JStr (str_join '', '' ns))] (Some actor) None None
       (audit e ''sales.payment.recorded'' ''customer_payment'' i (Some actor)
         [(''customer'', JStr (cu_code c)), (''payment'', JStr number), (''amount'', JDec a),
          (''applied_to'', JList (map JStr ns))] db3))))))))"

section \<open>What a bill and a statement show\<close>

record invoice_detail =
  vd_invoice :: invoice
  vd_lines :: "invoice_line list"
  vd_paid :: decimal
  vd_outstanding :: decimal
  vd_totals_match :: bool

fun is_item_line :: "line_source \<Rightarrow> nat" where
  "is_item_line (FromDelivery i) = 0"
| "is_item_line (FromItem i) = 1"

definition invoice_detail_of :: "env \<Rightarrow> uuid \<Rightarrow> 'a sales_db_scheme \<Rightarrow> invoice_detail result" where
  "invoice_detail_of e i db =
     andthen (get_invoice e db i) (\<lambda>v.
     andthen (enforce_customer_scope e (Some (iv_customer v))) (\<lambda>_.
     let ls = sort_key il_date (sort_key (\<lambda>l. is_item_line (il_source l)) (sort_key il_slot (lines_of_invoice i db))) in
     andthen (money2 (dec_sum 0 (map il_amount ls))) (\<lambda>lines_total.
     andthen (invoice_outstanding v db) (\<lambda>out.
     andthen (money2 (dec_sub (iv_total v) out)) (\<lambda>paid.
     Inr \<lparr>vd_invoice = v, vd_lines = ls, vd_paid = paid, vd_outstanding = out,
          vd_totals_match = (lines_total = iv_subtotal v)\<rparr>)))))"

datatype entry_kind = EInvoice | EPayment

record statement_entry =
  se_date :: date
  se_kind :: entry_kind
  se_reference :: string
  se_debit :: decimal
  se_credit :: decimal
  se_balance :: decimal
  se_receipt :: "string option"

record statement =
  sm_customer :: uuid
  sm_from :: date
  sm_to :: date
  sm_opening :: decimal
  sm_billed :: decimal
  sm_paid :: decimal
  sm_closing :: decimal
  sm_quantity :: decimal
  sm_unit :: string
  sm_items_amount :: decimal
  sm_items_count :: nat
  sm_entries :: "statement_entry list"

fun stamped_before :: "datetime \<Rightarrow> datetime option \<Rightarrow> bool" where
  "stamped_before t None = False"
| "stamped_before t (Some s) = (s < t)"

fun stamped_within :: "datetime \<Rightarrow> datetime \<Rightarrow> datetime option \<Rightarrow> bool" where
  "stamped_within a b None = False"
| "stamped_within a b (Some s) = (a \<le> s \<and> s < b)"

definition invoice_entry :: "env \<Rightarrow> string \<Rightarrow> invoice \<Rightarrow> statement_entry result" where
  "invoice_entry e tz v =
     andthen (money2 (iv_total v)) (\<lambda>m.
     Inr \<lparr>se_date = business_date_of e (case iv_issued_at v of None \<Rightarrow> 0 | Some t \<Rightarrow> t) tz, se_kind = EInvoice,
          se_reference = iv_number v, se_debit = m, se_credit = 0, se_balance = 0, se_receipt = None\<rparr>)"

definition payment_entry :: "env \<Rightarrow> string \<Rightarrow> 'a sales_db_scheme \<Rightarrow> customer_payment \<Rightarrow> statement_entry result" where
  "payment_entry e tz db p =
     andthen (money2 (cm_amount p)) (\<lambda>m.
     Inr \<lparr>se_date = business_date_of e (cm_received_at p) tz, se_kind = EPayment,
          se_reference = cm_number p, se_debit = 0, se_credit = m, se_balance = 0,
          se_receipt = map_option cv_number
            (find (\<lambda>r. cv_tenant r = cm_tenant p \<and> cv_payment r = cm_id p) (customer_receipts db))\<rparr>)"

fun map_result :: "('a \<Rightarrow> 'b result) \<Rightarrow> 'a list \<Rightarrow> 'b list result" where
  "map_result f [] = Inr []"
| "map_result f (x # xs) = andthen (f x) (\<lambda>y. andthen (map_result f xs) (\<lambda>ys. Inr (y # ys)))"

text \<open>By day, a bill before the money of the same day, then by reference.\<close>

definition statement_order :: "statement_entry list \<Rightarrow> statement_entry list" where
  "statement_order es =
     sort_key se_date (sort_key (\<lambda>m. case se_kind m of EInvoice \<Rightarrow> (0 :: nat) | EPayment \<Rightarrow> 1) (sort_key se_reference es))"

text \<open>The running balance, rounded after each line; with it what was billed and paid so far.\<close>

fun run_balance ::
  "decimal \<Rightarrow> decimal \<Rightarrow> decimal \<Rightarrow> statement_entry list
     \<Rightarrow> (statement_entry list \<times> decimal \<times> decimal \<times> decimal) result" where
  "run_balance running billed paid [] = Inr ([], running, billed, paid)"
| "run_balance running billed paid (m # ms) =
     andthen (money2 (dec_sub (dec_add running (se_debit m)) (se_credit m))) (\<lambda>r.
     andthen (run_balance r (dec_add billed (se_debit m)) (dec_add paid (se_credit m)) ms) (\<lambda>(es, closing, b, p).
     Inr (m\<lparr>se_balance := r\<rparr> # es, closing, b, p)))"

definition least_unit :: "string list \<Rightarrow> string" where
  "least_unit us = (case us of [] \<Rightarrow> ''L'' | u # rest \<Rightarrow> or_else (fold min rest u) ''L'')"

text \<open>The milk and the items behind the money of a window.\<close>

definition window_goods ::
  "uuid \<Rightarrow> uuid \<Rightarrow> date \<Rightarrow> date \<Rightarrow> 'a sales_db_scheme \<Rightarrow> (decimal \<times> string \<times> decimal \<times> nat) result" where
  "window_goods tenant cid from until db =
     (let ds = filter (\<lambda>d. dl_tenant d = tenant \<and> dl_customer d = cid \<and> dl_status d \<in> set BILLABLE_STATUSES
                 \<and> from \<le> dl_date d \<and> dl_date d \<le> until) (deliveries db);
          xs = filter (\<lambda>x. si_tenant x = tenant \<and> si_customer x = cid \<and> si_status x \<in> set BILLABLE_ITEM_STATUSES
                 \<and> from \<le> si_date x \<and> si_date x \<le> until) (sale_items db) in
      andthen (quantize ROUND_HALF_EVEN 3 (sum_list (map dl_quantity ds))) (\<lambda>q.
      andthen (money2 (sum_list (map si_amount xs))) (\<lambda>a.
      Inr (q, least_unit (map dl_unit ds), a, length xs))))"

definition customer_statement ::
  "env \<Rightarrow> uuid \<Rightarrow> date option \<Rightarrow> date option \<Rightarrow> 'a sales_db_scheme \<Rightarrow> statement result" where
  "customer_statement e requested date_from date_to db =
     andthen (require_current_tenant e) (\<lambda>tenant.
     andthen (enforce_customer_scope e (Some requested)) (\<lambda>scope.
     let cid = (case scope of None \<Rightarrow> requested | Some s \<Rightarrow> s) in
     andthen (get_customer e db cid) (\<lambda>c.
     let tz = tenant_timezone e db None;
         today = business_today e tz;
         from = (case date_from of None \<Rightarrow> fst (month_bounds today) | Some d \<Rightarrow> d);
         until = (case date_to of None \<Rightarrow> today | Some d \<Rightarrow> d) in
     if until < from then Inl (ConflictError ''the statement ends before it begins'')
     else
       let (a, b) = range_bounds e from until tz;
           vs = payable_invoices tenant cid db;
           ps = recorded_payments tenant cid db in
       andthen (money2 (dec_sub (sum_list (map iv_total (filter (\<lambda>v. stamped_before a (iv_issued_at v)) vs)))
                                (sum_list (map cm_amount (filter (\<lambda>p. cm_received_at p < a) ps))))) (\<lambda>opening.
       andthen (window_goods tenant cid from until db) (\<lambda>(qty, unit, items, count).
       andthen (map_result (invoice_entry e tz) (filter (\<lambda>v. stamped_within a b (iv_issued_at v)) vs)) (\<lambda>ves.
       andthen (map_result (payment_entry e tz db) (filter (\<lambda>p. a \<le> cm_received_at p \<and> cm_received_at p < b) ps)) (\<lambda>pes.
       andthen (run_balance opening 0 0 (statement_order (ves @ pes))) (\<lambda>(entries, closing, billed, paid).
       andthen (money2 billed) (\<lambda>billed'.
       andthen (money2 paid) (\<lambda>paid'.
       Inr \<lparr>sm_customer = cu_id c, sm_from = from, sm_to = until, sm_opening = opening, sm_billed = billed',
            sm_paid = paid', sm_closing = closing, sm_quantity = qty, sm_unit = unit, sm_items_amount = items,
            sm_items_count = count, sm_entries = entries\<rparr>))))))))))"

section \<open>Receipts\<close>

fun json_text :: "json option \<Rightarrow> string \<Rightarrow> string" where
  "json_text (Some (JStr s)) d = s"
| "json_text _ d = d"

definition payload_text :: "payload \<Rightarrow> string \<Rightarrow> string \<Rightarrow> string" where
  "payload_text data k d = json_text (map_of data k) d"

definition payload_id :: "payload \<Rightarrow> string \<Rightarrow> uuid result" where
  "payload_id data k = (case map_of data k of Some (JId i) \<Rightarrow> Inr i | _ \<Rightarrow> Inl (ValueError ''badly formed identifier''))"

definition payload_decimal :: "payload \<Rightarrow> string \<Rightarrow> decimal result" where
  "payload_decimal data k =
     (case Option.bind (map_of data k) decimal_of_json of Some x \<Rightarrow> Inr x | None \<Rightarrow> Inl InvalidOperation)"

definition generate_receipt ::
  "env \<Rightarrow> uuid \<Rightarrow> uuid \<Rightarrow> payload \<Rightarrow> uuid option \<Rightarrow> 'a sales_db_scheme \<Rightarrow> (customer_receipt \<times> 'a sales_db_scheme) result" where
  "generate_receipt e tenant pid data event db =
     (case find (\<lambda>r. cv_tenant r = tenant \<and> cv_payment r = pid) (customer_receipts db) of
        Some r \<Rightarrow> Inr (r, db)
      | None \<Rightarrow>
          let (number, db1) = next_document_number e tenant ''customer_receipt'' ''CRC'' db;
              (i, db2) = new_id db1 in
          andthen (payload_id data ''customer_id'') (\<lambda>cid.
          andthen (payload_decimal data ''amount'') (\<lambda>a.
          andthen (if payload_text data ''currency'' [] = [] then tenant_currency e db None
                   else Inr (payload_text data ''currency'' [])) (\<lambda>cur.
          andthen (numeric 16 2 a) (\<lambda>a'.
          andthen (column_text 300 (payload_text data ''applied_to'' [])) (\<lambda>applied.
          let r = \<lparr>cv_id = i, cv_tenant = tenant, cv_number = number, cv_payment = pid,
                   cv_payment_number = payload_text data ''payment_number'' [], cv_customer = cid,
                   cv_name = payload_text data ''customer_name'' [], cv_code = payload_text data ''customer_code'' [],
                   cv_amount = a', cv_currency = cur, cv_method = payload_text data ''method'' ''CASH'',
                   cv_reference = payload_text data ''reference'' [], cv_applied_to = applied, cv_event = event,
                   cv_generated_at = now e\<rparr>
          in Inr (r, db2\<lparr>customer_receipts := customer_receipts db2 @ [r]\<rparr>)))))))"

section \<open>Month end\<close>

record drafting_result =
  dr_from :: date
  dr_to :: date
  dr_customers :: nat
  dr_drafted :: nat
  dr_billed :: nat
  dr_nothing :: nat

text \<open>A refusal with a conflict or a missing row is counted, every other error ends the run.\<close>

fun counts_as_skipped :: "error \<Rightarrow> bool" where
  "counts_as_skipped (ConflictError m) = True"
| "counts_as_skipped (NotFoundError m) = True"
| "counts_as_skipped _ = False"

fun draft_each ::
  "env \<Rightarrow> date \<Rightarrow> date \<Rightarrow> uuid option \<Rightarrow> uuid list \<Rightarrow> 'a sales_db_scheme
     \<Rightarrow> (invoice list \<times> error list \<times> 'a sales_db_scheme) result" where
  "draft_each e from until actor [] db = Inr ([], [], db)"
| "draft_each e from until actor (c # cs) db =
     (case generate_invoice e c from until actor db of
        Inr (v, db1) \<Rightarrow> andthen (draft_each e from until actor cs db1) (\<lambda>(vs, errs, db2). Inr (v # vs, errs, db2))
      | Inl err \<Rightarrow>
          if counts_as_skipped err
            then andthen (draft_each e from until actor cs db) (\<lambda>(vs, errs, db2). Inr (vs, err # errs, db2))
          else Inl err)"

definition draft_month_end ::
  "env \<Rightarrow> uuid \<Rightarrow> string \<Rightarrow> uuid option \<Rightarrow> (date \<times> date) option \<Rightarrow> 'a sales_db_scheme
     \<Rightarrow> (drafting_result \<times> 'a sales_db_scheme) result" where
  "draft_month_end e tenant tz actor period db =
     (let (from, until) = (case period of Some p \<Rightarrow> p | None \<Rightarrow> previous_month_bounds (business_today e tz));
          cs = map cu_id (filter (\<lambda>c. cu_tenant c = tenant \<and> cu_status c = ''active'') (customers db));
          billed = ConflictError ''already has invoice'' in
      andthen (draft_each e from until actor cs db) (\<lambda>(vs, errs, db1).
      Inr (\<lparr>dr_from = from, dr_to = until, dr_customers = length cs, dr_drafted = length vs,
            dr_billed = length (filter (\<lambda>x. x = billed) errs),
            dr_nothing = length (filter (\<lambda>x. x \<noteq> billed) errs)\<rparr>, db1)))"

end
