(* ===== verification/SalesSteps.thy ===== *)
theory SalesSteps
  imports Billing
begin

text \<open>
  What the tables of the selling side keep under the operations on products, customers, standing orders,
  deliveries and items. The bills come in BillingSteps.
\<close>

lemma map_filter_row_put:
  assumes "unique_keys key rows" and "r \<in> set rows" and "g r' = g r" and "P r' = P r"
  shows "map g (filter P (row_update key (key r) (\<lambda>_. r') rows)) = map g (filter P rows)"
proof -
  obtain as bs where "rows = as @ r # bs" "row_update key (key r) (\<lambda>_. r') rows = as @ r' # bs"
    using row_put_split [OF assms(1,2), of r'] by metis
  then show ?thesis using assms(3,4) by simp
qed

section \<open>The rows\<close>

definition product_ok :: "product \<Rightarrow> bool" where
  "product_ok p \<longleftrightarrow> (case pd_price p of None \<Rightarrow> True | Some x \<Rightarrow> 0 \<le> x)"

definition catalogue_ok :: "uuid \<Rightarrow> product list \<Rightarrow> bool" where
  "catalogue_ok n ps \<longleftrightarrow> table_ok pd_id n product_ok ps \<and> unique_keys (\<lambda>p. (pd_tenant p, pd_code p)) ps"

definition customers_ok :: "uuid \<Rightarrow> customer list \<Rightarrow> bool" where
  "customers_ok n cs \<longleftrightarrow> table_ok cu_id n (\<lambda>_. True) cs"

definition plan_key :: "delivery_plan \<Rightarrow> uuid \<times> uuid \<times> string \<times> string" where
  "plan_key p = (dp_tenant p, dp_customer p, dp_product p, dp_slot p)"

definition plan_ok :: "delivery_plan \<Rightarrow> bool" where
  "plan_ok p \<longleftrightarrow> good_mask (dp_weekdays p) \<and> 0 \<le> dp_quantity p \<and> 0 \<le> dp_price p"

text \<open>A customer has at most one active standing order for a product and slot.\<close>

definition plans_ok :: "uuid \<Rightarrow> delivery_plan list \<Rightarrow> bool" where
  "plans_ok n ps \<longleftrightarrow> table_ok dp_id n plan_ok ps \<and> unique_keys plan_key (filter dp_active ps)"

definition drop_key :: "milk_delivery \<Rightarrow> uuid \<times> uuid \<times> date \<times> string \<times> string" where
  "drop_key d = (dl_tenant d, dl_customer d, dl_date d, dl_slot d, dl_product d)"

text \<open>Only a delivery that happened is worth money, and only such a delivery is on a bill.\<close>

definition delivery_ok :: "milk_delivery \<Rightarrow> bool" where
  "delivery_ok d \<longleftrightarrow> 0 \<le> dl_quantity d \<and> 0 \<le> dl_price d \<and> is_amount (dl_amount d)
     \<and> (dl_status d \<noteq> DDelivered \<longrightarrow> dl_amount d = 0 \<and> dl_invoice d = None)"

definition deliveries_ok :: "uuid \<Rightarrow> milk_delivery list \<Rightarrow> bool" where
  "deliveries_ok n ds \<longleftrightarrow> table_ok dl_id n delivery_ok ds \<and> unique_keys drop_key ds"

definition item_ok :: "sale_item \<Rightarrow> bool" where
  "item_ok x \<longleftrightarrow> is_amount (si_amount x) \<and> (si_status x = ICancelled \<longrightarrow> si_invoice x = None)"

definition items_ok :: "uuid \<Rightarrow> sale_item list \<Rightarrow> bool" where
  "items_ok n xs \<longleftrightarrow> table_ok si_id n item_ok xs
     \<and> unique_keys (\<lambda>x. (si_tenant x, si_key x)) (filter (\<lambda>x. si_key x \<noteq> None) xs)"

definition stock_inv :: "'a sales_db_scheme \<Rightarrow> bool" where
  "stock_inv db \<longleftrightarrow> catalogue_ok (next_id db) (products db) \<and> customers_ok (next_id db) (customers db)
     \<and> plans_ok (next_id db) (plans db) \<and> deliveries_ok (next_id db) (deliveries db)
     \<and> items_ok (next_id db) (sale_items db)"

lemma stock_invD:
  assumes "stock_inv db"
  shows "catalogue_ok (next_id db) (products db)" "customers_ok (next_id db) (customers db)"
    "plans_ok (next_id db) (plans db)" "deliveries_ok (next_id db) (deliveries db)"
    "items_ok (next_id db) (sale_items db)"
  using assms unfolding stock_inv_def by blast+

lemma ok_mono:
  "n \<le> n' \<Longrightarrow> catalogue_ok n ps \<Longrightarrow> catalogue_ok n' ps" "n \<le> n' \<Longrightarrow> customers_ok n cs \<Longrightarrow> customers_ok n' cs"
  "n \<le> n' \<Longrightarrow> plans_ok n qs \<Longrightarrow> plans_ok n' qs" "n \<le> n' \<Longrightarrow> deliveries_ok n ds \<Longrightarrow> deliveries_ok n' ds"
  "n \<le> n' \<Longrightarrow> items_ok n xs \<Longrightarrow> items_ok n' xs"
  unfolding catalogue_ok_def customers_ok_def plans_ok_def deliveries_ok_def items_ok_def
  using table_ok_mono by metis+

lemma stock_inv_mono:
  "stock_inv db \<Longrightarrow> next_id db \<le> next_id db' \<Longrightarrow> products db' = products db \<Longrightarrow> customers db' = customers db
    \<Longrightarrow> plans db' = plans db \<Longrightarrow> deliveries db' = deliveries db \<Longrightarrow> sale_items db' = sale_items db \<Longrightarrow> stock_inv db'"
  unfolding stock_inv_def by (auto intro: ok_mono)

section \<open>Products\<close>

lemma quantize_price_nonneg:
  "stored_price pr cur = Inr q \<Longrightarrow> (\<And>x. pr = Some x \<Longrightarrow> 0 \<le> x) \<Longrightarrow> (case q of None \<Rightarrow> True | Some x \<Rightarrow> 0 \<le> x)"
  by (auto simp: stored_price_def result_simps split: option.splits dest: numeric_nonneg quantize_money_Inr(2))

lemma unique_code_free: "unique_code name taken m = Inr c \<Longrightarrow> \<not> taken c"
  by (auto simp: unique_code_def Let_def simp del: upt_rec_numeral split: if_splits option.splits dest: find_SomeD)

lemma product_code_free: "product_code cmd taken = Inr c \<Longrightarrow> \<not> taken c"
  by (auto simp: product_code_def split: option.splits if_splits dest: unique_code_free)

lemma find_product_None: "find_product t c db = None \<longleftrightarrow> (t, c) \<notin> (\<lambda>p. (pd_tenant p, pd_code p)) ` set (products db)"
  by (auto simp: find_product_def find_None_ball)

lemma products_append:
  assumes "catalogue_ok n ps" and "pd_id p = n" and "product_ok p" and "n < n'"
    and "(pd_tenant p, pd_code p) \<notin> (\<lambda>p. (pd_tenant p, pd_code p)) ` set ps"
  shows "catalogue_ok n' (ps @ [p])"
  using assms table_ok_append [of pd_id n product_ok ps p n'] unique_keys_append_fresh [of _ ps p]
  unfolding catalogue_ok_def by blast

lemma create_product_stock:
  assumes "stock_inv db" and "CreateProductCommand co nm un pr ord = Inr cmd" and "create_product e cmd a db = Inr (p, db')"
  shows "stock_inv db'"
proof -
  have k: "product_code cmd (\<lambda>c. find_product (pd_tenant p) c db \<noteq> None) = Inr (pd_code p)"
    and c: "\<exists>cur. stored_price (xp_price cmd) cur = Inr (pd_price p)" "pd_id p = next_id db"
    and d: "products db' = products db @ [p]" "next_id db' = Suc (next_id db)" "customers db' = customers db"
      "plans db' = plans db" "deliveries db' = deliveries db" "sale_items db' = sale_items db"
    using assms(3) by (auto simp: create_product_def result_simps Let_def new_id_eq require_current_tenant_def)
  have "\<And>x. xp_price cmd = Some x \<Longrightarrow> 0 \<le> x"
    using assms(2) by (auto simp: CreateProductCommand_def result_simps split: if_splits)
  then have "product_ok p" using c(1) quantize_price_nonneg unfolding product_ok_def by blast
  then have "catalogue_ok (Suc (next_id db)) (products db @ [p])"
    using stock_invD(1) [OF assms(1)] c product_code_free [OF k]
    by (intro products_append [of "next_id db"]) (auto simp: find_product_None)
  then show ?thesis using stock_invD [OF assms(1)] unfolding stock_inv_def d by (auto intro: ok_mono [of "next_id db"])
qed

lemma update_product_stock:
  assumes "stock_inv db" and "UpdateProductCommand nm un pr cl ac ord = Inr cmd" and "update_product e i cmd a db = Inr (p', db')"
  shows "stock_inv db'"
proof -
  obtain p where p: "p \<in> set (products db)" "pd_id p = i" and "\<exists>ch. changed_product cmd p = Inr (p', ch)"
    and d: "products db' = row_update pd_id (pd_id p) (\<lambda>_. p') (products db)" "next_id db' = next_id db" "customers db' = customers db"
      "plans db' = plans db" "deliveries db' = deliveries db" "sale_items db' = sale_items db"
    using assms(3) by (auto simp: update_product_def get_product_def result_simps Let_def split: option.splits if_splits
        dest!: row_get_SomeD)
  then have q: "pd_id p' = pd_id p" "pd_tenant p' = pd_tenant p" "pd_code p' = pd_code p"
      "pd_price p' = None \<or> pd_price p' = pd_price p
        \<or> (\<exists>x c. xu_price cmd = Some x \<and> stored_price (Some x) c = Inr (pd_price p'))"
    by (auto simp: changed_product_def Let_def result_simps split: if_splits option.splits)
  have "\<And>x. xu_price cmd = Some x \<Longrightarrow> 0 \<le> x"
    using assms(2) by (auto simp: UpdateProductCommand_def result_simps split: option.splits if_splits)
  moreover have "product_ok p" using stock_invD(1) [OF assms(1)] p(1) table_okD(3) unfolding catalogue_ok_def by metis
  ultimately have "product_ok p'"
    using q(4) quantize_price_nonneg [of "xu_price cmd" _ "pd_price p'"] by (auto simp: product_ok_def)
  then have "catalogue_ok (next_id db) (row_update pd_id (pd_id p) (\<lambda>_. p') (products db))"
    using stock_invD(1) [OF assms(1)] p q table_ok_put [of pd_id "next_id db" product_ok "products db" p p']
      unique_keys_row_put [of pd_id "products db" p "\<lambda>p. (pd_tenant p, pd_code p)" p'] table_okD(1)
    unfolding catalogue_ok_def by metis
  then show ?thesis using stock_invD [OF assms(1)] unfolding stock_inv_def d by blast
qed

lemma ensure_product_stock:
  assumes "stock_inv db"
  shows "stock_inv (snd (ensure_product t c nm un cur ord db))"
proof (cases "find_product t c db")
  case None
  let ?p = "\<lparr>pd_id = next_id db, pd_tenant = t, pd_code = c, pd_name = nm, pd_unit = un, pd_price = None,
    pd_currency = cur, pd_active = True, pd_order = ord\<rparr>"
  have "catalogue_ok (Suc (next_id db)) (products db @ [?p])"
    using stock_invD(1) [OF assms] None by (intro products_append [of "next_id db"]) (auto simp: find_product_None product_ok_def)
  then show ?thesis using stock_invD [OF assms] None
    by (auto simp: ensure_product_def new_id_eq Let_def stock_inv_def intro: ok_mono [of "next_id db"])
qed (use assms in \<open>simp add: ensure_product_def\<close>)

lemma seed_stock: "stock_inv db \<Longrightarrow> stock_inv (snd (seed_new_organisation t cur db))"
  by (simp add: seed_new_organisation_def ensure_product_stock)

section \<open>Standing orders\<close>

definition built_plan :: "plan_input \<Rightarrow> bool" where
  "built_plan np \<longleftrightarrow> (\<exists>a b c d f g h i j k. DeliveryPlanInput a b c d f g h i j k = Inr np)"

definition built_customer :: "create_customer_command \<Rightarrow> bool" where
  "built_customer cmd \<longleftrightarrow> (\<exists>c. CreateCustomerCommand c = Inr cmd) \<and> (\<forall>np. nc_plan cmd = Some np \<longrightarrow> built_plan np)"

lemma built_planD: "built_plan np \<Longrightarrow> good_mask (np_weekdays np) \<and> 0 \<le> np_quantity np \<and> 0 < np_price np"
  by (auto simp: built_plan_def DeliveryPlanInput_def result_simps dest: normalise_weekdays_good)

lemma superseded_active:
  "filter dp_active (map (\<lambda>p. if superseded t c k s p then p\<lparr>dp_active := False\<rparr> else p) ps)
     = filter (\<lambda>p. plan_key p \<noteq> (t, c, k, s)) (filter dp_active ps)"
  by (induction ps) (auto simp: superseded_def plan_key_def)

lemma supersede_plans_ok:
  assumes "plans_ok n (plans db)"
  shows "plans_ok n (plans (supersede_plans t c k s db))"
proof -
  have p: "plans (supersede_plans t c k s db)
      = map (\<lambda>p. if superseded t c k s p then p\<lparr>dp_active := False\<rparr> else p) (plans db)"
    by (simp add: supersede_plans_def)
  have "table_ok dp_id n plan_ok (plans (supersede_plans t c k s db))"
    using assms unfolding plans_ok_def p by (auto simp: plan_ok_def intro!: table_ok_map)
  moreover have "unique_keys plan_key (filter dp_active (plans (supersede_plans t c k s db)))"
    using assms unfolding plans_ok_def p superseded_active by (blast intro: unique_keys_filter)
  ultimately show ?thesis by (simp add: plans_ok_def)
qed

lemma supersede_tables [simp]:
  "next_id (supersede_plans t c k s db) = next_id db" "products (supersede_plans t c k s db) = products db"
  "customers (supersede_plans t c k s db) = customers db" "deliveries (supersede_plans t c k s db) = deliveries db"
  "sale_items (supersede_plans t c k s db) = sale_items db" "invoices (supersede_plans t c k s db) = invoices db"
  "invoice_lines (supersede_plans t c k s db) = invoice_lines db" "sequences (supersede_plans t c k s db) = sequences db"
  "customer_payments (supersede_plans t c k s db) = customer_payments db"
  "allocations (supersede_plans t c k s db) = allocations db"
  "customer_receipts (supersede_plans t c k s db) = customer_receipts db"
  by (simp_all add: supersede_plans_def)

lemma plan_row_Inr:
  assumes "plan_row i t c np code un fr a = Inr row" and "built_plan np"
  shows "dp_id row = i" "plan_key row = (t, cu_id c, code, np_slot np)" "plan_ok row" "dp_active row"
  using assms(1) built_planD [OF assms(2)]
  by (auto simp: plan_row_def result_simps plan_key_def plan_ok_def dest: numeric_nonneg)

text \<open>How \<open>set_plan\<close> can end, with the state it leaves.\<close>

definition other_sales :: "'a sales_db_scheme \<Rightarrow> 'a sales_db_scheme \<Rightarrow> bool" where
  "other_sales db db' \<longleftrightarrow> products db' = products db \<and> deliveries db' = deliveries db \<and> sale_items db' = sale_items db
     \<and> invoices db' = invoices db \<and> invoice_lines db' = invoice_lines db
     \<and> customer_payments db' = customer_payments db \<and> allocations db' = allocations db
     \<and> customer_receipts db' = customer_receipts db \<and> next_id db \<le> next_id db'"

lemma get_customer_Inr:
  "get_customer e db i = Inr c \<Longrightarrow> c \<in> set (customers db) \<and> cu_id c = i \<and> current_tenant e = Some (cu_tenant c)"
  by (auto simp: get_customer_def result_simps require_current_tenant_def dest: find_SomeD)

lemma set_plan_raw_Inl:
  assumes "set_plan_raw e cid np a db = (Inl err, db')"
  shows "(plans db' = plans db \<or> (\<exists>t k. plans db' = plans (supersede_plans t cid k (np_slot np) db)))
    \<and> customers db' = customers db \<and> sequences db' = sequences db \<and> other_sales db db'"
proof (cases "andthen (get_customer e db cid) (\<lambda>c. andthen (plan_product e np db) (\<lambda>pd. Inr (c, pd)))")
  case (Inr cp)
  obtain c pd where "cp = (c, pd)" by (cases cp)
  then have "plans db' = plans (supersede_plans (cu_tenant c) cid (pd_code pd) (np_slot np) db)
      \<and> customers db' = customers db \<and> sequences db' = sequences db \<and> other_sales db db'"
    using assms Inr by (auto simp: set_plan_raw_def Let_def new_id_eq other_sales_def split: sum.splits if_splits)
  then show ?thesis by blast
qed (use assms in \<open>simp add: set_plan_raw_def other_sales_def\<close>)

lemma set_plan_raw_Inr:
  assumes "set_plan_raw e cid np a db = (Inr row, db')"
  obtains c pd where "get_customer e db cid = Inr c" "plan_product e np db = Inr pd"
    "plan_row (next_id db) (cu_tenant c) c np (pd_code pd) (or_else (opt_str (np_unit np)) (pd_unit pd))
       (plan_start e np db) a = Inr row"
    "plans db' = plans (supersede_plans (cu_tenant c) cid (pd_code pd) (np_slot np) db) @ [row]"
    "next_id db' = Suc (next_id db)" "customers db' = customers db" "sequences db' = sequences db" "other_sales db db'"
proof (cases "andthen (get_customer e db cid) (\<lambda>c. andthen (plan_product e np db) (\<lambda>pd. Inr (c, pd)))")
  case (Inr cp)
  obtain c pd where "cp = (c, pd)" by (cases cp)
  then show thesis
    using assms Inr that [of c pd]
    by (auto simp: set_plan_raw_def Let_def new_id_eq other_sales_def andthen_eq_Inr split: sum.splits if_splits)
qed (use assms in \<open>simp add: set_plan_raw_def\<close>)

lemma other_sales_stock:
  assumes "stock_inv db" and "other_sales db db'" and "customers_ok (next_id db') (customers db')"
    and "plans_ok (next_id db') (plans db')"
  shows "stock_inv db'"
  using stock_invD [OF assms(1)] assms(2-) unfolding stock_inv_def other_sales_def by (metis ok_mono)

lemma set_plan_raw_stock:
  assumes "stock_inv db" and "built_plan np" and "set_plan_raw e cid np a db = (r, db')"
  shows "stock_inv db'"
proof (cases r)
  case (Inl err)
  note x = set_plan_raw_Inl [OF assms(3) [unfolded Inl]]
  then have n: "next_id db \<le> next_id db'" by (simp add: other_sales_def)
  have "plans_ok (next_id db) (plans db')"
    using x stock_invD(3) [OF assms(1)] supersede_plans_ok by metis
  then show ?thesis
    using x ok_mono(3) [OF n] ok_mono(2) [OF n stock_invD(2) [OF assms(1)]] by (intro other_sales_stock [OF assms(1)]) auto
next
  case (Inr row)
  obtain c :: customer and pd :: product where g: "get_customer e db cid = Inr c"
    and pr: "plan_row (next_id db) (cu_tenant c) c np (pd_code pd) (or_else (opt_str (np_unit np)) (pd_unit pd))
       (plan_start e np db) a = Inr row"
    and d: "plans db' = plans (supersede_plans (cu_tenant c) cid (pd_code pd) (np_slot np) db) @ [row]"
      "next_id db' = Suc (next_id db)" "customers db' = customers db" "other_sales db db'"
    by (rule set_plan_raw_Inr [OF assms(3) [unfolded Inr]]) (rule that)
  note r = plan_row_Inr [OF pr assms(2)]
  let ?ps = "plans (supersede_plans (cu_tenant c) cid (pd_code pd) (np_slot np) db)"
  have "plans_ok (next_id db) ?ps" using stock_invD(3) [OF assms(1)] by (rule supersede_plans_ok)
  moreover have "plan_key row \<notin> plan_key ` set (filter dp_active ?ps)"
    using get_customer_Inr [OF g] by (auto simp: r supersede_plans_def superseded_active)
  ultimately have "plans_ok (Suc (next_id db)) (?ps @ [row])"
    using r table_ok_append [of dp_id "next_id db" plan_ok ?ps row] unique_keys_append_fresh [of plan_key "filter dp_active ?ps" row]
    by (simp add: plans_ok_def)
  then show ?thesis
    using d ok_mono(2) [of "next_id db", OF _ stock_invD(2) [OF assms(1)]] by (intro other_sales_stock [OF assms(1)]) auto
qed

lemma committed_Inr: "committed p = Inr (r, db') \<longleftrightarrow> p = (Inr r, db')"
  by (auto simp: committed_def split: prod.splits sum.splits)

lemma set_plan_stock: "stock_inv db \<Longrightarrow> built_plan np \<Longrightarrow> set_plan e cid np a db = Inr (r, db') \<Longrightarrow> stock_inv db'"
  unfolding set_plan_def committed_Inr by (rule set_plan_raw_stock)

section \<open>Customers\<close>

lemma next_document_number_sales:
  assumes "next_document_number e t dt px db = (k, db')"
  shows "next_id db' = next_id db" "products db' = products db" "customers db' = customers db" "plans db' = plans db"
    "deliveries db' = deliveries db" "sale_items db' = sale_items db" "invoices db' = invoices db"
    "invoice_lines db' = invoice_lines db" "customer_payments db' = customer_payments db" "allocations db' = allocations db"
    "customer_receipts db' = customer_receipts db"
  using assms by (auto elim: next_document_number_eq)

lemma add_customer_stock:
  assumes "stock_inv db" and "cu_id c = next_id db"
  shows "stock_inv (db\<lparr>next_id := Suc (next_id db), customers := customers db @ [c]\<rparr>)"
  using stock_invD [OF assms(1)] assms(2) table_ok_append [of cu_id "next_id db" "\<lambda>_. True" "customers db" c "Suc (next_id db)"]
  by (auto simp: stock_inv_def customers_ok_def intro: ok_mono [of "next_id db"])

lemma stock_inv_same:
  "stock_inv db \<Longrightarrow> next_id db' = next_id db \<Longrightarrow> products db' = products db \<Longrightarrow> customers db' = customers db
    \<Longrightarrow> plans db' = plans db \<Longrightarrow> deliveries db' = deliveries db \<Longrightarrow> sale_items db' = sale_items db \<Longrightarrow> stock_inv db'"
  by (auto simp: stock_inv_def)

lemma register_customer_stock:
  assumes "stock_inv db" and "register_customer e cmd t db = (r, db')"
  shows "stock_inv db'"
proof -
  obtain k db1 where n: "next_document_number e t ''customer'' ''CUS'' db = (k, db1)" by fastforce
  have s1: "stock_inv db1"
    using next_document_number_sales [OF n] by (intro stock_inv_same [OF assms(1)])
  then have "stock_inv (db1\<lparr>next_id := Suc (next_id db1), customers := customers db1 @ [c]\<rparr>)" if "cu_id c = next_id db1" for c
    using that by (rule add_customer_stock)
  then show ?thesis
    using assms(2) s1 by (auto simp: register_customer_def n Let_def new_id_eq split: sum.splits)
qed

lemma stock_inv_audit [simp]: "stock_inv (audit e n t i a d db) = stock_inv db"
  by (simp add: stock_inv_def)

lemma create_customer_raw_stock:
  assumes "stock_inv db" and "built_customer cmd" and "create_customer_raw e cmd a db = (r, db')"
  shows "stock_inv db'"
proof (cases "require_current_tenant e")
  case (Inr t)
  obtain r1 db1 where n: "register_customer e cmd t db = (r1, db1)" by fastforce
  have s1: "stock_inv db1" by (rule register_customer_stock [OF assms(1) n])
  have "stock_inv db2" if "nc_plan cmd = Some np" "set_plan_raw e i np a db1 = (r2, db2)" for i np r2 db2
    by (rule set_plan_raw_stock [OF s1 _ that(2)]) (use assms(2) that(1) in \<open>simp add: built_customer_def\<close>)
  then show ?thesis
    using assms(3) s1 by (auto simp: create_customer_raw_def Inr n Let_def split: sum.splits option.splits prod.splits)
qed (use assms in \<open>simp add: create_customer_raw_def\<close>)

lemma create_customer_stock:
  "stock_inv db \<Longrightarrow> built_customer cmd \<Longrightarrow> create_customer e cmd a db = Inr (c, db') \<Longrightarrow> stock_inv db'"
  unfolding create_customer_def committed_Inr by (rule create_customer_raw_stock)

lemma import_each_stock:
  assumes "stock_inv db" and "\<And>cmd. Inr cmd \<in> set rows \<Longrightarrow> built_customer cmd" and "import_each e t a n rows db = Inr (rs, db')"
  shows "stock_inv db'"
  using assms
proof (induction rows arbitrary: n db rs)
  case (Cons row rows)
  obtain r db1 where o: "import_one e t row a db = (r, db1)" by fastforce
  have "stock_inv db1"
  proof (cases row)
    case (Inr cmd)
    then have "built_customer cmd" using Cons.prems(2) by simp
    then show ?thesis
      using o Inr Cons.prems(1) create_customer_raw_stock [of db cmd e a r db1] by (auto simp: import_one_def split: if_splits)
  qed (use o Cons.prems(1) in \<open>simp add: import_one_def\<close>)
  moreover have "\<exists>rs'. import_each e t a (Suc n) rows db1 = Inr (rs', db')"
    using Cons.prems(3) o by (auto simp: result_simps split: sum.splits if_splits)
  ultimately show ?case using Cons.IH Cons.prems(2) by (metis list.set_intros(2))
qed simp

lemma import_rows_stock:
  "stock_inv db \<Longrightarrow> (\<And>cmd. Inr cmd \<in> set rows \<Longrightarrow> built_customer cmd) \<Longrightarrow> import_rows e rows a db = Inr (rs, db') \<Longrightarrow> stock_inv db'"
  by (auto simp: import_rows_def result_simps intro: import_each_stock)

lemma put_customer_stock:
  assumes "stock_inv db" and "c \<in> set (customers db)" and "cu_id c' = cu_id c"
  shows "stock_inv (put_customer c' db)"
  using stock_invD [OF assms(1)] assms(2,3) table_ok_put [of cu_id "next_id db" "\<lambda>_. True" "customers db" c c']
  by (simp add: stock_inv_def customers_ok_def put_customer_def)

lemma update_customer_stock:
  "stock_inv db \<Longrightarrow> update_customer e i cmd a db = Inr (c, db') \<Longrightarrow> stock_inv db'"
  by (auto simp: update_customer_def result_simps Let_def intro!: put_customer_stock dest!: get_customer_Inr)

lemma set_status_stock:
  "stock_inv db \<Longrightarrow> set_status e i st a db = Inr (c, db') \<Longrightarrow> stock_inv db'"
  by (auto simp: set_status_def result_simps Let_def intro!: put_customer_stock dest!: get_customer_Inr)

section \<open>Rates and holidays\<close>

lemma repriced_built: "repriced_input p pr fr = Inr np \<Longrightarrow> built_plan np"
  unfolding repriced_input_def built_plan_def by blast

lemma reprice_plans_stock:
  "stock_inv db \<Longrightarrow> reprice_plans e cmd fr a c ps db = Inr (ch, sk, db') \<Longrightarrow> stock_inv db'"
proof (induction ps arbitrary: db ch sk)
  case (Cons p ps)
  show ?case
  proof (cases "paused_on p fr \<or> dp_price p = rg_price cmd")
    case True
    then obtain ch' sk' where "reprice_plans e cmd fr a c ps db = Inr (ch', sk', db')"
      using Cons.prems(2) by (auto simp: andthen_eq_Inr split: if_splits)
    then show ?thesis using Cons.IH Cons.prems(1) by blast
  next
    case False
    then obtain db1 ch' sk' where x: "(if rg_preview cmd then Inr db
          else andthen (repriced_input p (rg_price cmd) fr) (\<lambda>np. andthen (set_plan e c np a db) (\<lambda>(_, db'). Inr db'))) = Inr db1"
      and "reprice_plans e cmd fr a c ps db1 = Inr (ch', sk', db')"
      using Cons.prems(2) by (auto simp: andthen_eq_Inr simp del: if_Inl_eq_Inr if_Inr_Inl_eq_Inr)
    moreover have "stock_inv db1"
      using x Cons.prems(1) set_plan_stock repriced_built by (fastforce simp: andthen_eq_Inr split: if_splits)
    ultimately show ?thesis using Cons.IH by blast
  qed
qed simp

lemma reprice_customers_stock:
  "stock_inv db \<Longrightarrow> reprice_customers e cmd fr a ts db = Inr (ch, sk, db') \<Longrightarrow> stock_inv db'"
proof (induction ts arbitrary: db ch sk)
  case (Cons t ts)
  obtain c who ps where t: "t = (c, who, ps)" by (cases t)
  obtain ch1 sk1 db1 ch2 sk2 where r: "reprice_customer e cmd fr a who c ps db = Inr (ch1, sk1, db1)"
      "reprice_customers e cmd fr a ts db1 = Inr (ch2, sk2, db')"
    using Cons.prems(2) by (auto simp: t result_simps)
  have "stock_inv db1"
    using r(1) Cons.prems(1) reprice_plans_stock
    by (fastforce simp: reprice_customer_def Let_def split: option.splits if_splits)
  then show ?case using Cons.IH r(2) by blast
qed simp

lemma change_rates_stock:
  assumes "stock_inv db" and "change_rates e cmd a db = Inr (ch, sk, db')"
  shows "stock_inv db'"
proof -
  obtain fr t db1 where "reprice_customers e cmd fr a (rate_targets t cmd db) db = Inr (ch, sk, db1)"
      and d: "db' = db1 \<or> (\<exists>n t' i a' x. db' = audit_of e n t' i a' x db1)"
    using assms(2) by (fastforce simp: change_rates_def result_simps Let_def)
  then have "stock_inv db1" using reprice_customers_stock [OF assms(1)] by blast
  then show ?thesis using d by (auto simp: stock_inv_def)
qed

lemma put_plan_stock:
  assumes "stock_inv db" and "p \<in> set (plans db)" and "dp_id p' = dp_id p" and "plan_key p' = plan_key p"
    and "plan_ok p \<longrightarrow> plan_ok p'" and "dp_active p' = dp_active p"
  shows "stock_inv (put_plan p' db)"
proof -
  have r: "table_ok dp_id (next_id db) plan_ok (plans db)" and u: "unique_keys plan_key (filter dp_active (plans db))"
    using stock_invD(3) [OF assms(1)] unfolding plans_ok_def by blast+
  have eq: "map plan_key (filter dp_active (row_update dp_id (dp_id p) (\<lambda>_. p') (plans db)))
      = map plan_key (filter dp_active (plans db))"
    by (rule map_filter_row_put [OF table_okD(1) [OF r] assms(2,4,6)])
  have "plans_ok (next_id db) (row_update dp_id (dp_id p) (\<lambda>_. p') (plans db))"
    using table_ok_put [OF r assms(2,3)] table_okD(3) [OF r assms(2)] assms(5) u eq
    unfolding plans_ok_def unique_keys_def by simp
  then show ?thesis using stock_invD [OF assms(1)] assms(3) by (simp add: stock_inv_def put_plan_def)
qed

lemma get_plan_Inr: "get_plan e db i = Inr p \<Longrightarrow> p \<in> set (plans db) \<and> dp_id p = i"
  by (auto simp: get_plan_def result_simps dest: find_SomeD)

lemma pause_plan_stock: "stock_inv db \<Longrightarrow> pause_plan e i fr un a db = Inr (p, db') \<Longrightarrow> stock_inv db'"
  by (auto simp: pause_plan_def result_simps Let_def plan_key_def plan_ok_def intro!: put_plan_stock dest!: get_plan_Inr)

lemma resume_plan_stock: "stock_inv db \<Longrightarrow> resume_plan e i a db = Inr (p, db') \<Longrightarrow> stock_inv db'"
  by (auto simp: resume_plan_def result_simps Let_def plan_key_def plan_ok_def intro!: put_plan_stock dest!: get_plan_Inr)

section \<open>Deliveries\<close>

definition built_delivery :: "record_delivery_command \<Rightarrow> bool" where
  "built_delivery cmd \<longleftrightarrow> (\<exists>a b c d f g h i j. RecordDeliveryCommand a b c d f g h i j = Inr cmd)"

lemma built_deliveryD:
  assumes "built_delivery cmd"
  shows "rd_quantity cmd = Some q \<Longrightarrow> 0 \<le> q" "rd_price cmd = Some p \<Longrightarrow> 0 < p"
  using assms by (auto simp: built_delivery_def RecordDeliveryCommand_def result_simps split: if_splits)

definition built_amendment :: "amend_delivery_command \<Rightarrow> bool" where
  "built_amendment cmd \<longleftrightarrow> (\<exists>a b c d f g. AmendDeliveryCommand a b c d f g = Inr cmd)"

lemma built_amendmentD:
  assumes "built_amendment cmd"
  shows "am_quantity cmd = Some q \<Longrightarrow> 0 \<le> q" "am_price cmd = Some p \<Longrightarrow> 0 < p"
  using assms by (auto simp: built_amendment_def AmendDeliveryCommand_def result_simps split: if_splits)

lemma delivery_amount_nonneg:
  assumes "delivery_amount st q p c = Inr a" and "0 \<le> q" and "0 \<le> p"
  shows "0 \<le> a" "st \<noteq> DDelivered \<longrightarrow> a = 0"
proof -
  have "0 \<le> dec_mul q p" using assms(2,3) by (simp add: dec_mul_def ctx_nonneg)
  then show "0 \<le> a" "st \<noteq> DDelivered \<longrightarrow> a = 0"
    using assms(1) quantize_money_Inr(2) [of "dec_mul q p" c a]
    by (auto simp: delivery_amount_def BILLABLE_STATUSES_def split: if_splits)
qed

lemma stored_delivery_ok:
  assumes "stored_delivery d = Inr row" and "0 \<le> dl_quantity d" and "0 \<le> dl_price d" and "0 \<le> dl_amount d"
    and "dl_status d \<noteq> DDelivered \<longrightarrow> dl_amount d = 0 \<and> dl_invoice d = None"
  shows "delivery_ok row" "dl_id row = dl_id d" "drop_key row = drop_key d" "dl_invoice row = dl_invoice d"
proof -
  obtain q p a where "row = d\<lparr>dl_quantity := q, dl_price := p, dl_amount := a\<rparr>" "numeric 12 3 (dl_quantity d) = Inr q"
      "numeric 12 4 (dl_price d) = Inr p" "numeric 16 2 (dl_amount d) = Inr a"
    using assms(1) by (auto simp: stored_delivery_def result_simps)
  moreover have "numeric 16 2 0 = Inr 0" by (rule numeric_fits) simp_all
  ultimately show "delivery_ok row" "dl_id row = dl_id d" "drop_key row = drop_key d" "dl_invoice row = dl_invoice d"
    using assms(2-) numeric_nonneg numeric_is_amount by (auto simp: delivery_ok_def drop_key_def)
qed

lemma deliveries_append:
  assumes "deliveries_ok n ds" and "dl_id d = n" and "delivery_ok d" and "n < n'" and "drop_key d \<notin> drop_key ` set ds"
  shows "deliveries_ok n' (ds @ [d])"
  using assms table_ok_append [of dl_id n delivery_ok ds d n'] unique_keys_append_fresh [of drop_key ds d]
  unfolding deliveries_ok_def by blast

lemma deliveries_put:
  assumes "deliveries_ok n ds" and "d \<in> set ds" and "dl_id d' = dl_id d" and "drop_key d' = drop_key d" and "delivery_ok d'"
  shows "deliveries_ok n (row_update dl_id (dl_id d) (\<lambda>_. d') ds)"
  using assms table_ok_put [of dl_id n delivery_ok ds d d'] unique_keys_row_put [of dl_id ds d drop_key d'] table_okD(1)
  unfolding deliveries_ok_def by metis

lemma same_drop_iff: "same_drop t c day s k d \<longleftrightarrow> drop_key d = (t, c, day, s, k)"
  by (auto simp: same_drop_def drop_key_def)

lemma save_delivery_Inr:
  "save_delivery d db = Inr db' \<Longrightarrow> \<exists>row. stored_delivery d = Inr row
     \<and> db' = db\<lparr>deliveries := row_update dl_id (dl_id row) (\<lambda>_. row) (deliveries db)\<rparr>"
  by (auto simp: save_delivery_def result_simps)

lemma put_delivery_stock:
  assumes "stock_inv db" and "d \<in> set (deliveries db)" and "dl_id d' = dl_id d" and "drop_key d' = drop_key d" and "delivery_ok d'"
  shows "stock_inv (db\<lparr>deliveries := row_update dl_id (dl_id d) (\<lambda>_. d') (deliveries db)\<rparr>)"
  using stock_invD [OF assms(1)] deliveries_put [OF _ assms(2-5)] by (simp add: stock_inv_def)

lemma stock_inv_publish [simp]: "stock_inv db \<Longrightarrow> stock_inv (publish e n d a t i db)"
  by (erule stock_inv_mono) simp_all

lemma stock_inv_recorded: "stock_inv db \<Longrightarrow> stock_inv (delivery_recorded e d a db)"
  by (simp add: delivery_recorded_def)

lemma stock_delivery_ok: "stock_inv db \<Longrightarrow> d \<in> set (deliveries db) \<Longrightarrow> delivery_ok d"
  using stock_invD(4) [of db] table_okD(3) [of dl_id "next_id db" delivery_ok "deliveries db" d]
  by (simp add: deliveries_ok_def)

lemma stock_plan_ok: "stock_inv db \<Longrightarrow> p \<in> set (plans db) \<Longrightarrow> plan_ok p"
  using stock_invD(3) [of db] table_okD(3) [of dp_id "next_id db" plan_ok "plans db" p] by (simp add: plans_ok_def)

lemma stock_item_ok: "stock_inv db \<Longrightarrow> x \<in> set (sale_items db) \<Longrightarrow> item_ok x"
  using stock_invD(5) [of db] table_okD(3) [of si_id "next_id db" item_ok "sale_items db" x] by (simp add: items_ok_def)

text \<open>What an operator's confirmation makes of a generated delivery.\<close>

lemma confirmed_Inr:
  assumes "confirmed cmd a d = Inr d'" and "built_delivery cmd" and "delivery_ok d"
  shows "dl_id d' = dl_id d" "drop_key d' = drop_key d" "dl_invoice d' = dl_invoice d" "dl_status d' = rd_status cmd"
    "0 \<le> dl_quantity d'" "0 \<le> dl_price d'" "0 \<le> dl_amount d'" "dl_status d' \<noteq> DDelivered \<longrightarrow> dl_amount d' = 0"
proof -
  have pos: "0 \<le> dl_quantity d" "0 \<le> dl_price d" using assms(3) by (simp_all add: delivery_ok_def)
  define q where "q = (case rd_quantity cmd of None \<Rightarrow> dl_quantity d | Some q \<Rightarrow> q)"
  define d1 where "d1 = d\<lparr>dl_quantity := q, dl_status := rd_status cmd, dl_notes := or_else (rd_notes cmd) (dl_notes d)\<rparr>"
  define d2 where "d2 = (case rd_price cmd of None \<Rightarrow> d1
    | Some p \<Rightarrow> d1\<lparr>dl_price := p, dl_source := Override, dl_priced_by := Some a, dl_reason := rd_reason cmd\<rparr>)"
  have run: "delivery_amount (dl_status d2) q (dl_price d2) (Some (dl_currency d2)) = Inr (dl_amount d')"
      "d' = d2\<lparr>dl_amount := dl_amount d'\<rparr>"
    using assms(1) unfolding confirmed_def Let_def q_def [symmetric] d1_def [symmetric] d2_def [symmetric]
    by (auto simp: andthen_eq_Inr split: if_splits)
  have two: "dl_id d2 = dl_id d" "drop_key d2 = drop_key d" "dl_invoice d2 = dl_invoice d" "dl_status d2 = rd_status cmd"
      "dl_quantity d2 = q"
    by (cases "rd_price cmd"; simp add: d2_def d1_def drop_key_def)+
  have q: "0 \<le> q" using pos(1) built_deliveryD(1) [OF assms(2)] by (cases "rd_quantity cmd") (simp_all add: q_def)
  have p: "0 \<le> dl_price d2"
    using pos(2) built_deliveryD(2) [OF assms(2)] by (cases "rd_price cmd") (simp_all add: d2_def d1_def less_imp_le)
  note amount = delivery_amount_nonneg [OF run(1) q p]
  obtain x where "d' = d2\<lparr>dl_amount := x\<rparr>" "0 \<le> x" "dl_status d2 \<noteq> DDelivered \<longrightarrow> x = 0"
    using run(2) amount by blast
  then show "dl_id d' = dl_id d" "drop_key d' = drop_key d" "dl_invoice d' = dl_invoice d" "dl_status d' = rd_status cmd"
    "0 \<le> dl_quantity d'" "0 \<le> dl_price d'" "0 \<le> dl_amount d'" "dl_status d' \<noteq> DDelivered \<longrightarrow> dl_amount d' = 0"
    using two q p by (simp_all add: drop_key_def)
qed

lemma stock_inv_confirmed:
  "stock_inv db \<Longrightarrow> stock_inv (delivery_recorded e d a (audit e n t i w x db))"
  by (rule stock_inv_recorded) (erule stock_inv_mono; simp)

lemma confirm_delivery_stock:
  assumes "stock_inv db" and "built_delivery cmd" and "d \<in> set (deliveries db)" and "dl_invoice d = None"
    and "confirm_delivery e d cmd a db = Inr (r, db')"
  shows "stock_inv db'"
proof -
  obtain db1 n t i w x where c: "confirmed cmd a d = Inr r" and s: "save_delivery r db = Inr db1"
      and d: "db' = delivery_recorded e r a (audit e n t i w x db1)"
    using assms(5) unfolding confirm_delivery_def andthen_eq_Inr by blast
  note f = confirmed_Inr [OF c assms(2) stock_delivery_ok [OF assms(1,3)]]
  obtain row where row: "stored_delivery r = Inr row" "db1 = db\<lparr>deliveries := row_update dl_id (dl_id row) (\<lambda>_. row) (deliveries db)\<rparr>"
    using save_delivery_Inr [OF s] by blast
  have ok: "delivery_ok row" "dl_id row = dl_id d" "drop_key row = drop_key d"
    using stored_delivery_ok [OF row(1) f(5-7)] f assms(4) by simp_all
  have "stock_inv db1"
    unfolding row(2) ok(2) by (rule put_delivery_stock [OF assms(1,3) ok(2,3,1)])
  then show ?thesis unfolding d by (rule stock_inv_confirmed)
qed

text \<open>What is filed: one new row.\<close>

lemma file_delivery_frame:
  assumes "file_delivery e cmd t c k plan q a db = Inr (d, db')"
  shows "\<exists>row. stored_delivery d = Inr row \<and> deliveries db' = deliveries db @ [row]"
    and "next_id db < next_id db'" "products db' = products db" "customers db' = customers db"
      "plans db' = plans db" "sale_items db' = sale_items db"
    and "dl_id d = next_id db" "drop_key d = (t, cu_id c, rd_date cmd, rd_slot cmd, k)" "dl_invoice d = None"
      "dl_quantity d = q" "dl_price d = (case rd_price cmd of None \<Rightarrow> dp_price plan | Some p \<Rightarrow> p)"
      "delivery_amount (dl_status d) q (dl_price d) None = Inr (dl_amount d)"
  using assms
  by (auto simp: file_delivery_def Let_def new_id_eq andthen_eq_Inr delivery_recorded_def drop_key_def simp del: Product_Type.split_paired_Ex)

lemma file_delivery_stock:
  assumes "stock_inv db" and "built_delivery cmd" and "plan_ok plan" and "0 \<le> q"
    and "(t, cu_id c, rd_date cmd, rd_slot cmd, k) \<notin> drop_key ` set (deliveries db)"
    and "file_delivery e cmd t c k plan q a db = Inr (d, db')"
  shows "stock_inv db'"
proof -
  note f = file_delivery_frame [OF assms(6)]
  have p: "0 \<le> dl_price d"
    using assms(3) built_deliveryD(2) [OF assms(2)] f(11) by (cases "rd_price cmd") (auto simp: plan_ok_def less_imp_le)
  have q: "0 \<le> dl_quantity d" using f(10) assms(4) by simp
  have m: "delivery_amount (dl_status d) (dl_quantity d) (dl_price d) None = Inr (dl_amount d)" using f(10,12) by simp
  obtain row where row: "stored_delivery d = Inr row" "deliveries db' = deliveries db @ [row]" using f(1) by blast
  have ok: "delivery_ok row" "dl_id row = next_id db" "drop_key row \<notin> drop_key ` set (deliveries db)"
    using stored_delivery_ok [OF row(1) q p delivery_amount_nonneg(1) [OF m q p]]
      delivery_amount_nonneg(2) [OF m q p] f(7-9) assms(5) by simp_all
  have "deliveries_ok (next_id db') (deliveries db @ [row])"
    by (rule deliveries_append [OF stock_invD(4) [OF assms(1)] ok(2,1) f(2) ok(3)])
  then show ?thesis
    using stock_invD [OF assms(1)] f(2-6) row(2) ok_mono [of "next_id db" "next_id db'"] by (simp add: stock_inv_def)
qed

lemma record_delivery_cases:
  assumes "record_delivery e cmd a mp db = Inr (d, db')"
  obtains (new) t c k p where "get_customer e db (rd_customer cmd) = Inr c" "active_plan e db (cu_id c) k = Inr (Some p)"
      "(t, cu_id c, rd_date cmd, rd_slot cmd, k) \<notin> drop_key ` set (deliveries db)" "cu_status c = ''active''"
      "file_delivery e cmd t c k p (case rd_quantity cmd of None \<Rightarrow> dp_quantity p | Some q \<Rightarrow> q) a db = Inr (d, db')"
    | (old) x where "x \<in> set (deliveries db)" "dl_status x = DScheduled" "confirm_delivery e x cmd a db = Inr (d, db')"
proof -
  obtain t c k p where f: "get_customer e db (rd_customer cmd) = Inr c" "cu_status c = ''active''"
      "active_plan e db (cu_id c) k = Inr (Some p)"
    and m: "(case find (same_drop t (cu_id c) (rd_date cmd) (rd_slot cmd) k) (deliveries db) of
          None \<Rightarrow> file_delivery e cmd t c k p (case rd_quantity cmd of None \<Rightarrow> dp_quantity p | Some q \<Rightarrow> q) a db
        | Some x \<Rightarrow> if dl_status x \<in> set PENDING_STATUSES then confirm_delivery e x cmd a db
                   else Inl (ConflictError ''already has a delivery of the product in that slot'')) = Inr (d, db')"
    using assms by (auto simp: record_delivery_def Let_def andthen_eq_Inr need_eq_Inr split: if_splits)
  show thesis
  proof (cases "find (same_drop t (cu_id c) (rd_date cmd) (rd_slot cmd) k) (deliveries db)")
    case None
    have "(t, cu_id c, rd_date cmd, rd_slot cmd, k) \<notin> drop_key ` set (deliveries db)"
      using None by (auto simp: find_None_ball same_drop_iff)
    then show thesis using new [of c k p t] f m None by simp
  next
    case (Some x)
    then show thesis using old [of x] m find_SomeD [OF Some] by (auto simp: PENDING_STATUSES_def split: if_splits)
  qed
qed

lemma active_plan_Some: "active_plan e db c k = Inr (Some p) \<Longrightarrow> p \<in> set (plans db)"
  by (auto simp: active_plan_def result_simps dest: find_SomeD)

lemma record_delivery_stock:
  assumes "stock_inv db" and "built_delivery cmd" and "record_delivery e cmd a mp db = Inr (d, db')"
  shows "stock_inv db'"
  using assms(3)
proof (cases rule: record_delivery_cases)
  case (new t c k p)
  have "plan_ok p" using stock_plan_ok [OF assms(1) active_plan_Some [OF new(2)]] .
  then show ?thesis
    using file_delivery_stock [OF assms(1,2) _ _ new(3,5)] built_deliveryD(1) [OF assms(2)]
    by (auto simp: plan_ok_def split: option.splits)
next
  case (old x)
  have "dl_invoice x = None" using stock_delivery_ok [OF assms(1) old(1)] old(2) by (simp add: delivery_ok_def)
  then show ?thesis by (rule confirm_delivery_stock [OF assms(1,2) old(1) _ old(3)])
qed

lemma get_delivery_Inr: "get_delivery e db i = Inr d \<Longrightarrow> d \<in> set (deliveries db) \<and> dl_id d = i"
  by (auto simp: get_delivery_def result_simps dest: find_SomeD)

text \<open>What an amendment makes of an unbilled delivery.\<close>

lemma amended_price_Inr:
  assumes "amended_price e cmd a d db = Inr d'" and "built_amendment cmd" and "stock_inv db" and "0 \<le> dl_price d"
  shows "dl_id d' = dl_id d" "drop_key d' = drop_key d" "dl_invoice d' = dl_invoice d" "dl_status d' = dl_status d"
    "dl_quantity d' = dl_quantity d" "0 \<le> dl_price d'"
proof -
  have plan: "0 \<le> dp_price p" if "active_plan e db c k = Inr (Some p)" for c k p
    using stock_plan_ok [OF assms(3) active_plan_Some [OF that]] by (simp add: plan_ok_def)
  have "dl_id d' = dl_id d \<and> drop_key d' = drop_key d \<and> dl_invoice d' = dl_invoice d \<and> dl_status d' = dl_status d
      \<and> dl_quantity d' = dl_quantity d \<and> 0 \<le> dl_price d'"
  proof (cases "am_price cmd")
    case (Some p)
    then show ?thesis using assms(1) built_amendmentD(2) [OF assms(2) Some] by (auto simp: amended_price_def drop_key_def)
  next
    case None
    then show ?thesis using assms(1,4) plan
      by (auto simp: amended_price_def drop_key_def andthen_eq_Inr need_eq_Inr split: if_splits)
  qed
  then show "dl_id d' = dl_id d" "drop_key d' = drop_key d" "dl_invoice d' = dl_invoice d" "dl_status d' = dl_status d"
    "dl_quantity d' = dl_quantity d" "0 \<le> dl_price d'" by blast+
qed

lemma amend_delivery_frame:
  assumes "amend_delivery e i cmd a mp db = Inr (r, db')" and "built_amendment cmd" and "stock_inv db"
  shows "\<exists>d row n t w x. d \<in> set (deliveries db) \<and> dl_id d = i \<and> dl_invoice d = None
    \<and> dl_id row = i \<and> drop_key row = drop_key d \<and> delivery_ok row \<and> dl_invoice row = None
    \<and> db' = audit e n t i w x (db\<lparr>deliveries := row_update dl_id i (\<lambda>_. row) (deliveries db)\<rparr>)"
proof -
  obtain d where d: "get_delivery e db i = Inr d" "dl_invoice d = None"
    using assms(1) unfolding amend_delivery_def Let_def andthen_eq_Inr by (auto split: if_splits)
  have in_db: "d \<in> set (deliveries db)" "dl_id d = i" using get_delivery_Inr [OF d(1)] by simp_all
  define d1 where "d1 = d\<lparr>dl_quantity := (case am_quantity cmd of None \<Rightarrow> dl_quantity d | Some q \<Rightarrow> q),
    dl_status := (case am_status cmd of None \<Rightarrow> dl_status d | Some s \<Rightarrow> s),
    dl_notes := (case am_notes cmd of None \<Rightarrow> dl_notes d | Some n \<Rightarrow> n)\<rparr>"
  obtain d2 m db1 n t w x where run: "amended_price e cmd a d1 db = Inr d2"
      "delivery_amount (dl_status d2) (dl_quantity d2) (dl_price d2) None = Inr m"
      "save_delivery (d2\<lparr>dl_amount := m\<rparr>) db = Inr db1" "db' = audit e n t i w x db1"
    using assms(1) d unfolding amend_delivery_def Let_def andthen_eq_Inr d1_def
    by (auto simp: andthen_eq_Inr split: if_splits)
  have ok: "delivery_ok d" by (rule stock_delivery_ok [OF assms(3) in_db(1)])
  have one: "dl_id d1 = i" "drop_key d1 = drop_key d" "dl_invoice d1 = None" "0 \<le> dl_price d1" "0 \<le> dl_quantity d1"
    using in_db(2) d(2) ok built_amendmentD(1) [OF assms(2)]
    by (auto simp: d1_def drop_key_def delivery_ok_def split: option.split)
  note two = amended_price_Inr [OF run(1) assms(2,3) one(4)]
  have q: "0 \<le> dl_quantity d2" using two(5) one(5) by simp
  note amount = delivery_amount_nonneg [OF run(2) q two(6)]
  obtain row where row: "stored_delivery (d2\<lparr>dl_amount := m\<rparr>) = Inr row"
      "db1 = db\<lparr>deliveries := row_update dl_id (dl_id row) (\<lambda>_. row) (deliveries db)\<rparr>"
    using save_delivery_Inr [OF run(3)] by blast
  have "dl_id row = i" "drop_key row = drop_key d" "delivery_ok row" "dl_invoice row = None"
    using stored_delivery_ok [OF row(1)] one two q amount by (simp_all add: drop_key_def)
  then show ?thesis using in_db d(2) row(2) run(4) by blast
qed

lemma amend_delivery_stock:
  assumes "stock_inv db" and "built_amendment cmd" and "amend_delivery e i cmd a mp db = Inr (r, db')"
  shows "stock_inv db'"
proof -
  obtain d row n t w x where f: "d \<in> set (deliveries db)" "dl_id d = i" "dl_id row = i" "drop_key row = drop_key d" "delivery_ok row"
      and db': "db' = audit e n t i w x (db\<lparr>deliveries := row_update dl_id i (\<lambda>_. row) (deliveries db)\<rparr>)"
    using amend_delivery_frame [OF assms(3,2,1)] by blast
  have "stock_inv (db\<lparr>deliveries := row_update dl_id (dl_id d) (\<lambda>_. row) (deliveries db)\<rparr>)"
    by (rule put_delivery_stock [OF assms(1) f(1) _ f(4,5)]) (simp add: f)
  then show ?thesis unfolding db' f(2) by (rule stock_inv_mono) simp_all
qed

section \<open>The generated round\<close>

lemma scheduled_row_stored:
  assumes "stored_delivery (scheduled_row i t day a p q) = Inr row" and "0 \<le> q" and "0 \<le> dp_price p"
  shows "delivery_ok row" "dl_id row = i" "drop_key row = (t, dp_customer p, day, dp_slot p, dp_product p)" "dl_invoice row = None"
    "dl_status row = DScheduled"
proof -
  show "delivery_ok row" "dl_id row = i" "drop_key row = (t, dp_customer p, day, dp_slot p, dp_product p)" "dl_invoice row = None"
    using stored_delivery_ok [OF assms(1)] assms(2,3) by (simp_all add: scheduled_row_def drop_key_def)
  show "dl_status row = DScheduled"
    using assms(1) by (auto simp: stored_delivery_def result_simps scheduled_row_def)
qed

text \<open>Rows are only added, with fresh identifiers.\<close>

lemma insert_frame:
  "insert_ignoring_conflicts t day a rows db = Inr (n, db') \<Longrightarrow>
     db' = db\<lparr>next_id := next_id db', deliveries := deliveries db'\<rparr> \<and> next_id db \<le> next_id db'"
proof (induction rows arbitrary: n db)
  case (Cons pq rows)
  obtain p q where pq: "pq = (p, q)" by fastforce
  show ?case
    using Cons.prems Cons.IH unfolding pq
    by (fastforce simp: Let_def new_id_eq andthen_eq_Inr split: if_splits prod.splits)
qed simp

lemma insert_same:
  assumes "insert_ignoring_conflicts t day a rows db = Inr (n, db')"
  shows "next_id db \<le> next_id db'" "products db' = products db" "customers db' = customers db" "plans db' = plans db"
    "sale_items db' = sale_items db" "invoices db' = invoices db" "invoice_lines db' = invoice_lines db"
    "customer_payments db' = customer_payments db" "allocations db' = allocations db"
    "customer_receipts db' = customer_receipts db"
proof -
  have eq: "db' = db\<lparr>next_id := next_id db', deliveries := deliveries db'\<rparr>" and le: "next_id db \<le> next_id db'"
    using insert_frame [OF assms] by blast+
  show "next_id db \<le> next_id db'" by (rule le)
  show "products db' = products db" "customers db' = customers db" "plans db' = plans db"
    "sale_items db' = sale_items db" "invoices db' = invoices db" "invoice_lines db' = invoice_lines db"
    "customer_payments db' = customer_payments db" "allocations db' = allocations db"
    "customer_receipts db' = customer_receipts db"
    by (subst eq, simp)+
qed

definition good_round :: "(delivery_plan \<times> decimal) list \<Rightarrow> bool" where
  "good_round rows \<longleftrightarrow> (\<forall>(p, q) \<in> set rows. 0 \<le> dp_price p \<and> 0 < q)"

lemma same_drop_taken:
  "list_ex (same_drop t c day s k) ds \<longleftrightarrow> (t, c, day, s, k) \<in> drop_key ` set ds"
  by (auto simp: list_ex_iff same_drop_iff intro!: image_eqI)

lemma insert_deliveries_ok:
  assumes "insert_ignoring_conflicts t day a rows db = Inr (n, db')" and "deliveries_ok (next_id db) (deliveries db)"
    and "good_round rows"
  shows "deliveries_ok (next_id db') (deliveries db')"
  using assms
proof (induction rows arbitrary: n db)
  case (Cons pq rows)
  obtain p q where pq: "pq = (p, q)" by fastforce
  let ?i = "next_id db"
  have good: "0 \<le> dp_price p" "0 \<le> q" "good_round rows" using Cons.prems(3) by (auto simp: pq good_round_def)
  obtain row where row: "stored_delivery (scheduled_row ?i t day a p q) = Inr row"
    using Cons.prems(1) by (auto simp: pq Let_def new_id_eq andthen_eq_Inr)
  note r = scheduled_row_stored [OF row good(2,1)]
  show ?case
  proof (cases "list_ex (same_drop t (dp_customer p) day (dp_slot p) (dp_product p)) (deliveries db)")
    case True
    then have "insert_ignoring_conflicts t day a rows (db\<lparr>next_id := Suc ?i\<rparr>) = Inr (n, db')"
      using Cons.prems(1) row by (simp add: pq Let_def new_id_eq)
    then show ?thesis using Cons.IH [of "db\<lparr>next_id := Suc ?i\<rparr>" n] Cons.prems(2) good(3) ok_mono(4) [of ?i "Suc ?i"] by simp
  next
    case False
    then obtain m where m: "insert_ignoring_conflicts t day a rows
        (db\<lparr>next_id := Suc ?i, deliveries := deliveries db @ [row]\<rparr>) = Inr (m, db')"
      using Cons.prems(1) row by (auto simp: pq Let_def new_id_eq andthen_eq_Inr split: prod.splits)
    have "deliveries_ok (Suc ?i) (deliveries db @ [row])"
      using deliveries_append [OF Cons.prems(2) r(2,1)] False r(3) by (simp add: same_drop_taken)
    then show ?thesis using Cons.IH [OF m] good(3) by simp
  qed
qed simp

lemma candidates_quantity: "(p, q) \<in> set (candidates day w pcs) \<Longrightarrow> 0 < q \<and> p \<in> fst ` set pcs"
proof (induction pcs)
  case (Cons pc pcs)
  then show ?case
    by (auto simp: judge_def Let_def split: due_verdict.splits if_splits prod.splits)
qed simp

lemma due_plans_plans: "pc \<in> set (due_plans t day cs s db) \<Longrightarrow> fst pc \<in> set (plans db)"
  by (auto simp: due_plans_def)

lemma good_candidates:
  assumes "stock_inv db"
  shows "good_round (candidates day w (due_plans t day cs s db))"
proof -
  have "0 \<le> dp_price p \<and> 0 < q" if "(p, q) \<in> set (candidates day w (due_plans t day cs s db))" for p q
  proof -
    have "p \<in> set (plans db)" using candidates_quantity [OF that] due_plans_plans [of _ t day cs s db] by auto
    then show ?thesis using stock_plan_ok [OF assms] candidates_quantity [OF that] by (simp add: plan_ok_def)
  qed
  then show ?thesis by (auto simp: good_round_def)
qed

lemma generate_for_day_Inr:
  assumes "generate_for_day t day a w cs s db = Inr (r, db')"
  shows "insert_ignoring_conflicts t day a (candidates day w (due_plans t day cs s db)) db = Inr (gr_created r, db')"
  using assms by (auto simp: generate_for_day_def Let_def andthen_eq_Inr)

lemma generate_for_day_stock:
  assumes "stock_inv db" and "generate_for_day t day a w cs s db = Inr (r, db')"
  shows "stock_inv db'"
proof -
  note i = generate_for_day_Inr [OF assms(2)]
  note f = insert_same [OF i]
  have "deliveries_ok (next_id db') (deliveries db')"
    using insert_deliveries_ok [OF i stock_invD(4) [OF assms(1)] good_candidates [OF assms(1)]] .
  then show ?thesis
    using stock_invD [OF assms(1)] ok_mono [OF f(1)] f(2-5) by (simp add: stock_inv_def)
qed

section \<open>Items\<close>

definition built_item :: "record_item_command \<Rightarrow> bool" where
  "built_item cmd \<longleftrightarrow> (\<exists>a b c d f g h. RecordItemCommand a b c d f g h = Inr cmd)"

lemma built_itemD:
  assumes "built_item cmd"
  shows "0 < it_quantity cmd" "it_price cmd = Some p \<Longrightarrow> 0 \<le> p"
  using assms by (auto simp: built_item_def RecordItemCommand_def split: if_splits)

lemma items_append:
  assumes "items_ok n xs" and "si_id x = n" and "item_ok x" and "n < n'"
    and "\<not> (si_key x \<noteq> None \<and> list_ex (\<lambda>y. si_tenant y = si_tenant x \<and> si_key y = si_key x) xs)"
  shows "items_ok n' (xs @ [x])"
proof -
  let ?g = "\<lambda>x. (si_tenant x, si_key x)" and ?P = "\<lambda>x. si_key x \<noteq> None"
  have u: "unique_keys ?g (filter ?P xs)" using assms(1) by (simp add: items_ok_def)
  have "unique_keys ?g (filter ?P (xs @ [x]))"
  proof (cases "si_key x = None")
    case False
    then have "?g y \<noteq> ?g x" if "y \<in> set xs" for y using assms(5) that by (auto simp: list_ex_iff)
    then have "?g x \<notin> ?g ` set (filter ?P xs)" by auto
    then show ?thesis using u False unique_keys_append_fresh [of ?g "filter ?P xs" x] by simp
  qed (use u in simp)
  then show ?thesis
    using assms(1) table_ok_append [of si_id n item_ok xs x n'] assms(2-4) by (simp add: items_ok_def)
qed

lemma items_put:
  assumes "items_ok n xs" and "x \<in> set xs" and "si_id x' = si_id x" and "si_key x' = si_key x" and "si_tenant x' = si_tenant x"
    and "item_ok x'"
  shows "items_ok n (row_update si_id (si_id x) (\<lambda>_. x') xs)"
proof -
  have u: "unique_keys si_id xs" using assms(1) table_okD(1) unfolding items_ok_def by blast
  have "map (\<lambda>x. (si_tenant x, si_key x)) (filter (\<lambda>x. si_key x \<noteq> None) (row_update si_id (si_id x) (\<lambda>_. x') xs))
      = map (\<lambda>x. (si_tenant x, si_key x)) (filter (\<lambda>x. si_key x \<noteq> None) xs)"
    by (rule map_filter_row_put [OF u assms(2)]) (simp_all add: assms(4,5))
  then show ?thesis
    using assms(1) table_ok_put [of si_id n item_ok xs x x'] assms(2,3,6) by (simp add: items_ok_def unique_keys_def)
qed

lemma item_price_nonneg:
  assumes "item_price cmd mp p cur = Inr x" and "built_item cmd" and "product_ok p"
  shows "0 \<le> x"
  using assms(1) built_itemD(2) [OF assms(2)] assms(3) quantize_money_Inr(2)
  by (auto simp: item_price_def product_ok_def split: if_splits option.splits)

lemma find_product_ok: "stock_inv db \<Longrightarrow> require_active e code db = Inr p \<Longrightarrow> product_ok p"
  using stock_invD(1) [of db] table_okD(3) [of pd_id "next_id db" product_ok "products db" p]
  by (auto simp: catalogue_ok_def require_active_def find_product_def andthen_eq_Inr split: option.splits if_splits dest!: find_SomeD)

lemma file_item_frame:
  assumes "file_item e c cmd p qty price m a db = Inr (x, db')"
  shows "sale_items db' = sale_items db @ [x]" "next_id db < next_id db'" "products db' = products db" "customers db' = customers db"
      "plans db' = plans db" "deliveries db' = deliveries db"
    and "si_id x = next_id db" "numeric 16 2 m = Inr (si_amount x)" "si_status x = IRecorded" "si_invoice x = None"
    and "\<not> (si_key x \<noteq> None \<and> list_ex (\<lambda>y. si_tenant y = si_tenant x \<and> si_key y = si_key x) (sale_items db))"
  using assms by (auto simp: file_item_def Let_def new_id_eq andthen_eq_Inr list_ex_iff split: if_splits)

lemma file_item_stock:
  assumes "stock_inv db" and "0 \<le> m" and "file_item e c cmd p qty price m a db = Inr (x, db')"
  shows "stock_inv db'"
proof -
  note f = file_item_frame [OF assms(3)]
  have "item_ok x" using numeric_is_amount [OF f(8) assms(2)] f(9) by (simp add: item_ok_def)
  then have "items_ok (next_id db') (sale_items db @ [x])"
    using items_append [OF stock_invD(5) [OF assms(1)] f(7) _ f(2,11)] by blast
  then show ?thesis
    using stock_invD [OF assms(1)] f(1-6) ok_mono [of "next_id db" "next_id db'"] by (simp add: stock_inv_def)
qed

lemma record_item_cases:
  assumes "record_item e cid cmd a mp db = Inr (x, db')" and "built_item cmd" and "stock_inv db"
  obtains (replayed) "db' = db" "x \<in> set (sale_items db)"
    | (filed) c p qty price m where "item_customer e db cid = Inr c" "require_active e (it_code cmd) db = Inr p" "0 \<le> m"
        "file_item e c cmd p qty price m a db = Inr (x, db')"
proof -
  obtain c where c: "item_customer e db cid = Inr c"
    using assms(1) by (auto simp: record_item_def andthen_eq_Inr)
  show thesis
  proof (cases "if opt_str (it_key cmd) = [] then None
      else find (\<lambda>x. si_tenant x = cu_tenant c \<and> si_key x = it_key cmd) (sale_items db)")
    case (Some y)
    then have "y \<in> set (sale_items db)" by (auto split: if_splits dest: find_SomeD)
    moreover have "db' = db \<and> x = y" using assms(1) c Some by (auto simp: record_item_def andthen_eq_Inr split: if_splits)
    ultimately show thesis using replayed by blast
  next
    case None
    obtain p price qty m where r: "require_active e (it_code cmd) db = Inr p" "item_price cmd mp p (cu_currency c) = Inr price"
        "quantised (it_quantity cmd) = Inr qty" "quantize_money (dec_mul qty price) (Some (cu_currency c)) = Inr m"
        "file_item e c cmd p qty price m a db = Inr (x, db')"
      using assms(1) c None by (auto simp: record_item_def andthen_eq_Inr split: if_splits)
    have "0 \<le> price" by (rule item_price_nonneg [OF r(2) assms(2) find_product_ok [OF assms(3) r(1)]])
    moreover have "0 \<le> qty"
      using quantize_nonneg r(3) built_itemD(1) [OF assms(2)] unfolding quantised_def by (meson less_imp_le)
    ultimately have "0 \<le> m"
      using quantize_money_Inr(2) [OF r(4)] by (simp add: dec_mul_def ctx_nonneg)
    then show thesis using filed c r(1,5) by blast
  qed
qed

lemma record_item_stock:
  assumes "stock_inv db" and "built_item cmd" and "record_item e cid cmd a mp db = Inr (x, db')"
  shows "stock_inv db'"
  using assms(3,2,1)
proof (cases rule: record_item_cases)
  case (filed c p qty price m)
  then show ?thesis using file_item_stock [OF assms(1)] by blast
qed (simp add: assms(1))

lemma cancel_item_frame:
  assumes "cancel_item e i why a db = Inr (r, db')"
  shows "\<exists>x. row_get si_id i (sale_items db) = Some x \<and> si_invoice x = None \<and> si_status x = IRecorded
      \<and> r = x\<lparr>si_status := ICancelled, si_cancelled_at := Some (now e), si_reason := str_strip why\<rparr>"
    and "sale_items db' = row_update si_id i (\<lambda>_. r) (sale_items db)"
    and "next_id db \<le> next_id db'" "products db' = products db" "customers db' = customers db" "plans db' = plans db"
      "deliveries db' = deliveries db"
  using assms
  by (auto simp: cancel_item_def get_item_def Let_def andthen_eq_Inr split: option.splits if_splits)

lemma cancel_item_stock:
  assumes "stock_inv db" and "cancel_item e i why a db = Inr (r, db')"
  shows "stock_inv db'"
proof -
  note f = cancel_item_frame [OF assms(2)]
  obtain x where x: "x \<in> set (sale_items db)" "si_invoice x = None"
      "r = x\<lparr>si_status := ICancelled, si_cancelled_at := Some (now e), si_reason := str_strip why\<rparr>"
      "sale_items db' = row_update si_id (si_id x) (\<lambda>_. r) (sale_items db)"
    using f(1,2) row_get_SomeD by metis
  have "item_ok r" using stock_item_ok [OF assms(1) x(1)] x(2,3) by (simp add: item_ok_def)
  then have "items_ok (next_id db) (sale_items db')"
    unfolding x(4) by (intro items_put [OF stock_invD(5) [OF assms(1)] x(1)]) (simp_all add: x(3))
  then show ?thesis
    using stock_invD [OF assms(1)] f(3-7) ok_mono [of "next_id db" "next_id db'"] by (simp add: stock_inv_def)
qed

end
