(* ===== verification/BookFrames.thy ===== *)
theory BookFrames
  imports SalesSteps
begin

text \<open>
  What the operations before billing leave alone: the bills, the money received, and everything that is
  already on a bill. \<open>desk_frame\<close> is kept by the operations on products, customers and standing orders,
  \<open>same_books\<close> also by those on deliveries and items.
\<close>

section \<open>Products, customers and standing orders\<close>

definition desk_frame :: "'a sales_db_scheme \<Rightarrow> 'a sales_db_scheme \<Rightarrow> bool" where
  "desk_frame db db' \<longleftrightarrow> deliveries db' = deliveries db \<and> sale_items db' = sale_items db
     \<and> invoices db' = invoices db \<and> invoice_lines db' = invoice_lines db
     \<and> customer_payments db' = customer_payments db \<and> allocations db' = allocations db
     \<and> customer_receipts db' = customer_receipts db \<and> next_id db \<le> next_id db'"

lemma desk_refl [simp]: "desk_frame db db"
  by (simp add: desk_frame_def)

lemma desk_trans: "desk_frame a b \<Longrightarrow> desk_frame b c \<Longrightarrow> desk_frame a c"
  by (simp add: desk_frame_def)

lemma desk_audit [simp]: "desk_frame db (audit e n t i a d db') = desk_frame db db'"
  by (simp add: desk_frame_def)

lemma desk_audit_of [simp]: "desk_frame db (audit_of e n t i a d db') = desk_frame db db'"
  by (simp add: desk_frame_def audit_of_def)

lemma other_sales_desk: "other_sales db db' \<Longrightarrow> desk_frame db db'"
  by (simp add: other_sales_def desk_frame_def)

lemma create_product_desk: "create_product e cmd a db = Inr (p, db') \<Longrightarrow> desk_frame db db'"
  by (auto simp: create_product_def result_simps Let_def new_id_eq desk_frame_def)

lemma update_product_desk: "update_product e i cmd a db = Inr (p, db') \<Longrightarrow> desk_frame db db'"
  by (auto simp: update_product_def result_simps Let_def desk_frame_def split: if_splits)

lemma ensure_product_desk: "desk_frame db (snd (ensure_product t c nm un cur ord db))"
  by (auto simp: ensure_product_def new_id_eq Let_def desk_frame_def split: option.splits)

lemma seed_desk: "desk_frame db (snd (seed_new_organisation t cur db))"
  unfolding seed_new_organisation_def by (meson ensure_product_desk desk_trans)

lemma set_plan_raw_desk: "set_plan_raw e cid np a db = (r, db') \<Longrightarrow> desk_frame db db'"
  by (cases r) (auto dest: set_plan_raw_Inl elim: set_plan_raw_Inr intro: other_sales_desk)

lemma set_plan_desk: "set_plan e cid np a db = Inr (r, db') \<Longrightarrow> desk_frame db db'"
  unfolding set_plan_def committed_Inr by (rule set_plan_raw_desk)

lemma next_document_number_desk: "next_document_number e t dt px db = (k, db') \<Longrightarrow> desk_frame db db'"
  unfolding desk_frame_def by (simp add: next_document_number_sales)

lemma register_customer_desk:
  assumes "register_customer e cmd t db = (r, db')"
  shows "desk_frame db db'"
proof -
  obtain k db1 where n: "next_document_number e t ''customer'' ''CUS'' db = (k, db1)" by fastforce
  have "desk_frame db1 db'"
    using assms by (auto simp: register_customer_def n Let_def new_id_eq desk_frame_def split: sum.splits)
  then show ?thesis using next_document_number_desk [OF n] desk_trans by blast
qed

lemma create_customer_raw_desk:
  assumes "create_customer_raw e cmd a db = (r, db')"
  shows "desk_frame db db'"
proof (cases "require_current_tenant e")
  case (Inr t)
  obtain r1 db1 where n: "register_customer e cmd t db = (r1, db1)" by fastforce
  have s1: "desk_frame db db1" by (rule register_customer_desk [OF n])
  then have "desk_frame db db2" if "set_plan_raw e i np a db1 = (r2, db2)" for i np r2 db2
    using set_plan_raw_desk [OF that] desk_trans by blast
  then show ?thesis
    using assms s1 by (auto simp: create_customer_raw_def Inr n Let_def split: sum.splits option.splits prod.splits)
qed (use assms in \<open>simp add: create_customer_raw_def\<close>)

lemma create_customer_desk: "create_customer e cmd a db = Inr (c, db') \<Longrightarrow> desk_frame db db'"
  unfolding create_customer_def committed_Inr by (rule create_customer_raw_desk)

lemma import_each_desk: "import_each e t a n rows db = Inr (rs, db') \<Longrightarrow> desk_frame db db'"
proof (induction rows arbitrary: n db rs)
  case (Cons row rows)
  obtain r db1 where o: "import_one e t row a db = (r, db1)" by fastforce
  have "desk_frame db db1"
    using o create_customer_raw_desk [of e _ a db r db1] by (auto simp: import_one_def split: sum.splits if_splits)
  moreover obtain k rs' where "import_each e t a k rows db1 = Inr (rs', db')"
    using Cons.prems o by (auto simp: andthen_eq_Inr split: sum.splits if_splits)
  ultimately show ?case using Cons.IH desk_trans by blast
qed simp

lemma import_rows_desk: "import_rows e rows a db = Inr (rs, db') \<Longrightarrow> desk_frame db db'"
  by (auto simp: import_rows_def andthen_eq_Inr split: if_splits dest: import_each_desk)

lemma update_customer_desk: "update_customer e i cmd a db = Inr (c, db') \<Longrightarrow> desk_frame db db'"
  by (auto simp: update_customer_def put_customer_def andthen_eq_Inr Let_def desk_frame_def)

lemma set_status_desk: "set_status e i st a db = Inr (c, db') \<Longrightarrow> desk_frame db db'"
  by (auto simp: set_status_def put_customer_def andthen_eq_Inr Let_def desk_frame_def split: if_splits)

lemma reprice_plans_desk: "reprice_plans e cmd fr a c ps db = Inr (ch, sk, db') \<Longrightarrow> desk_frame db db'"
proof (induction ps arbitrary: db ch sk)
  case (Cons p ps)
  show ?case
  proof (cases "paused_on p fr \<or> dp_price p = rg_price cmd")
    case True
    then show ?thesis using Cons.prems Cons.IH by (auto simp: andthen_eq_Inr split: if_splits)
  next
    case False
    then obtain db1 ch' sk' where
      x: "(if rg_preview cmd then Inr db else andthen (repriced_input p (rg_price cmd) fr) (\<lambda>np.
            andthen (set_plan e c np a db) (\<lambda>(_, db'). Inr db'))) = Inr db1"
      and "reprice_plans e cmd fr a c ps db1 = Inr (ch', sk', db')"
      using Cons.prems by (auto simp: andthen_eq_Inr simp del: if_Inl_eq_Inr if_Inr_Inl_eq_Inr)
    moreover have "desk_frame db db1"
      using x set_plan_desk by (fastforce simp: andthen_eq_Inr split: if_splits)
    ultimately show ?thesis using Cons.IH desk_trans by blast
  qed
qed simp

lemma reprice_customers_desk: "reprice_customers e cmd fr a ts db = Inr (ch, sk, db') \<Longrightarrow> desk_frame db db'"
proof (induction ts arbitrary: db ch sk)
  case (Cons t ts)
  obtain c who ps where t: "t = (c, who, ps)" by (cases t)
  obtain ch1 sk1 db1 ch2 sk2 where r: "reprice_customer e cmd fr a who c ps db = Inr (ch1, sk1, db1)"
      "reprice_customers e cmd fr a ts db1 = Inr (ch2, sk2, db')"
    using Cons.prems by (auto simp: t result_simps)
  have "desk_frame db db1"
    using r(1) reprice_plans_desk by (fastforce simp: reprice_customer_def Let_def split: option.splits if_splits)
  then show ?case using Cons.IH [OF r(2)] desk_trans by blast
qed simp

lemma change_rates_desk:
  assumes "change_rates e cmd a db = Inr (ch, sk, db')"
  shows "desk_frame db db'"
proof -
  obtain fr t db1 where "reprice_customers e cmd fr a (rate_targets t cmd db) db = Inr (ch, sk, db1)"
      and d: "db' = db1 \<or> (\<exists>n t' i a' x. db' = audit_of e n t' i a' x db1)"
    using assms by (fastforce simp: change_rates_def result_simps Let_def)
  then have "desk_frame db db1" using reprice_customers_desk by blast
  then show ?thesis using d by auto
qed

lemma pause_plan_desk: "pause_plan e i fr un a db = Inr (p, db') \<Longrightarrow> desk_frame db db'"
  by (auto simp: pause_plan_def put_plan_def andthen_eq_Inr Let_def desk_frame_def split: if_splits)

lemma resume_plan_desk: "resume_plan e i a db = Inr (p, db') \<Longrightarrow> desk_frame db db'"
  by (auto simp: resume_plan_def put_plan_def andthen_eq_Inr Let_def desk_frame_def)

section \<open>Deliveries and items\<close>

text \<open>The sources that are on a bill, and what a bill reads of them.\<close>

fun bill_invoice :: "bill_source \<Rightarrow> uuid option" where
  "bill_invoice (BDelivery d) = dl_invoice d"
| "bill_invoice (BItem x) = si_invoice x"

fun bill_tenant :: "bill_source \<Rightarrow> uuid" where
  "bill_tenant (BDelivery d) = dl_tenant d"
| "bill_tenant (BItem x) = si_tenant x"

fun bill_customer :: "bill_source \<Rightarrow> uuid" where
  "bill_customer (BDelivery d) = dl_customer d"
| "bill_customer (BItem x) = si_customer x"

definition sources :: "'a sales_db_scheme \<Rightarrow> bill_source set" where
  "sources db = BDelivery ` set (deliveries db) \<union> BItem ` set (sale_items db)"

definition billed :: "'a sales_db_scheme \<Rightarrow> bill_source set" where
  "billed db = {s \<in> sources db. bill_invoice s \<noteq> None}"

definition same_books :: "'a sales_db_scheme \<Rightarrow> 'a sales_db_scheme \<Rightarrow> bool" where
  "same_books db db' \<longleftrightarrow> billed db' = billed db \<and> invoices db' = invoices db \<and> invoice_lines db' = invoice_lines db
     \<and> customer_payments db' = customer_payments db \<and> allocations db' = allocations db \<and> next_id db \<le> next_id db'"

lemma same_books_refl [simp]: "same_books db db"
  by (simp add: same_books_def)

lemma same_books_trans: "same_books a b \<Longrightarrow> same_books b c \<Longrightarrow> same_books a c"
  by (simp add: same_books_def)

lemma desk_same_books: "desk_frame db db' \<Longrightarrow> same_books db db'"
  by (simp add: desk_frame_def same_books_def billed_def sources_def)

lemma in_billed:
  "s \<in> billed db \<longleftrightarrow> (\<exists>d \<in> set (deliveries db). s = BDelivery d \<and> dl_invoice d \<noteq> None)
     \<or> (\<exists>x \<in> set (sale_items db). s = BItem x \<and> si_invoice x \<noteq> None)"
  by (auto simp: billed_def sources_def)

lemma billed_images:
  "billed db = BDelivery ` set (filter (\<lambda>d. dl_invoice d \<noteq> None) (deliveries db))
     \<union> BItem ` set (filter (\<lambda>x. si_invoice x \<noteq> None) (sale_items db))"
  by (auto simp: in_billed)

text \<open>Writing or replacing an unbilled row.\<close>

lemma billed_append_delivery:
  "deliveries db' = deliveries db @ [d] \<Longrightarrow> dl_invoice d = None \<Longrightarrow> sale_items db' = sale_items db \<Longrightarrow> billed db' = billed db"
  by (auto simp: billed_def sources_def)

lemma billed_put_delivery:
  assumes "unique_keys dl_id (deliveries db)" and "d \<in> set (deliveries db)" and "dl_invoice d = None" and "dl_invoice d' = None"
    and "deliveries db' = row_update dl_id (dl_id d) (\<lambda>_. d') (deliveries db)" and "sale_items db' = sale_items db"
  shows "billed db' = billed db"
proof -
  have "filter (\<lambda>d. dl_invoice d \<noteq> None) (deliveries db') = filter (\<lambda>d. dl_invoice d \<noteq> None) (deliveries db)"
    unfolding assms(5) by (rule filter_row_put [OF assms(1,2)]) (simp_all add: assms(3,4))
  then show ?thesis using assms(6) by (simp add: billed_images)
qed

lemma billed_put_item:
  assumes "unique_keys si_id (sale_items db)" and "x \<in> set (sale_items db)" and "si_invoice x = None" and "si_invoice x' = None"
    and "sale_items db' = row_update si_id (si_id x) (\<lambda>_. x') (sale_items db)" and "deliveries db' = deliveries db"
  shows "billed db' = billed db"
proof -
  have "filter (\<lambda>x. si_invoice x \<noteq> None) (sale_items db') = filter (\<lambda>x. si_invoice x \<noteq> None) (sale_items db)"
    unfolding assms(5) by (rule filter_row_put [OF assms(1,2)]) (simp_all add: assms(3,4))
  then show ?thesis using assms(6) by (simp add: billed_images)
qed

lemma stock_unique:
  "stock_inv db \<Longrightarrow> unique_keys dl_id (deliveries db)" "stock_inv db \<Longrightarrow> unique_keys si_id (sale_items db)"
  using stock_invD(4,5) [of db] table_okD(1) [of dl_id "next_id db" delivery_ok "deliveries db"]
    table_okD(1) [of si_id "next_id db" item_ok "sale_items db"]
  by (simp_all add: deliveries_ok_def items_ok_def)

lemma stored_delivery_invoice: "stored_delivery d = Inr row \<Longrightarrow> dl_id row = dl_id d \<and> dl_invoice row = dl_invoice d"
  by (auto simp: stored_delivery_def andthen_eq_Inr)

lemma confirmed_same: "confirmed cmd a d = Inr r \<Longrightarrow> dl_id r = dl_id d \<and> dl_invoice r = dl_invoice d"
  by (cases "rd_price cmd") (auto simp: confirmed_def Let_def andthen_eq_Inr split: if_splits)

lemma confirm_delivery_books:
  assumes "stock_inv db" and "d \<in> set (deliveries db)" and "dl_invoice d = None" and "confirm_delivery e d cmd a db = Inr (r, db')"
  shows "same_books db db'"
proof -
  obtain db1 n t i w x where c: "confirmed cmd a d = Inr r" and s: "save_delivery r db = Inr db1"
      and d: "db' = delivery_recorded e r a (audit e n t i w x db1)"
    using assms(4) unfolding confirm_delivery_def andthen_eq_Inr by blast
  obtain row where row: "stored_delivery r = Inr row" "db1 = db\<lparr>deliveries := row_update dl_id (dl_id row) (\<lambda>_. row) (deliveries db)\<rparr>"
    using save_delivery_Inr [OF s] by blast
  have "dl_id row = dl_id d" "dl_invoice row = None"
    using stored_delivery_invoice [OF row(1)] confirmed_same [OF c] assms(3) by simp_all
  moreover from this have "billed db' = billed db"
    by (intro billed_put_delivery [OF stock_unique(1) [OF assms(1)] assms(2,3)]) (simp_all add: d row(2) delivery_recorded_def)
  ultimately show ?thesis by (simp add: same_books_def d row(2) delivery_recorded_def)
qed

lemma file_delivery_books:
  assumes "file_delivery e cmd t c k plan q a db = Inr (d, db')"
  shows "same_books db db'"
proof -
  note f = file_delivery_frame [OF assms]
  obtain row where row: "stored_delivery d = Inr row" "deliveries db' = deliveries db @ [row]" using f(1) by blast
  have "dl_invoice row = None" using stored_delivery_invoice [OF row(1)] f(9) by simp
  then have "billed db' = billed db" using billed_append_delivery [OF row(2)] f(6) by blast
  moreover have "invoices db' = invoices db" "invoice_lines db' = invoice_lines db"
      "customer_payments db' = customer_payments db" "allocations db' = allocations db"
    using assms by (auto simp: file_delivery_def Let_def new_id_eq andthen_eq_Inr delivery_recorded_def)
  ultimately show ?thesis using f(2) by (simp add: same_books_def)
qed

lemma record_delivery_books:
  assumes "stock_inv db" and "record_delivery e cmd a mp db = Inr (d, db')"
  shows "same_books db db'"
  using assms(2)
proof (cases rule: record_delivery_cases)
  case (new t c k p)
  then show ?thesis by (intro file_delivery_books)
next
  case (old x)
  have "dl_invoice x = None" using stock_delivery_ok [OF assms(1) old(1)] old(2) by (simp add: delivery_ok_def)
  then show ?thesis by (rule confirm_delivery_books [OF assms(1) old(1) _ old(3)])
qed

lemma amend_delivery_books:
  assumes "stock_inv db" and "built_amendment cmd" and "amend_delivery e i cmd a mp db = Inr (r, db')"
  shows "same_books db db'"
proof -
  obtain d row n t w x where f: "d \<in> set (deliveries db)" "dl_id d = i" "dl_invoice d = None" "dl_invoice row = None"
      and db': "db' = audit e n t i w x (db\<lparr>deliveries := row_update dl_id i (\<lambda>_. row) (deliveries db)\<rparr>)"
    using amend_delivery_frame [OF assms(3,2,1)] by blast
  have "billed db' = billed db"
    by (rule billed_put_delivery [OF stock_unique(1) [OF assms(1)] f(1,3,4)]) (simp_all add: db' f(2))
  then show ?thesis by (simp add: same_books_def db')
qed

lemma insert_billed:
  assumes "insert_ignoring_conflicts t day a rows db = Inr (n, db')"
  shows "billed db' = billed db"
  using assms
proof (induction rows arbitrary: n db)
  case (Cons pq rows)
  obtain p q where pq: "pq = (p, q)" by fastforce
  let ?i = "next_id db"
  obtain row where row: "stored_delivery (scheduled_row ?i t day a p q) = Inr row"
    using Cons.prems(1) by (auto simp: pq Let_def new_id_eq andthen_eq_Inr)
  have inv: "dl_invoice row = None" using stored_delivery_invoice [OF row] by (simp add: scheduled_row_def)
  show ?case
  proof (cases "list_ex (same_drop t (dp_customer p) day (dp_slot p) (dp_product p)) (deliveries db)")
    case True
    then have "insert_ignoring_conflicts t day a rows (db\<lparr>next_id := Suc ?i\<rparr>) = Inr (n, db')"
      using Cons.prems(1) row by (simp add: pq Let_def new_id_eq)
    then show ?thesis using Cons.IH [of "db\<lparr>next_id := Suc ?i\<rparr>" n] by (simp add: billed_def sources_def)
  next
    case False
    then obtain m where m: "insert_ignoring_conflicts t day a rows
        (db\<lparr>next_id := Suc ?i, deliveries := deliveries db @ [row]\<rparr>) = Inr (m, db')"
      using Cons.prems(1) row by (auto simp: pq Let_def new_id_eq andthen_eq_Inr split: prod.splits)
    show ?thesis unfolding Cons.IH [OF m] by (rule billed_append_delivery [of _ _ row]) (simp_all add: inv)
  qed
qed simp

lemma generate_for_day_books: "generate_for_day t day a w cs s db = Inr (r, db') \<Longrightarrow> same_books db db'"
  using insert_billed insert_same by (fastforce simp: same_books_def dest: generate_for_day_Inr)

lemma generate_for_customers_Inr:
  assumes "generate_for_customers e day cs s a w ref db = Inr (r, db')"
  obtains t n k db1 i x y where "generate_for_day t day (Some a) w (Some cs) (Some s) db = Inr (r, db1)"
    "db' = audit_of e n k i x y db1"
  using assms by (auto simp: generate_for_customers_def andthen_eq_Inr)

lemma generate_for_customers_stock:
  assumes "stock_inv db" and "generate_for_customers e day cs s a w ref db = Inr (r, db')"
  shows "stock_inv db'" "same_books db db'"
proof -
  obtain t n k db1 i x y where g: "generate_for_day t day (Some a) w (Some cs) (Some s) db = Inr (r, db1)"
      and d: "db' = audit_of e n k i x y db1"
    using generate_for_customers_Inr [OF assms(2)] .
  show "stock_inv db'" using generate_for_day_stock [OF assms(1) g] unfolding d by (rule stock_inv_mono) (simp_all add: audit_of_def)
  have "same_books db1 db'" by (rule desk_same_books) (simp add: d)
  then show "same_books db db'" using generate_for_day_books [OF g] same_books_trans by blast
qed

lemma record_item_books:
  assumes "stock_inv db" and "built_item cmd" and "record_item e cid cmd a mp db = Inr (x, db')"
  shows "same_books db db'"
  using assms(3,2,1)
proof (cases rule: record_item_cases)
  case (filed c p qty price m)
  note f = file_item_frame [OF filed(4)]
  have "billed db' = billed db" using f(1,6,10) by (auto simp: in_billed)
  moreover have "invoices db' = invoices db" "invoice_lines db' = invoice_lines db"
      "customer_payments db' = customer_payments db" "allocations db' = allocations db"
    using filed(4) by (auto simp: file_item_def Let_def new_id_eq andthen_eq_Inr split: if_splits)
  ultimately show ?thesis using f(2) by (simp add: same_books_def)
qed simp

lemma cancel_item_books:
  assumes "stock_inv db" and "cancel_item e i why a db = Inr (r, db')"
  shows "same_books db db'"
proof -
  note f = cancel_item_frame [OF assms(2)]
  obtain x where x: "x \<in> set (sale_items db)" "si_id x = i" "si_invoice x = None"
      "r = x\<lparr>si_status := ICancelled, si_cancelled_at := Some (now e), si_reason := str_strip why\<rparr>"
    using f(1) row_get_SomeD by metis
  have "billed db' = billed db"
    by (rule billed_put_item [OF stock_unique(2) [OF assms(1)] x(1,3), of r]) (simp_all add: x(2,3,4) f(2,7))
  moreover have "invoices db' = invoices db" "invoice_lines db' = invoice_lines db"
      "customer_payments db' = customer_payments db" "allocations db' = allocations db"
    using assms(2) by (auto simp: cancel_item_def Let_def andthen_eq_Inr split: if_splits)
  ultimately show ?thesis using f(3) by (simp add: same_books_def)
qed

end
