(* ===== verification/BillingSteps.thy ===== *)
theory BillingSteps
  imports BookFrames
begin

text \<open>
  What a bill is made of, kept by every billing operation: each line copies a stamped source, each stamped
  source has its line, and the totals of a bill are the sums of its lines.
\<close>

section \<open>Stamping the sources of a bill\<close>

fun stamped :: "uuid option \<Rightarrow> bill_source \<Rightarrow> bill_source" where
  "stamped i (BDelivery d) = BDelivery (d\<lparr>dl_invoice := i\<rparr>)"
| "stamped i (BItem x) = BItem (x\<lparr>si_invoice := i\<rparr>)"

lemma stamped_simps [simp]:
  "bill_invoice (stamped i s) = i" "source_ref (stamped i s) = source_ref s" "bill_tenant (stamped i s) = bill_tenant s"
  "bill_customer (stamped i s) = bill_customer s" "bill_date (stamped i s) = bill_date s"
  "bill_amount (stamped i s) = bill_amount s" "line_of k t v (stamped i s) = line_of k t v s"
  "stamped i (stamped j s) = stamped i s"
  by (cases s; simp)+

lemma stamped_id: "bill_invoice s = i \<Longrightarrow> stamped i s = s"
  by (cases s) auto

lemma line_of_simps [simp]:
  "il_id (line_of k t v s) = k" "il_tenant (line_of k t v s) = t" "il_invoice (line_of k t v s) = v"
  "il_source (line_of k t v s) = source_ref s" "il_amount (line_of k t v s) = bill_amount s"
  by (cases s; simp)+

definition stamp_deliveries :: "line_source set \<Rightarrow> uuid option \<Rightarrow> milk_delivery list \<Rightarrow> milk_delivery list" where
  "stamp_deliveries R i ds = map (\<lambda>d. if FromDelivery (dl_id d) \<in> R then d\<lparr>dl_invoice := i\<rparr> else d) ds"

definition stamp_items :: "line_source set \<Rightarrow> uuid option \<Rightarrow> sale_item list \<Rightarrow> sale_item list" where
  "stamp_items R i xs = map (\<lambda>x. if FromItem (si_id x) \<in> R then x\<lparr>si_invoice := i\<rparr> else x) xs"

definition restamp :: "line_source set \<Rightarrow> uuid option \<Rightarrow> bill_source \<Rightarrow> bill_source" where
  "restamp R i s = (if source_ref s \<in> R then stamped i s else s)"

text \<open>A run of stamps: the tables but for deliveries, items, lines and identifiers stay.\<close>

definition restamped :: "line_source set \<Rightarrow> uuid option \<Rightarrow> 'a sales_db_scheme \<Rightarrow> 'a sales_db_scheme \<Rightarrow> bool" where
  "restamped R i db db' \<longleftrightarrow> deliveries db' = stamp_deliveries R i (deliveries db)
     \<and> sale_items db' = stamp_items R i (sale_items db) \<and> products db' = products db \<and> customers db' = customers db
     \<and> plans db' = plans db \<and> invoices db' = invoices db \<and> customer_payments db' = customer_payments db
     \<and> allocations db' = allocations db \<and> sequences db' = sequences db \<and> next_id db \<le> next_id db'"

lemma stamp_empty [simp]: "stamp_deliveries {} i ds = ds" "stamp_items {} i xs = xs"
  by (simp_all add: stamp_deliveries_def stamp_items_def)

lemma stamp_stamp:
  "stamp_deliveries R i (stamp_deliveries S i ds) = stamp_deliveries (S \<union> R) i ds"
  "stamp_items R i (stamp_items S i xs) = stamp_items (S \<union> R) i xs"
  by (simp_all add: stamp_deliveries_def stamp_items_def)

lemma restamped_refl [simp]: "restamped {} i db db"
  by (simp add: restamped_def)

lemma restamped_trans: "restamped S i a b \<Longrightarrow> restamped R i b c \<Longrightarrow> restamped (S \<union> R) i a c"
  by (simp add: restamped_def stamp_stamp)

lemma stamp_restamped: "restamped {r} i db (stamp i r db)"
  by (cases r) (simp_all add: restamped_def stamp_deliveries_def stamp_items_def row_update_def)

lemma stamp_lines [simp]: "invoice_lines (stamp i r db) = invoice_lines db" "next_id (stamp i r db) = next_id db"
  by (cases r; simp)+

lemma restamped_keep:
  "restamped R i db (db'\<lparr>invoice_lines := ls\<rparr>) = restamped R i db db'"
  "restamped R i (db\<lparr>invoice_lines := ls\<rparr>) db' = restamped R i db db'"
  by (simp_all add: restamped_def)

lemma restamped_next: "restamped R i (db\<lparr>next_id := n\<rparr>) db' \<Longrightarrow> next_id db \<le> n \<Longrightarrow> restamped R i db db'"
  by (simp add: restamped_def)

lemma add_invoice_lines_effect:
  assumes "add_invoice_lines t iid ss db = Inr db'"
  shows "restamped (source_ref ` set ss) (Some iid) db db'" "next_id db' = next_id db + length ss"
    "invoice_lines db' = invoice_lines db @ map2 (\<lambda>k s. line_of k t iid s) [next_id db..<next_id db + length ss] ss"
    "distinct (map source_ref ss)"
    "\<And>l s. l \<in> set (invoice_lines db) \<Longrightarrow> il_tenant l = t \<Longrightarrow> s \<in> set ss \<Longrightarrow> il_source l \<noteq> source_ref s"
proof -
  have "restamped (source_ref ` set ss) (Some iid) db db' \<and> next_id db' = next_id db + length ss
    \<and> invoice_lines db' = invoice_lines db @ map2 (\<lambda>k s. line_of k t iid s) [next_id db..<next_id db + length ss] ss
    \<and> distinct (map source_ref ss)
    \<and> (\<forall>l \<in> set (invoice_lines db). il_tenant l = t \<longrightarrow> il_source l \<notin> source_ref ` set ss)"
    using assms
  proof (induction ss arbitrary: db)
    case (Cons s ss)
    let ?i = "next_id db"
    let ?db = "(db\<lparr>next_id := Suc ?i\<rparr>)\<lparr>invoice_lines := invoice_lines db @ [line_of ?i t iid s]\<rparr>"
    let ?d1 = "stamp (Some iid) (source_ref s) ?db"
    have free: "\<not> list_ex (\<lambda>l. il_tenant l = t \<and> il_source l = source_ref s) (invoice_lines db)"
      and run: "add_invoice_lines t iid ss ?d1 = Inr db'"
      using Cons.prems by (auto simp: Let_def new_id_eq split: if_splits)
    note ih = Cons.IH [OF run]
    have "restamped {source_ref s} (Some iid) db ?d1"
      by (rule restamped_next [where n = "Suc ?i"])
        (use stamp_restamped [of "source_ref s" "Some iid" ?db] in \<open>simp_all add: restamped_keep\<close>)
    then have "restamped ({source_ref s} \<union> source_ref ` set ss) (Some iid) db db'" using ih restamped_trans by blast
    moreover have "[?i..<?i + length (s # ss)] = ?i # [Suc ?i..<Suc ?i + length ss]" by (simp add: upt_rec)
    moreover have "source_ref s \<notin> source_ref ` set ss" using ih by auto
    ultimately show ?case using ih free by (auto simp: list_ex_iff)
  qed simp
  then show "restamped (source_ref ` set ss) (Some iid) db db'" "next_id db' = next_id db + length ss"
    "invoice_lines db' = invoice_lines db @ map2 (\<lambda>k s. line_of k t iid s) [next_id db..<next_id db + length ss] ss"
    "distinct (map source_ref ss)"
    "\<And>l s. l \<in> set (invoice_lines db) \<Longrightarrow> il_tenant l = t \<Longrightarrow> s \<in> set ss \<Longrightarrow> il_source l \<noteq> source_ref s"
    by auto
qed

lemma release_lines_effect:
  "restamped (il_source ` set ls) None db (release_lines ls db)
     \<and> invoice_lines (release_lines ls db) = filter (\<lambda>l. il_id l \<notin> il_id ` set ls) (invoice_lines db)
     \<and> next_id (release_lines ls db) = next_id db"
proof (induction ls arbitrary: db)
  case (Cons l ls)
  let ?d1 = "(stamp None (il_source l) db)\<lparr>invoice_lines := row_delete il_id (il_id l) (invoice_lines db)\<rparr>"
  have step: "release_lines (l # ls) db = release_lines ls ?d1" by (simp add: release_lines_def)
  have "restamped {il_source l} None db ?d1" using stamp_restamped restamped_keep by blast
  then have "restamped ({il_source l} \<union> il_source ` set ls) None db (release_lines ls ?d1)"
    using Cons.IH [of ?d1] restamped_trans by blast
  then show ?case unfolding step using Cons.IH [of ?d1] by (auto simp: row_delete_def intro: filter_cong)
qed (simp add: release_lines_def)

section \<open>What stamping does to the billed sources\<close>

lemma sources_restamped:
  assumes "restamped R i db db'"
  shows "sources db' = restamp R i ` sources db"
proof -
  have d: "BDelivery ` set (deliveries db') = restamp R i ` BDelivery ` set (deliveries db)"
    using assms by (force simp: restamped_def stamp_deliveries_def restamp_def image_iff)
  have "BItem ` set (sale_items db') = restamp R i ` BItem ` set (sale_items db)"
    using assms by (force simp: restamped_def stamp_items_def restamp_def image_iff)
  with d show ?thesis by (simp add: sources_def image_Un)
qed

lemma source_ref_inj:
  assumes "stock_inv db" and "s \<in> sources db" and "s' \<in> sources db" and "source_ref s = source_ref s'"
  shows "s = s'"
  using stock_unique [OF assms(1)] assms(2-) unique_keysD [of dl_id "deliveries db"] unique_keysD [of si_id "sale_items db"]
  by (auto simp: sources_def)

lemma billed_add:
  assumes "stock_inv db" and "restamped (source_ref ` S) (Some i) db db'" and "S \<subseteq> sources db"
    and "\<And>s. s \<in> S \<Longrightarrow> bill_invoice s = None"
  shows "billed db' = billed db \<union> stamped (Some i) ` S"
proof -
  have src: "source_ref s \<in> source_ref ` S \<longleftrightarrow> s \<in> S" if "s \<in> sources db" for s
    using source_ref_inj [OF assms(1) that] assms(3) by auto
  have eq: "sources db' = restamp (source_ref ` S) (Some i) ` sources db" by (rule sources_restamped [OF assms(2)])
  show ?thesis
  proof (rule set_eqI)
    fix s
    have "s \<in> billed db' \<longleftrightarrow> (\<exists>r \<in> sources db. s = restamp (source_ref ` S) (Some i) r \<and> bill_invoice s \<noteq> None)"
      unfolding billed_def eq by blast
    also have "\<dots> \<longleftrightarrow> (\<exists>r \<in> S. s = stamped (Some i) r) \<or> (s \<in> sources db \<and> s \<notin> S \<and> bill_invoice s \<noteq> None)"
      using src assms(3) by (auto simp: restamp_def)
    also have "\<dots> \<longleftrightarrow> s \<in> billed db \<union> stamped (Some i) ` S"
      using assms(4) by (auto simp: billed_def)
    finally show "s \<in> billed db' \<longleftrightarrow> s \<in> billed db \<union> stamped (Some i) ` S" .
  qed
qed

lemma billed_remove:
  assumes "restamped R None db db'"
  shows "billed db' = {s \<in> billed db. source_ref s \<notin> R}"
  unfolding billed_def sources_restamped [OF assms] by (auto simp: restamp_def image_iff split: if_splits)

fun sold :: "bill_source \<Rightarrow> bool" where
  "sold (BDelivery d) \<longleftrightarrow> dl_status d = DDelivered"
| "sold (BItem x) \<longleftrightarrow> si_status x = IRecorded"

lemma restamped_stock:
  assumes "stock_inv db" and "restamped R i db db'"
    and "\<And>s. s \<in> sources db \<Longrightarrow> source_ref s \<in> R \<Longrightarrow> i = None \<or> sold s"
  shows "stock_inv db'"
proof -
  have sd: "i = None \<or> dl_status d = DDelivered" if "d \<in> set (deliveries db)" "FromDelivery (dl_id d) \<in> R" for d
    using assms(3) [of "BDelivery d"] that by (simp add: sources_def)
  have si: "i = None" if "x \<in> set (sale_items db)" "FromItem (si_id x) \<in> R" "si_status x = ICancelled" for x
    using assms(3) [of "BItem x"] that by (simp add: sources_def)
  have d: "deliveries_ok (next_id db) (stamp_deliveries R i (deliveries db))"
    using stock_invD(4) [OF assms(1)]
    unfolding deliveries_ok_def stamp_deliveries_def
    by (auto simp: delivery_ok_def drop_key_def unique_keys_map dest: sd intro!: table_ok_map)
  have x: "items_ok (next_id db) (stamp_items R i (sale_items db))"
  proof -
    have "filter (\<lambda>x. si_key x \<noteq> None) (stamp_items R i (sale_items db)) = stamp_items R i (filter (\<lambda>x. si_key x \<noteq> None) (sale_items db))"
      unfolding stamp_items_def filter_map by (intro arg_cong [where f = "map _"] filter_cong) auto
    then show ?thesis
      using stock_invD(5) [OF assms(1)]
      unfolding items_ok_def stamp_items_def
      by (auto simp: item_ok_def unique_keys_map dest: si intro!: table_ok_map)
  qed
  show ?thesis
    using stock_invD [OF assms(1)] d x assms(2) ok_mono [of "next_id db" "next_id db'"]
    by (simp add: stock_inv_def restamped_def)
qed

section \<open>The row of a bill\<close>

lemma minor_units_None [simp]: "minor_units None = 2"
  by code_simp

lemma money2_scale: "money2 x = Inr y \<Longrightarrow> at_scale 2 y"
  unfolding money2_def by (rule quantize_money_scale2)

lemma money2_at_scale:
  assumes "at_scale 2 x" and "money2 x = Inr y"
  shows "y = x"
proof -
  obtain k where k: "x = of_int k / 10 ^ 2" using assms(1) by (rule at_scaleE)
  have "y = of_int (round_int ROUND_HALF_UP (x * 10 ^ 2)) / 10 ^ 2"
    using quantize_eqD [of ROUND_HALF_UP 2 x y] assms(2) by (simp add: money2_def quantize_money_def)
  also have "x * 10 ^ 2 = of_int k" using k by simp
  finally show ?thesis using k by (simp add: half_up.rnd_of_int)
qed

lemma money2_fits: "at_scale 2 x \<Longrightarrow> \<bar>x\<bar> < 10 ^ 26 \<Longrightarrow> money2 x = Inr x"
  unfolding money2_def quantize_money_def using quantize_exact [of 2 x ROUND_HALF_UP] by (simp add: prec_def)

definition invoice_ok :: "invoice \<Rightarrow> bool" where
  "invoice_ok v \<longleftrightarrow> is_amount (iv_total v) \<and> iv_subtotal v = iv_total v \<and> iv_adjustments v = 0
     \<and> iv_due v = iv_total v + iv_previous v"

lemma dec_sum_scale: "at_scale 2 acc \<Longrightarrow> (\<And>x. x \<in> set xs \<Longrightarrow> at_scale 2 x) \<Longrightarrow> at_scale 2 (dec_sum acc xs)"
  by (induction xs arbitrary: acc) (auto simp: dec_add_def intro!: ctx_at_scale at_scale_add)

lemma invoice_row_Inr:
  assumes "invoice_row i t c num fr un prev ss = Inr v" and "\<And>s. s \<in> set ss \<Longrightarrow> is_amount (bill_amount s)" and "at_scale 2 prev"
  shows "invoice_ok v" "iv_total v = sum_list (map bill_amount ss)" "iv_previous v = prev" "iv_lines v = length ss"
    "iv_id v = i" "iv_tenant v = t" "iv_customer v = cu_id c" "iv_from v = fr" "iv_to v = un" "iv_status v = VDraft"
proof -
  let ?xs = "map bill_amount ss"
  let ?s = "dec_sum 0 ?xs"
  obtain p sub tot due sub' where
    r: "numeric 16 2 prev = Inr p" "money2 ?s = Inr sub" "money2 (dec_add ?s 0) = Inr tot" "money2 (dec_add tot p) = Inr due"
      "numeric 16 2 sub = Inr sub'" "numeric 16 2 tot = Inr (iv_total v)" "numeric 16 2 due = Inr (iv_due v)"
    and f: "iv_subtotal v = sub'" "iv_previous v = p" "iv_adjustments v = 0" "iv_lines v = length ss" "iv_id v = i" "iv_tenant v = t"
      "iv_customer v = cu_id c" "iv_from v = fr" "iv_to v = un" "iv_status v = VDraft"
    using assms(1) by (auto simp: invoice_row_def andthen_eq_Inr Let_def)
  have xs: "at_scale 2 x \<and> 0 \<le> x" if "x \<in> set ?xs" for x using that assms(2) by (auto simp: is_amount_def)
  have s: "at_scale 2 ?s" by (rule dec_sum_scale) (use xs in auto)
  have sub: "sub' = ?s" "\<bar>?s\<bar> < 10 ^ 14"
    using money2_at_scale [OF s r(2)] numeric_at_scale [OF s] numeric_InrD [OF r(5)] r(5) by auto
  have sum: "?s = sum_list ?xs" using dec_sum_small [of 0 ?xs] xs sub(2) by auto
  have "dec_add ?s 0 = ?s" using s sub(2) by (subst dec_add_exact [of 2]) (simp_all add: prec_def)
  then have tot: "tot = ?s" "iv_total v = ?s"
    using money2_at_scale [OF s] r(3,6) numeric_at_scale [OF s] by auto
  have p: "p = prev" "\<bar>p\<bar> < 10 ^ 14" using numeric_at_scale [OF assms(3) r(1)] numeric_InrD [OF r(1)] by simp_all
  have "\<bar>?s + p\<bar> < 2 * 10 ^ 14" using sub(2) p(2) by linarith
  then have add: "dec_add tot p = ?s + p" unfolding tot(1) using s assms(3) p(1)
    by (subst dec_add_exact [of 2]) (simp_all add: prec_def)
  have sp: "at_scale 2 (?s + p)" using s assms(3) p(1) by (simp add: at_scale_add)
  have due: "iv_due v = ?s + p"
    using money2_at_scale [OF sp] r(4,7) add numeric_at_scale [OF sp] by auto
  have "0 \<le> sum_list ?xs" by (rule sum_list_nonneg) (use xs in auto)
  then show "invoice_ok v" using s sub tot(2) due f(1-3) p(1) sum by (simp add: invoice_ok_def is_amount_def)
  show "iv_total v = sum_list (map bill_amount ss)" "iv_previous v = prev" "iv_lines v = length ss"
    "iv_id v = i" "iv_tenant v = t" "iv_customer v = cu_id c" "iv_from v = fr" "iv_to v = un" "iv_status v = VDraft"
    using f tot(2) sum p(1) by simp_all
qed

section \<open>The invariant of the bills\<close>

definition line_ok :: "'a sales_db_scheme \<Rightarrow> invoice_line \<Rightarrow> bool" where
  "line_ok db l \<longleftrightarrow> (\<exists>v \<in> set (invoices db). \<exists>s \<in> billed db. iv_id v = il_invoice l \<and> iv_status v \<noteq> VCancelled
     \<and> bill_invoice s = Some (iv_id v) \<and> bill_tenant s = iv_tenant v \<and> bill_customer s = iv_customer v
     \<and> iv_from v \<le> bill_date s \<and> bill_date s \<le> iv_to v \<and> l = line_of (il_id l) (iv_tenant v) (iv_id v) s)"

definition bill_totals :: "invoice \<Rightarrow> invoice_line list \<Rightarrow> bool" where
  "bill_totals v ls \<longleftrightarrow>
     (if iv_status v = VCancelled then ls = [] \<and> iv_lines v = 0
      else ls \<noteq> [] \<and> iv_lines v = length ls \<and> iv_total v = sum_list (map il_amount ls))"

definition bill_key :: "invoice \<Rightarrow> uuid \<times> uuid \<times> date \<times> date" where
  "bill_key v = (iv_tenant v, iv_customer v, iv_from v, iv_to v)"

definition bill_inv :: "'a sales_db_scheme \<Rightarrow> bool" where
  "bill_inv db \<longleftrightarrow> table_ok iv_id (next_id db) invoice_ok (invoices db)
     \<and> table_ok il_id (next_id db) (line_ok db) (invoice_lines db) \<and> unique_keys il_source (invoice_lines db)
     \<and> source_ref ` billed db \<subseteq> il_source ` set (invoice_lines db)
     \<and> (\<forall>v \<in> set (invoices db). bill_totals v (lines_of_invoice (iv_id v) db))
     \<and> unique_keys bill_key (filter (\<lambda>v. iv_status v \<noteq> VCancelled) (invoices db))"

lemma bill_invD:
  assumes "bill_inv db"
  shows "table_ok iv_id (next_id db) invoice_ok (invoices db)" "table_ok il_id (next_id db) (line_ok db) (invoice_lines db)"
    "unique_keys il_source (invoice_lines db)" "source_ref ` billed db \<subseteq> il_source ` set (invoice_lines db)"
    "v \<in> set (invoices db) \<Longrightarrow> bill_totals v (lines_of_invoice (iv_id v) db)"
    "unique_keys bill_key (filter (\<lambda>v. iv_status v \<noteq> VCancelled) (invoices db))"
  using assms unfolding bill_inv_def by blast+

lemma same_books_bills:
  assumes "bill_inv db" and "same_books db db'"
  shows "bill_inv db'"
proof -
  have same: "invoices db' = invoices db" "invoice_lines db' = invoice_lines db" "billed db' = billed db" "next_id db \<le> next_id db'"
    using assms(2) by (simp_all add: same_books_def)
  have "line_ok db' = line_ok db" by (simp add: line_ok_def same fun_eq_iff)
  then show ?thesis
    using bill_invD [OF assms(1)] same table_ok_mono [OF _ same(4)] unfolding bill_inv_def lines_of_invoice_def by metis
qed

lemma line_ok_source:
  assumes "line_ok db l"
  shows "il_source l \<in> source_ref ` billed db"
proof -
  obtain v :: invoice and s where s: "s \<in> billed db" "l = line_of (il_id l) (iv_tenant v) (iv_id v) s" using assms unfolding line_ok_def by blast
  have "il_source l = source_ref s" by (subst s(2)) simp
  then show ?thesis using s(1) by blast
qed

text \<open>An update of a live bill that keeps its figures.\<close>

definition same_bill :: "invoice \<Rightarrow> invoice \<Rightarrow> bool" where
  "same_bill v v' \<longleftrightarrow> iv_id v' = iv_id v \<and> iv_tenant v' = iv_tenant v \<and> iv_customer v' = iv_customer v \<and> iv_number v' = iv_number v
     \<and> iv_from v' = iv_from v \<and> iv_to v' = iv_to v \<and> iv_currency v' = iv_currency v \<and> iv_subtotal v' = iv_subtotal v
     \<and> iv_adjustments v' = iv_adjustments v \<and> iv_total v' = iv_total v \<and> iv_previous v' = iv_previous v
     \<and> iv_due v' = iv_due v \<and> iv_lines v' = iv_lines v"

lemma put_invoice_bills:
  assumes "bill_inv db" and "v \<in> set (invoices db)" and "same_bill v v'" and "iv_status v \<noteq> VCancelled" and "iv_status v' \<noteq> VCancelled"
  shows "bill_inv (put_invoice v' db)"
proof -
  let ?db = "put_invoice v' db"
  note inv = bill_invD [OF assms(1)]
  have id: "iv_id v' = iv_id v" using assms(3) by (simp add: same_bill_def)
  have invs: "invoices ?db = row_update iv_id (iv_id v) (\<lambda>_. v') (invoices db)" by (simp add: put_invoice_def id)
  have u: "unique_keys iv_id (invoices db)" using table_okD(1) [OF inv(1)] .
  have same: "invoice_lines ?db = invoice_lines db" "billed ?db = billed db" "next_id ?db = next_id db"
    by (simp_all add: put_invoice_def billed_def sources_def)
  have "invoice_ok v'" using table_okD(3) [OF inv(1) assms(2)] assms(3) by (simp add: invoice_ok_def same_bill_def)
  then have rows: "table_ok iv_id (next_id db) invoice_ok (invoices ?db)"
    unfolding invs by (intro table_ok_put [OF inv(1) assms(2) id])
  have "line_ok ?db l" if "line_ok db l" for l
  proof -
    obtain w :: invoice and s where w: "w \<in> set (invoices db)" "s \<in> billed db" "iv_id w = il_invoice l" "iv_status w \<noteq> VCancelled"
        "bill_invoice s = Some (iv_id w)" "bill_tenant s = iv_tenant w" "bill_customer s = iv_customer w"
        "iv_from w \<le> bill_date s" "bill_date s \<le> iv_to w" "l = line_of (il_id l) (iv_tenant w) (iv_id w) s"
      using \<open>line_ok db l\<close> unfolding line_ok_def by blast
    define w' where "w' = (if w = v then v' else w)"
    have w': "w' \<in> set (invoices ?db)"
      unfolding invs using unique_keysD [OF u w(1) assms(2)] w(1) assms(2) by (auto simp: w'_def in_row_put)
    have "same_bill w w'" "iv_status w' \<noteq> VCancelled" using assms(3,5) w(4) by (simp_all add: w'_def same_bill_def)
    then show ?thesis using w' w(2-) unfolding line_ok_def same(2) by (intro bexI [of _ w'] bexI [of _ s]) (simp_all add: same_bill_def)
  qed
  then have ls: "table_ok il_id (next_id db) (line_ok ?db) (invoice_lines db)"
    using table_ok_mono [OF inv(2) order_refl] by blast
  have "bill_totals w (lines_of_invoice (iv_id w) ?db)" if "w \<in> set (invoices ?db)" for w
    using that inv(5) assms(2-5) unfolding invs in_row_put [OF assms(2)]
    by (auto simp: bill_totals_def same_bill_def lines_of_invoice_def same)
  moreover have "map bill_key (filter (\<lambda>v. iv_status v \<noteq> VCancelled) (invoices ?db))
      = map bill_key (filter (\<lambda>v. iv_status v \<noteq> VCancelled) (invoices db))"
    unfolding invs by (rule map_filter_row_put [OF u assms(2)]) (use assms(3-5) in \<open>simp_all add: bill_key_def same_bill_def\<close>)
  ultimately show ?thesis using rows ls inv(3,4,6) unfolding bill_inv_def same unique_keys_def by simp
qed

section \<open>A new bill\<close>

lemma get_customer_tenant: "get_customer e db i = Inr c \<Longrightarrow> require_current_tenant e = Inr t \<Longrightarrow> cu_tenant c = t"
  by (auto simp: get_customer_Inr require_current_tenant_def dest!: get_customer_Inr split: option.splits)

lemma bill_order_set: "set (bill_order ds xs) = BDelivery ` set ds \<union> BItem ` set xs"
  by (simp add: bill_order_def)

text \<open>What \<open>generate_invoice\<close> puts on the bill.\<close>

definition billable :: "uuid \<Rightarrow> uuid \<Rightarrow> date \<Rightarrow> date \<Rightarrow> bill_source \<Rightarrow> bool" where
  "billable t c fr un s \<longleftrightarrow> bill_tenant s = t \<and> bill_customer s = c \<and> fr \<le> bill_date s \<and> bill_date s \<le> un
     \<and> sold s \<and> bill_invoice s = None"

lemma bill_order_billable:
  assumes "unbilled_for_period e c fr un db = Inr xs" and "require_current_tenant e = Inr t"
  shows "set (bill_order (unbilled_deliveries t c fr un db) xs) = {s \<in> sources db. billable t c fr un s}"
proof -
  have xs: "set xs = {x \<in> set (sale_items db). si_tenant x = t \<and> si_customer x = c \<and> fr \<le> si_date x \<and> si_date x \<le> un
      \<and> si_status x = IRecorded \<and> si_invoice x = None}"
    using assms by (auto simp: unbilled_for_period_def BILLABLE_ITEM_STATUSES_def)
  have ds: "set (unbilled_deliveries t c fr un db) = {d \<in> set (deliveries db). dl_tenant d = t \<and> dl_customer d = c
      \<and> fr \<le> dl_date d \<and> dl_date d \<le> un \<and> dl_status d = DDelivered \<and> dl_invoice d = None}"
    by (auto simp: unbilled_deliveries_def BILLABLE_STATUSES_def)
  show ?thesis unfolding bill_order_set xs ds by (auto simp: sources_def billable_def)
qed

lemma customer_balance_scale: "customer_balance_of e c db = Inr b \<Longrightarrow> at_scale 2 (kb_outstanding b)"
  by (auto simp: customer_balance_of_def andthen_eq_Inr Let_def dest: money2_scale)

text \<open>How \<open>generate_invoice\<close> ends when it succeeds.\<close>

lemma generate_invoice_cases:
  assumes "generate_invoice e cid fr un a db = Inr (v, db')"
  obtains t c ss db1 db3 num n k w i x where "require_current_tenant e = Inr t" "get_customer e db cid = Inr c" "fr \<le> un"
    "\<not> list_ex (live_invoice_for t (cu_id c) fr un) (invoices db)"
    "set ss = {s \<in> sources db. billable t (cu_id c) fr un s}" "ss \<noteq> []"
    "next_document_number e t ''customer_invoice'' ''INV'' db = (num, db1)"
    "add_invoice_lines t (next_id db) ss (db1\<lparr>next_id := Suc (next_id db)\<rparr>) = Inr db3"
    "\<exists>prev. at_scale 2 prev \<and> invoice_row (next_id db) t c num fr un prev ss = Inr v"
    "db' = audit e n k i w x (db3\<lparr>invoices := invoices db3 @ [v]\<rparr>)"
proof -
  obtain t c xs where r: "require_current_tenant e = Inr t" "fr \<le> un" "get_customer e db cid = Inr c"
      "\<not> list_ex (live_invoice_for t (cu_id c) fr un) (invoices db)" "unbilled_for_period e (cu_id c) fr un db = Inr xs"
      "\<not> (unbilled_deliveries t (cu_id c) fr un db = [] \<and> xs = [])"
      "file_invoice e t c fr un (bill_order (unbilled_deliveries t (cu_id c) fr un db) xs) a db = Inr (v, db')"
    using assms by (auto simp: generate_invoice_def andthen_eq_Inr Let_def split: if_splits)
  let ?ss = "bill_order (unbilled_deliveries t (cu_id c) fr un db) xs"
  obtain num db1 where n: "next_document_number e t ''customer_invoice'' ''INV'' db = (num, db1)" by fastforce
  have i: "next_id db1 = next_id db" by (rule next_document_number_sales [OF n])
  obtain b db3 where f: "customer_balance_of e (cu_id c) db = Inr b"
      "add_invoice_lines t (next_id db) ?ss (db1\<lparr>next_id := Suc (next_id db)\<rparr>) = Inr db3"
      "invoice_row (next_id db) t c num fr un (kb_outstanding b) ?ss = Inr v"
      "db' = audit e ''sales.invoice.generated'' ''customer_invoice'' (next_id db) a
        [(''customer'', JStr (cu_code c)), (''invoice'', JStr num), (''lines'', JInt (int (iv_lines v))),
         (''total'', JDec (iv_total v))] (db3\<lparr>invoices := invoices db3 @ [v]\<rparr>)"
    using r(7) by (auto simp: file_invoice_def andthen_eq_Inr Let_def n new_id_eq i)
  have ne: "?ss \<noteq> []" using r(6) bill_order_set [of "unbilled_deliveries t (cu_id c) fr un db" xs] by fastforce
  show thesis
    by (rule that [OF r(1,3,2,4) bill_order_billable [OF r(5,1)] ne n f(2) _ f(4)])
      (use customer_balance_scale [OF f(1)] f(3) in blast)
qed

lemma source_amount: "stock_inv db \<Longrightarrow> s \<in> sources db \<Longrightarrow> is_amount (bill_amount s)"
  using stock_delivery_ok [of db] stock_item_ok [of db] by (auto simp: sources_def delivery_ok_def item_ok_def)

lemma map2_line_of:
  assumes "length ks = length ss"
  shows "map il_id (map2 (\<lambda>k s. line_of k t i s) ks ss) = ks"
    "map il_source (map2 (\<lambda>k s. line_of k t i s) ks ss) = map source_ref ss"
    "map il_amount (map2 (\<lambda>k s. line_of k t i s) ks ss) = map bill_amount ss"
  using assms by (induction ks ss rule: list_induct2) simp_all

lemma in_map2_line_of:
  assumes "l \<in> set (map2 (\<lambda>k s. line_of k t i s) ks ss)"
  shows "\<exists>s \<in> set ss. l = line_of (il_id l) t i s"
proof -
  obtain k s where "(k, s) \<in> set (zip ks ss)" "l = line_of k t i s" using assms by auto
  then show ?thesis by (intro bexI [of _ s]) (auto dest: set_zip_rightD)
qed

lemma table_ok_append_many:
  assumes "table_ok key n P rows" and "map key rs = [n'..<n'']" and "n \<le> n'" and "n'' \<le> m" and "n' \<le> n''"
    and "\<And>r. r \<in> set rows \<Longrightarrow> P r \<Longrightarrow> Q r" and "\<And>r. r \<in> set rs \<Longrightarrow> Q r"
  shows "table_ok key m Q (rows @ rs)"
proof -
  have ks: "key r \<in> {n'..<n''}" if "r \<in> set rs" for r using arg_cong [OF assms(2), of set] that by auto
  have old: "key r < n" if "r \<in> set rows" for r using table_okD(2) [OF assms(1) that] .
  have "distinct (map key rows)" using table_okD(1) [OF assms(1)] by (simp add: unique_keys_def)
  moreover have "set (map key rows) \<inter> set [n'..<n''] = {}" using old assms(3) by fastforce
  ultimately have "unique_keys key (rows @ rs)" unfolding unique_keys_def map_append assms(2) distinct_append by simp
  then show ?thesis
    using old ks assms(3-7) table_okD(3) [OF assms(1)] unfolding table_ok_def by fastforce
qed

lemma generate_invoice_stock:
  assumes "stock_inv db" and "generate_invoice e cid fr un a db = Inr (v, db')"
  shows "stock_inv db'"
  using assms(2)
proof (cases rule: generate_invoice_cases)
  case (1 t c ss db1 db3 num n k w i x)
  have s1: "stock_inv (db1\<lparr>next_id := Suc (next_id db)\<rparr>)"
    using next_document_number_sales [OF 1(7)] by (intro stock_inv_mono [OF assms(1)]) simp_all
  have src: "sources (db1\<lparr>next_id := Suc (next_id db)\<rparr>) = sources db"
    using next_document_number_sales [OF 1(7)] by (simp add: sources_def)
  have "stock_inv db3"
  proof (rule restamped_stock [OF s1 add_invoice_lines_effect(1) [OF 1(8)]])
    fix s
    assume s: "s \<in> sources (db1\<lparr>next_id := Suc (next_id db)\<rparr>)" "source_ref s \<in> source_ref ` set ss"
    then obtain r where "r \<in> set ss" "source_ref s = source_ref r" by blast
    then have "s = r" using source_ref_inj [OF assms(1)] s(1) 1(5) src by blast
    then show "Some (next_id db) = None \<or> sold s" using \<open>r \<in> set ss\<close> 1(5) by (simp add: billable_def)
  qed
  then show ?thesis unfolding 1(10) by (rule stock_inv_mono) simp_all
qed

lemma new_line_ok:
  assumes "v \<in> set (invoices db)" and "iv_id v = i" and "iv_tenant v = t" and "iv_status v \<noteq> VCancelled"
    and "s \<in> billed db" and "s = stamped (Some i) r" and "billable t (iv_customer v) (iv_from v) (iv_to v) r"
    and "l = line_of (il_id l) t i r"
  shows "line_ok db l"
proof -
  have "il_invoice l = i" by (subst assms(8)) simp
  then show ?thesis
    unfolding line_ok_def
    by (intro bexI [OF _ assms(1)] bexI [OF _ assms(5)]) (use assms in \<open>simp add: billable_def\<close>)
qed

lemma unbilled_no_line:
  assumes "stock_inv db" and "bill_inv db" and "l \<in> set (invoice_lines db)" and "s \<in> sources db" and "bill_invoice s = None"
  shows "il_source l \<noteq> source_ref s"
proof
  assume eq: "il_source l = source_ref s"
  obtain r where r: "r \<in> billed db" "il_source l = source_ref r"
    using line_ok_source [OF table_okD(3) [OF bill_invD(2) [OF assms(2)] assms(3)]] by blast
  have b: "r \<in> sources db" "bill_invoice r \<noteq> None" using r(1) unfolding billed_def by blast+
  have "r = s" by (rule source_ref_inj [OF assms(1) b(1) assms(4)]) (use r(2) eq in argo)
  then show False using b(2) assms(5) by blast
qed

lemma line_invoice_less:
  assumes "bill_inv db" and "l \<in> set (invoice_lines db)"
  shows "il_invoice l < next_id db"
proof -
  obtain v :: invoice where "v \<in> set (invoices db)" "iv_id v = il_invoice l"
    using table_okD(3) [OF bill_invD(2) [OF assms(1)] assms(2)] unfolding line_ok_def by blast
  then show ?thesis using table_okD(2) [OF bill_invD(1) [OF assms(1)]] by metis
qed

lemma line_ok_mono:
  assumes "line_ok db l" and "set (invoices db) \<subseteq> set (invoices db')" and "billed db \<subseteq> billed db'"
  shows "line_ok db' l"
  using assms unfolding line_ok_def by blast

lemma generate_invoice_bills:
  assumes "stock_inv db" and "bill_inv db" and "generate_invoice e cid fr un a db = Inr (v, db')"
  shows "bill_inv db'"
  using assms(3)
proof (cases rule: generate_invoice_cases)
  case (1 t c ss db1 db3 num n k w i x)
  let ?i = "next_id db" and ?d2 = "db1\<lparr>next_id := Suc (next_id db)\<rparr>"
  note inv = bill_invD [OF assms(2)]
  note n1 = next_document_number_sales [OF 1(7)]
  note eff = add_invoice_lines_effect [OF 1(8)]
  define new where "new = map2 (\<lambda>k s. line_of k t ?i s) [Suc ?i..<Suc ?i + length ss] ss"
  have d2: "sources ?d2 = sources db" "billed ?d2 = billed db" "stock_inv ?d2"
    using n1 stock_inv_mono [OF assms(1), of ?d2] by (simp_all add: billed_def sources_def)
  have ss: "set ss \<subseteq> sources db" "\<And>s. s \<in> set ss \<Longrightarrow> billable t (cu_id c) fr un s" using 1(5) by auto
  have "billed db3 = billed ?d2 \<union> stamped (Some ?i) ` set ss"
    by (rule billed_add [OF d2(3) eff(1)]) (use ss d2(1) in \<open>simp_all add: billable_def\<close>)
  then have billed: "billed db' = billed db \<union> stamped (Some ?i) ` set ss"
    unfolding d2(2) by (simp add: 1(10) billed_def sources_def)
  obtain prev where prev: "at_scale 2 prev" "invoice_row ?i t c num fr un prev ss = Inr v" using 1(9) by blast
  note row = invoice_row_Inr [OF prev(2) source_amount [OF assms(1) subsetD [OF ss(1)]] prev(1)]
  have invs: "invoices db' = invoices db @ [v]" and lns: "invoice_lines db' = invoice_lines db @ new"
    and nxt: "next_id db' = Suc ?i + length ss"
    using eff n1 by (simp_all add: 1(10) restamped_def new_def)
  have less: "?i < next_id db'" unfolding nxt by simp
  have len: "length [Suc ?i..<Suc ?i + length ss] = length ss" unfolding length_upt by linarith
  note new = map2_line_of [OF len, of t ?i, folded new_def]
  have lnew: "length new = length ss" using arg_cong [OF new(3), of length] by simp
  have v: "v \<in> set (invoices db')" by (simp add: invs)
  have t1: "table_ok iv_id (next_id db') invoice_ok (invoices db')"
    unfolding invs by (rule table_ok_append [OF inv(1) row(5,1) less])
  have old_ok: "line_ok db' l" if "line_ok db l" for l
    using that by (rule line_ok_mono) (auto simp: invs billed)
  have new_ok: "line_ok db' l" if l: "l \<in> set new" for l
  proof -
    obtain r where r: "r \<in> set ss" "l = line_of (il_id l) t ?i r" using in_map2_line_of [OF l [unfolded new_def]] by blast
    show ?thesis
      by (rule new_line_ok [OF v row(5,6), of "stamped (Some ?i) r" r]) (use r ss(2) billed row in auto)
  qed
  have t2: "table_ok il_id (next_id db') (line_ok db') (invoice_lines db')"
    unfolding lns by (rule table_ok_append_many [OF inv(2) new(1)]) (use nxt old_ok new_ok in auto)
  have olds: "il_source l \<noteq> source_ref s" if "l \<in> set (invoice_lines db)" "s \<in> set ss" for l s
    by (rule unbilled_no_line [OF assms(1,2) that(1)]) (use ss that(2) in \<open>auto simp: billable_def\<close>)
  have u: "unique_keys il_source (invoice_lines db')"
    using inv(3) eff(4) olds unfolding lns unique_keys_def map_append new(2) by auto
  have cover: "source_ref ` billed db' \<subseteq> il_source ` set (invoice_lines db')"
  proof -
    have "il_source ` set new = source_ref ` set ss" by (metis new(2) set_map)
    then show ?thesis using inv(4) unfolding billed lns by (auto simp: image_Un image_image)
  qed
  have new_inv: "il_invoice l = ?i" if l: "l \<in> set new" for l
    using in_map2_line_of [OF l [unfolded new_def]] by (metis line_of_simps(3))
  have lines_v: "lines_of_invoice ?i db' = new"
    using line_invoice_less [OF assms(2)] new_inv by (fastforce simp: lines_of_invoice_def lns filter_empty_conv filter_id_conv)
  have lines_old: "lines_of_invoice (iv_id w) db' = lines_of_invoice (iv_id w) db" if "w \<in> set (invoices db)" for w
    using table_okD(2) [OF inv(1) that] new_inv by (auto simp: lines_of_invoice_def lns filter_empty_conv)
  have totals: "bill_totals w (lines_of_invoice (iv_id w) db')" if "w \<in> set (invoices db')" for w
  proof (cases "w \<in> set (invoices db)")
    case True
    then show ?thesis using inv(5) lines_old by simp
  next
    case False
    then have "w = v" using that invs by simp
    moreover have "bill_totals v new" using row(2,4,10) new(3) 1(6) lnew by (auto simp: bill_totals_def)
    ultimately show ?thesis using row(5) lines_v by simp
  qed
  have "bill_key v \<notin> bill_key ` set (filter (\<lambda>v. iv_status v \<noteq> VCancelled) (invoices db))"
    using 1(4) row by (force simp: bill_key_def list_ex_iff live_invoice_for_def)
  then have "unique_keys bill_key (filter (\<lambda>v. iv_status v \<noteq> VCancelled) (invoices db'))"
    using inv(6) row(10) unique_keys_append_fresh unfolding invs by fastforce
  then show ?thesis using t1 t2 u cover totals unfolding bill_inv_def by blast
qed

end
