(* ===== verification/BillRuns.thy ===== *)
theory BillRuns
  imports BillingSteps
begin

text \<open>
  Issuing and cancelling bills and the batches: they keep the invariant of the bills, and what was handed
  to a customer stays as it was.
\<close>

section \<open>Issued bills stay\<close>

definition payable :: "invoice \<Rightarrow> bool" where
  "payable v \<longleftrightarrow> iv_status v = VIssued \<or> iv_status v = VPaid"

definition sources_of :: "uuid \<Rightarrow> 'a sales_db_scheme \<Rightarrow> bill_source set" where
  "sources_of i db = {s \<in> billed db. bill_invoice s = Some i}"

text \<open>A handed-out bill keeps its figures, its lines, and the deliveries and items on it.\<close>

definition stays :: "'a sales_db_scheme \<Rightarrow> 'a sales_db_scheme \<Rightarrow> invoice \<Rightarrow> bool" where
  "stays db db' v \<longleftrightarrow> (\<exists>v' \<in> set (invoices db'). same_bill v v' \<and> iv_issued_at v' = iv_issued_at v \<and> payable v'
     \<and> (iv_status v = VPaid \<longrightarrow> iv_status v' = VPaid))
     \<and> lines_of_invoice (iv_id v) db' = lines_of_invoice (iv_id v) db \<and> sources_of (iv_id v) db' = sources_of (iv_id v) db"

definition bills_stay :: "'a sales_db_scheme \<Rightarrow> 'a sales_db_scheme \<Rightarrow> bool" where
  "bills_stay db db' \<longleftrightarrow> (\<forall>v \<in> set (invoices db). payable v \<longrightarrow> stays db db' v)"

lemma same_bill_refl [simp]: "same_bill v v"
  by (simp add: same_bill_def)

lemma same_bill_trans: "same_bill a b \<Longrightarrow> same_bill b c \<Longrightarrow> same_bill a c"
  by (simp add: same_bill_def)

lemma bills_stayI:
  assumes "\<And>v. v \<in> set (invoices db) \<Longrightarrow> payable v \<Longrightarrow> v \<in> set (invoices db')
      \<and> lines_of_invoice (iv_id v) db' = lines_of_invoice (iv_id v) db \<and> sources_of (iv_id v) db' = sources_of (iv_id v) db"
  shows "bills_stay db db'"
  unfolding bills_stay_def stays_def using assms same_bill_refl by blast

lemma bills_stay_refl [simp]: "bills_stay db db"
  by (rule bills_stayI) simp

lemma bills_stay_trans:
  assumes "bills_stay a b" and "bills_stay b c"
  shows "bills_stay a c"
  unfolding bills_stay_def
proof (intro ballI impI)
  fix v assume "v \<in> set (invoices a)" "payable v"
  then have v: "stays a b v" using assms(1) unfolding bills_stay_def by blast
  then obtain w where w: "w \<in> set (invoices b)" "same_bill v w" "iv_issued_at w = iv_issued_at v" "payable w"
      "iv_status v = VPaid \<longrightarrow> iv_status w = VPaid" unfolding stays_def by blast
  then have "stays b c w" using assms(2) unfolding bills_stay_def by blast
  moreover have "iv_id w = iv_id v" using w(2) by (simp add: same_bill_def)
  ultimately show "stays a c v" using v w same_bill_trans unfolding stays_def by metis
qed

lemma same_books_stay: "same_books db db' \<Longrightarrow> bills_stay db db'"
  by (rule bills_stayI) (simp add: same_books_def lines_of_invoice_def sources_of_def)

text \<open>Changes of the other tables do not matter.\<close>

lemma books_same_tables:
  assumes "invoices db' = invoices db" and "invoice_lines db' = invoice_lines db" and "deliveries db' = deliveries db"
    and "sale_items db' = sale_items db" and "next_id db \<le> next_id db'"
  shows "bill_inv db \<Longrightarrow> bill_inv db'" "bills_stay db db'"
proof -
  have b: "billed db' = billed db" using assms by (simp add: billed_def sources_def)
  then show "bills_stay db db'" by (intro bills_stayI) (simp add: assms lines_of_invoice_def sources_of_def)
  assume inv: "bill_inv db"
  have "line_ok db' = line_ok db" by (simp add: line_ok_def assms b fun_eq_iff)
  then show "bill_inv db'"
    using bill_invD [OF inv] assms b table_ok_mono [OF _ assms(5)] unfolding bill_inv_def lines_of_invoice_def by metis
qed

lemma put_invoice_stay:
  assumes "bill_inv db" and "v \<in> set (invoices db)" and "same_bill v v'"
    and "payable v \<Longrightarrow> iv_issued_at v' = iv_issued_at v \<and> payable v' \<and> (iv_status v = VPaid \<longrightarrow> iv_status v' = VPaid)"
  shows "bills_stay db (put_invoice v' db)"
  unfolding bills_stay_def
proof (intro ballI impI)
  fix w assume w: "w \<in> set (invoices db)" "payable w"
  have id: "iv_id v' = iv_id v" using assms(3) by (simp add: same_bill_def)
  have invs: "invoices (put_invoice v' db) = row_update iv_id (iv_id v) (\<lambda>_. v') (invoices db)" by (simp add: put_invoice_def id)
  have same: "lines_of_invoice i (put_invoice v' db) = lines_of_invoice i db" "sources_of i (put_invoice v' db) = sources_of i db" for i
    by (simp_all add: put_invoice_def lines_of_invoice_def sources_of_def billed_def sources_def)
  show "stays db (put_invoice v' db) w"
  proof (cases "iv_id w = iv_id v")
    case True
    then have "w = v" using unique_keysD [OF table_okD(1) [OF bill_invD(1) [OF assms(1)]] w(1) assms(2)] by blast
    moreover have "v' \<in> set (invoices (put_invoice v' db))" unfolding invs by (simp add: in_row_put [OF assms(2)])
    ultimately show ?thesis using assms(3,4) w(2) same unfolding stays_def by blast
  next
    case False
    then have "w \<in> set (invoices (put_invoice v' db))" unfolding invs using w(1) by (simp add: in_row_put [OF assms(2)])
    then show ?thesis using same w(2) same_bill_refl unfolding stays_def by blast
  qed
qed

section \<open>Issuing\<close>

lemma get_invoice_Inr: "get_invoice e db i = Inr v \<Longrightarrow> v \<in> set (invoices db) \<and> iv_id v = i"
  by (auto simp: get_invoice_def andthen_eq_Inr need_eq_Inr dest: find_SomeD)

lemma issue_invoice_cases:
  assumes "issue_invoice e i a db = Inr (v', db')"
  obtains v n p x y t w z where "v \<in> set (invoices db)" "iv_id v = i" "iv_status v = VDraft"
    "v' = v\<lparr>iv_status := VIssued, iv_issued_at := Some (now e)\<rparr>"
    "db' = publish e n p (Some a) None None (audit e x y t w z (put_invoice v' db))"
proof -
  obtain v where v: "get_invoice e db i = Inr v" "iv_status v = VDraft"
    using assms unfolding issue_invoice_def andthen_eq_Inr by (auto split: if_splits)
  obtain q u where qu: "sum_invoice_quantity (lines_of_invoice i db) = (q, u)" by fastforce
  obtain p where "v' = v\<lparr>iv_status := VIssued, iv_issued_at := Some (now e)\<rparr>"
      "db' = publish e ''sales.invoice-issued.v1'' p (Some a) None None
        (audit e ''sales.invoice.issued'' ''customer_invoice'' i (Some a)
          [(''invoice'', JStr (iv_number v)), (''amount_due'', JDec (iv_due v))] (put_invoice v' db))"
    using assms v qu unfolding issue_invoice_def andthen_eq_Inr Let_def by (fastforce simp: andthen_eq_Inr split: if_splits)
  then show thesis using that get_invoice_Inr [OF v(1)] v(2) by blast
qed

lemma stock_inv_put_invoice [simp]: "stock_inv (put_invoice v db) = stock_inv db"
  by (simp add: stock_inv_def put_invoice_def)

lemma issue_invoice_keeps:
  assumes "stock_inv db" and "bill_inv db" and "issue_invoice e i a db = Inr (v', db')"
  shows "stock_inv db'" "bill_inv db'" "bills_stay db db'"
  using assms(3)
proof (atomize (full), cases rule: issue_invoice_cases)
  case (1 v n p x y t w z)
  have same: "same_bill v v'" by (simp add: 1(4) same_bill_def)
  have b: "bill_inv (put_invoice v' db)" by (rule put_invoice_bills [OF assms(2) 1(1) same]) (simp_all add: 1(3,4))
  have s: "bills_stay db (put_invoice v' db)" by (rule put_invoice_stay [OF assms(2) 1(1) same]) (simp add: payable_def 1(3))
  have "bill_inv db'" by (rule books_same_tables(1) [OF _ _ _ _ _ b]) (simp_all add: 1(5))
  moreover have "bills_stay (put_invoice v' db) db'" by (rule books_same_tables(2)) (simp_all add: 1(5))
  ultimately show "stock_inv db' \<and> bill_inv db' \<and> bills_stay db db'" using assms(1) bills_stay_trans [OF s] by (simp add: 1(5))
qed

lemma issue_each_keeps:
  assumes "stock_inv db" and "bill_inv db" and "issue_each e a pv vs acc db = Inr (is, sk, t, db')"
  shows "stock_inv db' \<and> bill_inv db' \<and> bills_stay db db'"
  using assms
proof (induction vs arbitrary: acc db "is" sk t)
  case (Cons v vs)
  obtain db1 acc' is' sk' t' where db1: "db1 = db \<or> (\<exists>x. issue_invoice e (iv_id v) a db = Inr (x, db1))"
      and rest: "issue_each e a pv vs acc' db1 = Inr (is', sk', t', db')"
    using Cons.prems(3) by (fastforce simp: Let_def andthen_eq_Inr split: if_splits sum.splits)
  have "stock_inv db1 \<and> bill_inv db1 \<and> bills_stay db db1"
    using db1 issue_invoice_keeps [OF Cons.prems(1,2)] Cons.prems(1,2) by auto
  then show ?case using Cons.IH [OF _ _ rest] bills_stay_trans by blast
qed simp

lemma issue_batch_keeps:
  assumes "stock_inv db" and "bill_inv db" and "issue_batch e fr un a pv db = Inr (r, db')"
  shows "stock_inv db' \<and> bill_inv db' \<and> bills_stay db db'"
  using assms(3) issue_each_keeps [OF assms(1,2)] by (auto simp: issue_batch_def andthen_eq_Inr Let_def)

section \<open>Drafting\<close>

lemma generate_invoice_stay:
  assumes "stock_inv db" and "bill_inv db" and "generate_invoice e cid fr un a db = Inr (v, db')"
  shows "bills_stay db db'"
  using assms(3)
proof (cases rule: generate_invoice_cases)
  case (1 t c ss db1 db3 num n k w i x)
  let ?i = "next_id db" and ?d2 = "db1\<lparr>next_id := Suc (next_id db)\<rparr>"
  note n1 = next_document_number_sales [OF 1(7)]
  note eff = add_invoice_lines_effect [OF 1(8)]
  have d2: "sources ?d2 = sources db" "billed ?d2 = billed db" "stock_inv ?d2"
    using n1 stock_inv_mono [OF assms(1), of ?d2] by (simp_all add: billed_def sources_def)
  have "billed db3 = billed ?d2 \<union> stamped (Some ?i) ` set ss"
    by (rule billed_add [OF d2(3) eff(1)]) (use 1(5) d2(1) in \<open>auto simp: billable_def\<close>)
  then have billed: "billed db' = billed db \<union> stamped (Some ?i) ` set ss"
    unfolding d2(2) by (simp add: 1(10) billed_def sources_def)
  show ?thesis
  proof (rule bills_stayI)
    fix w assume w: "w \<in> set (invoices db)"
    have less: "iv_id w < ?i" by (rule table_okD(2) [OF bill_invD(1) [OF assms(2)] w])
    have new: "il_invoice l \<noteq> iv_id w" if "l \<in> set (map2 (\<lambda>k s. line_of k t ?i s) ks ss)" for l ks
      using in_map2_line_of [OF that] less by (metis line_of_simps(3) nat_neq_iff)
    obtain ks where "invoice_lines db' = invoice_lines db @ map2 (\<lambda>k s. line_of k t ?i s) ks ss"
      using eff(3) n1 by (simp add: 1(10))
    moreover have "filter (\<lambda>l. il_invoice l = iv_id w) (map2 (\<lambda>k s. line_of k t ?i s) ks ss) = []" for ks
      unfolding filter_empty_conv using new by blast
    ultimately have "lines_of_invoice (iv_id w) db' = lines_of_invoice (iv_id w) db"
      unfolding lines_of_invoice_def by simp
    moreover have "sources_of (iv_id w) db' = sources_of (iv_id w) db"
      using less by (auto simp: sources_of_def billed)
    moreover have "w \<in> set (invoices db')" using w eff(1) n1 by (simp add: 1(10) restamped_def)
    ultimately show "w \<in> set (invoices db') \<and> lines_of_invoice (iv_id w) db' = lines_of_invoice (iv_id w) db
        \<and> sources_of (iv_id w) db' = sources_of (iv_id w) db" by blast
  qed
qed

lemma generate_invoice_keeps:
  assumes "stock_inv db" and "bill_inv db" and "generate_invoice e cid fr un a db = Inr (v, db')"
  shows "stock_inv db' \<and> bill_inv db' \<and> bills_stay db db'"
  using generate_invoice_stock [OF assms(1,3)] generate_invoice_bills [OF assms] generate_invoice_stay [OF assms] by blast

lemma draft_each_keeps:
  assumes "stock_inv db" and "bill_inv db" and "draft_each e fr un a cs db = Inr (vs, errs, db')"
  shows "stock_inv db' \<and> bill_inv db' \<and> bills_stay db db'"
  using assms
proof (induction cs arbitrary: db vs errs)
  case (Cons c cs)
  obtain db1 vs' errs' where db1: "db1 = db \<or> (\<exists>v. generate_invoice e c fr un a db = Inr (v, db1))"
      and rest: "draft_each e fr un a cs db1 = Inr (vs', errs', db')"
    using Cons.prems(3) by (fastforce simp: andthen_eq_Inr split: if_splits sum.splits)
  have "stock_inv db1 \<and> bill_inv db1 \<and> bills_stay db db1"
    using db1 generate_invoice_keeps [OF Cons.prems(1,2)] Cons.prems(1,2) by auto
  then show ?case using Cons.IH [OF _ _ rest] bills_stay_trans by blast
qed simp

lemma draft_month_end_keeps:
  assumes "stock_inv db" and "bill_inv db" and "draft_month_end e t tz a p db = Inr (r, db')"
  shows "stock_inv db' \<and> bill_inv db' \<and> bills_stay db db'"
  using assms(3) draft_each_keeps [OF assms(1,2)] by (auto simp: draft_month_end_def andthen_eq_Inr Let_def split: prod.splits)

section \<open>Cancelling a draft\<close>

lemma cancel_invoice_cases:
  assumes "cancel_invoice e i why a db = Inr (v', db')"
  obtains v n t w x where "v \<in> set (invoices db)" "iv_id v = i" "iv_status v = VDraft"
    "v' = v\<lparr>iv_lines := 0, iv_status := VCancelled, iv_cancelled_at := Some (now e)\<rparr>"
    "db' = audit e n t i w x (put_invoice v' (release_lines (lines_of_invoice i db) db))"
proof -
  obtain v where v: "get_invoice e db i = Inr v" "iv_status v = VDraft"
    using assms unfolding cancel_invoice_def andthen_eq_Inr by (auto split: if_splits)
  then show thesis
    using assms that [of v] get_invoice_Inr [OF v(1)] unfolding cancel_invoice_def andthen_eq_Inr Let_def
    by (auto simp: andthen_eq_Inr)
qed

text \<open>The lines of a bill name exactly the sources stamped with it.\<close>

lemma sources_of_iff:
  assumes "stock_inv db" and "bill_inv db" and "s \<in> billed db"
  shows "source_ref s \<in> il_source ` set (lines_of_invoice i db) \<longleftrightarrow> bill_invoice s = Some i"
proof -
  have s: "s \<in> sources db" using assms(3) by (simp add: billed_def)
  have line: "bill_invoice s = Some (il_invoice l)" if l: "l \<in> set (invoice_lines db)" "il_source l = source_ref s" for l
  proof -
    obtain v :: invoice and r where r: "iv_id v = il_invoice l" "r \<in> billed db" "bill_invoice r = Some (iv_id v)"
        "l = line_of (il_id l) (iv_tenant v) (iv_id v) r"
      using table_okD(3) [OF bill_invD(2) [OF assms(2)] l(1)] unfolding line_ok_def by blast
    have "source_ref r = source_ref s" using l(2) by (subst (asm) r(4)) simp
    then have "r = s" using source_ref_inj [OF assms(1) _ s] r(2) unfolding billed_def by blast
    then show ?thesis using r(1,3) by simp
  qed
  obtain l where "l \<in> set (invoice_lines db)" "il_source l = source_ref s" using bill_invD(4) [OF assms(2)] assms(3) by force
  then show ?thesis using line by (fastforce simp: lines_of_invoice_def image_iff)
qed

lemma released:
  assumes "stock_inv db" and "bill_inv db" and "db' = release_lines (lines_of_invoice i db) db"
  shows "restamped (il_source ` set (lines_of_invoice i db)) None db db'"
    "billed db' = {s \<in> billed db. bill_invoice s \<noteq> Some i}"
    "invoice_lines db' = filter (\<lambda>l. il_invoice l \<noteq> i) (invoice_lines db)" "next_id db' = next_id db"
proof -
  note e = release_lines_effect [of "lines_of_invoice i db" db, folded assms(3)]
  show r: "restamped (il_source ` set (lines_of_invoice i db)) None db db'" and "next_id db' = next_id db" using e by blast+
  show "billed db' = {s \<in> billed db. bill_invoice s \<noteq> Some i}"
    unfolding billed_remove [OF r] using sources_of_iff [OF assms(1,2)] by blast
  have u: "unique_keys il_id (invoice_lines db)" by (rule table_okD(1) [OF bill_invD(2) [OF assms(2)]])
  have "il_id l \<in> il_id ` set (lines_of_invoice i db) \<longleftrightarrow> il_invoice l = i" if "l \<in> set (invoice_lines db)" for l
    using unique_keysD [OF u that] that by (auto simp: lines_of_invoice_def)
  then have "filter (\<lambda>l. il_id l \<notin> il_id ` set (lines_of_invoice i db)) (invoice_lines db)
      = filter (\<lambda>l. il_invoice l \<noteq> i) (invoice_lines db)"
    by (intro filter_cong) simp_all
  then show "invoice_lines db' = filter (\<lambda>l. il_invoice l \<noteq> i) (invoice_lines db)" using e by simp
qed

lemma filter_row_drop:
  "\<not> P r' \<Longrightarrow> filter P (row_update key i (\<lambda>_. r') rows) = filter (\<lambda>r. key r \<noteq> i) (filter P rows)"
  by (induction rows) simp_all

lemma cancel_invoice_frame:
  assumes "stock_inv db" and "bill_inv db" and "cancel_invoice e i why a db = Inr (v', db')"
  obtains v where "v \<in> set (invoices db)" "iv_id v = i" "iv_status v = VDraft"
    "v' = v\<lparr>iv_lines := 0, iv_status := VCancelled, iv_cancelled_at := Some (now e)\<rparr>"
    "invoices db' = row_update iv_id (iv_id v) (\<lambda>_. v') (invoices db)"
    "invoice_lines db' = filter (\<lambda>l. il_invoice l \<noteq> i) (invoice_lines db)" "next_id db' = next_id db"
    "billed db' = {s \<in> billed db. bill_invoice s \<noteq> Some i}" "stock_inv db'"
    "sources db' = restamp (il_source ` set (lines_of_invoice i db)) None ` sources db"
  using assms(3)
proof (cases rule: cancel_invoice_cases)
  case (1 v n t w x)
  let ?d1 = "release_lines (lines_of_invoice i db) db"
  note rel = released [OF assms(1,2) refl, of i]
  have "stock_inv ?d1" by (rule restamped_stock [OF assms(1) rel(1)]) simp
  then have "stock_inv db'" by (simp add: 1(5))
  moreover have "invoices db' = row_update iv_id (iv_id v) (\<lambda>_. v') (invoices db)"
    using rel(1) by (simp add: 1(2,4,5) put_invoice_def restamped_def)
  moreover have "invoice_lines db' = filter (\<lambda>l. il_invoice l \<noteq> i) (invoice_lines db)" "next_id db' = next_id db"
    using rel(3,4) by (simp_all add: 1(5) put_invoice_def)
  moreover have "billed db' = {s \<in> billed db. bill_invoice s \<noteq> Some i}"
    using rel(2) by (simp add: 1(5) put_invoice_def billed_def sources_def)
  moreover have "sources db' = restamp (il_source ` set (lines_of_invoice i db)) None ` sources db"
    unfolding sources_restamped [OF rel(1), symmetric] by (simp add: 1(5) put_invoice_def sources_def)
  ultimately show thesis using that 1(1-4) by blast
qed

lemma other_bills_kept:
  assumes "billed db' = {s \<in> billed db. bill_invoice s \<noteq> Some i}"
    and "invoice_lines db' = filter (\<lambda>l. il_invoice l \<noteq> i) (invoice_lines db)" and "j \<noteq> i"
  shows "lines_of_invoice j db' = lines_of_invoice j db" "sources_of j db' = sources_of j db"
proof -
  have "filter (\<lambda>l. il_invoice l = j) (filter (\<lambda>l. il_invoice l \<noteq> i) ls) = filter (\<lambda>l. il_invoice l = j) ls" for ls
    using assms(3) by (induction ls) auto
  then show "lines_of_invoice j db' = lines_of_invoice j db" by (simp only: lines_of_invoice_def assms(2))
  show "sources_of j db' = sources_of j db" using assms(3) unfolding sources_of_def assms(1) by auto
qed

lemma cancel_invoice_stay:
  assumes "stock_inv db" and "bill_inv db" and "cancel_invoice e i why a db = Inr (v', db')"
  shows "bills_stay db db'"
  using assms
proof (cases rule: cancel_invoice_frame)
  case (1 v)
  show ?thesis
  proof (rule bills_stayI)
    fix w assume w: "w \<in> set (invoices db)" "payable w"
    have "iv_id w \<noteq> i"
      using unique_keysD [OF table_okD(1) [OF bill_invD(1) [OF assms(2)]] w(1) 1(1)] 1(2,3) w(2) by (auto simp: payable_def)
    moreover from this have "w \<in> set (invoices db')" using w(1) unfolding 1(5) in_row_put [OF 1(1)] by (simp add: 1(2))
    ultimately show "w \<in> set (invoices db') \<and> lines_of_invoice (iv_id w) db' = lines_of_invoice (iv_id w) db
        \<and> sources_of (iv_id w) db' = sources_of (iv_id w) db" using other_bills_kept [OF 1(8,6)] by blast
  qed
qed

lemma cancel_invoice_bills:
  assumes "stock_inv db" and "bill_inv db" and "cancel_invoice e i why a db = Inr (v', db')"
  shows "bill_inv db'"
  using assms
proof (cases rule: cancel_invoice_frame)
  case (1 v)
  note inv = bill_invD [OF assms(2)]
  have "invoice_ok v'" using table_okD(3) [OF inv(1) 1(1)] by (simp add: invoice_ok_def 1(4))
  then have t1: "table_ok iv_id (next_id db') invoice_ok (invoices db')"
    unfolding 1(5,7) by (intro table_ok_put [OF inv(1) 1(1)]) (simp_all add: 1(4))
  have other: "w \<in> set (invoices db')" if "w \<in> set (invoices db)" "iv_id w \<noteq> i" for w
    using that unfolding 1(5) in_row_put [OF 1(1)] by (simp add: 1(2))
  have keep: "line_ok db' l" if "line_ok db l" "il_invoice l \<noteq> i" for l
    using that other unfolding line_ok_def 1(8) by fastforce
  have t2: "table_ok il_id (next_id db') (line_ok db') (invoice_lines db')"
    using inv(2) keep unique_keys_filter unfolding 1(6,7) table_ok_def by auto
  have "source_ref s \<in> il_source ` set (invoice_lines db')" if s: "s \<in> billed db" "bill_invoice s \<noteq> Some i" for s
  proof -
    obtain l where l: "l \<in> set (invoice_lines db)" "il_source l = source_ref s" using inv(4) s(1) by force
    then have "il_invoice l \<noteq> i"
      using sources_of_iff [OF assms(1,2) s(1), of i] s(2) by (force simp: lines_of_invoice_def)
    then show ?thesis unfolding 1(6) using l by force
  qed
  then have cover: "source_ref ` billed db' \<subseteq> il_source ` set (invoice_lines db')" unfolding 1(8) by blast
  have totals: "bill_totals w (lines_of_invoice (iv_id w) db')" if "w \<in> set (invoices db')" for w
  proof (cases "w = v'")
    case True
    then show ?thesis by (simp add: bill_totals_def lines_of_invoice_def 1(2,4,6) filter_empty_conv)
  next
    case False
    then have "w \<in> set (invoices db)" "iv_id w \<noteq> i" using that unfolding 1(5) in_row_put [OF 1(1)] by (simp_all add: 1(2))
    then show ?thesis using inv(5) other_bills_kept(1) [OF 1(8,6)] by simp
  qed
  have "unique_keys bill_key (filter (\<lambda>v. iv_status v \<noteq> VCancelled) (invoices db'))"
    unfolding 1(5) by (subst filter_row_drop, simp add: 1(4)) (rule unique_keys_filter [OF inv(6)])
  moreover have "unique_keys il_source (invoice_lines db')" unfolding 1(6) using inv(3) by (rule unique_keys_filter)
  ultimately show ?thesis using t1 t2 cover totals unfolding bill_inv_def by blast
qed

lemma cancel_invoice_keeps:
  assumes "stock_inv db" and "bill_inv db" and "cancel_invoice e i why a db = Inr (v', db')"
  shows "stock_inv db' \<and> bill_inv db' \<and> bills_stay db db'"
  using cancel_invoice_bills [OF assms] cancel_invoice_stay [OF assms] cancel_invoice_frame [OF assms] by metis

end
