(* ===== verification/BillPayments.thy ===== *)
theory BillPayments
  imports BillRuns
begin

text \<open>
  Money received: how a payment is spread over the bills. No bill receives more than its total, a bill is
  paid exactly when its total is covered, and no payment hands out more than it brought.
\<close>

section \<open>The invariant of the allocations\<close>

definition paid_on :: "uuid \<Rightarrow> 'a sales_db_scheme \<Rightarrow> decimal" where
  "paid_on i db = sum_list (map ap_amount (filter (\<lambda>a. ap_invoice a = i) (allocations db)))"

definition spent_by :: "uuid \<Rightarrow> 'a sales_db_scheme \<Rightarrow> decimal" where
  "spent_by p db = sum_list (map ap_amount (filter (\<lambda>a. ap_payment a = p) (allocations db)))"

definition alloc_ok :: "'a sales_db_scheme \<Rightarrow> payment_allocation \<Rightarrow> bool" where
  "alloc_ok db a \<longleftrightarrow> 0 < ap_amount a \<and> is_amount (ap_amount a)
     \<and> (\<exists>p \<in> set (customer_payments db). \<exists>v \<in> set (invoices db). cm_id p = ap_payment a \<and> iv_id v = ap_invoice a \<and> payable v
          \<and> cm_tenant p = iv_tenant v \<and> cm_customer p = iv_customer v \<and> ap_tenant a = iv_tenant v \<and> ap_number a = iv_number v)"

definition settled_right :: "'a sales_db_scheme \<Rightarrow> invoice \<Rightarrow> bool" where
  "settled_right db v \<longleftrightarrow> paid_on (iv_id v) db \<le> iv_total v \<and> (iv_status v = VPaid \<longrightarrow> paid_on (iv_id v) db = iv_total v)
     \<and> (iv_status v = VIssued \<and> 0 < iv_total v \<longrightarrow> paid_on (iv_id v) db < iv_total v)"

definition money_inv :: "'a sales_db_scheme \<Rightarrow> bool" where
  "money_inv db \<longleftrightarrow> table_ok cm_id (next_id db) (\<lambda>p. is_amount (cm_amount p) \<and> cm_status p = CRecorded) (customer_payments db)
     \<and> table_ok ap_id (next_id db) (alloc_ok db) (allocations db)
     \<and> (\<forall>v \<in> set (invoices db). settled_right db v)
     \<and> (\<forall>p \<in> set (customer_payments db). spent_by (cm_id p) db \<le> cm_amount p)"

lemma money_invD:
  assumes "money_inv db"
  shows "table_ok cm_id (next_id db) (\<lambda>p. is_amount (cm_amount p) \<and> cm_status p = CRecorded) (customer_payments db)"
    "table_ok ap_id (next_id db) (alloc_ok db) (allocations db)"
    "v \<in> set (invoices db) \<Longrightarrow> settled_right db v"
    "p \<in> set (customer_payments db) \<Longrightarrow> spent_by (cm_id p) db \<le> cm_amount p"
  using assms unfolding money_inv_def by blast+

text \<open>A change of the bills that keeps every allocated bill and leaves the others without money.\<close>

lemma money_inv_bills:
  assumes "money_inv db" and "customer_payments db' = customer_payments db" and "allocations db' = allocations db"
    and "next_id db \<le> next_id db'" and "bills_stay db db'"
    and "\<And>v'. v' \<in> set (invoices db') \<Longrightarrow>
          v' \<in> set (invoices db) \<or> (0 \<le> iv_total v' \<and> iv_status v' \<noteq> VPaid \<and> (\<forall>a \<in> set (allocations db). ap_invoice a \<noteq> iv_id v'))"
  shows "money_inv db'"
proof -
  note inv = money_invD [OF assms(1)]
  have sums: "paid_on i db' = paid_on i db" "spent_by i db' = spent_by i db" for i
    by (simp_all add: paid_on_def spent_by_def assms(3))
  have ok: "alloc_ok db' a" if "alloc_ok db a" for a
  proof -
    obtain p v where a: "0 < ap_amount a" "is_amount (ap_amount a)" "p \<in> set (customer_payments db)" "v \<in> set (invoices db)"
        "cm_id p = ap_payment a" "iv_id v = ap_invoice a" "payable v" "cm_tenant p = iv_tenant v" "cm_customer p = iv_customer v"
        "ap_tenant a = iv_tenant v" "ap_number a = iv_number v"
      using \<open>alloc_ok db a\<close> unfolding alloc_ok_def by blast
    obtain v' where v': "v' \<in> set (invoices db')" "same_bill v v'" "payable v'"
      using assms(5) a(4,7) unfolding bills_stay_def stays_def by blast
    show ?thesis
      unfolding alloc_ok_def using a v'(2)
      by (intro conjI bexI [OF _ v'(1)] bexI [of _ p]) (simp_all add: assms(2) v'(3) same_bill_def)
  qed
  have right: "settled_right db' v'" if v': "v' \<in> set (invoices db')" for v'
    using assms(6) [OF v']
  proof
    assume "v' \<in> set (invoices db)"
    then show ?thesis using inv(3) by (simp add: settled_right_def sums)
  next
    assume n: "0 \<le> iv_total v' \<and> iv_status v' \<noteq> VPaid \<and> (\<forall>a \<in> set (allocations db). ap_invoice a \<noteq> iv_id v')"
    then have "paid_on (iv_id v') db = 0" by (simp add: paid_on_def filter_empty_conv)
    then show ?thesis using n by (simp add: settled_right_def sums)
  qed
  have "table_ok cm_id (next_id db') (\<lambda>p. is_amount (cm_amount p) \<and> cm_status p = CRecorded) (customer_payments db')"
    unfolding assms(2) by (rule table_ok_mono [OF inv(1) assms(4)])
  moreover have "table_ok ap_id (next_id db') (alloc_ok db') (allocations db')"
    unfolding assms(3) by (rule table_ok_mono [OF inv(2) assms(4)]) (rule ok)
  ultimately show ?thesis using right inv(4) by (simp add: money_inv_def sums assms(2))
qed

lemma same_books_money:
  assumes "money_inv db" and "same_books db db'"
  shows "money_inv db'"
proof -
  have same: "customer_payments db' = customer_payments db" "allocations db' = allocations db" "next_id db \<le> next_id db'"
      "invoices db' = invoices db"
    using assms(2) unfolding same_books_def by blast+
  show ?thesis by (rule money_inv_bills [OF assms(1) same(1-3) same_books_stay [OF assms(2)]]) (simp add: same(4))
qed

lemma no_money_on:
  assumes "money_inv db" and "bill_inv db" and "v \<in> set (invoices db)" and "\<not> payable v" and "a \<in> set (allocations db)"
  shows "ap_invoice a \<noteq> iv_id v"
proof
  assume eq: "ap_invoice a = iv_id v"
  obtain w where "w \<in> set (invoices db)" "iv_id w = ap_invoice a" "payable w"
    using table_okD(3) [OF money_invD(2) [OF assms(1)] assms(5)] unfolding alloc_ok_def by blast
  then show False
    using unique_keysD [OF table_okD(1) [OF bill_invD(1) [OF assms(2)]] _ assms(3)] eq assms(4) by metis
qed

lemma money_below:
  assumes "money_inv db" and "bill_inv db" and "a \<in> set (allocations db)"
  shows "ap_invoice a < next_id db"
proof -
  obtain w where "w \<in> set (invoices db)" "iv_id w = ap_invoice a"
    using table_okD(3) [OF money_invD(2) [OF assms(1)] assms(3)] unfolding alloc_ok_def by blast
  then show ?thesis using table_okD(2) [OF bill_invD(1) [OF assms(2)]] by metis
qed

section \<open>Drafting, issuing, cancelling\<close>

lemma generate_invoice_money:
  assumes "stock_inv db" and "bill_inv db" and "money_inv db" and "generate_invoice e cid fr un a db = Inr (v, db')"
  shows "money_inv db'"
  using assms(4)
proof (cases rule: generate_invoice_cases)
  case (1 t c ss db1 db3 num n k w i x)
  note n1 = next_document_number_sales [OF 1(7)]
  note eff = add_invoice_lines_effect [OF 1(8)]
  obtain prev where prev: "at_scale 2 prev" "invoice_row (next_id db) t c num fr un prev ss = Inr v" using 1(9) by blast
  have amounts: "is_amount (bill_amount s)" if "s \<in> set ss" for s using source_amount [OF assms(1)] that 1(5) by blast
  note row = invoice_row_Inr [OF prev(2) amounts prev(1)]
  have v: "0 \<le> iv_total v" "iv_status v \<noteq> VPaid" "iv_id v = next_id db" using row by (simp_all add: invoice_ok_def is_amount_def)
  show ?thesis
  proof (rule money_inv_bills [OF assms(3) _ _ _ generate_invoice_stay [OF assms(1,2,4)]])
    show "customer_payments db' = customer_payments db" "allocations db' = allocations db" "next_id db \<le> next_id db'"
      using eff(1,2) n1 by (simp_all add: 1(10) restamped_def)
    fix v' assume "v' \<in> set (invoices db')"
    then have "v' \<in> set (invoices db) \<or> v' = v" using eff(1) n1 by (auto simp: 1(10) restamped_def)
    then show "v' \<in> set (invoices db) \<or> (0 \<le> iv_total v' \<and> iv_status v' \<noteq> VPaid \<and> (\<forall>a \<in> set (allocations db). ap_invoice a \<noteq> iv_id v'))"
      using v money_below [OF assms(3,2)] by (metis nat_neq_iff)
  qed
qed

text \<open>A draft that is replaced never carries money.\<close>

lemma put_draft_money:
  assumes "money_inv db" and "bill_inv db" and "v \<in> set (invoices db)" and "iv_status v = VDraft"
    and "invoices db' = row_update iv_id (iv_id v) (\<lambda>_. v') (invoices db)" and "iv_id v' = iv_id v" and "iv_total v' = iv_total v"
    and "iv_status v' \<noteq> VPaid" and "customer_payments db' = customer_payments db" and "allocations db' = allocations db"
    and "next_id db \<le> next_id db'" and "bills_stay db db'"
  shows "money_inv db'"
proof (rule money_inv_bills [OF assms(1,9,10,11,12)])
  fix w assume "w \<in> set (invoices db')"
  then have "w = v' \<or> w \<in> set (invoices db)" unfolding assms(5) in_row_put [OF assms(3)] by blast
  moreover have "0 \<le> iv_total v" using table_okD(3) [OF bill_invD(1) [OF assms(2)] assms(3)] by (simp add: invoice_ok_def is_amount_def)
  moreover have "\<not> payable v" by (simp add: payable_def assms(4))
  ultimately show "w \<in> set (invoices db) \<or> (0 \<le> iv_total w \<and> iv_status w \<noteq> VPaid \<and> (\<forall>a \<in> set (allocations db). ap_invoice a \<noteq> iv_id w))"
    using assms(6-8) no_money_on [OF assms(1-3)] by auto
qed

lemma issue_invoice_money:
  assumes "stock_inv db" and "bill_inv db" and "money_inv db" and "issue_invoice e i a db = Inr (v', db')"
  shows "money_inv db'"
  using assms(4)
proof (cases rule: issue_invoice_cases)
  case (1 v n p x y t w z)
  show ?thesis
    by (rule put_draft_money [OF assms(3,2) 1(1,3) _ _ _ _ _ _ _ issue_invoice_keeps(3) [OF assms(1,2,4)], of v'])
      (simp_all add: 1(4,5) put_invoice_def)
qed

lemma cancel_invoice_money:
  assumes "stock_inv db" and "bill_inv db" and "money_inv db" and "cancel_invoice e i why a db = Inr (v', db')"
  shows "money_inv db'"
  using assms(4)
proof (cases rule: cancel_invoice_cases)
  case (1 v n t w x)
  have r: "restamped (il_source ` set (lines_of_invoice i db)) None db (release_lines (lines_of_invoice i db) db)"
    by (rule released(1) [OF assms(1,2) refl])
  show ?thesis
    by (rule put_draft_money [OF assms(3,2) 1(1,3) _ _ _ _ _ _ _ cancel_invoice_stay [OF assms(1,2,4)], of v'])
      (use r in \<open>simp_all add: 1(2,4,5) put_invoice_def restamped_def\<close>)
qed

section \<open>Spreading a payment\<close>

lemma allocated_is_paid_on: "money_inv db \<Longrightarrow> allocated_to i db = paid_on i db"
proof -
  assume inv: "money_inv db"
  have "list_ex (\<lambda>p. cm_id p = ap_payment a \<and> cm_status p = CRecorded) (customer_payments db)" if a: "a \<in> set (allocations db)" for a
  proof -
    obtain p where "p \<in> set (customer_payments db)" "cm_id p = ap_payment a"
      using table_okD(3) [OF money_invD(2) [OF inv] a] unfolding alloc_ok_def by blast
    moreover from this have "cm_status p = CRecorded" using table_okD(3) [OF money_invD(1) [OF inv]] by blast
    ultimately show ?thesis by (auto simp: list_ex_iff)
  qed
  then have "filter (\<lambda>a. ap_invoice a = i \<and> list_ex (\<lambda>p. cm_id p = ap_payment a \<and> cm_status p = CRecorded) (customer_payments db))
      (allocations db) = filter (\<lambda>a. ap_invoice a = i) (allocations db)"
    by (intro filter_cong) auto
  then show ?thesis by (simp add: allocated_to_def paid_on_def)
qed

lemma paid_on_scale: "money_inv db \<Longrightarrow> at_scale 2 (paid_on i db)" "money_inv db \<Longrightarrow> 0 \<le> paid_on i db"
proof -
  assume inv: "money_inv db"
  have a: "is_amount (ap_amount a)" if "a \<in> set (allocations db)" for a
    using table_okD(3) [OF money_invD(2) [OF inv] that] unfolding alloc_ok_def by blast
  show "at_scale 2 (paid_on i db)" unfolding paid_on_def by (rule at_scale_sum_list) (use a in \<open>auto simp: is_amount_def\<close>)
  show "0 \<le> paid_on i db" unfolding paid_on_def by (rule sum_list_nonneg) (use a in \<open>auto simp: is_amount_def\<close>)
qed

lemma invoice_outstanding_exact:
  assumes "bill_inv db" and "money_inv db" and "v \<in> set (invoices db)" and "invoice_outstanding v db = Inr x"
  shows "x = iv_total v - paid_on (iv_id v) db" "at_scale 2 x" "0 \<le> x"
proof -
  let ?y = "iv_total v - paid_on (iv_id v) db"
  have t: "is_amount (iv_total v)" using table_okD(3) [OF bill_invD(1) [OF assms(1)] assms(3)] by (simp add: invoice_ok_def)
  have le: "paid_on (iv_id v) db \<le> iv_total v" using money_invD(3) [OF assms(2,3)] by (simp add: settled_right_def)
  note p = paid_on_scale [OF assms(2), of "iv_id v"]
  have s: "at_scale 2 ?y" using t p(1) by (simp add: is_amount_def at_scale_diff)
  have "dec_sub (iv_total v) (paid_on (iv_id v) db) = ?y"
    using t p le by (subst dec_sub_exact [of 2]) (simp_all add: is_amount_def prec_def)
  then have "money2 ?y = Inr x" using assms(4) by (simp add: invoice_outstanding_def allocated_is_paid_on [OF assms(2)])
  then have "x = ?y" by (rule money2_at_scale [OF s])
  then show "x = iv_total v - paid_on (iv_id v) db" "at_scale 2 x" "0 \<le> x" using s le by simp_all
qed

text \<open>One portion of a payment put on one bill.\<close>

definition allot :: "payment_allocation \<Rightarrow> invoice \<Rightarrow> bool \<Rightarrow> 'a sales_db_scheme \<Rightarrow> 'a sales_db_scheme" where
  "allot a v full db =
     (let db2 = db\<lparr>next_id := Suc (next_id db), allocations := allocations db @ [a]\<rparr>
      in if full then put_invoice (v\<lparr>iv_status := VPaid\<rparr>) db2 else db2)"

lemma allot_tables [simp]:
  "customer_payments (allot a v full db) = customer_payments db" "allocations (allot a v full db) = allocations db @ [a]"
  "invoice_lines (allot a v full db) = invoice_lines db" "deliveries (allot a v full db) = deliveries db"
  "sale_items (allot a v full db) = sale_items db" "next_id (allot a v full db) = Suc (next_id db)"
  by (simp_all add: allot_def Let_def put_invoice_def)

lemma allot_invoices: "invoices (allot a v full db)
  = (if full then row_update iv_id (iv_id v) (\<lambda>_. v\<lparr>iv_status := VPaid\<rparr>) (invoices db) else invoices db)"
  by (simp add: allot_def Let_def put_invoice_def)

lemma allot_keeps:
  assumes "stock_inv db" and "bill_inv db" and "v \<in> set (invoices db)" and "payable v"
  shows "stock_inv (allot a v full db)" "bill_inv (allot a v full db)" "bills_stay db (allot a v full db)"
proof -
  let ?d2 = "db\<lparr>next_id := Suc (next_id db), allocations := allocations db @ [a]\<rparr>"
  have d2: "stock_inv ?d2" "bill_inv ?d2" "bills_stay db ?d2"
    using stock_inv_mono [OF assms(1), of ?d2] books_same_tables(1) [OF _ _ _ _ _ assms(2), of ?d2] books_same_tables(2) [of ?d2 db] by simp_all
  have same: "same_bill v (v\<lparr>iv_status := VPaid\<rparr>)" by (simp add: same_bill_def)
  have v: "v \<in> set (invoices ?d2)" "iv_status v \<noteq> VCancelled" using assms(3,4) by (auto simp: payable_def)
  have "bill_inv (put_invoice (v\<lparr>iv_status := VPaid\<rparr>) ?d2)" by (rule put_invoice_bills [OF d2(2) v(1) same v(2)]) simp
  moreover have "bills_stay ?d2 (put_invoice (v\<lparr>iv_status := VPaid\<rparr>) ?d2)"
    by (rule put_invoice_stay [OF d2(2) v(1) same]) (simp add: payable_def)
  ultimately show "stock_inv (allot a v full db)" "bill_inv (allot a v full db)" "bills_stay db (allot a v full db)"
    using d2 bills_stay_trans [OF d2(3)] by (auto simp: allot_def Let_def)
qed

lemma sums_allot:
  "paid_on i (allot a v full db) = paid_on i db + (if ap_invoice a = i then ap_amount a else 0)"
  "spent_by i (allot a v full db) = spent_by i db + (if ap_payment a = i then ap_amount a else 0)"
  by (simp_all add: paid_on_def spent_by_def)

lemma allot_money:
  assumes "stock_inv db" and "bill_inv db" and "money_inv db" and "v \<in> set (invoices db)" and "payable v"
    and "p \<in> set (customer_payments db)" and "cm_tenant p = iv_tenant v" and "cm_customer p = iv_customer v"
    and "a = \<lparr>ap_id = next_id db, ap_tenant = cm_tenant p, ap_payment = cm_id p, ap_invoice = iv_id v, ap_number = iv_number v, ap_amount = x\<rparr>"
    and "0 < x" and "is_amount x" and "x \<le> iv_total v - paid_on (iv_id v) db" and "x \<le> cm_amount p - spent_by (cm_id p) db"
    and "full \<longleftrightarrow> x = iv_total v - paid_on (iv_id v) db"
  shows "money_inv (allot a v full db)"
proof -
  let ?db = "allot a v full db"
  note inv = money_invD [OF assms(3)]
  note u = table_okD(1) [OF bill_invD(1) [OF assms(2)]]
  have stay: "bills_stay db ?db" by (rule allot_keeps(3) [OF assms(1,2,4,5)])
  have ok: "alloc_ok ?db b" if b: "alloc_ok db b" for b
  proof -
    obtain q w where w: "0 < ap_amount b" "is_amount (ap_amount b)" "q \<in> set (customer_payments db)" "w \<in> set (invoices db)"
        "cm_id q = ap_payment b" "iv_id w = ap_invoice b" "payable w" "cm_tenant q = iv_tenant w" "cm_customer q = iv_customer w"
        "ap_tenant b = iv_tenant w" "ap_number b = iv_number w"
      using b unfolding alloc_ok_def by blast
    obtain w' where w': "w' \<in> set (invoices ?db)" "same_bill w w'" "payable w'"
      using stay w(4,7) unfolding bills_stay_def stays_def by blast
    show ?thesis
      unfolding alloc_ok_def using w w'(2) by (intro conjI bexI [OF _ w'(1)] bexI [of _ q]) (simp_all add: w'(3) same_bill_def)
  qed
  have "alloc_ok db a"
    unfolding alloc_ok_def using assms(4-11) by (intro conjI bexI [of _ p] bexI [of _ v]) simp_all
  then have t: "table_ok ap_id (next_id ?db) (alloc_ok ?db) (allocations ?db)"
    using table_ok_append [where r = a and n' = "Suc (next_id db)", OF table_ok_mono [OF inv(2) order_refl ok]] ok
    by (simp add: assms(9))
  have right: "settled_right ?db w" if w: "w \<in> set (invoices ?db)" for w
  proof (cases "iv_id w = iv_id v")
    case True
    have "w = (if full then v\<lparr>iv_status := VPaid\<rparr> else v)"
    proof (cases full)
      case True
      then show ?thesis using w \<open>iv_id w = iv_id v\<close> by (simp add: allot_invoices in_row_put [OF assms(4)])
    next
      case False
      then have "w \<in> set (invoices db)" using w by (simp add: allot_invoices)
      then show ?thesis using unique_keysD [OF u _ assms(4) True] False by simp
    qed
    moreover have "paid_on (iv_id v) ?db = paid_on (iv_id v) db + x" by (simp add: sums_allot assms(9))
    moreover have "iv_status v \<noteq> VPaid" using inv(3) [OF assms(4)] assms(10,12) by (auto simp: settled_right_def)
    ultimately show ?thesis using assms(12,14) by (auto simp: settled_right_def)
  next
    case False
    then have "w \<in> set (invoices db)" using w by (auto simp: allot_invoices in_row_put [OF assms(4)] split: if_splits)
    then show ?thesis using inv(3) False by (simp add: settled_right_def sums_allot assms(9))
  qed
  have "spent_by (cm_id q) ?db \<le> cm_amount q" if q: "q \<in> set (customer_payments db)" for q
  proof (cases "cm_id q = cm_id p")
    case True
    have "q = p" by (rule unique_keysD [OF table_okD(1) [OF inv(1)] q assms(6) True])
    then show ?thesis using assms(13) by (simp add: sums_allot assms(9))
  next
    case False
    then show ?thesis using inv(4) [OF q] by (simp add: sums_allot assms(9))
  qed
  moreover have "table_ok cm_id (Suc (next_id db)) (\<lambda>p. is_amount (cm_amount p) \<and> cm_status p = CRecorded) (customer_payments db)"
    by (rule table_ok_mono [OF inv(1)]) simp_all
  ultimately show ?thesis using t right by (simp add: money_inv_def)
qed

text \<open>The loop. The bills it still has to visit are as it read them.\<close>

lemma min_scale: "at_scale n x \<Longrightarrow> at_scale n y \<Longrightarrow> at_scale n (min x y)"
  by (simp add: min_def)

lemma allot_other:
  assumes "v \<in> set (invoices db)" and "w \<in> set (invoices db)" and "iv_id w \<noteq> iv_id v"
  shows "w \<in> set (invoices (allot a v full db))"
  using assms by (simp add: allot_invoices in_row_put [OF assms(1)])

lemma apply_payment_step:
  assumes "apply_payment p rest (v # vs) db = Inr (ns, db')" and "bill_inv db" and "money_inv db" and "v \<in> set (invoices db)"
    and "at_scale 2 rest" and "\<bar>rest\<bar> < 10 ^ 14"
  obtains (spent) "rest \<le> 0" "db' = db"
    | (settled) "paid_on (iv_id v) db = iv_total v" "apply_payment p rest vs db = Inr (ns, db')"
    | (portion) x ms where "0 < x" "is_amount x" "x \<le> iv_total v - paid_on (iv_id v) db" "x \<le> rest"
        "apply_payment p (rest - x) vs
           (allot \<lparr>ap_id = next_id db, ap_tenant = cm_tenant p, ap_payment = cm_id p, ap_invoice = iv_id v, ap_number = iv_number v,
                   ap_amount = x\<rparr> v (x = iv_total v - paid_on (iv_id v) db) db) = Inr (ms, db')"
        "x = min rest (iv_total v - paid_on (iv_id v) db)"
proof (cases "rest \<le> 0")
  case True
  then show thesis using assms(1) spent by simp
next
  case False
  obtain out where out: "invoice_outstanding v db = Inr out"
    using assms(1) False by (auto simp: andthen_eq_Inr)
  note o = invoice_outstanding_exact [OF assms(2-4) out]
  show thesis
  proof (cases "out \<le> 0")
    case True
    then show thesis using assms(1) False out o settled by simp
  next
    case pos: False
    let ?x = "min rest out"
    have s: "at_scale 2 ?x" by (rule min_scale [OF assms(5) o(2)])
    have x: "0 < ?x" "\<bar>?x\<bar> < 10 ^ 14" using False pos assms(6) by auto
    have "money2 ?x = Inr ?x" by (rule money2_fits [OF s], rule order_less_trans [OF x(2)]) simp
    moreover have "numeric 16 2 ?x = Inr ?x" by (rule numeric_fits [OF s]) (use x(2) in simp)
    moreover have "dec_sub rest ?x = rest - ?x"
      using assms(5,6) s x by (intro dec_sub_exact [of 2]) (auto simp: prec_def)
    moreover have "out \<le> ?x \<longleftrightarrow> ?x = out" by linarith
    ultimately obtain ms where "apply_payment p (rest - ?x) vs
           (allot \<lparr>ap_id = next_id db, ap_tenant = cm_tenant p, ap_payment = cm_id p, ap_invoice = iv_id v, ap_number = iv_number v,
                   ap_amount = ?x\<rparr> v (?x = out) db) = Inr (ms, db')"
      using assms(1) False pos out by (auto simp: andthen_eq_Inr Let_def new_id_eq allot_def put_invoice_def)
    moreover have "is_amount ?x" using s x by (simp add: is_amount_def)
    ultimately show thesis using portion [of ?x ms] x(1) o(1) by simp
  qed
qed

lemma apply_payment_keeps:
  assumes "apply_payment p rest vs db = Inr (ns, db')" and "stock_inv db" and "bill_inv db" and "money_inv db"
    and "set vs \<subseteq> set (invoices db)" and "distinct (map iv_id vs)"
    and "\<And>v. v \<in> set vs \<Longrightarrow> payable v \<and> iv_tenant v = cm_tenant p \<and> iv_customer v = cm_customer p"
    and "p \<in> set (customer_payments db)" and "at_scale 2 rest" and "\<bar>rest\<bar> < 10 ^ 14" and "rest \<le> cm_amount p - spent_by (cm_id p) db"
  shows "stock_inv db' \<and> bill_inv db' \<and> money_inv db' \<and> bills_stay db db' \<and> customer_payments db' = customer_payments db"
  using assms
proof (induction vs arbitrary: rest db ns)
  case (Cons v vs)
  have v: "v \<in> set (invoices db)" "payable v" "cm_tenant p = iv_tenant v" "cm_customer p = iv_customer v"
    using Cons.prems(5,7) by simp_all
  show ?case
    using Cons.prems(1,3,4) v(1) Cons.prems(9,10)
  proof (cases rule: apply_payment_step)
    case spent
    then show ?thesis using Cons.prems(2-4) by simp
  next
    case settled
    show ?thesis by (rule Cons.IH [OF settled(2) Cons.prems(2-4)]) (use Cons.prems(5-11) in auto)
  next
    case (portion x ms)
    let ?a = "\<lparr>ap_id = next_id db, ap_tenant = cm_tenant p, ap_payment = cm_id p, ap_invoice = iv_id v, ap_number = iv_number v,
                   ap_amount = x\<rparr>"
    let ?full = "x = iv_total v - paid_on (iv_id v) db"
    let ?db = "allot ?a v ?full db"
    note keeps = allot_keeps [OF Cons.prems(2,3) v(1,2), of ?a ?full]
    have x: "x \<le> cm_amount p - spent_by (cm_id p) db" using portion(4) Cons.prems(11) by linarith
    have money: "money_inv ?db"
      by (rule allot_money [OF Cons.prems(2-4) v(1,2) Cons.prems(8) v(3,4) refl portion(1,2,3) x refl])
    have rest: "\<bar>rest - x\<bar> < 10 ^ 14" "at_scale 2 (rest - x)"
      using portion(1,2,4) Cons.prems(9,10) by (auto simp: is_amount_def at_scale_diff)
    have "w \<in> set (invoices ?db)" if w: "w \<in> set vs" for w
    proof (rule allot_other [OF v(1)])
      show "w \<in> set (invoices db)" using w Cons.prems(5) by auto
      show "iv_id w \<noteq> iv_id v" using w Cons.prems(6) by (metis distinct.simps(2) image_eqI list.set_map list.simps(9))
    qed
    then have "stock_inv db' \<and> bill_inv db' \<and> money_inv db' \<and> bills_stay ?db db' \<and> customer_payments db' = customer_payments ?db"
      using Cons.prems(6,7,8,11) rest x
      by (intro Cons.IH [OF portion(5) keeps(1,2) money]) (auto simp: sums_allot)
    then show ?thesis using bills_stay_trans [OF keeps(3)] by simp
  qed
qed simp

lemma record_customer_payment_cases:
  assumes "record_customer_payment e cmd actor db = Inr (p, db')"
  obtains t c num db1 ns db3 n pl x y z where "get_customer e db (rp_customer cmd) = Inr c" "require_current_tenant e = Inr t"
    "next_document_number e t ''customer_payment'' ''CPY'' db = (num, db1)" "cm_id p = next_id db" "cm_status p = CRecorded"
    "cm_tenant p = t" "cm_customer p = cu_id c" "\<exists>m. money2 (rp_amount cmd) = Inr m \<and> numeric 16 2 m = Inr (cm_amount p)"
    "cm_received_at p = now e"
    "apply_payment p (cm_amount p) (invoices_to_settle t (cu_id c) (rp_invoices cmd) db)
       (db1\<lparr>next_id := Suc (next_id db), customer_payments := customer_payments db @ [p]\<rparr>) = Inr (ns, db3)"
    "db' = publish e n pl (Some actor) None None (audit e x y (next_id db) (Some actor) z db3)"
proof -
  obtain t c where r: "require_current_tenant e = Inr t" "get_customer e db (rp_customer cmd) = Inr c"
    using assms by (auto simp: record_customer_payment_def andthen_eq_Inr)
  obtain num db1 where n: "next_document_number e t ''customer_payment'' ''CPY'' db = (num, db1)" by fastforce
  note n1 = next_document_number_sales [OF n]
  show thesis
    using assms r n n1(1,9) that [OF r(2,1) n]
    by (fastforce simp: record_customer_payment_def andthen_eq_Inr Let_def new_id_eq)
qed

text \<open>A recorded payment: its row, before anything is allotted.\<close>

lemma table_ok_gap: "table_ok key n P rows \<Longrightarrow> key r = n \<Longrightarrow> P r \<Longrightarrow> n < n' \<Longrightarrow> table_ok key n' P (rows @ [r])"
  by (rule table_ok_append)

lemma add_payment_keeps:
  assumes "stock_inv db" and "bill_inv db" and "money_inv db" and "cm_id p = next_id db" and "cm_status p = CRecorded"
    and "is_amount (cm_amount p)" and "next_document_number e t dt px db = (num, db1)"
    and "db2 = db1\<lparr>next_id := Suc (next_id db), customer_payments := customer_payments db @ [p]\<rparr>"
  shows "stock_inv db2" "bill_inv db2" "money_inv db2" "bills_stay db db2" "invoices db2 = invoices db" "spent_by (cm_id p) db2 = 0"
proof -
  note n1 = next_document_number_sales [OF assms(7)]
  note inv = money_invD [OF assms(3)]
  have same: "invoices db2 = invoices db" "invoice_lines db2 = invoice_lines db" "deliveries db2 = deliveries db"
      "sale_items db2 = sale_items db" "next_id db \<le> next_id db2" "allocations db2 = allocations db"
      "customer_payments db2 = customer_payments db @ [p]" "next_id db2 = Suc (next_id db)"
    using n1 by (simp_all add: assms(8))
  show "stock_inv db2" using n1 by (intro stock_inv_mono [OF assms(1)]) (simp_all add: assms(8))
  show "bill_inv db2" by (rule books_same_tables(1) [OF same(1-5) assms(2)])
  show "bills_stay db db2" by (rule books_same_tables(2) [OF same(1-5)])
  show "invoices db2 = invoices db" by (rule same(1))
  have old: "ap_payment a < next_id db" if a: "a \<in> set (allocations db)" for a
  proof -
    obtain q where "q \<in> set (customer_payments db)" "cm_id q = ap_payment a"
      using table_okD(3) [OF inv(2) a] unfolding alloc_ok_def by blast
    then show ?thesis using table_okD(2) [OF inv(1)] by metis
  qed
  have "filter (\<lambda>a. ap_payment a = cm_id p) (allocations db) = []"
    unfolding filter_empty_conv using old assms(4) by (metis nat_neq_iff)
  then show zero: "spent_by (cm_id p) db2 = 0" by (simp add: spent_by_def same(6))
  have sums: "paid_on i db2 = paid_on i db" "spent_by i db2 = spent_by i db" for i by (simp_all add: paid_on_def spent_by_def same(6))
  have "alloc_ok db2 a" if "alloc_ok db a" for a using that unfolding alloc_ok_def by (auto simp: same(1,7))
  then have "table_ok ap_id (next_id db2) (alloc_ok db2) (allocations db2)"
    using table_ok_mono [OF inv(2) same(5)] by (simp add: same(6))
  moreover have "table_ok cm_id (next_id db2) (\<lambda>p. is_amount (cm_amount p) \<and> cm_status p = CRecorded) (customer_payments db2)"
    unfolding same(7) by (rule table_ok_append [OF inv(1) assms(4)]) (simp_all add: assms(5,6) same(8))
  moreover have "settled_right db2 v" if "v \<in> set (invoices db2)" for v
    using inv(3) that by (simp add: settled_right_def sums same(1))
  moreover have "spent_by (cm_id q) db2 \<le> cm_amount q" if "q \<in> set (customer_payments db2)" for q
    using that inv(4) zero assms(6) by (auto simp: same(7) is_amount_def sums)
  ultimately show "money_inv db2" by (simp add: money_inv_def)
qed

lemma invoices_to_settle_targets:
  assumes "bill_inv db" and "v \<in> set (invoices_to_settle t c ids db)"
  shows "v \<in> set (invoices db) \<and> payable v \<and> iv_tenant v = t \<and> iv_customer v = c"
  using assms(2) by (auto simp: invoices_to_settle_def payable_invoices_def payable_def PAYABLE_INVOICE_STATUSES_def)

lemma distinct_targets:
  assumes "bill_inv db"
  shows "distinct (map iv_id (invoices_to_settle t c ids db))"
proof -
  have "distinct (map iv_id (filter P (filter Q (invoices db))))" for P Q
    using table_okD(1) [OF bill_invD(1) [OF assms]] by (simp add: unique_keys_def distinct_map inj_on_def)
  then show ?thesis
    unfolding invoices_to_settle_def payable_invoices_def
    by (simp add: distinct_map inj_on_def)
qed

lemma record_customer_payment_keeps:
  assumes "stock_inv db" and "bill_inv db" and "money_inv db" and "0 < rp_amount cmd"
    and "record_customer_payment e cmd actor db = Inr (p, db')"
  shows "stock_inv db' \<and> bill_inv db' \<and> money_inv db' \<and> bills_stay db db'"
  using assms(5)
proof (cases rule: record_customer_payment_cases)
  case (1 t c num db1 ns db3 n pl x y z)
  let ?d2 = "db1\<lparr>next_id := Suc (next_id db), customer_payments := customer_payments db @ [p]\<rparr>"
  obtain m where m: "money2 (rp_amount cmd) = Inr m" "numeric 16 2 m = Inr (cm_amount p)" using 1(8) by blast
  have "0 \<le> m" using quantize_money_Inr(2) [of "rp_amount cmd" None m] m(1) assms(4) by (simp add: money2_def)
  then have amt: "is_amount (cm_amount p)" by (rule numeric_is_amount [OF m(2)])
  note d2 = add_payment_keeps [OF assms(1-3) 1(4,5) amt 1(3) refl]
  have "stock_inv db3 \<and> bill_inv db3 \<and> money_inv db3 \<and> bills_stay ?d2 db3 \<and> customer_payments db3 = customer_payments ?d2"
  proof (rule apply_payment_keeps [OF 1(10) d2(1-3)])
    show "set (invoices_to_settle t (cu_id c) (rp_invoices cmd) db) \<subseteq> set (invoices ?d2)"
      unfolding d2(5) using invoices_to_settle_targets [OF assms(2)] by blast
    show "distinct (map iv_id (invoices_to_settle t (cu_id c) (rp_invoices cmd) db))" by (rule distinct_targets [OF assms(2)])
    show "payable v \<and> iv_tenant v = cm_tenant p \<and> iv_customer v = cm_customer p"
      if "v \<in> set (invoices_to_settle t (cu_id c) (rp_invoices cmd) db)" for v
      using invoices_to_settle_targets [OF assms(2) that] 1(6,7) by simp
    show "p \<in> set (customer_payments ?d2)" by simp
    show "at_scale 2 (cm_amount p)" "\<bar>cm_amount p\<bar> < 10 ^ 14" using amt by (simp_all add: is_amount_def)
    show "cm_amount p \<le> cm_amount p - spent_by (cm_id p) ?d2" unfolding d2(6) by simp
  qed
  then have k: "stock_inv db3" "bill_inv db3" "money_inv db3" "bills_stay db db3"
    using bills_stay_trans [OF d2(4)] by blast+
  have same: "same_books db3 db'" by (simp add: 1(11) same_books_def billed_def sources_def)
  have "stock_inv db'" by (rule stock_inv_mono [OF k(1)]) (simp_all add: 1(11))
  then show ?thesis
    using same_books_bills [OF k(2) same] same_books_money [OF k(3) same] bills_stay_trans [OF k(4) same_books_stay [OF same]] by blast
qed

end
