(* ===== verification/SalesGuarantees.thy ===== *)
theory SalesGuarantees
  imports BillPayments "HOL-Library.Multiset"
begin

text \<open>
  What the selling side guarantees along every run of its operations: bills that add up, figures that stay
  once a bill is handed out, money that is never allotted twice, and the effect of single operations.
\<close>

section \<open>The batches and the money\<close>

definition sales_inv :: "'a sales_db_scheme \<Rightarrow> bool" where
  "sales_inv db \<longleftrightarrow> stock_inv db \<and> bill_inv db \<and> money_inv db"

lemma sales_invD:
  assumes "sales_inv db"
  shows "stock_inv db" "bill_inv db" "money_inv db"
  using assms unfolding sales_inv_def by blast+

definition sales_keeps :: "'a sales_db_scheme \<Rightarrow> 'a sales_db_scheme \<Rightarrow> bool" where
  "sales_keeps db db' \<longleftrightarrow> (sales_inv db \<longrightarrow> sales_inv db' \<and> bills_stay db db')"

lemma sales_keeps_refl [simp]: "sales_keeps db db"
  by (simp add: sales_keeps_def)

lemma sales_keeps_trans: "sales_keeps a b \<Longrightarrow> sales_keeps b c \<Longrightarrow> sales_keeps a c"
  unfolding sales_keeps_def using bills_stay_trans by blast

lemma desk_keeps:
  assumes "desk_frame db db'" and "stock_inv db \<Longrightarrow> stock_inv db'"
  shows "sales_keeps db db'"
proof -
  have same: "same_books db db'" by (rule desk_same_books [OF assms(1)])
  show ?thesis
    unfolding sales_keeps_def sales_inv_def
    using assms(2) same_books_bills [OF _ same] same_books_money [OF _ same] same_books_stay [OF same] by blast
qed

lemma books_keep:
  assumes "stock_inv db \<Longrightarrow> same_books db db'" and "stock_inv db \<Longrightarrow> stock_inv db'"
  shows "sales_keeps db db'"
proof (cases "stock_inv db")
  case True
  note same = assms(1) [OF True]
  show ?thesis
    unfolding sales_keeps_def sales_inv_def
    using assms(2) same_books_bills [OF _ same] same_books_money [OF _ same] same_books_stay [OF same] by blast
qed (simp add: sales_keeps_def sales_inv_def)

lemma sales_keepsI:
  assumes "stock_inv db \<Longrightarrow> bill_inv db \<Longrightarrow> money_inv db \<Longrightarrow> stock_inv db' \<and> bill_inv db' \<and> money_inv db' \<and> bills_stay db db'"
  shows "sales_keeps db db'"
  using assms unfolding sales_keeps_def sales_inv_def by blast

lemma generate_invoice_sales: "generate_invoice e cid fr un a db = Inr (v, db') \<Longrightarrow> sales_keeps db db'"
  using generate_invoice_keeps generate_invoice_money by (intro sales_keepsI) blast

lemma issue_invoice_sales:
  assumes "issue_invoice e i a db = Inr (v, db')"
  shows "sales_keeps db db'"
proof (rule sales_keepsI)
  assume s: "stock_inv db" "bill_inv db" "money_inv db"
  show "stock_inv db' \<and> bill_inv db' \<and> money_inv db' \<and> bills_stay db db'"
    using issue_invoice_keeps [OF s(1,2) assms] issue_invoice_money [OF s assms] by simp
qed

lemma cancel_invoice_sales: "cancel_invoice e i why a db = Inr (v, db') \<Longrightarrow> sales_keeps db db'"
  using cancel_invoice_keeps cancel_invoice_money by (intro sales_keepsI) blast

lemma issue_each_sales: "issue_each e a pv vs acc db = Inr (is, sk, t, db') \<Longrightarrow> sales_keeps db db'"
proof (induction vs arbitrary: acc db "is" sk t)
  case (Cons v vs)
  obtain db1 acc' is' sk' t' where db1: "db1 = db \<or> (\<exists>x. issue_invoice e (iv_id v) a db = Inr (x, db1))"
      and rest: "issue_each e a pv vs acc' db1 = Inr (is', sk', t', db')"
    using Cons.prems by (fastforce simp: Let_def andthen_eq_Inr split: if_splits sum.splits)
  have "sales_keeps db db1" using db1 issue_invoice_sales by auto
  then show ?case using Cons.IH [OF rest] sales_keeps_trans by blast
qed simp

lemma issue_batch_sales: "issue_batch e fr un a pv db = Inr (r, db') \<Longrightarrow> sales_keeps db db'"
  using issue_each_sales by (auto simp: issue_batch_def andthen_eq_Inr Let_def)

lemma draft_each_sales: "draft_each e fr un a cs db = Inr (vs, errs, db') \<Longrightarrow> sales_keeps db db'"
proof (induction cs arbitrary: db vs errs)
  case (Cons c cs)
  obtain db1 vs' errs' where db1: "db1 = db \<or> (\<exists>v. generate_invoice e c fr un a db = Inr (v, db1))"
      and rest: "draft_each e fr un a cs db1 = Inr (vs', errs', db')"
    using Cons.prems by (fastforce simp: andthen_eq_Inr split: if_splits sum.splits)
  have "sales_keeps db db1" using db1 generate_invoice_sales by auto
  then show ?case using Cons.IH [OF rest] sales_keeps_trans by blast
qed simp

lemma draft_month_end_sales: "draft_month_end e t tz a p db = Inr (r, db') \<Longrightarrow> sales_keeps db db'"
  using draft_each_sales by (auto simp: draft_month_end_def andthen_eq_Inr Let_def split: prod.splits)

lemma generate_receipt_sales:
  assumes "generate_receipt e t pid data ev db = Inr (r, db')"
  shows "sales_keeps db db'"
proof (cases "find (\<lambda>r. cv_tenant r = t \<and> cv_payment r = pid) (customer_receipts db)")
  case None
  obtain num db1 where n: "next_document_number e t ''customer_receipt'' ''CRC'' db = (num, db1)" by fastforce
  note n1 = next_document_number_sales [OF n]
  have same: "deliveries db' = deliveries db" "sale_items db' = sale_items db" "invoices db' = invoices db" "plans db' = plans db"
      "invoice_lines db' = invoice_lines db" "customer_payments db' = customer_payments db" "allocations db' = allocations db"
      "products db' = products db" "customers db' = customers db" "next_id db \<le> next_id db'"
    using assms n1 by (auto simp: generate_receipt_def None n Let_def new_id_eq andthen_eq_Inr)
  show ?thesis
  proof (rule books_keep)
    show "same_books db db'" by (simp add: same_books_def billed_def sources_def same)
    show "stock_inv db \<Longrightarrow> stock_inv db'" using stock_inv_mono same by metis
  qed
qed (use assms in \<open>simp add: generate_receipt_def\<close>)

lemma record_customer_payment_sales:
  assumes "RecordCustomerPaymentCommand c x m ref notes ids = Inr cmd" and "record_customer_payment e cmd a db = Inr (p, db')"
  shows "sales_keeps db db'"
proof -
  have "0 < rp_amount cmd" using assms(1) by (auto simp: RecordCustomerPaymentCommand_def split: if_splits)
  then show ?thesis using record_customer_payment_keeps [OF _ _ _ _ assms(2)] by (intro sales_keepsI) blast
qed

section \<open>Steps\<close>

text \<open>
  One request to the selling side, by whoever may send it and at whatever time. The last rule stands for
  the rest of the platform, which leaves these tables alone.
\<close>

inductive sales_step :: "'a sales_db_scheme \<Rightarrow> 'a sales_db_scheme \<Rightarrow> bool" where
  product_created: "CreateProductCommand co nm un pr ord = Inr cmd \<Longrightarrow> create_product e cmd a db = Inr (p, db')
    \<Longrightarrow> sales_step db db'"
| product_updated: "UpdateProductCommand nm' un' pr cl ac ord' = Inr ucmd \<Longrightarrow> update_product e i ucmd a db = Inr (p, db')
    \<Longrightarrow> sales_step db db'"
| products_seeded: "db' = snd (seed_new_organisation t cur db) \<Longrightarrow> sales_step db db'"
| customer_created: "built_customer ccmd \<Longrightarrow> create_customer e ccmd a db = Inr (c, db') \<Longrightarrow> sales_step db db'"
| customers_imported: "(\<forall>ccmd. Inr ccmd \<in> set rows \<longrightarrow> built_customer ccmd) \<Longrightarrow> import_rows e rows a db = Inr (rs, db')
    \<Longrightarrow> sales_step db db'"
| customer_updated: "UpdateCustomerCommand given = Inr ccmd \<Longrightarrow> update_customer e i ccmd a db = Inr (c, db') \<Longrightarrow> sales_step db db'"
| customer_status: "set_status e i st a db = Inr (c, db') \<Longrightarrow> sales_step db db'"
| plan_set: "built_plan np \<Longrightarrow> set_plan e i np a db = Inr (pl, db') \<Longrightarrow> sales_step db db'"
| rates_changed: "RateChangeCommand co rate fr cs preview = Inr rcmd \<Longrightarrow> change_rates e rcmd a db = Inr (ch, sk, db')
    \<Longrightarrow> sales_step db db'"
| plan_paused: "pause_plan e i day until a db = Inr (pl, db') \<Longrightarrow> sales_step db db'"
| plan_resumed: "resume_plan e i a db = Inr (pl, db') \<Longrightarrow> sales_step db db'"
| delivery_recorded: "built_delivery dcmd \<Longrightarrow> record_delivery e dcmd a mp db = Inr (d, db') \<Longrightarrow> sales_step db db'"
| delivery_amended: "built_amendment acmd \<Longrightarrow> amend_delivery e i acmd a mp db = Inr (d, db') \<Longrightarrow> sales_step db db'"
| day_generated: "generate_for_day t day actor w only slot db = Inr (g, db') \<Longrightarrow> sales_step db db'"
| run_generated: "generate_for_customers e day ids s a w ref db = Inr (g, db') \<Longrightarrow> sales_step db db'"
| item_recorded: "built_item icmd \<Longrightarrow> record_item e i icmd a mp db = Inr (x, db') \<Longrightarrow> sales_step db db'"
| item_cancelled: "CancelItemCommand w' = Inr why \<Longrightarrow> cancel_item e i why a db = Inr (x, db') \<Longrightarrow> sales_step db db'"
| bill_generated: "generate_invoice e i day day' actor db = Inr (v, db') \<Longrightarrow> sales_step db db'"
| bill_issued: "issue_invoice e i a db = Inr (v, db') \<Longrightarrow> sales_step db db'"
| bills_issued: "issue_batch e day day' a preview db = Inr (b, db') \<Longrightarrow> sales_step db db'"
| bill_cancelled: "cancel_invoice e i why a db = Inr (v, db') \<Longrightarrow> sales_step db db'"
| month_drafted: "draft_month_end e t tz actor period db = Inr (r, db') \<Longrightarrow> sales_step db db'"
| money_received: "RecordCustomerPaymentCommand i x m ref notes ids = Inr pcmd \<Longrightarrow> record_customer_payment e pcmd a db = Inr (q, db')
    \<Longrightarrow> sales_step db db'"
| receipt_written: "generate_receipt e t i data ev db = Inr (rc, db') \<Longrightarrow> sales_step db db'"
| sales_elsewhere: "desk_frame db db' \<Longrightarrow> products db' = products db \<Longrightarrow> customers db' = customers db \<Longrightarrow> plans db' = plans db
    \<Longrightarrow> sales_step db db'"

lemma sales_step_keeps: "sales_step db db' \<Longrightarrow> sales_keeps db db'"
proof (induction rule: sales_step.induct)
  case product_created
  show ?case by (rule desk_keeps [OF create_product_desk [OF product_created(2)] create_product_stock [OF _ product_created]])
next
  case product_updated
  show ?case by (rule desk_keeps [OF update_product_desk [OF product_updated(2)] update_product_stock [OF _ product_updated]])
next
  case products_seeded
  show ?case unfolding products_seeded by (rule desk_keeps [OF seed_desk seed_stock])
next
  case customer_created
  show ?case by (rule desk_keeps [OF create_customer_desk [OF customer_created(2)] create_customer_stock [OF _ customer_created]])
next
  case customers_imported
  show ?case by (rule desk_keeps [OF import_rows_desk [OF customers_imported(2)] import_rows_stock [OF _ _ customers_imported(2)]])
    (use customers_imported(1) in blast)+
next
  case customer_updated
  show ?case by (rule desk_keeps [OF update_customer_desk [OF customer_updated(2)] update_customer_stock [OF _ customer_updated(2)]])
next
  case customer_status
  show ?case by (rule desk_keeps [OF set_status_desk [OF customer_status(1)] set_status_stock [OF _ customer_status(1)]])
next
  case rates_changed
  show ?case by (rule desk_keeps [OF change_rates_desk [OF rates_changed(2)] change_rates_stock [OF _ rates_changed(2)]])
next
  case plan_paused
  show ?case by (rule desk_keeps [OF pause_plan_desk [OF plan_paused(1)] pause_plan_stock [OF _ plan_paused(1)]])
next
  case plan_resumed
  show ?case by (rule desk_keeps [OF resume_plan_desk [OF plan_resumed(1)] resume_plan_stock [OF _ plan_resumed(1)]])
next
  case plan_set
  show ?case by (rule desk_keeps [OF set_plan_desk [OF plan_set(2)] set_plan_stock [OF _ plan_set]])
next
  case delivery_recorded
  show ?case by (rule books_keep [OF record_delivery_books [OF _ delivery_recorded(2)] record_delivery_stock [OF _ delivery_recorded]])
next
  case delivery_amended
  show ?case by (rule books_keep [OF amend_delivery_books [OF _ delivery_amended] amend_delivery_stock [OF _ delivery_amended]])
next
  case day_generated
  show ?case by (rule books_keep [OF generate_for_day_books [OF day_generated] generate_for_day_stock [OF _ day_generated]])
next
  case run_generated
  show ?case by (rule books_keep [OF generate_for_customers_stock(2,1) [OF _ run_generated]])
next
  case item_recorded
  show ?case by (rule books_keep [OF record_item_books [OF _ item_recorded] record_item_stock [OF _ item_recorded]])
next
  case item_cancelled
  show ?case by (rule books_keep [OF cancel_item_books [OF _ item_cancelled(2)] cancel_item_stock [OF _ item_cancelled(2)]])
next
  case bill_generated
  show ?case by (rule generate_invoice_sales [OF bill_generated])
next
  case bill_issued
  show ?case by (rule issue_invoice_sales [OF bill_issued])
next
  case bills_issued
  show ?case by (rule issue_batch_sales [OF bills_issued])
next
  case bill_cancelled
  show ?case by (rule cancel_invoice_sales [OF bill_cancelled])
next
  case month_drafted
  show ?case by (rule draft_month_end_sales [OF month_drafted])
next
  case receipt_written
  show ?case by (rule generate_receipt_sales [OF receipt_written])
next
  case money_received
  show ?case by (rule record_customer_payment_sales [OF money_received])
next
  case (sales_elsewhere db db')
  have same: "next_id db \<le> next_id db'" "deliveries db' = deliveries db" "sale_items db' = sale_items db"
    using sales_elsewhere(1) by (simp_all add: desk_frame_def)
  show ?case by (rule desk_keeps [OF sales_elsewhere(1) stock_inv_mono [OF _ same(1) sales_elsewhere(2-4) same(2,3)]])
qed

definition no_sales :: "'a sales_db_scheme \<Rightarrow> bool" where
  "no_sales db \<longleftrightarrow> products db = [] \<and> customers db = [] \<and> plans db = [] \<and> deliveries db = [] \<and> sale_items db = []
     \<and> invoices db = [] \<and> invoice_lines db = [] \<and> customer_payments db = [] \<and> allocations db = [] \<and> customer_receipts db = []"

lemma no_sales_inv: "no_sales db \<Longrightarrow> sales_inv db"
  by (simp add: no_sales_def sales_inv_def stock_inv_def catalogue_ok_def customers_ok_def plans_ok_def deliveries_ok_def
      items_ok_def bill_inv_def money_inv_def billed_def sources_def unique_keys_def)

lemma sales_run_keeps: "sales_step\<^sup>*\<^sup>* db db' \<Longrightarrow> sales_keeps db db'"
proof (induction rule: rtranclp_induct)
  case (step b c)
  then show ?case using sales_step_keeps sales_keeps_trans by blast
qed simp

lemma reachable_sales:
  assumes "no_sales db0" and "sales_step\<^sup>*\<^sup>* db0 db"
  shows "sales_inv db"
  using sales_run_keeps [OF assms(2)] no_sales_inv [OF assms(1)] unfolding sales_keeps_def by blast

section \<open>Bills\<close>

text \<open>
  C13: Bills are consistent. In every state the selling side can reach from an empty installation, a bill
  that is not cancelled has lines, counts them, totals exactly their sum and asks for the total plus the
  balance before it; every line belongs to such a bill and copies, figure by figure, a delivery or item of
  the bill's customer and period that is stamped with the bill; every stamped delivery or item is on
  exactly one line, so nothing is billed twice; and no two live bills of a customer have the same period.
\<close>

theorem bills_consistent:
  fixes db0 db :: "'a sales_db_scheme"
  assumes "no_sales db0" and "sales_step\<^sup>*\<^sup>* db0 db"
  shows "(\<forall>v \<in> set (invoices db). iv_status v \<noteq> VCancelled \<longrightarrow>
            lines_of_invoice (iv_id v) db \<noteq> [] \<and> iv_lines v = length (lines_of_invoice (iv_id v) db)
          \<and> iv_total v = (\<Sum>l \<leftarrow> lines_of_invoice (iv_id v) db. il_amount l) \<and> iv_due v = iv_total v + iv_previous v)
       \<and> (\<forall>l \<in> set (invoice_lines db). \<exists>v \<in> set (invoices db). \<exists>s \<in> sources db.
            iv_id v = il_invoice l \<and> iv_status v \<noteq> VCancelled \<and> bill_invoice s = Some (iv_id v)
          \<and> bill_tenant s = iv_tenant v \<and> bill_customer s = iv_customer v \<and> iv_from v \<le> bill_date s \<and> bill_date s \<le> iv_to v
          \<and> l = line_of (il_id l) (iv_tenant v) (iv_id v) s)
       \<and> (\<forall>s \<in> sources db. bill_invoice s \<noteq> None \<longrightarrow> (\<exists>!l. l \<in> set (invoice_lines db) \<and> il_source l = source_ref s))
       \<and> (\<forall>v \<in> set (invoices db). \<forall>w \<in> set (invoices db). iv_status v \<noteq> VCancelled \<longrightarrow> iv_status w \<noteq> VCancelled
            \<longrightarrow> bill_key v = bill_key w \<longrightarrow> v = w)"
proof (intro conjI ballI impI)
  note inv = bill_invD [OF sales_invD(2) [OF reachable_sales [OF assms]]]
  {
    fix v assume v: "v \<in> set (invoices db)" "iv_status v \<noteq> VCancelled"
    show "lines_of_invoice (iv_id v) db \<noteq> []" "iv_lines v = length (lines_of_invoice (iv_id v) db)"
        "iv_total v = (\<Sum>l \<leftarrow> lines_of_invoice (iv_id v) db. il_amount l)"
      using inv(5) [OF v(1)] v(2) by (simp_all add: bill_totals_def)
    show "iv_due v = iv_total v + iv_previous v" using table_okD(3) [OF inv(1) v(1)] by (simp add: invoice_ok_def)
    fix w assume "w \<in> set (invoices db)" "iv_status w \<noteq> VCancelled" "bill_key v = bill_key w"
    then show "v = w" using unique_keysD [OF inv(6), of v w] v by simp
  }
  {
    fix l assume "l \<in> set (invoice_lines db)"
    then show "\<exists>v \<in> set (invoices db). \<exists>s \<in> sources db.
            iv_id v = il_invoice l \<and> iv_status v \<noteq> VCancelled \<and> bill_invoice s = Some (iv_id v)
          \<and> bill_tenant s = iv_tenant v \<and> bill_customer s = iv_customer v \<and> iv_from v \<le> bill_date s \<and> bill_date s \<le> iv_to v
          \<and> l = line_of (il_id l) (iv_tenant v) (iv_id v) s"
      using table_okD(3) [OF inv(2)] unfolding line_ok_def billed_def by blast
  }
  fix s assume "s \<in> sources db" "bill_invoice s \<noteq> None"
  then have "source_ref s \<in> il_source ` set (invoice_lines db)" using inv(4) unfolding billed_def by blast
  then obtain l where "l \<in> set (invoice_lines db)" "il_source l = source_ref s" by (metis imageE)
  then show "\<exists>!l. l \<in> set (invoice_lines db) \<and> il_source l = source_ref s"
    using unique_keysD [OF inv(3)] by metis
qed

text \<open>
  C14: An issued bill is immutable. Whatever the selling side does after a bill was issued, the bill is
  still there with the same number, customer, period and figures and the same moment of issue, it stays
  issued or becomes paid, and is never drafted or cancelled again; its lines are the same, and so is
  every delivery and item on it, which can no longer be amended or cancelled.
\<close>

theorem issued_bill_immutable:
  fixes db0 db db' :: "'a sales_db_scheme"
  assumes "no_sales db0" and "sales_step\<^sup>*\<^sup>* db0 db" and "sales_step\<^sup>*\<^sup>* db db'"
    and "v \<in> set (invoices db)" and "iv_status v = VIssued \<or> iv_status v = VPaid"
  shows "\<exists>v' \<in> set (invoices db').
       v' = v\<lparr>iv_status := iv_status v', iv_cancelled_at := iv_cancelled_at v'\<rparr>
     \<and> (iv_status v' = VPaid \<or> iv_status v' = iv_status v)
     \<and> lines_of_invoice (iv_id v) db' = lines_of_invoice (iv_id v) db
     \<and> {s \<in> sources db'. bill_invoice s = Some (iv_id v)} = {s \<in> sources db. bill_invoice s = Some (iv_id v)}"
proof -
  have "stays db db' v"
    using sales_run_keeps [OF assms(3)] reachable_sales [OF assms(1,2)] assms(4,5)
    unfolding sales_keeps_def bills_stay_def payable_def by blast
  then obtain v' where v': "v' \<in> set (invoices db')" "same_bill v v'" "iv_issued_at v' = iv_issued_at v" "payable v'"
      "iv_status v = VPaid \<longrightarrow> iv_status v' = VPaid"
    and "lines_of_invoice (iv_id v) db' = lines_of_invoice (iv_id v) db" "sources_of (iv_id v) db' = sources_of (iv_id v) db"
    unfolding stays_def by blast
  moreover have "sources_of i d = {s \<in> sources d. bill_invoice s = Some i}" for i and d :: "'a sales_db_scheme"
    by (auto simp: sources_of_def billed_def)
  moreover have "v' = v\<lparr>iv_status := iv_status v', iv_cancelled_at := iv_cancelled_at v'\<rparr>"
    using v'(2,3) by (simp add: same_bill_def)
  ultimately show ?thesis using assms(5) by (intro bexI [OF _ v'(1)]) (auto simp: payable_def)
qed

section \<open>Money received\<close>

text \<open>
  C15: Money received is allotted within bounds. In every reachable state no bill has received more than
  its total, a bill is marked paid only when its total is covered exactly, an issued bill with something
  to pay is still short, no payment hands out more than its amount, and every portion is positive and goes
  from a payment of the bill's customer to a bill that was handed out.
\<close>

theorem allocations_within:
  fixes db0 db :: "'a sales_db_scheme"
  assumes "no_sales db0" and "sales_step\<^sup>*\<^sup>* db0 db"
  shows "(\<forall>v \<in> set (invoices db). paid_on (iv_id v) db \<le> iv_total v
            \<and> (iv_status v = VPaid \<longrightarrow> paid_on (iv_id v) db = iv_total v)
            \<and> (iv_status v = VIssued \<longrightarrow> 0 < iv_total v \<longrightarrow> paid_on (iv_id v) db < iv_total v))
       \<and> (\<forall>p \<in> set (customer_payments db). spent_by (cm_id p) db \<le> cm_amount p)
       \<and> (\<forall>a \<in> set (allocations db). 0 < ap_amount a \<and> (\<exists>p \<in> set (customer_payments db). \<exists>v \<in> set (invoices db).
            cm_id p = ap_payment a \<and> iv_id v = ap_invoice a \<and> (iv_status v = VIssued \<or> iv_status v = VPaid)
          \<and> cm_tenant p = iv_tenant v \<and> cm_customer p = iv_customer v))"
proof -
  note inv = money_invD [OF sales_invD(3) [OF reachable_sales [OF assms]]]
  have "settled_right db v" if "v \<in> set (invoices db)" for v using inv(3) that .
  moreover have "alloc_ok db a" if "a \<in> set (allocations db)" for a by (rule table_okD(3) [OF inv(2) that])
  ultimately show ?thesis using inv(4) unfolding settled_right_def alloc_ok_def payable_def by blast
qed

section \<open>Drafting and taking back\<close>

lemma find_last: "P y \<Longrightarrow> (\<And>x. x \<in> set xs \<Longrightarrow> \<not> P x) \<Longrightarrow> find P (xs @ [y]) = Some y"
  by (induction xs) auto

lemma row_update_other: "(\<And>r. r \<in> set rows \<Longrightarrow> key r \<noteq> i) \<Longrightarrow> row_update key i f rows = rows"
  by (induction rows) auto

lemma stamp_back:
  "(\<And>d. d \<in> set ds \<Longrightarrow> FromDelivery (dl_id d) \<in> R \<Longrightarrow> dl_invoice d = None)
     \<Longrightarrow> stamp_deliveries R None (stamp_deliveries R i ds) = ds"
  "(\<And>x. x \<in> set xs \<Longrightarrow> FromItem (si_id x) \<in> R \<Longrightarrow> si_invoice x = None) \<Longrightarrow> stamp_items R None (stamp_items R i xs) = xs"
  by (auto simp: stamp_deliveries_def stamp_items_def intro!: map_idI)

lemma stamp_periods: "periods (stamp i s db) = periods db"
  by (cases s) simp_all

lemma add_invoice_lines_periods: "add_invoice_lines t i ss db = Inr db' \<Longrightarrow> periods db' = periods db"
  by (induction ss arbitrary: db) (auto simp: new_id_eq Let_def stamp_periods split: if_splits)

lemma next_document_number_periods: "next_document_number e t dt px db = (k, db') \<Longrightarrow> periods db' = periods db"
  by (auto elim: next_document_number_eq)

lemma generate_invoice_frame:
  assumes "stock_inv db" and "bill_inv db" and "generate_invoice e cid fr un a db = Inr (v, db')"
  obtains ss ls where "current_tenant e = Some (iv_tenant v)" "iv_to v = un" "iv_id v = next_id db" "iv_status v = VDraft"
    "assert_period_open db (iv_tenant v) un = Inr ()" "periods db' = periods db"
    "deliveries db' = stamp_deliveries (source_ref ` ss) (Some (iv_id v)) (deliveries db)"
    "sale_items db' = stamp_items (source_ref ` ss) (Some (iv_id v)) (sale_items db)"
    "\<And>s. s \<in> ss \<Longrightarrow> s \<in> sources db \<and> bill_invoice s = None"
    "invoice_lines db' = invoice_lines db @ ls" "il_source ` set ls = source_ref ` ss" "\<And>l. l \<in> set ls \<Longrightarrow> il_invoice l = iv_id v"
    "invoices db' = invoices db @ [v]" "customer_payments db' = customer_payments db" "allocations db' = allocations db"
  using assms(3)
proof (cases rule: generate_invoice_cases)
  case (1 t c ss db1 db3 num n k w i x)
  note n1 = next_document_number_sales [OF 1(7)]
  note eff = add_invoice_lines_effect [OF 1(8)]
  obtain prev where prev: "at_scale 2 prev" "invoice_row (next_id db) t c num fr un prev ss = Inr v" using 1(9) by blast
  have amounts: "is_amount (bill_amount s)" if "s \<in> set ss" for s using source_amount [OF assms(1)] that 1(5) by blast
  note row = invoice_row_Inr [OF prev(2) amounts prev(1)]
  have r: "deliveries db' = stamp_deliveries (source_ref ` set ss) (Some (next_id db)) (deliveries db)"
      "sale_items db' = stamp_items (source_ref ` set ss) (Some (next_id db)) (sale_items db)"
      "invoices db' = invoices db @ [v]" "customer_payments db' = customer_payments db" "allocations db' = allocations db"
    using eff(1) n1 by (simp_all add: 1(10) restamped_def)
  define ks where "ks = [Suc (next_id db)..<Suc (next_id db) + length ss]"
  define ls where "ls = map2 (\<lambda>k s. line_of k t (next_id db) s) ks ss"
  have lines: "invoice_lines db' = invoice_lines db @ ls" using eff(3) n1 by (simp add: 1(10) ls_def ks_def)
  have "length ks = length ss" unfolding ks_def length_upt by simp
  then have "il_source ` set ls = source_ref ` set ss" using map2_line_of(2) unfolding ls_def by (metis list.set_map)
  moreover have "il_invoice l = next_id db" if "l \<in> set ls" for l using in_map2_line_of that unfolding ls_def by fastforce
  moreover have "periods db' = periods db"
    using add_invoice_lines_periods [OF 1(8)] next_document_number_periods [OF 1(7)] by (simp add: 1(10))
  moreover have "assert_period_open db t un = Inr ()"
    using assms(3) 1(1) unfolding generate_invoice_def andthen_eq_Inr by (auto simp: andthen_eq_Inr split: if_splits)
  moreover have "current_tenant e = Some t" using 1(1) by (auto simp: require_current_tenant_def need_eq_Inr)
  moreover have "s \<in> sources db \<and> bill_invoice s = None" if "s \<in> set ss" for s using that unfolding 1(5) billable_def by blast
  ultimately show thesis using that [of "set ss" ls] row r lines by simp
qed

text \<open>
  C16: Cancelling a draft undoes drafting it. In every reachable state, once a bill has been drafted,
  cancelling it succeeds, and then every delivery, every item, every line, the money received and all
  other bills are exactly what they were before: what the draft had claimed can be billed again.
\<close>

theorem cancel_undoes_generate:
  fixes db0 db db1 :: "'a sales_db_scheme"
  assumes "no_sales db0" and "sales_step\<^sup>*\<^sup>* db0 db" and "generate_invoice e cid day until actor db = Inr (v, db1)"
    and "current_tenant e' = current_tenant e"
  shows "\<exists>v' db2. cancel_invoice e' (iv_id v) reason actor' db1 = Inr (v', db2) \<and> iv_status v' = VCancelled
     \<and> deliveries db2 = deliveries db \<and> sale_items db2 = sale_items db \<and> invoice_lines db2 = invoice_lines db
     \<and> invoices db2 = invoices db @ [v'] \<and> customer_payments db2 = customer_payments db \<and> allocations db2 = allocations db"
proof -
  note inv = sales_invD [OF reachable_sales [OF assms(1,2)]]
  have k: "stock_inv db1" "bill_inv db1" using generate_invoice_keeps [OF inv(1,2) assms(3)] by blast+
  show ?thesis
    using inv(1,2) assms(3)
  proof (cases rule: generate_invoice_frame)
    case (1 ss ls)
    let ?i = "iv_id v" and ?R = "source_ref ` ss"
    let ?v = "v\<lparr>iv_lines := 0, iv_status := VCancelled, iv_cancelled_at := Some (now e')\<rparr>"
    have old: "il_invoice l \<noteq> ?i" if l: "l \<in> set (invoice_lines db)" for l
    proof -
      obtain w :: invoice where "w \<in> set (invoices db)" "iv_id w = il_invoice l"
        using table_okD(3) [OF bill_invD(2) [OF inv(2)] l] unfolding line_ok_def by blast
      then show ?thesis using table_okD(2) [OF bill_invD(1) [OF inv(2)]] 1(3) by (metis nat_neq_iff)
    qed
    have mine: "lines_of_invoice ?i db1 = ls"
      using old 1(10,12) by (simp add: lines_of_invoice_def filter_id_conv filter_empty_conv)
    define d2 where "d2 = release_lines ls db1"
    note rel = released [OF k, of d2 ?i, unfolded mine, OF d2_def, unfolded 1(11)]
    have refs: "bill_invoice s = None" if "s \<in> sources db" "source_ref s \<in> ?R" for s
      using that source_ref_inj [OF inv(1)] 1(9) by (metis imageE)
    have "FromDelivery (dl_id d) \<in> ?R \<Longrightarrow> dl_invoice d = None" if "d \<in> set (deliveries db)" for d
      using refs [of "BDelivery d"] that by (simp add: sources_def)
    moreover have "FromItem (si_id x) \<in> ?R \<Longrightarrow> si_invoice x = None" if "x \<in> set (sale_items db)" for x
      using refs [of "BItem x"] that by (simp add: sources_def)
    ultimately have again: "deliveries d2 = deliveries db" "sale_items d2 = sale_items db"
      using rel(1) by (simp_all add: restamped_def 1(7,8) stamp_back)
    have lines: "invoice_lines d2 = invoice_lines db"
      using rel(3) old 1(12) by (simp add: 1(10) filter_id_conv filter_empty_conv)
    have less: "iv_id w \<noteq> ?i" if "w \<in> set (invoices db)" for w
      using table_okD(2) [OF bill_invD(1) [OF inv(2)] that] 1(3) by simp
    have got: "get_invoice e' db1 ?i = Inr v"
    proof -
      have "find (\<lambda>w. iv_id w = ?i \<and> iv_tenant w = iv_tenant v) (invoices db @ [v]) = Some v"
        by (rule find_last) (use less in simp_all)
      then show ?thesis by (simp add: get_invoice_def require_current_tenant_def assms(4) 1(1,13) need_def)
    qed
    have put: "row_update iv_id ?i (\<lambda>_. ?v) (invoices db @ [v]) = invoices db @ [?v]"
      using less by (simp add: row_update_other)
    then show ?thesis
      using again lines rel(1) put 1(2,4,5,6,13-15)
      by (simp add: cancel_invoice_def got assert_period_open_def period_covering_def mine d2_def [symmetric] put_invoice_def restamped_def Let_def)
  qed
qed

section \<open>The generated round\<close>

definition has_drop :: "uuid \<Rightarrow> date \<Rightarrow> 'a sales_db_scheme \<Rightarrow> delivery_plan \<Rightarrow> bool" where
  "has_drop t day db p \<longleftrightarrow> list_ex (same_drop t (dp_customer p) day (dp_slot p) (dp_product p)) (deliveries db)"

definition storable :: "uuid \<Rightarrow> date \<Rightarrow> delivery_plan \<times> decimal \<Rightarrow> bool" where
  "storable t day pq \<longleftrightarrow> (\<forall>i a. \<exists>row. stored_delivery (scheduled_row i t day a (fst pq) (snd pq)) = Inr row)"

lemma storable_row: "stored_delivery (scheduled_row i t day a p q) = Inr row \<Longrightarrow> storable t day (p, q)"
  by (auto simp: storable_def stored_delivery_def scheduled_row_def andthen_eq_Inr)

lemma same_drop_stored:
  "stored_delivery (scheduled_row i t day a p q) = Inr row \<Longrightarrow> same_drop t (dp_customer p) day (dp_slot p) (dp_product p) row"
  by (auto simp: same_drop_def stored_delivery_def scheduled_row_def andthen_eq_Inr)

lemma insert_covers:
  "insert_ignoring_conflicts t day a rows db = Inr (n, db')
    \<Longrightarrow> set (deliveries db) \<subseteq> set (deliveries db') \<and> n \<le> length rows
      \<and> (\<forall>pq \<in> set rows. has_drop t day db' (fst pq) \<and> storable t day pq)"
proof (induction rows arbitrary: db n)
  case (Cons pq rows)
  obtain p q where pq: "pq = (p, q)" by fastforce
  obtain row where row: "stored_delivery (scheduled_row (next_id db) t day a p q) = Inr row"
    using Cons.prems by (auto simp: pq new_id_eq Let_def andthen_eq_Inr)
  show ?case
  proof (cases "has_drop t day db p")
    case True
    then have "insert_ignoring_conflicts t day a rows (db\<lparr>next_id := Suc (next_id db)\<rparr>) = Inr (n, db')"
      using Cons.prems row by (simp add: pq new_id_eq Let_def has_drop_def)
    then show ?thesis
      using Cons.IH True storable_row [OF row] unfolding has_drop_def list_ex_iff pq by fastforce
  next
    case False
    then obtain m where m: "n = Suc m"
        "insert_ignoring_conflicts t day a rows (db\<lparr>next_id := Suc (next_id db), deliveries := deliveries db @ [row]\<rparr>) = Inr (m, db')"
      using Cons.prems row by (auto simp: pq new_id_eq Let_def has_drop_def andthen_eq_Inr)
    then show ?thesis
      using Cons.IH [OF m(2)] storable_row [OF row] same_drop_stored [OF row] unfolding has_drop_def list_ex_iff pq by auto
  qed
qed simp

lemma insert_again:
  "(\<And>pq. pq \<in> set rows \<Longrightarrow> has_drop t day db (fst pq) \<and> storable t day pq)
    \<Longrightarrow> insert_ignoring_conflicts t day a rows db = Inr (0, db\<lparr>next_id := next_id db + length rows\<rparr>)"
proof (induction rows arbitrary: db)
  case (Cons pq rows)
  obtain p q where pq: "pq = (p, q)" by fastforce
  obtain row where row: "stored_delivery (scheduled_row (next_id db) t day a p q) = Inr row"
    using Cons.prems [of pq] unfolding storable_def pq by auto
  have "has_drop t day db p" using Cons.prems [of pq] by (simp add: pq)
  moreover have "insert_ignoring_conflicts t day a rows (db\<lparr>next_id := Suc (next_id db)\<rparr>)
      = Inr (0, db\<lparr>next_id := Suc (next_id db) + length rows\<rparr>)"
    using Cons.IH [of "db\<lparr>next_id := Suc (next_id db)\<rparr>"] Cons.prems by (simp add: has_drop_def)
  ultimately show ?case using row by (simp add: pq new_id_eq Let_def has_drop_def)
qed simp

text \<open>
  C32: Generating a day's round is complete and idempotent. After a run every standing order that is due on
  the day, for an active customer and not on a holiday, has its delivery of that day, slot and product; and
  running the generation again at once, by whomever, succeeds, finds every one of them present, creates
  nothing and leaves all deliveries as they are.
\<close>

theorem generate_for_day_idempotent:
  fixes db db' :: "'a sales_db_scheme"
  assumes "generate_for_day t day actor w only slot db = Inr (r, db')"
  shows "(\<forall>pc \<in> set (due_plans t day only slot db). \<forall>q. judge day w pc = Candidate q
            \<longrightarrow> (\<exists>d \<in> set (deliveries db'). drop_key d = (t, dp_customer (fst pc), day, dp_slot (fst pc), dp_product (fst pc))))
       \<and> set (deliveries db) \<subseteq> set (deliveries db') \<and> gr_created r + gr_present r = gr_due r
       \<and> (\<exists>r' db''. generate_for_day t day actor' w only slot db' = Inr (r', db'') \<and> gr_created r' = 0
            \<and> gr_present r' = gr_due r \<and> deliveries db'' = deliveries db')"
proof -
  let ?rows = "candidates day w (due_plans t day only slot db)"
  obtain n where n: "insert_ignoring_conflicts t day actor ?rows db = Inr (n, db')" "gr_created r = n" "gr_due r = length ?rows"
      "gr_present r = length ?rows - n"
    using assms by (auto simp: generate_for_day_def Let_def andthen_eq_Inr)
  note covers = insert_covers [OF n(1)]
  have "(fst pc, q) \<in> set (candidates day w ps)" if "pc \<in> set ps" "judge day w pc = Candidate q" for pc q ps
    using that by (induction ps) (auto split: due_verdict.splits)
  then have round: "\<exists>d \<in> set (deliveries db'). drop_key d = (t, dp_customer (fst pc), day, dp_slot (fst pc), dp_product (fst pc))"
    if "pc \<in> set (due_plans t day only slot db)" "judge day w pc = Candidate q" for pc q
    using that covers unfolding has_drop_def list_ex_iff same_drop_iff by fastforce
  have same: "due_plans t day only slot db' = due_plans t day only slot db"
    using insert_same [OF n(1)] by (simp add: due_plans_def)
  have "insert_ignoring_conflicts t day actor' ?rows db' = Inr (0, db'\<lparr>next_id := next_id db' + length ?rows\<rparr>)"
    by (rule insert_again) (use covers in blast)
  then have "\<exists>r' db''. generate_for_day t day actor' w only slot db' = Inr (r', db'') \<and> gr_created r' = 0
      \<and> gr_present r' = length ?rows \<and> deliveries db'' = deliveries db'"
    by (simp add: generate_for_day_def same Let_def)
  then show ?thesis using round covers n(2-4) by simp
qed

section \<open>Oldest bill first\<close>

text \<open>The reference: a sum of money poured over a list of debts, each filled before the next.\<close>

fun waterfall :: "decimal \<Rightarrow> decimal list \<Rightarrow> decimal list" where
  "waterfall r [] = []"
| "waterfall r (d # ds) = min r d # waterfall (r - min r d) ds"

lemma waterfall_zero: "(\<And>d. d \<in> set ds \<Longrightarrow> 0 \<le> d) \<Longrightarrow> waterfall 0 ds = map (\<lambda>_. 0) ds"
  by (induction ds) simp_all

lemma waterfall_sum:
  "0 \<le> r \<Longrightarrow> (\<And>d. d \<in> set ds \<Longrightarrow> 0 \<le> d) \<Longrightarrow> sum_list (waterfall r ds) = min r (sum_list ds)"
proof (induction ds arbitrary: r)
  case (Cons d ds)
  have "sum_list (waterfall (r - min r d) ds) = min (r - min r d) (sum_list ds)" using Cons by auto
  moreover have "0 \<le> sum_list ds" using Cons.prems(2) by (intro sum_list_nonneg) simp
  ultimately show ?case using Cons.prems(2) [of d] by auto
qed simp

definition owing :: "'a sales_db_scheme \<Rightarrow> invoice \<Rightarrow> decimal" where
  "owing db v = iv_total v - paid_on (iv_id v) db"

lemma owing_nonneg: "money_inv db \<Longrightarrow> v \<in> set (invoices db) \<Longrightarrow> 0 \<le> owing db v"
  using money_invD(3) [of db v] by (simp add: owing_def settled_right_def)

lemma apply_payment_pours:
  assumes "apply_payment p rest vs db = Inr (ns, db')" and "stock_inv db" and "bill_inv db" and "money_inv db"
    and "set vs \<subseteq> set (invoices db)" and "distinct (map iv_id vs)"
    and "\<And>v. v \<in> set vs \<Longrightarrow> payable v \<and> iv_tenant v = cm_tenant p \<and> iv_customer v = cm_customer p"
    and "p \<in> set (customer_payments db)" and "at_scale 2 rest" and "0 \<le> rest" and "rest < 10 ^ 14"
    and "rest \<le> cm_amount p - spent_by (cm_id p) db"
  shows "map (\<lambda>v. paid_on (iv_id v) db' - paid_on (iv_id v) db) vs = waterfall rest (map (owing db) vs)
     \<and> (\<forall>i. i \<notin> iv_id ` set vs \<longrightarrow> paid_on i db' = paid_on i db)"
  using assms
proof (induction vs arbitrary: rest db ns)
  case (Cons v vs)
  have v: "v \<in> set (invoices db)" "payable v" "cm_tenant p = iv_tenant v" "cm_customer p = iv_customer v"
    using Cons.prems(5,7) by simp_all
  have nonneg: "0 \<le> owing db w" if "w \<in> set (v # vs)" for w
    using that Cons.prems(5) by (intro owing_nonneg [OF Cons.prems(4)]) auto
  have abs: "\<bar>rest\<bar> < 10 ^ 14" using Cons.prems(10,11) by simp
  show ?case
    using Cons.prems(1,3,4) v(1) Cons.prems(9) abs
  proof (cases rule: apply_payment_step)
    case spent
    then have "rest = 0" using Cons.prems(10) by simp
    then have "waterfall rest (map (owing db) (v # vs)) = map (\<lambda>_. 0) (map (owing db) (v # vs))"
      using nonneg waterfall_zero [of "map (owing db) (v # vs)"] by (auto simp del: waterfall.simps)
    then show ?thesis unfolding spent(2) by (simp add: comp_def del: waterfall.simps)
  next
    case settled
    have "map (\<lambda>v. paid_on (iv_id v) db' - paid_on (iv_id v) db) vs = waterfall rest (map (owing db) vs)
       \<and> (\<forall>i. i \<notin> iv_id ` set vs \<longrightarrow> paid_on i db' = paid_on i db)"
      by (rule Cons.IH [OF settled(2) Cons.prems(2-4)]) (use Cons.prems(5-12) in auto)
    moreover have "iv_id v \<notin> iv_id ` set vs" using Cons.prems(6) by auto
    ultimately show ?thesis using settled(1) Cons.prems(10) by (simp add: owing_def [of db v])
  next
    case (portion x ms)
    let ?a = "\<lparr>ap_id = next_id db, ap_tenant = cm_tenant p, ap_payment = cm_id p, ap_invoice = iv_id v, ap_number = iv_number v,
                   ap_amount = x\<rparr>"
    let ?full = "x = iv_total v - paid_on (iv_id v) db"
    let ?db = "allot ?a v ?full db"
    note keeps = allot_keeps [OF Cons.prems(2,3) v(1,2), of ?a ?full]
    have x: "x \<le> cm_amount p - spent_by (cm_id p) db" using portion(4) Cons.prems(12) by linarith
    have money: "money_inv ?db"
      by (rule allot_money [OF Cons.prems(2-4) v(1,2) Cons.prems(8) v(3,4) refl portion(1,2,3) x refl])
    have rest: "rest - x < 10 ^ 14" "0 \<le> rest - x" "at_scale 2 (rest - x)"
      using portion(1,2,4) Cons.prems(9,11) by (auto simp: is_amount_def at_scale_diff)
    have other: "iv_id w \<noteq> iv_id v" if "w \<in> set vs" for w using that Cons.prems(6) by (auto simp: image_iff)
    have kept: "w \<in> set (invoices ?db)" if "w \<in> set vs" for w
      using allot_other [OF v(1)] other [OF that] that Cons.prems(5) by (meson list.set_intros(2) subsetD)
    have IH: "map (\<lambda>v. paid_on (iv_id v) db' - paid_on (iv_id v) ?db) vs = waterfall (rest - x) (map (owing ?db) vs)
       \<and> (\<forall>i. i \<notin> iv_id ` set vs \<longrightarrow> paid_on i db' = paid_on i ?db)"
      using Cons.prems(6,7,8,12) rest x kept
      by (intro Cons.IH [OF portion(5) keeps(1,2) money]) (auto simp: sums_allot)
    have sums: "paid_on (iv_id w) ?db = paid_on (iv_id w) db" "owing ?db w = owing db w" if "w \<in> set vs" for w
      using other [OF that] by (simp_all add: owing_def sums_allot)
    have tail: "map (\<lambda>w. paid_on (iv_id w) db' - paid_on (iv_id w) db) vs = waterfall (rest - x) (map (owing db) vs)"
      using conjunct1 [OF IH] sums by (simp cong: map_cong)
    have "iv_id v \<notin> iv_id ` set vs" using Cons.prems(6) by simp
    then have "paid_on (iv_id v) db' = paid_on (iv_id v) ?db" using IH by blast
    then have head: "paid_on (iv_id v) db' - paid_on (iv_id v) db = x" by (simp add: sums_allot)
    have "paid_on i db' = paid_on i db" if "i \<notin> iv_id ` set (v # vs)" for i
      using IH that by (simp add: sums_allot)
    then show ?thesis using tail head portion(6) by (simp add: owing_def [of db v])
  qed
qed simp

lemma paid_on_same: "allocations db' = allocations db \<Longrightarrow> paid_on i db' = paid_on i db"
  by (simp add: paid_on_def)

text \<open>
  C17: A payment settles the oldest bills first. In every reachable state, recording a payment gives each of
  the bills it settles - those named, else all of the customer's open ones, in the order of their periods -
  exactly the portion of the reference waterfall: the debt of each bill is filled before the next gets
  anything, no other bill changes, and together they receive the smaller of the payment and the debts, so
  that money stays unallotted only when every one of these bills is fully paid.
\<close>

theorem payment_pours_over_bills:
  fixes db0 db db' :: "'a sales_db_scheme"
  assumes "no_sales db0" and "sales_step\<^sup>*\<^sup>* db0 db"
    and "RecordCustomerPaymentCommand c x m ref notes ids = Inr cmd" and "record_customer_payment e cmd actor db = Inr (p, db')"
  defines "targets \<equiv> invoices_to_settle (cm_tenant p) (cm_customer p) ids db"
  shows "map (\<lambda>v. paid_on (iv_id v) db' - paid_on (iv_id v) db) targets = waterfall (cm_amount p) (map (owing db) targets)
     \<and> (\<Sum>v \<leftarrow> targets. paid_on (iv_id v) db' - paid_on (iv_id v) db) = min (cm_amount p) (\<Sum>v \<leftarrow> targets. owing db v)
     \<and> (\<forall>i. i \<notin> iv_id ` set targets \<longrightarrow> paid_on i db' = paid_on i db)"
proof -
  note inv = sales_invD [OF reachable_sales [OF assms(1,2)]]
  have cmd: "0 < rp_amount cmd" "rp_invoices cmd = ids"
    using assms(3) by (auto simp: RecordCustomerPaymentCommand_def split: if_splits)
  show ?thesis
    using assms(4)
  proof (cases rule: record_customer_payment_cases)
    case (1 t cu num db1 ns db3 n pl y z w)
    let ?d2 = "db1\<lparr>next_id := Suc (next_id db), customer_payments := customer_payments db @ [p]\<rparr>"
    have tg: "targets = invoices_to_settle t (cu_id cu) (rp_invoices cmd) db" by (simp add: targets_def 1(6,7) cmd(2))
    obtain a where a: "money2 (rp_amount cmd) = Inr a" "numeric 16 2 a = Inr (cm_amount p)" using 1(8) by blast
    have "0 \<le> a" using quantize_money_Inr(2) [of "rp_amount cmd" None a] a(1) cmd(1) by (simp add: money2_def)
    then have amt: "is_amount (cm_amount p)" by (rule numeric_is_amount [OF a(2)])
    note d2 = add_payment_keeps [OF inv 1(4,5) amt 1(3) refl]
    have owed: "0 \<le> owing db v" if "v \<in> set targets" for v
      using that invoices_to_settle_targets [OF inv(2)] owing_nonneg [OF inv(3)] unfolding tg by blast
    have "allocations ?d2 = allocations db" using next_document_number_sales [OF 1(3)] by simp
    then have same2: "paid_on i ?d2 = paid_on i db" "owing ?d2 = owing db" for i
      using paid_on_same [of ?d2 db] by (simp_all add: owing_def fun_eq_iff)
    have same3: "paid_on i db' = paid_on i db3" for i by (rule paid_on_same) (simp add: 1(11))
    have "map (\<lambda>v. paid_on (iv_id v) db3 - paid_on (iv_id v) ?d2) targets = waterfall (cm_amount p) (map (owing ?d2) targets)
       \<and> (\<forall>i. i \<notin> iv_id ` set targets \<longrightarrow> paid_on i db3 = paid_on i ?d2)"
      unfolding tg
    proof (rule apply_payment_pours [OF 1(10) d2(1-3)])
      show "set (invoices_to_settle t (cu_id cu) (rp_invoices cmd) db) \<subseteq> set (invoices ?d2)"
        unfolding d2(5) using invoices_to_settle_targets [OF inv(2)] by blast
      show "distinct (map iv_id (invoices_to_settle t (cu_id cu) (rp_invoices cmd) db))" by (rule distinct_targets [OF inv(2)])
      show "payable v \<and> iv_tenant v = cm_tenant p \<and> iv_customer v = cm_customer p"
        if "v \<in> set (invoices_to_settle t (cu_id cu) (rp_invoices cmd) db)" for v
        using invoices_to_settle_targets [OF inv(2) that] 1(6,7) by simp
      show "p \<in> set (customer_payments ?d2)" by simp
      show "at_scale 2 (cm_amount p)" "0 \<le> cm_amount p" "cm_amount p < 10 ^ 14" using amt by (simp_all add: is_amount_def)
      show "cm_amount p \<le> cm_amount p - spent_by (cm_id p) ?d2" unfolding d2(6) by simp
    qed
    then have w: "map (\<lambda>v. paid_on (iv_id v) db' - paid_on (iv_id v) db) targets = waterfall (cm_amount p) (map (owing db) targets)"
        "\<forall>i. i \<notin> iv_id ` set targets \<longrightarrow> paid_on i db' = paid_on i db"
      by (simp_all add: same2 same3)
    have "sum_list (waterfall (cm_amount p) (map (owing db) targets)) = min (cm_amount p) (sum_list (map (owing db) targets))"
      by (rule waterfall_sum) (use amt owed in \<open>auto simp: is_amount_def\<close>)
    then show ?thesis using w by simp
  qed
qed

section \<open>Statements\<close>

text \<open>The reference: what a customer owes for what was issued and received before a moment.\<close>

definition owed_before :: "uuid \<Rightarrow> uuid \<Rightarrow> datetime \<Rightarrow> 'a sales_db_scheme \<Rightarrow> decimal" where
  "owed_before tenant cid t db =
     (\<Sum>v \<leftarrow> filter (\<lambda>v. stamped_before t (iv_issued_at v)) (payable_invoices tenant cid db). iv_total v)
     - (\<Sum>p \<leftarrow> filter (\<lambda>p. cm_received_at p < t) (recorded_payments tenant cid db). cm_amount p)"

definition entry_ok :: "statement_entry \<Rightarrow> bool" where
  "entry_ok m \<longleftrightarrow> is_amount (se_debit m) \<and> is_amount (se_credit m)"

lemma invoice_entries:
  "map_result (invoice_entry e tz) vs = Inr es \<Longrightarrow> (\<And>v. v \<in> set vs \<Longrightarrow> is_amount (iv_total v))
     \<Longrightarrow> map se_debit es = map iv_total vs \<and> (\<Sum>m \<leftarrow> es. se_credit m) = 0 \<and> (\<forall>m \<in> set es. entry_ok m)"
proof (induction vs arbitrary: es)
  case (Cons v vs)
  have "is_amount (iv_total v)" using Cons.prems(2) by simp
  moreover from this have "money2 (iv_total v) = Inr (iv_total v)" by (intro money2_fits) (simp_all add: is_amount_def)
  ultimately show ?case using Cons by (auto simp: andthen_eq_Inr invoice_entry_def entry_ok_def)
qed simp

lemma payment_entries:
  "map_result (payment_entry e tz db) ps = Inr es \<Longrightarrow> (\<And>p. p \<in> set ps \<Longrightarrow> is_amount (cm_amount p))
     \<Longrightarrow> map se_credit es = map cm_amount ps \<and> (\<Sum>m \<leftarrow> es. se_debit m) = 0 \<and> (\<forall>m \<in> set es. entry_ok m)"
proof (induction ps arbitrary: es)
  case (Cons p ps)
  have "is_amount (cm_amount p)" using Cons.prems(2) by simp
  moreover from this have "money2 (cm_amount p) = Inr (cm_amount p)" by (intro money2_fits) (simp_all add: is_amount_def)
  ultimately show ?case using Cons by (auto simp: andthen_eq_Inr payment_entry_def entry_ok_def)
qed simp

lemma sum_statement_order: "(\<Sum>m \<leftarrow> statement_order es. f m) = (\<Sum>m \<leftarrow> es. f m)" for f :: "statement_entry \<Rightarrow> decimal"
proof -
  have "mset (statement_order es) = mset es" by (simp add: statement_order_def)
  then have "mset (map f (statement_order es)) = mset (map f es)" by (simp only: mset_map)
  then show ?thesis by (metis sum_mset_sum_list)
qed

lemma entry_sums_nonneg:
  "(\<And>m. m \<in> set ms \<Longrightarrow> entry_ok m) \<Longrightarrow> 0 \<le> (\<Sum>m \<leftarrow> ms. se_debit m) \<and> 0 \<le> (\<Sum>m \<leftarrow> ms. se_credit m)"
  by (auto simp: entry_ok_def is_amount_def intro!: sum_list_nonneg)

lemma run_balance_exact:
  assumes "run_balance r b p ms = Inr (es, closing, deb, got)" and "\<And>m. m \<in> set ms \<Longrightarrow> entry_ok m"
    and "at_scale 2 r" and "at_scale 2 b" and "at_scale 2 p" and "0 \<le> b" and "0 \<le> p"
    and "\<bar>r\<bar> + (\<Sum>m \<leftarrow> ms. se_debit m) + (\<Sum>m \<leftarrow> ms. se_credit m) < 10 ^ 26"
    and "b + (\<Sum>m \<leftarrow> ms. se_debit m) < 10 ^ 26" and "p + (\<Sum>m \<leftarrow> ms. se_credit m) < 10 ^ 26"
  shows "closing = r + (\<Sum>m \<leftarrow> ms. se_debit m) - (\<Sum>m \<leftarrow> ms. se_credit m)
     \<and> deb = b + (\<Sum>m \<leftarrow> ms. se_debit m) \<and> got = p + (\<Sum>m \<leftarrow> ms. se_credit m)"
  using assms
proof (induction ms arbitrary: r b p es)
  case (Cons m ms)
  let ?d = "se_debit m" and ?c = "se_credit m"
  have s: "at_scale 2 ?d" "at_scale 2 ?c" "0 \<le> ?d" "0 \<le> ?c"
    using Cons.prems(2) [of m] by (simp_all add: entry_ok_def is_amount_def)
  have nn: "0 \<le> (\<Sum>m \<leftarrow> ms. se_debit m)" "0 \<le> (\<Sum>m \<leftarrow> ms. se_credit m)" using entry_sums_nonneg [of ms] Cons.prems(2) by auto
  have sums: "(\<Sum>m \<leftarrow> m # ms. se_debit m) = ?d + (\<Sum>m \<leftarrow> ms. se_debit m)"
      "(\<Sum>m \<leftarrow> m # ms. se_credit m) = ?c + (\<Sum>m \<leftarrow> ms. se_credit m)" by simp_all
  note bounds = Cons.prems(8-10) [unfolded sums]
  have rd: "dec_add r ?d = r + ?d" using Cons.prems(3) s nn bounds(1) by (intro dec_add_exact [of 2]) (auto simp: prec_def)
  have rdc: "dec_sub (r + ?d) ?c = r + ?d - ?c" "at_scale 2 (r + ?d - ?c)"
    using Cons.prems(3) s nn bounds(1) by (auto intro!: dec_sub_exact [of 2] at_scale_diff at_scale_add simp: prec_def)
  have bd: "dec_add b ?d = b + ?d" "dec_add p ?c = p + ?c"
    using Cons.prems(4-7) s nn bounds(2,3) by (auto intro!: dec_add_exact [of 2] simp: prec_def)
  obtain r' es' where r': "money2 (r + ?d - ?c) = Inr r'" "run_balance r' (b + ?d) (p + ?c) ms = Inr (es', closing, deb, got)"
    using Cons.prems(1) by (auto simp: andthen_eq_Inr rd rdc(1) bd)
  have eq: "r' = r + ?d - ?c" by (rule money2_at_scale [OF rdc(2) r'(1)])
  have "closing = r' + (\<Sum>m \<leftarrow> ms. se_debit m) - (\<Sum>m \<leftarrow> ms. se_credit m)
     \<and> deb = b + ?d + (\<Sum>m \<leftarrow> ms. se_debit m) \<and> got = p + ?c + (\<Sum>m \<leftarrow> ms. se_credit m)"
    by (rule Cons.IH [OF r'(2)])
      (use Cons.prems(2,4-7) rdc(2) s nn bounds in \<open>auto simp: eq at_scale_add\<close>)
  then show ?case by (simp add: eq)
qed simp

lemma sum_split:
  fixes f :: "'r \<Rightarrow> decimal"
  assumes "\<And>x. x \<in> set xs \<Longrightarrow> R x \<longleftrightarrow> P x \<or> Q x" and "\<And>x. P x \<Longrightarrow> \<not> Q x"
  shows "(\<Sum>x \<leftarrow> filter R xs. f x) = (\<Sum>x \<leftarrow> filter P xs. f x) + (\<Sum>x \<leftarrow> filter Q xs. f x)"
  using assms by (induction xs) auto

lemma amounts_bound:
  fixes f :: "'r \<Rightarrow> decimal"
  assumes "\<And>x. x \<in> set xs \<Longrightarrow> is_amount (f x)" and "length xs \<le> n"
  shows "0 \<le> (\<Sum>x \<leftarrow> xs. f x)" "(\<Sum>x \<leftarrow> xs. f x) \<le> of_nat n * 10 ^ 14" "at_scale 2 (\<Sum>x \<leftarrow> xs. f x)"
proof -
  have "(\<Sum>x \<leftarrow> xs. f x) \<le> of_nat (length xs) * 10 ^ 14"
    using assms(1)
  proof (induction xs)
    case (Cons x xs)
    have "f x \<le> 10 ^ 14" using Cons.prems [of x] by (simp add: is_amount_def)
    then show ?case using Cons by (simp add: algebra_simps)
  qed simp
  also have "(of_nat (length xs) :: decimal) \<le> of_nat n" using assms(2) by simp
  finally show "(\<Sum>x \<leftarrow> xs. f x) \<le> of_nat n * 10 ^ 14" by simp
  show "0 \<le> (\<Sum>x \<leftarrow> xs. f x)" by (rule sum_list_nonneg) (use assms(1) in \<open>auto simp: is_amount_def\<close>)
  show "at_scale 2 (\<Sum>x \<leftarrow> xs. f x)" by (rule at_scale_sum_list) (use assms(1) in \<open>auto simp: is_amount_def\<close>)
qed

lemma payable_amount: "bill_inv db \<Longrightarrow> v \<in> set (payable_invoices t c db) \<Longrightarrow> is_amount (iv_total v)"
  using table_okD(3) [OF bill_invD(1)] by (fastforce simp: payable_invoices_def invoice_ok_def)

lemma recorded_amount: "money_inv db \<Longrightarrow> p \<in> set (recorded_payments t c db) \<Longrightarrow> is_amount (cm_amount p)"
  using table_okD(3) [OF money_invD(1)] by (fastforce simp: recorded_payments_def)

text \<open>The money of a window: what happened in it, and the debt at its two ends.\<close>

lemma statement_sums:
  fixes t c :: uuid and db :: "'a sales_db_scheme"
  assumes "bill_inv db" and "money_inv db" and "length (invoices db) + length (customer_payments db) < 10 ^ 9"
  defines "vs \<equiv> payable_invoices t c db" and "ps \<equiv> recorded_payments t c db"
  shows "0 \<le> (\<Sum>v \<leftarrow> filter P vs. iv_total v)" "(\<Sum>v \<leftarrow> filter P vs. iv_total v) \<le> 10 ^ 23"
    "at_scale 2 (\<Sum>v \<leftarrow> filter P vs. iv_total v)"
    "0 \<le> (\<Sum>p \<leftarrow> filter Q ps. cm_amount p)" "(\<Sum>p \<leftarrow> filter Q ps. cm_amount p) \<le> 10 ^ 23"
    "at_scale 2 (\<Sum>p \<leftarrow> filter Q ps. cm_amount p)"
proof -
  have "length (filter P vs) \<le> length (invoices db)" "length (filter Q ps) \<le> length (customer_payments db)"
    unfolding vs_def ps_def payable_invoices_def recorded_payments_def by (auto intro: le_trans length_filter_le)
  then have n: "length (filter P vs) \<le> 10 ^ 9" "length (filter Q ps) \<le> 10 ^ 9" using assms(3) by simp_all
  have v: "is_amount (iv_total v)" if "v \<in> set (filter P vs)" for v
    using payable_amount [OF assms(1)] that unfolding vs_def by auto
  have p: "is_amount (cm_amount p)" if "p \<in> set (filter Q ps)" for p
    using recorded_amount [OF assms(2)] that unfolding ps_def by auto
  show "0 \<le> (\<Sum>v \<leftarrow> filter P vs. iv_total v)" "(\<Sum>v \<leftarrow> filter P vs. iv_total v) \<le> 10 ^ 23"
      "at_scale 2 (\<Sum>v \<leftarrow> filter P vs. iv_total v)"
    using amounts_bound [OF v n(1)] by simp_all
  show "0 \<le> (\<Sum>p \<leftarrow> filter Q ps. cm_amount p)" "(\<Sum>p \<leftarrow> filter Q ps. cm_amount p) \<le> 10 ^ 23"
      "at_scale 2 (\<Sum>p \<leftarrow> filter Q ps. cm_amount p)"
    using amounts_bound [OF p n(2)] by simp_all
qed

text \<open>
  C18: A statement agrees with the account. In every reachable state the opening balance of a statement is
  what the customer owed for everything issued and received before the first day, its closing balance is
  what is owed at the end of the last day, the two differ by exactly what was billed and paid in between,
  and no line is rounded away, for as long as there are fewer than a thousand million bills and payments.
\<close>

theorem statement_agrees:
  fixes db0 db :: "'a sales_db_scheme"
  assumes "no_sales db0" and "sales_step\<^sup>*\<^sup>* db0 db" and "customer_statement e cid date_from date_to db = Inr s"
    and "current_tenant e = Some t" and "range_bounds e (sm_from s) (sm_to s) (tenant_timezone e db None) = (a, b)" and "a \<le> b"
    and "length (invoices db) + length (customer_payments db) < 10 ^ 9"
  shows "sm_opening s = owed_before t (sm_customer s) a db \<and> sm_closing s = owed_before t (sm_customer s) b db
     \<and> sm_closing s = sm_opening s + sm_billed s - sm_paid s"
proof -
  note inv = sales_invD(2,3) [OF reachable_sales [OF assms(1,2)]]
  let ?c = "sm_customer s" and ?tz = "tenant_timezone e db None"
  let ?vs = "payable_invoices t ?c db" and ?ps = "recorded_payments t ?c db"
  let ?V = "\<lambda>P. \<Sum>v \<leftarrow> filter P ?vs. iv_total v" and ?M = "\<lambda>Q. \<Sum>p \<leftarrow> filter Q ?ps. cm_amount p"
  let ?v0 = "\<lambda>v. stamped_before a (iv_issued_at v)" and ?v1 = "\<lambda>v. stamped_within a b (iv_issued_at v)"
  let ?p0 = "\<lambda>p. cm_received_at p < a" and ?p1 = "\<lambda>p. a \<le> cm_received_at p \<and> cm_received_at p < b"
  obtain ves pes es cl bl pd where r:
    "money2 (dec_sub (?V ?v0) (?M ?p0)) = Inr (sm_opening s)"
    "map_result (invoice_entry e ?tz) (filter ?v1 ?vs) = Inr ves" "map_result (payment_entry e ?tz db) (filter ?p1 ?ps) = Inr pes"
    "run_balance (sm_opening s) 0 0 (statement_order (ves @ pes)) = Inr (es, cl, bl, pd)"
    "money2 bl = Inr (sm_billed s)" "money2 pd = Inr (sm_paid s)" "sm_closing s = cl"
    using assms(3,5) by (auto simp: customer_statement_def require_current_tenant_def assms(4) need_def andthen_eq_Inr Let_def
        dest!: get_customer_Inr split: if_splits prod.splits)
  note sums = statement_sums [OF inv assms(7), where t = t and c = ?c]
  have op: "sm_opening s = ?V ?v0 - ?M ?p0"
  proof -
    have "dec_sub (?V ?v0) (?M ?p0) = ?V ?v0 - ?M ?p0"
      using sums(1-3) [of ?v0] sums(4-6) [of ?p0] by (intro dec_sub_exact [of 2]) (auto simp: prec_def)
    then show ?thesis using money2_at_scale r(1) sums(3,6) at_scale_diff by metis
  qed
  have ves: "map se_debit ves = map iv_total (filter ?v1 ?vs)" "(\<Sum>m \<leftarrow> ves. se_credit m) = 0" "\<forall>m \<in> set ves. entry_ok m"
    using invoice_entries [OF r(2)] payable_amount [OF inv(1)] by auto
  have pes: "map se_credit pes = map cm_amount (filter ?p1 ?ps)" "(\<Sum>m \<leftarrow> pes. se_debit m) = 0" "\<forall>m \<in> set pes. entry_ok m"
    using payment_entries [OF r(3)] recorded_amount [OF inv(2)] by auto
  let ?ms = "statement_order (ves @ pes)"
  have tot: "(\<Sum>m \<leftarrow> ?ms. se_debit m) = ?V ?v1" "(\<Sum>m \<leftarrow> ?ms. se_credit m) = ?M ?p1"
    unfolding sum_statement_order using ves pes by simp_all
  have "entry_ok m" if "m \<in> set ?ms" for m using that ves(3) pes(3) by (auto simp: statement_order_def)
  then have "cl = sm_opening s + ?V ?v1 - ?M ?p1 \<and> bl = 0 + ?V ?v1 \<and> pd = 0 + ?M ?p1"
    using sums(1-3) [of ?v0] sums(1-3) [of ?v1] sums(4-6) [of ?p0] sums(4-6) [of ?p1]
    by (intro run_balance_exact [OF r(4), unfolded tot]) (auto simp: op at_scale_diff)
  moreover from this have "sm_billed s = ?V ?v1" "sm_paid s = ?M ?p1"
    using money2_at_scale r(5,6) sums(3,6) by simp_all
  moreover have "?V (\<lambda>v. stamped_before b (iv_issued_at v)) = ?V ?v0 + ?V ?v1"
  proof (rule sum_split)
    show "stamped_before b (iv_issued_at v) \<longleftrightarrow> ?v0 v \<or> ?v1 v" for v using assms(6) by (cases "iv_issued_at v") auto
    show "?v0 v \<Longrightarrow> \<not> ?v1 v" for v by (cases "iv_issued_at v") auto
  qed
  moreover have "?M (\<lambda>p. cm_received_at p < b) = ?M ?p0 + ?M ?p1"
    by (rule sum_split) (use assms(6) in auto)
  ultimately show ?thesis using op r(7) by (simp add: owed_before_def)
qed

section \<open>The tables of the desk\<close>

text \<open>
  C31: The sales tables stay in order. In every reachable state the product codes of an organisation are
  unique; a customer has at most one active standing order for a product and slot; there is at most one
  delivery for a customer, day, slot and product; two items never carry the same idempotency key; a
  delivery that did not take place is worth nothing and on no bill, and a cancelled item is on no bill.
\<close>

theorem sales_tables_ordered:
  fixes db0 db :: "'a sales_db_scheme"
  assumes "no_sales db0" and "sales_step\<^sup>*\<^sup>* db0 db"
  shows "(\<forall>p \<in> set (products db). \<forall>q \<in> set (products db). pd_tenant p = pd_tenant q \<longrightarrow> pd_code p = pd_code q \<longrightarrow> p = q)
       \<and> (\<forall>p \<in> set (plans db). \<forall>q \<in> set (plans db). dp_active p \<longrightarrow> dp_active q \<longrightarrow> plan_key p = plan_key q \<longrightarrow> p = q)
       \<and> (\<forall>d \<in> set (deliveries db). \<forall>k \<in> set (deliveries db). drop_key d = drop_key k \<longrightarrow> d = k)
       \<and> (\<forall>x \<in> set (sale_items db). \<forall>y \<in> set (sale_items db). si_key x \<noteq> None \<longrightarrow> si_tenant x = si_tenant y
            \<longrightarrow> si_key x = si_key y \<longrightarrow> x = y)
       \<and> (\<forall>d \<in> set (deliveries db). dl_status d \<noteq> DDelivered \<longrightarrow> dl_amount d = 0 \<and> dl_invoice d = None)
       \<and> (\<forall>x \<in> set (sale_items db). si_status x = ICancelled \<longrightarrow> si_invoice x = None)"
proof -
  note inv = sales_invD(1) [OF reachable_sales [OF assms]]
  have k: "unique_keys (\<lambda>p. (pd_tenant p, pd_code p)) (products db)" "unique_keys plan_key (filter dp_active (plans db))"
      "unique_keys drop_key (deliveries db)" "unique_keys (\<lambda>x. (si_tenant x, si_key x)) (filter (\<lambda>x. si_key x \<noteq> None) (sale_items db))"
    using stock_invD [OF inv] by (simp_all add: catalogue_ok_def plans_ok_def deliveries_ok_def items_ok_def)
  have "p = q" if "p \<in> set (products db)" "q \<in> set (products db)" "pd_tenant p = pd_tenant q" "pd_code p = pd_code q" for p q
    using unique_keysD [OF k(1) that(1,2)] that(3,4) by simp
  moreover have "p = q" if "p \<in> set (plans db)" "q \<in> set (plans db)" "dp_active p" "dp_active q" "plan_key p = plan_key q" for p q
    using unique_keysD [OF k(2), of p q] that by simp
  moreover have "x = y" if "x \<in> set (sale_items db)" "y \<in> set (sale_items db)" "si_key x \<noteq> None" "si_tenant x = si_tenant y"
      "si_key x = si_key y" for x y
    using unique_keysD [OF k(4), of x y] that by simp
  moreover have "delivery_ok d" if "d \<in> set (deliveries db)" for d by (rule stock_delivery_ok [OF inv that])
  moreover have "item_ok x" if "x \<in> set (sale_items db)" for x by (rule stock_item_ok [OF inv that])
  ultimately show ?thesis using unique_keysD [OF k(3)] unfolding delivery_ok_def item_ok_def by blast
qed

section \<open>A row of an import that fails\<close>

text \<open>
  C35: An import can create a customer and report an error. A row that is new and valid but whose standing
  order names a product the organisation does not have is reported as failed, yet its customer stays in
  the table without the order; and when the corrected file is sent again, that row is refused as a duplicate.
\<close>

theorem import_error_creates_customer:
  fixes db :: "'a sales_db_scheme"
  assumes "CreateCustomerCommand given = Inr cmd" and "current_tenant e = Some t"
    and "nc_plan cmd = Some np" and "np_product np = Some code" and "find_product t code db = None"
    and "\<not> list_ex (\<lambda>c. cu_tenant c = t \<and> cu_name c = nc_name cmd \<and> cu_phone c = nc_phone cmd) (customers db)"
    and "nc_currency cmd = Some cur" and "length (nc_type cmd) \<le> 20" and "list_all (\<lambda>c. cu_id c < next_id db) (customers db)"
  shows "\<exists>r c err db'. import_rows e [Inr cmd] actor db = Inr ([r], db') \<and> \<not> ir_created r \<and> ir_error r = Some err
     \<and> customers db' = customers db @ [c] \<and> cu_tenant c = t \<and> cu_name c = nc_name cmd \<and> plans db' = plans db
     \<and> import_rows e [Inr (cmd\<lparr>nc_plan := None\<rparr>)] actor db'
         = Inr ([\<lparr>ir_row = 0, ir_created = False, ir_customer = None, ir_code = None,
                  ir_error = Some (ConflictError ''duplicate of existing customer'')\<rparr>], db')"
proof -
  obtain k db1 where n: "next_document_number e t ''customer'' ''CUS'' db = (k, db1)" by fastforce
  note n1 = next_document_number_sales [OF n]
  let ?c = "\<lparr>cu_id = next_id db, cu_tenant = t, cu_code = k, cu_name = nc_name cmd, cu_type = nc_type cmd,
             cu_phone = nc_phone cmd, cu_alternate = nc_alternate cmd, cu_address = nc_address cmd,
             cu_notes = nc_notes cmd, cu_status = ''active'', cu_mode = nc_mode cmd,
             cu_billing_day = nc_billing_day cmd, cu_currency = cur\<rparr>"
  define db2 where "db2 = db1\<lparr>next_id := Suc (next_id db), customers := customers db @ [?c]\<rparr>"
  have reg: "register_customer e cmd t db = (Inr ?c, db2)"
    using n1 assms(8) by (simp add: register_customer_def n assms(7) column_text_def at_most_def new_id_eq Let_def db2_def)
  have "get_customer e db2 (next_id db) = Inr ?c"
  proof -
    have "find (\<lambda>c. cu_id c = next_id db \<and> cu_tenant c = t) (customers db @ [?c]) = Some ?c"
      by (rule find_last) (use assms(9) in \<open>auto simp: list_all_iff\<close>)
    then show ?thesis by (simp add: get_customer_def require_current_tenant_def assms(2) need_def db2_def)
  qed
  moreover have "find_product t code db2 = None" using assms(5) n1 by (simp add: find_product_def db2_def)
  ultimately have "\<exists>m. set_plan_raw e (next_id db) np actor db2 = (Inl (ValidationError m), db2)"
    by (simp add: set_plan_raw_def plan_product_def assms(4) require_active_def require_current_tenant_def assms(2) need_def)
  then obtain m where raw: "set_plan_raw e (next_id db) np actor db2 = (Inl (ValidationError m), db2)" by blast
  have "import_rows e [Inr cmd] actor db = Inr ([\<lparr>ir_row = 0, ir_created = False, ir_customer = None, ir_code = None,
      ir_error = Some (ValidationError m)\<rparr>], db2)"
    using assms(6) by (simp add: import_rows_def import_one_def MAX_IMPORT_ROWS_def require_current_tenant_def assms(2,3) need_def
        create_customer_raw_def reg raw)
  moreover have "import_rows e [Inr (cmd\<lparr>nc_plan := None\<rparr>)] actor db2
      = Inr ([\<lparr>ir_row = 0, ir_created = False, ir_customer = None, ir_code = None,
               ir_error = Some (ConflictError ''duplicate of existing customer'')\<rparr>], db2)"
    by (simp add: import_rows_def import_one_def MAX_IMPORT_ROWS_def require_current_tenant_def assms(2) need_def db2_def)
  ultimately show ?thesis using n1 by (simp add: db2_def)
qed

end
