(* ===== verification/SalesSamples.thy ===== *)
theory SalesSamples
  imports SalesGuarantees Scripts
begin

text \<open>
  A small dairy shop: one product, one customer with a standing order, a generated and confirmed delivery,
  an item, a bill and two payments. The guarantees of the selling side are applied along this run.
\<close>

section \<open>The shop\<close>

definition shop_org :: organization where
  "shop_org = \<lparr>org_id = 7, org_name = ''Dairy'', org_currency = ''KES'', org_timezone = ''UTC'',
     org_quantity_unit = ''L'', org_trade_unit = None, org_factor = None, org_factor_from = None\<rparr>"

definition sample_shop :: sales_db where
  "sample_shop =
     \<lparr>next_id = 100, organizations = [shop_org], centers = [], suppliers = [], supplier_profiles = [],
      supplier_centers = [], devices = [], branches = [], periods = [], sequences = [], outbox = [], audit_log = [],
      config_entries = [], products = [], customers = [], plans = [], deliveries = [], sale_items = [], invoices = [],
      invoice_lines = [], customer_payments = [], allocations = [], customer_receipts = []\<rparr>"

definition sample_plan :: plan_input where
  "sample_plan = \<lparr>np_product = Some ''MILK'', np_quantity = 2, np_unit = None, np_price = 50, np_from = Some 738890,
     np_to = None, np_weekdays = ''1111111'', np_slot = ''morning'', np_center = None, np_overrides = []\<rparr>"

definition sample_buyer :: "plan_input option \<Rightarrow> create_customer_command" where
  "sample_buyer np = \<lparr>nc_name = ''Asha'', nc_type = ''household'', nc_phone = ''0700'', nc_alternate = [], nc_address = [],
     nc_notes = [], nc_mode = ''credit'', nc_billing_day = 1, nc_currency = Some ''KES'', nc_plan = np\<rparr>"

abbreviation shop_open :: env where
  "shop_open \<equiv> sample_env 7 1705276800000000"

definition do_product :: "'a sales_db_scheme \<Rightarrow> 'a sales_db_scheme option" where
  "do_product db = done_with (create_product shop_open
     \<lparr>xp_code = Some ''MILK'', xp_name = ''Milk'', xp_unit = ''L'', xp_price = Some 50, xp_order = 0\<rparr> 9 db)"

definition do_buyer :: "'a sales_db_scheme \<Rightarrow> 'a sales_db_scheme option" where
  "do_buyer db = done_with (create_customer shop_open (sample_buyer (Some sample_plan)) 9 db)"

definition do_round :: "'a sales_db_scheme \<Rightarrow> 'a sales_db_scheme option" where
  "do_round db = done_with (generate_for_day 7 738900 (Some 9) None None None db)"

definition do_deliver :: "'a sales_db_scheme \<Rightarrow> 'a sales_db_scheme option" where
  "do_deliver db = done_with (record_delivery shop_open
     \<lparr>rd_customer = 101, rd_date = 738900, rd_slot = ''morning'', rd_quantity = None, rd_product = Some ''MILK'',
      rd_status = DDelivered, rd_notes = [], rd_price = None, rd_reason = None\<rparr> 9 False db)"

definition do_sell :: "'a sales_db_scheme \<Rightarrow> 'a sales_db_scheme option" where
  "do_sell db = done_with (record_item shop_open 101
     \<lparr>it_date = 738900, it_code = ''MILK'', it_quantity = 1, it_price = None, it_notes = [], it_key = Some ''k'',
      it_via = ''portal''\<rparr> 9 False db)"

definition do_bill :: "'a sales_db_scheme \<Rightarrow> 'a sales_db_scheme option" where
  "do_bill db = done_with (generate_invoice shop_open 101 738890 738900 (Some 9) db)"

definition do_issue :: "uuid \<Rightarrow> 'a sales_db_scheme \<Rightarrow> 'a sales_db_scheme option" where
  "do_issue i db = done_with (issue_invoice shop_open i 9 db)"

definition sample_cash :: "decimal \<Rightarrow> record_customer_payment_command" where
  "sample_cash x = \<lparr>rp_customer = 101, rp_amount = x, rp_method = ''CASH'', rp_reference = [], rp_notes = [], rp_invoices = []\<rparr>"

definition do_cash :: "decimal \<Rightarrow> 'a sales_db_scheme \<Rightarrow> 'a sales_db_scheme option" where
  "do_cash x db = done_with (record_customer_payment shop_open (sample_cash x) 9 db)"

section \<open>Every operation of the script is a step\<close>

lemma sample_plan_built: "built_plan sample_plan"
proof -
  have "DeliveryPlanInput (Some ''MILK'') 2 None 50 (Some 738890) None ''1111111'' ''morning'' None [] = Inr sample_plan"
    by code_simp
  then show ?thesis unfolding built_plan_def by blast
qed

lemma sample_buyer_command: "CreateCustomerCommand (sample_buyer np) = Inr (sample_buyer np)"
proof -
  have "normalise_customer_type ''household'' = Inr ''household''" "str_upper ''KES'' = ''KES''" by code_simp+
  then show ?thesis
    by (simp add: sample_buyer_def CreateCustomerCommand_def customer_fields_ok_def at_most_def BILLING_MODES_def)
qed

lemma sample_cash_command: "0 < x \<Longrightarrow> RecordCustomerPaymentCommand 101 x ''CASH'' [] [] [] = Inr (sample_cash x)"
  by (simp add: RecordCustomerPaymentCommand_def BILLING_METHODS_def at_most_def sample_cash_def)

lemma shop_ops:
  "do_product db = Some db' \<Longrightarrow> sales_step db db'" "do_buyer db = Some db' \<Longrightarrow> sales_step db db'"
  "do_round db = Some db' \<Longrightarrow> sales_step db db'" "do_deliver db = Some db' \<Longrightarrow> sales_step db db'"
  "do_sell db = Some db' \<Longrightarrow> sales_step db db'" "do_bill db = Some db' \<Longrightarrow> sales_step db db'"
  "do_issue i db = Some db' \<Longrightarrow> sales_step db db'" "0 < x \<Longrightarrow> do_cash x db = Some db' \<Longrightarrow> sales_step db db'"
proof -
  have p: "CreateProductCommand (Some ''MILK'') ''Milk'' ''L'' (Some 50) 0
      = Inr \<lparr>xp_code = Some ''MILK'', xp_name = ''Milk'', xp_unit = ''L'', xp_price = Some 50, xp_order = 0\<rparr>"
    by code_simp
  show "do_product db = Some db' \<Longrightarrow> sales_step db db'"
    unfolding do_product_def done_with_Some using product_created [OF p] by blast
  have "built_customer (sample_buyer (Some sample_plan))"
    unfolding built_customer_def using sample_buyer_command sample_plan_built by (auto simp: sample_buyer_def)
  then show "do_buyer db = Some db' \<Longrightarrow> sales_step db db'"
    unfolding do_buyer_def done_with_Some using customer_created by blast
  show "do_round db = Some db' \<Longrightarrow> sales_step db db'"
    unfolding do_round_def done_with_Some using day_generated by blast
  have "RecordDeliveryCommand 101 738900 ''morning'' None (Some ''MILK'') ''delivered'' [] None None
      = Inr \<lparr>rd_customer = 101, rd_date = 738900, rd_slot = ''morning'', rd_quantity = None, rd_product = Some ''MILK'',
             rd_status = DDelivered, rd_notes = [], rd_price = None, rd_reason = None\<rparr>"
    by code_simp
  then show "do_deliver db = Some db' \<Longrightarrow> sales_step db db'"
    unfolding do_deliver_def done_with_Some using delivery_recorded built_delivery_def by blast
  have "RecordItemCommand 738900 ''MILK'' 1 None [] (Some ''k'') ''portal''
      = Inr \<lparr>it_date = 738900, it_code = ''MILK'', it_quantity = 1, it_price = None, it_notes = [], it_key = Some ''k'',
             it_via = ''portal''\<rparr>"
    by code_simp
  then show "do_sell db = Some db' \<Longrightarrow> sales_step db db'"
    unfolding do_sell_def done_with_Some using item_recorded built_item_def by blast
  show "do_bill db = Some db' \<Longrightarrow> sales_step db db'" unfolding do_bill_def done_with_Some using bill_generated by blast
  show "do_issue i db = Some db' \<Longrightarrow> sales_step db db'" unfolding do_issue_def done_with_Some using bill_issued by blast
  show "0 < x \<Longrightarrow> do_cash x db = Some db' \<Longrightarrow> sales_step db db'"
    unfolding do_cash_def done_with_Some using money_received [OF sample_cash_command] by blast
qed

section \<open>The run\<close>

definition stocked :: "(sales_db \<Rightarrow> sales_db option) list" where
  "stocked = [do_product, do_buyer, do_deliver, do_sell]"

lemma sales_evaluated:
  "case script stocked sample_shop of None \<Rightarrow> False | Some a \<Rightarrow>
     map dl_amount (deliveries a) = [100] \<and> map si_amount (sale_items a) = [50]
     \<and> (case do_bill a of None \<Rightarrow> False | Some b \<Rightarrow>
          map iv_id (invoices b) = [107] \<and> map iv_total (invoices b) = [150]
          \<and> (case do_issue 107 b of None \<Rightarrow> False | Some c \<Rightarrow>
               map iv_id (invoices c) = [107] \<and> map iv_status (invoices c) = [VIssued] \<and> map iv_total (invoices c) = [150]
               \<and> (case do_cash 200 c of None \<Rightarrow> False | Some d \<Rightarrow>
                    map ap_invoice (allocations d) = [107] \<and> map ap_amount (allocations d) = [150]
                    \<and> map iv_status (invoices d) = [VPaid] \<and> length (customer_payments d) = 1
                    \<and> (case customer_statement shop_open 101 (Some 738900) (Some 738900) d of Inl err \<Rightarrow> False | Inr s \<Rightarrow>
                         sm_customer s = 101 \<and> sm_opening s = 0 \<and> sm_billed s = 150 \<and> sm_paid s = 200 \<and> sm_closing s = - 50
                         \<and> sm_from s = 738900 \<and> sm_to s = 738900 \<and> tenant_timezone shop_open d None = ''UTC''))))"
  by code_simp

lemma shop_run:
  obtains a b c d s v w x where "sales_step\<^sup>*\<^sup>* sample_shop a" "do_bill a = Some b" "do_issue 107 b = Some c" "do_cash 200 c = Some d"
    "map dl_amount (deliveries a) = [100]" "map si_amount (sale_items a) = [50]"
    "invoices b = [v]" "iv_id v = 107" "iv_total v = 150"
    "invoices c = [w]" "iv_id w = 107" "iv_status w = VIssued" "iv_total w = 150"
    "invoices d = [x]" "iv_status x = VPaid" "map ap_invoice (allocations d) = [107]" "map ap_amount (allocations d) = [150]"
    "length (customer_payments d) = 1" "customer_statement shop_open 101 (Some 738900) (Some 738900) d = Inr s"
    "sm_customer s = 101" "sm_opening s = 0" "sm_billed s = 150" "sm_paid s = 200" "sm_closing s = - 50"
    "sm_from s = 738900" "sm_to s = 738900" "tenant_timezone shop_open d None = ''UTC''"
proof -
  from sales_evaluated obtain a where a: "script stocked sample_shop = Some a" by (auto split: option.splits)
  from sales_evaluated obtain b where b: "do_bill a = Some b" by (auto simp: a split: option.splits)
  from sales_evaluated obtain c where c: "do_issue 107 b = Some c" by (auto simp: a b split: option.splits)
  from sales_evaluated obtain d where d: "do_cash 200 c = Some d" by (auto simp: a b c split: option.splits)
  from sales_evaluated obtain s where s: "customer_statement shop_open 101 (Some 738900) (Some 738900) d = Inr s"
    by (auto simp: a b c d split: sum.splits)
  note f = sales_evaluated [unfolded a option.case b c d s sum.case]
  obtain v w x where "invoices b = [v]" "invoices c = [w]" "invoices d = [x]" using f by (auto simp: map_eq_Cons_conv)
  moreover have "sales_step\<^sup>*\<^sup>* sample_shop a"
    by (rule script_steps [OF a]) (auto simp: stocked_def dest: shop_ops)
  ultimately show thesis using that [OF _ b c d _ _ _ _ _ _ _ _ _ _ _ _ _ _ s] f by simp
qed

section \<open>The guarantees along the run\<close>

lemma shop_empty: "no_sales sample_shop"
  by (simp add: no_sales_def sample_shop_def)

lemma then_step: "R\<^sup>*\<^sup>* a b \<Longrightarrow> R b c \<Longrightarrow> R\<^sup>*\<^sup>* a c"
  by (rule rtranclp.rtrancl_into_rtrancl)

lemma bills_consistent_witness:
  "\<exists>db v. sales_step\<^sup>*\<^sup>* sample_shop db \<and> invoices db = [v] \<and> iv_status v = VPaid
     \<and> lines_of_invoice (iv_id v) db \<noteq> [] \<and> iv_total v = (\<Sum>l \<leftarrow> lines_of_invoice (iv_id v) db. il_amount l)"
proof (rule shop_run, goal_cases)
  case (1 a b c d s v w x)
  have "sales_step\<^sup>*\<^sup>* sample_shop d"
    using 1(1-4) shop_ops(6,7) shop_ops(8) [of 200] by (meson then_step zero_less_numeral)
  then show ?case
    using bills_consistent [OF shop_empty, of d] 1(14,15) by (intro exI [of _ d] exI [of _ x]) simp
qed

lemma issued_bill_immutable_witness:
  "\<exists>db db' v v'. sales_step\<^sup>*\<^sup>* sample_shop db \<and> sales_step db db' \<and> invoices db = [v] \<and> iv_status v = VIssued \<and> invoices db' = [v']
     \<and> iv_status v' = VPaid \<and> iv_total v' = iv_total v \<and> lines_of_invoice (iv_id v) db' = lines_of_invoice (iv_id v) db"
proof (rule shop_run, goal_cases)
  case (1 a b c d s v w x)
  have c: "sales_step\<^sup>*\<^sup>* sample_shop c" using 1(1-3) shop_ops(6,7) by (meson then_step)
  have d: "sales_step c d" using 1(4) shop_ops(8) [of 200] by simp
  have "x = w\<lparr>iv_status := iv_status x, iv_cancelled_at := iv_cancelled_at x\<rparr>"
      "lines_of_invoice (iv_id w) d = lines_of_invoice (iv_id w) c"
    using issued_bill_immutable [OF shop_empty c r_into_rtranclp [of sales_step, OF d], of w] 1(10,12,14) by simp_all
  moreover have "iv_total x = iv_total w" using arg_cong [OF calculation(1), of iv_total] by simp
  ultimately show ?case
    using c d 1(10,12,14,15) by (intro exI [of _ c] exI [of _ d] exI [of _ w] exI [of _ x]) simp
qed

lemma allocations_within_witness:
  "\<exists>db v. sales_step\<^sup>*\<^sup>* sample_shop db \<and> invoices db = [v] \<and> iv_status v = VPaid \<and> map ap_amount (allocations db) = [150]
     \<and> paid_on (iv_id v) db = iv_total v"
proof (rule shop_run, goal_cases)
  case (1 a b c d s v w x)
  have "sales_step\<^sup>*\<^sup>* sample_shop d"
    using 1(1-4) shop_ops(6,7) shop_ops(8) [of 200] by (meson then_step zero_less_numeral)
  then show ?case
    using allocations_within [OF shop_empty, of d] 1(14,15,17) by (intro exI [of _ d] exI [of _ x]) simp
qed

lemma cancel_undoes_generate_witness:
  "\<exists>db :: sales_db. \<exists>db1 v v' db2. do_bill db = Some db1 \<and> invoices db1 = [v] \<and> cancel_invoice (sample_env 7 0) (iv_id v) ''wrong'' 8 db1 = Inr (v', db2)
     \<and> deliveries db2 = deliveries db \<and> sale_items db2 = sale_items db \<and> map dl_amount (deliveries db) = [100]"
proof (rule shop_run, goal_cases)
  case (1 a b c d s v w x)
  obtain u where u: "generate_invoice shop_open 101 738890 738900 (Some 9) a = Inr (u, b)"
    using 1(2) unfolding do_bill_def done_with_Some by blast
  have "current_tenant (sample_env 7 0) = current_tenant shop_open" by (simp add: sample_env_def)
  then obtain v' db2 where r: "cancel_invoice (sample_env 7 0) (iv_id u) ''wrong'' 8 b = Inr (v', db2)"
      "deliveries db2 = deliveries a" "sale_items db2 = sale_items a"
    using cancel_undoes_generate [OF shop_empty 1(1) u] by blast
  have "u \<in> set (invoices b)"
    using u by (auto simp: generate_invoice_def file_invoice_def andthen_eq_Inr Let_def split_def split: if_splits)
  then have "u = v" using 1(7) by simp
  then show ?case
    using r 1(2,5,7) by (intro exI [of _ a] exI [of _ b] exI [of _ v] exI [of _ v'] exI [of _ db2]) simp
qed

lemma payment_pours_over_bills_witness:
  "\<exists>db p db'. sales_step\<^sup>*\<^sup>* sample_shop db \<and> record_customer_payment shop_open (sample_cash 200) 9 db = Inr (p, db')
     \<and> (\<Sum>v \<leftarrow> invoices_to_settle (cm_tenant p) (cm_customer p) [] db. paid_on (iv_id v) db' - paid_on (iv_id v) db)
        = min (cm_amount p) (\<Sum>v \<leftarrow> invoices_to_settle (cm_tenant p) (cm_customer p) [] db. owing db v)"
proof (rule shop_run, goal_cases)
  case (1 a b c d s v w x)
  have c: "sales_step\<^sup>*\<^sup>* sample_shop c" using 1(1-3) shop_ops(6,7) by (meson then_step)
  obtain p where p: "record_customer_payment shop_open (sample_cash 200) 9 c = Inr (p, d)"
    using 1(4) unfolding do_cash_def done_with_Some by blast
  then show ?case
    using payment_pours_over_bills [OF shop_empty c sample_cash_command p] c by auto
qed

lemma statement_agrees_witness:
  "\<exists>db a b. sales_step\<^sup>*\<^sup>* sample_shop db \<and> range_bounds shop_open 738900 738900 ''UTC'' = (a, b) \<and> owed_before 7 101 a db = 0
     \<and> owed_before 7 101 b db = - 50"
proof (rule shop_run, goal_cases)
  case (1 a b c d s v w x)
  have run: "sales_step\<^sup>*\<^sup>* sample_shop d"
    using 1(1-4) shop_ops(6,7) shop_ops(8) [of 200] by (meson then_step zero_less_numeral)
  have t: "current_tenant shop_open = Some 7" by (simp add: sample_env_def)
  obtain l h where r: "range_bounds shop_open 738900 738900 ''UTC'' = (l, h)" "l \<le> h"
    by (simp add: range_bounds_def day_bounds_def sample_env_def day_us_def Let_def)
  have "owed_before 7 101 l d = 0 \<and> owed_before 7 101 h d = - 50"
    using statement_agrees [OF shop_empty run 1(19) t, of l h] r 1(14,18,20,21,24-27) by simp
  then show ?case using run r by blast
qed

lemma sales_tables_ordered_witness:
  "\<exists>db. sales_step\<^sup>*\<^sup>* sample_shop db \<and> map dl_amount (deliveries db) = [100] \<and> inj_on drop_key (set (deliveries db))"
proof (rule shop_run, goal_cases)
  case (1 a b c d s v w x)
  then show ?case
    using sales_tables_ordered [OF shop_empty 1(1)] by (intro exI [of _ a]) (auto simp: inj_on_def)
qed

lemma import_error_creates_customer_witness:
  "\<exists>r c db' m. import_rows shop_open [Inr (sample_buyer (Some sample_plan))] 9 sample_shop = Inr ([r], db') \<and> ir_error r = Some m
     \<and> customers db' = [c] \<and> cu_name c = ''Asha''"
proof -
  have "find_product 7 ''MILK'' sample_shop = None" "customers sample_shop = []" by (simp_all add: find_product_def sample_shop_def)
  moreover have "current_tenant shop_open = Some 7" by (simp add: sample_env_def)
  ultimately have "\<exists>r c err db'. import_rows shop_open [Inr (sample_buyer (Some sample_plan))] 9 sample_shop = Inr ([r], db')
      \<and> \<not> ir_created r \<and> ir_error r = Some err \<and> customers db' = [c] \<and> cu_name c = ''Asha''"
    using import_error_creates_customer [OF sample_buyer_command, of shop_open 7 "Some sample_plan" sample_plan "''MILK''" sample_shop "''KES''" 9]
    by (fastforce simp: sample_buyer_def sample_plan_def)
  then show ?thesis by blast
qed

text \<open>A round of one standing order.\<close>

lemma round_evaluated:
  "case script [do_product, do_buyer] sample_shop of None \<Rightarrow> False | Some db \<Rightarrow>
     (case generate_for_day 7 738900 (Some 9) None None None db of Inl err \<Rightarrow> False | Inr (r, db') \<Rightarrow>
        gr_due r = 1 \<and> gr_created r = 1)"
  by code_simp

lemma generate_for_day_idempotent_witness:
  "\<exists>db :: sales_db. \<exists>db' db'' r r'. generate_for_day 7 738900 (Some 9) None None None db = Inr (r, db') \<and> gr_created r = 1
     \<and> generate_for_day 7 738900 None None None None db' = Inr (r', db'') \<and> gr_created r' = 0 \<and> deliveries db'' = deliveries db'"
proof -
  obtain db where db: "script [do_product, do_buyer] sample_shop = Some db" using round_evaluated by (auto split: option.splits)
  then obtain r db' where r: "generate_for_day 7 738900 (Some 9) None None None db = Inr (r, db')" "gr_created r = 1"
    using round_evaluated by (auto split: sum.splits)
  then show ?thesis using generate_for_day_idempotent [OF r(1), of None] by blast
qed

end
