(* ===== verification/BusinessCalendar.thy ===== *)
theory BusinessCalendar
  imports Deliveries
begin

text \<open>
  The business calendar (\<open>modules/business_calendar\<close>, and the calendar entries of a centre in
  \<open>modules/collection_center\<close>): which days are worked, and which financial periods may still be written to.
\<close>

section \<open>Tables\<close>

record calendar_day =
  cd_id :: uuid
  cd_tenant :: uuid
  cd_day :: date
  cd_working :: bool
  cd_kind :: string
  cd_name :: string
  cd_created_by :: "uuid option"

record centre_entry =
  ce_id :: uuid
  ce_tenant :: uuid
  ce_center :: uuid
  ce_day :: date
  ce_kind :: string
  ce_note :: string

record calendar_db = sales_db +
  calendar_days :: "calendar_day list"
  centre_entries :: "centre_entry list"

definition CALENDAR_DAY_KINDS :: "string list" where
  "CALENDAR_DAY_KINDS = [''holiday'', ''closure'', ''working'']"

section \<open>Working days\<close>

definition centre_exception_is_working :: "string \<Rightarrow> bool" where
  "centre_exception_is_working kind \<longleftrightarrow> kind = ''special''"

definition resolve_working_day :: "bool option \<Rightarrow> bool option \<Rightarrow> bool" where
  "resolve_working_day organization centre =
     (case centre of
        Some c \<Rightarrow> c
      | None \<Rightarrow> (case organization of Some b \<Rightarrow> b | None \<Rightarrow> True))"

definition calendar_row :: "uuid \<Rightarrow> date \<Rightarrow> 'a calendar_db_scheme \<Rightarrow> calendar_day option" where
  "calendar_row tenant day db = find (\<lambda>r. cd_tenant r = tenant \<and> cd_day r = day) (calendar_days db)"

definition organization_exception :: "uuid \<Rightarrow> date \<Rightarrow> 'a calendar_db_scheme \<Rightarrow> bool option" where
  "organization_exception tenant day db = map_option cd_working (calendar_row tenant day db)"

text \<open>The row-level policy of the tenant's session confines the lookup to its own centres.\<close>

definition centre_calendar_exception :: "uuid \<Rightarrow> uuid \<Rightarrow> date \<Rightarrow> 'a calendar_db_scheme \<Rightarrow> string option" where
  "centre_calendar_exception tenant center day db =
     map_option ce_kind (find (\<lambda>r. ce_tenant r = tenant \<and> ce_center r = center \<and> ce_day r = day) (centre_entries db))"

text \<open>\<open>WorkingDayResolver.is_working\<close>, whose cache is transparent.\<close>

definition is_working :: "uuid \<Rightarrow> date \<Rightarrow> 'a calendar_db_scheme \<Rightarrow> uuid option \<Rightarrow> bool" where
  "is_working tenant day db center =
     resolve_working_day (organization_exception tenant day db)
       (case center of
          None \<Rightarrow> None
        | Some c \<Rightarrow> map_option centre_exception_is_working (centre_calendar_exception tenant c day db))"

record calendar_day_input =
  ci_day :: date
  ci_working :: bool
  ci_kind :: string
  ci_name :: string

definition CalendarDayInput :: "date \<Rightarrow> bool \<Rightarrow> string \<Rightarrow> string \<Rightarrow> calendar_day_input result" where
  "CalendarDayInput day working kind name =
     (if \<not> at_most 120 name then Inl (ValueError ''name'')
      else Inr \<lparr>ci_day = day, ci_working = working, ci_kind = kind, ci_name = name\<rparr>)"

definition set_calendar_day ::
  "uuid \<Rightarrow> calendar_day_input \<Rightarrow> uuid option \<Rightarrow> 'a calendar_db_scheme \<Rightarrow> (calendar_day \<times> 'a calendar_db_scheme) result" where
  "set_calendar_day tenant cmd actor db =
     (if ci_kind cmd \<notin> set CALENDAR_DAY_KINDS then Inl (ValidationError ''unknown calendar day kind'')
      else
        case calendar_row tenant (ci_day cmd) db of
          Some r \<Rightarrow>
            let r' = r\<lparr>cd_working := ci_working cmd, cd_kind := ci_kind cmd, cd_name := ci_name cmd\<rparr>
            in Inr (r', db\<lparr>calendar_days := row_update cd_id (cd_id r) (\<lambda>_. r') (calendar_days db)\<rparr>)
        | None \<Rightarrow>
            let (i, db1) = new_id db;
                r = \<lparr>cd_id = i, cd_tenant = tenant, cd_day = ci_day cmd, cd_working = ci_working cmd,
                     cd_kind = ci_kind cmd, cd_name = ci_name cmd, cd_created_by = actor\<rparr>
            in Inr (r, db1\<lparr>calendar_days := calendar_days db1 @ [r]\<rparr>))"

definition remove_calendar_day :: "uuid \<Rightarrow> date \<Rightarrow> 'a calendar_db_scheme \<Rightarrow> 'a calendar_db_scheme result" where
  "remove_calendar_day tenant day db =
     (case calendar_row tenant day db of
        None \<Rightarrow> Inl (NotFoundError ''no calendar entry for that day'')
      | Some r \<Rightarrow> Inr (db\<lparr>calendar_days := row_delete cd_id (cd_id r) (calendar_days db)\<rparr>))"

definition calendar_between :: "uuid \<Rightarrow> date \<Rightarrow> date \<Rightarrow> 'a calendar_db_scheme \<Rightarrow> calendar_day list result" where
  "calendar_between tenant from until db =
     (if until < from then Inl (ValidationError ''the range ends before it begins'')
      else Inr (sort_key cd_day (filter (\<lambda>r. cd_tenant r = tenant \<and> from \<le> cd_day r \<and> cd_day r \<le> until) (calendar_days db))))"

section \<open>The calendar of a centre\<close>

record centre_entry_input =
  cx_day :: date
  cx_kind :: string
  cx_note :: string

definition CalendarEntryInput :: "date \<Rightarrow> string \<Rightarrow> string \<Rightarrow> centre_entry_input result" where
  "CalendarEntryInput day kind note =
     (if \<not> at_most 300 note then Inl (ValueError ''note'')
      else if kind \<notin> {''holiday'', ''closure'', ''special''} then Inl (ValueError ''kind must be holiday, closure, or special'')
      else Inr \<lparr>cx_day = day, cx_kind = kind, cx_note = note\<rparr>)"

definition own_center :: "env \<Rightarrow> 'a core_db_scheme \<Rightarrow> uuid \<Rightarrow> collection_center result" where
  "own_center e db i =
     andthen (require_current_tenant e) (\<lambda>tenant.
       need (NotFoundError ''collection center not found'')
         (find (\<lambda>c. cc_id c = i \<and> cc_tenant c = tenant) (centers db)))"

definition add_calendar_entry ::
  "env \<Rightarrow> uuid \<Rightarrow> centre_entry_input \<Rightarrow> uuid \<Rightarrow> 'a calendar_db_scheme \<Rightarrow> (centre_entry \<times> 'a calendar_db_scheme) result" where
  "add_calendar_entry e center cmd actor db =
     andthen (own_center e db center) (\<lambda>c.
     if list_ex (\<lambda>r. ce_center r = cc_id c \<and> ce_day r = cx_day cmd) (centre_entries db)
       then Inl (ConflictError ''calendar entry for this day already exists'')
     else
       let (i, db1) = new_id db;
           r = \<lparr>ce_id = i, ce_tenant = cc_tenant c, ce_center = cc_id c, ce_day = cx_day cmd, ce_kind = cx_kind cmd,
                ce_note = cx_note cmd\<rparr>
       in Inr (r, audit e ''collection.center.calendar_added'' ''collection_center'' (cc_id c) (Some actor)
                 [(''day'', JDate (cx_day cmd)), (''kind'', JStr (cx_kind cmd))]
                 (db1\<lparr>centre_entries := centre_entries db1 @ [r]\<rparr>)))"

definition remove_calendar_entry ::
  "env \<Rightarrow> uuid \<Rightarrow> uuid \<Rightarrow> uuid \<Rightarrow> 'a calendar_db_scheme \<Rightarrow> 'a calendar_db_scheme result" where
  "remove_calendar_entry e center entry actor db =
     andthen (own_center e db center) (\<lambda>c.
     case row_get ce_id entry (centre_entries db) of
       None \<Rightarrow> Inl (NotFoundError ''calendar entry not found'')
     | Some r \<Rightarrow>
         if ce_center r \<noteq> cc_id c then Inl (NotFoundError ''calendar entry not found'')
         else Inr (audit e ''collection.center.calendar_removed'' ''collection_center'' (cc_id c) (Some actor) []
                    (db\<lparr>centre_entries := row_delete ce_id entry (centre_entries db)\<rparr>)))"

section \<open>Financial periods\<close>

record period_input =
  fi_start :: date
  fi_end :: date
  fi_label :: string

definition FinancialPeriodInput :: "date \<Rightarrow> date \<Rightarrow> string \<Rightarrow> period_input result" where
  "FinancialPeriodInput from until label =
     (if \<not> at_most 60 label then Inl (ValueError ''label'') else Inr \<lparr>fi_start = from, fi_end = until, fi_label = label\<rparr>)"

definition open_period :: "uuid \<Rightarrow> period_input \<Rightarrow> 'a core_db_scheme \<Rightarrow> (financial_period \<times> 'a core_db_scheme) result" where
  "open_period tenant cmd db =
     (if fi_end cmd < fi_start cmd then Inl (ValidationError ''the period ends before it begins'')
      else if list_ex (\<lambda>p. fp_tenant p = tenant \<and> fp_start p \<le> fi_end cmd \<and> fi_start cmd \<le> fp_end p) (periods db)
        then Inl (ConflictError ''overlaps a declared period'')
      else
        let (i, db1) = new_id db;
            p = \<lparr>fp_id = i, fp_tenant = tenant, fp_start = fi_start cmd, fp_end = fi_end cmd, fp_status = ''open'',
                 fp_label = fi_label cmd, fp_closed_at = None, fp_closed_by = None\<rparr>
        in Inr (p, db1\<lparr>periods := periods db1 @ [p]\<rparr>))"

definition get_period :: "uuid \<Rightarrow> 'a core_db_scheme \<Rightarrow> uuid \<Rightarrow> financial_period result" where
  "get_period tenant db i =
     need (NotFoundError ''financial period not found'')
       (find (\<lambda>p. fp_id p = i \<and> fp_tenant p = tenant) (periods db))"

definition put_period :: "financial_period \<Rightarrow> 'a core_db_scheme \<Rightarrow> 'a core_db_scheme" where
  "put_period p db = db\<lparr>periods := row_update fp_id (fp_id p) (\<lambda>_. p) (periods db)\<rparr>"

definition close_period ::
  "env \<Rightarrow> uuid \<Rightarrow> uuid \<Rightarrow> uuid option \<Rightarrow> 'a core_db_scheme \<Rightarrow> (financial_period \<times> 'a core_db_scheme) result" where
  "close_period e tenant i actor db =
     andthen (get_period tenant db i) (\<lambda>p.
     if fp_status p = ''closed'' then Inl (ConflictError ''the period is already closed'')
     else
       let p' = p\<lparr>fp_status := ''closed'', fp_closed_at := Some (now e), fp_closed_by := actor\<rparr>
       in Inr (p', put_period p' db))"

definition reopen_period ::
  "uuid \<Rightarrow> uuid \<Rightarrow> 'a core_db_scheme \<Rightarrow> (financial_period \<times> 'a core_db_scheme) result" where
  "reopen_period tenant i db =
     andthen (get_period tenant db i) (\<lambda>p.
     if fp_status p = ''open'' then Inl (ConflictError ''the period is already open'')
     else
       let p' = p\<lparr>fp_status := ''open'', fp_closed_at := None, fp_closed_by := None\<rparr>
       in Inr (p', put_period p' db))"

text \<open>The overview of an organisation's calendar.\<close>

record calendar_view =
  cw_timezone :: string
  cw_today :: date
  cw_working :: bool
  cw_month :: "date \<times> date"
  cw_previous :: "date \<times> date"
  cw_period :: "financial_period option"

definition overview :: "env \<Rightarrow> uuid \<Rightarrow> 'a calendar_db_scheme \<Rightarrow> calendar_view" where
  "overview e tenant db =
     (let tz = tenant_timezone e db (Some tenant); today = business_today e tz in
      \<lparr>cw_timezone = tz, cw_today = today, cw_working = is_working tenant today db None,
       cw_month = month_bounds today, cw_previous = previous_month_bounds today,
       cw_period = period_covering tenant today db\<rparr>)"

section \<open>The periods stay apart\<close>

definition periods_ok :: "uuid \<Rightarrow> financial_period list \<Rightarrow> bool" where
  "periods_ok n ps \<longleftrightarrow> table_ok fp_id n (\<lambda>p. fp_start p \<le> fp_end p \<and> fp_status p \<in> {''open'', ''closed''}
        \<and> (fp_status p = ''closed'' \<longleftrightarrow> fp_closed_at p \<noteq> None)) ps
     \<and> (\<forall>p \<in> set ps. \<forall>q \<in> set ps. fp_tenant p = fp_tenant q \<longrightarrow> fp_start p \<le> fp_end q \<longrightarrow> fp_start q \<le> fp_end p \<longrightarrow> p = q)"

inductive period_step :: "'a core_db_scheme \<Rightarrow> 'a core_db_scheme \<Rightarrow> bool" where
  period_opened: "FinancialPeriodInput from until label = Inr cmd \<Longrightarrow> open_period t cmd db = Inr (p, db') \<Longrightarrow> period_step db db'"
| period_closed: "close_period e t i a db = Inr (p, db') \<Longrightarrow> period_step db db'"
| period_reopened: "reopen_period t i db = Inr (p, db') \<Longrightarrow> period_step db db'"
| period_elsewhere: "periods db' = periods db \<Longrightarrow> next_id db \<le> next_id db' \<Longrightarrow> period_step db db'"

lemma open_period_ok:
  assumes "open_period t cmd db = Inr (p, db')" and "periods_ok (next_id db) (periods db)"
  shows "periods_ok (next_id db') (periods db')"
proof -
  have p: "fp_id p = next_id db" "fp_tenant p = t" "fp_start p = fi_start cmd" "fp_end p = fi_end cmd" "fp_status p = ''open''"
      "fp_closed_at p = None" "fi_start cmd \<le> fi_end cmd"
    and apart: "\<not> list_ex (\<lambda>p. fp_tenant p = t \<and> fp_start p \<le> fi_end cmd \<and> fi_start cmd \<le> fp_end p) (periods db)"
    and d: "periods db' = periods db @ [p]" "next_id db' = Suc (next_id db)"
    using assms(1) by (auto simp: open_period_def new_id_eq Let_def split: if_splits)
  have "table_ok fp_id (next_id db') (\<lambda>p. fp_start p \<le> fp_end p \<and> fp_status p \<in> {''open'', ''closed''}
        \<and> (fp_status p = ''closed'' \<longleftrightarrow> fp_closed_at p \<noteq> None)) (periods db @ [p])"
    using assms(2) p unfolding periods_ok_def d(2) by (intro table_ok_append) auto
  moreover have "\<not> (fp_tenant q = t \<and> fp_start q \<le> fp_end p \<and> fp_start p \<le> fp_end q)" if "q \<in> set (periods db)" for q
    using apart that p unfolding list_ex_iff by auto
  ultimately show ?thesis using assms(2) p(2) unfolding periods_ok_def d(1) by auto
qed

lemma put_period_ok:
  assumes "periods_ok n (periods db)" and "p \<in> set (periods db)" and "p' = p\<lparr>fp_status := s, fp_closed_at := c, fp_closed_by := a\<rparr>"
    and "s \<in> {''open'', ''closed''}" and "s = ''closed'' \<longleftrightarrow> c \<noteq> None"
  shows "periods_ok n (periods (put_period p' db))"
proof -
  have u: "unique_keys fp_id (periods db)" using assms(1) table_okD(1) unfolding periods_ok_def by blast
  have ps: "periods (put_period p' db) = row_update fp_id (fp_id p) (\<lambda>_. p') (periods db)" by (simp add: put_period_def assms(3))
  have in_ps: "x = p' \<or> x \<in> set (periods db) \<and> fp_id x \<noteq> fp_id p" if "x \<in> set (periods (put_period p' db))" for x
    using that unfolding ps in_row_put [OF assms(2)] by auto
  have "table_ok fp_id n (\<lambda>p. fp_start p \<le> fp_end p \<and> fp_status p \<in> {''open'', ''closed''}
        \<and> (fp_status p = ''closed'' \<longleftrightarrow> fp_closed_at p \<noteq> None)) (periods (put_period p' db))"
    unfolding ps using assms table_okD(3) [of fp_id n _ "periods db" p]
    by (intro table_ok_put) (auto simp: periods_ok_def table_ok_def)
  moreover have "x = y" if x: "x \<in> set (periods (put_period p' db))" and y: "y \<in> set (periods (put_period p' db))"
      and meet: "fp_tenant x = fp_tenant y" "fp_start x \<le> fp_end y" "fp_start y \<le> fp_end x" for x y
  proof -
    have ov: "a = b" if "a \<in> set (periods db)" "b \<in> set (periods db)" "fp_tenant a = fp_tenant b" "fp_start a \<le> fp_end b"
        "fp_start b \<le> fp_end a" for a b
      using assms(1) that unfolding periods_ok_def by blast
    consider "x = p'" "y = p'" | "x = p'" "y \<in> set (periods db)" "fp_id y \<noteq> fp_id p"
      | "y = p'" "x \<in> set (periods db)" "fp_id x \<noteq> fp_id p" | "x \<in> set (periods db)" "y \<in> set (periods db)"
      using in_ps [OF x] in_ps [OF y] by blast
    then show ?thesis
      by cases (use ov [OF assms(2), of y] ov [of x p] ov [of x y] meet assms(2,3) in auto)
  qed
  ultimately show ?thesis unfolding periods_ok_def by blast
qed

lemma period_step_ok: "period_step db db' \<Longrightarrow> periods_ok (next_id db) (periods db) \<Longrightarrow> periods_ok (next_id db') (periods db')"
proof (induction rule: period_step.induct)
  case (period_opened fr un label cmd t db p db')
  then show ?case using open_period_ok by blast
next
  case (period_closed e t i a db p db')
  then obtain q where "q \<in> set (periods db)" "p = q\<lparr>fp_status := ''closed'', fp_closed_at := Some (now e), fp_closed_by := a\<rparr>"
      "db' = put_period p db"
    by (auto simp: close_period_def get_period_def andthen_eq_Inr need_eq_Inr Let_def dest: find_SomeD split: if_splits)
  then show ?case using put_period_ok [OF period_closed(2)] by (simp add: put_period_def)
next
  case (period_reopened t i db p db')
  then obtain q where "q \<in> set (periods db)" "p = q\<lparr>fp_status := ''open'', fp_closed_at := None, fp_closed_by := None\<rparr>"
      "db' = put_period p db"
    by (auto simp: reopen_period_def get_period_def andthen_eq_Inr need_eq_Inr Let_def dest: find_SomeD split: if_splits)
  then show ?case using put_period_ok [OF period_reopened(2)] by (simp add: put_period_def)
next
  case (period_elsewhere db' db)
  have "table_ok fp_id (next_id db') P (periods db)" if "table_ok fp_id (next_id db) P (periods db)" for P
    by (rule table_ok_mono [OF that period_elsewhere(2)])
  then show ?case using period_elsewhere(3) unfolding periods_ok_def period_elsewhere(1) by blast
qed

text \<open>
  C38: The periods of an organisation partition its closed days. In every state reachable from one without
  periods, two periods of an organisation never share a day, and the guard before a financial write
  refuses a day exactly when the one period that covers it is closed: what is closed stays closed to
  writes whatever other periods are opened, closed or reopened.
\<close>

theorem period_guard_exact:
  fixes db0 db :: "'a core_db_scheme"
  assumes "periods db0 = []" and "period_step\<^sup>*\<^sup>* db0 db"
  shows "(\<forall>p \<in> set (periods db). \<forall>q \<in> set (periods db). \<forall>d. fp_tenant p = fp_tenant q \<longrightarrow> fp_start p \<le> d \<and> d \<le> fp_end p
            \<longrightarrow> fp_start q \<le> d \<and> d \<le> fp_end q \<longrightarrow> p = q)
       \<and> (assert_period_open db t day = Inr () \<longleftrightarrow>
            \<not> (\<exists>p \<in> set (periods db). fp_tenant p = t \<and> fp_start p \<le> day \<and> day \<le> fp_end p \<and> fp_status p = ''closed''))"
proof -
  have "periods_ok (next_id db) (periods db)"
    using assms(2) by (induction rule: rtranclp_induct) (use assms(1) period_step_ok in \<open>auto simp: periods_ok_def\<close>)
  then have apart: "p = q" if "p \<in> set (periods db)" "q \<in> set (periods db)" "fp_tenant p = fp_tenant q"
      "fp_start p \<le> d" "d \<le> fp_end p" "fp_start q \<le> d" "d \<le> fp_end q" for p q d
    using that unfolding periods_ok_def by (meson order_trans)
  have "assert_period_open db t day = Inr () \<longleftrightarrow>
          \<not> (\<exists>p \<in> set (periods db). fp_tenant p = t \<and> fp_start p \<le> day \<and> day \<le> fp_end p \<and> fp_status p = ''closed'')"
  proof (cases "period_covering t day db")
    case None
    then have "\<not> (\<exists>p \<in> set (periods db). fp_tenant p = t \<and> fp_start p \<le> day \<and> day \<le> fp_end p \<and> fp_status p = ''closed'')"
      unfolding period_covering_def find_None_ball by blast
    then show ?thesis using None by (simp add: assert_period_open_def)
  next
    case (Some p)
    then have p: "p \<in> set (periods db)" "fp_tenant p = t" "fp_start p \<le> day" "day \<le> fp_end p"
      by (auto simp: period_covering_def dest: find_SomeD)
    have "q = p" if "q \<in> set (periods db)" "fp_tenant q = t" "fp_start q \<le> day" "day \<le> fp_end q" for q
      using apart [OF that(1) p(1) _ that(3,4) p(3,4)] that(2) p(2) by simp
    then have "(\<exists>q \<in> set (periods db). fp_tenant q = t \<and> fp_start q \<le> day \<and> day \<le> fp_end q \<and> fp_status q = ''closed'')
        \<longleftrightarrow> fp_status p = ''closed''"
      using p by blast
    then show ?thesis using Some by (simp add: assert_period_open_def)
  qed
  then show ?thesis using apart by blast
qed

end
