(* ===== verification/Scheduler.thy ===== *)
theory Scheduler
  imports BusinessCalendar SalesGuarantees
begin

text \<open>
  The daily round without a button (\<open>modules/delivery/scheduler.py\<close>): when a tenant's day is due, who claims
  it, what a run records, how a failed run is kept, the drafts of the month end, and the manual run of
  \<open>DeliveryService.generate\<close>.

  One operation of the model is one transaction. The claim is not committed before the round it claims:
  a run that fails rolls back both, and records its failure in a transaction of its own.
\<close>

section \<open>Tables\<close>

datatype run_status = Running | Success | Holiday_Run | Failed_Run

datatype run_trigger = By_Scheduler | By_Hand

record generation_run =
  gn_id :: uuid
  gn_tenant :: uuid
  gn_date :: date
  gn_status :: run_status
  gn_trigger :: run_trigger
  gn_due :: nat
  gn_created :: nat
  gn_present :: nat
  gn_not_due :: nat
  gn_inactive :: nat
  gn_holiday :: nat
  gn_attempts :: nat
  gn_error :: "error option"
  gn_started_at :: datetime
  gn_finished_at :: "datetime option"

text \<open>Of a route and its stops, the columns the scheduler is handed.\<close>

record round_route =
  rt_id :: uuid
  rt_tenant :: uuid
  rt_code :: string
  rt_active :: bool
  rt_center :: "uuid option"

record route_stop =
  rs_tenant :: uuid
  rs_route :: uuid
  rs_customer :: uuid

record round_db = calendar_db +
  generation_runs :: "generation_run list"
  routes :: "round_route list"
  route_stops :: "route_stop list"

definition MAX_ATTEMPTS :: nat where
  "MAX_ATTEMPTS = 3"

definition FINISHED_STATUSES :: "run_status list" where
  "FINISHED_STATUSES = [Success, Holiday_Run]"

section \<open>When a day is due\<close>

definition hour_us :: int where
  "hour_us = 3600000000"

definition business_date_and_hour :: "env \<Rightarrow> string \<Rightarrow> date \<times> int" where
  "business_date_and_hour e tz =
     (let local = now e + zone_offset e tz (now e)
      in (local div day_us + epoch_ordinal, (local mod day_us) div hour_us))"

definition should_run :: "env \<Rightarrow> string \<Rightarrow> int \<Rightarrow> generation_run option \<Rightarrow> date option" where
  "should_run e tz generation_hour last_run =
     (let (today, hour) = business_date_and_hour e tz in
      if hour < generation_hour then None
      else
        case last_run of
          None \<Rightarrow> Some today
        | Some r \<Rightarrow>
            if gn_date r \<noteq> today then Some today
            else if gn_status r \<in> set FINISHED_STATUSES then None
            else if gn_status r = Running then None
            else if gn_attempts r < MAX_ATTEMPTS then Some today
            else None)"

definition last_run_of :: "uuid \<Rightarrow> 'a round_db_scheme \<Rightarrow> generation_run option" where
  "last_run_of tenant db =
     (case sort_key (\<lambda>r. - gn_date r) (filter (\<lambda>r. gn_tenant r = tenant) (generation_runs db)) of
        [] \<Rightarrow> None
      | r # _ \<Rightarrow> Some r)"

definition run_for :: "uuid \<Rightarrow> date \<Rightarrow> 'a round_db_scheme \<Rightarrow> generation_run option" where
  "run_for tenant day db = find (\<lambda>r. gn_tenant r = tenant \<and> gn_date r = day) (generation_runs db)"

definition put_run :: "generation_run \<Rightarrow> 'a round_db_scheme \<Rightarrow> 'a round_db_scheme" where
  "put_run r db = db\<lparr>generation_runs := row_update gn_id (gn_id r) (\<lambda>_. r) (generation_runs db)\<rparr>"

section \<open>Claiming a day\<close>

definition fresh_run :: "env \<Rightarrow> uuid \<Rightarrow> uuid \<Rightarrow> date \<Rightarrow> run_trigger \<Rightarrow> generation_run" where
  "fresh_run e i tenant day trigger =
     \<lparr>gn_id = i, gn_tenant = tenant, gn_date = day, gn_status = Running, gn_trigger = trigger, gn_due = 0,
      gn_created = 0, gn_present = 0, gn_not_due = 0, gn_inactive = 0, gn_holiday = 0, gn_attempts = 1,
      gn_error = None, gn_started_at = now e, gn_finished_at = None\<rparr>"

fun claimable :: "run_trigger \<Rightarrow> run_status list" where
  "claimable By_Scheduler = [Failed_Run]"
| "claimable By_Hand = [Failed_Run, Success, Running]"

text \<open>
  The insert that ignores a conflict wins exactly when the day has no row; the conditional update of an
  existing row always hits, because it tests the status just read.
\<close>

definition claim ::
  "env \<Rightarrow> uuid \<Rightarrow> date \<Rightarrow> run_trigger \<Rightarrow> 'a round_db_scheme \<Rightarrow> (generation_run \<times> 'a round_db_scheme) option" where
  "claim e tenant day trigger db =
     (case run_for tenant day db of
        None \<Rightarrow>
          let (i, db1) = new_id db; r = fresh_run e i tenant day trigger
          in Some (r, db1\<lparr>generation_runs := generation_runs db1 @ [r]\<rparr>)
      | Some r \<Rightarrow>
          if gn_status r \<notin> set (claimable trigger) then None
          else if trigger = By_Scheduler \<and> MAX_ATTEMPTS \<le> gn_attempts r then None
          else
            let r' = r\<lparr>gn_status := Running, gn_trigger := trigger, gn_attempts := gn_attempts r + 1,
                      gn_started_at := now e, gn_error := None\<rparr>
            in Some (r', put_run r' db))"

section \<open>The day's round\<close>

record round_scope =
  sc_label :: string
  sc_customers :: "uuid list"
  sc_slot :: string
  sc_center :: "uuid option"

definition scheduled_round_scopes :: "uuid \<Rightarrow> 'a round_db_scheme \<Rightarrow> round_scope list" where
  "scheduled_round_scopes tenant db =
     (let active = sort_key rt_code (filter (\<lambda>r. rt_tenant r = tenant \<and> rt_active r) (routes db));
          members = (\<lambda>r. remdups (map rs_customer (filter (\<lambda>s. rs_tenant s = tenant \<and> rs_route s = rt_id r) (route_stops db)))) in
      concat (map (\<lambda>r.
        if members r = [] then []
        else map (\<lambda>slot. \<lparr>sc_label = rt_code r @ ''/'' @ slot, sc_customers = members r, sc_slot = slot, sc_center = rt_center r\<rparr>)
               DELIVERY_SLOTS) active))"

definition nothing_done :: "date \<Rightarrow> generation_result" where
  "nothing_done day = \<lparr>gr_date = day, gr_due = 0, gr_created = 0, gr_present = 0, gr_not_due = 0, gr_inactive = 0, gr_holiday = 0\<rparr>"

definition add_results :: "generation_result \<Rightarrow> generation_result \<Rightarrow> generation_result" where
  "add_results a b =
     \<lparr>gr_date = gr_date a, gr_due = gr_due a + gr_due b, gr_created = gr_created a + gr_created b,
      gr_present = gr_present a + gr_present b, gr_not_due = gr_not_due a + gr_not_due b,
      gr_inactive = gr_inactive a + gr_inactive b, gr_holiday = gr_holiday a + gr_holiday b\<rparr>"

fun generate_scopes ::
  "uuid \<Rightarrow> date \<Rightarrow> (uuid option \<Rightarrow> bool) option \<Rightarrow> round_scope list \<Rightarrow> generation_result \<Rightarrow> 'a sales_db_scheme
     \<Rightarrow> (generation_result \<times> 'a sales_db_scheme) result" where
  "generate_scopes tenant day works [] totals db = Inr (totals, db)"
| "generate_scopes tenant day works (s # ss) totals db =
     andthen (generate_for_day tenant day None works (Some (sc_customers s)) (Some (sc_slot s)) db) (\<lambda>(r, db1).
     generate_scopes tenant day works ss (add_results totals r) db1)"

text \<open>
  \<open>fault\<close> is what the world outside makes the generator raise, such as a lost database connection; a
  route's label is added to the text of an error only.
\<close>

definition generate_the_day ::
  "uuid \<Rightarrow> date \<Rightarrow> (uuid option \<Rightarrow> bool) option \<Rightarrow> round_scope list \<Rightarrow> error option \<Rightarrow> 'a sales_db_scheme
     \<Rightarrow> (generation_result \<times> 'a sales_db_scheme) result" where
  "generate_the_day tenant day works scopes fault db =
     (case fault of
        Some err \<Rightarrow> Inl err
      | None \<Rightarrow>
          if scopes = [] then generate_for_day tenant day None works None None db
          else generate_scopes tenant day works scopes (nothing_done day) db)"

section \<open>What a run records\<close>

definition settled_status :: "generation_result \<Rightarrow> run_status" where
  "settled_status r = (if 0 < gr_holiday r \<and> gr_created r = 0 \<and> gr_due r = 0 then Holiday_Run else Success)"

definition finished_run :: "env \<Rightarrow> generation_result \<Rightarrow> generation_run \<Rightarrow> generation_run" where
  "finished_run e res r =
     r\<lparr>gn_status := settled_status res, gn_holiday := gr_holiday res, gn_due := gr_due res,
       gn_created := gn_created r + gr_created res, gn_present := gr_present res, gn_not_due := gr_not_due res,
       gn_inactive := gr_inactive res, gn_finished_at := Some (now e)\<rparr>"

definition failed_run :: "env \<Rightarrow> error \<Rightarrow> generation_run \<Rightarrow> generation_run" where
  "failed_run e err r = r\<lparr>gn_status := Failed_Run, gn_error := Some err, gn_finished_at := Some (now e)\<rparr>"

text \<open>What the loser of a claim is told: what the day's record says, and that it created nothing.\<close>

definition already_claimed :: "date \<Rightarrow> generation_run option \<Rightarrow> generation_result" where
  "already_claimed day existing =
     (case existing of
        None \<Rightarrow> nothing_done day
      | Some r \<Rightarrow> (nothing_done day)\<lparr>gr_due := gn_due r, gr_present := gn_due r, gr_not_due := gn_not_due r,
                     gr_inactive := gn_inactive r\<rparr>)"

definition record_failure ::
  "env \<Rightarrow> uuid \<Rightarrow> date \<Rightarrow> run_trigger \<Rightarrow> error \<Rightarrow> 'a round_db_scheme \<Rightarrow> generation_run \<times> 'a round_db_scheme" where
  "record_failure e tenant day trigger err db =
     (case run_for tenant day db of
        None \<Rightarrow>
          let (i, db1) = new_id db; r = failed_run e err (fresh_run e i tenant day trigger)
          in (r, db1\<lparr>generation_runs := generation_runs db1 @ [r]\<rparr>)
      | Some r \<Rightarrow> let r' = failed_run e err r in (r', put_run r' db))"

definition record_run ::
  "env \<Rightarrow> uuid \<Rightarrow> date \<Rightarrow> run_trigger \<Rightarrow> (uuid option \<Rightarrow> bool) option \<Rightarrow> round_scope list \<Rightarrow> error option
     \<Rightarrow> 'a round_db_scheme \<Rightarrow> (generation_run option \<times> generation_result) \<times> 'a round_db_scheme" where
  "record_run e tenant day trigger works scopes fault db =
     (case claim e tenant day trigger db of
        None \<Rightarrow> ((run_for tenant day db, already_claimed day (run_for tenant day db)), db)
      | Some (r, db1) \<Rightarrow>
          (case generate_the_day tenant day works scopes fault db1 of
             Inl err \<Rightarrow>
               let (f, db2) = record_failure e tenant day trigger err db in ((Some f, nothing_done day), db2)
           | Inr (res, db2) \<Rightarrow>
               let r' = finished_run e res r in ((Some r', res), put_run r' db2)))"

section \<open>The manual run and the scheduler's pass\<close>

definition generate_by_hand ::
  "env \<Rightarrow> date option \<Rightarrow> uuid \<Rightarrow> error option \<Rightarrow> 'a round_db_scheme \<Rightarrow> (generation_result \<times> 'a round_db_scheme) result" where
  "generate_by_hand e for_date actor fault db =
     andthen (require_current_tenant e) (\<lambda>tenant.
     let day = (case for_date of Some d \<Rightarrow> d | None \<Rightarrow> business_today e (tenant_timezone e db None));
         ((run, res), db1) = record_run e tenant day By_Hand None [] fault db in
     Inr (res, audit_of e ''sales.delivery.generated'' ''milk_delivery'' JNull (Some actor)
       [(''date'', JDate (gr_date res)), (''due'', JInt (int (gr_due res))), (''created'', JInt (int (gr_created res))),
        (''already_present'', JInt (int (gr_present res))), (''not_due'', JInt (int (gr_not_due res))),
        (''inactive_customers'', JInt (int (gr_inactive res)))] db1))"

record scheduled_tenant =
  tn_id :: uuid
  tn_timezone :: string

text \<open>The binding of a session to one tenant.\<close>

definition bind_tenant :: "uuid \<Rightarrow> env \<Rightarrow> env" where
  "bind_tenant tenant e = e\<lparr>current_tenant := Some tenant, customer_scope := None\<rparr>"

definition run_for_tenant ::
  "env \<Rightarrow> scheduled_tenant \<Rightarrow> int \<Rightarrow> date option \<Rightarrow> error option \<Rightarrow> 'a round_db_scheme
     \<Rightarrow> generation_run option \<times> 'a round_db_scheme" where
  "run_for_tenant e tn generation_hour force_date fault db =
     (let t = tn_id tn in
      case (case force_date of Some d \<Rightarrow> Some d | None \<Rightarrow> should_run e (tn_timezone tn) generation_hour (last_run_of t db)) of
        None \<Rightarrow> (None, db)
      | Some day \<Rightarrow>
          let ((run, res), db1) = record_run (bind_tenant t e) t day By_Scheduler (Some (is_working t day db))
                                    (scheduled_round_scopes t db) fault db
          in (run, db1))"

definition draft_month_end_for_tenant ::
  "env \<Rightarrow> scheduled_tenant \<Rightarrow> int \<Rightarrow> 'a round_db_scheme \<Rightarrow> 'a round_db_scheme result" where
  "draft_month_end_for_tenant e tn generation_hour db =
     (let (today, hour) = business_date_and_hour e (tn_timezone tn) in
      if first_of_month today \<noteq> today \<or> hour < generation_hour then Inr db
      else andthen (draft_month_end (bind_tenant (tn_id tn) e) (tn_id tn) (tn_timezone tn) None None db) (\<lambda>(r, db1). Inr db1))"

text \<open>One pass over the active tenants; what one of them raises does not stop the others.\<close>

fun run_once ::
  "env \<Rightarrow> int \<Rightarrow> (uuid \<Rightarrow> error option) \<Rightarrow> scheduled_tenant list \<Rightarrow> 'a round_db_scheme
     \<Rightarrow> generation_run list \<times> 'a round_db_scheme" where
  "run_once e generation_hour faults [] db = ([], db)"
| "run_once e generation_hour faults (tn # tns) db =
     (let (run, db1) = run_for_tenant e tn generation_hour None (faults (tn_id tn)) db;
          db2 = (case draft_month_end_for_tenant e tn generation_hour db1 of Inl err \<Rightarrow> db1 | Inr d \<Rightarrow> d);
          (runs, db3) = run_once e generation_hour faults tns db2
      in ((case run of None \<Rightarrow> [] | Some r \<Rightarrow> [r]) @ runs, db3))"

end
