(* ===== verification/SchedulerGuarantees.thy ===== *)
theory SchedulerGuarantees
  imports Scheduler
begin

text \<open>
  What the scheduler and its run records guarantee: one record for an organisation and day, deliveries that
  are counted once, and rounds that are steps of the selling side. Two of its promises do not hold, and the
  last section proves it: failed attempts are not counted, and a recorded holiday stops the manual run too.
\<close>

section \<open>The record of a day\<close>

definition run_ok :: "generation_run \<Rightarrow> bool" where
  "run_ok r \<longleftrightarrow> gn_status r \<noteq> Running \<and> 1 \<le> gn_attempts r"

definition run_key :: "generation_run \<Rightarrow> uuid \<times> date" where
  "run_key r = (gn_tenant r, gn_date r)"

definition runs_ok :: "uuid \<Rightarrow> generation_run list \<Rightarrow> bool" where
  "runs_ok n rs \<longleftrightarrow> table_ok gn_id n run_ok rs \<and> unique_keys run_key rs"

text \<open>A day's record takes the place of the one it had, or is added at the end.\<close>

definition filed_run :: "generation_run \<Rightarrow> generation_run list \<Rightarrow> generation_run list" where
  "filed_run r rs =
     (case find (\<lambda>q. gn_tenant q = gn_tenant r \<and> gn_date q = gn_date r) rs of
        None \<Rightarrow> rs @ [r]
      | Some q \<Rightarrow> row_update gn_id (gn_id q) (\<lambda>_. r) rs)"

text \<open>The record a claim starts from.\<close>

definition base_run :: "env \<Rightarrow> uuid \<Rightarrow> date \<Rightarrow> run_trigger \<Rightarrow> 'a round_db_scheme \<Rightarrow> generation_run" where
  "base_run e t day tr db =
     (case run_for t day db of None \<Rightarrow> (fresh_run e (next_id db) t day tr)\<lparr>gn_attempts := 0\<rparr> | Some q \<Rightarrow> q)"

definition same_day_run :: "generation_run \<Rightarrow> generation_run \<Rightarrow> bool" where
  "same_day_run r q \<longleftrightarrow> gn_id r = gn_id q \<and> gn_tenant r = gn_tenant q \<and> gn_date r = gn_date q"

lemma run_for_key: "run_for t day db = Some q \<Longrightarrow> q \<in> set (generation_runs db) \<and> gn_tenant q = t \<and> gn_date q = day"
  by (auto simp: run_for_def dest: find_SomeD)

lemma base_run_key [simp]: "gn_tenant (base_run e t day tr db) = t" "gn_date (base_run e t day tr db) = day"
  by (auto simp: base_run_def fresh_run_def dest: run_for_key split: option.splits)

lemma filed_run_ok:
  assumes "runs_ok n rs" and "n < n'" and "run_ok r"
    and "gn_id r = (case find (\<lambda>q. gn_tenant q = gn_tenant r \<and> gn_date q = gn_date r) rs of None \<Rightarrow> n | Some q \<Rightarrow> gn_id q)"
  shows "runs_ok n' (filed_run r rs)"
proof (cases "find (\<lambda>q. gn_tenant q = gn_tenant r \<and> gn_date q = gn_date r) rs")
  case None
  then have "run_key r \<notin> run_key ` set rs" by (auto simp: find_None_ball run_key_def)
  then show ?thesis
    using assms None table_ok_append [of gn_id n run_ok rs r n'] unique_keys_append_fresh [of run_key rs r]
    by (simp add: runs_ok_def filed_run_def)
next
  case (Some q)
  then have q: "q \<in> set rs" "run_key r = run_key q" "gn_id r = gn_id q"
    using assms(4) by (auto simp: run_key_def dest: find_SomeD)
  have "table_ok gn_id n run_ok (row_update gn_id (gn_id q) (\<lambda>_. r) rs)"
    using assms(1,3) q by (intro table_ok_put) (auto simp: runs_ok_def)
  then have "table_ok gn_id n' run_ok (row_update gn_id (gn_id q) (\<lambda>_. r) rs)"
    using assms(2) by (auto intro: table_ok_mono [of gn_id n run_ok _ n'])
  moreover have "unique_keys run_key (row_update gn_id (gn_id q) (\<lambda>_. r) rs)"
    using assms(1) q unique_keys_row_put [of gn_id rs q run_key r] by (simp add: runs_ok_def table_ok_def)
  ultimately show ?thesis using Some by (simp add: runs_ok_def filed_run_def)
qed

lemma in_filed_run: "r \<in> set (filed_run r rs)"
proof (cases "find (\<lambda>q. gn_tenant q = gn_tenant r \<and> gn_date q = gn_date r) rs")
  case (Some q)
  then have "q \<in> set rs" by (auto dest: find_SomeD)
  then show ?thesis using Some by (auto simp: filed_run_def in_row_update)
qed (simp add: filed_run_def)

lemma find_by_key:
  assumes "unique_keys run_key rs" and "r \<in> set rs"
  shows "find (\<lambda>q. gn_tenant q = gn_tenant r \<and> gn_date q = gn_date r) rs = Some r"
proof -
  obtain q where q: "find (\<lambda>q. gn_tenant q = gn_tenant r \<and> gn_date q = gn_date r) rs = Some q"
    using find_exists [OF assms(2), of "\<lambda>q. gn_tenant q = gn_tenant r \<and> gn_date q = gn_date r"] by blast
  then have "q \<in> set rs" "run_key q = run_key r" by (auto simp: run_key_def dest: find_SomeD)
  then show ?thesis using unique_keysD [OF assms(1) _ assms(2)] q by simp
qed

section \<open>What a round touches\<close>

definition round_frame :: "'a round_db_scheme \<Rightarrow> 'a round_db_scheme \<Rightarrow> bool" where
  "round_frame db db' \<longleftrightarrow> generation_runs db' = generation_runs db \<and> next_id db \<le> next_id db'"

lemma round_frame_refl [simp]: "round_frame db db"
  by (simp add: round_frame_def)

lemma round_frame_trans: "round_frame a b \<Longrightarrow> round_frame b c \<Longrightarrow> round_frame a c"
  by (simp add: round_frame_def)

lemma generate_for_day_round:
  assumes "generate_for_day t day a w cs s db = Inr (r, db')"
  shows "round_frame db db'"
proof -
  note f = insert_frame [OF generate_for_day_Inr [OF assms]]
  have "generation_runs db' = generation_runs db" by (subst conjunct1 [OF f]) simp
  then show ?thesis using f by (simp add: round_frame_def)
qed

lemma insert_counts:
  "insert_ignoring_conflicts t day a rows db = Inr (n, db') \<Longrightarrow> length (deliveries db') = length (deliveries db) + n"
proof (induction rows arbitrary: n db)
  case (Cons pq rows)
  obtain p q where pq: "pq = (p, q)" by fastforce
  show ?case using Cons.prems Cons.IH unfolding pq by (fastforce simp: Let_def new_id_eq andthen_eq_Inr split: if_splits prod.splits)
qed simp

lemma generate_scopes_facts:
  "generate_scopes t day w ss tot db = Inr (res, db')
     \<Longrightarrow> round_frame db db' \<and> sales_step\<^sup>*\<^sup>* db db' \<and> length (deliveries db') + gr_created tot = length (deliveries db) + gr_created res"
proof (induction ss arbitrary: tot db)
  case (Cons s ss)
  obtain r db1 where g: "generate_for_day t day None w (Some (sc_customers s)) (Some (sc_slot s)) db = Inr (r, db1)"
      and rest: "generate_scopes t day w ss (add_results tot r) db1 = Inr (res, db')"
    using Cons.prems by (auto simp: andthen_eq_Inr)
  have "sales_step\<^sup>*\<^sup>* db db'" using converse_rtranclp_into_rtranclp [of sales_step, OF day_generated [OF g]] Cons.IH [OF rest] by blast
  then show ?case
    using Cons.IH [OF rest] round_frame_trans [OF generate_for_day_round [OF g]] insert_counts [OF generate_for_day_Inr [OF g]]
    by (simp add: add_results_def)
qed simp

lemma generate_the_day_facts:
  assumes "generate_the_day t day w ss fault db = Inr (res, db')"
  shows "round_frame db db'" "sales_step\<^sup>*\<^sup>* db db'" "length (deliveries db') = length (deliveries db) + gr_created res"
proof -
  have "round_frame db db' \<and> sales_step\<^sup>*\<^sup>* db db' \<and> length (deliveries db') = length (deliveries db) + gr_created res"
  proof (cases "ss = []")
    case True
    then have g: "generate_for_day t day None w None None db = Inr (res, db')"
      using assms by (simp add: generate_the_day_def split: option.splits)
    then show ?thesis
      using generate_for_day_round [OF g] r_into_rtranclp [of sales_step, OF day_generated [OF g]] insert_counts [OF generate_for_day_Inr [OF g]] by blast
  next
    case False
    then have "generate_scopes t day w ss (nothing_done day) db = Inr (res, db')"
      using assms by (simp add: generate_the_day_def split: option.splits)
    then show ?thesis using generate_scopes_facts by (fastforce simp: nothing_done_def)
  qed
  then show "round_frame db db'" "sales_step\<^sup>*\<^sup>* db db'" "length (deliveries db') = length (deliveries db) + gr_created res"
    by blast+
qed

section \<open>What becomes of a claim\<close>

lemma claim_Some:
  assumes "claim e t day tr db = Some (r, db1)"
  shows "same_day_run r (base_run e t day tr db)" and "gn_attempts r = Suc (gn_attempts (base_run e t day tr db))"
    and "gn_created r = gn_created (base_run e t day tr db)"
    and "generation_runs db1 = filed_run r (generation_runs db)" and "next_id db \<le> next_id db1"
    and "run_for t day db = None \<Longrightarrow> next_id db1 = Suc (next_id db)" and "sales_step db db1" and "deliveries db1 = deliveries db"
proof -
  have f: "same_day_run r (base_run e t day tr db) \<and> gn_attempts r = Suc (gn_attempts (base_run e t day tr db))
      \<and> gn_created r = gn_created (base_run e t day tr db) \<and> generation_runs db1 = filed_run r (generation_runs db)
      \<and> next_id db \<le> next_id db1 \<and> (run_for t day db = None \<longrightarrow> next_id db1 = Suc (next_id db))
      \<and> desk_frame db db1 \<and> products db1 = products db \<and> customers db1 = customers db \<and> plans db1 = plans db"
  proof (cases "run_for t day db")
    case None
    then show ?thesis
      using assms
      by (auto simp: claim_def base_run_def new_id_eq fresh_run_def same_day_run_def filed_run_def desk_frame_def run_for_def Let_def)
  next
    case (Some q)
    then show ?thesis
      using assms run_for_key [OF Some]
      by (auto simp: claim_def base_run_def same_day_run_def filed_run_def desk_frame_def run_for_def put_run_def Let_def
          split: if_splits)
  qed
  show "same_day_run r (base_run e t day tr db)" "gn_attempts r = Suc (gn_attempts (base_run e t day tr db))"
    "gn_created r = gn_created (base_run e t day tr db)" "generation_runs db1 = filed_run r (generation_runs db)"
    "next_id db \<le> next_id db1" "run_for t day db = None \<Longrightarrow> next_id db1 = Suc (next_id db)" "deliveries db1 = deliveries db"
    using f by (auto simp: desk_frame_def)
  show "sales_step db db1" using f by (intro sales_elsewhere) auto
qed

lemma refile_run:
  assumes "same_day_run r q" and "\<And>x. x \<in> set rs \<Longrightarrow> gn_tenant x = gn_tenant r \<Longrightarrow> gn_date x = gn_date r \<Longrightarrow> gn_id x = gn_id r"
    and "find (\<lambda>x. gn_tenant x = gn_tenant r \<and> gn_date x = gn_date r) rs = None \<Longrightarrow> \<forall>x \<in> set rs. gn_id x \<noteq> gn_id r"
  shows "row_update gn_id (gn_id q) (\<lambda>_. r) (filed_run q rs) = filed_run r rs"
proof -
  have k: "gn_id q = gn_id r" "gn_tenant q = gn_tenant r" "gn_date q = gn_date r" using assms(1) by (simp_all add: same_day_run_def)
  show ?thesis
  proof (cases "find (\<lambda>x. gn_tenant x = gn_tenant r \<and> gn_date x = gn_date r) rs")
    case None
    then have "row_update gn_id (gn_id r) (\<lambda>_. r) rs = rs" using assms(3) by (intro row_update_other) auto
    then show ?thesis using None by (simp add: filed_run_def k)
  next
    case (Some x)
    then have "gn_id x = gn_id r" using assms(2) by (auto dest: find_SomeD)
    then show ?thesis using Some by (simp add: filed_run_def k row_update_def)
  qed
qed

text \<open>The three ends of a run: the claim is lost, the round fails, or it is settled.\<close>

definition run_lost :: "env \<Rightarrow> uuid \<Rightarrow> date \<Rightarrow> run_trigger \<Rightarrow> 'a round_db_scheme \<Rightarrow> 'a round_db_scheme \<Rightarrow> bool" where
  "run_lost e t day tr db db' \<longleftrightarrow> claim e t day tr db = None \<and> db' = db"

definition run_failed ::
  "env \<Rightarrow> uuid \<Rightarrow> date \<Rightarrow> run_trigger \<Rightarrow> generation_run \<Rightarrow> 'a round_db_scheme \<Rightarrow> 'a round_db_scheme \<Rightarrow> bool" where
  "run_failed e t day tr r db db' \<longleftrightarrow> claim e t day tr db \<noteq> None \<and> same_day_run r (base_run e t day tr db)
     \<and> generation_runs db' = filed_run r (generation_runs db) \<and> gn_status r = Failed_Run
     \<and> gn_attempts r = max 1 (gn_attempts (base_run e t day tr db)) \<and> desk_frame db db' \<and> products db' = products db
     \<and> customers db' = customers db \<and> plans db' = plans db"

definition run_settled ::
  "env \<Rightarrow> uuid \<Rightarrow> date \<Rightarrow> run_trigger \<Rightarrow> generation_run \<Rightarrow> generation_result \<Rightarrow> 'a round_db_scheme \<Rightarrow> 'a round_db_scheme \<Rightarrow> bool" where
  "run_settled e t day tr r res db db' \<longleftrightarrow> claim e t day tr db \<noteq> None \<and> same_day_run r (base_run e t day tr db)
     \<and> generation_runs db' = filed_run r (generation_runs db) \<and> gn_status r \<in> set FINISHED_STATUSES
     \<and> gn_attempts r = Suc (gn_attempts (base_run e t day tr db))
     \<and> gn_created r = gn_created (base_run e t day tr db) + gr_created res
     \<and> length (deliveries db') = length (deliveries db) + gr_created res \<and> sales_step\<^sup>*\<^sup>* db db' \<and> next_id db \<le> next_id db'"

lemma base_runD:
  assumes "runs_ok (next_id db) (generation_runs db)" and "x \<in> set (generation_runs db)"
  shows "gn_tenant x = t \<Longrightarrow> gn_date x = day \<Longrightarrow> gn_id x = gn_id (base_run e t day tr db)"
    and "run_for t day db = None \<Longrightarrow> gn_id x \<noteq> gn_id (base_run e t day tr db)"
proof -
  have "unique_keys run_key (generation_runs db)" "table_ok gn_id (next_id db) run_ok (generation_runs db)"
    using assms(1) by (simp_all add: runs_ok_def)
  then show "gn_tenant x = t \<Longrightarrow> gn_date x = day \<Longrightarrow> gn_id x = gn_id (base_run e t day tr db)"
      "run_for t day db = None \<Longrightarrow> gn_id x \<noteq> gn_id (base_run e t day tr db)"
    using find_by_key [OF _ assms(2)] assms(2) by (auto simp: base_run_def run_for_def fresh_run_def table_ok_def)
qed

lemma record_failure_facts:
  assumes "record_failure e t day tr err db = (f, db2)"
  shows "same_day_run f (base_run e t day tr db)" and "generation_runs db2 = filed_run f (generation_runs db)"
    and "gn_status f = Failed_Run" and "(\<And>q. run_for t day db = Some q \<Longrightarrow> 1 \<le> gn_attempts q) \<Longrightarrow> gn_attempts f = max 1 (gn_attempts (base_run e t day tr db))"
    and "desk_frame db db2" "products db2 = products db" "customers db2 = customers db" "plans db2 = plans db"
    and "run_for t day db = None \<Longrightarrow> next_id db < next_id db2"
proof -
  have "\<exists>n. db2 = db\<lparr>next_id := n, generation_runs := filed_run f (generation_runs db)\<rparr> \<and> next_id db \<le> n
      \<and> (run_for t day db = None \<longrightarrow> next_id db < n)
      \<and> f = failed_run e err (case run_for t day db of None \<Rightarrow> fresh_run e (next_id db) t day tr | Some q \<Rightarrow> q)"
  proof (cases "run_for t day db")
    case None
    then show ?thesis using assms
      by (intro exI [of _ "Suc (next_id db)"])
        (auto simp: record_failure_def Let_def new_id_eq filed_run_def run_for_def failed_run_def fresh_run_def)
  next
    case (Some q)
    then show ?thesis using assms run_for_key [OF Some]
      by (intro exI [of _ "next_id db"]) (auto simp: record_failure_def Let_def filed_run_def run_for_def failed_run_def put_run_def)
  qed
  then obtain n where ex: "db2 = db\<lparr>next_id := n, generation_runs := filed_run f (generation_runs db)\<rparr> \<and> next_id db \<le> n
      \<and> (run_for t day db = None \<longrightarrow> next_id db < n)
      \<and> f = failed_run e err (case run_for t day db of None \<Rightarrow> fresh_run e (next_id db) t day tr | Some q \<Rightarrow> q)" ..
  note d = conjunct1 [OF ex] conjunct1 [OF conjunct2 [OF ex]] conjunct1 [OF conjunct2 [OF conjunct2 [OF ex]]]
  note eq = conjunct2 [OF conjunct2 [OF conjunct2 [OF ex]]]
  show "generation_runs db2 = filed_run f (generation_runs db)" "desk_frame db db2" "products db2 = products db"
      "customers db2 = customers db" "plans db2 = plans db" "run_for t day db = None \<Longrightarrow> next_id db < next_id db2"
    using d by (simp_all add: desk_frame_def)
  show "same_day_run f (base_run e t day tr db)" "gn_status f = Failed_Run"
    using eq by (auto simp: base_run_def failed_run_def fresh_run_def same_day_run_def split: option.splits)
  show "gn_attempts f = max 1 (gn_attempts (base_run e t day tr db))" if "\<And>q. run_for t day db = Some q \<Longrightarrow> 1 \<le> gn_attempts q"
    using eq that by (auto simp: base_run_def failed_run_def fresh_run_def split: option.splits)
qed

lemma record_run_cases:
  assumes "record_run e t day tr w sc fault db = ((run, res), db')" and "runs_ok (next_id db) (generation_runs db)"
  obtains (lost) "run_lost e t day tr db db'" "run = run_for t day db" "gr_created res = 0"
  | (failed) r where "run = Some r" "gr_created res = 0" "run_failed e t day tr r db db'" "next_id db' \<ge> next_id db"
      "run_for t day db = None \<Longrightarrow> next_id db < next_id db'"
  | (settled) r where "run = Some r" "run_settled e t day tr r res db db'" "run_for t day db = None \<Longrightarrow> next_id db < next_id db'"
proof (cases "claim e t day tr db")
  case None
  then show thesis using assms(1) lost
    by (auto simp: record_run_def run_lost_def already_claimed_def nothing_done_def split: option.splits)
next
  case (Some rd)
  obtain r db1 where c: "claim e t day tr db = Some (r, db1)" using Some by (cases rd) simp
  note cl = claim_Some [OF c]
  let ?b = "base_run e t day tr db"
  show thesis
  proof (cases "generate_the_day t day w sc fault db1")
    case (Inl err)
    obtain f db2 where f: "record_failure e t day tr err db = (f, db2)" by fastforce
    have run: "run = Some f" "gr_created res = 0" "db' = db2" using assms(1) c Inl f by (auto simp: record_run_def nothing_done_def)
    have "1 \<le> gn_attempts q" if "run_for t day db = Some q" for q
      using assms(2) run_for_key [OF that] by (auto simp: runs_ok_def table_ok_def run_ok_def)
    then have "run_failed e t day tr f db db'"
      unfolding run(3) run_failed_def by (intro conjI record_failure_facts [OF f]) (use c in auto)
    then show thesis using run record_failure_facts(9) [OF f] by (intro failed) (auto simp: run_failed_def desk_frame_def)
  next
    case (Inr rd)
    obtain db2 where g: "generate_the_day t day w sc fault db1 = Inr (fst rd, db2)" by (metis Inr prod.collapse)
    note gf = generate_the_day_facts [OF g]
    let ?r = "finished_run e (fst rd) r"
    have run: "run = Some ?r" "res = fst rd" "db' = put_run ?r db2" using assms(1) c g by (auto simp: record_run_def Let_def)
    have same: "same_day_run ?r r" "same_day_run ?r ?b" using cl(1) by (simp_all add: finished_run_def same_day_run_def)
    have "gn_id r = gn_id ?r" using same(1) by (simp add: same_day_run_def)
    then have "generation_runs db' = row_update gn_id (gn_id r) (\<lambda>_. ?r) (filed_run r (generation_runs db))"
      using gf(1) cl(4) unfolding run(3) by (simp add: put_run_def round_frame_def)
    also have "\<dots> = filed_run ?r (generation_runs db)"
      by (rule refile_run [OF same(1)]) (use same(2) base_runD [OF assms(2), of _ t day e tr] in \<open>auto simp: same_day_run_def run_for_def\<close>)
    finally have filed: "generation_runs db' = filed_run ?r (generation_runs db)" .
    have "desk_frame db2 db' \<and> products db' = products db2 \<and> customers db' = customers db2 \<and> plans db' = plans db2"
      unfolding run(3) by (simp add: put_run_def desk_frame_def)
    then have "sales_step db2 db'" by (intro sales_elsewhere) auto
    then have steps: "sales_step\<^sup>*\<^sup>* db db'"
      using converse_rtranclp_into_rtranclp [of sales_step, OF cl(7) gf(2)] rtranclp.rtrancl_into_rtrancl [of sales_step db db2 db'] by blast
    have "run_settled e t day tr ?r res db db'"
      unfolding run_settled_def
      using c same(2) filed steps cl(2,3,5,8) gf(1,3) run(2,3)
      by (simp add: finished_run_def settled_status_def FINISHED_STATUSES_def put_run_def round_frame_def)
    then show thesis using run cl(6) gf(1) by (intro settled) (auto simp: put_run_def round_frame_def)
  qed
qed

section \<open>Every round is a run of the selling side\<close>

definition round_ok :: "'a round_db_scheme \<Rightarrow> bool" where
  "round_ok db \<longleftrightarrow> runs_ok (next_id db) (generation_runs db)"

definition round_keeps :: "'a round_db_scheme \<Rightarrow> 'a round_db_scheme \<Rightarrow> bool" where
  "round_keeps db db' \<longleftrightarrow> (round_ok db \<longrightarrow> round_ok db' \<and> sales_step\<^sup>*\<^sup>* db db')"

lemma round_keeps_refl [simp]: "round_keeps db db"
  by (simp add: round_keeps_def)

lemma round_keeps_trans: "round_keeps a b \<Longrightarrow> round_keeps b c \<Longrightarrow> round_keeps a c"
  unfolding round_keeps_def by (meson rtranclp_trans)

lemma round_frame_keeps: "round_frame db db' \<Longrightarrow> sales_step\<^sup>*\<^sup>* db db' \<Longrightarrow> round_keeps db db'"
  unfolding round_keeps_def round_ok_def round_frame_def runs_ok_def
  using table_ok_mono [of gn_id "next_id db" run_ok "generation_runs db" "next_id db'" run_ok] by auto

lemma filed_round_ok:
  assumes "round_ok db" and "same_day_run r (base_run e t day tr db)" and "run_ok r" and "next_id db \<le> n"
    and "run_for t day db = None \<Longrightarrow> next_id db < n"
  shows "runs_ok n (filed_run r (generation_runs db))"
proof -
  have k: "gn_tenant r = t" "gn_date r = day" "gn_id r = gn_id (base_run e t day tr db)" using assms(2) by (simp_all add: same_day_run_def)
  show ?thesis
  proof (cases "run_for t day db")
    case None
    then show ?thesis
      using assms k by (intro filed_run_ok [of "next_id db"]) (auto simp: round_ok_def base_run_def fresh_run_def run_for_def)
  next
    case (Some q)
    then have q: "find (\<lambda>x. gn_tenant x = gn_tenant r \<and> gn_date x = gn_date r) (generation_runs db) = Some q" "gn_id r = gn_id q"
      using k by (simp_all add: run_for_def base_run_def)
    then have "runs_ok (Suc n) (filed_run r (generation_runs db))"
      using assms(1,3,4) by (intro filed_run_ok [of "next_id db"]) (auto simp: round_ok_def)
    moreover have "filed_run r (generation_runs db) = row_update gn_id (gn_id q) (\<lambda>_. r) (generation_runs db)"
      using q(1) by (simp add: filed_run_def)
    moreover have "gn_id x < n" if "x \<in> set (generation_runs db)" for x
      using assms(1,4) that unfolding round_ok_def runs_ok_def table_ok_def by auto
    ultimately show ?thesis
      using q(2) find_SomeD [OF q(1)] by (auto simp: runs_ok_def table_ok_def in_row_update)
  qed
qed

lemma record_run_keeps:
  assumes "record_run e t day tr w sc fault db = (x, db')"
  shows "round_keeps db db'"
proof -
  obtain run res where x: "x = (run, res)" by fastforce
  have "round_ok db' \<and> sales_step\<^sup>*\<^sup>* db db'" if ok: "round_ok db"
    using assms [unfolded x] ok [unfolded round_ok_def]
  proof (cases rule: record_run_cases)
    case lost
    then show ?thesis using ok by (simp add: run_lost_def)
  next
    case (failed r)
    then have f: "same_day_run r (base_run e t day tr db)" "run_ok r" "generation_runs db' = filed_run r (generation_runs db)"
        "desk_frame db db'" "products db' = products db" "customers db' = customers db" "plans db' = plans db"
      by (simp_all add: run_failed_def run_ok_def)
    have "sales_step db db'" by (rule sales_elsewhere [OF f(4-7)])
    then show ?thesis using filed_round_ok [OF ok f(1,2)] failed(4,5) f(3) by (auto simp: round_ok_def)
  next
    case (settled r)
    then have "same_day_run r (base_run e t day tr db)" "run_ok r" "generation_runs db' = filed_run r (generation_runs db)"
        "sales_step\<^sup>*\<^sup>* db db'" "next_id db \<le> next_id db'"
      by (auto simp: run_settled_def run_ok_def FINISHED_STATUSES_def)
    then show ?thesis using filed_round_ok [OF ok, of r e t day tr "next_id db'"] settled(3) by (auto simp: round_ok_def)
  qed
  then show ?thesis by (simp add: round_keeps_def)
qed

lemma generate_by_hand_Inr:
  assumes "generate_by_hand e d a fault db = Inr (res, db')"
  obtains t day run db1 n m y where "current_tenant e = Some t" "d = None \<or> d = Some day"
    "record_run e t day By_Hand None [] fault db = ((run, res), db1)" "db' = audit_of e n m JNull (Some a) y db1"
proof -
  obtain t where t: "current_tenant e = Some t" using assms by (auto simp: generate_by_hand_def andthen_eq_Inr require_current_tenant_def need_eq_Inr)
  define day where "day = (case d of Some d \<Rightarrow> d | None \<Rightarrow> business_today e (tenant_timezone e db None))"
  obtain run res' db1 where r: "record_run e t day By_Hand None [] fault db = ((run, res'), db1)" by (metis prod.collapse)
  have "res' = res" "\<exists>n m y. db' = audit_of e n m JNull (Some a) y db1"
    using assms r by (auto simp: generate_by_hand_def require_current_tenant_def t day_def [symmetric] need_def)
  then show thesis using that [OF t _ _] r by (cases d) (auto simp: day_def)
qed

lemma generate_by_hand_keeps:
  assumes "generate_by_hand e d a fault db = Inr (res, db')"
  shows "round_keeps db db'"
  using assms
proof (cases rule: generate_by_hand_Inr)
  case (1 t day run db1 n m y)
  note r = 1(3) and db' = 1(4)
  have f: "desk_frame db1 db'" "products db' = products db1" "customers db' = customers db1" "plans db' = plans db1" "round_frame db1 db'"
    by (simp_all add: db' audit_of_def desk_frame_def round_frame_def)
  have "sales_step db1 db'" by (rule sales_elsewhere [OF f(1-4)])
  then have "round_keeps db1 db'" using f(5) by (intro round_frame_keeps) auto
  then show ?thesis using record_run_keeps [OF r] round_keeps_trans by blast
qed

lemma run_for_tenant_keeps: "run_for_tenant e tn h force fault db = (run, db') \<Longrightarrow> round_keeps db db'"
  by (auto simp: run_for_tenant_def Let_def dest!: record_run_keeps split: option.splits prod.splits)

lemma add_invoice_lines_round: "add_invoice_lines t i ss db = Inr db' \<Longrightarrow> round_frame db db'"
proof (induction ss arbitrary: db)
  case (Cons s ss)
  have st: "round_frame d (stamp x y d)" for x y and d :: "'a round_db_scheme"
    by (cases y) (simp_all add: round_frame_def)
  let ?d = "db\<lparr>next_id := Suc (next_id db), invoice_lines := invoice_lines db @ [line_of (next_id db) t i s]\<rparr>"
  have "add_invoice_lines t i ss (stamp (Some i) (source_ref s) ?d) = Inr db'"
    using Cons.prems by (simp add: new_id_eq split: if_splits)
  then have "round_frame ?d db'" using Cons.IH round_frame_trans [OF st] by blast
  then show ?case by (simp add: round_frame_def)
qed simp

lemma generate_invoice_round:
  assumes "generate_invoice e c fr un a db = Inr (v, db')"
  shows "round_frame db db'"
  using assms
proof (cases rule: generate_invoice_cases)
  case (1 t c ss db1 db3 num n k w i x)
  have "generation_runs db1 = generation_runs db" "next_id db1 = next_id db"
    using 1(7) by (auto simp: next_document_number_def Let_def split: prod.splits)
  moreover have "round_frame (db1\<lparr>next_id := Suc (next_id db)\<rparr>) db3" by (rule add_invoice_lines_round [OF 1(8)])
  ultimately show ?thesis unfolding 1(10) by (simp add: round_frame_def audit_def audit_of_def)
qed

lemma draft_each_round: "draft_each e fr un a cs db = Inr (vs, errs, db') \<Longrightarrow> round_frame db db'"
proof (induction cs arbitrary: db vs errs)
  case (Cons c cs)
  obtain db1 vs' errs' where db1: "db1 = db \<or> (\<exists>v. generate_invoice e c fr un a db = Inr (v, db1))"
      and rest: "draft_each e fr un a cs db1 = Inr (vs', errs', db')"
    using Cons.prems by (fastforce simp: andthen_eq_Inr split: if_splits sum.splits)
  have "round_frame db db1" using db1 generate_invoice_round by auto
  then show ?case using Cons.IH [OF rest] round_frame_trans by blast
qed simp

lemma draft_month_end_for_tenant_keeps:
  assumes "draft_month_end_for_tenant e tn h db = Inr db'"
  shows "round_keeps db db'"
proof -
  have "db' = db \<or> (\<exists>t tz r e'. draft_month_end e' t tz None None db = Inr (r, db'))"
    using assms by (auto simp: draft_month_end_for_tenant_def andthen_eq_Inr split: prod.splits if_splits)
  moreover have "round_keeps db db'" if d: "draft_month_end e' t tz None None db = Inr (r, db')" for e' t tz r
  proof (rule round_frame_keeps)
    show "round_frame db db'"
      using d draft_each_round by (auto simp: draft_month_end_def andthen_eq_Inr Let_def split: prod.splits)
    show "sales_step\<^sup>*\<^sup>* db db'" by (rule r_into_rtranclp [of sales_step, OF month_drafted [OF d]])
  qed
  ultimately show ?thesis by auto
qed

lemma run_once_keeps: "run_once e h faults tns db = (rs, db') \<Longrightarrow> round_keeps db db'"
proof (induction tns arbitrary: db rs)
  case (Cons tn tns)
  obtain run db1 where r: "run_for_tenant e tn h None (faults (tn_id tn)) db = (run, db1)" by fastforce
  let ?d = "case draft_month_end_for_tenant e tn h db1 of Inl err \<Rightarrow> db1 | Inr d \<Rightarrow> d"
  obtain rs' where rest: "run_once e h faults tns ?d = (rs', db')" using Cons.prems by (auto simp: r Let_def split: prod.splits)
  have "round_keeps db1 ?d" using draft_month_end_for_tenant_keeps [of e tn h db1] by (cases "draft_month_end_for_tenant e tn h db1") auto
  then show ?case using run_for_tenant_keeps [OF r] Cons.IH [OF rest] round_keeps_trans by blast
qed simp

text \<open>
  A step of the rounds is a pass of the scheduler, the run of one organisation, a manual run, or a step of
  the selling side, none of whose operations touches the run records or gives an identifier back.
\<close>

inductive round_step :: "'a round_db_scheme \<Rightarrow> 'a round_db_scheme \<Rightarrow> bool" where
  scheduler_pass: "run_once e h faults tns db = (rs, db') \<Longrightarrow> round_step db db'"
| tenant_run: "run_for_tenant e tn h force fault db = (run, db') \<Longrightarrow> round_step db db'"
| manual_run: "generate_by_hand e d a fault db = Inr (res, db') \<Longrightarrow> round_step db db'"
| round_elsewhere: "sales_step db db' \<Longrightarrow> generation_runs db' = generation_runs db \<Longrightarrow> next_id db \<le> next_id db' \<Longrightarrow> round_step db db'"

lemma round_step_keeps: "round_step db db' \<Longrightarrow> round_keeps db db'"
proof (induction rule: round_step.induct)
  case round_elsewhere
  then show ?case by (intro round_frame_keeps) (auto simp: round_frame_def)
next
  case (scheduler_pass e h faults tns db rs db')
  then show ?case by (rule run_once_keeps)
next
  case (tenant_run e tn h force fault db run db')
  then show ?case by (rule run_for_tenant_keeps)
next
  case (manual_run e d a fault db res db')
  then show ?case by (rule generate_by_hand_keeps)
qed

lemma round_run_keeps: "round_step\<^sup>*\<^sup>* db db' \<Longrightarrow> round_keeps db db'"
proof (induction rule: rtranclp_induct)
  case (step b c)
  then show ?case using round_step_keeps round_keeps_trans by blast
qed simp

lemma no_runs_ok: "generation_runs db = [] \<Longrightarrow> round_ok db"
  by (simp add: round_ok_def runs_ok_def)

lemma reachable_round:
  assumes "generation_runs db0 = []" and "round_step\<^sup>*\<^sup>* db0 db"
  shows "round_ok db" and "sales_step\<^sup>*\<^sup>* db0 db"
  using round_run_keeps [OF assms(2)] no_runs_ok [OF assms(1)] unfolding round_keeps_def by blast+

section \<open>What the records promise\<close>

text \<open>
  One record for a day. In every state reachable by passes of the scheduler, manual runs and operations
  of the selling side, an organisation has at most one run record for a day, no committed record is still
  marked as running, and every record counts at least one attempt.
\<close>

theorem runs_consistent:
  fixes db0 db :: "'a round_db_scheme"
  assumes "generation_runs db0 = []" and "round_step\<^sup>*\<^sup>* db0 db"
  shows "(\<forall>r \<in> set (generation_runs db). \<forall>q \<in> set (generation_runs db).
            gn_tenant r = gn_tenant q \<longrightarrow> gn_date r = gn_date q \<longrightarrow> r = q)
       \<and> (\<forall>r \<in> set (generation_runs db). gn_status r \<noteq> Running \<and> 1 \<le> gn_attempts r)"
proof -
  have "unique_keys run_key (generation_runs db)" and ok: "table_ok gn_id (next_id db) run_ok (generation_runs db)"
    using reachable_round(1) [OF assms] by (simp_all add: round_ok_def runs_ok_def)
  then have "r = q" if "r \<in> set (generation_runs db)" "q \<in> set (generation_runs db)" "gn_tenant r = gn_tenant q" "gn_date r = gn_date q" for r q
    using unique_keysD [of run_key "generation_runs db" r q] that by (simp add: run_key_def)
  then show ?thesis using table_okD(3) [OF ok] unfolding run_ok_def by blast
qed

text \<open>
  C36: The rounds refine the selling side. Whatever the scheduler and the operators do, with failures and
  rollbacks, holidays and routes, is on the sales tables a run of the operations of the selling side, so
  that its guarantees hold: no customer gets two deliveries of a product for one day and slot, and every
  bill and payment is in order.
\<close>

theorem rounds_refine_sales:
  fixes db0 db :: "'a round_db_scheme"
  assumes "no_sales db0" and "generation_runs db0 = []" and "round_step\<^sup>*\<^sup>* db0 db"
  shows "sales_step\<^sup>*\<^sup>* db0 db \<and> sales_inv db
       \<and> (\<forall>d \<in> set (deliveries db). \<forall>k \<in> set (deliveries db). drop_key d = drop_key k \<longrightarrow> d = k)"
proof -
  have steps: "sales_step\<^sup>*\<^sup>* db0 db" by (rule reachable_round(2) [OF assms(2,3)])
  have inv: "sales_inv db" by (rule reachable_sales [OF assms(1) steps])
  have "unique_keys drop_key (deliveries db)"
    using stock_invD(4) [OF sales_invD(1) [OF inv]] by (simp add: deliveries_ok_def)
  then show ?thesis using steps inv unique_keysD [of drop_key "deliveries db"] by blast
qed

lemma find_filed: "find (\<lambda>q. gn_tenant q = gn_tenant r \<and> gn_date q = gn_date r) (filed_run r rs) = Some r"
proof (cases "find (\<lambda>q. gn_tenant q = gn_tenant r \<and> gn_date q = gn_date r) rs")
  case None
  then have "filed_run r rs = rs @ [r]" by (simp add: filed_run_def)
  moreover have "\<not> (gn_tenant x = gn_tenant r \<and> gn_date x = gn_date r)" if "x \<in> set rs" for x
    using None that by (simp add: find_None_ball)
  ultimately show ?thesis using find_last [of "\<lambda>q. gn_tenant q = gn_tenant r \<and> gn_date q = gn_date r" r rs] by simp
next
  case (Some q)
  then have "find (\<lambda>q. gn_tenant q = gn_tenant r \<and> gn_date q = gn_date r) (row_update gn_id (gn_id q) (\<lambda>_. r) rs) = Some r"
    by (induction rs) (auto split: if_splits)
  then show ?thesis using Some by (simp add: filed_run_def)
qed

lemma run_for_filed:
  assumes "generation_runs db' = filed_run r rs" and "same_day_run r (base_run e t day tr db)"
  shows "run_for t day db' = Some r"
  using find_filed [of r rs] assms by (simp add: run_for_def same_day_run_def)

lemma last_run_of_latest:
  assumes "unique_keys run_key (generation_runs db)" and "r \<in> set (generation_runs db)" and "gn_tenant r = t"
    and "\<And>q. q \<in> set (generation_runs db) \<Longrightarrow> gn_tenant q = t \<Longrightarrow> gn_date q \<le> gn_date r"
  shows "last_run_of t db = Some r"
proof -
  let ?rs = "sort_key (\<lambda>r. - gn_date r) (filter (\<lambda>r. gn_tenant r = t) (generation_runs db))"
  have r: "r \<in> set ?rs" using assms(2,3) by simp
  then obtain q qs where q: "?rs = q # qs" by (cases ?rs) simp_all
  have "q \<in> set ?rs" unfolding q by simp
  then have mem: "q \<in> set (generation_runs db)" "gn_tenant q = t" by simp_all
  have "sorted (map (\<lambda>r. - gn_date r) (q # qs))" using sorted_sort_key [of "\<lambda>r. - gn_date r"] unfolding q [symmetric] by blast
  then have "gn_date r \<le> gn_date q" using r unfolding q by auto
  then have "run_key q = run_key r" using assms(3,4) mem by (force simp: run_key_def)
  then have "q = r" by (rule unique_keysD [OF assms(1) mem(1) assms(2)])
  then show ?thesis by (simp add: last_run_of_def q)
qed

lemma finished_day_not_claimed:
  assumes "run_for t day db = Some r" and "gn_status r \<in> set FINISHED_STATUSES"
  shows "record_run e t day By_Scheduler w sc fault db = ((Some r, already_claimed day (Some r)), db)"
  using assms by (auto simp: record_run_def claim_def FINISHED_STATUSES_def)

lemma should_run_today: "should_run e tz h l = Some d \<Longrightarrow> d = fst (business_date_and_hour e tz)"
  by (auto simp: should_run_def split: prod.splits option.splits if_splits)

text \<open>
  C37: A settled day is counted once and left alone. A run that wins its day and is settled has raised the
  number of deliveries created for the day by exactly the deliveries added to the table, over all attempts
  of the day. As long as the organisation has no record of a later day, the record the scheduler looks up
  is the day's own, and it sees nothing due for the rest of the day. A manual run for a later day takes
  that place; the scheduler then asks for the settled day again, but its pass, at whatever minute of the
  day, changes nothing, and so does a worker that comes late: it is told that it created nothing.
\<close>

theorem settled_day_counted:
  fixes db0 db :: "'a round_db_scheme"
  assumes "generation_runs db0 = []" and "round_step\<^sup>*\<^sup>* db0 db"
    and "record_run e t day tr w sc fault db = ((Some r, res), db')" and "claim e t day tr db \<noteq> None"
    and "gn_status r \<in> set FINISHED_STATUSES"
  shows "gn_created r + length (deliveries db)
           = (case run_for t day db of None \<Rightarrow> 0 | Some q \<Rightarrow> gn_created q) + length (deliveries db')
       \<and> run_for t day db' = Some r
       \<and> ((\<forall>q \<in> set (generation_runs db'). gn_tenant q = t \<longrightarrow> gn_date q \<le> day)
            \<longrightarrow> last_run_of t db' = Some r
              \<and> (fst (business_date_and_hour e' tz) = day \<longrightarrow> should_run e' tz h (last_run_of t db') = None))
       \<and> (tn_id tn = t \<longrightarrow> fst (business_date_and_hour e' (tn_timezone tn)) = day
            \<longrightarrow> snd (run_for_tenant e' tn h None fault' db') = db')
       \<and> record_run e' t day By_Scheduler w' sc' fault' db' = ((Some r, already_claimed day (Some r)), db')
       \<and> gr_created (already_claimed day (Some r)) = 0"
proof -
  have "run_settled e t day tr r res db db'"
    using assms(3) reachable_round(1) [OF assms(1,2), unfolded round_ok_def]
  proof (cases rule: record_run_cases)
    case (failed q)
    then show ?thesis using assms(5) by (simp add: run_failed_def FINISHED_STATUSES_def)
  qed (use assms(4) in \<open>simp_all add: run_lost_def\<close>)
  then have s: "same_day_run r (base_run e t day tr db)" "generation_runs db' = filed_run r (generation_runs db)"
      "gn_created r = gn_created (base_run e t day tr db) + gr_created res"
      "length (deliveries db') = length (deliveries db) + gr_created res"
    by (simp_all add: run_settled_def)
  have run: "run_for t day db' = Some r" by (rule run_for_filed [OF s(2,1)])
  note lost = finished_day_not_claimed [OF run assms(5)]
  have "round_ok db'" using record_run_keeps [OF assms(3)] reachable_round(1) [OF assms(1,2)] by (simp add: round_keeps_def)
  then have keys: "unique_keys run_key (generation_runs db')" by (simp add: round_ok_def runs_ok_def)
  have latest: "last_run_of t db' = Some r" if "\<forall>q \<in> set (generation_runs db'). gn_tenant q = t \<longrightarrow> gn_date q \<le> day"
    using last_run_of_latest [OF keys, of r t] run_for_key [OF run] that by blast
  have "should_run e' tz h (Some r) = None" if "fst (business_date_and_hour e' tz) = day"
    using that assms(5) run_for_key [OF run] by (auto simp: should_run_def split: prod.splits)
  moreover have "snd (run_for_tenant e' tn h None fault' db') = db'"
    if "tn_id tn = t" "fst (business_date_and_hour e' (tn_timezone tn)) = day"
  proof (cases "should_run e' (tn_timezone tn) h (last_run_of t db')")
    case (Some d)
    then show ?thesis using should_run_today [OF Some] that by (simp add: run_for_tenant_def lost)
  qed (simp add: run_for_tenant_def that(1))
  moreover have "gn_created (base_run e t day tr db) = (case run_for t day db of None \<Rightarrow> 0 | Some q \<Rightarrow> gn_created q)"
    by (simp add: base_run_def fresh_run_def split: option.splits)
  ultimately show ?thesis using s(3,4) run lost latest by (simp add: already_claimed_def nothing_done_def)
qed

section \<open>Two promises that do not hold\<close>

fun failing_runs ::
  "uuid \<Rightarrow> date \<Rightarrow> (uuid option \<Rightarrow> bool) option \<Rightarrow> round_scope list \<Rightarrow> (env \<times> error) list \<Rightarrow> 'a round_db_scheme \<Rightarrow> 'a round_db_scheme" where
  "failing_runs t day w sc [] db = db"
| "failing_runs t day w sc ((e, err) # fs) db = failing_runs t day w sc fs (snd (record_run e t day By_Scheduler w sc (Some err) db))"

definition tried_once :: "uuid \<Rightarrow> date \<Rightarrow> 'a round_db_scheme \<Rightarrow> bool" where
  "tried_once t day db \<longleftrightarrow> (\<exists>r. run_for t day db = Some r \<and> gn_status r = Failed_Run \<and> gn_attempts r = 1)"

lemma failing_run:
  assumes "run_for t day db = None \<or> tried_once t day db"
  shows "tried_once t day (snd (record_run e t day By_Scheduler w sc (Some err) db))"
    and "deliveries (snd (record_run e t day By_Scheduler w sc (Some err) db)) = deliveries db"
proof -
  obtain r db1 where c: "claim e t day By_Scheduler db = Some (r, db1)"
    using assms by (auto simp: claim_def tried_once_def MAX_ATTEMPTS_def Let_def new_id_eq)
  obtain f db2 where f: "record_failure e t day By_Scheduler err db = (f, db2)" by fastforce
  have run: "snd (record_run e t day By_Scheduler w sc (Some err) db) = db2"
    by (simp add: record_run_def c generate_the_day_def f)
  have "gn_attempts f = max 1 (gn_attempts (base_run e t day By_Scheduler db))"
    by (rule record_failure_facts(4) [OF f]) (use assms in \<open>auto simp: tried_once_def\<close>)
  then have "gn_attempts f = 1" using assms by (auto simp: tried_once_def base_run_def fresh_run_def)
  moreover have "run_for t day db2 = Some f" by (rule run_for_filed [OF record_failure_facts(2,1) [OF f]])
  ultimately show "tried_once t day (snd (record_run e t day By_Scheduler w sc (Some err) db))"
    using record_failure_facts(3) [OF f] unfolding run tried_once_def by blast
  show "deliveries (snd (record_run e t day By_Scheduler w sc (Some err) db)) = deliveries db"
    using record_failure_facts(5) [OF f] unfolding run by (simp add: desk_frame_def)
qed

lemma failing_runs_tried:
  "run_for t day db = None \<or> tried_once t day db
     \<Longrightarrow> deliveries (failing_runs t day w sc fs db) = deliveries db
       \<and> (fs \<noteq> [] \<or> tried_once t day db \<longrightarrow> tried_once t day (failing_runs t day w sc fs db))"
proof (induction fs arbitrary: db)
  case (Cons f fs)
  obtain e err where f: "f = (e, err)" by fastforce
  show ?case using Cons.IH [OF disjI2 [OF failing_run(1) [OF Cons.prems]]] failing_run [OF Cons.prems] by (simp add: f)
qed simp

text \<open>
  C39: Failed attempts are not counted. The claim that raises the number of attempts is rolled back together
  with the round that fails, so after any positive number of failed runs of a day its record still says one
  attempt: the limit of three is never reached, and at every later minute of that day after the generation
  hour the scheduler runs the failing round again.
\<close>

theorem failed_attempts_never_counted:
  fixes db :: "'a round_db_scheme"
  assumes "run_for t day db = None" and "fs \<noteq> []"
  shows "\<exists>r. run_for t day (failing_runs t day w sc fs db) = Some r \<and> gn_status r = Failed_Run \<and> gn_attempts r = 1
       \<and> deliveries (failing_runs t day w sc fs db) = deliveries db
       \<and> (\<forall>e tz h. fst (business_date_and_hour e tz) = day \<longrightarrow> h \<le> snd (business_date_and_hour e tz)
            \<longrightarrow> should_run e tz h (Some r) = Some day)"
proof -
  have f: "deliveries (failing_runs t day w sc fs db) = deliveries db" "tried_once t day (failing_runs t day w sc fs db)"
    using failing_runs_tried [of t day db w sc fs] assms by auto
  then obtain r where r: "run_for t day (failing_runs t day w sc fs db) = Some r" "gn_status r = Failed_Run" "gn_attempts r = 1"
    unfolding tried_once_def by blast
  have "should_run e tz h (Some r) = Some day"
    if "fst (business_date_and_hour e tz) = day" "h \<le> snd (business_date_and_hour e tz)" for e tz h
    using that r(2,3) run_for_key [OF r(1)]
    by (cases "business_date_and_hour e tz") (simp add: should_run_def FINISHED_STATUSES_def MAX_ATTEMPTS_def)
  then show ?thesis using r f(1) by blast
qed

text \<open>
  C40: A recorded holiday stops the operator too. When the scheduler has recorded a day as a holiday, the
  manual run for that day, which is meant to take any day whatever the calendar says, changes no delivery
  and no record and reports that nothing was due: the list of states a manual run may claim leaves the
  holiday out.
\<close>

theorem manual_after_holiday_refused:
  fixes db :: "'a round_db_scheme"
  assumes "run_for t day db = Some r" and "gn_status r = Holiday_Run" and "current_tenant e = Some t"
  shows "\<exists>res db'. generate_by_hand e (Some day) actor fault db = Inr (res, db') \<and> gr_created res = 0 \<and> gr_due res = gn_due r
       \<and> deliveries db' = deliveries db \<and> generation_runs db' = generation_runs db"
proof -
  have "claim e t day By_Hand db = None" using assms(1,2) by (simp add: claim_def)
  then have "record_run e t day By_Hand None [] fault db = ((Some r, already_claimed day (Some r)), db)"
    by (simp add: record_run_def assms(1))
  then show ?thesis
    using assms(3) by (simp add: generate_by_hand_def require_current_tenant_def need_def already_claimed_def nothing_done_def audit_of_def)
qed

end
