(* ===== verification/SchedulerSamples.thy ===== *)
theory SchedulerSamples
  imports SchedulerGuarantees SalesSamples
begin

text \<open>
  The sample shop with a calendar, a scheduler and a financial period: rounds that succeed, fail and fall
  on a holiday. The guarantees of the rounds and of the periods are applied along these runs.
\<close>

definition sample_rounds :: round_db where
  "sample_rounds =
     \<lparr>next_id = 100, organizations = [shop_org], centers = [], suppliers = [], supplier_profiles = [],
      supplier_centers = [], devices = [], branches = [], periods = [], sequences = [], outbox = [], audit_log = [],
      config_entries = [], products = [], customers = [], plans = [], deliveries = [], sale_items = [], invoices = [],
      invoice_lines = [], customer_payments = [], allocations = [], customer_receipts = [], calendar_days = [],
      centre_entries = [], generation_runs = [], routes = [], route_stops = []\<rparr>"

definition sample_tenant :: scheduled_tenant where
  "sample_tenant = \<lparr>tn_id = 7, tn_timezone = ''UTC''\<rparr>"

lemma rounds_empty: "no_sales sample_rounds" "generation_runs sample_rounds = []" "periods sample_rounds = []"
  by (simp_all add: no_sales_def sample_rounds_def)

section \<open>A round\<close>

lemma rounds_evaluated:
  "case do_product sample_rounds of None \<Rightarrow> False | Some a \<Rightarrow> next_id sample_rounds \<le> next_id a \<and> generation_runs a = []
     \<and> (case do_buyer a of None \<Rightarrow> False | Some db \<Rightarrow> next_id a \<le> next_id db \<and> generation_runs db = [] \<and> deliveries db = []
          \<and> (case record_run shop_open 7 738900 By_Scheduler None [] None db of ((run, res), c) \<Rightarrow>
               (case run of None \<Rightarrow> False | Some r \<Rightarrow> gn_status r = Success \<and> gn_created r = 1) \<and> map gn_date (generation_runs c) = [738900])
          \<and> (case run_once shop_open 0 (\<lambda>_. None) [sample_tenant] db of (rs, c) \<Rightarrow>
               map gn_status rs = [Success] \<and> map gn_status (generation_runs c) = [Success] \<and> length (deliveries c) = 1))"
  by code_simp

lemma rounds_run:
  obtains db c rs where "round_step\<^sup>*\<^sup>* sample_rounds db" "generation_runs db = []" "deliveries db = []"
    "run_once shop_open 0 (\<lambda>_. None) [sample_tenant] db = (rs, c)" "round_step\<^sup>*\<^sup>* sample_rounds c"
    "map gn_status (generation_runs c) = [Success]" "length (deliveries c) = 1"
    "case record_run shop_open 7 738900 By_Scheduler None [] None db of ((run, res), c) \<Rightarrow>
       (case run of None \<Rightarrow> False | Some r \<Rightarrow> gn_status r = Success \<and> gn_created r = 1) \<and> map gn_date (generation_runs c) = [738900]"
proof -
  from rounds_evaluated obtain a where a: "do_product sample_rounds = Some a" by (auto split: option.splits)
  from rounds_evaluated obtain b where b: "do_buyer a = Some b" by (auto simp: a split: option.splits)
  obtain rs c where c: "run_once shop_open 0 (\<lambda>_. None) [sample_tenant] b = (rs, c)" by fastforce
  note f = rounds_evaluated [unfolded a option.case b c prod.case]
  have "round_step sample_rounds a" by (rule round_elsewhere [OF shop_ops(1) [OF a]]) (use f rounds_empty in simp_all)
  moreover have "round_step a b" by (rule round_elsewhere [OF shop_ops(2) [OF b]]) (use f in simp_all)
  ultimately have "round_step\<^sup>*\<^sup>* sample_rounds b" by simp
  moreover have "round_step\<^sup>*\<^sup>* sample_rounds c" by (rule then_step [OF calculation scheduler_pass [OF c]])
  ultimately show thesis using that [OF _ _ _ c] f by simp
qed

lemma runs_consistent_witness:
  "\<exists>db r. round_step\<^sup>*\<^sup>* sample_rounds db \<and> generation_runs db = [r] \<and> gn_status r = Success \<and> 1 \<le> gn_attempts r"
proof (rule rounds_run, goal_cases)
  case (1 db c rs)
  then obtain r where "generation_runs c = [r]" "gn_status r = Success" by (auto simp: map_eq_Cons_conv)
  then show ?case using runs_consistent [OF rounds_empty(2) 1(5)] 1(5) by (intro exI [of _ c] exI [of _ r]) simp
qed

lemma rounds_refine_sales_witness:
  "\<exists>db. round_step\<^sup>*\<^sup>* sample_rounds db \<and> sales_step\<^sup>*\<^sup>* sample_rounds db \<and> length (deliveries db) = 1"
proof (rule rounds_run, goal_cases)
  case (1 db c rs)
  then show ?case using rounds_refine_sales [OF rounds_empty(1,2) 1(5)] by (intro exI [of _ c]) simp
qed

lemma settled_day_counted_witness:
  "\<exists>db r res db'. record_run shop_open 7 738900 By_Scheduler None [] None db = ((Some r, res), db') \<and> deliveries db = []
     \<and> length (deliveries (db' :: round_db)) = 1 \<and> run_for 7 738900 db' = Some r
     \<and> should_run shop_open ''UTC'' 0 (last_run_of 7 db') = None \<and> snd (run_for_tenant shop_open sample_tenant 0 None None db') = db'"
proof (rule rounds_run, goal_cases)
  case (1 db c rs)
  obtain run res db' where r: "record_run shop_open 7 738900 By_Scheduler None [] None db = ((run, res), db')" by (metis prod.collapse)
  then obtain q where q: "run = Some q" "gn_status q = Success" "gn_created q = 1" "map gn_date (generation_runs db') = [738900]"
    using 1(8) by (auto split: option.splits)
  have none: "run_for 7 738900 db = None" by (simp add: run_for_def 1(2))
  then have "claim shop_open 7 738900 By_Scheduler db \<noteq> None" by (simp add: claim_def new_id_eq Let_def)
  moreover have "gn_status q \<in> set FINISHED_STATUSES" by (simp add: FINISHED_STATUSES_def q(2))
  moreover have "fst (business_date_and_hour shop_open ''UTC'') = 738900" by code_simp
  moreover have "\<forall>x \<in> set (generation_runs db'). gn_tenant x = 7 \<longrightarrow> gn_date x \<le> 738900"
    using q(4) by (auto simp: map_eq_Cons_conv)
  ultimately have "last_run_of 7 db' = Some q" "should_run shop_open ''UTC'' 0 (last_run_of 7 db') = None"
      "run_for 7 738900 db' = Some q" "length (deliveries db') = 1" "snd (run_for_tenant shop_open sample_tenant 0 None None db') = db'"
    using settled_day_counted [OF rounds_empty(2) 1(1) r [unfolded q(1)], where e' = shop_open and tz = "''UTC''" and h = 0
        and tn = sample_tenant and fault' = None and w' = None and sc' = "[]"] none 1(3) q(3)
    by (auto simp: sample_tenant_def)
  then show ?case using r q(1) 1(3) by metis
qed

section \<open>Failing rounds and a holiday\<close>

lemma failed_attempts_never_counted_witness:
  "\<exists>r. run_for 7 738900 (failing_runs 7 738900 None [] (replicate 5 (shop_open, ValueError ''lost'')) sample_rounds) = Some r
     \<and> gn_attempts r = 1 \<and> should_run shop_open ''UTC'' 0 (Some r) = Some 738900"
proof -
  have "run_for 7 738900 sample_rounds = None" by (simp add: run_for_def sample_rounds_def)
  moreover have "business_date_and_hour shop_open ''UTC'' = (738900, 0)" by code_simp
  ultimately show ?thesis
    using failed_attempts_never_counted [of 7 738900 sample_rounds "replicate 5 (shop_open, ValueError ''lost'')" None "[]"]
    by fastforce
qed

text \<open>
  The scheduler records the day as a holiday; on the same state the generator would have created the
  delivery the operator asks for.
\<close>

lemma holiday_evaluated:
  "case script [do_product, do_buyer] sample_rounds of None \<Rightarrow> False | Some a \<Rightarrow>
     (case set_calendar_day 7 \<lparr>ci_day = 738900, ci_working = False, ci_kind = ''holiday'', ci_name = ''Pongal''\<rparr> None a of
        Inl err \<Rightarrow> False
      | Inr (row, b) \<Rightarrow>
          (case run_once shop_open 0 (\<lambda>_. None) [sample_tenant] b of (rs, c) \<Rightarrow>
             (case run_for 7 738900 c of None \<Rightarrow> False | Some r \<Rightarrow> gn_status r = Holiday_Run) \<and> deliveries c = []
             \<and> (case generate_for_day 7 738900 None None None None c of Inl err \<Rightarrow> False | Inr (r, d) \<Rightarrow> gr_created r = 1)))"
  by code_simp

lemma manual_after_holiday_refused_witness:
  "\<exists>db :: round_db. \<exists>r res db'. run_for 7 738900 db = Some r \<and> gn_status r = Holiday_Run
     \<and> generate_by_hand shop_open (Some 738900) 9 None db = Inr (res, db') \<and> gr_created res = 0 \<and> deliveries db' = []
     \<and> (case generate_for_day 7 738900 None None None None db of Inl err \<Rightarrow> False | Inr (g, d) \<Rightarrow> gr_created g = 1)"
proof -
  from holiday_evaluated obtain a where a: "script [do_product, do_buyer] sample_rounds = Some a" by (auto split: option.splits)
  note g = holiday_evaluated [unfolded a option.case]
  obtain row b where b:
    "set_calendar_day 7 \<lparr>ci_day = 738900, ci_working = False, ci_kind = ''holiday'', ci_name = ''Pongal''\<rparr> None a = Inr (row, b)"
    using g by (cases "set_calendar_day 7 \<lparr>ci_day = 738900, ci_working = False, ci_kind = ''holiday'', ci_name = ''Pongal''\<rparr> None a") auto
  obtain rs c where p: "run_once shop_open 0 (\<lambda>_. None) [sample_tenant] b = (rs, c)" by fastforce
  note f = g [unfolded b sum.case prod.case p]
  obtain r where r: "run_for 7 738900 c = Some r" using f by (auto split: option.splits)
  note c = r conjunct1 [OF f [unfolded r option.case]] conjunct2 [OF f [unfolded r option.case]]
  have "current_tenant shop_open = Some 7" by (simp add: sample_env_def)
  then obtain res db' where "generate_by_hand shop_open (Some 738900) 9 None c = Inr (res, db')" "gr_created res = 0" "deliveries db' = deliveries c"
    using manual_after_holiday_refused [OF c(1,2), of shop_open 9 None] by blast
  then show ?thesis using c by (intro exI [of _ c] exI [of _ r] exI [of _ res] exI [of _ db']) simp
qed

section \<open>A closed period\<close>

definition do_open_period :: "round_db \<Rightarrow> round_db option" where
  "do_open_period db = done_with (open_period 7 \<lparr>fi_start = 738800, fi_end = 738899, fi_label = ''December''\<rparr> db)"

definition do_close_period :: "round_db \<Rightarrow> round_db option" where
  "do_close_period db = done_with (close_period shop_open 7 100 (Some 9) db)"

lemma period_evaluated: "case script [do_open_period, do_close_period] sample_rounds of None \<Rightarrow> False | Some db \<Rightarrow> map fp_status (periods db) = [''closed'']"
  by code_simp

lemma period_guard_exact_witness:
  "\<exists>db p. period_step\<^sup>*\<^sup>* sample_rounds db \<and> periods db = [p] \<and> fp_status p = ''closed''
     \<and> (assert_period_open db (fp_tenant p) (fp_start p) = Inr () \<longleftrightarrow> fp_end p < fp_start p)"
proof -
  from period_evaluated obtain db where db: "script [do_open_period, do_close_period] sample_rounds = Some db" by (auto split: option.splits)
  then obtain p where p: "periods db = [p]" "fp_status p = ''closed''" using period_evaluated by (auto simp: map_eq_Cons_conv)
  have "FinancialPeriodInput 738800 738899 ''December'' = Inr \<lparr>fi_start = 738800, fi_end = 738899, fi_label = ''December''\<rparr>"
    by code_simp
  then have "period_step\<^sup>*\<^sup>* sample_rounds db"
    by (intro script_steps [OF db]) (auto simp: do_open_period_def do_close_period_def done_with_Some intro: period_opened period_closed)
  then show ?thesis using period_guard_exact [OF rounds_empty(3), of db "fp_tenant p" "fp_start p"] p
    by (intro exI [of _ db] exI [of _ p]) auto
qed

end
