(* ===== verification/Spec2Isabelle.thy ===== *)
theory Spec2Isabelle
  imports CollectionSamples PaymentSamples SalesSamples SchedulerSamples
begin

text \<open>
  Lacteva platform core: the two money sides of a dairy.

  The program. \<open>src/services/platform-core/src/platform_core\<close> is a multi-tenant service that takes in
  milk at collection centres, prices it, settles it with the suppliers and pays them, and that sells
  milk to customers: standing orders, deliveries, bills and the money received for them. Its
  modules share one relational database; a request runs one operation of a service class in one
  database transaction, which the exception of a failing operation rolls back. The theories follow
  the modules and name their operations as the code does. All file names below are relative to
  \<open>platform_core\<close>.

  How the model reads the code.
  \<^item> State. A table is the list of its rows in insertion order, a row a record with the columns of the
    ORM model. The database is a record (\<open>core_db\<close>) that each layer extends with its own tables:
    \<open>core_db\<close> (Platform), \<open>pricing_db\<close> (PricingTables), \<open>collection_db\<close> (CollectionTables),
    \<open>settlement_db\<close> (Settlement), \<open>payment_db\<close> (Payment), and beside these \<open>sales_db\<close>
    (SalesTables), which \<open>calendar_db\<close> (BusinessCalendar) and \<open>round_db\<close> (Scheduler) extend. An operation takes the request context
    (\<open>env\<close>: tenant, clock, settings), its command, and the database, and returns
    \<open>error + (result \<times> database)\<close>; \<open>Inl\<close> leaves no trace, as the rollback does. Where the code catches
    an exception and goes on without a savepoint (the import of customers), the operation returns the
    database beside the error. Identifiers are fresh numbers (\<open>new_id\<close>).
  \<^item> Errors. Every \<open>raise\<close>, every validator of a command and every constraint of a table that an
    operation can meet is a branch with a constructor of \<open>error\<close>; the text of a message is
    abbreviated.
  \<^item> Numbers. Decimals are exact rationals with the operations of the decimal context written out,
    precision 28 and rounding included (Decimals); floats are the rationals a binary64 represents, with
    rounding to nearest even, shortest \<open>repr\<close> and \<open>round\<close> (Floats, FloatMath); \<open>NUMERIC(p, s)\<close>
    columns round and overflow (\<open>numeric\<close> in Platform), and in
    payments and on the selling side \<open>String(n)\<close> columns that a command does not bound refuse longer
    texts (\<open>column_text\<close>). Dates are proleptic ordinals, instants
    microseconds.
  \<^item> Loops. The loops of the services run over lists and are structural recursions or maps, folds and
    filters, so they return by construction. The searches of the number models (the decimal exponent,
    the integer root) terminate by measures; the shortest decimal that reads back as a float is
    searched up to 17 digits, which always suffice for a double. The search for the next delivery takes
    the number of days the code passes as its horizon; \<open>next_due_exact\<close> shows what it finds and
    \<open>running_plan_due_within_week\<close> that seven days suffice for a running order. No other definition
    has a bound.

  The parts and their theories.
  \<^item> Prelude, Decimals, Floats, FloatMath, Strings: the result type, tables, the life-cycle locales,
    and what the code uses of the Python language and library.
  \<^item> Money (\<open>core/types.py\<close>, \<open>core/money.py\<close>, \<open>core/locales.py\<close>), Units (\<open>core/units.py\<close>).
  \<^item> Platform: tenancy and business time (\<open>core/tenancy.py\<close>, \<open>core/business_time.py\<close>), the
    organisation's settings (\<open>core/org_context.py\<close>), the outbox, the audit log, the period guard and
    the document series (\<open>core/document_numbers.py\<close>). Its two interfaces are locales:
    \<open>number_series\<close> (a call hands out the counter of its key and moves only that one), interpreted on
    \<open>allocate\<close>, and \<open>event_log\<close> (the first event of a key stays the one found), interpreted on the
    outbox. Calendar adds the month arithmetic, Configuration \<open>modules/configuration\<close>.
  \<^item> Pricing: PricingTables (\<open>modules/pricing/models.py\<close>), RateCards (\<open>service.py\<close>: cards, their
    life cycle, versions), Matrices (\<open>matrix.py\<close>: bands and their overlaps and gaps), Resolution
    (\<open>resolution.py\<close>: card, matrix and band for a reading), Calculator (\<open>calculator.py\<close>: price times
    quantity in one rounding), PricingSteps (the module as a transition system).
  \<^item> Collection: Readings (\<open>infrastructure/hardware.py\<close>), CollectionTables (\<open>models.py\<close>), Collection (\<open>modules/milk_collection/service.py\<close>), CollectionSteps (each
    operation on one transaction), CollectionRuns (runs), CollectionGuarantees (the properties),
    CollectionSamples (a worked day on which the properties are applied).
  \<^item> Settlement (\<open>modules/settlement\<close>), SettlementSteps, SettlementGuarantees; Payment
    (\<open>modules/payment\<close>), PaymentSteps, PaymentGuarantees, PaymentSamples; Numbering: tables whose rows
    carry a number of a series, shared by slips, settlements and payments. Scripts: how the samples
    run and evaluate a list of operations.
  \<^item> Sales: Schedule (\<open>modules/customer/schedule.py\<close>: weekdays, pauses, the next delivery), SalesTables
    (the rows of \<open>modules/catalog\<close>, \<open>customer\<close>, \<open>delivery\<close>, \<open>sale_item\<close>, \<open>billing\<close>), Customers
    (\<open>modules/catalog/service.py\<close>, \<open>modules/customer/service.py\<close>: products, customers, standing
    orders), Deliveries (\<open>modules/delivery/service.py\<close> and \<open>generation.py\<close>,
    \<open>modules/sale_item/service.py\<close>: the generated round, what was delivered, what was sold beside it),
    Billing (\<open>modules/billing/service.py\<close> and \<open>month_end.py\<close>: bills, payments, statements, receipts).
    SalesSteps and BookFrames: the operations before billing keep their tables in order and leave the
    books alone; BillingSteps, BillRuns and BillPayments: the operations on bills and money keep the
    invariants of the books; SalesGuarantees: the transition system and the properties; SalesSamples:
    a shop with one customer.
  \<^item> Rounds: BusinessCalendar (\<open>modules/business_calendar\<close>, the calendar of \<open>modules/collection_center\<close>:
    working days, financial periods and the order they keep), Scheduler (\<open>modules/delivery/scheduler.py\<close>,
    the routes handed to it by \<open>modules/logistics/service.py\<close>, and the manual run of
    \<open>modules/delivery/service.py\<close>: the claim of a day, its round, its record, the month-end drafts),
    SchedulerGuarantees (the rounds as steps of the selling side, and what the records promise),
    SchedulerSamples (rounds that succeed, fail and fall on a holiday). A run that fails rolls its claim
    back and files the failure in a transaction of its own, which the model writes out; \<open>fault\<close> is an
    error from outside the program.

  How they interact. A collection asks Resolution and Calculator for its price and files the
  calculation as an event, because it has no table of its own. A settlement reads its lines from
  those events (\<open>event_log\<close>) and from completed collections, a payment allocates the outstanding
  amount of finalized settlements, and slips, settlements and payments draw their numbers from
  \<open>number_series\<close>. Above each module, an \<open>inductive\<close> step relation has one rule per operation and
  one for what the rest of the platform does to the tables the module only reads; the invariants are
  proved for every step, hence for every reachable state, by rule induction. On the selling side a bill
  reads the confirmed deliveries and the items of a period and stamps them with its id, cancelling
  takes the stamps back, a payment is spread over the bills that were handed out, and a delivery or
  an item that is on a bill can no longer be changed.

  What the lemmas show.
  \<^item> Pricing: BR-0001 to BR-0003. Published cards never change, never overlap and price a reading in at
    most one way; resolution is exact, reports the first stage that fails, and is stable; the
    calculated amount is the product up to one rounding step.
  \<^item> Collection: every state reachable is consistent, a run refines the documented state machine, a
    completed record and its snapshot are immutable, a session can always be driven to its end, weights
    are exact although computed in floats, the list price survives any number of overrides, and a missing price never stops the intake.
  \<^item> Settlement: BR-0008 to BR-0012 and BR-0027. No milk is settled twice, totals are exact, a
    finalized settlement is final, and a repeated sweep adds nothing.
  \<^item> Payment: BR-0018. No settlement is paid beyond its net amount as long as no failed payment is taken
    up again, and what happens when one is (it succeeds whenever its texts fit their columns, and claims
    its lines once more); immutable outcomes; idempotent creation.
  \<^item> Sales: in every reachable state bills total exactly their lines, nothing is billed twice, and the
    desk's tables keep their keys; an issued bill never changes; money is allotted within bounds and
    exactly as a reference waterfall pours it over the bills, oldest first; cancelling a draft restores
    everything it claimed; the balances of a statement are those of the account; a generated round is
    complete and idempotent; a running standing order has a delivery within the week.
  \<^item> Rounds: scheduler passes and manual runs refine the selling side, a day has one record, a settled
    day is counted once and later passes of that day change nothing, although the scheduler asks for it
    again once a later day has a record, periods never share a day. The limit on failed attempts is
    never reached, and a recorded holiday also stops the manual run: both are proved of the code.
  \<^item> Platform: document numbers are sequential and, as printed, never repeat, across years too; months partition the calendar.

  Parameters. \<open>env\<close> holds what is not under \<open>src/\<close> or is decided elsewhere: the IANA time zone
  database, SHA-256 and the HMAC of a QR code, the readiness verdict of a centre, the clock. None of the
  theorems assumes anything of them unless it says so.

  Bounds. A statement is shown exact below a thousand million bills and payments; amounts are those
  their \<open>NUMERIC\<close> columns admit.

  Not modelled. HTTP routes, authentication and permissions (the operations start from an
  authenticated tenant and actor), the relay that delivers outbox events, read models, reports, PDF
  and CSV output, notifications, synchronisation, logistics beyond the route members of a
  round, the platform's own subscriptions, and administration of the reference tables
  (centres, suppliers, devices and organisations are tables the steps may change arbitrarily
  within their keys; so are, for the other modules, the periods). Concurrency is the interleaving of whole operations; the row locks and unique
  constraints that make it so in the database are not modelled beyond their errors.
\<close>

end
